(* ===== verification/Json.thy ===== *)
theory Json
  imports Prelude "HOL-Library.AList"
begin

text \<open>
  The \<open>serde_json::Value\<close> the wire code inspects: the value type and the accessors the
  sources call (\<open>get\<close>, \<open>as_str\<close>, \<open>as_u64\<close>, \<open>is_null\<close>). An object is an association
  list; \<open>get\<close> finds the first binding, and \<open>json_insert\<close> replaces an existing one, so
  lookups agree with the map of the library. The text parser and printer of \<open>serde_json\<close>
  are not modelled: where the code parses, the parser is an argument of the definition.
\<close>

datatype json =
    JNull
  | JBool bool
  | JInt int          \<comment> \<open>a number literal without fraction or exponent\<close>
  | JFloat string     \<comment> \<open>any other number, by its lexeme\<close>
  | JStr string
  | JArr "json list"
  | JObj "(string \<times> json) list"

fun json_get :: "string \<Rightarrow> json \<Rightarrow> json option" where
  "json_get k (JObj m) = map_of m k"
| "json_get k _ = None"

fun as_str :: "json \<Rightarrow> string option" where
  "as_str (JStr s) = Some s"
| "as_str _ = None"

definition u64_max :: int where
  "u64_max = 2 ^ 64 - 1"

fun as_u64 :: "json \<Rightarrow> int option" where
  "as_u64 (JInt n) = (if 0 \<le> n \<and> n \<le> u64_max then Some n else None)"
| "as_u64 _ = None"

fun is_null :: "json \<Rightarrow> bool" where
  "is_null JNull = True"
| "is_null _ = False"

text \<open>\<open>v.get(k).and_then(Value::as_str)\<close> and the like.\<close>

definition get_str :: "string \<Rightarrow> json \<Rightarrow> string option" where
  "get_str k v = Option.bind (json_get k v) as_str"

definition get_u64 :: "string \<Rightarrow> json \<Rightarrow> int option" where
  "get_u64 k v = Option.bind (json_get k v) as_u64"

definition json_insert :: "string \<Rightarrow> json \<Rightarrow> (string \<times> json) list \<Rightarrow> (string \<times> json) list" where
  "json_insert k v m = AList.update k v m"

lemma json_get_insert [simp]:
  "json_get j (JObj (json_insert k v m)) = (if j = k then Some v else json_get j (JObj m))"
  by (simp add: json_insert_def update_conv)

lemma get_str_simps [simp]:
  "get_str k (JObj m) = Option.bind (map_of m k) as_str"
  by (simp add: get_str_def)

lemma get_u64_simps [simp]:
  "get_u64 k (JObj m) = Option.bind (map_of m k) as_u64"
  by (simp add: get_u64_def)

end
