(* ===== verification/Engine_Params.thy ===== *)
theory Engine_Params
  imports Json
begin

text \<open>
  The load and sampling parameters of the engine: \<open>GpuLayers\<close> and \<open>CtxLen\<close> of
  \<open>src/worker/engine/mod.rs\<close> with their lenient deserialisers and the sentinels of the
  foreign interface, the parameter records of \<open>src/worker/engine/llamacpp/params.rs\<close> with
  \<open>has_overrides\<close>, \<open>overlaid_with\<close> and \<open>unsupported_sampler\<close>, and
  \<open>NodeLoadParams\<close> of \<open>src/remote.rs\<close>.

  Floating-point parameters are only copied and compared, so \<open>f32\<close> is the 32-bit pattern;
  they arrive as JSON numbers, so none of them is a NaN. The tagged forms are read as the
  objects the program writes; the array and variant-index spellings that derived
  deserialisers also take are left out.
\<close>

type_synonym f32 = u32

subsection \<open>Layers and context\<close>

datatype GpuLayers = All | Count u32

definition gpu_layers_default :: GpuLayers where
  "gpu_layers_default = Count 0"

definition is_cpu_only :: "GpuLayers \<Rightarrow> bool" where
  "is_cpu_only g \<longleftrightarrow> g = Count 0"

definition u32_MAX :: u32 where "u32_MAX = - 1"

definition to_n_gpu_layers :: "GpuLayers \<Rightarrow> u32" where
  "to_n_gpu_layers g = (case g of All \<Rightarrow> u32_MAX | Count n \<Rightarrow> n)"

definition gpu_layers_to_json :: "GpuLayers \<Rightarrow> json" where
  "gpu_layers_to_json g =
     (case g of
        All \<Rightarrow> JObj [(''kind'', JStr ''all'')]
      | Count n \<Rightarrow> JObj [(''kind'', JStr ''count''), (''n'', JInt (uint n))])"

definition u32_try_from :: "int \<Rightarrow> u32 option" where
  "u32_try_from n = (if 0 \<le> n \<and> n < 2 ^ 32 then Some (word_of_int n) else None)"

definition gpu_layers_from_json :: "json \<Rightarrow> GpuLayers option" where
  "gpu_layers_from_json v =
     (case as_u64 v of
        Some n \<Rightarrow>
          map_option (\<lambda>n. if n = u32_MAX then All else Count n) (u32_try_from n)
      | None \<Rightarrow>
          (if get_str ''kind'' v = Some ''all'' then Some All
           else if get_str ''kind'' v = Some ''count'' then
             map_option Count (Option.bind (get_u64 ''n'' v) u32_try_from)
           else None))"

datatype CtxLen = Auto | Fixed u32

definition ctx_fixed :: "u32 \<Rightarrow> CtxLen" where
  "ctx_fixed n = (if n = 0 then Auto else Fixed n)"

definition to_n_ctx :: "CtxLen \<Rightarrow> u32" where
  "to_n_ctx c = (case c of Auto \<Rightarrow> 0 | Fixed n \<Rightarrow> n)"

definition ctx_len_to_json :: "CtxLen \<Rightarrow> json" where
  "ctx_len_to_json c =
     (case c of
        Auto \<Rightarrow> JObj [(''kind'', JStr ''auto'')]
      | Fixed n \<Rightarrow> JObj [(''kind'', JStr ''fixed''), (''n'', JInt (uint n))])"

definition ctx_len_from_json :: "json \<Rightarrow> CtxLen option" where
  "ctx_len_from_json v =
     (case as_u64 v of
        Some n \<Rightarrow> (if n = 0 then Some Auto else map_option Fixed (u32_try_from n))
      | None \<Rightarrow>
          (if get_str ''kind'' v = Some ''auto'' then Some Auto
           else if get_str ''kind'' v = Some ''fixed'' then
             map_option ctx_fixed (Option.bind (get_u64 ''n'' v) u32_try_from)
           else None))"

lemma uint_u32_bounds [simp]: "0 \<le> uint (n::u32)" "uint (n::u32) < 4294967296" "uint (n::u32) \<le> u64_max"
  using uint_bounded [of n] by (simp_all add: u64_max_def)

lemma u32_try_from_uint [simp]: "u32_try_from (uint n) = Some n"
  by (simp add: u32_try_from_def)

lemma u32_try_from_eq_Some: "u32_try_from i = Some n \<longleftrightarrow> i = uint n"
  by (auto simp: u32_try_from_def uint_word_of_int)

subsection \<open>Load parameters\<close>

datatype SplitMode = SplitNone | SplitLayer | SplitRow
datatype RopeScalingType = RopeUnspecified | RopeNone | RopeLinear | RopeYarn
datatype FlashAttn = FlashAuto | FlashOff | FlashOn
datatype KvCacheKind = F32 | F16 | Q8_0 | Q5_1 | Q5_0 | Q4_1 | Q4_0
datatype KvOverride = KvOverride string string

record LlamaCppParams =
  ctx_len :: CtxLen
  gpu_layers :: GpuLayers
  threads :: u32
  use_mmap :: "bool option"
  use_mlock :: "bool option"
  cpu_moe :: "bool option"
  cpu_buft_overrides :: "string list"
  split_mode :: "SplitMode option"
  main_gpu :: "32 word option"
  devices :: "u32 list option"
  n_batch :: "u32 option"
  n_ubatch :: "u32 option"
  n_seq_max :: "u32 option"
  n_threads_batch :: "u32 option"
  flash_attn :: "FlashAttn option"
  offload_kqv :: "bool option"
  swa_full :: "bool option"
  type_k :: "KvCacheKind option"
  type_v :: "KvCacheKind option"
  rope_scaling_type :: "RopeScalingType option"
  rope_freq_base :: "f32 option"
  rope_freq_scale :: "f32 option"
  kv_overrides :: "KvOverride list"
  load_seed :: "u32 option"

definition params_default :: LlamaCppParams where
  "params_default =
     \<lparr>ctx_len = Auto, gpu_layers = gpu_layers_default, threads = 0, use_mmap = None,
      use_mlock = None, cpu_moe = None, cpu_buft_overrides = [], split_mode = None,
      main_gpu = None, devices = None, n_batch = None, n_ubatch = None, n_seq_max = None,
      n_threads_batch = None, flash_attn = None, offload_kqv = None, swa_full = None,
      type_k = None, type_v = None, rope_scaling_type = None, rope_freq_base = None,
      rope_freq_scale = None, kv_overrides = [], load_seed = None\<rparr>"

definition params_base :: "CtxLen \<Rightarrow> GpuLayers \<Rightarrow> u32 \<Rightarrow> LlamaCppParams" where
  "params_base c g t = params_default\<lparr>ctx_len := c, gpu_layers := g, threads := t\<rparr>"

definition is_some :: "'a option \<Rightarrow> bool" where
  "is_some x \<longleftrightarrow> x \<noteq> None"

definition has_overrides :: "LlamaCppParams \<Rightarrow> bool" where
  "has_overrides p \<longleftrightarrow>
     is_some (use_mmap p) \<or> is_some (use_mlock p) \<or> is_some (cpu_moe p) \<or>
     is_some (split_mode p) \<or> is_some (main_gpu p) \<or> is_some (devices p) \<or>
     is_some (n_batch p) \<or> is_some (n_ubatch p) \<or> is_some (n_seq_max p) \<or>
     is_some (n_threads_batch p) \<or> is_some (flash_attn p) \<or> is_some (offload_kqv p) \<or>
     is_some (swa_full p) \<or> is_some (type_k p) \<or> is_some (type_v p) \<or>
     is_some (rope_scaling_type p) \<or> is_some (rope_freq_base p) \<or>
     is_some (rope_freq_scale p) \<or> is_some (load_seed p) \<or>
     cpu_buft_overrides p \<noteq> [] \<or> kv_overrides p \<noteq> []"

record NodeLoadParams =
  load_id :: string
  load_ctx_len :: "u32 option"
  load_gpu_layers :: "GpuLayers option"
  load_threads :: "u32 option"
  load_params :: "LlamaCppParams option"

subsection \<open>Sampling parameters\<close>

record DryParams =
  multiplier :: f32
  dry_base :: f32
  allowed_length :: "32 word"
  dry_last_n :: "32 word"
  sequence_breakers :: "string list"

record MirostatParams =
  version :: u32
  tau :: f32
  eta :: f32

record GrammarParams =
  gbnf :: string
  root :: string

record LlamaCppSamplingParams =
  temperature :: "f32 option"
  dynatemp_range :: "f32 option"
  dynatemp_exponent :: "f32 option"
  top_k :: "32 word option"
  top_p :: "f32 option"
  min_p :: "f32 option"
  typical_p :: "f32 option"
  top_n_sigma :: "f32 option"
  xtc_probability :: "f32 option"
  xtc_threshold :: "f32 option"
  penalty_last_n :: "32 word option"
  penalty_repeat :: "f32 option"
  penalty_freq :: "f32 option"
  penalty_present :: "f32 option"
  dry :: "DryParams option"
  mirostat :: "MirostatParams option"
  logit_bias :: "(32 word \<times> f32) list"
  grammar :: "GrammarParams option"
  sample_seed :: "u32 option"

definition sampling_default :: LlamaCppSamplingParams where
  "sampling_default =
     \<lparr>temperature = None, dynatemp_range = None, dynatemp_exponent = None, top_k = None,
      top_p = None, min_p = None, typical_p = None, top_n_sigma = None, xtc_probability = None,
      xtc_threshold = None, penalty_last_n = None, penalty_repeat = None, penalty_freq = None,
      penalty_present = None, dry = None, mirostat = None, logit_bias = [], grammar = None,
      sample_seed = None\<rparr>"

definition overlaid_with ::
  "LlamaCppSamplingParams \<Rightarrow> LlamaCppSamplingParams \<Rightarrow> LlamaCppSamplingParams" where
  "overlaid_with s over =
     \<lparr>temperature = opt_or (temperature over) (temperature s),
      dynatemp_range = opt_or (dynatemp_range over) (dynatemp_range s),
      dynatemp_exponent = opt_or (dynatemp_exponent over) (dynatemp_exponent s),
      top_k = opt_or (top_k over) (top_k s),
      top_p = opt_or (top_p over) (top_p s),
      min_p = opt_or (min_p over) (min_p s),
      typical_p = opt_or (typical_p over) (typical_p s),
      top_n_sigma = opt_or (top_n_sigma over) (top_n_sigma s),
      xtc_probability = opt_or (xtc_probability over) (xtc_probability s),
      xtc_threshold = opt_or (xtc_threshold over) (xtc_threshold s),
      penalty_last_n = opt_or (penalty_last_n over) (penalty_last_n s),
      penalty_repeat = opt_or (penalty_repeat over) (penalty_repeat s),
      penalty_freq = opt_or (penalty_freq over) (penalty_freq s),
      penalty_present = opt_or (penalty_present over) (penalty_present s),
      dry = opt_or (dry over) (dry s),
      mirostat = opt_or (mirostat over) (mirostat s),
      logit_bias = (if logit_bias over = [] then logit_bias s else logit_bias over),
      grammar = opt_or (grammar over) (grammar s),
      sample_seed = opt_or (sample_seed over) (sample_seed s)\<rparr>"

definition unsupported_sampler :: "LlamaCppSamplingParams \<Rightarrow> string option" where
  "unsupported_sampler p =
     (if is_some (grammar p) then Some ''grammar''
      else if logit_bias p \<noteq> [] then Some ''logit_bias''
      else if is_some (dry p) then Some ''dry''
      else if is_some (mirostat p) then Some ''mirostat''
      else None)"

subsection \<open>Properties\<close>

text \<open>The typed layer count and context window agree with the sentinels they replace. A
  legacy integer is read as the value whose foreign-interface form is that integer (so
  \<open>u32::MAX\<close> still means every layer and 0 the trained context), one that does not fit
  32 bits is refused instead of wrapped, and what is written in the tagged form is read back,
  except that a fixed window of 0 tokens becomes automatic.\<close>

theorem layer_and_context_sentinels:
  "(\<forall>n. map_option to_n_gpu_layers (gpu_layers_from_json (JInt (uint n))) = Some n) \<and>
   (\<forall>n. map_option to_n_ctx (ctx_len_from_json (JInt (uint n))) = Some n) \<and>
   (\<forall>i. 2 ^ 32 \<le> i \<longrightarrow>
      gpu_layers_from_json (JInt i) = None \<and> ctx_len_from_json (JInt i) = None) \<and>
   gpu_layers_from_json (gpu_layers_to_json g) = Some g \<and>
   ctx_len_from_json (ctx_len_to_json c) = Some (ctx_fixed (to_n_ctx c))"
proof -
  have "uint n = 0 \<longleftrightarrow> n = 0" for n :: u32 by (simp add: uint_0_iff)
  moreover have "gpu_layers_from_json (JInt i) = None \<and> ctx_len_from_json (JInt i) = None"
    if "2 ^ 32 \<le> i" for i :: int
    using that by (auto simp: gpu_layers_from_json_def ctx_len_from_json_def u32_try_from_def
        get_str_def get_u64_def)
  moreover have "ctx_len_from_json (ctx_len_to_json c) = Some (ctx_fixed (to_n_ctx c))"
    by (cases c)
      (simp_all add: ctx_len_from_json_def ctx_len_to_json_def ctx_fixed_def to_n_ctx_def)
  moreover have "gpu_layers_from_json (gpu_layers_to_json g) = Some g"
    by (cases g) (simp_all add: gpu_layers_from_json_def gpu_layers_to_json_def)
  ultimately show ?thesis
    by (simp add: gpu_layers_from_json_def ctx_len_from_json_def to_n_gpu_layers_def
        to_n_ctx_def)
qed

theorem layer_and_context_sentinels_witness:
  "gpu_layers_from_json (JInt (2 ^ 32)) = None"
  using layer_and_context_sentinels [of All Auto] by simp

text \<open>A parameter set is reported to have overrides exactly when it differs from the bare
  set with the same three base fields, so dropping the payload of a load without overrides
  loses nothing and a load with one is never sent bare.\<close>

theorem has_overrides_iff:
  "has_overrides p \<longleftrightarrow> p \<noteq> params_base (ctx_len p) (gpu_layers p) (threads p)"
  by (cases p) (auto simp: has_overrides_def is_some_def params_base_def params_default_def)

text \<open>Overlaying sampling parameters is a monoid whose neutral element is the empty set
  of parameters: a request without parameters keeps the base, an empty base keeps the
  request, and layering base, profile and request does not depend on the grouping.\<close>

theorem overlaid_with_monoid:
  "overlaid_with s sampling_default = s \<and>
   overlaid_with sampling_default s = s \<and>
   overlaid_with (overlaid_with s t) u = overlaid_with s (overlaid_with t u)"
  by (simp add: overlaid_with_def sampling_default_def opt_or_assoc)

text \<open>No unsupported sampler is dropped in silence: an overlay is refused exactly when
  one of its two sides sets a grammar, a logit bias, DRY or Mirostat.\<close>

theorem unsupported_sampler_overlay:
  "unsupported_sampler (overlaid_with s over) = None \<longleftrightarrow>
     unsupported_sampler s = None \<and> unsupported_sampler over = None"
  by (auto simp: unsupported_sampler_def overlaid_with_def is_some_def opt_or_def
      split: option.splits)

end
