(* ===== verification/Diagnostics.thy ===== *)
theory Diagnostics
  imports Prelude
begin

text \<open>
  \<open>src/diagnostic.rs\<close>: the error type of the crate with its append-only codes (the
  variants the modelled code builds or the status table names; the others are one constructor
  that carries the code), and the one table that maps an error to its HTTP status (\<open>http_status\<close> of \<open>src/serve/mod.rs\<close>). The
  display texts are not modelled: nothing branches on them. A duration is its milliseconds,
  an \<open>f64\<close> is its mantissa and binary exponent.
\<close>

type_synonym f64 = "int \<times> int"

datatype io_kind = NotFound | PermissionDenied | WouldBlock | InvalidData | InvalidInput | OtherKind

text \<open>The capability class of a model (\<open>ModelDomain\<close> of \<open>src/worker/models.rs\<close>).\<close>

datatype ModelDomain = Llm | EmbeddingDomain | RerankerDomain

text \<open>The lifecycle events a supervisor and a node's runtime announce.\<close>

datatype HiggsEvent = ModelLoaded string | ModelUnloaded string | WorkerDied | WorkerRestarted

text \<open>An I/O error keeps its kind and the code of the diagnostic it wraps, if any.\<close>

datatype io_error = IoError io_kind "string option"

datatype (plugins only: code) HiggsError =
    ModelNotFound string
  | ModelNotChatCapable string string ModelDomain
  | ModelNotLoaded string
  | EngineLoadFailed string string
  | ContextOverflow nat nat nat
  | WorkerSpawnFailed io_error
  | WorkerDead string
  | RpcDecode string
  | WorkerRpc string string "string option"
  | InvalidSamplingParam string string
  | ServerBusy nat nat
  | InvalidModelId string string
  | ChatTimeout nat
  | InsufficientMemory string u64 u64 f64
  | ResidentModelMismatch string string
  | ServingDisabled
  | PairingTokenInvalid string
  | NodeUnreachable string string
  | DownloadFailed string string string
  | HubFileWrite string string string
  | RpcMethodNotFound string string
  | ProtocolViolation string string
  | HubRequestRejected string string
  | PersistenceFailed string string io_error
  | StoreCorrupted string string string
  | ChatTaskFailed string
  | NotPrepared string
  | ProfileStale string
  | Unauthorized
  | InvalidRequest string
  | TemplateRenderFailed string
  | GenerationFailed string string
  | ChatStreamOverflow nat
  | LanBindWithoutKeys string
  | LoadOomExhausted nat string
  | BenchExhausted string
  | BenchCancelled
  | LastKeyOnLan string
  | LastAdminKey string
  | BenchModelLoaded string
  | BenchInProgress string
  | EphemeralResident string
  | DownloadCancelled string string bool
  | DownloadInFlight string string
  | LanBindWithoutAdminKey string
  | InvalidKeyRequest string
  | InternalFault string string
  | ChatTestTargetMoved string
  | NodeTooOldForParams string u32
  | UpdateKeyUnknown string
  | UpdateSignatureInvalid string
  | UpdateManifestInvalid string
  | UpdateArtifactMismatch string string string
  | UpdateNotNewer string string
  | UpdateTargetMismatch string string string
  | UpdateApplyFailed string
  | UpdateFetchFailed string
  | OtherError string    \<comment> \<open>any other variant, by its code\<close>

text \<open>The diagnostic code (\<open>Diagnostic::code\<close>), as the derive reads it off the attributes.\<close>

primrec error_code :: "HiggsError \<Rightarrow> string" where
  "error_code (ModelNotFound _) = ''HG002''"
| "error_code (ModelNotChatCapable _ _ _) = ''HG079''"
| "error_code (ModelNotLoaded _) = ''HG003''"
| "error_code (EngineLoadFailed _ _) = ''HG004''"
| "error_code (ContextOverflow _ _ _) = ''HG005''"
| "error_code (WorkerSpawnFailed _) = ''HG006''"
| "error_code (WorkerDead _) = ''HG007''"
| "error_code (RpcDecode _) = ''HG008''"
| "error_code (WorkerRpc _ _ _) = ''HG009''"
| "error_code (InvalidSamplingParam _ _) = ''HG013''"
| "error_code (ServerBusy _ _) = ''HG014''"
| "error_code (InvalidModelId _ _) = ''HG015''"
| "error_code (ChatTimeout _) = ''HG016''"
| "error_code (InsufficientMemory _ _ _ _) = ''HG017''"
| "error_code (ResidentModelMismatch _ _) = ''HG018''"
| "error_code ServingDisabled = ''HG019''"
| "error_code (PairingTokenInvalid _) = ''HG022''"
| "error_code (NodeUnreachable _ _) = ''HG027''"
| "error_code (DownloadFailed _ _ _) = ''HG025''"
| "error_code (HubFileWrite _ _ _) = ''HG034''"
| "error_code (RpcMethodNotFound _ _) = ''HG037''"
| "error_code (ProtocolViolation _ _) = ''HG038''"
| "error_code (HubRequestRejected _ _) = ''HG039''"
| "error_code (PersistenceFailed _ _ _) = ''HG040''"
| "error_code (StoreCorrupted _ _ _) = ''HG041''"
| "error_code (ChatTaskFailed _) = ''HG044''"
| "error_code (NotPrepared _) = ''HG046''"
| "error_code (ProfileStale _) = ''HG047''"
| "error_code Unauthorized = ''HG048''"
| "error_code (InvalidRequest _) = ''HG049''"
| "error_code (TemplateRenderFailed _) = ''HG050''"
| "error_code (GenerationFailed _ _) = ''HG011''"
| "error_code (ChatStreamOverflow _) = ''HG057''"
| "error_code (LanBindWithoutKeys _) = ''HG058''"
| "error_code (LoadOomExhausted _ _) = ''HG060''"
| "error_code (BenchExhausted _) = ''HG063''"
| "error_code BenchCancelled = ''HG064''"
| "error_code (LastKeyOnLan _) = ''HG059''"
| "error_code (LastAdminKey _) = ''HG066''"
| "error_code (BenchModelLoaded _) = ''HG067''"
| "error_code (BenchInProgress _) = ''HG068''"
| "error_code (EphemeralResident _) = ''HG080''"
| "error_code (DownloadCancelled _ _ _) = ''HG089''"
| "error_code (DownloadInFlight _ _) = ''HG090''"
| "error_code (LanBindWithoutAdminKey _) = ''HG069''"
| "error_code (InvalidKeyRequest _) = ''HG072''"
| "error_code (InternalFault _ _) = ''HG042''"
| "error_code (ChatTestTargetMoved _) = ''HG077''"
| "error_code (NodeTooOldForParams _ _) = ''HG078''"
| "error_code (UpdateKeyUnknown _) = ''HG081''"
| "error_code (UpdateSignatureInvalid _) = ''HG082''"
| "error_code (UpdateManifestInvalid _) = ''HG083''"
| "error_code (UpdateArtifactMismatch _ _ _) = ''HG084''"
| "error_code (UpdateNotNewer _ _) = ''HG085''"
| "error_code (UpdateTargetMismatch _ _ _) = ''HG086''"
| "error_code (UpdateApplyFailed _) = ''HG087''"
| "error_code (UpdateFetchFailed _) = ''HG088''"
| "error_code (OtherError c) = c"

subsection \<open>HTTP status\<close>

text \<open>The status of an error a worker or a remote node reported under its origin code.\<close>

definition worker_code_status :: "string option \<Rightarrow> nat" where
  "worker_code_status c =
     (if c = Some ''HG002'' \<or> c = Some ''HG003'' then 404
      else if c = Some ''HG005'' \<or> c = Some ''HG050'' then 400
      else if c = Some ''HG006'' \<or> c = Some ''HG007'' \<or> c = Some ''HG017'' \<or> c = Some ''HG018''
        \<or> c = Some ''HG060'' then 503
      else if c = Some ''HG016'' then 504
      else if c = Some ''HG079'' then 400
      else if c = Some ''HG037'' then 501
      else if c = Some ''HG038'' then 502
      else 500)"

definition http_status :: "HiggsError \<Rightarrow> nat" where
  "http_status e =
     (case e of
        ModelNotFound _ \<Rightarrow> 404
      | ModelNotLoaded _ \<Rightarrow> 404
      | ModelNotChatCapable _ _ _ \<Rightarrow> 400
      | Unauthorized \<Rightarrow> 401
      | LastKeyOnLan _ \<Rightarrow> 409
      | LastAdminKey _ \<Rightarrow> 409
      | BenchModelLoaded _ \<Rightarrow> 409
      | EphemeralResident _ \<Rightarrow> 409
      | BenchInProgress _ \<Rightarrow> 503
      | BenchCancelled \<Rightarrow> 409
      | ContextOverflow _ _ _ \<Rightarrow> 400
      | InvalidSamplingParam _ _ \<Rightarrow> 400
      | InvalidModelId _ _ \<Rightarrow> 400
      | InvalidRequest _ \<Rightarrow> 400
      | InvalidKeyRequest _ \<Rightarrow> 400
      | NotPrepared _ \<Rightarrow> 400
      | ProfileStale _ \<Rightarrow> 400
      | TemplateRenderFailed _ \<Rightarrow> 400
      | WorkerSpawnFailed _ \<Rightarrow> 503
      | WorkerDead _ \<Rightarrow> 503
      | ServerBusy _ _ \<Rightarrow> 503
      | InsufficientMemory _ _ _ _ \<Rightarrow> 503
      | LoadOomExhausted _ _ \<Rightarrow> 503
      | BenchExhausted _ \<Rightarrow> 503
      | NodeUnreachable _ _ \<Rightarrow> 503
      | ServingDisabled \<Rightarrow> 503
      | ChatTimeout _ \<Rightarrow> 504
      | RpcMethodNotFound _ _ \<Rightarrow> 501
      | ProtocolViolation _ _ \<Rightarrow> 502
      | HubRequestRejected _ _ \<Rightarrow> 502
      | WorkerRpc _ _ c \<Rightarrow> worker_code_status c
      | _ \<Rightarrow> 500)"

text \<open>The codes a worker or node reports with a status of their own.\<close>

definition relayed_codes :: "string list" where
  "relayed_codes = [''HG002'', ''HG003'', ''HG005'', ''HG050'', ''HG006'', ''HG007'', ''HG017'',
     ''HG060'', ''HG016'', ''HG079'', ''HG037'', ''HG038'']"

text \<open>Relaying an error does not change its HTTP status: when a worker or node reports a
  failure under its origin code, the client sees the status the same error has when it is
  raised locally, for every code the relay table names; a resident-model mismatch is the one
  error whose relayed form (503, retry) differs from its local form (500).\<close>

theorem relayed_status_parity:
  "(error_code e \<in> set relayed_codes \<longrightarrow> (\<forall>c. e \<noteq> OtherError c) \<longrightarrow>
      http_status (WorkerRpc m msg (Some (error_code e))) = http_status e) \<and>
   http_status (WorkerRpc m msg (Some (error_code (ResidentModelMismatch a b)))) = 503 \<and>
   http_status (ResidentModelMismatch a b) = 500"
  by (cases e) (simp_all add: relayed_codes_def http_status_def worker_code_status_def)

theorem relayed_status_parity_witness:
  "http_status (WorkerRpc ''higgs/chat'' ''down'' (Some ''HG007'')) = 503"
  using relayed_status_parity [of "WorkerDead ''down''" "''higgs/chat''" "''down''"]
  by (simp add: relayed_codes_def http_status_def)

end
