(* ===== verification/Text.thy ===== *)
theory Text
  imports Prelude
begin

text \<open>
  The string functions of the standard library that paths and names are built with:
  \<open>str::split\<close> on a character and the decimal form of an unsigned number.
\<close>

fun split_on :: "char \<Rightarrow> string \<Rightarrow> string list" where
  "split_on c [] = [[]]"
| "split_on c (x # s) =
     (if x = c then [] # split_on c s
      else case split_on c s of
             [] \<Rightarrow> [[x]]
           | y # ys \<Rightarrow> (x # y) # ys)"

lemma split_on_not_Nil [simp]: "split_on c s \<noteq> []"
  by (cases s) (auto split: list.split)

lemma split_on_absent: "c \<notin> set s \<Longrightarrow> split_on c s = [s]"
  by (induction s) auto

lemma split_on_append: "c \<notin> set a \<Longrightarrow> split_on c (a @ c # s) = a # split_on c s"
  by (induction a) auto

lemma split_on_join: "split_on c (a @ c # s) = split_on c a @ split_on c s"
proof (induction a)
  case (Cons x a)
  then show ?case by (cases "split_on c a") auto
qed simp

lemma split_on_hd: "\<exists>r. split_on c s = takeWhile (\<lambda>x. x \<noteq> c) s # r"
  by (induction s) auto

text \<open>What follows a separator is a part.\<close>

lemma word_in_split:
  "a = [] \<or> last a = c \<Longrightarrow> takeWhile (\<lambda>x. x \<noteq> c) s \<in> set (split_on c (a @ s))"
  using split_on_hd [of c s] by (cases a rule: rev_cases) (auto simp: split_on_join)

lemma split_on_parts: "p \<in> set (split_on c s) \<Longrightarrow> c \<notin> set p"
  by (induction s arbitrary: p) (auto split: list.splits if_splits)

lemma split_on_single: "split_on c s = [a] \<longleftrightarrow> a = s \<and> c \<notin> set s"
proof (induction s arbitrary: a)
  case (Cons x s)
  then show ?case by (cases "split_on c s") (auto split: list.splits)
qed auto

lemma split_on_two:
  "split_on c s = [a, b] \<longleftrightarrow> s = a @ c # b \<and> c \<notin> set a \<and> c \<notin> set b"
proof (induction s arbitrary: a)
  case (Cons x s)
  show ?case
  proof (cases "x = c")
    case True
    then show ?thesis by (cases a) (auto simp: split_on_single)
  next
    case False
    show ?thesis
    proof (cases a)
      case Nil
      with False show ?thesis by (auto split: list.split)
    next
      case (Cons y a')
      with False Cons.IH [of a'] show ?thesis by (auto split: list.split)
    qed
  qed
qed auto

definition digit :: "nat \<Rightarrow> char" where
  "digit n = char_of (48 + n)"

fun dec :: "nat \<Rightarrow> string" where
  "dec n = (if n < 10 then [digit n] else dec (n div 10) @ [digit (n mod 10)])"

declare dec.simps [simp del]

definition is_digit :: "char \<Rightarrow> bool" where
  "is_digit c \<longleftrightarrow> (48::nat) \<le> of_char c \<and> (of_char c :: nat) \<le> 57"

lemma is_digit_digit: "n < 10 \<Longrightarrow> is_digit (digit n)"
  by (simp add: is_digit_def digit_def of_char_of take_bit_eq_mod)

lemma dec_digits: "list_all is_digit (dec n)"
proof (induction n rule: dec.induct)
  case (1 n)
  then show ?case by (simp add: dec.simps [of n] is_digit_digit)
qed

lemma dec_not_Nil [simp]: "dec n \<noteq> []" "[] \<noteq> dec n"
  by (simp_all add: dec.simps [of n])

lemma digit_inj: "m < 10 \<Longrightarrow> n < 10 \<Longrightarrow> digit m = digit n \<longleftrightarrow> m = n"
proof
  assume "m < 10" "n < 10" "digit m = digit n"
  then have "(of_char (digit m) :: nat) = of_char (digit n)" by simp
  with \<open>m < 10\<close> \<open>n < 10\<close> show "m = n"
    by (simp add: digit_def of_char_of take_bit_eq_mod)
qed simp

lemma dec_inj: "dec m = dec n \<longleftrightarrow> m = n"
proof
  assume "dec m = dec n"
  then show "m = n"
  proof (induction m arbitrary: n rule: dec.induct)
    case (1 m)
    show ?case
    proof (cases "m < 10"; cases "n < 10")
      assume "\<not> m < 10" "\<not> n < 10"
      with 1 have "m div 10 = n div 10" "digit (m mod 10) = digit (n mod 10)"
        by (auto simp: dec.simps [of m] dec.simps [of n])
      then have "m mod 10 = n mod 10" by (simp add: digit_inj)
      with \<open>m div 10 = n div 10\<close> show ?thesis by (metis div_mult_mod_eq)
    qed (use 1(2) in \<open>auto simp: dec.simps [of m] dec.simps [of n] digit_inj\<close>)
  qed
qed simp

text \<open>\<open>[T]::join\<close>, and joining as the inverse of splitting.\<close>

definition join_with :: "string \<Rightarrow> string list \<Rightarrow> string" where
  "join_with sep xs = (case xs of [] \<Rightarrow> [] | x # r \<Rightarrow> concat (x # map (\<lambda>y. sep @ y) r))"

lemma join_with_simps [simp]:
  "join_with sep [] = []" "join_with sep [x] = x"
  "join_with sep (x # y # r) = x @ sep @ join_with sep (y # r)"
  by (simp_all add: join_with_def)

lemma split_join:
  "xs \<noteq> [] \<Longrightarrow> list_all (\<lambda>x. c \<notin> set x) xs \<Longrightarrow> split_on c (join_with [c] xs) = xs"
proof (induction xs)
  case (Cons x r)
  then show ?case by (cases r) (simp_all add: split_on_absent split_on_append)
qed simp

lemma length_join: "length (join_with [c] xs) = sum_list (map length xs) + (length xs - 1)"
proof (induction xs)
  case (Cons x r)
  then show ?case by (cases r) simp_all
qed simp

end
