(* ===== verification/Tuning.thy ===== *)
theory Tuning
  imports Engine_Params Diagnostics Text
begin

text \<open>
  The saved tuning profiles (\<open>src/tune/store.rs\<close>, the profile views of \<open>src/serve/control.rs\<close>)
  and the decisions of a benchmark run (\<open>src/tune/bench.rs\<close>, \<open>run_benchmark\<close> of \<open>src/api.rs\<close>). The
  memory estimates, which are floating-point, enter as the fit reports they yield.
\<close>

unbundle bit_operations_syntax

subsection \<open>Comparing floats\<close>

text \<open>The order of \<open>f32\<close> values, read off their bits; nothing compares with a NaN.\<close>

definition f32_is_nan :: "f32 \<Rightarrow> bool" where
  "f32_is_nan x \<longleftrightarrow> x AND 0x7FFFFFFF > 0x7F800000"

definition f32_rank :: "f32 \<Rightarrow> int" where
  "f32_rank x = (if x < 0x80000000 then uint x else - uint (x AND 0x7FFFFFFF))"

definition f32_greater :: "f32 \<Rightarrow> f32 \<Rightarrow> bool" where
  "f32_greater x y \<longleftrightarrow> \<not> f32_is_nan x \<and> \<not> f32_is_nan y \<and> f32_rank x > f32_rank y"

subsection \<open>Profiles\<close>

datatype TuneProvenance = Heuristic | Card | Bench

record ResourceBudget =
  max_ram_bytes :: "u64 option"
  max_vram_bytes :: "u64 option"
  max_cpu_threads :: "u32 option"

definition budget_default :: ResourceBudget where
  "budget_default = \<lparr>max_ram_bytes = None, max_vram_bytes = None, max_cpu_threads = None\<rparr>"

record TuneRecord =
  tr_profile :: LlamaCppParams
  tr_sampling :: LlamaCppSamplingParams
  tr_budget :: ResourceBudget
  tr_provenance :: TuneProvenance
  tr_bench_tps :: "f32 option"
  tr_tuned_at_ms :: u64
  tr_hw_fingerprint :: string
  tr_file_sig :: string

definition is_stale :: "TuneRecord \<Rightarrow> string \<Rightarrow> string \<Rightarrow> bool" where
  "is_stale r current_hw current_sig \<longleftrightarrow>
     tr_hw_fingerprint r \<noteq> [] \<and> tr_hw_fingerprint r \<noteq> current_hw \<or>
     tr_file_sig r \<noteq> [] \<and> tr_file_sig r \<noteq> current_sig"

record ModelEntry =
  me_tuning :: "TuneRecord option"
  me_analytical :: "TuneRecord option"
  me_bench :: "TuneRecord option"

definition entry_default :: ModelEntry where
  "entry_default = \<lparr>me_tuning = None, me_analytical = None, me_bench = None\<rparr>"

type_synonym ModelsStore = "(string \<times> ModelEntry) list"

definition entry_of :: "string \<Rightarrow> ModelsStore \<Rightarrow> ModelEntry" where
  "entry_of i s = unwrap_or entry_default (map_of s i)"

definition tuning :: "string \<Rightarrow> ModelsStore \<Rightarrow> TuneRecord option" where
  "tuning i s = Option.bind (map_of s i) me_tuning"

definition put_tuning :: "string \<Rightarrow> TuneRecord \<Rightarrow> ModelsStore \<Rightarrow> ModelsStore" where
  "put_tuning i r s =
     (let e = entry_of i s;
          e = (if tr_provenance r = Bench then e\<lparr>me_bench := Some r\<rparr> else e\<lparr>me_analytical := Some r\<rparr>)
      in AList.update i (e\<lparr>me_tuning := Some r\<rparr>) s)"

definition set_profile ::
  "string \<Rightarrow> LlamaCppParams \<Rightarrow> string \<Rightarrow> string \<Rightarrow> u64 \<Rightarrow> ModelsStore \<Rightarrow> ModelsStore" where
  "set_profile i profile hw sig now_ms s =
     (let e = entry_of i s;
          r = (case me_tuning e of
                 Some r \<Rightarrow>
                   let r = (if tr_profile r \<noteq> profile
                            then r\<lparr>tr_provenance := Heuristic, tr_bench_tps := None\<rparr> else r)
                   in r\<lparr>tr_profile := profile, tr_tuned_at_ms := now_ms, tr_hw_fingerprint := hw, tr_file_sig := sig\<rparr>
               | None \<Rightarrow>
                   \<lparr>tr_profile = profile, tr_sampling = sampling_default, tr_budget = budget_default,
                    tr_provenance = Heuristic, tr_bench_tps = None, tr_tuned_at_ms = now_ms,
                    tr_hw_fingerprint = hw, tr_file_sig = sig\<rparr>)
      in AList.update i (e\<lparr>me_tuning := Some r\<rparr>) s)"

type_synonym TuneTriple = "TuneRecord option \<times> TuneRecord option \<times> TuneRecord option"

definition tuning_profiles :: "string \<Rightarrow> ModelsStore \<Rightarrow> TuneTriple" where
  "tuning_profiles i s =
     (case map_of s i of
        Some e \<Rightarrow> (me_tuning e, me_analytical e, me_bench e)
      | None \<Rightarrow> (None, None, None))"

definition all_tuning_profiles :: "ModelsStore \<Rightarrow> (string \<times> TuneTriple) list" where
  "all_tuning_profiles s =
     map (\<lambda>(i, e). (i, me_tuning e, me_analytical e, me_bench e))
       (filter (\<lambda>(i, e). me_tuning e \<noteq> None \<or> me_analytical e \<noteq> None \<or> me_bench e \<noteq> None) s)"

definition active_records :: "(string \<times> TuneTriple) list \<Rightarrow> (string \<times> TuneRecord) list" where
  "active_records ps = List.map_filter (\<lambda>(i, (act, _, _)). map_option (Pair i) act) ps"

text \<open>What a listing offers: the active record and the two histories.\<close>

definition from_triple :: "TuneTriple option \<Rightarrow> TuneTriple" where
  "from_triple triple =
     (case triple of
        None \<Rightarrow> (None, None, None)
      | Some (act, analytical, bench) \<Rightarrow>
          if analytical = None \<and> bench = None
          then (case act of
                  Some a \<Rightarrow> (if tr_provenance a = Bench then (act, None, act) else (act, act, None))
                | None \<Rightarrow> (None, None, None))
          else (act, analytical, bench))"

subsection \<open>The candidates of a benchmark\<close>

datatype FitVerdict = Fits | Tight | Overflow

record FitReport =
  fr_verdict :: FitVerdict
  fr_needed_bytes :: u64
  fr_budget_bytes :: u64

record TunePins =
  pin_ctx_len :: "CtxLen option"
  pin_gpu_layers :: "GpuLayers option"
  pin_type_k :: "KvCacheKind option"
  pin_type_v :: "KvCacheKind option"

record Candidate =
  cand_load :: LlamaCppParams
  cand_label :: string

definition ABS_VRAM_HEADROOM_BYTES :: u64 where "ABS_VRAM_HEADROOM_BYTES = 1073741824"

definition MAX_BENCHED_CANDIDATES :: nat where "MAX_BENCHED_CANDIDATES = 3"

definition passes_headroom :: "FitReport \<Rightarrow> u64 \<Rightarrow> bool" where
  "passes_headroom fit abs_floor =
     (if fr_verdict fit = Overflow then False
      else if fr_budget_bytes fit = 0 then True
      else sat_sub (fr_budget_bytes fit) (fr_needed_bytes fit) \<ge> abs_floor)"

definition apply_pins :: "LlamaCppParams \<Rightarrow> TunePins \<Rightarrow> LlamaCppParams" where
  "apply_pins seed pins =
     (let seed = (case pin_ctx_len pins of Some c \<Rightarrow> seed\<lparr>ctx_len := c\<rparr> | None \<Rightarrow> seed);
          seed = (case pin_gpu_layers pins of Some g \<Rightarrow> seed\<lparr>gpu_layers := g\<rparr> | None \<Rightarrow> seed);
          seed = (case pin_type_k pins of Some k \<Rightarrow> seed\<lparr>type_k := Some k\<rparr> | None \<Rightarrow> seed)
      in (case pin_type_v pins of Some v \<Rightarrow> seed\<lparr>type_v := Some v\<rparr> | None \<Rightarrow> seed))"

definition half_gpu_layers :: "LlamaCppParams \<Rightarrow> u32 option \<Rightarrow> LlamaCppParams option" where
  "half_gpu_layers seed layer_count =
     map_option (\<lambda>n. seed\<lparr>gpu_layers := Count n\<rparr>)
       (case gpu_layers seed of
          Count n \<Rightarrow> if 2 \<le> n then Some (n div 2) else None
        | All \<Rightarrow>
            (case layer_count of
               Some layers \<Rightarrow> if 2 \<le> layers then Some (layers div 2) else None
             | None \<Rightarrow> None))"

definition kv_rung :: "LlamaCppParams \<Rightarrow> KvCacheKind \<times> string \<Rightarrow> Candidate" where
  "kv_rung seed = (\<lambda>(kv, label). \<lparr>cand_load = seed\<lparr>type_k := Some kv, type_v := Some kv\<rparr>, cand_label = label\<rparr>)"

definition bench_variants :: "LlamaCppParams \<Rightarrow> u32 option \<Rightarrow> TunePins \<Rightarrow> Candidate list" where
  "bench_variants seed layer_count pins =
     (let kv_pinned = (pin_type_k pins \<noteq> None \<or> pin_type_v pins \<noteq> None);
          layers_pinned = (pin_gpu_layers pins \<noteq> None)
      in [\<lparr>cand_load = seed,
           cand_label = (if kv_pinned then ''seed (pinned KV cache)'' else ''seed (F16 KV cache)'')\<rparr>]
         @ (if kv_pinned then []
            else map (kv_rung seed) [(Q8_0, ''q8_0 KV cache''), (Q4_0, ''q4_0 KV cache'')])
         @ (if layers_pinned then []
            else (case half_gpu_layers seed layer_count of
                    Some half \<Rightarrow> [\<lparr>cand_load = half, cand_label = ''half GPU layers on CPU''\<rparr>]
                  | None \<Rightarrow> [])))"

definition bench_candidates ::
  "LlamaCppParams \<Rightarrow> u32 option \<Rightarrow> TunePins \<Rightarrow> (LlamaCppParams \<Rightarrow> FitReport) \<Rightarrow> Candidate list" where
  "bench_candidates seed layer_count pins estimate_vram =
     take MAX_BENCHED_CANDIDATES
       (filter (\<lambda>c. passes_headroom (estimate_vram (cand_load c)) ABS_VRAM_HEADROOM_BYTES)
         (bench_variants seed layer_count pins))"

definition pinned_bench_candidates ::
  "LlamaCppParams \<Rightarrow> u32 option \<Rightarrow> TunePins \<Rightarrow> (LlamaCppParams \<Rightarrow> FitReport) \<Rightarrow> Candidate list" where
  "pinned_bench_candidates suggested layer_count pins estimate_vram =
     bench_candidates (apply_pins suggested pins) layer_count pins estimate_vram"

subsection \<open>The run\<close>

record BenchResult =
  gen_tps :: f32
  prompt_tps :: f32
  ttft_ms :: f32

text \<open>The first of the fastest.\<close>

fun pick_from :: "nat \<Rightarrow> nat \<times> f32 \<Rightarrow> f32 list \<Rightarrow> nat" where
  "pick_from i (b, x) [] = b"
| "pick_from i (b, x) (y # ys) = pick_from (Suc i) (if f32_greater y x then (i, y) else (b, x)) ys"

definition pick_benchmarked :: "(Candidate \<times> BenchResult) list \<Rightarrow> nat option" where
  "pick_benchmarked results =
     (case map (gen_tps \<circ> snd) results of [] \<Rightarrow> None | x # xs \<Rightarrow> Some (pick_from 1 (0, x) xs))"

definition aggregate_failure :: "(string \<times> string) list \<Rightarrow> string" where
  "aggregate_failure attempts =
     (if attempts = [] then ''no candidate configs fit the resource budget for a benchmark''
      else ''every benchmark candidate failed ('' @
           join_with ''; '' (map (\<lambda>(label, why). label @ '': '' @ why) attempts) @ '')'')"

text \<open>
  One turn per candidate: is the run cancelled before it, and what its measurement answers;
  \<open>describe\<close> is the text of an error.
\<close>

fun bench_loop ::
  "(HiggsError \<Rightarrow> string) \<Rightarrow> (Candidate \<times> bool \<times> (HiggsError + BenchResult)) list \<Rightarrow>
   (Candidate \<times> BenchResult) list \<Rightarrow> (string \<times> string) list \<Rightarrow>
   HiggsError + (Candidate \<times> BenchResult) list \<times> (string \<times> string) list" where
  "bench_loop describe [] results failures = Inr (results, failures)"
| "bench_loop describe ((c, cancelled, answer) # turns) results failures =
     (if cancelled then Inl BenchCancelled
      else case answer of
        Inr b \<Rightarrow>
          if f32_greater (gen_tps b) 0 then bench_loop describe turns (results @ [(c, b)]) failures
          else bench_loop describe turns results (failures @ [(cand_label c, ''no measurable decode (0 tok/s)'')])
      | Inl e \<Rightarrow>
          if e = BenchCancelled then Inl BenchCancelled
          else bench_loop describe turns results (failures @ [(cand_label c, describe e)]))"

definition run_benchmark ::
  "(HiggsError \<Rightarrow> string) \<Rightarrow> (Candidate \<times> bool \<times> (HiggsError + BenchResult)) list \<Rightarrow> HiggsError + Candidate \<times> BenchResult" where
  "run_benchmark describe turns =
     (case bench_loop describe turns [] [] of
        Inl e \<Rightarrow> Inl e
      | Inr (results, failures) \<Rightarrow>
          (case pick_benchmarked results of
             Some i \<Rightarrow> Inr (results ! i)
           | None \<Rightarrow> Inl (BenchExhausted (aggregate_failure failures))))"

subsection \<open>What may be benchmarked\<close>

text \<open>A pinned setting has the pinned value.\<close>

definition pin_held :: "'a option \<Rightarrow> 'a \<Rightarrow> bool" where
  "pin_held pin x \<longleftrightarrow> (case pin of Some v \<Rightarrow> x = v | None \<Rightarrow> True)"

definition keeps_pins :: "TunePins \<Rightarrow> LlamaCppParams \<Rightarrow> bool" where
  "keeps_pins pins l \<longleftrightarrow>
     pin_held (pin_ctx_len pins) (ctx_len l) \<and> pin_held (pin_gpu_layers pins) (gpu_layers l) \<and>
     pin_held (map_option Some (pin_type_k pins)) (type_k l) \<and> pin_held (map_option Some (pin_type_v pins)) (type_v l)"

text \<open>The dimensions a run searches; in everything else a candidate is the suggestion.\<close>

definition same_but_searched :: "LlamaCppParams \<Rightarrow> LlamaCppParams \<Rightarrow> bool" where
  "same_but_searched l m \<longleftrightarrow>
     l\<lparr>gpu_layers := All, type_k := None, type_v := None\<rparr> = m\<lparr>gpu_layers := All, type_k := None, type_v := None\<rparr>"

definition leaves_headroom :: "FitReport \<Rightarrow> bool" where
  "leaves_headroom fit \<longleftrightarrow>
     fr_verdict fit \<noteq> Overflow \<and>
     (fr_budget_bytes fit = 0 \<or> unat (fr_needed_bytes fit) + 2 ^ 30 \<le> unat (fr_budget_bytes fit))"

lemma passes_headroom_iff: "passes_headroom fit ABS_VRAM_HEADROOM_BYTES \<longleftrightarrow> leaves_headroom fit"
proof -
  have "1073741824 \<le> sat_sub b n \<longleftrightarrow> unat n + 1073741824 \<le> unat b" for b n :: u64
    by (simp add: word_le_nat_alt unat_sat_sub) arith
  then show ?thesis by (simp add: passes_headroom_def leaves_headroom_def ABS_VRAM_HEADROOM_BYTES_def)
qed

lemma apply_pins_keeps: "keeps_pins pins (apply_pins l pins)"
  by (auto simp: keeps_pins_def pin_held_def apply_pins_def Let_def split: option.splits)

lemma half_gpu_layers_Some:
  "half_gpu_layers seed layer_count = Some h \<Longrightarrow> \<exists>n. h = seed\<lparr>gpu_layers := Count n\<rparr>"
  by (auto simp: half_gpu_layers_def)

lemma in_variants:
  assumes "c \<in> set (bench_variants seed layer_count pins)"
  shows "cand_load c = seed \<or>
    pin_type_k pins = None \<and> pin_type_v pins = None \<and> c \<in> kv_rung seed ` UNIV \<or>
    pin_gpu_layers pins = None \<and> half_gpu_layers seed layer_count = Some (cand_load c)"
proof -
  have if_nil: "c \<in> set (if P then [] else xs) \<Longrightarrow> \<not> P \<and> c \<in> set xs" for P xs by (cases P) simp_all
  have seg: "c \<in> set (a # b @ d) \<Longrightarrow> c = a \<or> c \<in> set b \<or> c \<in> set d" for a b d by auto
  have half: "c \<in> set (case x of Some h \<Rightarrow> [\<lparr>cand_load = h, cand_label = l\<rparr>] | None \<Rightarrow> []) \<Longrightarrow> x = Some (cand_load c)"
    for x l by (cases x) simp_all
  from seg [OF assms [unfolded bench_variants_def Let_def append_Cons append_Nil]] show ?thesis
  proof (elim disjE)
    assume kv: "c \<in> set (if pin_type_k pins \<noteq> None \<or> pin_type_v pins \<noteq> None then []
       else map (kv_rung seed) [(Q8_0, ''q8_0 KV cache''), (Q4_0, ''q4_0 KV cache'')])"
    have "c \<in> kv_rung seed ` UNIV" using if_nil [OF kv] unfolding set_map by blast
    then show ?thesis using if_nil [OF kv] by blast
  next
    assume off: "c \<in> set (if pin_gpu_layers pins \<noteq> None then [] else
        case half_gpu_layers seed layer_count of Some h \<Rightarrow> [\<lparr>cand_load = h, cand_label = ''half GPU layers on CPU''\<rparr>] | None \<Rightarrow> [])"
    have "\<not> pin_gpu_layers pins \<noteq> None \<and> half_gpu_layers seed layer_count = Some (cand_load c)"
      using if_nil [OF off] half by blast
    then show ?thesis by blast
  qed simp
qed

lemma variants_cases:
  assumes "c \<in> set (bench_variants seed layer_count pins)"
  obtains "cand_load c = seed"
    | kv where "pin_type_k pins = None" "pin_type_v pins = None" "cand_load c = seed\<lparr>type_k := Some kv, type_v := Some kv\<rparr>"
    | n where "pin_gpu_layers pins = None" "cand_load c = seed\<lparr>gpu_layers := Count n\<rparr>"
  using in_variants [OF assms]
proof (elim disjE conjE imageE)
  fix x assume "pin_type_k pins = None" "pin_type_v pins = None" "c = kv_rung seed x"
  then show thesis by (cases x) (simp add: kv_rung_def that(2))
next
  assume "pin_gpu_layers pins = None" "half_gpu_layers seed layer_count = Some (cand_load c)"
  then show thesis using half_gpu_layers_Some that(3) by blast
qed (rule that(1))

lemma keeps_pins_update:
  "pin_type_k pins = None \<Longrightarrow> pin_type_v pins = None \<Longrightarrow>
     keeps_pins pins (l\<lparr>type_k := k, type_v := v\<rparr>) = keeps_pins pins l"
  "pin_gpu_layers pins = None \<Longrightarrow> keeps_pins pins (l\<lparr>gpu_layers := g\<rparr>) = keeps_pins pins l"
  by (simp_all add: keeps_pins_def pin_held_def)

lemma variants_keep_pins:
  assumes "c \<in> set (bench_variants (apply_pins l pins) layer_count pins)"
  shows "keeps_pins pins (cand_load c) \<and> same_but_searched (cand_load c) (apply_pins l pins)"
  using assms by (cases rule: variants_cases) (simp_all add: keeps_pins_update apply_pins_keeps same_but_searched_def)

text \<open>What a benchmark loads was chosen by the user and the estimates: every candidate holds every
  pinned setting, is the (pinned) suggestion but for the offload and the cache types, is estimated
  to fit and to leave 1 GiB of video memory; there are at most three, and the suggestion itself is
  the first of them if it fits.
\<close>

theorem bench_candidates_sound:
  "let cs = pinned_bench_candidates l layer_count pins estimate; seed = apply_pins l pins in
   length cs \<le> 3 \<and>
   list_all (\<lambda>c. keeps_pins pins (cand_load c) \<and> same_but_searched (cand_load c) seed \<and>
     leaves_headroom (estimate (cand_load c))) cs \<and>
   (if leaves_headroom (estimate seed) then map cand_load (take 1 cs) = [seed] else True)"
proof -
  let ?vs = "bench_variants (apply_pins l pins) layer_count pins"
  let ?P = "\<lambda>c. leaves_headroom (estimate (cand_load c))"
  have cs: "pinned_bench_candidates l layer_count pins estimate = take 3 (filter ?P ?vs)"
    by (simp add: pinned_bench_candidates_def bench_candidates_def passes_headroom_iff MAX_BENCHED_CANDIDATES_def)
  have ok: "keeps_pins pins (cand_load c) \<and> same_but_searched (cand_load c) (apply_pins l pins) \<and> ?P c"
    if "c \<in> set (take 3 (filter ?P ?vs))" for c
  proof -
    from in_set_takeD[OF that] have "c \<in> set ?vs" "?P c" by simp_all
    with variants_keep_pins show ?thesis by blast
  qed
  have few: "length (take 3 (filter ?P ?vs)) \<le> 3" by simp
  have all: "list_all (\<lambda>c. keeps_pins pins (cand_load c) \<and> same_but_searched (cand_load c) (apply_pins l pins) \<and> ?P c)
      (take 3 (filter ?P ?vs))"
    unfolding list_all_iff using ok by blast
  obtain v vs where "?vs = v # vs" "cand_load v = apply_pins l pins" by (simp add: bench_variants_def Let_def)
  then have first: "if leaves_headroom (estimate (apply_pins l pins))
      then map cand_load (take 1 (take 3 (filter ?P ?vs))) = [apply_pins l pins] else True"
    by simp
  show ?thesis unfolding Let_def cs by (intro conjI few all first)
qed

subsection \<open>The winner\<close>

text \<open>The turns of a run that were reached and measured a positive rate.\<close>

fun measured :: "(Candidate \<times> bool \<times> (HiggsError + BenchResult)) list \<Rightarrow> (Candidate \<times> BenchResult) list" where
  "measured [] = []"
| "measured ((c, _, Inr b) # turns) = (if f32_greater (gen_tps b) 0 then (c, b) # measured turns else measured turns)"
| "measured ((c, _, Inl _) # turns) = measured turns"

fun aborted :: "(Candidate \<times> bool \<times> (HiggsError + BenchResult)) list \<Rightarrow> bool" where
  "aborted [] = False"
| "aborted ((c, cancelled, answer) # turns) \<longleftrightarrow> cancelled \<or> answer = Inl BenchCancelled \<or> aborted turns"

lemma bench_loop_cases:
  "case bench_loop describe turns results failures of
     Inl e \<Rightarrow> e = BenchCancelled \<and> aborted turns
   | Inr (rs, _) \<Rightarrow> \<not> aborted turns \<and> rs = results @ measured turns"
  by (induction describe turns results failures rule: bench_loop.induct) (auto split: sum.splits)

lemma pick_from_best:
  assumes "b < i" "\<not> f32_is_nan x" "\<forall>y \<in> set ys. \<not> f32_is_nan y"
    "length before = i" "before ! b = x" "\<forall>j < i. \<not> f32_greater (before ! j) x" "\<forall>j < b. f32_greater x (before ! j)"
    "\<forall>y \<in> set before. \<not> f32_is_nan y"
  shows "let k = pick_from i (b, x) ys; all = before @ ys in
         k < length all \<and> (\<forall>j < length all. \<not> f32_greater (all ! j) (all ! k)) \<and> (\<forall>j < k. f32_greater (all ! k) (all ! j))"
  using assms
proof (induction i "(b, x)" ys arbitrary: b x before rule: pick_from.induct)
  case (1 i b x) then show ?case by (auto simp: Let_def)
next
  case (2 i b x y ys)
  show ?case
  proof (cases "f32_greater y x")
    case True
    have "\<forall>j < Suc i. \<not> f32_greater ((before @ [y]) ! j) y" "\<forall>j < i. f32_greater y ((before @ [y]) ! j)"
      using True 2 by (auto simp: nth_append f32_greater_def less_Suc_eq)
    then show ?thesis using 2(1)[of i y "before @ [y]"] True 2 by (simp add: nth_append)
  next
    case False
    have "\<forall>j < Suc i. \<not> f32_greater ((before @ [y]) ! j) x" "\<forall>j < b. f32_greater x ((before @ [y]) ! j)"
      using False 2 by (auto simp: nth_append less_Suc_eq)
    then show ?thesis using 2(1)[of b x "before @ [y]"] False 2 by (simp add: nth_append)
  qed
qed

lemma measured_positive: "\<forall>(c, b) \<in> set (measured turns). f32_greater (gen_tps b) 0"
  by (induction turns rule: measured.induct) auto

lemma pick_benchmarked_best:
  assumes "\<forall>x \<in> set rs. \<not> f32_is_nan (gen_tps (snd x))" "pick_benchmarked rs = Some k"
  shows "k < length rs \<and> (\<forall>j < length rs. \<not> f32_greater (gen_tps (snd (rs ! j))) (gen_tps (snd (rs ! k)))) \<and>
         (\<forall>j < k. f32_greater (gen_tps (snd (rs ! k))) (gen_tps (snd (rs ! j))))"
proof (cases rs)
  case Nil then show ?thesis using assms by (simp add: pick_benchmarked_def)
next
  case (Cons r rs')
  let ?ys = "map (gen_tps \<circ> snd) rs'"
  have k: "k = pick_from 1 (0, gen_tps (snd r)) ?ys" using assms(2) by (simp add: pick_benchmarked_def Cons)
  have "let m = pick_from 1 (0, gen_tps (snd r)) ?ys; xs = [gen_tps (snd r)] @ ?ys in
     m < length xs \<and> (\<forall>j < length xs. \<not> f32_greater (xs ! j) (xs ! m)) \<and> (\<forall>j < m. f32_greater (xs ! m) (xs ! j))"
    using assms(1) by (intro pick_from_best) (auto simp: Cons f32_greater_def)
  note main = this
  have "[gen_tps (snd r)] @ ?ys = map (gen_tps \<circ> snd) rs" by (simp add: Cons)
  note rates = main [unfolded this k [symmetric] Let_def]
  then have "k < length rs" by simp
  then show ?thesis using rates by auto
qed

text \<open>A benchmark keeps the first of the fastest. If no turn was cancelled, its result is the
  measured candidate that no other one beats, and that beats every earlier one; nothing that
  measured no rate can win. If no turn measured anything, the failure names them all; a cancelled
  run says so and has no result.
\<close>

theorem benchmark_winner:
  "case run_benchmark describe turns of
     Inr winner \<Rightarrow> \<not> aborted turns \<and>
       (\<exists>k < length (measured turns). winner = measured turns ! k \<and> f32_greater (gen_tps (snd winner)) 0 \<and>
          (\<forall>j < length (measured turns). \<not> f32_greater (gen_tps (snd (measured turns ! j))) (gen_tps (snd winner))) \<and>
          (\<forall>j < k. f32_greater (gen_tps (snd winner)) (gen_tps (snd (measured turns ! j)))))
   | Inl e \<Rightarrow> (if aborted turns then e = BenchCancelled else measured turns = [] \<and> error_code e = ''HG063'')"
proof -
  let ?rs = "measured turns"
  have pos: "f32_greater (gen_tps (snd x)) 0" if "x \<in> set ?rs" for x
    using measured_positive[of turns] that by auto
  have best: "k < length ?rs \<and> (\<forall>j < length ?rs. \<not> f32_greater (gen_tps (snd (?rs ! j))) (gen_tps (snd (?rs ! k)))) \<and>
      (\<forall>j < k. f32_greater (gen_tps (snd (?rs ! k))) (gen_tps (snd (?rs ! j))))"
    if "pick_benchmarked ?rs = Some k" for k
    using pos that by (intro pick_benchmarked_best) (auto simp: f32_greater_def)
  have none: "pick_benchmarked ?rs = None \<longleftrightarrow> ?rs = []"
    by (cases ?rs) (simp_all add: pick_benchmarked_def)
  show ?thesis
  proof (cases "bench_loop describe turns [] []")
    case (Inl e)
    then show ?thesis using bench_loop_cases[where describe = describe and turns = turns and results = "[]" and failures = "[]"] by (simp add: run_benchmark_def)
  next
    case (Inr r)
    obtain fs where r: "r = (?rs, fs)" "\<not> aborted turns"
      using bench_loop_cases[where describe = describe and turns = turns and results = "[]" and failures = "[]"] by (cases r) (simp add: Inr)
    show ?thesis
    proof (cases "pick_benchmarked ?rs")
      case None then show ?thesis using none by (simp add: run_benchmark_def Inr r)
    next
      case (Some k)
      then show ?thesis using best[OF Some] pos[of "?rs ! k"] by (auto simp: run_benchmark_def Inr r)
    qed
  qed
qed

subsection \<open>What a saved profile claims\<close>

datatype store_op = Put string TuneRecord | SetProfile string LlamaCppParams string string u64

fun run_store_op :: "store_op \<Rightarrow> ModelsStore \<Rightarrow> ModelsStore" where
  "run_store_op (Put i r) s = put_tuning i r s"
| "run_store_op (SetProfile i p hw sig now_ms) s = set_profile i p hw sig now_ms s"

definition store_run :: "store_op list \<Rightarrow> ModelsStore \<Rightarrow> ModelsStore" where
  "store_run ops s = fold run_store_op ops s"

text \<open>A record that claims a measurement is one, and the active record repeats it only for its own parameters.\<close>

definition honest_entry :: "ModelEntry \<Rightarrow> bool" where
  "honest_entry e \<longleftrightarrow>
     (case me_bench e of Some r \<Rightarrow> tr_provenance r = Bench | None \<Rightarrow> True) \<and>
     (case me_analytical e of Some r \<Rightarrow> tr_provenance r \<noteq> Bench | None \<Rightarrow> True) \<and>
     (case me_tuning e of
        Some r \<Rightarrow> (if tr_provenance r = Bench
                    then (case me_bench e of
                            Some b \<Rightarrow> tr_profile b = tr_profile r \<and> tr_bench_tps b = tr_bench_tps r
                          | None \<Rightarrow> False)
                    else True)
      | None \<Rightarrow> me_analytical e = None \<and> me_bench e = None)"

definition honest_store :: "ModelsStore \<Rightarrow> bool" where
  "honest_store s \<longleftrightarrow> distinct (map fst s) \<and> list_all (\<lambda>(i, e). honest_entry e) s"

lemma honest_store_iff:
  "honest_store s \<longleftrightarrow> distinct (map fst s) \<and> (\<forall>i e. map_of s i = Some e \<longrightarrow> honest_entry e)"
  by (auto simp: honest_store_def list_all_iff dest: map_of_SomeD)

lemma honest_entry_of: "honest_store s \<Longrightarrow> honest_entry (entry_of i s)"
  by (cases "map_of s i") (auto simp: honest_store_iff entry_of_def honest_entry_def entry_default_def)

lemma honest_update: "honest_store s \<Longrightarrow> honest_entry e \<Longrightarrow> honest_store (AList.update i e s)"
  by (auto simp: honest_store_iff distinct_update update_conv' split: if_splits)

lemma honest_store_op: "honest_store s \<Longrightarrow> honest_store (run_store_op op s)"
proof (induction op)
  case (Put i r)
  then show ?case using honest_entry_of[of s i]
    by (auto simp: put_tuning_def Let_def honest_entry_def intro!: honest_update split: option.splits)
next
  case (SetProfile i p hw sig now_ms)
  then show ?case using honest_entry_of[of s i]
    by (auto simp: set_profile_def Let_def honest_entry_def intro!: honest_update split: option.splits)
qed

lemma honest_store_run: "honest_store (store_run ops [])"
proof -
  have "honest_store s \<Longrightarrow> honest_store (fold run_store_op ops s)" for s
    by (induction ops arbitrary: s) (simp_all add: honest_store_op)
  then show ?thesis by (simp add: store_run_def honest_store_def)
qed

text \<open>The parameter sets a listing offers are what their labels say, after any tunes, loads that
  write their parameters back, and restarts: the one called measured carries a benchmark's record,
  the other never does, and an active record that claims a benchmark has the parameters and the
  rate of that benchmark; parameters that were edited or degraded lose the claim.
\<close>

theorem profiles_are_what_they_claim:
  "case from_triple (Some (tuning_profiles i (store_run ops []))) of
     (act, analytical, bench) \<Rightarrow>
       (case bench of Some b \<Rightarrow> tr_provenance b = Bench | None \<Rightarrow> True) \<and>
       (case analytical of Some r \<Rightarrow> tr_provenance r \<noteq> Bench | None \<Rightarrow> True) \<and>
       (case act of
          Some r \<Rightarrow> (if tr_provenance r = Bench
                      then (case bench of
                              Some b \<Rightarrow> tr_profile b = tr_profile r \<and> tr_bench_tps b = tr_bench_tps r
                            | None \<Rightarrow> False)
                      else True)
        | None \<Rightarrow> analytical = None \<and> bench = None) \<and>
       act = tuning i (store_run ops [])"
  using honest_store_run[of ops]
  by (cases "map_of (store_run ops []) i")
    (auto simp: honest_store_iff tuning_profiles_def tuning_def from_triple_def honest_entry_def
      split: option.splits if_splits)

end
