(* ===== verification/Load_Robustness.thy ===== *)
theory Load_Robustness
  imports Engine_Params Diagnostics
begin

text \<open>
  \<open>src/load_robustness.rs\<close>: which load failures are out-of-memory failures, and the ladder of
  degraded retries for them; and \<open>src/serve/readiness.rs\<close>: whether a footprint fits and the
  readiness state of a model.
\<close>

subsection \<open>Out-of-memory failures\<close>

definition oom_signatures :: "string list" where
  "oom_signatures =
     [''out of memory'', ''failed to allocate'', ''unable to allocate'', ''cannot allocate'',
      ''insufficient memory'', ''not enough memory'', ''cudamalloc failed'',
      ''cuda error: out of memory'', ''mtlbuffer'', ''ggml_backend_alloc'',
      ''buffer allocation failed'', ''alloc_tensor_range'']"

definition is_oom_reason :: "string \<Rightarrow> bool" where
  "is_oom_reason reason =
     list_ex (str_contains (to_ascii_lowercase reason)) oom_signatures"

subsection \<open>The ladder\<close>

record LoadRung =
  rung_params :: NodeLoadParams
  rung_what :: string

definition with_kv_off :: "NodeLoadParams \<Rightarrow> NodeLoadParams" where
  "with_kv_off p =
     p\<lparr>load_params := Some ((unwrap_or params_default (load_params p))\<lparr>offload_kqv := Some False\<rparr>)\<rparr>"

definition current_layers :: "NodeLoadParams \<Rightarrow> GpuLayers option" where
  "current_layers p = opt_or (load_gpu_layers p) (map_option gpu_layers (load_params p))"

definition halved_phrase :: "bool \<Rightarrow> string" where
  "halved_phrase kv_moved =
     (if kv_moved
      then ''moved the KV cache to system memory AND halved the GPU-offloaded layers''
      else ''halved the GPU-offloaded layers (KV cache already in system memory)'')"

definition all_cpu_phrase :: "bool \<Rightarrow> string" where
  "all_cpu_phrase kv_moved =
     (if kv_moved
      then ''moved the KV cache to system memory AND moved all layers to the CPU''
      else ''moved all layers to the CPU (KV cache already in system memory)'')"

definition reduce_gpu_layers ::
  "NodeLoadParams \<Rightarrow> u32 option \<Rightarrow> bool \<Rightarrow> (NodeLoadParams \<times> string) option" where
  "reduce_gpu_layers base layer_count kv_moved =
     (let halved = halved_phrase kv_moved; all_cpu = all_cpu_phrase kv_moved in
      map_option (\<lambda>(target, what). (base\<lparr>load_gpu_layers := Some target\<rparr>, what))
        (case current_layers base of
           Some (Count n) \<Rightarrow> if 2 \<le> n then Some (Count (n div 2), halved) else None
         | Some All \<Rightarrow>
             (case layer_count of
                Some layers \<Rightarrow>
                  if 2 \<le> layers then Some (Count (layers div 2), halved) else Some (Count 0, all_cpu)
              | None \<Rightarrow> Some (Count 0, all_cpu))
         | None \<Rightarrow> None))"

definition oom_ladder :: "NodeLoadParams \<Rightarrow> u32 option \<Rightarrow> LoadRung list" where
  "oom_ladder base layer_count =
     (let cpu_only = (load_gpu_layers base = Some (Count 0));
          kv_off = with_kv_off base;
          kv_moved = (\<not> cpu_only \<and> kv_off \<noteq> base)
      in [\<lparr>rung_params = base, rung_what = []\<rparr>]
         @ (if kv_moved
            then [\<lparr>rung_params = kv_off,
                   rung_what = ''moved the KV cache to system memory (offload_kqv=false)''\<rparr>]
            else [])
         @ (case reduce_gpu_layers kv_off layer_count kv_moved of
              Some (combined, what) \<Rightarrow> [\<lparr>rung_params = combined, rung_what = what\<rparr>]
            | None \<Rightarrow> []))"

text \<open>How much of a model a load puts on the GPU: a count of layers, or more than any count.\<close>

definition gpu_share :: "NodeLoadParams \<Rightarrow> nat" where
  "gpu_share p =
     (case current_layers p of
        None \<Rightarrow> 0
      | Some All \<Rightarrow> 2 ^ 32
      | Some (Count n) \<Rightarrow> unat n)"

definition kv_on_gpu :: "NodeLoadParams \<Rightarrow> bool" where
  "kv_on_gpu p \<longleftrightarrow> Option.bind (load_params p) offload_kqv \<noteq> Some False"

text \<open>The other settings of a load.\<close>

definition same_otherwise :: "NodeLoadParams \<Rightarrow> NodeLoadParams \<Rightarrow> bool" where
  "same_otherwise p q \<longleftrightarrow>
     load_id p = load_id q \<and> load_ctx_len p = load_ctx_len q \<and> load_threads p = load_threads q \<and>
     (unwrap_or params_default (load_params p))\<lparr>offload_kqv := None\<rparr> =
       (unwrap_or params_default (load_params q))\<lparr>offload_kqv := None\<rparr>"

lemma with_kv_off_idem [simp]: "with_kv_off (with_kv_off p) = with_kv_off p"
  by (simp add: with_kv_off_def)

lemma kv_on_gpu_with_kv_off [simp]: "\<not> kv_on_gpu (with_kv_off p)"
  by (simp add: kv_on_gpu_def with_kv_off_def)

lemma with_kv_off_id: "\<not> kv_on_gpu p \<Longrightarrow> with_kv_off p = p"
  by (cases "load_params p") (auto simp: kv_on_gpu_def with_kv_off_def)

lemma with_kv_off_eq: "with_kv_off p = p \<longleftrightarrow> \<not> kv_on_gpu p"
  using with_kv_off_id kv_on_gpu_with_kv_off by metis

lemma gpu_share_with_kv_off [simp]: "gpu_share (with_kv_off p) = gpu_share p"
  by (cases "load_params p")
    (auto simp: gpu_share_def current_layers_def with_kv_off_def opt_or_def params_default_def
      gpu_layers_default_def split: option.split GpuLayers.split)

lemma same_otherwise_with_kv_off [simp]: "same_otherwise (with_kv_off p) p"
  by (cases "load_params p") (simp_all add: same_otherwise_def with_kv_off_def)

lemma unat_half: "2 \<le> n \<Longrightarrow> unat (n div 2) < unat (n::u32)"
  by (simp add: unat_div word_le_nat_alt)

lemma unat_below: "unat (n::u32) < 4294967296"
  using unsigned_less [of n] by simp

lemma reduce_gpu_layers_cheaper:
  assumes "reduce_gpu_layers p layer_count m = Some (q, w)"
  shows "gpu_share q < gpu_share p" "load_params q = load_params p" "w \<noteq> []"
    "load_gpu_layers q \<noteq> load_gpu_layers p" "same_otherwise q p"
proof -
  from assms obtain t where t: "q = p\<lparr>load_gpu_layers := Some t\<rparr>"
    and w: "w \<noteq> []"
    and c: "(\<exists>n. current_layers p = Some (Count n) \<and> 2 \<le> n \<and> t = Count (n div 2)) \<or>
            current_layers p = Some All \<and> t \<noteq> All"
    by (auto simp: reduce_gpu_layers_def Let_def halved_phrase_def all_cpu_phrase_def
        split: option.splits GpuLayers.splits if_splits)
  have share: "gpu_share q = (case t of All \<Rightarrow> 2 ^ 32 | Count n \<Rightarrow> unat n)"
    using t by (simp add: gpu_share_def current_layers_def)
  from c show lt: "gpu_share q < gpu_share p"
    using share by (cases t) (auto simp: gpu_share_def unat_half unat_below)
  show "load_params q = load_params p" "w \<noteq> []" "same_otherwise q p"
    using t w by (simp_all add: same_otherwise_def)
  show "load_gpu_layers q \<noteq> load_gpu_layers p"
  proof
    assume "load_gpu_layers q = load_gpu_layers p"
    with t have "q = p" by simp
    with lt show False by simp
  qed
qed

subsection \<open>Readiness\<close>

datatype ModelReadiness =
    Discovered | Profiled | Servable | Unservable | NeedsRetune | Loaded
  | EmbeddingReady | RerankerReady

record ReadinessInputs =
  on_disk :: bool
  profiled :: bool
  stale :: bool
  loaded :: bool
  fits :: bool
  serving :: bool
  domain :: ModelDomain

definition footprint_fits_free :: "u64 \<Rightarrow> u64 \<Rightarrow> u64 \<Rightarrow> u64 \<Rightarrow> bool \<Rightarrow> bool" where
  "footprint_fits_free needed_vram needed_ram free_vram free_ram unified =
     (if unified then sat_add needed_vram needed_ram \<le> min free_vram free_ram
      else needed_vram \<le> free_vram \<and> needed_ram \<le> free_ram)"

definition derive_readiness :: "ReadinessInputs \<Rightarrow> ModelReadiness" where
  "derive_readiness i =
     (case domain i of
        EmbeddingDomain \<Rightarrow> EmbeddingReady
      | RerankerDomain \<Rightarrow> RerankerReady
      | Llm \<Rightarrow>
          if loaded i then Loaded
          else if \<not> on_disk i \<or> \<not> profiled i then Discovered
          else if stale i then NeedsRetune
          else if \<not> serving i then Profiled
          else if fits i then Servable
          else Unservable)"

subsection \<open>Properties\<close>

text \<open>The retry ladder of a load that ran out of memory is short and only gets cheaper: it
  has at most three rungs and starts with the plain retry; every further rung names what it
  degrades, keeps the KV cache off the GPU, puts no more on the GPU than the base and differs
  from it; no two rungs are the same load; and nothing but the KV placement and the layer
  count is ever changed.\<close>

theorem oom_ladder_degrades:
  "length (oom_ladder base lc) \<le> 3 \<and>
   hd (oom_ladder base lc) = \<lparr>rung_params = base, rung_what = []\<rparr> \<and>
   distinct (map rung_params (oom_ladder base lc)) \<and>
   (\<forall>r \<in> set (oom_ladder base lc). same_otherwise (rung_params r) base) \<and>
   (\<forall>r \<in> set (tl (oom_ladder base lc)).
      rung_what r \<noteq> [] \<and> \<not> kv_on_gpu (rung_params r) \<and>
      gpu_share (rung_params r) \<le> gpu_share base \<and> rung_params r \<noteq> base)"
proof -
  let ?k = "with_kv_off base"
  let ?m = "load_gpu_layers base \<noteq> Some (Count 0) \<and> ?k \<noteq> base"
  show ?thesis
  proof (cases "reduce_gpu_layers ?k lc ?m")
    case None
    then show ?thesis
      by (auto simp: oom_ladder_def Let_def same_otherwise_def [of base base])
  next
    case (Some qw)
    obtain q w where qw: "qw = (q, w)" by fastforce
    note r = reduce_gpu_layers_cheaper [OF Some [unfolded qw]]
    have kv: "\<not> kv_on_gpu q"
      using r(2) kv_on_gpu_with_kv_off [of base] by (simp add: kv_on_gpu_def)
    have ne: "q \<noteq> base" "q \<noteq> ?k" using r(1) by auto
    have so: "same_otherwise q base"
      using r(5) same_otherwise_with_kv_off [of base] by (simp add: same_otherwise_def)
    show ?thesis
      using Some qw r(1,3) kv ne so
      by (auto simp: oom_ladder_def Let_def same_otherwise_def [of base base])
  qed
qed

definition demo_load :: NodeLoadParams where
  "demo_load = \<lparr>load_id = ''m'', load_ctx_len = None, load_gpu_layers = Some All,
     load_threads = None, load_params = None\<rparr>"

theorem oom_ladder_degrades_witness:
  "\<not> kv_on_gpu (rung_params (oom_ladder demo_load (Some 32) ! 2)) \<and>
   load_gpu_layers (rung_params (oom_ladder demo_load (Some 32) ! 2)) = Some (Count 16)"
proof -
  have "oom_ladder demo_load (Some 32) ! 2 \<in> set (tl (oom_ladder demo_load (Some 32)))"
    "load_gpu_layers (rung_params (oom_ladder demo_load (Some 32) ! 2)) = Some (Count 16)"
    by (simp_all add: oom_ladder_def Let_def demo_load_def with_kv_off_def reduce_gpu_layers_def
        current_layers_def)
  then show ?thesis using oom_ladder_degrades [of demo_load "Some 32"] by simp
qed

text \<open>A model is reported servable exactly when a chat could be served now: it is a chat
  model on disk with a current profile, not resident yet, serving is on and it fits; a model
  that cannot chat is never reported as a chat state, resident or not. And the fit test is
  exact: on unified memory the two footprints together fit the smaller free figure (the
  saturating sum cannot lie unless that figure is the largest 64-bit number), otherwise each
  fits its own pool.\<close>

theorem servable_iff:
  "(derive_readiness i = Servable \<longleftrightarrow>
      domain i = Llm \<and> \<not> loaded i \<and> on_disk i \<and> profiled i \<and> \<not> stale i \<and> serving i \<and>
      fits i) \<and>
   (derive_readiness i \<in> {EmbeddingReady, RerankerReady} \<longleftrightarrow> domain i \<noteq> Llm) \<and>
   (footprint_fits_free v r fv fr unified \<longleftrightarrow>
      (if unified
       then unat v + unat r \<le> min (unat fv) (unat fr) \<or> (fv = - 1 \<and> fr = - 1)
       else unat v \<le> unat fv \<and> unat r \<le> unat fr))"
proof -
  have "sat_add v r \<le> min fv fr \<longleftrightarrow>
      unat v + unat r \<le> min (unat fv) (unat fr) \<or> (fv = - 1 \<and> fr = - 1)"
  proof -
    have u: "unat (min fv fr) = min (unat fv) (unat fr)"
      by (simp add: min_def word_le_nat_alt)
    have bound: "unat x \<le> 2 ^ 64 - 1" for x :: u64
      using unsigned_less [of x, where 'a = nat] by simp
    have top: "x = - 1 \<longleftrightarrow> unat x = 2 ^ 64 - 1" for x :: u64
      by (simp add: word_unat_eq_iff unsigned_minus_1_eq_mask mask_eq_exp_minus_1)
    have "min a m \<le> min b c \<longleftrightarrow> a \<le> min b c \<or> (b = m \<and> c = m)"
      if "b \<le> m" "c \<le> m" for a b c m :: nat using that by auto
    from this [OF bound bound] show ?thesis
      by (simp only: word_le_nat_alt u unat_sat_add top len_num1 len_num0 len_bit0 len_bit1) simp
  qed
  then have "footprint_fits_free v r fv fr unified \<longleftrightarrow>
      (if unified
       then unat v + unat r \<le> min (unat fv) (unat fr) \<or> (fv = - 1 \<and> fr = - 1)
       else unat v \<le> unat fv \<and> unat r \<le> unat fr)"
    by (simp add: footprint_fits_free_def word_le_nat_alt)
  moreover have "derive_readiness i = Servable \<longleftrightarrow>
      domain i = Llm \<and> \<not> loaded i \<and> on_disk i \<and> profiled i \<and> \<not> stale i \<and> serving i \<and> fits i"
    "derive_readiness i \<in> {EmbeddingReady, RerankerReady} \<longleftrightarrow> domain i \<noteq> Llm"
    by (simp_all add: derive_readiness_def split: ModelDomain.split)
  ultimately show ?thesis by blast
qed

end
