(* ===== verification/Inventory.thy ===== *)
theory Inventory
  imports Engine_Params Diagnostics
begin

text \<open>
  What a node tells of itself (\<open>src/remote.rs\<close>): the rows of its resident workers, the
  inventory with its snapshot number, and the kinds of fleet events. Hardware, runtime and the
  scanned model facts are carried along as JSON.
\<close>

type_synonym NodeKey = string
type_synonym WorkerId = u32

datatype FleetEventKind =
    ChatStart | ChatEnd | WorkerLoaded | WorkerUnloaded | Resync | HubStateChanged
  | NodeConnected | InventorySynced | NodeDropped

record InventoryWorker =
  w_id :: u32
  w_model :: string
  w_served_id :: string
  w_ctx_len :: "u32 option"
  w_gpu_layers :: "GpuLayers option"
  w_domain :: ModelDomain
  w_threads :: "u32 option"
  w_loaded_at_ms :: "u64 option"
  w_idle_ms :: "u64 option"
  w_in_flight :: "u32 option"
  w_model_info :: "json option"

record NodeInventory =
  inv_hostname :: string
  inv_os :: string
  inv_workers :: "InventoryWorker list"
  inv_hardware :: json
  inv_runtime :: json
  snapshot_seq :: "u64 option"

text \<open>A node's numbered push, \<open>NodeFleetEvent\<close>.\<close>

record NodeFleetEvent =
  fe_kind :: FleetEventKind
  fe_seq :: u64
  fe_workers :: "InventoryWorker list"

end
