(* ===== verification/Served.thy ===== *)
theory Served
  imports Text "HOL-Library.List_Lexorder" "HOL-Library.Product_Lexorder" "HOL-Library.Multiset" "HOL-Library.AList"
begin

text \<open>
  The small identity components of a fleet: \<open>src/node/node_id.rs\<close> (stable numbers of
  nodes), \<open>src/node/worker_id.rs\<close> (the registry of workers) and \<open>src/node/served.rs\<close> (the
  names under which loaded instances are served). Hash maps are association lists with
  distinct keys; nothing here may depend on their order, which is proved for \<open>served_ids\<close>.
\<close>

subsection \<open>Node numbers\<close>

record NodeIdAllocator =
  ni_next :: u32
  by_endpoint :: "(string \<times> u32) list"

definition node_ids_new :: NodeIdAllocator where
  "node_ids_new = \<lparr>ni_next = 1, by_endpoint = []\<rparr>"

definition ni_assign :: "string \<Rightarrow> NodeIdAllocator \<Rightarrow> u32 \<times> NodeIdAllocator" where
  "ni_assign e a =
     (case map_of (by_endpoint a) e of
        Some i \<Rightarrow> (i, a)
      | None \<Rightarrow>
          (let i = max (ni_next a) 1 in
           (i, \<lparr>ni_next = i + 1, by_endpoint = AList.update e i (by_endpoint a)\<rparr>)))"

definition ni_get :: "string \<Rightarrow> NodeIdAllocator \<Rightarrow> u32 option" where
  "ni_get e a = map_of (by_endpoint a) e"

definition ni_remove :: "string \<Rightarrow> NodeIdAllocator \<Rightarrow> NodeIdAllocator" where
  "ni_remove e a = a\<lparr>by_endpoint := AList.delete e (by_endpoint a)\<rparr>"

definition ni_all :: "NodeIdAllocator \<Rightarrow> (string \<times> u32) list" where
  "ni_all a = sort_key (\<lambda>(e, i). i) (by_endpoint a)"

subsection \<open>The worker registry\<close>

record 'a WorkerRegistry =
  wr_next :: u32
  wr_map :: "(u32 \<times> 'a) list"

definition registry_empty :: "'a WorkerRegistry" where
  "registry_empty = \<lparr>wr_next = 1, wr_map = []\<rparr>"

definition reserve :: "'a WorkerRegistry \<Rightarrow> u32 \<times> 'a WorkerRegistry" where
  "reserve r = (wr_next r, r\<lparr>wr_next := wr_next r + 1\<rparr>)"

definition insert_reserved :: "u32 \<Rightarrow> 'a \<Rightarrow> 'a WorkerRegistry \<Rightarrow> 'a WorkerRegistry" where
  "insert_reserved i v r = r\<lparr>wr_map := AList.update i v (wr_map r)\<rparr>"

definition registry_insert :: "'a \<Rightarrow> 'a WorkerRegistry \<Rightarrow> u32 \<times> 'a WorkerRegistry" where
  "registry_insert v r = (case reserve r of (i, r) \<Rightarrow> (i, insert_reserved i v r))"

definition registry_get :: "u32 \<Rightarrow> 'a WorkerRegistry \<Rightarrow> 'a option" where
  "registry_get i r = map_of (wr_map r) i"

definition registry_remove :: "u32 \<Rightarrow> 'a WorkerRegistry \<Rightarrow> 'a option \<times> 'a WorkerRegistry" where
  "registry_remove i r = (map_of (wr_map r) i, r\<lparr>wr_map := AList.delete i (wr_map r)\<rparr>)"

definition registry_len :: "'a WorkerRegistry \<Rightarrow> nat" where
  "registry_len r = length (wr_map r)"

definition registry_is_empty :: "'a WorkerRegistry \<Rightarrow> bool" where
  "registry_is_empty r \<longleftrightarrow> wr_map r = []"

definition registry_ids :: "'a WorkerRegistry \<Rightarrow> u32 list" where
  "registry_ids r = sort (map fst (wr_map r))"

subsection \<open>Served names\<close>

definition candidate :: "string \<Rightarrow> nat \<Rightarrow> string" where
  "candidate model i = (if i = 0 then model else model @ ''-'' @ dec i)"

lemma candidate_inj: "candidate model i = candidate model j \<longleftrightarrow> i = j"
  by (auto simp: candidate_def dec_inj)

lemma finite_taken: "finite {j. i \<le> j \<and> candidate model j \<in> set taken}"
proof (rule finite_subset)
  show "{j. i \<le> j \<and> candidate model j \<in> set taken} \<subseteq> candidate model -` set taken" by auto
  show "finite (candidate model -` set taken)"
    by (rule finite_vimageI) (auto intro: injI simp: candidate_inj)
qed

text \<open>The inner loop: the first candidate from \<open>i\<close> on that is not taken, and the next index.\<close>

function first_free :: "string list \<Rightarrow> string \<Rightarrow> nat \<Rightarrow> string \<times> nat" where
  "first_free taken model i =
     (if candidate model i \<notin> set taken then (candidate model i, Suc i)
      else first_free taken model (Suc i))"
  by pat_completeness auto
termination
proof (relation "measure (\<lambda>(taken, model, i). card {j. i \<le> j \<and> candidate model j \<in> set taken})", simp)
  fix taken model i
  assume "\<not> candidate model i \<notin> set taken"
  then have "i \<in> {j. i \<le> j \<and> candidate model j \<in> set taken}" by simp
  then have "{j. Suc i \<le> j \<and> candidate model j \<in> set taken} \<subset>
      {j. i \<le> j \<and> candidate model j \<in> set taken}" by (auto simp: psubset_eq dest: Suc_leD) (metis (mono_tags, lifting) mem_Collect_eq not_less_eq_eq order_refl)
  with finite_taken show "((taken, model, Suc i), (taken, model, i)) \<in>
      measure (\<lambda>(taken, model, i). card {j. i \<le> j \<and> candidate model j \<in> set taken})"
    by (simp add: psubset_card_mono)
qed

declare first_free.simps [simp del]

fun name_all ::
  "string list \<Rightarrow> (string \<Rightarrow> nat) \<Rightarrow> (string \<times> 'l \<times> u32) list \<Rightarrow> (string \<times> 'l \<times> u32) list" where
  "name_all taken next_suffix [] = []"
| "name_all taken next_suffix ((model, loc, worker) # es) =
     (case first_free taken model (next_suffix model) of
        (served, i) \<Rightarrow>
          (served, loc, worker) # name_all (served # taken) (next_suffix(model := i)) es)"

definition served_ids :: "('l::linorder \<times> u32 \<times> string) list \<Rightarrow> (string \<times> 'l \<times> u32) list" where
  "served_ids instances =
     name_all [] (\<lambda>_. 0) (sort (map (\<lambda>(loc, worker, model). (model, loc, worker)) instances))"

lemma first_free_range:
  "\<exists>j \<ge> i. first_free taken model i = (candidate model j, Suc j) \<and>
     candidate model j \<notin> set taken \<and> (\<forall>k. i \<le> k \<and> k < j \<longrightarrow> candidate model k \<in> set taken)"
proof (induction taken model i rule: first_free.induct)
  case (1 taken model i)
  show ?case
  proof (cases "candidate model i \<in> set taken")
    case True
    with 1 obtain j where j: "j \<ge> Suc i" "first_free taken model (Suc i) = (candidate model j, Suc j)"
      "candidate model j \<notin> set taken" "\<forall>k. Suc i \<le> k \<and> k < j \<longrightarrow> candidate model k \<in> set taken"
      by auto
    moreover have "candidate model k \<in> set taken" if "i \<le> k" "k < j" for k
      using j(4) True that by (cases "k = i") auto
    ultimately show ?thesis
      using True by (intro exI [of _ j]) (auto simp: first_free.simps [of taken model i])
  next
    case False
    then show ?thesis by (intro exI [of _ i]) (auto simp: first_free.simps [of taken model i])
  qed
qed

text \<open>The search for a free name ends, and soon: it tries at most one candidate more than
  there are names taken, and what it returns is free.\<close>

theorem name_search_ends:
  "(case first_free taken model i of
      (name, n) \<Rightarrow> i < n \<and> n \<le> i + length taken + 1 \<and> name = candidate model (n - 1) \<and>
        name \<notin> set taken)"
proof -
  obtain j where j: "i \<le> j" "first_free taken model i = (candidate model j, Suc j)"
    "candidate model j \<notin> set taken" "\<forall>k. i \<le> k \<and> k < j \<longrightarrow> candidate model k \<in> set taken"
    using first_free_range by blast
  then have "candidate model ` {i..<j} \<subseteq> set taken" by auto
  then have "card (candidate model ` {i..<j}) \<le> card (set taken)" by (intro card_mono) auto
  moreover have "card (candidate model ` {i..<j}) = j - i"
    by (subst card_image) (auto intro: inj_onI simp: candidate_inj)
  ultimately have "j - i \<le> length taken" using card_length [of taken] by linarith
  with j show ?thesis by auto
qed

lemma name_all_names:
  "distinct (map fst (name_all taken f es)) \<and> set (map fst (name_all taken f es)) \<inter> set taken = {} \<and>
   map snd (name_all taken f es) = map snd es \<and>
   list_all2 (\<lambda>(served, _) (model, _). \<exists>i. served = candidate model i) (name_all taken f es) es"
proof (induction taken f es rule: name_all.induct)
  case (2 taken f model loc worker es)
  obtain j where j: "first_free taken model (f model) = (candidate model j, Suc j)"
    "candidate model j \<notin> set taken" using first_free_range by blast
  
  define rest where "rest = name_all (candidate model j # taken) (f(model := Suc j)) es"
  have "name_all taken f ((model, loc, worker) # es) = (candidate model j, loc, worker) # rest"
    using j(1) by (simp add: rest_def)
  with 2 [OF j(1) [symmetric]] j(2) show ?case
    unfolding rest_def [symmetric] by auto
qed simp

lemma sort_mset: "mset xs = mset ys \<Longrightarrow> sort xs = sort (ys :: 'a::linorder list)"
  by (metis mset_sort properties_for_sort sorted_sort)

lemma served_ids_sound:
  "distinct (map fst (served_ids xs)) \<and>
   mset (map snd (served_ids xs)) = mset (map (\<lambda>(l, w, m). (l, w)) xs) \<and>
   list_all (\<lambda>(served, l, w). \<exists>m i. (l, w, m) \<in> set xs \<and> served = candidate m i) (served_ids xs) \<and>
   (if mset xs = mset ys then served_ids xs = served_ids ys else True)"
proof -
  let ?es = "sort (map (\<lambda>(l, w, m). (m, l, w)) xs)"
  note names = name_all_names [of "[]" "\<lambda>_. 0" ?es]
  have snds: "map snd (served_ids xs) = map snd ?es" using names by (simp add: served_ids_def)
  then have "mset (map snd (served_ids xs)) = image_mset snd (mset ?es)" by simp
  also have "\<dots> = mset (map (\<lambda>(l, w, m). (l, w)) xs)"
    by (simp add: image_mset.compositionality comp_def split_def)
  finally have keys: "mset (map snd (served_ids xs)) = mset (map (\<lambda>(l, w, m). (l, w)) xs)" .
  have models: "\<exists>m i. (l, w, m) \<in> set xs \<and> served = candidate m i"
    if mem: "(served, l, w) \<in> set (served_ids xs)" for served l w
  proof -
    obtain n where n: "n < length (served_ids xs)" "served_ids xs ! n = (served, l, w)"
      using mem unfolding in_set_conv_nth by blast
    have len: "length (served_ids xs) = length ?es"
      using snds by (metis length_map)
    obtain m l' w' where e: "?es ! n = (m, l', w')" by (cases "?es ! n") auto
    have "snd (served_ids xs ! n) = snd (?es ! n)"
      using arg_cong [OF snds, of "\<lambda>ys. ys ! n"] n(1) len by simp
    with n e have lw: "l' = l" "w' = w" by auto
    have "\<exists>i. served = candidate m i"
      using names n len e by (auto simp: served_ids_def list_all2_conv_all_nth dest!: spec [of _ n])
    moreover have "(m, l, w) \<in> set ?es" using e lw n len by (metis nth_mem)
    ultimately show ?thesis by auto
  qed
  have "served_ids xs = served_ids ys" if "mset xs = mset ys"
    unfolding served_ids_def by (rule arg_cong [OF sort_mset]) (simp add: that)
  then show ?thesis
    using names keys models by (simp add: list_all_iff served_ids_def [symmetric] split_beta)
qed

text \<open>Served names address instances one to one: no two instances share a name, every
  instance has exactly one, the name is its model's name with at most a numeric suffix; and the
  assignment does not depend on the order in which the map of instances is walked.\<close>

theorem served_ids_one_to_one:
  "distinct (map fst (served_ids xs)) \<and>
   mset (map snd (served_ids xs)) = mset (map (\<lambda>(l, w, m). (l, w)) xs) \<and>
   list_all (\<lambda>(served, l, w). \<exists>m i. (l, w, m) \<in> set xs \<and> served = candidate m i) (served_ids xs) \<and>
   (if mset xs = mset ys then served_ids xs = served_ids ys else True)"
  by (rule served_ids_sound)

end
