(* ===== verification/Runtime.thy ===== *)
theory Runtime
  imports Inventory Served
begin

text \<open>
  \<open>src/node/runtime.rs\<close>: the actor that owns a node's workers. The slow part of a load and every
  stop of a worker run as tasks beside the actor; they are part of the state, and the message a
  finished task posts is the step that removes it. A supervisor is its identity with the model
  it has loaded; a caller is the number of its reply channel. Instants are nanoseconds read by
  the environment. The runtime handle is held throughout, so the actor can always be reached.
\<close>

subsection \<open>Idle policy\<close>

record IdleConfig =
  ttl_millis :: u64
  idle_enabled :: bool

text \<open>A quarter of the TTL, clamped to 50 ms and 60 s; durations in nanoseconds.\<close>

definition reap_interval :: "nat \<Rightarrow> nat" where
  "reap_interval ttl = min (max (ttl div 4) 50000000) 60000000000"

definition idle_new :: "nat \<Rightarrow> IdleConfig" where
  "idle_new ttl = \<lparr>ttl_millis = of_nat (ttl div 1000000), idle_enabled = True\<rparr>"

definition set_ttl :: "nat \<Rightarrow> IdleConfig \<Rightarrow> IdleConfig" where
  "set_ttl ttl c = c\<lparr>ttl_millis := of_nat (ttl div 1000000)\<rparr>"

definition idle_ttl :: "IdleConfig \<Rightarrow> nat" where
  "idle_ttl c = unat (ttl_millis c) * 1000000"

subsection \<open>The load task\<close>

record WorkerSup =
  sup_nr :: nat
  loaded_model_id :: "string option"

record LoadFacts =
  lf_ctx_len :: "u32 option"
  lf_gpu_layers :: "GpuLayers option"
  lf_threads :: "u32 option"
  lf_loaded_at_ms :: u64
  lf_domain :: ModelDomain
  lf_arch :: "string option"
  lf_model_info :: "json option"

record ResolvedModel =
  rm_path :: string
  rm_size_bytes :: u64
  rm_ctx_train :: "u64 option"
  rm_domain :: ModelDomain
  rm_arch :: "string option"
  rm_full :: json

text \<open>A failed load carries the worker if one was spawned.\<close>

datatype LoadResult =
    LoadOk WorkerSup json LoadFacts
  | LoadFailure "WorkerSup option" HiggsError

definition DEFAULT_CTX_CAP :: u32 where "DEFAULT_CTX_CAP = 32768"

definition DEFAULT_WORKER_CTX :: u32 where "DEFAULT_WORKER_CTX = 4096"

text \<open>\<open>t as u32\<close> keeps the low 32 bits.\<close>

definition effective_ctx :: "u32 option \<Rightarrow> u64 option \<Rightarrow> u32 option \<times> u32" where
  "effective_ctx requested ctx_train =
     (let wire = opt_or (opt_filter (\<lambda>c. c > 0) requested)
            (opt_filter (\<lambda>c. c > 0) (map_option (\<lambda>t. min (ucast t) DEFAULT_CTX_CAP) ctx_train))
      in (wire, unwrap_or DEFAULT_WORKER_CTX wire))"

text \<open>
  The \<open>M_LOAD\<close> parameters; \<open>extra\<close> is the object the optional overrides serialise to, in the
  order of its keys.
\<close>

definition zero_counts :: "string list" where
  "zero_counts = [''n_threads_batch'', ''n_batch'', ''n_ubatch'', ''n_seq_max'']"

definition base_fields :: "string list" where
  "base_fields = [''ctx_len'', ''gpu_layers'', ''threads'']"

definition merge_override :: "string \<times> json \<Rightarrow> (string \<times> json) list \<Rightarrow> (string \<times> json) list" where
  "merge_override kv obj =
     (case kv of (k, v) \<Rightarrow>
        if k \<in> set base_fields \<or> is_null v then obj
        else if k \<in> set zero_counts \<and> as_u64 v = Some 0 then obj
        else json_insert k v obj)"

definition worker_load_params ::
  "string \<Rightarrow> string \<Rightarrow> u32 option \<Rightarrow> GpuLayers option \<Rightarrow> u32 option \<Rightarrow> (string \<times> json) list option \<Rightarrow> json" where
  "worker_load_params i path ctx gpu thr extra =
     (let obj = [(''id'', JStr i), (''path'', JStr path)];
          obj = (case ctx of None \<Rightarrow> obj | Some c \<Rightarrow> json_insert ''ctx_len'' (JInt (uint c)) obj);
          obj = (case gpu of None \<Rightarrow> obj | Some g \<Rightarrow> json_insert ''gpu_layers'' (gpu_layers_to_json g) obj);
          obj = (case opt_filter (\<lambda>t. t > 0) thr of None \<Rightarrow> obj
                 | Some t \<Rightarrow> json_insert ''threads'' (JInt (uint t)) obj);
          obj = (case extra of None \<Rightarrow> obj | Some m \<Rightarrow> fold merge_override m obj)
      in JObj obj)"

text \<open>
  \<open>resolve\<close>, \<open>headroom\<close>, \<open>spawner\<close>, \<open>start_for\<close> and \<open>m_load\<close> are what the scan, the memory guard
  and the worker answer; \<open>to_obj\<close> is the derived serialiser of the overrides.
\<close>

record LoadEnv =
  le_resolve :: "string \<Rightarrow> HiggsError + ResolvedModel"
  le_headroom :: "string \<Rightarrow> u64 \<Rightarrow> HiggsError option"
  le_spawn :: nat
  le_start_for :: "string \<Rightarrow> HiggsError option"
  le_m_load :: "json \<Rightarrow> HiggsError + json"
  le_to_obj :: "LlamaCppParams \<Rightarrow> (string \<times> json) list"
  le_unix_ms :: u64

definition do_load :: "LoadEnv \<Rightarrow> NodeLoadParams \<Rightarrow> LoadResult" where
  "do_load env p =
     (case le_resolve env (load_id p) of
        Inl e \<Rightarrow> LoadFailure None e
      | Inr resolved \<Rightarrow>
      (case le_headroom env (load_id p) (rm_size_bytes resolved) of
        Some e \<Rightarrow> LoadFailure None e
      | None \<Rightarrow>
          (let sv = \<lparr>sup_nr = le_spawn env, loaded_model_id = None\<rparr> in
           case le_start_for env (load_id p) of
             Some e \<Rightarrow> LoadFailure (Some sv) e
           | None \<Rightarrow>
               (case effective_ctx (load_ctx_len p) (rm_ctx_train resolved) of
                  (ctx, ctx_allocated) \<Rightarrow>
                    (let lp = worker_load_params (load_id p) (rm_path resolved) ctx (load_gpu_layers p)
                           (load_threads p) (map_option (le_to_obj env) (load_params p))
                     in case le_m_load env lp of
                       Inl e \<Rightarrow> LoadFailure (Some sv) e
                     | Inr loaded \<Rightarrow>
                         LoadOk (sv\<lparr>loaded_model_id := get_str ''id'' lp\<rparr>) loaded
                           \<lparr>lf_ctx_len = Some ctx_allocated, lf_gpu_layers = load_gpu_layers p,
                            lf_threads = opt_filter (\<lambda>t. t > 0) (load_threads p),
                            lf_loaded_at_ms = le_unix_ms env, lf_domain = rm_domain resolved,
                            lf_arch = rm_arch resolved, lf_model_info = Some (rm_full resolved)\<rparr>)))))"

subsection \<open>The actor\<close>

text \<open>What a caller is told.\<close>

datatype NodeReply =
    Loaded WorkerId json
  | Stopped
  | Leased WorkerSup
  | InventoryRows "InventoryWorker list" u64
  | ShutDown
  | Quiesced
  | Failed HiggsError

record Node =
  registry :: "WorkerSup WorkerRegistry"
  shutting_down :: bool
  inflight_loads :: nat
  inflight_stops :: nat
  shutdown_waiters :: "nat list"
  last_activity :: "(u32 \<times> nat) list"
  load_facts :: "(u32 \<times> LoadFacts) list"
  node_seq :: u64
  in_flight :: "(u32 \<times> u32) list"
  quiescing :: bool
  idle :: IdleConfig
  shutdown_done :: bool
  keepalive :: bool
  node_events :: "HiggsEvent list"
  fleet_receivers :: nat
  fleet_events :: "NodeFleetEvent list"
  replies :: "(nat \<times> NodeReply) list"
  abandoned :: "nat list"
  load_tasks :: "(u32 \<times> NodeLoadParams \<times> nat) list"
  stop_tasks :: "(u32 \<times> WorkerSup \<times> nat option) list"
  chat_leases :: "(u32 \<times> WorkerSup) list"

definition node_new :: "nat \<Rightarrow> Node" where
  "node_new ttl =
     \<lparr>registry = registry_empty, shutting_down = False, inflight_loads = 0, inflight_stops = 0,
      shutdown_waiters = [], last_activity = [], load_facts = [], node_seq = 0, in_flight = [],
      quiescing = False, idle = idle_new ttl, shutdown_done = False, keepalive = False,
      node_events = [], fleet_receivers = 0, fleet_events = [], replies = [], abandoned = [], load_tasks = [],
      stop_tasks = [], chat_leases = []\<rparr>"

definition node_reply :: "nat \<Rightarrow> NodeReply \<Rightarrow> Node \<Rightarrow> Node" where
  "node_reply c r s = s\<lparr>replies := replies s @ [(c, r)]\<rparr>"

definition emit_event :: "HiggsEvent \<Rightarrow> Node \<Rightarrow> Node" where
  "emit_event e s = s\<lparr>node_events := node_events s @ [e]\<rparr>"

definition shutting_down_error :: HiggsError where
  "shutting_down_error = WorkerDead ''node runtime shutting down''"

definition no_worker_error :: "u32 \<Rightarrow> HiggsError" where
  "no_worker_error i = WorkerDead (''no worker w-'' @ dec (unat i))"

text \<open>One row per resident worker, in the order of the ids.\<close>

definition worker_row :: "nat \<Rightarrow> Node \<Rightarrow> u32 \<Rightarrow> WorkerSup \<Rightarrow> InventoryWorker" where
  "worker_row instant s i sv =
     (let facts = map_of (load_facts s) i in
      \<lparr>w_id = i, w_model = unwrap_or [] (loaded_model_id sv), w_served_id = [],
       w_ctx_len = Option.bind facts lf_ctx_len, w_gpu_layers = Option.bind facts lf_gpu_layers,
       w_domain = (case facts of None \<Rightarrow> Llm | Some f \<Rightarrow> lf_domain f),
       w_threads = Option.bind facts lf_threads, w_loaded_at_ms = map_option lf_loaded_at_ms facts,
       w_idle_ms = map_option (\<lambda>t. of_nat ((instant - t) div 1000000)) (map_of (last_activity s) i),
       w_in_flight = Some (unwrap_or 0 (map_of (in_flight s) i)),
       w_model_info = Option.bind facts lf_model_info\<rparr>)"

definition snapshot_workers :: "nat \<Rightarrow> Node \<Rightarrow> InventoryWorker list" where
  "snapshot_workers instant s =
     List.map_filter (\<lambda>i. map_option (worker_row instant s i) (registry_get i (registry s)))
       (registry_ids (registry s))"

definition emit_fleet :: "nat \<Rightarrow> FleetEventKind \<Rightarrow> Node \<Rightarrow> Node" where
  "emit_fleet instant k s =
     (if fleet_receivers s = 0 then s
      else
        let s = s\<lparr>node_seq := node_seq s + 1\<rparr> in
        s\<lparr>fleet_events := fleet_events s @
             [\<lparr>fe_kind = k, fe_seq = node_seq s, fe_workers = snapshot_workers instant s\<rparr>]\<rparr>)"

definition refresh_keepalive :: "Node \<Rightarrow> Node" where
  "refresh_keepalive s = s\<lparr>keepalive := (inflight_loads s + inflight_stops s > 0)\<rparr>"

definition maybe_finish_shutdown :: "Node \<Rightarrow> Node" where
  "maybe_finish_shutdown s =
     (if shutting_down s \<and> \<not> shutdown_done s \<and> inflight_loads s = 0 \<and> inflight_stops s = 0
      then s\<lparr>shutdown_done := True, shutdown_waiters := [],
             replies := replies s @ map (\<lambda>c. (c, ShutDown)) (shutdown_waiters s)\<rparr>
      else s)"

definition forget_activity :: "u32 \<Rightarrow> Node \<Rightarrow> Node" where
  "forget_activity i s =
     s\<lparr>last_activity := AList.delete i (last_activity s), load_facts := AList.delete i (load_facts s),
       in_flight := AList.delete i (in_flight s)\<rparr>"

definition reap_worker :: "u32 \<Rightarrow> WorkerSup \<Rightarrow> nat option \<Rightarrow> Node \<Rightarrow> Node" where
  "reap_worker i sv done_to s =
     refresh_keepalive (s\<lparr>inflight_stops := inflight_stops s + 1,
                          stop_tasks := stop_tasks s @ [(i, sv, done_to)]\<rparr>)"

definition drain_workers :: "Node \<Rightarrow> (u32 \<times> WorkerSup) list \<times> Node" where
  "drain_workers s =
     (List.map_filter (\<lambda>i. map_option (Pair i) (registry_get i (registry s))) (registry_ids (registry s)),
      s\<lparr>registry := (registry s)\<lparr>wr_map := []\<rparr>, last_activity := [], in_flight := [], load_facts := []\<rparr>)"

subsection \<open>Its messages\<close>

definition node_load :: "NodeLoadParams \<Rightarrow> nat \<Rightarrow> Node \<Rightarrow> Node" where
  "node_load p c s =
     (if shutting_down s then node_reply c (Failed shutting_down_error) s
      else case reserve (registry s) of
        (i, r) \<Rightarrow> refresh_keepalive (s\<lparr>registry := r, inflight_loads := inflight_loads s + 1,
                                     load_tasks := load_tasks s @ [(i, p, c)]\<rparr>))"

text \<open>\<open>listening\<close>: the caller still waits, so that the reply is delivered.\<close>

definition load_commit :: "u32 \<Rightarrow> LoadResult \<Rightarrow> nat \<Rightarrow> bool \<Rightarrow> nat \<Rightarrow> Node \<Rightarrow> Node" where
  "load_commit i result c listening instant s =
     (let s = (case result of
                 LoadOk sv loaded facts \<Rightarrow>
                   if shutting_down s
                   then node_reply c (Failed shutting_down_error) (reap_worker i sv None s)
                   else if listening
                   then let s = node_reply c (Loaded i loaded) s;
                            s = s\<lparr>registry := insert_reserved i sv (registry s),
                                  last_activity := AList.update i instant (last_activity s),
                                  load_facts := AList.update i facts (load_facts s)\<rparr>
                        in emit_fleet instant WorkerLoaded
                             (emit_event (ModelLoaded (unwrap_or [] (loaded_model_id sv))) s)
                   else reap_worker i sv None (s\<lparr>abandoned := abandoned s @ [c]\<rparr>)
               | LoadFailure sv e \<Rightarrow>
                   node_reply c (Failed e) (case sv of None \<Rightarrow> s | Some sv \<Rightarrow> reap_worker i sv None s))
      in maybe_finish_shutdown (refresh_keepalive (s\<lparr>inflight_loads := inflight_loads s - 1\<rparr>)))"

definition node_unload :: "u32 \<Rightarrow> nat \<Rightarrow> nat \<Rightarrow> Node \<Rightarrow> Node" where
  "node_unload i c instant s =
     (case registry_remove i (registry s) of
        (Some sv, r) \<Rightarrow>
          emit_fleet instant WorkerUnloaded
            (emit_event (ModelUnloaded (unwrap_or [] (loaded_model_id sv)))
              (reap_worker i sv (Some c) (forget_activity i (s\<lparr>registry := r\<rparr>))))
      | (None, r) \<Rightarrow> node_reply c (Failed (no_worker_error i)) s)"

definition node_inventory :: "nat \<Rightarrow> nat \<Rightarrow> Node \<Rightarrow> Node" where
  "node_inventory c instant s =
     (let s = s\<lparr>node_seq := node_seq s + 1\<rparr> in
      node_reply c (InventoryRows (snapshot_workers instant s) (node_seq s)) s)"

definition chat_handle :: "u32 \<Rightarrow> string \<Rightarrow> nat \<Rightarrow> nat \<Rightarrow> Node \<Rightarrow> Node" where
  "chat_handle i model c instant s =
     (if quiescing s then node_reply c (Failed shutting_down_error) s
      else case registry_get i (registry s) of
        None \<Rightarrow> node_reply c (Failed (no_worker_error i)) s
      | Some sv \<Rightarrow>
          if loaded_model_id sv = Some model \<and>
             (case map_of (load_facts s) i of None \<Rightarrow> False | Some f \<Rightarrow> lf_domain f \<noteq> Llm)
          then case map_of (load_facts s) i of
                 None \<Rightarrow> s
               | Some f \<Rightarrow>
                   node_reply c (Failed (ModelNotChatCapable (unwrap_or [] (loaded_model_id sv))
                     (unwrap_or ''unknown'' (lf_arch f)) (lf_domain f))) s
          else
            let s = s\<lparr>last_activity := AList.update i instant (last_activity s),
                      in_flight := AList.update i (unwrap_or 0 (map_of (in_flight s) i) + 1) (in_flight s),
                      chat_leases := (i, sv) # chat_leases s\<rparr>
            in emit_fleet instant ChatStart (node_reply c (Leased sv) s))"

definition chat_end :: "u32 \<Rightarrow> nat \<Rightarrow> Node \<Rightarrow> Node" where
  "chat_end i instant s =
     (case registry_get i (registry s) of
        Some _ \<Rightarrow>
          emit_fleet instant ChatEnd
            (s\<lparr>in_flight := (case map_of (in_flight s) i of None \<Rightarrow> in_flight s
                             | Some n \<Rightarrow> AList.update i (n - (if n = 0 then 0 else 1)) (in_flight s)),
               last_activity := AList.update i instant (last_activity s)\<rparr>)
      | None \<Rightarrow> forget_activity i s)"

definition idle_ids :: "nat \<Rightarrow> Node \<Rightarrow> u32 list" where
  "idle_ids instant s =
     filter (\<lambda>i. unwrap_or 0 (map_of (in_flight s) i) = 0 \<and>
                 (case map_of (last_activity s) i of None \<Rightarrow> False
                  | Some t \<Rightarrow> instant - t \<ge> idle_ttl (idle s)))
       (registry_ids (registry s))"

definition reap_one :: "u32 \<Rightarrow> Node \<Rightarrow> Node" where
  "reap_one i s =
     (case registry_remove i (registry s) of
        (Some sv, r) \<Rightarrow>
          emit_event (ModelUnloaded (unwrap_or [] (loaded_model_id sv)))
            (reap_worker i sv None (forget_activity i (s\<lparr>registry := r\<rparr>)))
      | (None, r) \<Rightarrow> s)"

definition reap_idle :: "nat \<Rightarrow> Node \<Rightarrow> Node" where
  "reap_idle instant s =
     (if \<not> shutting_down s \<and> idle_enabled (idle s)
      then let ids = idle_ids instant s; s = fold reap_one ids s in
           if ids \<noteq> [] then emit_fleet instant WorkerUnloaded s else s
      else s)"

definition shutdown_all :: "nat \<Rightarrow> Node \<Rightarrow> Node" where
  "shutdown_all c s =
     (if shutdown_done s then node_reply c ShutDown s
      else
        let s = s\<lparr>shutdown_waiters := shutdown_waiters s @ [c]\<rparr> in
        if shutting_down s then s
        else case drain_workers (s\<lparr>shutting_down := True\<rparr>) of
               (out, s) \<Rightarrow> maybe_finish_shutdown (fold (\<lambda>(i, sv). reap_worker i sv None) out s))"

definition quiesce_chats :: "nat \<Rightarrow> Node \<Rightarrow> Node" where
  "quiesce_chats c s = node_reply c Quiesced (s\<lparr>quiescing := True\<rparr>)"

definition reap_done :: "nat option \<Rightarrow> Node \<Rightarrow> Node" where
  "reap_done done_to s =
     (let s = s\<lparr>inflight_stops := inflight_stops s - 1\<rparr>;
          s = (case done_to of None \<Rightarrow> s | Some c \<Rightarrow> node_reply c Stopped s)
      in maybe_finish_shutdown (refresh_keepalive s))"

text \<open>
  Steps: the messages of callers; a load or stop task that ends, with its message; a lease that
  is dropped, with its message; the reaper's tick; settings and subscriptions.
\<close>

datatype NodeStep =
    Load NodeLoadParams nat
  | LoadEnds u32 NodeLoadParams nat LoadResult bool nat
  | Unload u32 nat nat
  | Inventory nat nat
  | ChatHandle u32 string nat nat
  | LeaseEnds u32 WorkerSup nat
  | ReapIdle nat
  | FleetResnapshot nat
  | ShutdownAll nat
  | QuiesceChats nat
  | StopEnds u32 WorkerSup "nat option"
  | SetTtl nat
  | SetEnabled bool
  | Subscribers nat

fun node_step :: "NodeStep \<Rightarrow> Node \<Rightarrow> Node" where
  "node_step (Load p c) s = node_load p c s"
| "node_step (LoadEnds i p c result listening t) s =
     (if (i, p, c) \<in> set (load_tasks s)
      then load_commit i result c listening t (s\<lparr>load_tasks := remove1 (i, p, c) (load_tasks s)\<rparr>)
      else s)"
| "node_step (Unload i c t) s = node_unload i c t s"
| "node_step (Inventory c t) s = node_inventory c t s"
| "node_step (ChatHandle i model c t) s = chat_handle i model c t s"
| "node_step (LeaseEnds i sv t) s =
     (if (i, sv) \<in> set (chat_leases s)
      then chat_end i t (s\<lparr>chat_leases := remove1 (i, sv) (chat_leases s)\<rparr>)
      else s)"
| "node_step (ReapIdle t) s = reap_idle t s"
| "node_step (FleetResnapshot t) s = emit_fleet t Resync s"
| "node_step (ShutdownAll c) s = shutdown_all c s"
| "node_step (QuiesceChats c) s = quiesce_chats c s"
| "node_step (StopEnds i sv done_to) s =
     (if (i, sv, done_to) \<in> set (stop_tasks s)
      then reap_done done_to (s\<lparr>stop_tasks := remove1 (i, sv, done_to) (stop_tasks s)\<rparr>)
      else s)"
| "node_step (SetTtl ttl) s = s\<lparr>idle := set_ttl ttl (idle s)\<rparr>"
| "node_step (SetEnabled b) s = s\<lparr>idle := (idle s)\<lparr>idle_enabled := b\<rparr>\<rparr>"
| "node_step (Subscribers n) s = s\<lparr>fleet_receivers := n\<rparr>"

definition node_run :: "NodeStep list \<Rightarrow> Node \<Rightarrow> Node" where
  "node_run es s = fold node_step es s"

text \<open>One poll of \<open>drain_until_idle\<close>: the generations of the resident workers.\<close>

definition in_flight_total :: "nat \<Rightarrow> Node \<Rightarrow> u32" where
  "in_flight_total instant s =
     sum_list (map (\<lambda>x. unwrap_or 0 (w_in_flight x)) (snapshot_workers instant s))"

end
