(* ===== verification/Facade.thy ===== *)
theory Facade
  imports Tuning Load_Robustness Runtime
begin

text \<open>
  The \<open>Higgs\<close> facade over its local node (\<open>src/api.rs\<close>, \<open>src/api/guards.rs\<close>): loads with their
  retries and their persistence, unloads, benchmarks and chats. Each request is a task that runs
  from one \<open>await\<close> to the next in one step; the local node is the actor of theory Runtime, asked by
  numbered calls. A task can be dropped at any \<open>await\<close>; its guards then run.
\<close>

subsection \<open>Guards and parameters\<close>

definition repo_id_char :: "char \<Rightarrow> bool" where
  "repo_id_char c \<longleftrightarrow>
     (let n = (of_char c :: nat) in
      48 \<le> n \<and> n \<le> 57 \<or> 65 \<le> n \<and> n \<le> 90 \<or> 97 \<le> n \<and> n \<le> 122 \<or> c \<in> set ''_-./:'')"

definition validate_repo_id :: "string \<Rightarrow> HiggsError option" where
  "validate_repo_id i =
     (if i = [] then Some (InvalidModelId i ''id is empty'')
      else if hd i = CHR ''/'' \<or> hd i = CHR 0x5C then Some (InvalidModelId i ''id must not be an absolute path'')
      else if CHR 0x00 \<in> set i then Some (InvalidModelId i ''id contains a NUL byte'')
      else if \<not> list_all repo_id_char i then Some (InvalidModelId i ''id contains an illegal character'')
      else if list_ex (\<lambda>seg. seg = ''..'') (concat (map (split_on CHR 0x5C) (split_on CHR ''/'' i)))
      then Some (InvalidModelId i ''id contains a `..` path component'')
      else None)"

definition fixed_n :: "CtxLen \<Rightarrow> u32 option" where
  "fixed_n c = (case c of Auto \<Rightarrow> None | Fixed n \<Rightarrow> Some n)"

definition node_params_for :: "string \<Rightarrow> LlamaCppParams \<Rightarrow> NodeLoadParams" where
  "node_params_for i p =
     \<lparr>load_id = i, load_ctx_len = fixed_n (ctx_len p), load_gpu_layers = Some (gpu_layers p),
      load_threads = Some (threads p), load_params = (if has_overrides p then Some p else None)\<rparr>"

text \<open>Without parameters the context stays open, and the rest is the configured default.\<close>

definition load_node_params :: "string \<Rightarrow> LlamaCppParams option \<Rightarrow> LlamaCppParams \<Rightarrow> NodeLoadParams" where
  "load_node_params i params default_load =
     (case params of
        Some p \<Rightarrow> node_params_for i p
      | None \<Rightarrow> (node_params_for i default_load)\<lparr>load_ctx_len := None\<rparr>)"

definition effective_params :: "NodeLoadParams \<Rightarrow> LlamaCppParams" where
  "effective_params np =
     (let ctx = (case load_ctx_len np of Some n \<Rightarrow> ctx_fixed n | None \<Rightarrow> Auto);
          layers = unwrap_or gpu_layers_default (load_gpu_layers np);
          thr = unwrap_or 0 (load_threads np)
      in case load_params np of
           Some lc \<Rightarrow> lc\<lparr>ctx_len := ctx, gpu_layers := layers, threads := thr\<rparr>
         | None \<Rightarrow> params_base ctx layers thr)"

definition oom_reason :: "HiggsError \<Rightarrow> string option" where
  "oom_reason e =
     (case e of
        EngineLoadFailed _ reason \<Rightarrow> (if is_oom_reason reason then Some reason else None)
      | WorkerRpc _ message (Some c) \<Rightarrow> (if c = ''HG004'' \<and> is_oom_reason message then Some message else None)
      | _ \<Rightarrow> None)"

subsection \<open>Tasks\<close>

datatype LoadPersist = Explicit | ReuseSaved | Ephemeral

datatype ModelLoadPhase = Queued | Preparing | LoadingWeights | Finalizing | Ready | LoadFailed

text \<open>What the scan and the hardware snapshot of a load answer.\<close>

record Anchors =
  an_hw :: string
  an_sig :: string

datatype load_pc =
    LQueue
  | LResident
  | LPrepare
  | LAnchor "LlamaCppParams option"
  | LSend NodeLoadParams NodeLoadParams "Anchors option" "nat option" "LoadRung list"
  | LWait nat NodeLoadParams NodeLoadParams "Anchors option" "nat option" "LoadRung list"
  | LPersist nat NodeLoadParams NodeLoadParams "Anchors option"
  | LEnded "HiggsError option"

datatype unload_pc =
    UQueue
  | URead
  | UNext "u32 list"
  | UWait nat "u32 list"
  | UEnded "HiggsError option"

text \<open>\<open>live\<close> is the candidate the guard of the benchmark has to reclaim.\<close>

datatype bench_pc =
    BQueue "Candidate list"
  | BResident "Candidate list"
  | BNext "Candidate list"
  | BClear Candidate "Candidate list" "u32 list option"
  | BClearWait nat Candidate "Candidate list" "u32 list"
  | BLoad Candidate "Candidate list"
  | BLoadWait nat Candidate "Candidate list"
  | BMeasure u32 Candidate "Candidate list"
  | BDrop u32 "(HiggsError + BenchResult)" Candidate "Candidate list" "u32 list option"
  | BDropWait nat u32 "(HiggsError + BenchResult)" Candidate "Candidate list" "u32 list"
  | BEnded "HiggsError + Candidate \<times> BenchResult"

datatype chat_pc =
    CRead
  | CGate "(u32 \<times> string) option"
  | CWait nat u32 string bool
  | CRemote
  | CRemoteWait
  | CRun u32 WorkerSup bool
  | CRunRemote
  | CEnded "HiggsError option"

datatype task =
    LoadTask string "LlamaCppParams option" LoadPersist load_pc
  | UnloadTask "string option" unload_pc
  | BenchTask string "(Candidate \<times> bool \<times> (HiggsError + BenchResult)) list" bench_pc
  | Cleanup string u32 "nat option"
  | ChatTask bool string chat_pc
  | StopTask "nat option"
  | Finished

subsection \<open>The facade\<close>

text \<open>
  \<open>hg_calls\<close> numbers the calls to the local node, \<open>hg_sent\<close> is the history of its loads with their
  tasks; an event carries the number of its task.
\<close>

record Higgs =
  hg_local :: Node
  hg_lifecycle :: "nat option"
  hg_benchmarking :: "string list"
  hg_loading :: "string option"
  hg_events :: "(nat \<times> string \<times> ModelLoadPhase \<times> string option) list"
  hg_last_loads :: "(string \<times> LlamaCppParams) list"
  hg_models :: ModelsStore
  hg_stopping :: bool
  hg_gate :: nat
  hg_remote_gate :: nat
  hg_default_load :: LlamaCppParams
  hg_tasks :: "task list"
  hg_calls :: nat
  hg_sent :: "(nat \<times> nat \<times> NodeLoadParams) list"

definition MAX_CONCURRENT_INFERENCE :: nat where "MAX_CONCURRENT_INFERENCE = 8"

definition higgs_new :: "nat \<Rightarrow> LlamaCppParams \<Rightarrow> ModelsStore \<Rightarrow> Higgs" where
  "higgs_new ttl default_load store =
     \<lparr>hg_local = node_new ttl, hg_lifecycle = None, hg_benchmarking = [], hg_loading = None,
      hg_events = [], hg_last_loads = [], hg_models = store, hg_stopping = False,
      hg_gate = MAX_CONCURRENT_INFERENCE, hg_remote_gate = MAX_CONCURRENT_INFERENCE,
      hg_default_load = default_load, hg_tasks = [], hg_calls = 0, hg_sent = []\<rparr>"

definition set_task :: "nat \<Rightarrow> task \<Rightarrow> Higgs \<Rightarrow> Higgs" where
  "set_task k t s = s\<lparr>hg_tasks := (hg_tasks s)[k := t]\<rparr>"

definition emit_load_phase :: "nat \<Rightarrow> string \<Rightarrow> ModelLoadPhase \<Rightarrow> string option \<Rightarrow> Higgs \<Rightarrow> Higgs" where
  "emit_load_phase k i phase c s = s\<lparr>hg_events := hg_events s @ [(k, i, phase, c)]\<rparr>"

definition is_benchmarking :: "string \<Rightarrow> Higgs \<Rightarrow> bool" where
  "is_benchmarking i s \<longleftrightarrow> i \<in> set (hg_benchmarking s)"

definition unflag :: "string \<Rightarrow> Higgs \<Rightarrow> Higgs" where
  "unflag i s = s\<lparr>hg_benchmarking := removeAll i (hg_benchmarking s)\<rparr>"

definition release :: "Higgs \<Rightarrow> Higgs" where
  "release s = s\<lparr>hg_lifecycle := None\<rparr>"

text \<open>One call to the local node: its number and the message.\<close>

definition call_node :: "(nat \<Rightarrow> NodeStep) \<Rightarrow> Higgs \<Rightarrow> nat \<times> Higgs" where
  "call_node msg s =
     (hg_calls s, s\<lparr>hg_calls := Suc (hg_calls s), hg_local := node_step (msg (hg_calls s)) (hg_local s)\<rparr>)"

definition answer_of :: "nat \<Rightarrow> Higgs \<Rightarrow> NodeReply option" where
  "answer_of c s = map_of (replies (hg_local s)) c"

definition local_instances :: "Node \<Rightarrow> (u32 \<times> string) list" where
  "local_instances n =
     List.map_filter (\<lambda>i. map_option (\<lambda>sv. (i, unwrap_or [] (loaded_model_id sv))) (registry_get i (registry n)))
       (registry_ids (registry n))"

definition is_resident :: "string \<Rightarrow> Node \<Rightarrow> bool" where
  "is_resident m n \<longleftrightarrow> list_ex (\<lambda>(_, m'). m' = m) (local_instances n)"

definition local_served :: "Node \<Rightarrow> (string \<times> u32 \<times> string) list" where
  "local_served n =
     List.map_filter (\<lambda>(served, (loc::nat), w). map_option (\<lambda>raw. (served, w, raw)) (map_of (local_instances n) w))
       (served_ids (map (\<lambda>(w, m). (0, w, m)) (local_instances n)))"

subsection \<open>Loads\<close>

text \<open>
  What the surroundings answer in one step: the scan of the store's file, the hardware and the
  file signature, whether the stores can be opened and written, the clock, the model's layers,
  the outcome of a measurement, and, for a chat, whether the fleet serves the model.
\<close>

record Answers =
  as_store_opens :: bool
  as_path_sig :: "string option"
  as_hw :: string
  as_layers :: "u32 option"
  as_config_writes :: bool
  as_store_writes :: bool
  as_now_ms :: u64
  as_instant :: nat
  as_measured :: "HiggsError + BenchResult"
  as_remote :: bool
  as_remote_chat :: "HiggsError option"

definition end_load :: "nat \<Rightarrow> string \<Rightarrow> LlamaCppParams option \<Rightarrow> LoadPersist \<Rightarrow> HiggsError option \<Rightarrow> Higgs \<Rightarrow> Higgs" where
  "end_load k i params persist e s =
     emit_load_phase k i (if e = None then Ready else LoadFailed) (map_option error_code e)
       (release (set_task k (LoadTask i params persist (LEnded e)) s))"

definition resolve_params ::
  "string \<Rightarrow> LlamaCppParams option \<Rightarrow> Answers \<Rightarrow> Higgs \<Rightarrow> HiggsError + LlamaCppParams option" where
  "resolve_params i params a s =
     (case params of
        Some p \<Rightarrow> Inr (Some p)
      | None \<Rightarrow>
          (case (if as_store_opens a then tuning i (hg_models s) else None) of
             None \<Rightarrow> Inr None
           | Some r \<Rightarrow>
               if (case as_path_sig a of Some sig \<Rightarrow> is_stale r (as_hw a) sig | None \<Rightarrow> False)
               then Inl (ProfileStale i)
               else Inr (Some (tr_profile r))))"

definition load_anchors :: "LlamaCppParams option \<Rightarrow> LoadPersist \<Rightarrow> Answers \<Rightarrow> Anchors option" where
  "load_anchors params persist a =
     (if persist = Explicit \<or> persist = ReuseSaved \<and> params \<noteq> None
      then Some \<lparr>an_hw = as_hw a, an_sig = unwrap_or [] (as_path_sig a)\<rparr> else None)"

definition persist_load ::
  "string \<Rightarrow> LoadPersist \<Rightarrow> NodeLoadParams \<Rightarrow> NodeLoadParams \<Rightarrow> Anchors option \<Rightarrow> Answers \<Rightarrow> Higgs \<Rightarrow> Higgs" where
  "persist_load i persist requested actual anchors a s =
     (let eff = effective_params actual;
          s = (if persist \<noteq> Ephemeral \<and> as_config_writes a
               then s\<lparr>hg_last_loads := AList.update i eff (hg_last_loads s)\<rparr> else s)
      in case anchors of
           Some an \<Rightarrow>
             (if (persist = Explicit \<or> actual \<noteq> requested) \<and> as_store_opens a \<and> as_store_writes a
              then s\<lparr>hg_models := set_profile i eff (an_hw an) (an_sig an) (as_now_ms a) (hg_models s)\<rparr>
              else s)
         | None \<Rightarrow> s)"

text \<open>The first attempt has no ladder yet; \<open>attempts\<close> is its length once there is one.\<close>

definition load_failed ::
  "nat \<Rightarrow> string \<Rightarrow> LlamaCppParams option \<Rightarrow> LoadPersist \<Rightarrow> NodeLoadParams \<Rightarrow> Anchors option \<Rightarrow> nat option \<Rightarrow>
   LoadRung list \<Rightarrow> HiggsError \<Rightarrow> Answers \<Rightarrow> Higgs \<Rightarrow> Higgs" where
  "load_failed k i params persist requested anchors attempts rungs e a s =
     (case (if persist = Ephemeral then None else oom_reason e) of
        None \<Rightarrow> end_load k i params persist (Some e) (s\<lparr>hg_loading := None\<rparr>)
      | Some reason \<Rightarrow>
          (let rungs = (case attempts of None \<Rightarrow> oom_ladder requested (as_layers a) | Some _ \<Rightarrow> rungs);
               total = (case attempts of None \<Rightarrow> length rungs | Some n \<Rightarrow> n)
           in case rungs of
                [] \<Rightarrow> end_load k i params persist (Some (LoadOomExhausted (total + 1) reason)) (s\<lparr>hg_loading := None\<rparr>)
              | r # rungs \<Rightarrow>
                  set_task k (LoadTask i params persist (LSend (rung_params r) requested anchors (Some total) rungs)) s))"

fun load_step ::
  "nat \<Rightarrow> string \<Rightarrow> LlamaCppParams option \<Rightarrow> LoadPersist \<Rightarrow> load_pc \<Rightarrow> Answers \<Rightarrow> Higgs \<Rightarrow> Higgs option" where
  "load_step k i params persist LQueue a s =
     (if hg_lifecycle s \<noteq> None then None
      else let s = s\<lparr>hg_lifecycle := Some k\<rparr> in
        if is_benchmarking i s then Some (end_load k i params persist (Some (BenchInProgress i)) s)
        else case validate_repo_id i of
               Some e \<Rightarrow> Some (end_load k i params persist (Some e) s)
             | None \<Rightarrow> Some (set_task k (LoadTask i params persist LResident) s))"
| "load_step k i params persist LResident a s =
     (if is_resident i (hg_local s)
      then Some (end_load k i params persist (if persist = Ephemeral then Some (EphemeralResident i) else None) s)
      else Some (emit_load_phase k i Preparing None (set_task k (LoadTask i params persist LPrepare) s)))"
| "load_step k i params persist LPrepare a s =
     (case resolve_params i params a s of
        Inl e \<Rightarrow> Some (end_load k i params persist (Some e) s)
      | Inr p \<Rightarrow> Some (set_task k (LoadTask i params persist (LAnchor p)) s))"
| "load_step k i params persist (LAnchor p) a s =
     (let np = load_node_params i p (hg_default_load s) in
      Some (emit_load_phase k i LoadingWeights None
        (set_task k (LoadTask i params persist (LSend np np (load_anchors p persist a) None []))
          (s\<lparr>hg_loading := Some i\<rparr>))))"
| "load_step k i params persist (LSend np requested anchors attempts rungs) a s =
     (case call_node (Load np) s of
        (c, s) \<Rightarrow>
          Some (set_task k (LoadTask i params persist (LWait c np requested anchors attempts rungs))
            (s\<lparr>hg_sent := hg_sent s @ [(c, k, np)]\<rparr>)))"
| "load_step k i params persist (LWait c np requested anchors attempts rungs) a s =
     (case answer_of c s of
        Some (Loaded w v) \<Rightarrow>
          Some (emit_load_phase k i Finalizing None
            (set_task k (LoadTask i params persist (LPersist c np requested anchors)) s))
      | Some (Failed e) \<Rightarrow> Some (load_failed k i params persist requested anchors attempts rungs e a s)
      | _ \<Rightarrow> None)"
| "load_step k i params persist (LPersist c np requested anchors) a s =
     Some (end_load k i params persist None
       (persist_load i persist requested np anchors a (s\<lparr>hg_loading := None\<rparr>)))"
| "load_step k i params persist (LEnded e) a s = None"

text \<open>A dropped load: its lock and its progress entry go, and the bar is closed.\<close>

definition holds_lock :: "load_pc \<Rightarrow> bool" where
  "holds_lock pc = (case pc of LQueue \<Rightarrow> False | LEnded _ \<Rightarrow> False | _ \<Rightarrow> True)"

definition shows_loading :: "load_pc \<Rightarrow> bool" where
  "shows_loading pc = (case pc of LSend _ _ _ _ _ \<Rightarrow> True | LWait _ _ _ _ _ _ \<Rightarrow> True | LPersist _ _ _ _ \<Rightarrow> True | _ \<Rightarrow> False)"

definition drop_load :: "nat \<Rightarrow> string \<Rightarrow> load_pc \<Rightarrow> Higgs \<Rightarrow> Higgs" where
  "drop_load k i pc s =
     (case pc of
        LEnded _ \<Rightarrow> s
      | _ \<Rightarrow>
          let s = (if shows_loading pc then s\<lparr>hg_loading := None\<rparr> else s);
              s = (if holds_lock pc then release s else s)
          in emit_load_phase k i LoadFailed (Some ''cancelled'') (set_task k Finished s))"

subsection \<open>Unloads\<close>

definition end_unload :: "nat \<Rightarrow> string option \<Rightarrow> HiggsError option \<Rightarrow> Higgs \<Rightarrow> Higgs" where
  "end_unload k which e s = release (set_task k (UnloadTask which (UEnded e)) s)"

text \<open>The workers an unload is about: all of them, or the one a served name resolves to.\<close>

definition unload_targets :: "string option \<Rightarrow> Higgs \<Rightarrow> HiggsError + u32 list" where
  "unload_targets which s =
     (case which of
        None \<Rightarrow> Inr (map fst (local_instances (hg_local s)))
      | Some served \<Rightarrow>
          (case map_of (local_served (hg_local s)) served of
             None \<Rightarrow> Inr []
           | Some (w, raw) \<Rightarrow> if is_benchmarking raw s then Inl (BenchInProgress raw) else Inr [w]))"

definition unload_refused :: "string option \<Rightarrow> Higgs \<Rightarrow> HiggsError option" where
  "unload_refused which s =
     (case which of
        None \<Rightarrow> (case hg_benchmarking s of [] \<Rightarrow> None | i # _ \<Rightarrow> Some (BenchInProgress i))
      | Some served \<Rightarrow> if is_benchmarking served s then Some (BenchInProgress served) else None)"

fun unload_step :: "nat \<Rightarrow> string option \<Rightarrow> unload_pc \<Rightarrow> Answers \<Rightarrow> Higgs \<Rightarrow> Higgs option" where
  "unload_step k which UQueue a s =
     (if hg_lifecycle s \<noteq> None then None
      else let s = s\<lparr>hg_lifecycle := Some k\<rparr> in
        case unload_refused which s of
          Some e \<Rightarrow> Some (end_unload k which (Some e) s)
        | None \<Rightarrow> Some (set_task k (UnloadTask which URead) s))"
| "unload_step k which URead a s =
     (case unload_targets which s of
        Inl e \<Rightarrow> Some (end_unload k which (Some e) s)
      | Inr ws \<Rightarrow> Some (set_task k (UnloadTask which (UNext ws)) s))"
| "unload_step k which (UNext []) a s = Some (end_unload k which None s)"
| "unload_step k which (UNext (w # ws)) a s =
     (case call_node (\<lambda>c. Unload w c (as_instant a)) s of
        (c, s) \<Rightarrow> Some (set_task k (UnloadTask which (UWait c ws)) s))"
| "unload_step k which (UWait c ws) a s =
     (if answer_of c s = None then None else Some (set_task k (UnloadTask which (UNext ws)) s))"
| "unload_step k which (UEnded e) a s = None"

definition drop_unload :: "nat \<Rightarrow> unload_pc \<Rightarrow> Higgs \<Rightarrow> Higgs" where
  "drop_unload k pc s =
     (case pc of
        UEnded _ \<Rightarrow> s
      | UQueue \<Rightarrow> set_task k Finished s
      | _ \<Rightarrow> release (set_task k Finished s))"

subsection \<open>Benchmarks\<close>

type_synonym turns = "(Candidate \<times> bool \<times> (HiggsError + BenchResult)) list"

text \<open>The error texts play no role here.\<close>

definition bench_verdict :: "turns \<Rightarrow> HiggsError + Candidate \<times> BenchResult" where
  "bench_verdict turns = run_benchmark (\<lambda>e. error_code e) turns"

text \<open>The end of the run: the guard has no live candidate and clears the flag.\<close>

definition end_bench :: "nat \<Rightarrow> string \<Rightarrow> turns \<Rightarrow> Higgs \<Rightarrow> Higgs" where
  "end_bench k i turns s = unflag i (set_task k (BenchTask i turns (BEnded (bench_verdict turns))) s)"

text \<open>\<open>bench_unload_id\<close>: the workers of the model, read once.\<close>

definition own_workers :: "string \<Rightarrow> Node \<Rightarrow> u32 list" where
  "own_workers i n = map fst (filter (\<lambda>(_, m). m = i) (local_instances n))"

text \<open>A turn is over with an answer; a cancelled one ends the run.\<close>

definition next_turn ::
  "nat \<Rightarrow> string \<Rightarrow> turns \<Rightarrow> Candidate \<Rightarrow> HiggsError + BenchResult \<Rightarrow> Candidate list \<Rightarrow> Higgs \<Rightarrow> Higgs" where
  "next_turn k i turns c r cs s =
     (let turns = turns @ [(c, False, r)] in
      if r = Inl BenchCancelled then end_bench k i turns s
      else set_task k (BenchTask i turns (BNext cs)) s)"

fun bench_step :: "nat \<Rightarrow> string \<Rightarrow> turns \<Rightarrow> bench_pc \<Rightarrow> Answers \<Rightarrow> Higgs \<Rightarrow> Higgs option" where
  "bench_step k i turns (BQueue cands) a s =
     (if hg_lifecycle s \<noteq> None then None
      else if is_benchmarking i s
      then Some (set_task k (BenchTask i turns (BEnded (Inl (BenchInProgress i)))) s)
      else Some (set_task k (BenchTask i turns (BResident cands)) (s\<lparr>hg_lifecycle := Some k\<rparr>)))"
| "bench_step k i turns (BResident cands) a s =
     (if is_resident i (hg_local s)
      then Some (release (set_task k (BenchTask i turns (BEnded (Inl (BenchModelLoaded i)))) s))
      else Some (release (set_task k (BenchTask i turns (BNext cands))
             (s\<lparr>hg_benchmarking := i # hg_benchmarking s\<rparr>))))"
| "bench_step k i turns (BNext []) a s = Some (end_bench k i turns s)"
| "bench_step k i turns (BNext (c # cs)) a s =
     (if hg_stopping s then Some (end_bench k i (turns @ [(c, True, Inl BenchCancelled)]) s)
      else Some (set_task k (BenchTask i turns (BClear c cs None)) s))"
| "bench_step k i turns (BClear c cs None) a s =
     Some (set_task k (BenchTask i turns (BClear c cs (Some (own_workers i (hg_local s))))) s)"
| "bench_step k i turns (BClear c cs (Some [])) a s = Some (set_task k (BenchTask i turns (BLoad c cs)) s)"
| "bench_step k i turns (BClear c cs (Some (w # ws))) a s =
     (case call_node (\<lambda>n. Unload w n (as_instant a)) s of
        (n, s) \<Rightarrow> Some (set_task k (BenchTask i turns (BClearWait n c cs ws)) s))"
| "bench_step k i turns (BClearWait n c cs ws) a s =
     (if answer_of n s = None then None
      else Some (set_task k (BenchTask i turns (BClear c cs (Some ws))) s))"
| "bench_step k i turns (BLoad c cs) a s =
     (let np = node_params_for i (cand_load c) in
      case call_node (Load np) s of
        (n, s) \<Rightarrow>
          Some (set_task k (BenchTask i turns (BLoadWait n c cs)) (s\<lparr>hg_sent := hg_sent s @ [(n, k, np)]\<rparr>)))"
| "bench_step k i turns (BLoadWait n c cs) a s =
     (case answer_of n s of
        Some (Loaded w v) \<Rightarrow> Some (set_task k (BenchTask i turns (BMeasure w c cs)) s)
      | Some (Failed e) \<Rightarrow> Some (next_turn k i turns c (Inl e) cs s)
      | _ \<Rightarrow> None)"
| "bench_step k i turns (BMeasure w c cs) a s =
     Some (set_task k (BenchTask i turns (BDrop w (as_measured a) c cs None)) s)"
| "bench_step k i turns (BDrop w r c cs None) a s =
     Some (set_task k (BenchTask i turns (BDrop w r c cs (Some (own_workers i (hg_local s))))) s)"
| "bench_step k i turns (BDrop w r c cs (Some [])) a s = Some (next_turn k i turns c r cs s)"
| "bench_step k i turns (BDrop w r c cs (Some (x # xs))) a s =
     (case call_node (\<lambda>n. Unload x n (as_instant a)) s of
        (n, s) \<Rightarrow> Some (set_task k (BenchTask i turns (BDropWait n w r c cs xs)) s))"
| "bench_step k i turns (BDropWait n w r c cs xs) a s =
     (if answer_of n s = None then None
      else Some (set_task k (BenchTask i turns (BDrop w r c cs (Some xs))) s))"
| "bench_step k i turns (BEnded r) a s = None"

definition live_candidate :: "bench_pc \<Rightarrow> u32 option" where
  "live_candidate pc =
     (case pc of BMeasure w _ _ \<Rightarrow> Some w | BDrop w _ _ _ _ \<Rightarrow> Some w | BDropWait _ w _ _ _ _ \<Rightarrow> Some w | _ \<Rightarrow> None)"

text \<open>
  The guard on a dropped run: the flag outlives the reclaim of a live candidate.
\<close>

definition drop_bench :: "nat \<Rightarrow> string \<Rightarrow> bench_pc \<Rightarrow> Higgs \<Rightarrow> Higgs" where
  "drop_bench k i pc s =
     (case pc of
        BEnded _ \<Rightarrow> s
      | BQueue _ \<Rightarrow> set_task k Finished s
      | BResident _ \<Rightarrow> release (set_task k Finished s)
      | _ \<Rightarrow>
          (case live_candidate pc of
             Some w \<Rightarrow> set_task k (Cleanup i w None) s
           | None \<Rightarrow> unflag i (set_task k Finished s)))"

definition cleanup_step :: "nat \<Rightarrow> string \<Rightarrow> u32 \<Rightarrow> nat option \<Rightarrow> Answers \<Rightarrow> Higgs \<Rightarrow> Higgs option" where
  "cleanup_step k i w c a s =
     (case c of
        None \<Rightarrow>
          (case call_node (\<lambda>n. Unload w n (as_instant a)) s of
             (n, s) \<Rightarrow> Some (set_task k (Cleanup i w (Some n)) s))
      | Some n \<Rightarrow> if answer_of n s = None then None else Some (unflag i (set_task k Finished s)))"

subsection \<open>Chats\<close>

definition server_busy :: HiggsError where
  "server_busy = ServerBusy MAX_CONCURRENT_INFERENCE MAX_CONCURRENT_INFERENCE"

text \<open>
  \<open>public\<close>: it takes a permit of the local gate, and a worker under benchmark is not for it. A relayed
  chat, public or not, takes a permit of the remote gate: \<open>CRemote\<close> awaits \<open>is_remote\<close> (false also when
  no fleet is installed), \<open>CRemoteWait\<close> awaits \<open>fleet.chat\<close> with the permit in hand, \<open>CRunRemote\<close> is the
  spawned relay.
\<close>

fun chat_step :: "nat \<Rightarrow> bool \<Rightarrow> string \<Rightarrow> chat_pc \<Rightarrow> Answers \<Rightarrow> Higgs \<Rightarrow> Higgs option" where
  "chat_step k public m CRead a s =
     Some (set_task k (ChatTask public m (CGate (map_of (local_served (hg_local s)) m))) s)"
| "chat_step k public m (CGate resolved) a s =
     (case opt_filter (\<lambda>(_, raw). \<not> (public \<and> is_benchmarking raw s)) resolved of
        None \<Rightarrow> Some (set_task k (ChatTask public m CRemote) s)
      | Some (w, raw) \<Rightarrow>
          if public \<and> hg_gate s = 0 then Some (set_task k (ChatTask public m (CEnded (Some server_busy))) s)
          else
            let s = (if public then s\<lparr>hg_gate := hg_gate s - 1\<rparr> else s) in
            case call_node (\<lambda>c. ChatHandle w raw c (as_instant a)) s of
              (c, s) \<Rightarrow> Some (set_task k (ChatTask public m (CWait c w raw public)) s))"
| "chat_step k public m (CWait c w raw permit) a s =
     (case answer_of c s of
        Some (Leased sv) \<Rightarrow> Some (set_task k (ChatTask public m (CRun w sv permit)) s)
      | Some (Failed e) \<Rightarrow>
          Some (set_task k (ChatTask public m (CEnded (Some e)))
            (if permit then s\<lparr>hg_gate := hg_gate s + 1\<rparr> else s))
      | _ \<Rightarrow> None)"
| "chat_step k public m (CRun w sv permit) a s =
     Some (set_task k (ChatTask public m (CEnded None))
       ((if permit then s\<lparr>hg_gate := hg_gate s + 1\<rparr> else s)
          \<lparr>hg_local := node_step (LeaseEnds w sv (as_instant a)) (hg_local s)\<rparr>))"
| "chat_step k public m CRemote a s =
     (if \<not> as_remote a then Some (set_task k (ChatTask public m (CEnded (Some (ModelNotFound m)))) s)
      else if hg_remote_gate s = 0 then Some (set_task k (ChatTask public m (CEnded (Some server_busy))) s)
      else Some (set_task k (ChatTask public m CRemoteWait) (s\<lparr>hg_remote_gate := hg_remote_gate s - 1\<rparr>)))"
| "chat_step k public m CRemoteWait a s =
     (case as_remote_chat a of
        Some e \<Rightarrow>
          Some (set_task k (ChatTask public m (CEnded (Some e))) (s\<lparr>hg_remote_gate := hg_remote_gate s + 1\<rparr>))
      | None \<Rightarrow> Some (set_task k (ChatTask public m CRunRemote) s))"
| "chat_step k public m CRunRemote a s =
     Some (set_task k (ChatTask public m (CEnded None)) (s\<lparr>hg_remote_gate := hg_remote_gate s + 1\<rparr>))"
| "chat_step k public m (CEnded e) a s = None"

text \<open>A generation runs on in a task of its own; before that, a dropped chat returns its permit.\<close>

definition drop_chat :: "nat \<Rightarrow> chat_pc \<Rightarrow> Higgs \<Rightarrow> Higgs" where
  "drop_chat k pc s =
     (case pc of
        CRun _ _ _ \<Rightarrow> s
      | CRunRemote \<Rightarrow> s
      | CEnded _ \<Rightarrow> s
      | CRemoteWait \<Rightarrow> set_task k Finished (s\<lparr>hg_remote_gate := hg_remote_gate s + 1\<rparr>)
      | CWait _ _ _ permit \<Rightarrow> set_task k Finished (if permit then s\<lparr>hg_gate := hg_gate s + 1\<rparr> else s)
      | _ \<Rightarrow> set_task k Finished s)"

subsection \<open>The machine\<close>

datatype facade_request =
    ALoad string "LlamaCppParams option" LoadPersist
  | AUnload "string option"
  | ABench string "Candidate list"
  | AChat bool string
  | AStop

definition first_task :: "facade_request \<Rightarrow> task" where
  "first_task r =
     (case r of
        ALoad i params persist \<Rightarrow> LoadTask i params persist LQueue
      | AUnload which \<Rightarrow> UnloadTask which UQueue
      | ABench i cands \<Rightarrow> BenchTask i [] (BQueue cands)
      | AChat public m \<Rightarrow> ChatTask public m CRead
      | AStop \<Rightarrow> StopTask None)"

definition ask :: "facade_request \<Rightarrow> Higgs \<Rightarrow> Higgs" where
  "ask r s =
     (let k = length (hg_tasks s); s = s\<lparr>hg_tasks := hg_tasks s @ [first_task r]\<rparr> in
      case r of
        ALoad i params persist \<Rightarrow> emit_load_phase k i Queued None s
      | AStop \<Rightarrow> s\<lparr>hg_stopping := True\<rparr>
      | _ \<Rightarrow> s)"

text \<open>\<open>stop\<close>: the flag is set at once, the shutdown waits for the lock.\<close>

definition halt_step :: "nat \<Rightarrow> nat option \<Rightarrow> Higgs \<Rightarrow> Higgs option" where
  "halt_step k c s =
     (case c of
        None \<Rightarrow>
          (if hg_lifecycle s \<noteq> None then None
           else case call_node ShutdownAll (s\<lparr>hg_lifecycle := Some k\<rparr>) of
                  (c, s) \<Rightarrow> Some (set_task k (StopTask (Some c)) s))
      | Some c \<Rightarrow> if answer_of c s = None then None else Some (release (set_task k Finished s)))"

definition task_step :: "nat \<Rightarrow> Answers \<Rightarrow> Higgs \<Rightarrow> Higgs option" where
  "task_step k a s =
     (if k < length (hg_tasks s)
      then (case hg_tasks s ! k of
              LoadTask i params persist pc \<Rightarrow> load_step k i params persist pc a s
            | UnloadTask which pc \<Rightarrow> unload_step k which pc a s
            | BenchTask i turns pc \<Rightarrow> bench_step k i turns pc a s
            | Cleanup i w c \<Rightarrow> cleanup_step k i w c a s
            | ChatTask public m pc \<Rightarrow> chat_step k public m pc a s
            | StopTask c \<Rightarrow> halt_step k c s
            | Finished \<Rightarrow> None)
      else None)"

definition drop_task :: "nat \<Rightarrow> Higgs \<Rightarrow> Higgs" where
  "drop_task k s =
     (if k < length (hg_tasks s)
      then (case hg_tasks s ! k of
              LoadTask i params persist pc \<Rightarrow> drop_load k i pc s
            | UnloadTask which pc \<Rightarrow> drop_unload k pc s
            | BenchTask i turns pc \<Rightarrow> drop_bench k i pc s
            | ChatTask public m pc \<Rightarrow> drop_chat k pc s
            | StopTask None \<Rightarrow> set_task k Finished s
            | StopTask (Some c) \<Rightarrow> release (set_task k Finished s)
            | _ \<Rightarrow> s)
      else s)"

text \<open>The call a task waits for; a load's reply is delivered if its task still waits.\<close>

definition awaits :: "task \<Rightarrow> nat option" where
  "awaits t =
     (case t of
        LoadTask _ _ _ (LWait c _ _ _ _ _) \<Rightarrow> Some c
      | UnloadTask _ (UWait c _) \<Rightarrow> Some c
      | BenchTask _ _ (BClearWait c _ _ _) \<Rightarrow> Some c
      | BenchTask _ _ (BLoadWait c _ _) \<Rightarrow> Some c
      | BenchTask _ _ (BDropWait c _ _ _ _ _) \<Rightarrow> Some c
      | Cleanup _ _ c \<Rightarrow> c
      | ChatTask _ _ (CWait c _ _ _) \<Rightarrow> Some c
      | StopTask c \<Rightarrow> c
      | _ \<Rightarrow> None)"

definition awaited :: "nat \<Rightarrow> Higgs \<Rightarrow> bool" where
  "awaited c s \<longleftrightarrow> list_ex (\<lambda>t. awaits t = Some c) (hg_tasks s)"

text \<open>What the node does on its own; a lease may end at any time.\<close>

definition own_move :: "NodeStep \<Rightarrow> bool" where
  "own_move e =
     (case e of
        LeaseEnds _ _ _ \<Rightarrow> True
      | ReapIdle _ \<Rightarrow> True
      | FleetResnapshot _ \<Rightarrow> True
      | StopEnds _ _ _ \<Rightarrow> True
      | SetTtl _ \<Rightarrow> True
      | SetEnabled _ \<Rightarrow> True
      | Subscribers _ \<Rightarrow> True
      | _ \<Rightarrow> False)"

text \<open>
  A load task of the node ends with what \<open>do_load\<close> makes of its surroundings; the serialised
  overrides have no \<open>id\<close> of their own.
\<close>

datatype facade_event =
    Ask facade_request
  | Proceed nat Answers
  | Drop nat
  | NodeLoadEnds u32 NodeLoadParams nat LoadEnv nat
  | NodeMoves NodeStep
  | PutTuning string TuneRecord

definition plain_overrides :: "LoadEnv \<Rightarrow> NodeLoadParams \<Rightarrow> bool" where
  "plain_overrides env p \<longleftrightarrow>
     (case load_params p of None \<Rightarrow> True | Some q \<Rightarrow> ''id'' \<notin> fst ` set (le_to_obj env q))"

fun facade_step :: "facade_event \<Rightarrow> Higgs \<Rightarrow> Higgs" where
  "facade_step (Ask r) s = ask r s"
| "facade_step (Proceed k a) s = unwrap_or s (task_step k a s)"
| "facade_step (Drop k) s = drop_task k s"
| "facade_step (NodeLoadEnds i p c env t) s =
     (if plain_overrides env p
      then s\<lparr>hg_local := node_step (LoadEnds i p c (do_load env p) (awaited c s) t) (hg_local s)\<rparr>
      else s)"
| "facade_step (NodeMoves e) s = (if own_move e then s\<lparr>hg_local := node_step e (hg_local s)\<rparr> else s)"
| "facade_step (PutTuning i r) s = s\<lparr>hg_models := put_tuning i r (hg_models s)\<rparr>"

definition facade_run :: "facade_event list \<Rightarrow> Higgs \<Rightarrow> Higgs" where
  "facade_run es s = fold facade_step es s"

end
