(* ===== verification/Chat_Gate.thy ===== *)
theory Chat_Gate
  imports Facade
begin

text \<open>
  The gate in front of every chat, from \<open>src/api/embed.rs\<close> and \<open>src/api.rs\<close>:
  \<open>Higgs::prepare_chat\<close> with \<open>resolve_loaded\<close> (which model serves the request, loading it on
  demand), the readiness of a saved profile, the estimate of the prompt's size and the clamp
  of the generation budget to the loaded window.

  \<open>resolve_loaded\<close> awaits between its looks at the world, so every look is a separate
  answer in \<open>GateWorld\<close>; the outcome carries the load-phase events the gate itself sent and
  the profile it had loaded, if it came to that.
\<close>

subsection \<open>What the gate knows of a resident model\<close>

record LoadedInfo =
  li_id :: string
  li_worker_id :: u32
  li_ctx_len :: "CtxLen option"
  li_gpu_layers :: "GpuLayers option"
  li_threads :: "u32 option"
  li_arch :: "string option"
  li_quant :: "string option"
  li_max_context_length :: "u64 option"
  li_size_bytes :: "u64 option"
  li_has_chat_template :: "bool option"
  li_domain :: "ModelDomain option"
  li_idle_ttl_minutes :: "u32 option"

definition remote_placeholder :: "string \<Rightarrow> LoadedInfo" where
  "remote_placeholder model =
     \<lparr>li_id = model, li_worker_id = 0, li_ctx_len = None, li_gpu_layers = None, li_threads = None,
      li_arch = None, li_quant = None, li_max_context_length = None, li_size_bytes = None,
      li_has_chat_template = None, li_domain = None, li_idle_ttl_minutes = None\<rparr>"

record ScanRow =
  sr_id :: string
  sr_path :: string
  sr_arch :: "string option"
  sr_domain :: ModelDomain

subsection \<open>Readiness\<close>

datatype ProfileState = Missing | Stale | ProfileReady LlamaCppParams

text \<open>\<open>hw\<close> is the fingerprint of the hardware, \<open>sig\<close> the identity of a file.\<close>

definition profile_stale :: "TuneRecord \<Rightarrow> string \<Rightarrow> string \<Rightarrow> (string \<Rightarrow> string) \<Rightarrow> bool" where
  "profile_stale rec path hw sig \<longleftrightarrow> is_stale rec hw (sig path)"

definition profile_state ::
  "HiggsError + ModelsStore \<Rightarrow> HiggsError + ScanRow list \<Rightarrow> string \<Rightarrow> (string \<Rightarrow> string) \<Rightarrow> string \<Rightarrow>
   HiggsError + ProfileState" where
  "profile_state store scanned hw sig i =
     (case store of
        Inl e \<Rightarrow> Inl e
      | Inr s \<Rightarrow>
          (case tuning i s of
             None \<Rightarrow> Inr Missing
           | Some rec \<Rightarrow>
               (case scanned of
                  Inl _ \<Rightarrow> Inr (ProfileReady (tr_profile rec))
                | Inr ms \<Rightarrow>
                    (case find (\<lambda>m. sr_id m = i) ms of
                       None \<Rightarrow> Inr (ProfileReady (tr_profile rec))
                     | Some m \<Rightarrow>
                         Inr (if profile_stale rec (sr_path m) hw sig then Stale
                              else ProfileReady (tr_profile rec))))))"

subsection \<open>Resolution\<close>

text \<open>
  The answers, in the order of the looks: the load-time domain of the local worker behind the
  id, the scan for its error text, the resident model, the benchmark flag, the fleet's answer
  (route and domain), the flag again, the switch, the scan, the profile, the outcome of the
  load, and the resident model after it.
\<close>

record GateWorld =
  gw_domain :: "ModelDomain option"
  gw_first_scan :: "HiggsError + ScanRow list"
  gw_local :: "LoadedInfo option"
  gw_benching :: bool
  gw_fleet :: "(bool \<times> ModelDomain option) option"
  gw_benching_later :: bool
  gw_jit :: bool
  gw_scan :: "HiggsError + ScanRow list"
  gw_profile :: "HiggsError + ProfileState"
  gw_load :: "LlamaCppParams \<Rightarrow> HiggsError option"
  gw_after :: "LoadedInfo option"

record GateOutcome =
  go_result :: "HiggsError + LoadedInfo"
  go_phases :: "ModelLoadPhase list"
  go_loaded :: "LlamaCppParams option"

definition refused :: "HiggsError \<Rightarrow> GateOutcome" where
  "refused e = \<lparr>go_result = Inl e, go_phases = [], go_loaded = None\<rparr>"

definition served_by :: "LoadedInfo \<Rightarrow> GateOutcome" where
  "served_by l = \<lparr>go_result = Inr l, go_phases = [], go_loaded = None\<rparr>"

text \<open>A refusal while the guard is armed: the early pill is closed.\<close>

definition gate_refused :: "HiggsError \<Rightarrow> GateOutcome" where
  "gate_refused e = \<lparr>go_result = Inl e, go_phases = [Queued, LoadFailed], go_loaded = None\<rparr>"

definition row_of :: "string \<Rightarrow> ScanRow list \<Rightarrow> ScanRow option" where
  "row_of model ms = find (\<lambda>m. sr_id m = model) ms"

definition jit_gate :: "GateWorld \<Rightarrow> string \<Rightarrow> HiggsError + LlamaCppParams" where
  "jit_gate w model =
     (case gw_scan w of
        Inl e \<Rightarrow> Inl e
      | Inr scanned \<Rightarrow>
          (case row_of model scanned of
             None \<Rightarrow> Inl (ModelNotFound model)
           | Some c \<Rightarrow>
               if sr_domain c \<noteq> Llm
               then Inl (ModelNotChatCapable model (unwrap_or ''unknown'' (sr_arch c)) (sr_domain c))
               else case gw_profile w of
                 Inl e \<Rightarrow> Inl e
               | Inr (ProfileReady p) \<Rightarrow> Inr p
               | Inr Missing \<Rightarrow> Inl (NotPrepared model)
               | Inr Stale \<Rightarrow> Inl (ProfileStale model)))"

definition resolve_loaded :: "GateWorld \<Rightarrow> string \<Rightarrow> GateOutcome" where
  "resolve_loaded w model =
     (case opt_filter (\<lambda>d. d \<noteq> Llm) (gw_domain w) of
        Some d \<Rightarrow>
          (let arch = (case gw_first_scan w of
                         Inl _ \<Rightarrow> None
                       | Inr ms \<Rightarrow> Option.bind (row_of model ms) sr_arch)
           in refused (ModelNotChatCapable model (unwrap_or ''unknown'' arch) d))
      | None \<Rightarrow>
          (case opt_filter (\<lambda>_. \<not> gw_benching w) (gw_local w) of
             Some info \<Rightarrow> served_by info
           | None \<Rightarrow>
               (let candidate = is_some (gw_local w) in
                case gw_fleet w of
                  Some (True, d) \<Rightarrow>
                    (case opt_filter (\<lambda>d. d \<noteq> Llm) d of
                       Some d \<Rightarrow> refused (ModelNotChatCapable model ''remote'' d)
                     | None \<Rightarrow> served_by (remote_placeholder model))
                | _ \<Rightarrow>
                    if candidate \<or> gw_benching_later w then refused (BenchInProgress model)
                    else if \<not> gw_jit w then refused (ModelNotLoaded model)
                    else
                      (case jit_gate w model of
                         Inl e \<Rightarrow> gate_refused e
                       | Inr p \<Rightarrow>
                           \<lparr>go_result =
                              (case gw_load w p of
                                 Some e \<Rightarrow> Inl e
                               | None \<Rightarrow>
                                   (case gw_after w of
                                      None \<Rightarrow> Inl (ModelNotLoaded model)
                                    | Some l \<Rightarrow> Inr l)),
                            go_phases = [Queued], go_loaded = Some p\<rparr>))))"

subsection \<open>The budget\<close>

definition PROMPT_BYTES_PER_TOKEN :: nat where "PROMPT_BYTES_PER_TOKEN = 4"
definition MAX_OUTPUT_TOKENS :: u32 where "MAX_OUTPUT_TOKENS = 32768"

definition part_len :: "json \<Rightarrow> nat option" where
  "part_len p =
     (if get_str ''type'' p \<noteq> Some ''text'' then None
      else Some (length (unwrap_or [] (get_str ''text'' p))))"

definition message_text_len :: "json \<Rightarrow> nat option" where
  "message_text_len m =
     (case json_get ''content'' m of
        None \<Rightarrow> Some 0
      | Some JNull \<Rightarrow> Some 0
      | Some (JStr s) \<Rightarrow> Some (length s)
      | Some (JArr parts) \<Rightarrow>
          (let lens = map part_len parts
           in if None \<in> set lens then None
              else Some (sum_list (map the lens) + (length lens - 1)))
      | Some _ \<Rightarrow> Some 0)"

fun total_len :: "nat option list \<Rightarrow> nat \<Rightarrow> nat" where
  "total_len [] acc = acc"
| "total_len (None # _) acc = 0"
| "total_len (Some n # r) acc = total_len r (acc + n)"

definition estimate_prompt_bytes :: "(string \<Rightarrow> json option) \<Rightarrow> string \<Rightarrow> nat" where
  "estimate_prompt_bytes parse messages_json =
     (case parse messages_json of
        Some (JArr messages) \<Rightarrow> total_len (map message_text_len messages) 0
      | _ \<Rightarrow> 0)"

definition fit_generation_budget :: "nat option \<Rightarrow> CtxLen option \<Rightarrow> nat \<Rightarrow> HiggsError + nat" where
  "fit_generation_budget requested ctx prompt_bytes =
     (let est = prompt_bytes div PROMPT_BYTES_PER_TOKEN; max_out = unat MAX_OUTPUT_TOKENS
      in case ctx of
           Some (Fixed n) \<Rightarrow>
             (let n_ctx = unat n
              in if est \<ge> n_ctx then Inl (ContextOverflow est (unwrap_or 0 requested) n_ctx)
                 else
                   (let available = n_ctx - est; budget = unwrap_or available requested
                    in Inr (max (min (min budget available) max_out) 1)))
         | _ \<Rightarrow> Inr (min (unwrap_or 1024 requested) max_out))"

record PreparedChat =
  pc_resolved_model :: string
  pc_max_gen :: nat

definition prepare_chat ::
  "GateWorld \<Rightarrow> (string \<Rightarrow> json option) \<Rightarrow> string \<Rightarrow> nat option \<Rightarrow> string \<Rightarrow>
   (HiggsError + PreparedChat) \<times> ModelLoadPhase list \<times> LlamaCppParams option" where
  "prepare_chat w parse model requested messages_json =
     (let g = resolve_loaded w model
      in (rbind (go_result g) (\<lambda>info.
            rbind (fit_generation_budget requested (li_ctx_len info) (estimate_prompt_bytes parse messages_json))
              (\<lambda>n. Inr \<lparr>pc_resolved_model = li_id info, pc_max_gen = n\<rparr>)),
          go_phases g, go_loaded g))"

subsection \<open>Properties\<close>

text \<open>A model is loaded on demand only if everything the gate demands holds: no local worker
  serves it as something other than a language model, it is neither resident nor a
  benchmark's candidate, no remote node routes it, demand loading is on, the catalog lists it
  as a language model, and its profile is fresh; what is loaded is that very profile. The
  progress pill the gate opens is closed by the gate exactly when it refuses after opening it,
  and left to the load otherwise.\<close>

theorem jit_loads_only_the_prepared:
  "let out = resolve_loaded w model; r = go_result out; ps = go_phases out
   in (case go_loaded out of
          Some p \<Rightarrow>
            gw_jit w \<and> gw_local w = None \<and> \<not> gw_benching_later w \<and> map_option fst (gw_fleet w) \<noteq> Some True \<and>
            opt_filter (\<lambda>d. d \<noteq> Llm) (gw_domain w) = None \<and>
            (\<exists>rows c. gw_scan w = Inr rows \<and> c \<in> set rows \<and> sr_id c = model \<and> sr_domain c = Llm) \<and>
            gw_profile w = Inr (ProfileReady p) \<and> ps = [Queued]
        | None \<Rightarrow> ps = [] \<or> (ps = [Queued, LoadFailed] \<and> (\<exists>e. r = Inl e)))"
proof (cases "go_loaded (resolve_loaded w model)")
  case None
  then have "go_phases (resolve_loaded w model) = [] \<or>
      (go_phases (resolve_loaded w model) = [Queued, LoadFailed] \<and> (\<exists>e. go_result (resolve_loaded w model) = Inl e))"
    by (auto simp: resolve_loaded_def refused_def served_by_def gate_refused_def Let_def
        split: option.splits sum.splits prod.splits bool.splits if_splits)
  with None show ?thesis by (simp add: Let_def)
next
  case (Some p)
  then have gate: "gw_jit w" "gw_local w = None" "\<not> gw_benching_later w" "map_option fst (gw_fleet w) \<noteq> Some True"
    "opt_filter (\<lambda>d. d \<noteq> Llm) (gw_domain w) = None" "jit_gate w model = Inr p"
    "go_phases (resolve_loaded w model) = [Queued]"
    by (auto simp: resolve_loaded_def refused_def served_by_def gate_refused_def Let_def is_some_def
        opt_filter_def split: option.splits sum.splits prod.splits bool.splits if_splits)
  from gate(6) obtain rows c where "gw_scan w = Inr rows" "row_of model rows = Some c" "sr_domain c = Llm"
    and prof: "gw_profile w = Inr (ProfileReady p)"
    by (auto simp: jit_gate_def split: sum.splits option.splits if_splits ProfileState.splits)
  moreover have "c \<in> set rows \<and> sr_id c = model"
    using \<open>row_of model rows = Some c\<close> by (auto simp: row_of_def find_Some_iff in_set_conv_nth)
  ultimately show ?thesis using Some gate by (auto simp: Let_def)
qed

text \<open>The budget the gate hands on is never above the absolute limit and never above the request
  (but for a request of nothing); with a known window it is at least one token and fits with
  the estimate of the prompt, and a request is refused only when the estimate alone fills the
  window.\<close>

theorem budget_fits_window:
  "case fit_generation_budget requested ctx bytes of
     Inr n \<Rightarrow>
       n \<le> 32768 \<and> (n \<le> unwrap_or n requested \<or> n = 1) \<and>
       (case ctx of Some (Fixed c) \<Rightarrow> 1 \<le> n \<and> bytes div 4 + n \<le> unat c | _ \<Rightarrow> True)
   | Inl e \<Rightarrow> (\<exists>c g. ctx = Some (Fixed c) \<and> unat c \<le> bytes div 4 \<and> e = ContextOverflow (bytes div 4) g (unat c))"
  by (cases requested)
     (auto simp: fit_generation_budget_def Let_def PROMPT_BYTES_PER_TOKEN_def MAX_OUTPUT_TOKENS_def
      max_def min_def split: option.split CtxLen.split)

text \<open>A profile with empty anchors is never stale.\<close>

theorem empty_anchors_are_ready:
  "\<not> profile_stale (rec\<lparr>tr_hw_fingerprint := [], tr_file_sig := []\<rparr>) path hw sig"
  by (simp add: profile_stale_def is_stale_def)

end
