(* ===== verification/Interfaces.thy ===== *)
theory Interfaces
  imports Prelude
begin

text \<open>
  The contracts between components. Each locale states what a client relies on; the client
  lemmas are proved once from the contract, and the component that provides the operations
  discharges it by an interpretation in its own theory.
\<close>

subsection \<open>A stream that merges but does not lose\<close>

text \<open>
  A producer puts items, a consumer takes items; the provider may merge neighbouring items,
  but not their units. A stream may break (its backlog is then gone for good). \<open>live\<close> says
  that the producer's half still exists.
\<close>

datatype 'd stream_op = Put 'd | Take

fun run_ops ::
  "('s \<Rightarrow> 'd \<Rightarrow> 's) \<Rightarrow> ('s \<Rightarrow> 'd option \<times> 's) \<Rightarrow> 's \<Rightarrow> 'd stream_op list \<Rightarrow> 's \<times> 'd list" where
  "run_ops put next_item s [] = (s, [])"
| "run_ops put next_item s (Put d # ops) = run_ops put next_item (put s d) ops"
| "run_ops put next_item s (Take # ops) =
     (case next_item s of
        (None, s') \<Rightarrow> run_ops put next_item s' ops
      | (Some d, s') \<Rightarrow> (case run_ops put next_item s' ops of (t, out) \<Rightarrow> (t, d # out)))"

fun puts :: "'d stream_op list \<Rightarrow> 'd list" where
  "puts [] = []"
| "puts (Put d # ops) = d # puts ops"
| "puts (Take # ops) = puts ops"

locale merging_stream =
  fixes content :: "'s \<Rightarrow> 'u list"
    and broken :: "'s \<Rightarrow> bool"
    and live :: "'s \<Rightarrow> bool"
    and inv :: "'s \<Rightarrow> bool"
    and put :: "'s \<Rightarrow> 'd \<Rightarrow> 's"
    and next_item :: "'s \<Rightarrow> 'd option \<times> 's"
    and units :: "'d \<Rightarrow> 'u list"
  assumes inv_put: "inv s \<Longrightarrow> inv (put s d)"
    and inv_next: "inv s \<Longrightarrow> next_item s = (r, s') \<Longrightarrow> inv s'"
    and put_content: "live s \<Longrightarrow> \<not> broken (put s d) \<Longrightarrow> content (put s d) = content s @ units d"
    and put_live: "live (put s d) \<longleftrightarrow> live s"
    and put_broken: "broken s \<Longrightarrow> broken (put s d)"
    and broken_empty: "inv s \<Longrightarrow> broken s \<Longrightarrow> content s = []"
    and next_Some: "next_item s = (Some d, s') \<Longrightarrow>
      content s = units d @ content s' \<and> live s' = live s \<and> broken s' = broken s"
    and next_None: "next_item s = (None, s') \<Longrightarrow> content s = [] \<and> s' = s"
begin

lemma run_ops_broken: "broken s \<Longrightarrow> run_ops put next_item s ops = (t, out) \<Longrightarrow> broken t"
proof (induction ops arbitrary: s t out)
  case (Cons op ops)
  show ?case
  proof (cases op)
    case (Put d)
    with Cons show ?thesis by (auto intro: put_broken)
  next
    case Take
    obtain r s' where t: "next_item s = (r, s')" by fastforce
    then have "broken s'" using Cons.prems(1) by (cases r) (auto dest: next_Some next_None)
    with Cons t Take show ?thesis by (auto split: option.splits prod.splits)
  qed
qed simp

lemma broken_units:
  "inv s \<Longrightarrow> broken s \<Longrightarrow> run_ops put next_item s ops = (t, out) \<Longrightarrow> concat (map units out) = []"
proof (induction ops arbitrary: s t out)
  case (Cons op ops)
  show ?case
  proof (cases op)
    case (Put d)
    with Cons show ?thesis by (auto intro: inv_put put_broken)
  next
    case Take
    with Cons.prems(3) have run: "run_ops put next_item s (Take # ops) = (t, out)" by simp
    have "content s = []" using Cons.prems by (intro broken_empty)
    obtain r s' where n: "next_item s = (r, s')" by fastforce
    then have "inv s'" "broken s'"
      using Cons.prems by (auto dest: inv_next) (cases r; auto dest: next_Some next_None)
    with Cons.IH [of s'] run n \<open>content s = []\<close> show ?thesis
      by (auto split: option.splits prod.splits dest!: next_Some)
  qed
qed simp

text \<open>
  What was taken is a prefix of what was put: never reordered, altered or invented. And as
  long as the stream did not break, what was taken and what is left are all of it.
\<close>

lemma run_ops_stream:
  "inv s \<Longrightarrow> live s \<Longrightarrow> run_ops put next_item s ops = (t, out) \<Longrightarrow>
     prefix (concat (map units out)) (content s @ concat (map units (puts ops))) \<and>
     (\<not> broken t \<longrightarrow>
        concat (map units out) @ content t = content s @ concat (map units (puts ops)))"
proof (induction ops arbitrary: s t out)
  case (Cons op ops)
  show ?case
  proof (cases op)
    case (Put d)
    with Cons.prems have run: "run_ops put next_item (put s d) ops = (t, out)" by simp
    show ?thesis
    proof (cases "broken (put s d)")
      case True
      with Cons.prems(1) run have "concat (map units out) = []"
        by (blast intro: broken_units inv_put)
      moreover have "broken t" using True run by (rule run_ops_broken)
      ultimately show ?thesis by (simp only: append_Nil Nil_prefix simp_thms)
    next
      case False
      with Cons.prems(2) have "content (put s d) = content s @ units d" by (intro put_content)
      with Put Cons.IH [OF inv_put _ run] Cons.prems show ?thesis by (simp add: put_live)
    qed
  next
    case Take
    obtain r s' where t: "next_item s = (r, s')" by fastforce
    then have inv': "inv s'" using Cons.prems(1) inv_next by blast
    show ?thesis
    proof (cases r)
      case None
      with t have "s' = s" by (auto dest: next_None)
      with None t Cons.prems Take show ?thesis using Cons.IH [of s] by simp
    next
      case (Some d)
      with t have c: "content s = units d @ content s'" "live s' = live s"
        by (auto dest: next_Some)
      from Some t Cons.prems(3) Take obtain out' where
        run: "run_ops put next_item s' ops = (t, out')" "out = d # out'"
        by (auto split: prod.splits)
      then show ?thesis using Cons.IH [OF inv' _ run(1)] Cons.prems c Take by simp
    qed
  qed
qed simp

end

subsection \<open>A table of exclusive slots\<close>

text \<open>
  At most one holder per key: \<open>acquire\<close> refuses a held key and \<open>release\<close> frees it. The
  client runs owners against the table the way the sources' guards do: an owner that got a
  slot keeps it until its guard is dropped, and drops only slots it got.
\<close>

datatype ('o, 'k) slot_event = Claim 'o 'k | Drop 'o 'k

text \<open>Who holds which key, by the guards handed out.\<close>

fun slot_step ::
  "('k \<Rightarrow> 's \<Rightarrow> 's option) \<Rightarrow> ('k \<Rightarrow> 's \<Rightarrow> 's) \<Rightarrow> 's \<times> ('o \<times> 'k) set \<Rightarrow> ('o, 'k) slot_event \<Rightarrow>
   's \<times> ('o \<times> 'k) set" where
  "slot_step acquire release (s, g) (Claim c k) =
     (case acquire k s of None \<Rightarrow> (s, g) | Some s' \<Rightarrow> (s', insert (c, k) g))"
| "slot_step acquire release (s, g) (Drop c k) =
     (if (c, k) \<in> g then (release k s, g - {(c, k)}) else (s, g))"

definition slot_run ::
  "('k \<Rightarrow> 's \<Rightarrow> 's option) \<Rightarrow> ('k \<Rightarrow> 's \<Rightarrow> 's) \<Rightarrow> 's \<Rightarrow> ('o, 'k) slot_event list \<Rightarrow>
   's \<times> ('o \<times> 'k) set" where
  "slot_run acquire release s es = foldl (slot_step acquire release) (s, {}) es"

locale slot_table =
  fixes held :: "'s \<Rightarrow> 'k \<Rightarrow> bool"
    and acquire :: "'k \<Rightarrow> 's \<Rightarrow> 's option"
    and release :: "'k \<Rightarrow> 's \<Rightarrow> 's"
  assumes acquire_held: "held s k \<Longrightarrow> acquire k s = None"
    and acquire_free: "\<not> held s k \<Longrightarrow> acquire k s \<noteq> None"
    and acquire_only: "acquire k s = Some s' \<Longrightarrow> held s' j \<longleftrightarrow> j = k \<or> held s j"
    and release_only: "held (release k s) j \<longleftrightarrow> j \<noteq> k \<and> held s j"
begin

definition consistent :: "'s \<times> ('o \<times> 'k) set \<Rightarrow> bool" where
  "consistent sg \<longleftrightarrow>
     (\<forall>k. held (fst sg) k \<longleftrightarrow> (\<exists>c. (c, k) \<in> snd sg)) \<and>
     (\<forall>c d k. (c, k) \<in> snd sg \<longrightarrow> (d, k) \<in> snd sg \<longrightarrow> c = d)"

lemma consistent_step:
  assumes c: "consistent (s, g)"
  shows "consistent (slot_step acquire release (s, g) e)"
proof (cases e)
  case (Claim o' k)
  show ?thesis
  proof (cases "acquire k s")
    case None
    with Claim c show ?thesis by simp
  next
    case (Some s')
    then have free: "\<not> held s k" using acquire_held by fastforce
    with Some Claim c acquire_only [OF Some] show ?thesis by (auto simp: consistent_def)
  qed
next
  case (Drop o' k)
  with c show ?thesis by (auto simp: consistent_def release_only)
qed

lemma consistent_run:
  assumes "\<And>k. \<not> held s k"
  shows "consistent (slot_run acquire release s es)"
proof (induction es rule: rev_induct)
  case Nil
  with assms show ?case by (simp add: slot_run_def consistent_def)
next
  case (snoc e es)
  then show ?case
    by (cases "slot_run acquire release s es") (simp add: slot_run_def consistent_step)
qed

text \<open>Mutual exclusion, and no slot is held without an owner (none leaks).\<close>

lemma slot_exclusive:
  assumes "\<And>k. \<not> held s k" "slot_run acquire release s es = (t, g)"
  shows "(c, k) \<in> g \<Longrightarrow> (d, k) \<in> g \<Longrightarrow> c = d" "held t k \<longleftrightarrow> (\<exists>c. (c, k) \<in> g)"
  using consistent_run [OF assms(1), of es] assms(2) by (auto simp: consistent_def)

lemma reacquire: "acquire k (release k s) \<noteq> None"
  by (rule acquire_free) (simp add: release_only)

end

end
