(* ===== verification/Delta_Queue.thy ===== *)
theory Delta_Queue
  imports Json Interfaces
begin

text \<open>
  \<open>src/delta_queue.rs\<close> and the chat deltas of \<open>src/worker/engine/mod.rs\<close>: the bounded,
  merging queue between the producer of a chat stream (supervisor demux, hub transport) and
  its one consumer, and the wire form of one delta.

  The queue's two halves share one mutex-protected \<open>State\<close>; every operation of the code
  holds the lock for its whole critical section, so each is one function on the state.
  \<open>recv\<close> is one pass of its loop: it yields an item, ends, or has to wait for the notifier.
  \<open>usize\<close> is 64 bits wide.
\<close>

subsection \<open>Chat deltas and their wire form\<close>

datatype ChatDeltaKind = Content | Reasoning | ToolCall

record ChatDelta =
  kind :: ChatDeltaKind
  delta_text :: string

definition kind_from_wire :: "string option \<Rightarrow> ChatDeltaKind" where
  "kind_from_wire k =
     (if k = Some ''reasoning'' then Reasoning
      else if k = Some ''tool_call'' then ToolCall
      else Content)"

fun encode_chunk_params :: "json \<Rightarrow> ChatDeltaKind \<Rightarrow> string \<Rightarrow> json" where
  "encode_chunk_params request_id Content t =
     JObj [(''request_id'', request_id), (''delta'', JStr t)]"
| "encode_chunk_params request_id Reasoning t =
     JObj [(''request_id'', request_id), (''delta'', JStr t), (''kind'', JStr ''reasoning'')]"
| "encode_chunk_params request_id ToolCall t =
     JObj [(''request_id'', request_id), (''delta'', JStr []), (''kind'', JStr ''tool_call''),
           (''tool'', JStr t)]"

definition decode_chunk_params :: "json \<Rightarrow> ChatDelta option" where
  "decode_chunk_params params =
     (let k = kind_from_wire (get_str ''kind'' params) in
      case (case k of
              ToolCall \<Rightarrow> get_str ''tool'' params
            | _ \<Rightarrow> get_str ''delta'' params) of
        None \<Rightarrow> None
      | Some t \<Rightarrow> Some \<lparr>kind = k, delta_text = t\<rparr>)"

subsection \<open>The queue\<close>

definition CAP_BYTES :: nat where
  "CAP_BYTES = 8 * 1024 * 1024"

record DeltaState =
  entries :: "ChatDelta list"
  buffered_bytes :: nat
  overflowed :: bool
  closed :: bool

definition delta_channel :: DeltaState where
  "delta_channel = \<lparr>entries = [], buffered_bytes = 0, overflowed = False, closed = False\<rparr>"

definition usize_sat_add :: "nat \<Rightarrow> nat \<Rightarrow> nat" where
  "usize_sat_add a b = min (a + b) (2 ^ 64 - 1)"

text \<open>The \<open>match s.entries.back_mut()\<close> of \<open>send\<close>.\<close>

definition push_merging :: "ChatDelta list \<Rightarrow> ChatDelta \<Rightarrow> ChatDelta list" where
  "push_merging es d =
     (if es \<noteq> [] \<and> kind (last es) = kind d \<and> kind d \<noteq> ToolCall
      then butlast es @ [(last es)\<lparr>delta_text := delta_text (last es) @ delta_text d\<rparr>]
      else es @ [d])"

definition send :: "DeltaState \<Rightarrow> ChatDelta \<Rightarrow> DeltaState" where
  "send s d =
     (if closed s \<or> overflowed s then s
      else if usize_sat_add (buffered_bytes s) (length (delta_text d)) > CAP_BYTES
      then s\<lparr>entries := [], overflowed := True\<rparr>
      else s\<lparr>buffered_bytes := buffered_bytes s + length (delta_text d),
             entries := push_merging (entries s) d\<rparr>)"

definition drop_sender :: "DeltaState \<Rightarrow> DeltaState" where
  "drop_sender s = s\<lparr>closed := True\<rparr>"

datatype recv_result = Item ChatDelta | End | Wait

definition recv :: "DeltaState \<Rightarrow> recv_result \<times> DeltaState" where
  "recv s =
     (case entries s of
        d # es \<Rightarrow>
          (Item d, s\<lparr>entries := es, buffered_bytes := buffered_bytes s - length (delta_text d)\<rparr>)
      | [] \<Rightarrow> (if closed s \<or> overflowed s then (End, s) else (Wait, s)))"

definition pop :: "DeltaState \<Rightarrow> ChatDelta option \<times> DeltaState" where
  "pop s =
     (case entries s of
        [] \<Rightarrow> (None, s)
      | d # es \<Rightarrow>
          (Some d, s\<lparr>entries := es, buffered_bytes := buffered_bytes s - length (delta_text d)\<rparr>))"

definition try_recv :: "DeltaState \<Rightarrow> ChatDelta option \<times> DeltaState" where
  "try_recv s = pop s"

definition drop_receiver :: "DeltaState \<Rightarrow> DeltaState" where
  "drop_receiver s = s\<lparr>closed := True, entries := [], buffered_bytes := 0\<rparr>"

lemmas delta_queue_defs [record_defs] =
  send_def drop_sender_def recv_def pop_def try_recv_def drop_receiver_def

subsection \<open>Invariant\<close>

definition text_bytes :: "ChatDelta list \<Rightarrow> nat" where
  "text_bytes es = sum_list (map (length \<circ> delta_text) es)"

text \<open>Two neighbours are never the same text kind: they would have been merged.\<close>

definition unmergeable :: "ChatDelta \<Rightarrow> ChatDelta \<Rightarrow> bool" where
  "unmergeable a b \<longleftrightarrow> kind a \<noteq> kind b \<or> kind b = ToolCall"

definition queue_inv :: "DeltaState \<Rightarrow> bool" where
  "queue_inv s \<longleftrightarrow>
     buffered_bytes s \<le> CAP_BYTES \<and>
     (overflowed s \<longrightarrow> entries s = []) \<and>
     (\<not> overflowed s \<longrightarrow> buffered_bytes s = text_bytes (entries s)) \<and>
     successively unmergeable (entries s)"

lemma text_bytes_simps [simp]:
  "text_bytes [] = 0"
  "text_bytes (d # es) = length (delta_text d) + text_bytes es"
  "text_bytes (es @ es') = text_bytes es + text_bytes es'"
  by (simp_all add: text_bytes_def)

lemma push_merging_cases:
  obtains (merge) es' b where "es = es' @ [b]" "kind b = kind d" "kind d \<noteq> ToolCall"
    "push_merging es d = es' @ [b\<lparr>delta_text := delta_text b @ delta_text d\<rparr>]"
  | (append) "push_merging es d = es @ [d]" "es = [] \<or> unmergeable (last es) d"
proof (cases "es \<noteq> [] \<and> kind (last es) = kind d \<and> kind d \<noteq> ToolCall")
  case True
  then have "es = butlast es @ [last es]" by simp
  with True show thesis
    by (intro merge [of "butlast es" "last es"]) (simp_all add: push_merging_def)
next
  case False
  then have "push_merging es d = es @ [d]" "es = [] \<or> unmergeable (last es) d"
    by (auto simp: push_merging_def unmergeable_def)
  then show thesis by (rule append)
qed

lemma text_bytes_push_merging [simp]:
  "text_bytes (push_merging es d) = text_bytes es + length (delta_text d)"
  by (rule push_merging_cases [of es d]) simp_all

lemma successively_push_merging:
  assumes "successively unmergeable es"
  shows "successively unmergeable (push_merging es d)"
proof (cases rule: push_merging_cases [of es d])
  case (merge es' b)
  with assms show ?thesis
    by (auto simp: successively_append_iff unmergeable_def)
next
  case append
  with assms show ?thesis by (auto simp: successively_append_iff)
qed

lemma fits_cap:
  "\<not> usize_sat_add a b > CAP_BYTES \<longleftrightarrow> a + b \<le> CAP_BYTES"
  by (auto simp: usize_sat_add_def CAP_BYTES_def min_def)

lemma queue_inv_delta_channel [inv_intros]: "queue_inv delta_channel"
  by (simp add: queue_inv_def delta_channel_def)

lemma queue_inv_send [inv_intros]: "queue_inv s \<Longrightarrow> queue_inv (send s d)"
  by (auto simp: queue_inv_def send_def fits_cap successively_push_merging)

lemma queue_inv_drop_sender [inv_intros]: "queue_inv s \<Longrightarrow> queue_inv (drop_sender s)"
  by (simp add: queue_inv_def drop_sender_def)

lemma queue_inv_drop_receiver [inv_intros]: "queue_inv s \<Longrightarrow> queue_inv (drop_receiver s)"
  by (simp add: queue_inv_def drop_receiver_def)

lemma queue_inv_recv [inv_intros]: "queue_inv s \<Longrightarrow> queue_inv (snd (recv s))"
  by (auto simp: queue_inv_def recv_def split: list.split dest: successively_tl)

lemma queue_inv_try_recv [inv_intros]: "queue_inv s \<Longrightarrow> queue_inv (snd (try_recv s))"
  by (auto simp: queue_inv_def try_recv_def pop_def split: list.split
      dest: successively_tl)

subsection \<open>The queue is a lossless stream\<close>

text \<open>
  The content of the queue at the granularity the consumer must not lose: every byte of a
  text delta tagged with its kind, and every tool-call fragment whole.
\<close>

datatype stream_unit = Byte ChatDeltaKind char | Fragment string

definition units :: "ChatDelta \<Rightarrow> stream_unit list" where
  "units d = (if kind d = ToolCall then [Fragment (delta_text d)]
              else map (Byte (kind d)) (delta_text d))"

definition content :: "DeltaState \<Rightarrow> stream_unit list" where
  "content s = concat (map units (entries s))"

lemma units_push_merging:
  "concat (map units (push_merging es d)) = concat (map units es) @ units d"
  by (rule push_merging_cases [of es d]) (auto simp: units_def)

lemma send_content:
  "\<not> closed s \<Longrightarrow> \<not> overflowed (send s d) \<Longrightarrow> content (send s d) = content s @ units d"
  by (auto simp: send_def content_def units_push_merging split: if_splits)

lemma send_flags [simp]:
  "closed (send s d) = closed s"
  "overflowed s \<Longrightarrow> overflowed (send s d)"
  by (simp_all add: send_def)

text \<open>One pass of \<open>recv\<close> and \<open>try_recv\<close> take the same item.\<close>

lemma recv_try_recv:
  "try_recv s = (case recv s of (Item d, s') \<Rightarrow> (Some d, s') | (_, s') \<Rightarrow> (None, s'))"
  by (simp add: recv_def try_recv_def pop_def split: list.split)

lemma try_recv_Some:
  "try_recv s = (Some d, s') \<Longrightarrow>
     content s = units d @ content s' \<and> closed s' = closed s \<and> overflowed s' = overflowed s"
  by (auto simp: try_recv_def pop_def content_def split: list.splits)

lemma try_recv_None: "try_recv s = (None, s') \<longleftrightarrow> entries s = [] \<and> s' = s"
  by (auto simp: try_recv_def pop_def split: list.splits)

interpretation dq: merging_stream content overflowed "\<lambda>s. \<not> closed s" queue_inv send try_recv units
proof unfold_locales
  show "queue_inv (send s d)" if "queue_inv s" for s d
    using that by (rule queue_inv_send)
  show "queue_inv s'" if "queue_inv s" "try_recv s = (r, s')" for s r s'
    using queue_inv_try_recv [OF that(1)] that(2) by simp
  show "content s = []" if "queue_inv s" "overflowed s" for s
    using that by (simp add: queue_inv_def content_def)
  show "content s = [] \<and> s' = s" if "try_recv s = (None, s')" for s s'
    using that by (auto simp: try_recv_None content_def)
qed (auto simp: send_content dest: try_recv_Some)

subsection \<open>Every schedule of operations\<close>

datatype dq_op = OpSend ChatDelta | OpRecv | OpTryRecv | OpDropSender | OpDropReceiver

fun dq_step :: "DeltaState \<Rightarrow> dq_op \<Rightarrow> DeltaState" where
  "dq_step s (OpSend d) = send s d"
| "dq_step s OpRecv = snd (recv s)"
| "dq_step s OpTryRecv = snd (try_recv s)"
| "dq_step s OpDropSender = drop_sender s"
| "dq_step s OpDropReceiver = drop_receiver s"

definition dq_run :: "dq_op list \<Rightarrow> DeltaState" where
  "dq_run ops = foldl dq_step delta_channel ops"

lemma queue_inv_run: "queue_inv (dq_run ops)"
  unfolding dq_run_def
proof (induction ops rule: rev_induct)
  case (snoc op ops)
  then show ?case by (cases op) (simp_all add: inv_intros)
qed (simp add: inv_intros)

text \<open>Whatever the order in which the two halves of a chat-delta queue send, receive and
  are dropped, the undelivered backlog never exceeds the 8 MiB cap, its byte counter is exact
  unless the stream was aborted (then nothing is buffered), and no two neighbouring entries
  are text of one kind, so entries grow with kind alternations and not with tokens.\<close>

theorem delta_queue_bounded:
  "buffered_bytes (dq_run ops) \<le> 8388608 \<and>
   text_bytes (entries (dq_run ops)) \<le> buffered_bytes (dq_run ops) \<and>
   (overflowed (dq_run ops) \<longrightarrow> entries (dq_run ops) = []) \<and>
   (\<not> overflowed (dq_run ops) \<longrightarrow>
      buffered_bytes (dq_run ops) = text_bytes (entries (dq_run ops))) \<and>
   successively unmergeable (entries (dq_run ops))"
  using queue_inv_run [of ops]
  by (cases "overflowed (dq_run ops)") (simp_all add: queue_inv_def CAP_BYTES_def)

theorem delta_queue_bounded_witness:
  "\<not> overflowed (dq_run [OpSend \<lparr>kind = Content, delta_text = ''a''\<rparr>]) \<and>
   buffered_bytes (dq_run [OpSend \<lparr>kind = Content, delta_text = ''a''\<rparr>]) = 1"
  using delta_queue_bounded [of "[OpSend \<lparr>kind = Content, delta_text = ''a''\<rparr>]"]
  by (simp add: dq_run_def send_def delta_channel_def push_merging_def usize_sat_add_def
      CAP_BYTES_def)

text \<open>C9. Between creation and the sender's drop, for any interleaving of sends and receives,
  what the consumer received is a prefix of what was sent (same bytes, same kinds, same order,
  fragments whole), and unless the cap tripped, received and still buffered together are
  exactly what was sent: merging loses nothing.\<close>

theorem delta_queue_lossless:
  "run_ops send try_recv delta_channel ops = (t, out) \<Longrightarrow>
     prefix (concat (map units out)) (concat (map units (puts ops))) \<and>
     (\<not> overflowed t \<longrightarrow>
        concat (map units out) @ content t = concat (map units (puts ops)))"
  using dq.run_ops_stream [of delta_channel ops t out] queue_inv_delta_channel
  by (simp add: delta_channel_def content_def)

theorem delta_queue_lossless_witness:
  "concat (map units (snd (run_ops send try_recv delta_channel
     [Put \<lparr>kind = Content, delta_text = ''a''\<rparr>, Put \<lparr>kind = Content, delta_text = ''b''\<rparr>, Take])))
   = [Byte Content (CHR ''a''), Byte Content (CHR ''b'')]"
  using delta_queue_lossless [of
      "[Put \<lparr>kind = Content, delta_text = ''a''\<rparr>, Put \<lparr>kind = Content, delta_text = ''b''\<rparr>, Take]"
      "fst (run_ops send try_recv delta_channel
        [Put \<lparr>kind = Content, delta_text = ''a''\<rparr>, Put \<lparr>kind = Content, delta_text = ''b''\<rparr>, Take])"
      "snd (run_ops send try_recv delta_channel
        [Put \<lparr>kind = Content, delta_text = ''a''\<rparr>, Put \<lparr>kind = Content, delta_text = ''b''\<rparr>, Take])"]
  by (simp add: send_def try_recv_def pop_def delta_channel_def push_merging_def
      usize_sat_add_def CAP_BYTES_def units_def content_def)

text \<open>The end of the stream is never reported early: a receive reports the end exactly
  when nothing is buffered and the queue is closed or aborted, it waits exactly when nothing
  is buffered and the queue is open, and in both cases it leaves the state alone.\<close>

theorem delta_queue_end_of_stream:
  "(fst (recv s) = End \<longleftrightarrow> entries s = [] \<and> (closed s \<or> overflowed s)) \<and>
   (fst (recv s) = Wait \<longleftrightarrow> entries s = [] \<and> \<not> closed s \<and> \<not> overflowed s) \<and>
   (entries s = [] \<longrightarrow> snd (recv s) = s) \<and>
   (entries s \<noteq> [] \<longrightarrow> fst (recv s) = Item (hd (entries s)) \<and>
      entries (snd (recv s)) = tl (entries s))"
  by (auto simp: recv_def split: list.split)

theorem delta_queue_end_of_stream_witness:
  "fst (recv (drop_sender (send delta_channel \<lparr>kind = Content, delta_text = ''a''\<rparr>)))
     = Item \<lparr>kind = Content, delta_text = ''a''\<rparr>"
  using delta_queue_end_of_stream
    [of "drop_sender (send delta_channel \<lparr>kind = Content, delta_text = ''a''\<rparr>)"]
  by (simp add: send_def delta_channel_def push_merging_def usize_sat_add_def CAP_BYTES_def
      drop_sender_def)

text \<open>Decoding the notification parameters that a worker encodes for a delta gives back
  its kind and text, whatever the request id, and a tool-call fragment leaves \<open>delta\<close> empty
  for a peer that reads only that field.\<close>

theorem chat_delta_roundtrip:
  "decode_chunk_params (encode_chunk_params rid k t) = Some \<lparr>kind = k, delta_text = t\<rparr> \<and>
   json_get ''request_id'' (encode_chunk_params rid k t) = Some rid \<and>
   get_str ''delta'' (encode_chunk_params rid k t) = Some (if k = ToolCall then [] else t)"
  by (cases k) (simp_all add: decode_chunk_params_def kind_from_wire_def)

end
