(* ===== verification/Llama_Engine.thy ===== *)
theory Llama_Engine
  imports Engine_Params Delta_Queue Text Diagnostics
begin

text \<open>
  The llama.cpp engine of a worker, \<open>src/worker/engine/llamacpp/mod.rs\<close>, with the capture of
  the engine's own error lines from \<open>llamacpp/logging.rs\<close> and the types of
  \<open>src/worker/engine/mod.rs\<close>: loading a model (the parameters handed to the binding, the
  failure reason), the fit check, the sampler chain, the decode loop with the incremental
  parser, and the shaping of the final message.

  Everything of the binding \<open>llama-cpp-2\<close> is a field of the record \<open>llama\<close>: its functions
  read or change one native state \<open>'w\<close> (context, sampler, UTF-8 decoder, random source).
  The binding's builder objects are the sequence of the setter calls made on them. A
  generation returns what it gave to the sink together with its outcome.
\<close>

subsection \<open>Types of the engine interface\<close>

record GenParams =
  max_tokens :: nat
  gen_sampling :: LlamaCppSamplingParams
  tools_json :: "string option"
  chat_template_kwargs :: "string option"

datatype EngineDelta = EContent string | EReasoning string | EToolCall string

fun engine_delta_text :: "EngineDelta \<Rightarrow> string" where
  "engine_delta_text (EContent s) = s"
| "engine_delta_text (EReasoning s) = s"
| "engine_delta_text (EToolCall s) = s"

fun engine_delta_kind :: "EngineDelta \<Rightarrow> ChatDeltaKind" where
  "engine_delta_kind (EContent _) = Content"
| "engine_delta_kind (EReasoning _) = Reasoning"
| "engine_delta_kind (EToolCall _) = ToolCall"

record ChatResult =
  res_content :: string
  finish_reason :: string
  res_tool_calls :: "json option"
  prompt_tokens :: u32
  completion_tokens :: u32
  reasoning_content :: "string option"

datatype DeviceKind = Cpu | Gpu | Accel

record GpuDevice =
  dev_name :: string
  dev_description :: string
  dev_kind :: DeviceKind
  vram_total_bytes :: u64
  vram_free_bytes :: u64

subsection \<open>The binding\<close>

datatype ParamOverrideValue = OvBool bool | OvInt int | OvFloat u64 | OvStr string

text \<open>Setters of the model parameters.\<close>

datatype model_call =
    WithNGpuLayers u32
  | WithUseMmap bool
  | WithUseMlock bool
  | WithSplitMode SplitMode
  | WithMainGpu "32 word"
  | WithDevices "u32 list"
  | AddCpuMoeOverride
  | AddCpuBuftOverride string
  | AppendKvOverride string ParamOverrideValue

text \<open>Setters of the context parameters.\<close>

datatype context_call =
    WithNCtx "u32 option"
  | WithNBatch u32
  | WithNThreads "32 word"
  | WithNThreadsBatch "32 word"
  | WithNUbatch u32
  | WithNSeqMax u32
  | WithOffloadKqv bool
  | WithSwaFull bool
  | WithRopeFreqBase f32
  | WithRopeFreqScale f32
  | WithRopeScalingType RopeScalingType
  | WithFlashAttention int
  | WithTypeK KvCacheKind
  | WithTypeV KvCacheKind

datatype LlamaSampler =
    Greedy
  | Penalties "32 word" f32 f32 f32
  | TopK "32 word"
  | Typical f32 nat
  | TopP f32 nat
  | MinP f32 nat
  | TopNSigma f32
  | Xtc f32 f32 nat u32
  | TempExt f32 f32 f32
  | Temp f32
  | Dist u32

record OpenAIChatTemplateParams =
  oai_messages :: string
  oai_tools :: "string option"
  oai_reasoning_format :: "string option"
  oai_kwargs :: "string option"
  oai_parse_tool_calls :: bool

text \<open>One entry of a batch: token, position, whether its logits are kept.\<close>

type_synonym 'k slot = "'k \<times> 32 word \<times> bool"

record ('m, 't, 'p, 'k, 'w) llama =
  load_from_file :: "string \<Rightarrow> model_call list \<Rightarrow> 'w \<Rightarrow> (string + 'm) \<times> string list \<times> 'w"
  devices_ok :: "u32 list \<Rightarrow> string option"
  chat_template :: "'m \<Rightarrow> string + string"
  apply_oaicompat :: "'m \<Rightarrow> string \<Rightarrow> OpenAIChatTemplateParams \<Rightarrow> string + 't"
  template_prompt :: "'t \<Rightarrow> string"
  streaming_state :: "'t \<Rightarrow> string + 'p"
  parser_update :: "'p \<Rightarrow> string \<Rightarrow> bool \<Rightarrow> (string + string list) \<times> 'p"
  parse_response :: "'t \<Rightarrow> string \<Rightarrow> string + string"
  read_json :: "string \<Rightarrow> json option"
  show_json :: "json \<Rightarrow> string"
  parse_f64 :: "string \<Rightarrow> u64 option"
  n_ctx_train :: "'m \<Rightarrow> u32"
  str_to_token :: "'m \<Rightarrow> string \<Rightarrow> string + 'k list"
  new_context :: "'m \<Rightarrow> context_call list \<Rightarrow> 'w \<Rightarrow> string option \<times> 'w"
  batch_add :: "nat \<Rightarrow> 'k slot list \<Rightarrow> 'k slot \<Rightarrow> string option"
  decode_batch :: "'k slot list \<Rightarrow> 'w \<Rightarrow> string option \<times> 'w"
  random_u32 :: "'w \<Rightarrow> u32 \<times> 'w"
  chain_simple :: "LlamaSampler list \<Rightarrow> 'w \<Rightarrow> 'w"
  sample_accept :: "int \<Rightarrow> 'w \<Rightarrow> 'k \<times> 'w"
  is_eog_token :: "'m \<Rightarrow> 'k \<Rightarrow> bool"
  token_to_piece :: "'m \<Rightarrow> 'k \<Rightarrow> 'w \<Rightarrow> (string + string) \<times> 'w"
  flush_decoder :: "'w \<Rightarrow> string \<times> 'w"
  backend_devices :: "'w \<Rightarrow> (string \<times> string \<times> nat \<times> u64 \<times> u64) option list"

definition device_type_to_kind :: "nat \<Rightarrow> DeviceKind" where
  "device_type_to_kind raw = (if raw = 0 then Cpu else if raw = 1 then Gpu else Accel)"

definition read_device :: "string \<times> string \<times> nat \<times> u64 \<times> u64 \<Rightarrow> GpuDevice" where
  "read_device = (\<lambda>(n, d, raw, total_bytes, free_bytes).
     \<lparr>dev_name = n, dev_description = d, dev_kind = device_type_to_kind raw,
      vram_total_bytes = total_bytes, vram_free_bytes = free_bytes\<rparr>)"

definition device_info :: "('m, 't, 'p, 'k, 'w) llama \<Rightarrow> 'w \<Rightarrow> GpuDevice list" where
  "device_info ll w = List.map_filter (map_option read_device) (backend_devices ll w)"

subsection \<open>Loading\<close>

definition MAX_ENGINE_DIAGNOSTICS :: nat where
  "MAX_ENGINE_DIAGNOSTICS = 64"

definition record_engine_diagnostic :: "string \<Rightarrow> string list \<Rightarrow> string list" where
  "record_engine_diagnostic line buf =
     (if length buf < MAX_ENGINE_DIAGNOSTICS then buf @ [line] else buf)"

text \<open>\<open>str::parse::<i64>\<close>: an optional sign, at least one digit, in range.\<close>

definition parse_i64 :: "string \<Rightarrow> int option" where
  "parse_i64 s =
     (let (neg, ds) = (case s of
            [] \<Rightarrow> (False, [])
          | c # r \<Rightarrow> if c = CHR ''-'' then (True, r) else if c = CHR ''+'' then (False, r) else (False, s));
          v = foldl (\<lambda>a c. 10 * a + (int (of_char c) - 48)) 0 ds;
          v = (if neg then - v else v)
      in if ds \<noteq> [] \<and> list_all is_digit ds \<and> - (2 ^ 63) \<le> v \<and> v < 2 ^ 63 then Some v else None)"

definition parse_bool :: "string \<Rightarrow> bool option" where
  "parse_bool s = (if s = ''true'' then Some True else if s = ''false'' then Some False else None)"

definition parse_kv_override_value :: "(string \<Rightarrow> u64 option) \<Rightarrow> string \<Rightarrow> ParamOverrideValue" where
  "parse_kv_override_value pf s =
     (case parse_bool s of
        Some b \<Rightarrow> OvBool b
      | None \<Rightarrow>
          (case parse_i64 s of
             Some i \<Rightarrow> OvInt i
           | None \<Rightarrow>
               (case pf s of
                  Some f \<Rightarrow> OvFloat f
                | None \<Rightarrow> OvStr (take 127 s @ replicate (128 - length (take 127 s)) (CHR 0x00)))))"

text \<open>\<open>CString::new\<close>: refuses an inner NUL.\<close>

definition cstring :: "string \<Rightarrow> string option" where
  "cstring s = (if CHR 0x00 \<in> set s then None else Some s)"

definition kv_call :: "(string \<Rightarrow> u64 option) \<Rightarrow> KvOverride \<Rightarrow> model_call option" where
  "kv_call pf ov =
     (case ov of KvOverride k v \<Rightarrow>
        (case cstring k of
           Some key \<Rightarrow>
             if length key + 1 \<le> 128 then Some (AppendKvOverride key (parse_kv_override_value pf v)) else None
         | None \<Rightarrow> None))"

definition on_some :: "'a option \<Rightarrow> ('a \<Rightarrow> 'b) \<Rightarrow> 'b list" where
  "on_some x f = (case x of None \<Rightarrow> [] | Some a \<Rightarrow> [f a])"

definition base_calls :: "LlamaCppParams \<Rightarrow> model_call list" where
  "base_calls p =
     [WithNGpuLayers (to_n_gpu_layers (gpu_layers p))] @ on_some (use_mmap p) WithUseMmap @
     on_some (use_mlock p) WithUseMlock @ on_some (split_mode p) WithSplitMode @
     on_some (main_gpu p) WithMainGpu"

definition needs_pin :: "LlamaCppParams \<Rightarrow> bool" where
  "needs_pin p \<longleftrightarrow> cpu_moe p = Some True \<or> cpu_buft_overrides p \<noteq> [] \<or> kv_overrides p \<noteq> []"

definition pinned_calls :: "(string \<Rightarrow> u64 option) \<Rightarrow> LlamaCppParams \<Rightarrow> model_call list" where
  "pinned_calls pf p =
     (if cpu_moe p = Some True then [AddCpuMoeOverride] else []) @
     map AddCpuBuftOverride (List.map_filter cstring (cpu_buft_overrides p)) @
     List.map_filter (kv_call pf) (kv_overrides p)"

text \<open>The engine: the resident model and the captured error lines.\<close>

record ('m, 'w) LlamaCppEngine =
  resident_model :: "('m \<times> LlamaCppParams) option"
  diagnostics :: "string list"
  native :: 'w

text \<open>The closure \<open>load_err\<close>: the captured lines are drained into the reason.\<close>

definition load_failure :: "string \<Rightarrow> string \<Rightarrow> ('m, 'w) LlamaCppEngine \<Rightarrow> HiggsError option \<times> ('m, 'w) LlamaCppEngine" where
  "load_failure path e s =
     (Some (EngineLoadFailed path (if diagnostics s = [] then e else join_with ''; '' (diagnostics s))),
      s\<lparr>diagnostics := []\<rparr>)"

definition llama_load ::
  "('m, 't, 'p, 'k, 'w) llama \<Rightarrow> string \<Rightarrow> LlamaCppParams \<Rightarrow> ('m, 'w) LlamaCppEngine \<Rightarrow>
   HiggsError option \<times> ('m, 'w) LlamaCppEngine" where
  "llama_load ll path p s =
     (let s = s\<lparr>resident_model := None, diagnostics := []\<rparr>;
          calls = base_calls p
      in case Option.bind (devices p) (devices_ok ll) of
           Some e \<Rightarrow> load_failure path e s
         | None \<Rightarrow>
             (let calls = calls @ on_some (devices p) WithDevices;
                  calls = (if needs_pin p then calls @ pinned_calls (parse_f64 ll) p else calls)
              in case load_from_file ll path calls (native s) of
                   (r, lines, w) \<Rightarrow>
                     (let s = s\<lparr>diagnostics := fold record_engine_diagnostic lines (diagnostics s), native := w\<rparr>
                      in case r of
                           Inl e \<Rightarrow> load_failure path e s
                         | Inr m \<Rightarrow> (None, s\<lparr>resident_model := Some (m, p)\<rparr>))))"

definition llama_unload :: "('m, 'w) LlamaCppEngine \<Rightarrow> ('m, 'w) LlamaCppEngine" where
  "llama_unload s = s\<lparr>resident_model := None\<rparr>"

definition llama_is_loaded :: "('m, 'w) LlamaCppEngine \<Rightarrow> bool" where
  "llama_is_loaded s \<longleftrightarrow> resident_model s \<noteq> None"


subsection \<open>The window and the budget\<close>

definition gen_fail :: "string \<Rightarrow> string \<Rightarrow> HiggsError" where
  "gen_fail stage reason = GenerationFailed stage reason"

definition effective_n_ctx :: "('m, 't, 'p, 'k, 'w) llama \<Rightarrow> LlamaCppParams \<Rightarrow> 'm \<Rightarrow> u32" where
  "effective_n_ctx ll load m = (case ctx_len load of Fixed n \<Rightarrow> n | Auto \<Rightarrow> n_ctx_train ll m)"

definition fit_check ::
  "('m, 't, 'p, 'k, 'w) llama \<Rightarrow> 'm \<Rightarrow> string \<Rightarrow> LlamaCppParams \<Rightarrow> GenParams \<Rightarrow> HiggsError + 'k list \<times> nat" where
  "fit_check ll m prompt load gen =
     (case str_to_token ll m prompt of
        Inl e \<Rightarrow> Inl (gen_fail ''tokenize prompt'' e)
      | Inr tokens \<Rightarrow>
          (let n_ctx = unat (effective_n_ctx ll load m)
           in if length tokens \<ge> n_ctx then Inl (ContextOverflow (length tokens) (max_tokens gen) n_ctx)
              else Inr (tokens, max (min (max_tokens gen) (n_ctx - length tokens)) 1)))"

subsection \<open>Context and sampler\<close>

definition I32_MAX :: "32 word" where
  "I32_MAX = 2 ^ 31 - 1"

text \<open>\<open>i32::try_from(n).unwrap_or(i32::MAX)\<close> of a \<open>u32\<close>.\<close>

definition i32_of_u32 :: "u32 \<Rightarrow> 32 word" where
  "i32_of_u32 n = (if uint n < 2 ^ 31 then ucast n else I32_MAX)"

definition flash_attn_to_sys :: "FlashAttn \<Rightarrow> int" where
  "flash_attn_to_sys fa = (case fa of FlashAuto \<Rightarrow> - 1 | FlashOff \<Rightarrow> 0 | FlashOn \<Rightarrow> 1)"

definition n_batch_of :: "('m, 't, 'p, 'k, 'w) llama \<Rightarrow> LlamaCppParams \<Rightarrow> 'm \<Rightarrow> u32" where
  "n_batch_of ll lp m = (case n_batch lp of Some n \<Rightarrow> n | None \<Rightarrow> max (effective_n_ctx ll lp m) 1)"

definition context_calls :: "('m, 't, 'p, 'k, 'w) llama \<Rightarrow> LlamaCppParams \<Rightarrow> 'm \<Rightarrow> context_call list" where
  "context_calls ll lp m =
     (let thr = i32_of_u32 (threads lp);
          thr_batch = unwrap_or thr (map_option i32_of_u32 (n_threads_batch lp))
      in [WithNCtx (if to_n_ctx (ctx_len lp) = 0 then None else Some (to_n_ctx (ctx_len lp))),
          WithNBatch (n_batch_of ll lp m), WithNThreads thr, WithNThreadsBatch thr_batch] @
         on_some (n_ubatch lp) WithNUbatch @ on_some (n_seq_max lp) WithNSeqMax @
         on_some (offload_kqv lp) WithOffloadKqv @ on_some (swa_full lp) WithSwaFull @
         on_some (rope_freq_base lp) WithRopeFreqBase @ on_some (rope_freq_scale lp) WithRopeFreqScale @
         on_some (rope_scaling_type lp) WithRopeScalingType @
         on_some (flash_attn lp) (\<lambda>fa. WithFlashAttention (flash_attn_to_sys fa)) @
         on_some (type_k lp) WithTypeK @ on_some (type_v lp) WithTypeV)"

text \<open>The 32-bit patterns of the constants, and \<open>x <= 0.0\<close> on patterns.\<close>

definition f32_0 :: f32 where "f32_0 = 0"
definition f32_0_7 :: f32 where "f32_0_7 = 0x3F333333"
definition f32_1 :: f32 where "f32_1 = 0x3F800000"

definition f32_nonpos :: "f32 \<Rightarrow> bool" where
  "f32_nonpos x \<longleftrightarrow> x = 0 \<or> (bit x 31 \<and> take_bit 31 x \<le> 0x7F800000)"

definition sampler_chain :: "LlamaCppSamplingParams \<Rightarrow> u32 \<Rightarrow> LlamaSampler list" where
  "sampler_chain s seed =
     (let temp = unwrap_or f32_0_7 (temperature s)
      in if f32_nonpos temp then [Greedy]
         else
           (if is_some (penalty_repeat s) \<or> is_some (penalty_freq s) \<or> is_some (penalty_present s)
            then [Penalties (unwrap_or 64 (penalty_last_n s)) (unwrap_or f32_1 (penalty_repeat s))
                    (unwrap_or f32_0 (penalty_freq s)) (unwrap_or f32_0 (penalty_present s))]
            else []) @
           on_some (top_k s) TopK @ on_some (typical_p s) (\<lambda>p. Typical p 1) @
           on_some (top_p s) (\<lambda>p. TopP p 1) @ on_some (min_p s) (\<lambda>p. MinP p 1) @
           on_some (top_n_sigma s) TopNSigma @
           (case (xtc_probability s, xtc_threshold s) of
              (Some pr, Some thr) \<Rightarrow> [Xtc pr thr 1 seed]
            | _ \<Rightarrow> []) @
           (case dynatemp_range s of
              Some r \<Rightarrow> [TempExt temp r (unwrap_or f32_1 (dynatemp_exponent s))]
            | None \<Rightarrow> [Temp temp]) @
           [Dist seed])"

subsection \<open>Streaming\<close>

definition non_empty :: "(string \<Rightarrow> EngineDelta) \<Rightarrow> string option \<Rightarrow> EngineDelta list" where
  "non_empty c s = (case s of Some t \<Rightarrow> if t = [] then [] else [c t] | None \<Rightarrow> [])"

definition tool_fragments :: "(json \<Rightarrow> string) \<Rightarrow> json \<Rightarrow> EngineDelta list" where
  "tool_fragments shw delta =
     (case json_get ''tool_calls'' delta of
        Some (JArr calls) \<Rightarrow> map (\<lambda>frag. EToolCall (shw frag)) calls
      | _ \<Rightarrow> [])"

definition route_one :: "('m, 't, 'p, 'k, 'w) llama \<Rightarrow> string \<Rightarrow> EngineDelta list" where
  "route_one ll text =
     (case read_json ll text of
        None \<Rightarrow> []
      | Some delta \<Rightarrow>
          non_empty EReasoning (get_str ''reasoning_content'' delta) @
          non_empty EContent (get_str ''content'' delta) @
          tool_fragments (show_json ll) delta)"

text \<open>What is fed to the sink, and the parser afterwards unless it failed.\<close>

definition route_parsed_deltas ::
  "('m, 't, 'p, 'k, 'w) llama \<Rightarrow> 'p \<Rightarrow> string \<Rightarrow> bool \<Rightarrow> (EngineDelta list \<times> 'p) option" where
  "route_parsed_deltas ll st text_added is_partial =
     (case parser_update ll st text_added is_partial of
        (Inl e, st) \<Rightarrow> None
      | (Inr deltas, st) \<Rightarrow> Some (concat (map (route_one ll) deltas), st))"

definition emit_piece ::
  "('m, 't, 'p, 'k, 'w) llama \<Rightarrow> 'p option \<Rightarrow> string \<Rightarrow> EngineDelta list \<times> 'p option" where
  "emit_piece ll st piece =
     (case st of
        None \<Rightarrow> ([EContent piece], None)
      | Some p \<Rightarrow>
          (case route_parsed_deltas ll p piece True of
             Some (ds, p) \<Rightarrow> (ds, Some p)
           | None \<Rightarrow> ([EContent piece], None)))"

subsection \<open>The decode loop\<close>

record ('p, 'w) DecodeState =
  stream_state :: "'p option"
  full_text :: string
  n_generated :: nat
  n_cur :: "32 word"
  batch_n_tokens :: int
  emitted :: "EngineDelta list"
  ctx_native :: 'w

definition emit_text :: "('m, 't, 'p, 'k, 'w) llama \<Rightarrow> string \<Rightarrow> ('p, 'w) DecodeState \<Rightarrow> ('p, 'w) DecodeState" where
  "emit_text ll piece s =
     (if piece = [] then s
      else case emit_piece ll (stream_state s) piece of
        (ds, st) \<Rightarrow> s\<lparr>stream_state := st, emitted := emitted s @ ds, full_text := full_text s @ piece\<rparr>)"

text \<open>One round of the loop: it ends with an error or a reason, or goes on. \<open>cap\<close> is the size of
  the batch.\<close>

definition decode_round ::
  "('m, 't, 'p, 'k, 'w) llama \<Rightarrow> 'm \<Rightarrow> nat \<Rightarrow> nat \<Rightarrow> ('p, 'w) DecodeState \<Rightarrow>
   (HiggsError + string) option \<times> ('p, 'w) DecodeState" where
  "decode_round ll m cap limit s =
     (case sample_accept ll (batch_n_tokens s - 1) (ctx_native s) of
        (token, w) \<Rightarrow>
          if is_eog_token ll m token then (Some (Inr ''stop''), s\<lparr>ctx_native := w\<rparr>)
          else case token_to_piece ll m token w of
            (Inl e, w) \<Rightarrow> (Some (Inl (gen_fail ''detokenize'' e)), s\<lparr>ctx_native := w\<rparr>)
          | (Inr piece, w) \<Rightarrow>
              (let s = emit_text ll piece (s\<lparr>ctx_native := w\<rparr>);
                   s = s\<lparr>n_generated := n_generated s + 1\<rparr>
               in if n_generated s \<ge> limit then (Some (Inr ''length''), s)
                  else
                    (let slot = (token, n_cur s, True)
                     in case batch_add ll cap [] slot of
                          Some e \<Rightarrow> (Some (Inl (gen_fail ''batch add'' e)), s)
                        | None \<Rightarrow>
                            (let s = s\<lparr>n_cur := n_cur s + 1\<rparr>
                             in case decode_batch ll [slot] (ctx_native s) of
                                  (Some e, w) \<Rightarrow> (Some (Inl (gen_fail ''loop decode'' e)), s\<lparr>ctx_native := w\<rparr>)
                                | (None, w) \<Rightarrow> (None, s\<lparr>ctx_native := w, batch_n_tokens := 1\<rparr>)))))"

lemma emit_n_generated [simp]: "n_generated (emit_text ll piece s) = n_generated s"
  by (simp add: emit_text_def split: prod.split)

lemma decode_round_progress:
  "decode_round ll m cap limit s = (None, s') \<Longrightarrow>
     n_generated s' = n_generated s + 1 \<and> n_generated s' < limit"
  by (auto simp: decode_round_def Let_def split: prod.splits if_splits sum.splits option.splits)

function decode_loop ::
  "('m, 't, 'p, 'k, 'w) llama \<Rightarrow> 'm \<Rightarrow> nat \<Rightarrow> nat \<Rightarrow> ('p, 'w) DecodeState \<Rightarrow>
   (HiggsError + string) \<times> ('p, 'w) DecodeState" where
  "decode_loop ll m cap limit s =
     (case decode_round ll m cap limit s of
        (Some r, s') \<Rightarrow> (r, s')
      | (None, s') \<Rightarrow> decode_loop ll m cap limit s')"
  by pat_completeness auto
termination
  by (relation "measure (\<lambda>(ll, m, cap, limit, s). limit - n_generated s)")
     (auto dest!: decode_round_progress [OF sym])

declare decode_loop.simps [simp del]

text \<open>The prompt batch: positions count up, logits only for the last token.\<close>

fun fill_batch ::
  "('m, 't, 'p, 'k, 'w) llama \<Rightarrow> nat \<Rightarrow> nat \<Rightarrow> nat \<Rightarrow> 'k list \<Rightarrow> 'k slot list \<Rightarrow> HiggsError + 'k slot list" where
  "fill_batch ll cap last_index i [] b = Inr b"
| "fill_batch ll cap last_index i (t # ts) b =
     (if i \<ge> 2 ^ 31 then Inl (gen_fail ''prompt position'' ''out of range integral type conversion attempted'')
      else
        (let slot = (t, of_nat i, i = last_index)
         in case batch_add ll cap b slot of
              Some e \<Rightarrow> Inl (gen_fail ''batch add'' e)
            | None \<Rightarrow> fill_batch ll cap last_index (i + 1) ts (b @ [slot])))"

definition not_applied :: string where
  "not_applied =
     ''accepted by the API but not yet applied by the llama.cpp engine '' @ [CHR 0xE2, CHR 0x80, CHR 0x94] @
     '' omit it so the response is never silently unconstrained/unbiased '' @
     ''(this sampler lands in a later release)''"

record DecodeOutput =
  out_full :: string
  out_finish_reason :: string
  out_n_generated :: nat

text \<open>After the loop: the UTF-8 decoder and the parser give up what they hold back.\<close>

definition finish_decode ::
  "('m, 't, 'p, 'k, 'w) llama \<Rightarrow> string \<Rightarrow> ('p, 'w) DecodeState \<Rightarrow> DecodeOutput \<times> EngineDelta list \<times> 'w" where
  "finish_decode ll reason s =
     (case flush_decoder ll (ctx_native s) of
        (tail, w) \<Rightarrow>
          (let s = emit_text ll tail s;
               rest = (case stream_state s of
                         None \<Rightarrow> []
                       | Some st \<Rightarrow>
                           (case route_parsed_deltas ll st [] False of Some (ds, _) \<Rightarrow> ds | None \<Rightarrow> []))
           in (\<lparr>out_full = full_text s, out_finish_reason = reason, out_n_generated = n_generated s\<rparr>,
               emitted s @ rest, w)))"

definition run_decode ::
  "('m, 't, 'p, 'k, 'w) llama \<Rightarrow> 'm \<Rightarrow> LlamaCppParams \<Rightarrow> 'k list \<Rightarrow> GenParams \<Rightarrow> 'p option \<Rightarrow> 'w \<Rightarrow>
   (HiggsError + DecodeOutput) \<times> EngineDelta list \<times> 'w" where
  "run_decode ll m lp tokens gen st w =
     (case new_context ll m (context_calls ll lp m) w of
        (Some e, w) \<Rightarrow> (Inl (gen_fail ''create context'' e), [], w)
      | (None, w) \<Rightarrow>
          (case fill_batch ll (max (length tokens) 1) (length tokens - 1) 0 tokens [] of
             Inl e \<Rightarrow> (Inl e, [], w)
           | Inr batch \<Rightarrow>
               (case decode_batch ll batch w of
                  (Some e, w) \<Rightarrow> (Inl (gen_fail ''prompt decode'' e), [], w)
                | (None, w) \<Rightarrow>
                    (case unsupported_sampler (gen_sampling gen) of
                       Some param \<Rightarrow> (Inl (InvalidSamplingParam param not_applied), [], w)
                     | None \<Rightarrow>
                         (case (case opt_or (sample_seed (gen_sampling gen)) (load_seed lp) of
                                  Some sd \<Rightarrow> (sd, w)
                                | None \<Rightarrow> random_u32 ll w) of
                            (seed, w) \<Rightarrow>
                              (case decode_loop ll m (max (length tokens) 1) (max_tokens gen)
                                      \<lparr>stream_state = st, full_text = [], n_generated = 0,
                                       n_cur = of_nat (length batch), batch_n_tokens = int (length batch),
                                       emitted = [],
                                       ctx_native = chain_simple ll (sampler_chain (gen_sampling gen) seed) w\<rparr> of
                                 (Inl e, s) \<Rightarrow> (Inl e, emitted s, ctx_native s)
                               | (Inr reason, s) \<Rightarrow>
                                   (case finish_decode ll reason s of
                                      (out, ds, w) \<Rightarrow> (Inr out, ds, w))))))))"

subsection \<open>The final message\<close>

record ParsedOutput =
  out_content :: string
  out_tool_calls :: "json option"
  out_reasoning :: "string option"

definition raw_output :: "string \<Rightarrow> ParsedOutput" where
  "raw_output full = \<lparr>out_content = full, out_tool_calls = None, out_reasoning = None\<rparr>"

definition parse_output :: "('m, 't, 'p, 'k, 'w) llama \<Rightarrow> 't \<Rightarrow> string \<Rightarrow> ParsedOutput" where
  "parse_output ll t full =
     (case parse_response ll t full of
        Inl e \<Rightarrow> raw_output full
      | Inr text \<Rightarrow>
          (case read_json ll text of
             None \<Rightarrow> raw_output full
           | Some parsed \<Rightarrow>
               (let calls = opt_filter (\<lambda>v. \<not> is_null v) (json_get ''tool_calls'' parsed)
                in \<lparr>out_content =
                      unwrap_or (if is_some calls then [] else full) (get_str ''content'' parsed),
                    out_tool_calls = calls,
                    out_reasoning =
                      opt_filter (\<lambda>s. s \<noteq> []) (map_option trim (get_str ''reasoning_content'' parsed))\<rparr>)))"

definition template_params :: "string \<Rightarrow> GenParams \<Rightarrow> OpenAIChatTemplateParams" where
  "template_params messages gen =
     \<lparr>oai_messages = messages, oai_tools = tools_json gen, oai_reasoning_format = Some ''auto'',
      oai_kwargs = chat_template_kwargs gen, oai_parse_tool_calls = is_some (tools_json gen)\<rparr>"

definition load_template :: "('m, 't, 'p, 'k, 'w) llama \<Rightarrow> 'm \<Rightarrow> string" where
  "load_template ll m = (case chat_template ll m of Inr t \<Rightarrow> t | Inl e \<Rightarrow> ''chatml'')"

definition llama_chat ::
  "('m, 't, 'p, 'k, 'w) llama \<Rightarrow> string \<Rightarrow> GenParams \<Rightarrow> ('m, 'w) LlamaCppEngine \<Rightarrow>
   (HiggsError + ChatResult) \<times> EngineDelta list \<times> ('m, 'w) LlamaCppEngine" where
  "llama_chat ll messages gen s =
     (case resident_model s of
        None \<Rightarrow> (Inl (ModelNotLoaded ''unloaded''), [], s)
      | Some (m, lp) \<Rightarrow>
          (case apply_oaicompat ll m (load_template ll m) (template_params messages gen) of
             Inl e \<Rightarrow> (Inl (TemplateRenderFailed e), [], s)
           | Inr t \<Rightarrow>
               (case fit_check ll m (template_prompt ll t) lp gen of
                  Inl e \<Rightarrow> (Inl e, [], s)
                | Inr (tokens, fitted) \<Rightarrow>
                    if max_tokens gen = 0
                    then (Inr \<lparr>res_content = [], finish_reason = ''length'', res_tool_calls = None,
                               prompt_tokens = of_nat (length tokens), completion_tokens = 0,
                               reasoning_content = None\<rparr>, [], s)
                    else
                      (case run_decode ll m lp tokens (gen\<lparr>max_tokens := fitted\<rparr>)
                              (case streaming_state ll t of Inr p \<Rightarrow> Some p | Inl e \<Rightarrow> None) (native s) of
                         (Inl e, ds, w) \<Rightarrow> (Inl e, ds, s\<lparr>native := w\<rparr>)
                       | (Inr out, ds, w) \<Rightarrow>
                           (let parsed = parse_output ll t (out_full out)
                            in (Inr \<lparr>res_content = out_content parsed, finish_reason = out_finish_reason out,
                                     res_tool_calls = out_tool_calls parsed,
                                     prompt_tokens = of_nat (length tokens),
                                     completion_tokens = of_nat (out_n_generated out),
                                     reasoning_content = out_reasoning parsed\<rparr>, ds, s\<lparr>native := w\<rparr>))))))"

end
