(* ===== verification/Reply_Demux.thy ===== *)
theory Reply_Demux
  imports Delta_Queue "HOL-Library.AList"
begin

text \<open>
  \<open>ReplyDemux\<close> of \<open>src/actor.rs\<close>: the correlation map every RPC client keeps, from request
  ids to the oneshot channel of the waiting caller, and from chat request ids to the delta
  queue of the stream.

  Callers hold the receiving ends of these channels, so the channels live in a store:
  \<open>oneshots\<close> and \<open>queues\<close> are lists indexed by the address handed out at registration, and
  the two maps hold addresses. Dropping a sender (removal, replacement, clearing) is then an
  update of the store that the receiver observes. The maps are association lists with
  distinct keys, because the code also walks over them.
\<close>

subsection \<open>Frames and oneshot channels\<close>

record RpcError =
  err_code :: int
  err_message :: string
  err_data :: "json option"

record RpcResponse =
  resp_jsonrpc :: string
  resp_id :: u64
  resp_result :: "json option"
  resp_error :: "RpcError option"

datatype oneshot = Pending | Sent RpcResponse | Cancelled

record Demux =
  pending :: "(u64 \<times> nat) list"
  oneshots :: "oneshot list"
  chat_sinks :: "(u64 \<times> nat) list"
  queues :: "DeltaState list"

definition demux_new :: Demux where
  "demux_new = \<lparr>pending = [], oneshots = [], chat_sinks = [], queues = []\<rparr>"

text \<open>Dropping an unused oneshot sender cancels its receiver.\<close>

definition drop_oneshot :: "nat \<Rightarrow> oneshot list \<Rightarrow> oneshot list" where
  "drop_oneshot a os = (if a < length os \<and> os ! a = Pending then os[a := Cancelled] else os)"

definition drop_queue_sender :: "nat \<Rightarrow> DeltaState list \<Rightarrow> DeltaState list" where
  "drop_queue_sender a qs = (if a < length qs then qs[a := drop_sender (qs ! a)] else qs)"

subsection \<open>Operations\<close>

definition register_pending :: "u64 \<Rightarrow> Demux \<Rightarrow> nat \<times> Demux" where
  "register_pending i d =
     (let a = length (oneshots d);
          os = (case map_of (pending d) i of
                  None \<Rightarrow> oneshots d
                | Some b \<Rightarrow> drop_oneshot b (oneshots d))
      in (a, d\<lparr>pending := AList.update i a (pending d), oneshots := os @ [Pending]\<rparr>))"

definition remove_pending :: "u64 \<Rightarrow> Demux \<Rightarrow> Demux" where
  "remove_pending i d =
     (case map_of (pending d) i of
        None \<Rightarrow> d
      | Some a \<Rightarrow> d\<lparr>pending := AList.delete i (pending d),
                    oneshots := drop_oneshot a (oneshots d)\<rparr>)"

definition correlate :: "RpcResponse \<Rightarrow> Demux \<Rightarrow> Demux" where
  "correlate r d =
     (case map_of (pending d) (resp_id r) of
        None \<Rightarrow> d
      | Some a \<Rightarrow> d\<lparr>pending := AList.delete (resp_id r) (pending d),
                    oneshots := (oneshots d)[a := Sent r]\<rparr>)"

definition fail_all_pending :: "Demux \<Rightarrow> Demux" where
  "fail_all_pending d =
     d\<lparr>pending := [], oneshots := fold drop_oneshot (map snd (pending d)) (oneshots d)\<rparr>"

definition register_sink :: "u64 \<Rightarrow> Demux \<Rightarrow> nat \<times> Demux" where
  "register_sink i d =
     (let a = length (queues d);
          qs = (case map_of (chat_sinks d) i of
                  None \<Rightarrow> queues d
                | Some b \<Rightarrow> drop_queue_sender b (queues d))
      in (a, d\<lparr>chat_sinks := AList.update i a (chat_sinks d), queues := qs @ [delta_channel]\<rparr>))"

definition remove_sink :: "u64 \<Rightarrow> Demux \<Rightarrow> Demux" where
  "remove_sink i d =
     (case map_of (chat_sinks d) i of
        None \<Rightarrow> d
      | Some a \<Rightarrow> d\<lparr>chat_sinks := AList.delete i (chat_sinks d),
                    queues := drop_queue_sender a (queues d)\<rparr>)"

definition route_chunk :: "u64 \<Rightarrow> ChatDelta \<Rightarrow> Demux \<Rightarrow> Demux" where
  "route_chunk i c d =
     (case map_of (chat_sinks d) i of
        None \<Rightarrow> d
      | Some a \<Rightarrow> d\<lparr>queues := (queues d)[a := send (queues d ! a) c]\<rparr>)"

definition clear_sinks :: "Demux \<Rightarrow> Demux" where
  "clear_sinks d =
     d\<lparr>chat_sinks := [], queues := fold drop_queue_sender (map snd (chat_sinks d)) (queues d)\<rparr>"

lemmas demux_defs [record_defs] =
  register_pending_def remove_pending_def correlate_def fail_all_pending_def
  register_sink_def remove_sink_def route_chunk_def clear_sinks_def

subsection \<open>Invariant\<close>

text \<open>
  A table of addresses into a store: keys are distinct, different keys have different
  addresses, and every address is in range and holds a cell that satisfies \<open>P\<close>.
\<close>

definition table_inv :: "('k \<times> nat) list \<Rightarrow> 'c list \<Rightarrow> ('c \<Rightarrow> bool) \<Rightarrow> bool" where
  "table_inv m st P \<longleftrightarrow>
     distinct (map fst m) \<and>
     (\<forall>i j a. map_of m i = Some a \<longrightarrow> map_of m j = Some a \<longrightarrow> i = j) \<and>
     (\<forall>i a. map_of m i = Some a \<longrightarrow> a < length st \<and> P (st ! a))"

text \<open>A registered request is still unanswered, and a live sink's queue is open.\<close>

definition demux_inv :: "Demux \<Rightarrow> bool" where
  "demux_inv d \<longleftrightarrow>
     table_inv (pending d) (oneshots d) (\<lambda>c. c = Pending) \<and>
     table_inv (chat_sinks d) (queues d) (\<lambda>q. \<not> closed q)"

text \<open>No caller waits for nothing: a oneshot that is still pending belongs to a registered
  request.\<close>

definition no_stranded :: "Demux \<Rightarrow> bool" where
  "no_stranded d \<longleftrightarrow>
     (\<forall>a < length (oneshots d). oneshots d ! a = Pending \<longrightarrow>
        (\<exists>i. map_of (pending d) i = Some a))"

lemma length_drop_oneshot [simp]: "length (drop_oneshot a os) = length os"
  by (simp add: drop_oneshot_def)

lemma nth_drop_oneshot:
  "drop_oneshot a os ! b =
     (if a = b \<and> b < length os \<and> os ! b = Pending then Cancelled else os ! b)"
  by (cases "a = b") (auto simp: drop_oneshot_def)

lemma length_fold_drop_oneshot [simp]: "length (fold drop_oneshot xs os) = length os"
  by (induction xs arbitrary: os) simp_all

lemma nth_fold_drop_oneshot:
  "b < length os \<Longrightarrow>
     fold drop_oneshot xs os ! b =
       (if b \<in> set xs \<and> os ! b = Pending then Cancelled else os ! b)"
  by (induction xs arbitrary: os) (auto simp: nth_drop_oneshot)

lemma length_drop_queue_sender [simp]: "length (drop_queue_sender a qs) = length qs"
  by (simp add: drop_queue_sender_def)

lemma nth_drop_queue_sender:
  "drop_queue_sender a qs ! b = (if a = b \<and> b < length qs then drop_sender (qs ! b) else qs ! b)"
  by (cases "a = b") (auto simp: drop_queue_sender_def)

lemma length_fold_drop_queue_sender [simp]: "length (fold drop_queue_sender xs qs) = length qs"
  by (induction xs arbitrary: qs) simp_all

lemma drop_sender_idem [simp]: "drop_sender (drop_sender q) = drop_sender q"
  by (simp add: drop_sender_def)

lemma nth_fold_drop_queue_sender:
  "b < length qs \<Longrightarrow>
     fold drop_queue_sender xs qs ! b = (if b \<in> set xs then drop_sender (qs ! b) else qs ! b)"
  by (induction xs arbitrary: qs) (auto simp: nth_drop_queue_sender)

lemma snd_set_iff_map_of:
  "distinct (map fst xs) \<Longrightarrow> a \<in> snd ` set xs \<longleftrightarrow> (\<exists>i. map_of xs i = Some a)"
  by (force simp: image_iff)

lemma table_inv_Nil [simp]: "table_inv [] st P"
  by (simp add: table_inv_def)

lemma table_invI:
  "distinct (map fst m) \<Longrightarrow>
   (\<And>i j a. map_of m i = Some a \<Longrightarrow> map_of m j = Some a \<Longrightarrow> i = j) \<Longrightarrow>
   (\<And>i a. map_of m i = Some a \<Longrightarrow> a < length st) \<Longrightarrow>
   (\<And>i a. map_of m i = Some a \<Longrightarrow> P (st ! a)) \<Longrightarrow> table_inv m st P"
  by (simp add: table_inv_def)

lemma table_invD:
  assumes "table_inv m st P"
  shows "distinct (map fst m)"
    and "map_of m i = Some a \<Longrightarrow> map_of m j = Some a \<Longrightarrow> i = j"
    and "map_of m i = Some a \<Longrightarrow> a < length st"
    and "map_of m i = Some a \<Longrightarrow> P (st ! a)"
  using assms unfolding table_inv_def by blast+

lemma table_inv_other:
  "table_inv m st P \<Longrightarrow> map_of m k = Some b \<Longrightarrow> i \<noteq> k \<Longrightarrow> map_of m i = Some a \<Longrightarrow> b \<noteq> a"
  by (auto dest: table_invD(2))

text \<open>Registering a key: the replaced cell may change, no other may.\<close>

lemma table_inv_register:
  assumes t: "table_inv m st P" and len: "length st' = length st" and c: "P c"
    and same: "\<And>i a. i \<noteq> k \<Longrightarrow> map_of m i = Some a \<Longrightarrow> st' ! a = st ! a"
  shows "table_inv (AList.update k (length st) m) (st' @ [c]) P"
proof (rule table_invI)
  show "distinct (map fst (AList.update k (length st) m))"
    using table_invD(1) [OF t] by (rule distinct_update)
  fix i a
  assume "map_of (AList.update k (length st) m) i = Some a"
  then have i: "i = k \<and> a = length st \<or> i \<noteq> k \<and> map_of m i = Some a"
    by (auto simp: update_conv' split: if_splits)
  then show "a < length (st' @ [c])" "P ((st' @ [c]) ! a)"
    using table_invD(3,4) [OF t] same len c by (fastforce simp: nth_append)+
  fix j
  assume "map_of (AList.update k (length st) m) j = Some a"
  then have "j = k \<and> a = length st \<or> j \<noteq> k \<and> map_of m j = Some a"
    by (auto simp: update_conv' split: if_splits)
  with i show "i = j" using table_invD(2,3) [OF t] by blast
qed

lemma table_inv_delete:
  assumes t: "table_inv m st P" and len: "length st' = length st"
    and same: "\<And>i a. i \<noteq> k \<Longrightarrow> map_of m i = Some a \<Longrightarrow> st' ! a = st ! a"
  shows "table_inv (AList.delete k m) st' P"
proof (rule table_invI)
  show "distinct (map fst (AList.delete k m))"
    using table_invD(1) [OF t] by (rule distinct_delete)
qed (use t same len in \<open>auto simp: delete_conv' dest: table_invD split: if_splits\<close>)

lemma table_inv_cell:
  assumes t: "table_inv m st P" and f: "\<And>c. P c \<Longrightarrow> P (f c)"
  shows "table_inv m (st[a := f (st ! a)]) P"
proof (rule table_invI)
  fix i b
  assume "map_of m i = Some b"
  with t have "b < length st" "P (st ! b)" by (blast dest: table_invD)+
  with f show "b < length (st[a := f (st ! a)])" "P (st[a := f (st ! a)] ! b)"
    by (cases "a = b"; simp)+
qed (use t in \<open>auto dest: table_invD\<close>)

lemma demux_inv_new [inv_intros]: "demux_inv demux_new"
  by (simp add: demux_inv_def demux_new_def)

lemma demux_inv_register_pending [inv_intros]:
  assumes "demux_inv d"
  shows "demux_inv (snd (register_pending i d))"
proof -
  let ?os = "case map_of (pending d) i of None \<Rightarrow> oneshots d | Some b \<Rightarrow> drop_oneshot b (oneshots d)"
  have t: "table_inv (pending d) (oneshots d) (\<lambda>c. c = Pending)"
    using assms by (simp add: demux_inv_def)
  have "table_inv (AList.update i (length (oneshots d)) (pending d)) (?os @ [Pending])
          (\<lambda>c. c = Pending)"
    by (rule table_inv_register [OF t])
      (auto split: option.splits simp: nth_drop_oneshot table_inv_other [OF t])
  with assms show ?thesis by (simp add: demux_inv_def register_pending_def Let_def)
qed

lemma demux_inv_remove_pending [inv_intros]:
  assumes "demux_inv d"
  shows "demux_inv (remove_pending i d)"
proof (cases "map_of (pending d) i")
  case (Some b)
  have t: "table_inv (pending d) (oneshots d) (\<lambda>c. c = Pending)"
    using assms by (simp add: demux_inv_def)
  have "table_inv (AList.delete i (pending d)) (drop_oneshot b (oneshots d)) (\<lambda>c. c = Pending)"
    by (rule table_inv_delete [OF t])
      (auto simp: nth_drop_oneshot table_inv_other [OF t Some])
  with assms Some show ?thesis by (simp add: demux_inv_def remove_pending_def)
qed (use assms in \<open>simp add: remove_pending_def\<close>)

lemma demux_inv_correlate [inv_intros]:
  assumes "demux_inv d"
  shows "demux_inv (correlate r d)"
proof (cases "map_of (pending d) (resp_id r)")
  case (Some b)
  have t: "table_inv (pending d) (oneshots d) (\<lambda>c. c = Pending)"
    using assms by (simp add: demux_inv_def)
  have "table_inv (AList.delete (resp_id r) (pending d)) ((oneshots d)[b := Sent r])
          (\<lambda>c. c = Pending)"
    by (rule table_inv_delete [OF t]) (auto dest: table_inv_other [OF t Some])
  with assms Some show ?thesis by (simp add: demux_inv_def correlate_def)
qed (use assms in \<open>simp add: correlate_def\<close>)

lemma demux_inv_fail_all_pending [inv_intros]: "demux_inv d \<Longrightarrow> demux_inv (fail_all_pending d)"
  by (simp add: demux_inv_def fail_all_pending_def)

lemma demux_inv_register_sink [inv_intros]:
  assumes "demux_inv d"
  shows "demux_inv (snd (register_sink i d))"
proof -
  let ?qs = "case map_of (chat_sinks d) i of None \<Rightarrow> queues d | Some b \<Rightarrow> drop_queue_sender b (queues d)"
  have t: "table_inv (chat_sinks d) (queues d) (\<lambda>q. \<not> closed q)"
    using assms by (simp add: demux_inv_def)
  have "table_inv (AList.update i (length (queues d)) (chat_sinks d)) (?qs @ [delta_channel])
          (\<lambda>q. \<not> closed q)"
    by (rule table_inv_register [OF t])
      (auto split: option.splits simp: nth_drop_queue_sender delta_channel_def
        table_inv_other [OF t])
  with assms show ?thesis by (simp add: demux_inv_def register_sink_def Let_def)
qed

lemma demux_inv_remove_sink [inv_intros]:
  assumes "demux_inv d"
  shows "demux_inv (remove_sink i d)"
proof (cases "map_of (chat_sinks d) i")
  case (Some b)
  have t: "table_inv (chat_sinks d) (queues d) (\<lambda>q. \<not> closed q)"
    using assms by (simp add: demux_inv_def)
  have "table_inv (AList.delete i (chat_sinks d)) (drop_queue_sender b (queues d))
          (\<lambda>q. \<not> closed q)"
    by (rule table_inv_delete [OF t])
      (auto simp: nth_drop_queue_sender table_inv_other [OF t Some])
  with assms Some show ?thesis by (simp add: demux_inv_def remove_sink_def)
qed (use assms in \<open>simp add: remove_sink_def\<close>)

lemma demux_inv_route_chunk [inv_intros]: "demux_inv d \<Longrightarrow> demux_inv (route_chunk i c d)"
  by (auto simp: demux_inv_def route_chunk_def intro!: table_inv_cell split: option.splits)

lemma demux_inv_clear_sinks [inv_intros]: "demux_inv d \<Longrightarrow> demux_inv (clear_sinks d)"
  by (simp add: demux_inv_def clear_sinks_def)

subsection \<open>No stranded callers\<close>

lemma no_stranded_new: "no_stranded demux_new"
  by (simp add: no_stranded_def demux_new_def)

lemma no_strandedI:
  "(\<And>a. a < length (oneshots d) \<Longrightarrow> oneshots d ! a = Pending \<Longrightarrow>
      \<exists>i. map_of (pending d) i = Some a) \<Longrightarrow> no_stranded d"
  by (simp add: no_stranded_def)

lemma no_stranded_register_pending:
  assumes "no_stranded d"
  shows "no_stranded (snd (register_pending i d))"
proof (rule no_strandedI)
  fix a
  let ?d = "snd (register_pending i d)"
  assume a: "a < length (oneshots ?d)" "oneshots ?d ! a = Pending"
  show "\<exists>j. map_of (pending ?d) j = Some a"
  proof (cases "a = length (oneshots d)")
    case True
    then have "map_of (pending ?d) i = Some a"
      by (simp add: register_pending_def Let_def update_conv')
    then show ?thesis ..
  next
    case False
    with a have "a < length (oneshots d)" "oneshots d ! a = Pending" "map_of (pending d) i \<noteq> Some a"
      by (auto simp: register_pending_def Let_def nth_append nth_drop_oneshot
          split: option.splits if_splits)
    with assms obtain j where "map_of (pending d) j = Some a" "j \<noteq> i"
      by (auto simp: no_stranded_def)
    then show ?thesis
      by (intro exI [of _ j]) (simp add: register_pending_def Let_def update_conv')
  qed
qed

text \<open>Deregistering a key settles its channel, so no other caller is affected.\<close>

lemma no_stranded_settle:
  assumes "no_stranded d" "map_of (pending d) i = Some b"
    and "\<And>a. a < length os \<Longrightarrow> os ! a = Pending \<Longrightarrow> a \<noteq> b \<and> a < length (oneshots d) \<and> oneshots d ! a = Pending"
  shows "no_stranded (d\<lparr>pending := AList.delete i (pending d), oneshots := os\<rparr>)"
proof (rule no_strandedI)
  fix a
  assume "a < length (oneshots (d\<lparr>pending := AList.delete i (pending d), oneshots := os\<rparr>))"
    "oneshots (d\<lparr>pending := AList.delete i (pending d), oneshots := os\<rparr>) ! a = Pending"
  with assms(3) have a: "a \<noteq> b" "a < length (oneshots d)" "oneshots d ! a = Pending" by auto
  with assms(1) obtain j where "map_of (pending d) j = Some a" by (auto simp: no_stranded_def)
  moreover from this a assms(2) have "j \<noteq> i" by auto
  ultimately show
    "\<exists>i'. map_of (pending (d\<lparr>pending := AList.delete i (pending d), oneshots := os\<rparr>)) i' = Some a"
    by (intro exI [of _ j]) (simp add: delete_conv')
qed

lemma no_stranded_remove_pending: "no_stranded d \<Longrightarrow> no_stranded (remove_pending i d)"
  by (auto simp: remove_pending_def nth_drop_oneshot split: option.split if_splits
      intro!: no_stranded_settle)

lemma no_stranded_correlate: "no_stranded d \<Longrightarrow> no_stranded (correlate r d)"
  by (auto simp: correlate_def nth_list_update_if split: option.split if_splits
      intro!: no_stranded_settle)

lemma no_stranded_fail_all_pending:
  assumes "demux_inv d" "no_stranded d"
  shows "no_stranded (fail_all_pending d)" "Pending \<notin> set (oneshots (fail_all_pending d))"
proof -
  have dist: "distinct (map fst (pending d))"
    using assms(1) by (simp add: demux_inv_def table_inv_def)
  have none: "oneshots (fail_all_pending d) ! a \<noteq> Pending"
    if "a < length (oneshots (fail_all_pending d))" for a
  proof -
    from that have a: "a < length (oneshots d)" by (simp add: fail_all_pending_def)
    show ?thesis
    proof (cases "oneshots d ! a = Pending")
      case True
      with a assms(2) have "a \<in> set (map snd (pending d))"
        by (simp add: no_stranded_def snd_set_iff_map_of [OF dist])
      with True a show ?thesis by (simp add: fail_all_pending_def nth_fold_drop_oneshot)
    next
      case False
      with a show ?thesis by (simp add: fail_all_pending_def nth_fold_drop_oneshot)
    qed
  qed
  then show "Pending \<notin> set (oneshots (fail_all_pending d))"
    by (metis in_set_conv_nth)
  from none show "no_stranded (fail_all_pending d)" by (simp add: no_stranded_def)
qed

lemma no_stranded_sinks [simp]:
  "no_stranded (snd (register_sink i d)) = no_stranded d"
  "no_stranded (remove_sink i d) = no_stranded d"
  "no_stranded (route_chunk i c d) = no_stranded d"
  "no_stranded (clear_sinks d) = no_stranded d"
  by (simp_all add: no_stranded_def register_sink_def remove_sink_def route_chunk_def
      clear_sinks_def Let_def split: option.split)

text \<open>A response reaches exactly the caller that registered its id: that caller's channel
  gets the response, no other channel changes, a second response with the same id is dropped,
  and a response nobody registered leaves the demux as it is.\<close>

theorem correlate_exactly_once:
  assumes "demux_inv d"
  shows "correlate r (correlate r d) = correlate r d \<and>
    (map_of (pending d) (resp_id r) = None \<longrightarrow> correlate r d = d) \<and>
    (\<forall>i a. map_of (pending d) i = Some a \<longrightarrow>
       oneshots (correlate r d) ! a = (if i = resp_id r then Sent r else Pending) \<and>
       map_of (pending (correlate r d)) i = (if i = resp_id r then None else Some a))"
proof -
  have t: "table_inv (pending d) (oneshots d) (\<lambda>c. c = Pending)"
    using assms by (simp add: demux_inv_def)
  show ?thesis
  proof (cases "map_of (pending d) (resp_id r)")
    case None
    then show ?thesis using table_invD(4) [OF t] by (auto simp: correlate_def)
  next
    case (Some b)
    then have "correlate r (correlate r d) = correlate r d"
      by (simp add: correlate_def delete_conv')
    moreover have "oneshots (correlate r d) ! a = (if i = resp_id r then Sent r else Pending)"
      "map_of (pending (correlate r d)) i = (if i = resp_id r then None else Some a)"
      if "map_of (pending d) i = Some a" for i a
      using Some that table_invD(2-4) [OF t]
      by (auto simp: correlate_def delete_conv' nth_list_update_if)
    ultimately show ?thesis using Some by simp
  qed
qed

definition demo_response :: "u64 \<Rightarrow> RpcResponse" where
  "demo_response i =
     \<lparr>resp_jsonrpc = ''2.0'', resp_id = i, resp_result = Some JNull, resp_error = None\<rparr>"

theorem correlate_exactly_once_witness:
  "oneshots (correlate (demo_response 7)
     (snd (register_pending 8 (snd (register_pending 7 demux_new))))) ! 0
     = Sent (demo_response 7)"
  using correlate_exactly_once [of "snd (register_pending 8 (snd (register_pending 7 demux_new)))"
      "demo_response 7"]
  by (simp add: inv_intros)
    (simp add: register_pending_def correlate_def demux_new_def demo_response_def)

end
