(* ===== verification/Rpc.thy ===== *)
theory Rpc
  imports Json Diagnostics Reply_Demux
begin

text \<open>
  \<open>src/rpc.rs\<close>: newline-delimited JSON-RPC frames. The bounded line reader
  (\<open>read_bounded_frame\<close>) over a reader that delivers bytes in arbitrary chunks, the frame
  types with their derived (de)serialisation on \<open>json\<close> values, \<open>decode\<close>, \<open>encode\<close> and
  \<open>method_not_found\<close>.

  The JSON text parser and printer belong to \<open>serde_json\<close> and are arguments
  (\<open>parse\<close>, \<open>print\<close>), as is the display text of an error. A struct deserialises from an
  object by its fields (unknown ones ignored, \<open>default\<close> ones optional, a null \<open>Option\<close> is
  \<open>None\<close>) and, like every derived struct, from an array in field order.
\<close>

subsection \<open>Reading one line\<close>

text \<open>What \<open>fill_buf\<close> can yield: bytes (none at all means end of file) or an error.\<close>

datatype chunk = Chunk string | ChunkErr io_error

definition LF :: char where "LF = CHR 0x0A"
definition CR :: char where "CR = CHR 0x0D"

fun position :: "char \<Rightarrow> string \<Rightarrow> nat option" where
  "position c [] = None"
| "position c (b # bs) = (if b = c then Some 0 else map_option Suc (position c bs))"

definition byte_in :: "nat \<Rightarrow> nat \<Rightarrow> char \<Rightarrow> bool" where
  "byte_in lo hi c \<longleftrightarrow> lo \<le> of_char c \<and> of_char c \<le> hi"

text \<open>\<open>String::from_utf8\<close>: the well-formed byte sequences of the Unicode standard.\<close>

fun utf8_valid :: "string \<Rightarrow> bool" where
  "utf8_valid [] = True"
| "utf8_valid (a # s) =
     (if byte_in 0 0x7F a then utf8_valid s
      else case s of
        [] \<Rightarrow> False
      | b # s \<Rightarrow>
          if byte_in 0xC2 0xDF a then byte_in 0x80 0xBF b \<and> utf8_valid s
          else case s of
            [] \<Rightarrow> False
          | c # s \<Rightarrow>
              if byte_in 0xE0 0xEF a then
                (if a = char_of (0xE0::nat) then byte_in 0xA0 0xBF b
                 else if a = char_of (0xED::nat) then byte_in 0x80 0x9F b
                 else byte_in 0x80 0xBF b)
                \<and> byte_in 0x80 0xBF c \<and> utf8_valid s
              else case s of
                [] \<Rightarrow> False
              | d # s \<Rightarrow>
                  byte_in 0xF0 0xF4 a \<and>
                  (if a = char_of (0xF0::nat) then byte_in 0x90 0xBF b
                   else if a = char_of (0xF4::nat) then byte_in 0x80 0x8F b
                   else byte_in 0x80 0xBF b)
                  \<and> byte_in 0x80 0xBF c \<and> byte_in 0x80 0xBF d \<and> utf8_valid s)"

definition oversize :: io_error where
  "oversize = IoError InvalidData None"

definition strip_cr :: "string \<Rightarrow> string" where
  "strip_cr buf = (if buf \<noteq> [] \<and> last buf = CR then butlast buf else buf)"

definition finish_line :: "bool \<Rightarrow> string \<Rightarrow> io_error + string option" where
  "finish_line terminated buf =
     (let line = (if terminated then strip_cr buf else buf) in
      if utf8_valid line then Inr (Some line) else Inl (IoError InvalidData None))"

definition at_eof :: "string \<Rightarrow> io_error + string option" where
  "at_eof buf = (if buf = [] then Inr None else finish_line False buf)"

text \<open>The reader after \<open>consume(n)\<close>: a chunk that is used up is gone.\<close>

definition consume :: "nat \<Rightarrow> string \<Rightarrow> chunk list \<Rightarrow> chunk list" where
  "consume n c r = (if length c \<le> n then r else Chunk (drop n c) # r)"

fun read_bounded :: "nat \<Rightarrow> string \<Rightarrow> chunk list \<Rightarrow> (io_error + string option) \<times> chunk list" where
  "read_bounded max_bytes buf [] = (at_eof buf, [])"
| "read_bounded max_bytes buf (ChunkErr e # r) = (Inl e, r)"
| "read_bounded max_bytes buf (Chunk c # r) =
     (if c = [] then (at_eof buf, r)
      else case position LF c of
        Some pos \<Rightarrow>
          if length buf + pos > max_bytes then (Inl oversize, Chunk c # r)
          else (finish_line True (buf @ take pos c), consume (pos + 1) c r)
      | None \<Rightarrow>
          if length buf + length c > max_bytes then (Inl oversize, Chunk c # r)
          else read_bounded max_bytes (buf @ c) r)"

definition read_bounded_frame :: "nat \<Rightarrow> chunk list \<Rightarrow> (io_error + string option) \<times> chunk list" where
  "read_bounded_frame max_bytes r = read_bounded max_bytes [] r"

text \<open>The reference: one look at the whole input, no chunks, no buffer.\<close>

definition line_spec :: "nat \<Rightarrow> string \<Rightarrow> io_error + string option" where
  "line_spec max_bytes bs =
     (case position LF bs of
        Some pos \<Rightarrow>
          if pos > max_bytes then Inl oversize else finish_line True (take pos bs)
      | None \<Rightarrow> if length bs > max_bytes then Inl oversize else at_eof bs)"

fun chunk_bytes :: "chunk \<Rightarrow> string" where
  "chunk_bytes (Chunk c) = c"
| "chunk_bytes (ChunkErr e) = []"

definition stream_bytes :: "chunk list \<Rightarrow> string" where
  "stream_bytes r = concat (map chunk_bytes r)"

text \<open>A reader without failures; a live reader never yields an empty chunk.\<close>

definition healthy :: "chunk list \<Rightarrow> bool" where
  "healthy r \<longleftrightarrow> (\<forall>c \<in> set r. \<exists>bs. c = Chunk bs \<and> bs \<noteq> [])"

lemma position_append:
  "position c (xs @ ys) =
     (case position c xs of
        Some p \<Rightarrow> Some p
      | None \<Rightarrow> (case position c ys of None \<Rightarrow> None | Some q \<Rightarrow> Some (length xs + q)))"
proof (induction xs)
  case Nil
  then show ?case by (simp split: option.split)
next
  case (Cons x xs)
  then show ?case by (cases "position c xs"; cases "position c ys") auto
qed

lemma position_bound: "position c xs = Some p \<Longrightarrow> p < length xs"
  by (induction xs arbitrary: p) (auto split: if_splits)

lemma position_nth: "position c xs = Some p \<Longrightarrow> xs ! p = c"
  by (induction xs arbitrary: p) (auto split: if_splits)

lemma position_None: "position c xs = None \<longleftrightarrow> c \<notin> set xs"
  by (induction xs) auto

lemma position_unique: "c \<notin> set xs \<Longrightarrow> position c (xs @ c # ys) = Some (length xs)"
  by (induction xs) auto

lemma stream_bytes_simps [simp]:
  "stream_bytes [] = []"
  "stream_bytes (c # r) = chunk_bytes c @ stream_bytes r"
  by (simp_all add: stream_bytes_def)

lemma healthy_simps [simp]:
  "healthy []"
  "healthy (Chunk c # r) \<longleftrightarrow> c \<noteq> [] \<and> healthy r"
  "\<not> healthy (ChunkErr e # r)"
  by (auto simp: healthy_def)

lemma read_bounded_spec:
  "healthy r \<Longrightarrow> LF \<notin> set buf \<Longrightarrow> length buf \<le> max_bytes \<Longrightarrow>
     fst (read_bounded max_bytes buf r) = line_spec max_bytes (buf @ stream_bytes r)"
proof (induction max_bytes buf r rule: read_bounded.induct)
  case (1 max_bytes buf)
  then show ?case by (simp add: line_spec_def position_None [THEN iffD2])
next
  case (3 max_bytes buf c r)
  have no: "position LF buf = None" using 3 by (simp add: position_None)
  show ?case
  proof (cases "position LF c")
    case (Some pos)
    with no 3(2) position_bound [OF Some] show ?thesis
      by (simp add: line_spec_def position_append)
  next
    case None
    show ?thesis
    proof (cases "length buf + length c > max_bytes")
      case True
      with None no 3(2) show ?thesis
        by (auto simp: line_spec_def position_append split: option.split)
    next
      case False
      have "LF \<notin> set (buf @ c)" using None 3(3) by (simp add: position_None)
      with None False 3(1,2) show ?thesis by simp
    qed
  qed
qed simp

text \<open>What a successful read of a terminated line leaves in the reader.\<close>

lemma read_bounded_rest:
  "healthy r \<Longrightarrow> LF \<notin> set buf \<Longrightarrow> position LF (stream_bytes r) = Some p \<Longrightarrow>
     length buf + p \<le> max_bytes \<Longrightarrow>
     stream_bytes (snd (read_bounded max_bytes buf r)) = drop (Suc p) (stream_bytes r) \<and>
     healthy (snd (read_bounded max_bytes buf r))"
proof (induction max_bytes buf r arbitrary: p rule: read_bounded.induct)
  case (3 max_bytes buf c r)
  show ?case
  proof (cases "position LF c")
    case (Some pos)
    with 3(4) have "pos = p" by (simp add: position_append)
    with Some 3 position_bound [OF Some] show ?thesis by (auto simp: consume_def)
  next
    case None
    with 3(4) obtain q where q: "position LF (stream_bytes r) = Some q" "p = length c + q"
      by (auto simp: position_append split: option.splits)
    have "LF \<notin> set (buf @ c)" using 3(3) None by (simp add: position_None)
    moreover have "length (buf @ c) + q \<le> max_bytes" using 3(5) q by simp
    moreover have "\<not> length buf + length c > max_bytes" using 3(5) q by simp
    ultimately show ?thesis using 3(1) [of q] 3(2) None q by simp
  qed
qed auto

subsection \<open>Frames\<close>

record RpcRequest =
  req_jsonrpc :: string
  req_id :: u64
  req_method :: string
  req_params :: json

record RpcNotification =
  notif_jsonrpc :: string
  notif_method :: string
  notif_params :: json

datatype RpcFrame =
    Request RpcRequest
  | Response RpcResponse
  | Notification RpcNotification

subsubsection \<open>Serialisation\<close>

definition opt_field :: "string \<Rightarrow> json option \<Rightarrow> (string \<times> json) list" where
  "opt_field k v = (case v of None \<Rightarrow> [] | Some j \<Rightarrow> [(k, j)])"

definition json_of_u64 :: "u64 \<Rightarrow> json" where
  "json_of_u64 n = JInt (uint n)"

definition error_to_json :: "RpcError \<Rightarrow> json" where
  "error_to_json e =
     JObj ([(''code'', JInt (err_code e)), (''message'', JStr (err_message e))]
           @ opt_field ''data'' (err_data e))"

definition frame_to_json :: "RpcFrame \<Rightarrow> json" where
  "frame_to_json f =
     (case f of
        Request r \<Rightarrow>
          JObj ([(''jsonrpc'', JStr (req_jsonrpc r)), (''id'', json_of_u64 (req_id r)),
                 (''method'', JStr (req_method r))]
                @ (if is_null (req_params r) then [] else [(''params'', req_params r)]))
      | Response r \<Rightarrow>
          JObj ([(''jsonrpc'', JStr (resp_jsonrpc r)), (''id'', json_of_u64 (resp_id r))]
                @ opt_field ''result'' (resp_result r)
                @ opt_field ''error'' (map_option error_to_json (resp_error r)))
      | Notification n \<Rightarrow>
          JObj ([(''jsonrpc'', JStr (notif_jsonrpc n)), (''method'', JStr (notif_method n))]
                @ (if is_null (notif_params n) then [] else [(''params'', notif_params n)])))"

definition encode :: "(json \<Rightarrow> string) \<Rightarrow> RpcFrame \<Rightarrow> string" where
  "encode print frame = print (frame_to_json frame)"

subsubsection \<open>Deserialisation\<close>

text \<open>An \<open>Option\<close> field: absent and null are \<open>None\<close>.\<close>

definition opt_value :: "json option \<Rightarrow> json option" where
  "opt_value v = opt_filter (\<lambda>j. \<not> is_null j) v"

definition as_i64 :: "json \<Rightarrow> int option" where
  "as_i64 v = (case v of JInt n \<Rightarrow> if - (2 ^ 63) \<le> n \<and> n < 2 ^ 63 then Some n else None | _ \<Rightarrow> None)"

definition error_from :: "json option \<Rightarrow> json option \<Rightarrow> json option \<Rightarrow> RpcError option" where
  "error_from c m d =
     (case (Option.bind c as_i64, Option.bind m as_str) of
        (Some code, Some msg) \<Rightarrow>
          Some \<lparr>err_code = code, err_message = msg, err_data = opt_value d\<rparr>
      | _ \<Rightarrow> None)"

fun error_from_json :: "json \<Rightarrow> RpcError option" where
  "error_from_json (JObj m) = error_from (map_of m ''code'') (map_of m ''message'') (map_of m ''data'')"
| "error_from_json (JArr [c, m]) = error_from (Some c) (Some m) None"
| "error_from_json (JArr [c, m, d]) = error_from (Some c) (Some m) (Some d)"
| "error_from_json _ = None"

definition default_null :: "json option \<Rightarrow> json" where
  "default_null v = unwrap_or JNull v"

definition request_from_json :: "json \<Rightarrow> RpcRequest option" where
  "request_from_json v =
     (case (get_str ''jsonrpc'' v, get_u64 ''id'' v, get_str ''method'' v) of
        (Some j, Some i, Some m) \<Rightarrow>
          Some \<lparr>req_jsonrpc = j, req_id = word_of_int i, req_method = m,
                req_params = default_null (json_get ''params'' v)\<rparr>
      | _ \<Rightarrow> None)"

definition response_from_json :: "json \<Rightarrow> RpcResponse option" where
  "response_from_json v =
     (case (get_str ''jsonrpc'' v, get_u64 ''id'' v) of
        (Some j, Some i) \<Rightarrow>
          (case opt_value (json_get ''error'' v) of
             None \<Rightarrow>
               Some \<lparr>resp_jsonrpc = j, resp_id = word_of_int i,
                     resp_result = opt_value (json_get ''result'' v), resp_error = None\<rparr>
           | Some e \<Rightarrow>
               (case error_from_json e of
                  None \<Rightarrow> None
                | Some err \<Rightarrow>
                    Some \<lparr>resp_jsonrpc = j, resp_id = word_of_int i,
                          resp_result = opt_value (json_get ''result'' v), resp_error = Some err\<rparr>))
      | _ \<Rightarrow> None)"

definition notification_from_json :: "json \<Rightarrow> RpcNotification option" where
  "notification_from_json v =
     (case (get_str ''jsonrpc'' v, get_str ''method'' v) of
        (Some j, Some m) \<Rightarrow>
          Some \<lparr>notif_jsonrpc = j, notif_method = m,
                notif_params = default_null (json_get ''params'' v)\<rparr>
      | _ \<Rightarrow> None)"

text \<open>\<open>why\<close> is the text of the deserialiser's error for a value.\<close>

definition or_decode_error :: "(json \<Rightarrow> string) \<Rightarrow> json \<Rightarrow> 'a option \<Rightarrow> ('a \<Rightarrow> RpcFrame) \<Rightarrow> HiggsError + RpcFrame" where
  "or_decode_error why v r f =
     (case r of None \<Rightarrow> Inl (RpcDecode (why v)) | Some x \<Rightarrow> Inr (f x))"

definition decode_value :: "(json \<Rightarrow> string) \<Rightarrow> json \<Rightarrow> HiggsError + RpcFrame" where
  "decode_value why v =
     (case (json_get ''id'' v, json_get ''method'' v) of
        (Some _, Some _) \<Rightarrow> or_decode_error why v (request_from_json v) Request
      | (Some _, None) \<Rightarrow> or_decode_error why v (response_from_json v) Response
      | (None, Some _) \<Rightarrow> or_decode_error why v (notification_from_json v) Notification
      | (None, None) \<Rightarrow> Inl (RpcDecode ''neither id nor method present''))"

text \<open>An unexpected \<open>jsonrpc\<close> version is only logged, so it leaves no trace here.\<close>

definition decode :: "(string \<Rightarrow> string + json) \<Rightarrow> (json \<Rightarrow> string) \<Rightarrow> string \<Rightarrow> HiggsError + RpcFrame" where
  "decode parse why line =
     (case parse line of
        Inl e \<Rightarrow> Inl (RpcDecode (''not json: '' @ e))
      | Inr v \<Rightarrow> decode_value why v)"

definition method_not_found :: "(HiggsError \<Rightarrow> string) \<Rightarrow> string \<Rightarrow> string \<Rightarrow> RpcError" where
  "method_not_found display endpoint method =
     (let e = RpcMethodNotFound endpoint method in
      \<lparr>err_code = -32601, err_message = display e,
       err_data = Some (JObj [(''code'', JStr (error_code e))])\<rparr>)"

subsection \<open>Round trip\<close>

text \<open>
  What survives the wire: an \<open>Option\<close> that holds a null comes back as \<open>None\<close>; everything
  else is kept.
\<close>

definition wire_error :: "RpcError \<Rightarrow> RpcError" where
  "wire_error e = e\<lparr>err_data := opt_value (err_data e)\<rparr>"

fun wire_frame :: "RpcFrame \<Rightarrow> RpcFrame" where
  "wire_frame (Response r) =
     Response (r\<lparr>resp_result := opt_value (resp_result r),
                 resp_error := map_option wire_error (resp_error r)\<rparr>)"
| "wire_frame f = f"

definition codes_in_range :: "RpcFrame \<Rightarrow> bool" where
  "codes_in_range f =
     (case f of
        Response r \<Rightarrow> (case resp_error r of None \<Rightarrow> True
                        | Some e \<Rightarrow> as_i64 (JInt (err_code e)) = Some (err_code e))
      | _ \<Rightarrow> True)"

lemma is_null_iff: "is_null j \<longleftrightarrow> j = JNull"
  by (cases j) simp_all

lemma opt_value_simps [simp]:
  "opt_value None = None"
  "opt_value (Some JNull) = None"
  "opt_value (Some (JObj m)) = Some (JObj m)"
  by (simp_all add: opt_value_def)

lemma as_u64_uint [simp]: "as_u64 (JInt (uint (n::u64))) = Some (uint n)"
proof -
  have "uint n < 2 ^ 64" using uint_bounded [of n] by simp
  then show ?thesis by (simp add: u64_max_def)
qed

lemma uint_le_u64_max [simp]: "uint (n::u64) \<le> u64_max"
  using as_u64_uint [of n] by (simp split: if_splits del: as_u64_uint)

lemma map_of_opt_field [simp]:
  "map_of (opt_field k v @ m) k' = (if k = k' \<and> v \<noteq> None then v else map_of m k')"
  "map_of (opt_field k v) k' = (if k = k' then v else None)"
  by (auto simp: opt_field_def split: option.split)

lemma not_null_error_to_json [simp]: "\<not> is_null (error_to_json e)"
  by (simp add: error_to_json_def)

lemma error_from_to_json:
  "as_i64 (JInt (err_code e)) = Some (err_code e) \<Longrightarrow>
     error_from_json (error_to_json e) = Some (wire_error e)"
  by (simp add: error_to_json_def error_from_def wire_error_def)

lemma decode_frame_to_json:
  "codes_in_range f \<Longrightarrow> decode_value why (frame_to_json f) = Inr (wire_frame f)"
proof (cases f)
  case (Request r)
  then show ?thesis
    by (auto simp: decode_value_def frame_to_json_def request_from_json_def or_decode_error_def
        json_of_u64_def default_null_def is_null_iff)
next
  case (Response r)
  assume "codes_in_range f"
  with Response show ?thesis
    by (cases "resp_error r"; cases "resp_result r")
      (simp_all add: decode_value_def frame_to_json_def response_from_json_def
        or_decode_error_def json_of_u64_def codes_in_range_def error_from_to_json map_add_def
        error_to_json_def [symmetric] opt_value_def [of "Some (error_to_json _)"])
next
  case (Notification n)
  then show ?thesis
    by (auto simp: decode_value_def frame_to_json_def notification_from_json_def
        or_decode_error_def default_null_def is_null_iff)
qed

text \<open>C39. Reading one line does not depend on how the transport cuts the bytes: the chunked
  reader returns what a look at the whole input returns (the line up to its newline without a
  carriage return, the unterminated rest, end of input, or a refusal of a line over the limit
  or of invalid UTF-8), and after a terminated line within the limit exactly the bytes behind
  the newline are left for the next read.\<close>

theorem read_bounded_frame_refines_line_spec:
  assumes "healthy r"
  shows "fst (read_bounded_frame max_bytes r) = line_spec max_bytes (stream_bytes r) \<and>
    (\<forall>p. position LF (stream_bytes r) = Some p \<longrightarrow> p \<le> max_bytes \<longrightarrow>
       stream_bytes (snd (read_bounded_frame max_bytes r)) = drop (Suc p) (stream_bytes r) \<and>
       healthy (snd (read_bounded_frame max_bytes r)))"
  using read_bounded_spec [of r "[]" max_bytes] read_bounded_rest [of r "[]" _ max_bytes] assms
  by (auto simp: read_bounded_frame_def)

theorem read_bounded_frame_refines_line_spec_witness:
  "fst (read_bounded_frame 4 [Chunk ''ab'', Chunk (''c'' @ [CR, LF] @ ''d'')]) = Inr (Some ''abc'')"
  using read_bounded_frame_refines_line_spec
      [of "[Chunk ''ab'', Chunk (''c'' @ [CR, LF] @ ''d'')]" 4]
  by (simp add: line_spec_def LF_def CR_def finish_line_def strip_cr_def byte_in_def
      take_bit_eq_mod)

text \<open>The memory a read needs is bounded: at every point of the loop the buffered bytes
  are at most the limit, so a line that is not terminated within the limit is refused however
  the bytes arrive, and a line that is accepted is no longer than the limit.\<close>

theorem read_bounded_frame_limit:
  assumes "healthy r"
  shows "(\<forall>l. fst (read_bounded_frame max_bytes r) = Inr (Some l) \<longrightarrow> length l \<le> max_bytes) \<and>
    (LF \<notin> set (take (Suc max_bytes) (stream_bytes r)) \<longrightarrow> max_bytes < length (stream_bytes r) \<longrightarrow>
       fst (read_bounded_frame max_bytes r) = Inl oversize)"
proof -
  have eq: "fst (read_bounded_frame max_bytes r) = line_spec max_bytes (stream_bytes r)"
    using read_bounded_spec [of r "[]" max_bytes] assms by (simp add: read_bounded_frame_def)
  have "line_spec max_bytes bs = Inl oversize"
    if no: "LF \<notin> set (take (Suc max_bytes) bs)" and long: "max_bytes < length bs" for bs
  proof (cases "position LF bs")
    case (Some p)
    have "p < length bs" "bs ! p = LF" using position_bound [OF Some] position_nth [OF Some] by auto
    then have "max_bytes < p"
      using no by (metis in_set_conv_nth length_take min_less_iff_conj not_less nth_take le_imp_less_Suc)
    with Some show ?thesis by (simp add: line_spec_def)
  qed (use long in \<open>simp add: line_spec_def\<close>)
  moreover have "length l \<le> max_bytes" if "line_spec max_bytes bs = Inr (Some l)" for bs l
    using that
    by (auto simp: line_spec_def at_eof_def finish_line_def strip_cr_def Let_def
        split: option.splits if_splits)
  ultimately show ?thesis by (simp add: eq)
qed

theorem read_bounded_frame_limit_witness:
  "fst (read_bounded_frame 2 [Chunk ''ab'', Chunk ''c'']) = Inl oversize"
  using read_bounded_frame_limit [of "[Chunk ''ab'', Chunk ''c'']" 2]
  by (simp add: LF_def)

text \<open>C40. Decoding an encoded frame gives the frame back: requests and notifications as they
  are, responses up to a null result, null error data or absent fields, which the wire does
  not tell apart. This needs only that the JSON library parses what it printed.\<close>

theorem decode_encode:
  assumes "parse (print (frame_to_json f)) = Inr (frame_to_json f)" "codes_in_range f"
  shows "decode parse why (encode print f) = Inr (wire_frame f)"
  using assms by (simp add: decode_def encode_def decode_frame_to_json)

definition demo_parse :: "string \<Rightarrow> string + json" where
  "demo_parse s = (if s = ''n'' then Inr (JObj [(''jsonrpc'', JStr ''2.0''), (''method'', JStr ''m'')])
                   else Inl ''bad'')"

definition demo_frame :: RpcFrame where
  "demo_frame = Notification \<lparr>notif_jsonrpc = ''2.0'', notif_method = ''m'', notif_params = JNull\<rparr>"

theorem decode_encode_witness:
  "decode demo_parse (\<lambda>v. []) (encode (\<lambda>v. ''n'') demo_frame) = Inr demo_frame"
  using decode_encode [of demo_parse "\<lambda>v. ''n''" demo_frame "\<lambda>v. []"]
  by (simp add: demo_parse_def demo_frame_def frame_to_json_def codes_in_range_def)

end
