(* ===== verification/Supervisor.thy ===== *)
theory Supervisor
  imports Rpc
begin

text \<open>
  \<open>src/supervisor.rs\<close>: the supervisor of one worker process, as a step machine.

  The record \<open>Inner\<close> is the shared \<open>Inner\<close> of the code, field by field; \<open>Sup\<close> adds what
  lives in tasks: the callers of \<open>send_request\<close> (control, chat and replay RPCs), the reader
  tasks, the \<open>stop\<close> call, the replays, and the operating system's side (which children were
  spawned, reaped, or lost by dropping their handle). A child process is the number of its
  spawn. Every await point and every separate lock or atomic access that can race is a step of
  its own; \<open>sup_step\<close> runs one step, and a schedule is a list of labels.

  The environment is in the labels: what the factory returns, which line the worker sends,
  end of file, the end of a sleep or time-out. \<open>do_spawn\<close> runs in one step and never during
  a \<open>stop\<close>, which the code demands of its callers.
\<close>

subsection \<open>State\<close>

definition M_CHAT :: string where "M_CHAT = ''higgs/chat''"
definition M_LOAD :: string where "M_LOAD = ''higgs/load''"
definition N_CHAT_CHUNK :: string where "N_CHAT_CHUNK = ''higgs/chat/chunk''"

text \<open>Milliseconds.\<close>

definition CHAT_RPC_TIMEOUT :: nat where "CHAT_RPC_TIMEOUT = 600000"

text \<open>\<open>write_tx\<close> and \<open>proc\<close> name the child behind the channel or handle; \<open>proc_locked\<close>
  is the asynchronous lock around \<open>proc\<close>, which is held across awaits.\<close>

record Inner =
  demux :: Demux
  next_id :: u64
  generation :: u64
  events :: "HiggsEvent list"
  last_load :: "json option"
  load_epoch :: u64
  stopped :: bool
  running :: bool
  write_tx :: "nat option"
  proc :: "nat option"
  proc_locked :: bool

text \<open>A call of \<open>send_request\<close> or \<open>replay_rpc_await\<close>. \<open>SinkOnly\<close> is a chat whose
  future has not been polled yet.\<close>

datatype call_kind = ControlRpc | ChatRpc | ReplayRpc
datatype call_pc = SinkOnly | Registered | Waiting | Done "HiggsError + json"

record caller =
  call_kind :: call_kind
  call_id :: u64
  call_addr :: nat
  call_method :: string
  call_params :: json
  call_pc :: call_pc

text \<open>The program points of \<open>reader_task\<close> and the functions it awaits; a child in an
  argument is a handle the task holds.\<close>

datatype reader_pc =
    RLoop | RCheck | RClearTx bool | RFail bool | RSinks bool | RDead bool | RBackoff
  | RGenCheck | RSpawn | RFactoryErr | RReapOld "nat option" | RHave nat | RInstall nat
  | RWait nat "nat option" | RWriter nat | RAnnounce nat | RReplay nat | RCapture nat json
  | RExit | RGone

record reader =
  rd_gen :: u64
  rd_child :: nat
  rd_pc :: reader_pc

datatype stop_pc = SIdle | SAsked | SClosed | SReap "nat option"

datatype replay_pc = PStopped | PEpoch | PSend | PDone

record replay =
  rp_params :: json
  rp_epoch :: u64
  rp_pc :: replay_pc

record Sup = Inner +
  next_child :: nat
  reaped :: "nat list"
  leaked :: "nat list"
  dead_writers :: "nat list"
  wire :: "(nat \<times> RpcFrame) list"
  callers :: "caller list"
  readers :: "reader list"
  stopper :: stop_pc
  replays :: "replay list"
  recording :: bool

definition sup_new :: Sup where
  "sup_new =
     \<lparr>demux = demux_new, next_id = 1, generation = 0, events = [], last_load = None,
      load_epoch = 0, stopped = False, running = False, write_tx = None, proc = None,
      proc_locked = False, next_child = 0, reaped = [], leaked = [], dead_writers = [],
      wire = [], callers = [], readers = [], stopper = SIdle, replays = [],
      recording = False\<rparr>"

definition opt_list :: "'a option \<Rightarrow> 'a list" where
  "opt_list x = (case x of None \<Rightarrow> [] | Some y \<Rightarrow> [y])"

lemma opt_list_simps [simp]: "opt_list None = []" "opt_list (Some x) = [x]"
  by (simp_all add: opt_list_def)

subsection \<open>Requests\<close>

definition alloc_request_id :: "'a Inner_scheme \<Rightarrow> u64 \<times> 'a Inner_scheme" where
  "alloc_request_id s = (next_id s, s\<lparr>next_id := next_id s + 1\<rparr>)"

text \<open>The reply of a worker as the result of the call (the end of \<open>send_request\<close>).\<close>

definition response_result :: "string \<Rightarrow> RpcResponse \<Rightarrow> HiggsError + json" where
  "response_result method resp =
     (case resp_error resp of
        Some err \<Rightarrow>
          Inl (WorkerRpc method (err_message err) (Option.bind (err_data err) (get_str ''code'')))
      | None \<Rightarrow> Inr (unwrap_or JNull (resp_result resp)))"

definition no_worker :: "call_kind \<Rightarrow> string \<Rightarrow> HiggsError" where
  "no_worker k method =
     WorkerDead (if k = ReplayRpc then ''replay '' @ method @ '': no worker running''
                 else ''no worker running'')"

definition died_before_response :: "call_kind \<Rightarrow> string \<Rightarrow> HiggsError" where
  "died_before_response k method =
     WorkerDead (if k = ReplayRpc then ''replay '' @ method @ '': worker died before response''
                 else ''worker died before response'')"

definition timed_out :: "call_kind \<Rightarrow> string \<Rightarrow> HiggsError" where
  "timed_out k method =
     (case k of
        ControlRpc \<Rightarrow> WorkerDead (method @ '' timed out after 120s'')
      | ChatRpc \<Rightarrow> ChatTimeout CHAT_RPC_TIMEOUT
      | ReplayRpc \<Rightarrow> WorkerDead (''replay '' @ method @ '' timed out after 120s''))"

text \<open>\<open>request\<close> up to the registration, \<open>chat\<close> up to the first poll, and that poll.\<close>

definition register_call :: "nat \<Rightarrow> Sup \<Rightarrow> Sup" where
  "register_call k s =
     (let c = callers s ! k; (a, d) = register_pending (call_id c) (demux s) in
      s\<lparr>demux := d, callers := (callers s)[k := c\<lparr>call_addr := a, call_pc := Registered\<rparr>]\<rparr>)"

definition open_call :: "call_kind \<Rightarrow> string \<Rightarrow> (u64 \<Rightarrow> json) \<Rightarrow> Sup \<Rightarrow> Sup" where
  "open_call k method params s =
     (let (i, s) = alloc_request_id s in
      s\<lparr>callers := callers s @ [\<lparr>call_kind = k, call_id = i, call_addr = 0,
          call_method = method, call_params = params i, call_pc = SinkOnly\<rparr>]\<rparr>)"

definition request :: "call_kind \<Rightarrow> string \<Rightarrow> json \<Rightarrow> Sup \<Rightarrow> Sup" where
  "request k method params s = register_call (length (callers s)) (open_call k method (\<lambda>_. params) s)"

definition chat :: "(string \<times> json) list \<Rightarrow> Sup \<Rightarrow> Sup" where
  "chat body s =
     (let s' = open_call ChatRpc M_CHAT (\<lambda>i. JObj ((''request_id'', json_of_u64 i) # body)) s in
      s'\<lparr>demux := snd (register_sink (next_id s) (demux s'))\<rparr>)"

text \<open>The end of a call: a chat removes its sink on any outcome, a replay that succeeded
  announces the model.\<close>

definition finish_call :: "nat \<Rightarrow> HiggsError + json \<Rightarrow> Sup \<Rightarrow> Sup" where
  "finish_call k r s =
     (let c = callers s ! k in
      s\<lparr>callers := (callers s)[k := c\<lparr>call_pc := Done r\<rparr>],
        demux := (if call_kind c = ChatRpc then remove_sink (call_id c) (demux s) else demux s),
        events := events s @
          (case r of
             Inr _ \<Rightarrow>
               (if call_kind c = ReplayRpc
                then [ModelLoaded (unwrap_or [] (get_str ''id'' (call_params c)))] else [])
           | Inl _ \<Rightarrow> [])\<rparr>)"

definition send_call :: "nat \<Rightarrow> Sup \<Rightarrow> Sup" where
  "send_call k s =
     (let c = callers s ! k in
      case opt_filter (\<lambda>w. w \<notin> set (dead_writers s)) (write_tx s) of
        None \<Rightarrow>
          finish_call k (Inl (no_worker (call_kind c) (call_method c)))
            (s\<lparr>demux := remove_pending (call_id c) (demux s)\<rparr>)
      | Some w \<Rightarrow>
          s\<lparr>wire := wire s @ [(w, Request \<lparr>req_jsonrpc = ''2.0'', req_id = call_id c,
               req_method = call_method c, req_params = call_params c\<rparr>)],
            callers := (callers s)[k := c\<lparr>call_pc := Waiting\<rparr>]\<rparr>)"

definition receive_call :: "nat \<Rightarrow> Sup \<Rightarrow> Sup option" where
  "receive_call k s =
     (let c = callers s ! k in
      case oneshots (demux s) ! call_addr c of
        Pending \<Rightarrow> None
      | Sent r \<Rightarrow> Some (finish_call k (response_result (call_method c) r) s)
      | Cancelled \<Rightarrow>
          Some (finish_call k (Inl (died_before_response (call_kind c) (call_method c))) s))"

text \<open>A time-out is only noticed while there is nothing to receive.\<close>

definition timeout_call :: "nat \<Rightarrow> Sup \<Rightarrow> Sup option" where
  "timeout_call k s =
     (let c = callers s ! k in
      if oneshots (demux s) ! call_addr c = Pending then
        Some (finish_call k (Inl (timed_out (call_kind c) (call_method c)))
               (s\<lparr>demux := remove_pending (call_id c) (demux s)\<rparr>))
      else None)"

subsection \<open>Lines from the worker\<close>

definition route_notification :: "RpcNotification \<Rightarrow> Demux \<Rightarrow> Demux" where
  "route_notification n d =
     (if notif_method n \<noteq> N_CHAT_CHUNK then d
      else case get_u64 ''request_id'' (notif_params n) of
        None \<Rightarrow> d
      | Some i \<Rightarrow>
          (case decode_chunk_params (notif_params n) of
             None \<Rightarrow> d
           | Some delta \<Rightarrow> route_chunk (word_of_int i) delta d))"

definition dispatch_frame :: "HiggsError + RpcFrame \<Rightarrow> Demux \<Rightarrow> Demux" where
  "dispatch_frame f d =
     (case f of
        Inr (Response r) \<Rightarrow> correlate r d
      | Inr (Notification n) \<Rightarrow> route_notification n d
      | Inr (Request _) \<Rightarrow> d
      | Inl _ \<Rightarrow> d)"

definition dispatch :: "(string \<Rightarrow> string + json) \<Rightarrow> (json \<Rightarrow> string) \<Rightarrow> string \<Rightarrow> Demux \<Rightarrow> Demux" where
  "dispatch parse why line d = dispatch_frame (decode parse why line) d"

subsection \<open>Start\<close>

text \<open>\<open>do_spawn\<close>; the first argument is the factory's error, if it fails. A handle that
  cannot be stored, or is overwritten, is dropped: that child is never reaped.\<close>

definition do_spawn :: "HiggsError option \<Rightarrow> Sup \<Rightarrow> (HiggsError + unit) \<times> Sup" where
  "do_spawn f s =
     (if running s then (Inr (), s)
      else let s = s\<lparr>running := True, stopped := False, generation := generation s + 1\<rparr> in
        case f of
          Some e \<Rightarrow> (Inl e, s\<lparr>running := False\<rparr>)
        | None \<Rightarrow>
            let c = next_child s;
                s = (if proc_locked s then s\<lparr>leaked := leaked s @ [c]\<rparr>
                     else s\<lparr>leaked := leaked s @ opt_list (proc s), proc := Some c\<rparr>)
            in (Inr (), s\<lparr>next_child := c + 1, write_tx := Some c,
                  readers := readers s @ [\<lparr>rd_gen = generation s, rd_child = c, rd_pc = RLoop\<rparr>]\<rparr>))"

subsection \<open>Death and restart\<close>

text \<open>\<open>on_worker_death\<close>, whole; the reader's steps below take it apart, because callers run
  in between.\<close>

definition close_tx :: "'a Inner_scheme \<Rightarrow> 'a Inner_scheme" where
  "close_tx s = s\<lparr>write_tx := None\<rparr>"

definition fail_pending :: "'a Inner_scheme \<Rightarrow> 'a Inner_scheme" where
  "fail_pending s = s\<lparr>demux := fail_all_pending (demux s)\<rparr>"

definition drop_sinks :: "'a Inner_scheme \<Rightarrow> 'a Inner_scheme" where
  "drop_sinks s = s\<lparr>demux := clear_sinks (demux s)\<rparr>"

definition announce_death :: "bool \<Rightarrow> 'a Inner_scheme \<Rightarrow> 'a Inner_scheme" where
  "announce_death deliberate s =
     (if deliberate then s else s\<lparr>events := events s @ [WorkerDied]\<rparr>)"

definition on_worker_death :: "bool \<Rightarrow> 'a Inner_scheme \<Rightarrow> 'a Inner_scheme" where
  "on_worker_death deliberate s =
     announce_death deliberate (drop_sinks (fail_pending (close_tx s)))"

definition goto :: "nat \<Rightarrow> reader_pc \<Rightarrow> Sup \<Rightarrow> Sup" where
  "goto i pc s = s\<lparr>readers := (readers s)[i := (readers s ! i)\<lparr>rd_pc := pc\<rparr>]\<rparr>"

text \<open>\<open>reap_old_child\<close> in two steps around its wait, which holds the lock.\<close>

definition lock_and_take :: "Sup \<Rightarrow> Sup" where
  "lock_and_take s = s\<lparr>proc := None, proc_locked := True\<rparr>"

definition reap :: "nat option \<Rightarrow> Sup \<Rightarrow> Sup" where
  "reap c s = s\<lparr>reaped := reaped s @ opt_list c\<rparr>"

text \<open>\<open>install_child\<close>: under the lock, refuse after a stop; else reap the old child (a
  wait), then store the new one.\<close>

definition install_begin :: "nat \<Rightarrow> nat \<Rightarrow> Sup \<Rightarrow> Sup option" where
  "install_begin i c s =
     (if proc_locked s then None
      else if stopped s then Some (goto i RExit (reap (Some c) s))
      else Some (goto i (RWait c (proc s)) (lock_and_take s)))"

definition install_end :: "nat \<Rightarrow> nat \<Rightarrow> nat option \<Rightarrow> Sup \<Rightarrow> Sup" where
  "install_end i c old s = goto i (RWriter c) (reap old s\<lparr>proc := Some c, proc_locked := False\<rparr>)"

definition next_transport :: "nat \<Rightarrow> nat \<Rightarrow> Sup \<Rightarrow> Sup" where
  "next_transport i c s =
     s\<lparr>readers := (readers s)[i := (readers s ! i)\<lparr>rd_child := c, rd_pc := RLoop\<rparr>]\<rparr>"

text \<open>One step of reader task \<open>i\<close> that needs nothing from outside: the death handling, the
  checks and \<open>attempt_restart\<close> behind the factory call.\<close>

definition reader_step :: "nat \<Rightarrow> Sup \<Rightarrow> Sup option" where
  "reader_step i s =
     (let r = readers s ! i in
      case rd_pc r of
        RLoop \<Rightarrow> None
      | RCheck \<Rightarrow>
          Some (if generation s \<noteq> rd_gen r then goto i RGone s
                else goto i (RClearTx (stopped s)) s)
      | RClearTx d \<Rightarrow> Some (goto i (RFail d) (close_tx s))
      | RFail d \<Rightarrow> Some (goto i (RSinks d) (fail_pending s))
      | RSinks d \<Rightarrow> Some (goto i (RDead d) (drop_sinks s))
      | RDead d \<Rightarrow> Some (goto i (if d then RExit else RBackoff) (announce_death d s))
      | RBackoff \<Rightarrow> Some (goto i (if stopped s then RExit else RGenCheck) s)
      | RGenCheck \<Rightarrow> Some (goto i (if generation s \<noteq> rd_gen r then RGone else RSpawn) s)
      | RSpawn \<Rightarrow> None
      | RFactoryErr \<Rightarrow>
          (if proc_locked s then None
           else Some (goto i (RReapOld (proc s)) (lock_and_take s)))
      | RReapOld old \<Rightarrow>
          Some (goto i RExit (reap old s\<lparr>proc_locked := False, events := events s @ [WorkerDied]\<rparr>))
      | RHave c \<Rightarrow>
          Some (if stopped s then goto i RExit (reap (Some c) s) else goto i (RInstall c) s)
      | RInstall c \<Rightarrow> install_begin i c s
      | RWait c old \<Rightarrow> Some (install_end i c old s)
      | RWriter c \<Rightarrow> Some (goto i (RAnnounce c) (s\<lparr>write_tx := Some c\<rparr>))
      | RAnnounce c \<Rightarrow> Some (goto i (RReplay c) (s\<lparr>events := events s @ [WorkerRestarted]\<rparr>))
      | RReplay c \<Rightarrow>
          Some (case last_load s of
                  None \<Rightarrow> next_transport i c s
                | Some p \<Rightarrow> goto i (RCapture c p) s)
      | RCapture c p \<Rightarrow>
          Some (next_transport i c (s\<lparr>replays := replays s @
            [\<lparr>rp_params = p, rp_epoch = load_epoch s, rp_pc = PStopped\<rparr>]\<rparr>))
      | RExit \<Rightarrow> Some (goto i RGone (s\<lparr>running := False\<rparr>))
      | RGone \<Rightarrow> None)"

text \<open>The factory call of a restart.\<close>

definition spawn_replacement :: "nat \<Rightarrow> HiggsError option \<Rightarrow> Sup \<Rightarrow> Sup" where
  "spawn_replacement i f s =
     (case f of
        Some _ \<Rightarrow> goto i RFactoryErr s
      | None \<Rightarrow> goto i (RHave (next_child s)) (s\<lparr>next_child := next_child s + 1\<rparr>))"

text \<open>The task of \<open>replay_load\<close>: two checks, then the load request.\<close>

definition replay_step :: "nat \<Rightarrow> Sup \<Rightarrow> Sup option" where
  "replay_step k s =
     (let p = replays s ! k; set_pc = (\<lambda>pc s. s\<lparr>replays := (replays s)[k := p\<lparr>rp_pc := pc\<rparr>]\<rparr>) in
      case rp_pc p of
        PStopped \<Rightarrow> Some (set_pc (if stopped s then PDone else PEpoch) s)
      | PEpoch \<Rightarrow> Some (set_pc (if load_epoch s \<noteq> rp_epoch p then PDone else PSend) s)
      | PSend \<Rightarrow> Some (set_pc PDone (request ReplayRpc M_LOAD (rp_params p) s))
      | PDone \<Rightarrow> None)"

subsection \<open>Stop\<close>

text \<open>\<open>stop\<close> after its shutdown request, which is a call like any other: close the channel,
  take the child under the lock, reap it, release the lifetime flag.\<close>

definition stop_step :: "Sup \<Rightarrow> Sup option" where
  "stop_step s =
     (case stopper s of
        SIdle \<Rightarrow> None
      | SAsked \<Rightarrow> Some (close_tx s\<lparr>stopper := SClosed\<rparr>)
      | SClosed \<Rightarrow>
          (if proc_locked s then None else Some (lock_and_take s\<lparr>stopper := SReap (proc s)\<rparr>))
      | SReap c \<Rightarrow>
          Some (reap c s\<lparr>running := False, proc_locked := False, stopper := SIdle\<rparr>))"

text \<open>\<open>record_last_load\<close> and \<open>clear_last_load\<close>: the store, then the epoch.\<close>

definition record_last_load :: "json option \<Rightarrow> Sup \<Rightarrow> Sup" where
  "record_last_load p s = s\<lparr>last_load := p, recording := True\<rparr>"

definition bump_epoch :: "Sup \<Rightarrow> Sup" where
  "bump_epoch s = s\<lparr>load_epoch := load_epoch s + 1, recording := False\<rparr>"

subsection \<open>The machine\<close>

datatype label =
    LStart "HiggsError option"
  | LRequest string json
  | LChat "(string \<times> json) list"
  | LPoll nat
  | LSend nat
  | LReceive nat
  | LTimeout nat
  | LWriterDies nat
  | LLine nat "HiggsError + RpcFrame"
  | LEof nat
  | LReader nat
  | LRespawn nat "HiggsError option"
  | LStopBegin
  | LStop
  | LRecord "json option"
  | LBump
  | LReplay nat

definition at_caller :: "nat \<Rightarrow> call_pc \<Rightarrow> Sup \<Rightarrow> bool" where
  "at_caller k pc s \<longleftrightarrow> k < length (callers s) \<and> call_pc (callers s ! k) = pc"

definition at_reader :: "nat \<Rightarrow> reader_pc \<Rightarrow> Sup \<Rightarrow> bool" where
  "at_reader i pc s \<longleftrightarrow> i < length (readers s) \<and> rd_pc (readers s ! i) = pc"

definition guarded :: "bool \<Rightarrow> 'a \<Rightarrow> 'a option" where
  "guarded b x = (if b then Some x else None)"

lemma guarded_eq_Some [simp]: "guarded b x = Some y \<longleftrightarrow> b \<and> x = y"
  by (simp add: guarded_def)

primrec sup_step :: "label \<Rightarrow> Sup \<Rightarrow> Sup option" where
  "sup_step (LStart f) s = guarded (stopper s = SIdle) (snd (do_spawn f s))"
| "sup_step (LRequest m p) s = Some (request ControlRpc m p s)"
| "sup_step (LChat body) s = Some (chat body s)"
| "sup_step (LPoll k) s = guarded (at_caller k SinkOnly s) (register_call k s)"
| "sup_step (LSend k) s = guarded (at_caller k Registered s) (send_call k s)"
| "sup_step (LReceive k) s = (if at_caller k Waiting s then receive_call k s else None)"
| "sup_step (LTimeout k) s = (if at_caller k Waiting s then timeout_call k s else None)"
| "sup_step (LWriterDies c) s = Some (s\<lparr>dead_writers := c # dead_writers s\<rparr>)"
| "sup_step (LLine i f) s = guarded (at_reader i RLoop s) (s\<lparr>demux := dispatch_frame f (demux s)\<rparr>)"
| "sup_step (LEof i) s = guarded (at_reader i RLoop s) (goto i RCheck s)"
| "sup_step (LReader i) s = (if i < length (readers s) then reader_step i s else None)"
| "sup_step (LRespawn i f) s = guarded (at_reader i RSpawn s) (spawn_replacement i f s)"
| "sup_step LStopBegin s = guarded (stopper s = SIdle) (s\<lparr>stopped := True, stopper := SAsked\<rparr>)"
| "sup_step LStop s = stop_step s"
| "sup_step (LRecord p) s = guarded (\<not> recording s) (record_last_load p s)"
| "sup_step LBump s = guarded (recording s) (bump_epoch s)"
| "sup_step (LReplay k) s = (if k < length (replays s) then replay_step k s else None)"

fun sup_run :: "label list \<Rightarrow> Sup \<Rightarrow> Sup option" where
  "sup_run [] s = Some s"
| "sup_run (l # ls) s = (case sup_step l s of None \<Rightarrow> None | Some s' \<Rightarrow> sup_run ls s')"

text \<open>Every schedule, and the schedules in which a supervisor starts one worker lifetime, as
  the node runtime uses it: a supervisor is started once and thrown away after its stop.\<close>

inductive reachable :: "Sup \<Rightarrow> bool" where
  reachable_new: "reachable sup_new"
| reachable_step: "reachable s \<Longrightarrow> sup_step l s = Some t \<Longrightarrow> reachable t"

definition same_lifetime :: "label \<Rightarrow> Sup \<Rightarrow> bool" where
  "same_lifetime l s \<longleftrightarrow> (case l of LStart _ \<Rightarrow> readers s = [] \<or> running s | _ \<Rightarrow> True)"

inductive lifetime :: "Sup \<Rightarrow> bool" where
  lifetime_new: "lifetime sup_new"
| lifetime_step: "lifetime s \<Longrightarrow> same_lifetime l s \<Longrightarrow> sup_step l s = Some t \<Longrightarrow> lifetime t"

lemma lifetime_reachable: "lifetime s \<Longrightarrow> reachable s"
  by (induction rule: lifetime.induct) (auto intro: reachable.intros)

lemma reachable_run: "reachable s \<Longrightarrow> sup_run ls s = Some t \<Longrightarrow> reachable t"
  by (induction ls arbitrary: s) (auto split: option.splits intro: reachable_step)

end
