(* ===== verification/Worker.thy ===== *)
theory Worker
  imports Llama_Engine Supervisor Runtime
begin

text \<open>
  The worker process, \<open>src/worker/mod.rs\<close>: the loop that serves newline-delimited JSON-RPC
  requests, its dispatch, and the handlers of load, unload, status, chat, device list and log
  level over an engine behind the trait \<open>HiggsEngine\<close> (\<open>src/worker/engine/mod.rs\<close>), a record
  of its methods here.

  The loop turns the lines of stdin into the frames written to stdout; a failed write is only
  logged by the code, so it is not part of the state. The JSON text functions, the derived
  deserialisers of the two parameter structs, \<open>as_f64\<close> cut to \<open>f32\<close> and the display texts of
  errors are arguments, collected in \<open>worker_wire\<close>.
\<close>

record 'e HiggsEngine =
  eng_load :: "string \<Rightarrow> LlamaCppParams \<Rightarrow> 'e \<Rightarrow> HiggsError option \<times> 'e"
  eng_unload :: "'e \<Rightarrow> 'e"
  eng_is_loaded :: "'e \<Rightarrow> bool"
  eng_chat :: "string \<Rightarrow> GenParams \<Rightarrow> 'e \<Rightarrow> (HiggsError + ChatResult) \<times> EngineDelta list \<times> 'e"
  eng_devices :: "'e \<Rightarrow> GpuDevice list"

definition llama_engine :: "('m, 't, 'p, 'k, 'w) llama \<Rightarrow> ('m, 'w) LlamaCppEngine HiggsEngine" where
  "llama_engine ll =
     \<lparr>eng_load = llama_load ll, eng_unload = llama_unload, eng_is_loaded = llama_is_loaded,
      eng_chat = llama_chat ll, eng_devices = (\<lambda>s. device_info ll (native s))\<rparr>"

text \<open>The registry, its default first, and the selection by \<open>HIGGS_ENGINE\<close>.\<close>

definition REGISTRY :: "string list" where
  "REGISTRY = [''llamacpp'']"

definition build_engine :: "string option \<Rightarrow> string" where
  "build_engine name =
     (case opt_filter (\<lambda>s. s \<noteq> []) (map_option trim name) of
        Some r \<Rightarrow> (case find (\<lambda>e. eq_ignore_ascii_case e r) REGISTRY of Some e \<Rightarrow> e | None \<Rightarrow> hd REGISTRY)
      | None \<Rightarrow> hd REGISTRY)"

record 'e WorkerState =
  wk_engine :: 'e
  wk_loaded :: "(string \<times> LlamaCppParams) option"
  wk_verbose :: bool

definition worker_new :: "'e \<Rightarrow> bool \<Rightarrow> 'e WorkerState" where
  "worker_new e v = \<lparr>wk_engine = e, wk_loaded = None, wk_verbose = v\<rparr>"

record worker_wire =
  w_parse :: "string \<Rightarrow> string + json"
  w_why :: "json \<Rightarrow> string"
  w_display :: "HiggsError \<Rightarrow> string"
  w_load_opts :: "json \<Rightarrow> LlamaCppParams option"
  w_sampling :: "json \<Rightarrow> LlamaCppSamplingParams option"
  w_f32 :: "json \<Rightarrow> f32 option"

subsection \<open>Helpers\<close>

definition u32_param :: "json \<Rightarrow> string \<Rightarrow> u32 \<Rightarrow> u32" where
  "u32_param params k d = unwrap_or d (Option.bind (get_u64 k params) u32_try_from)"

definition to_rpc_error :: "worker_wire \<Rightarrow> HiggsError \<Rightarrow> RpcError" where
  "to_rpc_error wr e =
     \<lparr>err_code = -32000, err_message = w_display wr e,
      err_data = Some (JObj [(''code'', JStr (error_code e))])\<rparr>"

definition invalid_params :: "string \<Rightarrow> RpcError" where
  "invalid_params msg = \<lparr>err_code = -32602, err_message = msg, err_data = None\<rparr>"

definition respond :: "u64 \<Rightarrow> RpcError + json \<Rightarrow> RpcFrame" where
  "respond i out =
     Response \<lparr>resp_jsonrpc = ''2.0'', resp_id = i,
       resp_result = (case out of Inr r \<Rightarrow> Some r | Inl _ \<Rightarrow> None),
       resp_error = (case out of Inl e \<Rightarrow> Some e | Inr _ \<Rightarrow> None)\<rparr>"

fun json_opt :: "json option \<Rightarrow> json" where
  "json_opt None = JNull"
| "json_opt (Some j) = j"

definition device_kind_to_json :: "DeviceKind \<Rightarrow> json" where
  "device_kind_to_json k = JStr (case k of Cpu \<Rightarrow> ''Cpu'' | Gpu \<Rightarrow> ''Gpu'' | Accel \<Rightarrow> ''Accel'')"

definition device_to_json :: "GpuDevice \<Rightarrow> json" where
  "device_to_json d =
     JObj [(''name'', JStr (dev_name d)), (''description'', JStr (dev_description d)),
       (''kind'', device_kind_to_json (dev_kind d)),
       (''vram_total_bytes'', json_of_u64 (vram_total_bytes d)),
       (''vram_free_bytes'', json_of_u64 (vram_free_bytes d))]"

subsection \<open>Handlers\<close>

definition handle_status :: "'e WorkerState \<Rightarrow> json" where
  "handle_status st =
     JObj [(''loaded'', json_opt (map_option (\<lambda>(i, p).
       JObj [(''id'', JStr i), (''ctx_len'', ctx_len_to_json (ctx_len p)),
         (''gpu_layers'', gpu_layers_to_json (gpu_layers p)),
         (''threads'', JInt (uint (threads p)))]) (wk_loaded st)))]"

definition worker_ctx :: "json \<Rightarrow> u32" where
  "worker_ctx params =
     (let c = u32_param params ''ctx_len'' DEFAULT_WORKER_CTX in if c = 0 then DEFAULT_WORKER_CTX else c)"

definition worker_opts :: "worker_wire \<Rightarrow> json \<Rightarrow> LlamaCppParams" where
  "worker_opts wr params =
     (unwrap_or params_default (w_load_opts wr params))
       \<lparr>ctx_len := ctx_fixed (worker_ctx params),
        gpu_layers := unwrap_or All (Option.bind (json_get ''gpu_layers'' params) gpu_layers_from_json),
        threads := u32_param params ''threads'' 4\<rparr>"

definition handle_load ::
  "worker_wire \<Rightarrow> 'e HiggsEngine \<Rightarrow> json \<Rightarrow> 'e WorkerState \<Rightarrow> (RpcError + json) \<times> 'e WorkerState" where
  "handle_load wr eng params st =
     (let i = unwrap_or [] (get_str ''id'' params);
          opts = worker_opts wr params
      in case get_str ''path'' params of
           None \<Rightarrow> (Inl (invalid_params ''missing path''), st)
         | Some path \<Rightarrow>
             (case eng_load eng path opts (wk_engine st) of
                (Some e, en) \<Rightarrow> (Inl (to_rpc_error wr e), st\<lparr>wk_loaded := None, wk_engine := en\<rparr>)
              | (None, en) \<Rightarrow>
                  (Inr (JObj [(''id'', JStr i)]), st\<lparr>wk_loaded := Some (i, opts), wk_engine := en\<rparr>)))"

definition handle_sysinfo :: "'e HiggsEngine \<Rightarrow> 'e WorkerState \<Rightarrow> json" where
  "handle_sysinfo eng st = JObj [(''gpus'', JArr (map device_to_json (eng_devices eng (wk_engine st))))]"

definition chat_note :: "json \<Rightarrow> EngineDelta \<Rightarrow> RpcFrame" where
  "chat_note request_id d =
     Notification \<lparr>notif_jsonrpc = ''2.0'', notif_method = N_CHAT_CHUNK,
       notif_params = encode_chunk_params request_id (engine_delta_kind d) (engine_delta_text d)\<rparr>"

definition chat_gen :: "worker_wire \<Rightarrow> json \<Rightarrow> GenParams" where
  "chat_gen wr params =
     \<lparr>max_tokens = (case get_u64 ''max_tokens'' params of Some v \<Rightarrow> nat v | None \<Rightarrow> 1024),
      gen_sampling =
        (case Option.bind (json_get ''sampling'' params) (w_sampling wr) of
           Some s \<Rightarrow> s
         | None \<Rightarrow>
             sampling_default\<lparr>temperature := Option.bind (json_get ''temperature'' params) (w_f32 wr)\<rparr>),
      tools_json = get_str ''tools'' params,
      chat_template_kwargs = get_str ''chat_template_kwargs'' params\<rparr>"

definition chat_result_json :: "ChatResult \<Rightarrow> json" where
  "chat_result_json r =
     JObj [(''content'', JStr (res_content r)), (''finish_reason'', JStr (finish_reason r)),
       (''tool_calls'', json_opt (res_tool_calls r)),
       (''prompt_tokens'', JInt (uint (prompt_tokens r))),
       (''completion_tokens'', JInt (uint (completion_tokens r))),
       (''reasoning_content'', json_opt (map_option JStr (reasoning_content r)))]"

definition handle_chat ::
  "worker_wire \<Rightarrow> 'e HiggsEngine \<Rightarrow> json \<Rightarrow> 'e WorkerState \<Rightarrow>
   (RpcError + json) \<times> RpcFrame list \<times> 'e WorkerState" where
  "handle_chat wr eng params st =
     (case wk_loaded st of
        None \<Rightarrow> (Inl (to_rpc_error wr (ModelNotLoaded ''unloaded'')), [], st)
      | Some (resident, _) \<Rightarrow>
          (case opt_filter (\<lambda>m. m \<noteq> [] \<and> m \<noteq> resident) (get_str ''model'' params) of
             Some requested \<Rightarrow> (Inl (to_rpc_error wr (ResidentModelMismatch requested resident)), [], st)
           | None \<Rightarrow>
               (case get_str ''messages_json'' params of
                  None \<Rightarrow> (Inl (invalid_params ''missing messages_json''), [], st)
                | Some messages \<Rightarrow>
                    (case eng_chat eng messages (chat_gen wr params) (wk_engine st) of
                       (r, ds, en) \<Rightarrow>
                         ((case r of Inl e \<Rightarrow> Inl (to_rpc_error wr e) | Inr res \<Rightarrow> Inr (chat_result_json res)),
                          map (chat_note (unwrap_or JNull (json_get ''request_id'' params))) ds,
                          st\<lparr>wk_engine := en\<rparr>)))))"

subsection \<open>The loop\<close>


definition M_UNLOAD :: string where "M_UNLOAD = ''higgs/unload''"
definition M_STATUS :: string where "M_STATUS = ''higgs/status''"

definition M_SHUTDOWN :: string where "M_SHUTDOWN = ''higgs/shutdown''"
definition M_SYSINFO :: string where "M_SYSINFO = ''higgs/sysinfo''"
definition M_LOG_LEVEL :: string where "M_LOG_LEVEL = ''higgs/log_level''"

lemmas method_names = M_LOAD_def M_UNLOAD_def M_STATUS_def M_CHAT_def M_SHUTDOWN_def M_SYSINFO_def M_LOG_LEVEL_def

fun as_bool :: "json \<Rightarrow> bool option" where
  "as_bool (JBool b) = Some b"
| "as_bool _ = None"

definition worker_dispatch ::
  "worker_wire \<Rightarrow> 'e HiggsEngine \<Rightarrow> RpcRequest \<Rightarrow> 'e WorkerState \<Rightarrow>
   (RpcError + json) \<times> RpcFrame list \<times> 'e WorkerState" where
  "worker_dispatch wr eng req st =
     (if req_method req = M_STATUS then (Inr (handle_status st), [], st)
      else if req_method req = M_LOAD then
        (case handle_load wr eng (req_params req) st of (r, st) \<Rightarrow> (r, [], st))
      else if req_method req = M_UNLOAD then
        (Inr (JObj []), [], st\<lparr>wk_engine := eng_unload eng (wk_engine st), wk_loaded := None\<rparr>)
      else if req_method req = M_CHAT then handle_chat wr eng (req_params req) st
      else if req_method req = M_SYSINFO then (Inr (handle_sysinfo eng st), [], st)
      else if req_method req = M_LOG_LEVEL then
        (Inr (JObj []), [],
         st\<lparr>wk_verbose := unwrap_or False (Option.bind (json_get ''verbose'' (req_params req)) as_bool)\<rparr>)
      else (Inl (method_not_found (w_display wr) ''worker'' (req_method req)), [], st))"

definition parse_error :: "worker_wire \<Rightarrow> HiggsError \<Rightarrow> RpcError" where
  "parse_error wr e =
     \<lparr>err_code = -32700, err_message = w_display wr e,
      err_data = Some (JObj [(''code'', JStr (error_code e))])\<rparr>"

text \<open>What one line does: its frames, and whether the loop goes on.\<close>

definition serve_line ::
  "worker_wire \<Rightarrow> 'e HiggsEngine \<Rightarrow> string \<Rightarrow> 'e WorkerState \<Rightarrow> RpcFrame list \<times> bool \<times> 'e WorkerState" where
  "serve_line wr eng line st =
     (if trim line = [] then ([], True, st)
      else case decode (w_parse wr) (w_why wr) line of
        Inr (Request req) \<Rightarrow>
          if req_method req = M_SHUTDOWN then ([respond (req_id req) (Inr (JObj []))], False, st)
          else (case worker_dispatch wr eng req st of
                  (out, notes, st) \<Rightarrow> (notes @ [respond (req_id req) out], True, st))
      | Inr _ \<Rightarrow> ([], True, st)
      | Inl e \<Rightarrow> ([respond 0 (Inl (parse_error wr e))], True, st))"

text \<open>\<open>serve_state\<close> over the results of \<open>reader.lines()\<close>; \<open>None\<close> is a read error.\<close>

fun serve_state ::
  "worker_wire \<Rightarrow> 'e HiggsEngine \<Rightarrow> string option list \<Rightarrow> 'e WorkerState \<Rightarrow> RpcFrame list \<times> 'e WorkerState" where
  "serve_state wr eng [] st = ([], st)"
| "serve_state wr eng (None # ls) st = ([], st)"
| "serve_state wr eng (Some line # ls) st =
     (case serve_line wr eng line st of
        (frames, False, st) \<Rightarrow> (frames, st)
      | (frames, True, st) \<Rightarrow>
          (case serve_state wr eng ls st of (rest, st) \<Rightarrow> (frames @ rest, st)))"

end
