(* ===== verification/V1_Chat.thy ===== *)
theory V1_Chat
  imports Chat_Gate Worker
begin

text \<open>
  \<open>POST /v1/chat/completions\<close>, from \<open>src/serve/v1.rs\<close> with the bodies of
  \<open>src/serve/v1_wire.rs\<close>: the error envelope and what it hides, the validation of sampling
  parameters and content, the order of the gates, and the response without streaming.

  The typed request is what \<open>async-openai\<close> deserialises; its message types are written out,
  its deserialisers and the JSON printer are arguments. Ids, times and log lines are left out
  of a response but for the arguments \<open>i\<close> and \<open>created\<close>.
\<close>

subsection \<open>The error envelope\<close>

record ApiError =
  ae_message :: string
  ae_type :: string
  ae_code :: "string option"

definition trim_char :: "char \<Rightarrow> bool" where
  "trim_char c \<longleftrightarrow> c \<in> set [CHR ''('', CHR '')'', CHR 0x27, CHR 0x22, CHR '','', CHR ''.'']"

definition trim_matches :: "string \<Rightarrow> string" where
  "trim_matches s = rev (dropWhile trim_char (rev (dropWhile trim_char s)))"

definition ascii_alphabetic :: "char \<Rightarrow> bool" where
  "ascii_alphabetic c \<longleftrightarrow> byte_in 65 90 c \<or> byte_in 97 122 c"

text \<open>\<open>rsplit_once(':')\<close>.\<close>

definition rsplit_colon :: "string \<Rightarrow> (string \<times> string) option" where
  "rsplit_colon s =
     (if CHR '':'' \<in> set s
      then Some (rev (tl (dropWhile (\<lambda>c. c \<noteq> CHR '':'') (rev s))), rev (takeWhile (\<lambda>c. c \<noteq> CHR '':'') (rev s)))
      else None)"

definition is_sensitive :: "string \<Rightarrow> bool" where
  "is_sensitive tok =
     (let t = trim_matches tok in
      if t = [] then False
      else if hd t = CHR ''/'' then True
      else if length t \<ge> 3 \<and> ascii_alphabetic (t ! 0) \<and> t ! 1 = CHR '':'' \<and>
              (t ! 2 = CHR 0x5C \<or> t ! 2 = CHR ''/'') then True
      else case rsplit_colon t of
             Some (h, port) \<Rightarrow> h \<noteq> [] \<and> port \<noteq> [] \<and> list_all is_digit port
           | None \<Rightarrow> False)"

definition redact_paths :: "string \<Rightarrow> string" where
  "redact_paths message =
     join_with '' '' (map (\<lambda>tok. if is_sensitive tok then ''<redacted>'' else tok) (split_on CHR '' '' message))"

definition v1_envelope :: "nat \<Rightarrow> string \<Rightarrow> ApiError" where
  "v1_envelope status message =
     \<lparr>ae_message = redact_paths message,
      ae_type = (if 400 \<le> status \<and> status < 500 then ''invalid_request_error'' else ''server_error''),
      ae_code = (if status = 404 then Some ''model_not_found'' else None)\<rparr>"

definition v1_error_code :: "HiggsError \<Rightarrow> string option" where
  "v1_error_code err =
     (case err of
        ContextOverflow _ _ _ \<Rightarrow> Some ''context_length_exceeded''
      | WorkerRpc _ _ c \<Rightarrow> (if c = Some ''HG005'' then Some ''context_length_exceeded'' else None)
      | NotPrepared _ \<Rightarrow> Some ''model_not_prepared''
      | ProfileStale _ \<Rightarrow> Some ''model_not_prepared''
      | _ \<Rightarrow> None)"

definition v1_envelope_for :: "(HiggsError \<Rightarrow> string) \<Rightarrow> HiggsError \<Rightarrow> ApiError" where
  "v1_envelope_for display err =
     (let env = v1_envelope (http_status err) (display err)
      in case v1_error_code err of Some c \<Rightarrow> env\<lparr>ae_code := Some c\<rparr> | None \<Rightarrow> env)"

definition v1_error :: "(HiggsError \<Rightarrow> string) \<Rightarrow> HiggsError \<Rightarrow> nat \<times> ApiError" where
  "v1_error display err = (http_status err, v1_envelope_for display err)"

definition v1_bad_request :: "(HiggsError \<Rightarrow> string) \<Rightarrow> string \<Rightarrow> nat \<times> ApiError" where
  "v1_bad_request display message = (400, v1_envelope 400 (display (InvalidRequest message)))"

definition v1_internal :: "string \<Rightarrow> nat \<times> ApiError" where
  "v1_internal message = (500, v1_envelope 500 message)"

subsection \<open>The typed request\<close>

datatype TextContent = TText string | TArray "string list"
datatype UserPart = UText string | UImageUrl | UInputAudio | UFile
datatype UserContent = UContent string | UArray "UserPart list"
datatype AssistantPart = AText string | ARefusal string
datatype AssistantContent = AContent string | AArray "AssistantPart list"

datatype Message =
    Developer TextContent
  | System TextContent
  | User UserContent
  | Assistant "AssistantContent option"
  | ToolMsg TextContent
  | FunctionMsg "string option"

record ChatRequest =
  cr_model :: string
  cr_messages :: "Message list"
  cr_stream :: "bool option"
  cr_include_usage :: "bool option option"   \<comment> \<open>\<open>stream_options\<close> and its field\<close>
  cr_max_completion_tokens :: "u32 option"
  cr_max_tokens :: "u32 option"
  cr_temperature :: "f32 option"
  cr_top_p :: "f32 option"
  cr_n :: "nat option"
  cr_presence_penalty :: "f32 option"
  cr_frequency_penalty :: "f32 option"
  cr_tools :: "(string + string) option"    \<comment> \<open>the array as \<open>serde_json\<close> prints it\<close>

definition requested_max_tokens :: "ChatRequest \<Rightarrow> nat option" where
  "requested_max_tokens r = map_option unat (opt_or (cr_max_completion_tokens r) (cr_max_tokens r))"

definition effective_max_tokens :: "ChatRequest \<Rightarrow> u32" where
  "effective_max_tokens r = unwrap_or 1024 (opt_or (cr_max_completion_tokens r) (cr_max_tokens r))"

text \<open>Comparisons of an \<open>f32\<close> by its pattern: a finite number below zero, and the intervals.\<close>

definition f32_finite :: "f32 \<Rightarrow> bool" where
  "f32_finite x \<longleftrightarrow> take_bit 31 x < 0x7F800000"

definition f32_negative :: "f32 \<Rightarrow> bool" where
  "f32_negative x \<longleftrightarrow> bit x 31 \<and> take_bit 31 x \<noteq> 0 \<and> take_bit 31 x \<le> 0x7F800000"

definition f32_in_0_1 :: "f32 \<Rightarrow> bool" where    \<comment> \<open>\<open>p > 0.0 && p <= 1.0\<close>\<close>
  "f32_in_0_1 p \<longleftrightarrow> \<not> bit p 31 \<and> p \<noteq> 0 \<and> p \<le> 0x3F800000"

definition f32_within_2 :: "f32 \<Rightarrow> bool" where   \<comment> \<open>\<open>(-2.0..=2.0).contains\<close>\<close>
  "f32_within_2 x \<longleftrightarrow> take_bit 31 x \<le> 0x40000000"

definition given_and :: "('a \<Rightarrow> bool) \<Rightarrow> 'a option \<Rightarrow> bool" where
  "given_and P x = (case x of None \<Rightarrow> False | Some a \<Rightarrow> P a)"

text \<open>The details of an error are its texts; nothing depends on them.\<close>

definition validate_sampling :: "ChatRequest \<Rightarrow> HiggsError + unit" where
  "validate_sampling r =
     (if given_and (\<lambda>t. \<not> f32_finite t \<or> f32_negative t) (cr_temperature r)
      then Inl (InvalidSamplingParam ''temperature'' ''must be a finite value >= 0'')
      else if given_and (\<lambda>p. \<not> f32_in_0_1 p) (cr_top_p r)
      then Inl (InvalidSamplingParam ''top_p'' ''must be in (0, 1]'')
      else if given_and (\<lambda>n. n \<noteq> 1) (cr_n r)
      then Inl (InvalidSamplingParam ''n'' (''must be 1 (higgs serves a single choice; n='' @
             dec (unwrap_or 0 (cr_n r)) @ '' is unsupported)''))
      else if given_and (\<lambda>x. \<not> f32_within_2 x) (cr_presence_penalty r)
      then Inl (InvalidSamplingParam ''presence_penalty'' ''must be in [-2, 2]'')
      else if given_and (\<lambda>x. \<not> f32_within_2 x) (cr_frequency_penalty r)
      then Inl (InvalidSamplingParam ''frequency_penalty'' ''must be in [-2, 2]'')
      else if effective_max_tokens r = 0
      then Inl (InvalidSamplingParam ''max_tokens'' ''must be at least 1'')
      else if effective_max_tokens r > MAX_OUTPUT_TOKENS
      then Inl (InvalidSamplingParam ''max_tokens'' ''must not exceed 32768'')
      else Inr ())"

definition build_sampling :: "ChatRequest \<Rightarrow> LlamaCppSamplingParams" where
  "build_sampling r =
     sampling_default\<lparr>temperature := cr_temperature r, top_p := cr_top_p r,
       penalty_present := cr_presence_penalty r, penalty_freq := cr_frequency_penalty r\<rparr>"

subsection \<open>Content\<close>

definition NL :: string where "NL = [CHR 0x0A]"

fun text_content :: "TextContent \<Rightarrow> string" where
  "text_content (TText s) = s"
| "text_content (TArray ps) = join_with NL ps"

fun user_part :: "UserPart \<Rightarrow> string + string" where
  "user_part (UText s) = Inr s"
| "user_part _ = Inl ''user message contains a non-text content part (v1 is text-only)''"

fun assistant_part :: "AssistantPart \<Rightarrow> string + string" where
  "assistant_part (AText s) = Inr s"
| "assistant_part (ARefusal _) = Inl ''assistant message contains a refusal content part (v1 is text-only)''"

text \<open>\<open>collect\<close> into a \<open>Result\<close>: the first error wins.\<close>

fun try_map :: "('a \<Rightarrow> 'e + 'b) \<Rightarrow> 'a list \<Rightarrow> 'e + 'b list" where
  "try_map f [] = Inr []"
| "try_map f (x # xs) = rbind (f x) (\<lambda>y. rbind (try_map f xs) (\<lambda>ys. Inr (y # ys)))"

fun message_pair :: "Message \<Rightarrow> string + string \<times> string" where
  "message_pair (Developer c) = Inr (''developer'', text_content c)"
| "message_pair (System c) = Inr (''system'', text_content c)"
| "message_pair (User (UContent s)) = Inr (''user'', s)"
| "message_pair (User (UArray ps)) = rbind (try_map user_part ps) (\<lambda>ts. Inr (''user'', join_with NL ts))"
| "message_pair (Assistant None) = Inr (''assistant'', [])"
| "message_pair (Assistant (Some (AContent s))) = Inr (''assistant'', s)"
| "message_pair (Assistant (Some (AArray ps))) =
     rbind (try_map assistant_part ps) (\<lambda>ts. Inr (''assistant'', join_with NL ts))"
| "message_pair (ToolMsg c) = Inr (''tool'', text_content c)"
| "message_pair (FunctionMsg c) = Inr (''function'', unwrap_or [] c)"

definition messages_to_pairs :: "Message list \<Rightarrow> string + (string \<times> string) list" where
  "messages_to_pairs ms = try_map message_pair ms"

subsection \<open>The outcome of a generation\<close>

record ChatOutcome =
  co_content :: string
  co_finish_reason :: string
  co_tool_calls :: "json option"
  co_reasoning_content :: "string option"
  co_prompt_tokens :: u32
  co_completion_tokens :: u32

definition chat_outcome_from_value :: "json \<Rightarrow> ChatOutcome" where
  "chat_outcome_from_value result =
     \<lparr>co_content = unwrap_or [] (get_str ''content'' result),
      co_finish_reason = unwrap_or ''stop'' (get_str ''finish_reason'' result),
      co_tool_calls = opt_filter (\<lambda>v. \<not> is_null v) (json_get ''tool_calls'' result),
      co_reasoning_content = opt_filter (\<lambda>s. s \<noteq> []) (get_str ''reasoning_content'' result),
      co_prompt_tokens = word_of_int (unwrap_or 0 (get_u64 ''prompt_tokens'' result)),
      co_completion_tokens = word_of_int (unwrap_or 0 (get_u64 ''completion_tokens'' result))\<rparr>"

subsection \<open>The response\<close>

datatype FinishReason = Stop | Length | ToolCalls

definition finish_reason_from :: "string \<Rightarrow> FinishReason" where
  "finish_reason_from s = (if s = ''length'' then Length else Stop)"

text \<open>A tool call by id, with name and arguments for a function call.\<close>

datatype ToolCallMsg = FunctionCall string string string | CustomCall string

definition interpret_tool_calls :: "(json \<Rightarrow> ToolCallMsg list option) \<Rightarrow> json option \<Rightarrow> ToolCallMsg list option" where
  "interpret_tool_calls parse tool_calls = opt_filter (\<lambda>cs. cs \<noteq> []) (Option.bind tool_calls parse)"

record ReasoningChatResponse =
  rr_id :: string
  rr_created :: u32
  rr_model :: string
  rr_content :: "string option"
  rr_tool_calls :: "ToolCallMsg list option"
  rr_reasoning :: "string option"
  rr_finish_reason :: FinishReason
  rr_prompt_tokens :: u32
  rr_completion_tokens :: u32
  rr_total_tokens :: u32

definition chat_response ::
  "(json \<Rightarrow> ToolCallMsg list option) \<Rightarrow> string \<Rightarrow> u32 \<Rightarrow> string \<Rightarrow> ChatOutcome \<Rightarrow> ReasoningChatResponse" where
  "chat_response parse i created model out =
     (let calls = interpret_tool_calls parse (co_tool_calls out)
      in \<lparr>rr_id = i, rr_created = created, rr_model = model,
          rr_content = (if is_some calls \<and> co_content out = [] then None else Some (co_content out)),
          rr_tool_calls = calls, rr_reasoning = co_reasoning_content out,
          rr_finish_reason = (if is_some calls then ToolCalls else finish_reason_from (co_finish_reason out)),
          rr_prompt_tokens = co_prompt_tokens out, rr_completion_tokens = co_completion_tokens out,
          rr_total_tokens = sat_add (co_prompt_tokens out) (co_completion_tokens out)\<rparr>)"

subsection \<open>The handler\<close>

text \<open>What is handed to \<open>Higgs::chat_stream\<close>.\<close>

record ChatDispatch =
  cd_model :: string
  cd_messages_json :: string
  cd_max_tokens :: nat
  cd_sampling :: LlamaCppSamplingParams
  cd_tools_json :: "string option"
  cd_template_kwargs :: "string option"

text \<open>Arguments of the handler: the typed deserialiser, the JSON printer and parser, the display
  texts, the switch, and the gate's world.\<close>

record V1World =
  vw_typed :: "json \<Rightarrow> string + ChatRequest"
  vw_print :: "json \<Rightarrow> string"
  vw_parse :: "string \<Rightarrow> json option"
  vw_display :: "HiggsError \<Rightarrow> string"
  vw_serving :: bool
  vw_gate :: GateWorld

definition raw_messages_json :: "(json \<Rightarrow> string) \<Rightarrow> json \<Rightarrow> string" where
  "raw_messages_json print raw = print (unwrap_or (JArr []) (json_get ''messages'' raw))"

definition serialize_tools :: "V1World \<Rightarrow> ChatRequest \<Rightarrow> (nat \<times> ApiError) + string option" where
  "serialize_tools w r =
     (case cr_tools r of
        None \<Rightarrow> Inr None
      | Some (Inr s) \<Rightarrow> Inr (Some s)
      | Some (Inl e) \<Rightarrow> Inl (v1_bad_request (vw_display w) (''invalid tools: '' @ e)))"

definition gate_and_validate ::
  "V1World \<Rightarrow> ChatRequest \<Rightarrow> string \<Rightarrow> (nat \<times> ApiError) + string \<times> nat" where
  "gate_and_validate w r messages_json =
     (case fst (prepare_chat (vw_gate w) (vw_parse w) (cr_model r) (requested_max_tokens r) messages_json) of
        Inl e \<Rightarrow> Inl (v1_error (vw_display w) e)
      | Inr prepared \<Rightarrow>
          (case validate_sampling r of
             Inl e \<Rightarrow> Inl (v1_error (vw_display w) e)
           | Inr _ \<Rightarrow>
               (case messages_to_pairs (cr_messages r) of
                  Inl reject \<Rightarrow> Inl (v1_bad_request (vw_display w) reject)
                | Inr _ \<Rightarrow> Inr (pc_resolved_model prepared, pc_max_gen prepared))))"

definition template_kwargs :: "(json \<Rightarrow> string) \<Rightarrow> json \<Rightarrow> string option" where
  "template_kwargs print raw =
     (case json_get ''chat_template_kwargs'' raw of Some (JObj m) \<Rightarrow> Some (print (JObj m)) | _ \<Rightarrow> None)"

text \<open>The handler up to the dispatch: a refusal, or the request and what is dispatched for it.\<close>

definition v1_chat_completions :: "V1World \<Rightarrow> json \<Rightarrow> (nat \<times> ApiError) + ChatRequest \<times> ChatDispatch" where
  "v1_chat_completions w raw =
     (case vw_typed w raw of
        Inl e \<Rightarrow> Inl (v1_bad_request (vw_display w) (''invalid request body: '' @ e))
      | Inr r \<Rightarrow>
          if \<not> vw_serving w then Inl (v1_error (vw_display w) ServingDisabled)
          else
            (let messages_json = raw_messages_json (vw_print w) raw
             in rbind (gate_and_validate w r messages_json) (\<lambda>(resolved, n).
                  rbind (serialize_tools w r) (\<lambda>tools.
                    Inr (r, \<lparr>cd_model = resolved, cd_messages_json = messages_json, cd_max_tokens = n,
                             cd_sampling = build_sampling r, cd_tools_json = tools,
                             cd_template_kwargs = template_kwargs (vw_print w) raw\<rparr>)))))"

text \<open>Without streaming: the joined outcome as the response. \<open>Inl\<close> is the text of a failed task.\<close>

definition v1_answer ::
  "V1World \<Rightarrow> (json \<Rightarrow> ToolCallMsg list option) \<Rightarrow> string \<Rightarrow> u32 \<Rightarrow> ChatRequest \<Rightarrow> string + HiggsError + ChatOutcome \<Rightarrow>
   (nat \<times> ApiError) + ReasoningChatResponse" where
  "v1_answer w parse i created r joined =
     (case joined of
        Inr (Inr out) \<Rightarrow> Inr (chat_response parse i created (cr_model r) out)
      | Inr (Inl err) \<Rightarrow> Inl (v1_error (vw_display w) err)
      | Inl e \<Rightarrow> Inl (v1_internal (''chat task failed: '' @ e)))"

end
