(* ===== verification/Chat_Stream.thy ===== *)
theory Chat_Stream
  imports V1_Chat
begin

text \<open>
  The SSE assembly of \<open>src/serve/stream.rs\<close>: one chat's tagged deltas and its outcome as the
  OpenAI chunk protocol. The result is the sequence of \<open>data:\<close> payloads; that a client which
  went away discards them changes nothing else.

  \<open>drain_deltas\<close> selects between the delta queue and the outcome, the queue first; what it is
  given is a sequence of what the selection found: a delta, the end of the queue (then the
  outcome is awaited), or the outcome with the deltas still queued. The queue itself is in
  theory \<open>Delta_Queue\<close>. A joined outcome that is a text is a failed task.
\<close>

record ToolCallChunk =
  tc_index :: u32
  tc_id :: "string option"
  tc_type :: "string option"
  tc_function :: "(string option \<times> string option) option"

record StreamDelta =
  sd_role :: "string option"
  sd_content :: "string option"
  sd_reasoning :: "string option"
  sd_tool_calls :: "ToolCallChunk list option"

definition no_delta :: StreamDelta where
  "no_delta = \<lparr>sd_role = None, sd_content = None, sd_reasoning = None, sd_tool_calls = None\<rparr>"

text \<open>The fields every chunk of a stream shares.\<close>

record StreamHead =
  sh_id :: string
  sh_model :: string
  sh_created :: u32

datatype payload =
    ChunkPayload StreamHead StreamDelta "FinishReason option"
  | UsagePayload StreamHead u32 u32 u32
  | ErrorPayload ApiError
  | DonePayload

definition chunk_payload :: "StreamHead \<Rightarrow> StreamDelta \<Rightarrow> FinishReason option \<Rightarrow> payload" where
  "chunk_payload h d f = ChunkPayload h d f"

definition usage_payload :: "StreamHead \<Rightarrow> u32 \<Rightarrow> u32 \<Rightarrow> payload" where
  "usage_payload h p c = UsagePayload h p c (sat_add p c)"

record StreamEnv =
  se_fragment :: "string \<Rightarrow> ToolCallChunk option"
  se_calls :: "json \<Rightarrow> ToolCallMsg list option"
  se_display :: "HiggsError \<Rightarrow> string"

definition delta_chunk :: "StreamEnv \<Rightarrow> ChatDelta \<Rightarrow> StreamDelta option" where
  "delta_chunk env d =
     (case kind d of
        Content \<Rightarrow> Some (no_delta\<lparr>sd_content := Some (delta_text d)\<rparr>)
      | Reasoning \<Rightarrow> Some (no_delta\<lparr>sd_reasoning := Some (delta_text d)\<rparr>)
      | ToolCall \<Rightarrow> map_option (\<lambda>frag. no_delta\<lparr>sd_tool_calls := Some [frag]\<rparr>) (se_fragment env (delta_text d)))"

text \<open>The payloads so far and whether a tool fragment was sent.\<close>

definition emit_delta :: "StreamEnv \<Rightarrow> StreamHead \<Rightarrow> ChatDelta \<Rightarrow> payload list \<times> bool \<Rightarrow> payload list \<times> bool" where
  "emit_delta env h d acc =
     (case acc of (ps, streamed) \<Rightarrow>
        (case delta_chunk env d of
           Some c \<Rightarrow> (ps @ [chunk_payload h c None], streamed \<or> kind d = ToolCall)
         | None \<Rightarrow> (ps, streamed)))"

type_synonym joined = "string + HiggsError + ChatOutcome"

datatype polled =
    GotDelta ChatDelta
  | QueueEnded joined
  | OutcomeReady "ChatDelta list" joined

text \<open>\<open>None\<close>: the polls do not end the loop.\<close>

fun drain_deltas ::
  "StreamEnv \<Rightarrow> StreamHead \<Rightarrow> polled list \<Rightarrow> payload list \<times> bool \<Rightarrow> (joined \<times> payload list \<times> bool) option" where
  "drain_deltas env h [] acc = None"
| "drain_deltas env h (GotDelta d # ps) acc = drain_deltas env h ps (emit_delta env h d acc)"
| "drain_deltas env h (QueueEnded j # ps) acc = Some (j, acc)"
| "drain_deltas env h (OutcomeReady rest j # ps) acc = Some (j, fold (emit_delta env h) rest acc)"

fun stream_tool_call :: "nat \<times> ToolCallMsg \<Rightarrow> ToolCallChunk" where
  "stream_tool_call (i, FunctionCall c name args) =
     \<lparr>tc_index = of_nat i, tc_id = Some c, tc_type = Some ''function'',
      tc_function = Some (Some name, Some args)\<rparr>"
| "stream_tool_call (i, CustomCall c) =
     \<lparr>tc_index = of_nat i, tc_id = Some c, tc_type = Some ''function'', tc_function = None\<rparr>"

definition stream_tool_calls :: "ToolCallMsg list \<Rightarrow> ToolCallChunk list" where
  "stream_tool_calls calls = map stream_tool_call (enumerate 0 calls)"

definition emit_outcome :: "StreamEnv \<Rightarrow> StreamHead \<Rightarrow> ChatOutcome \<Rightarrow> bool \<Rightarrow> payload list" where
  "emit_outcome env h out streamed =
     (let calls = map_option stream_tool_calls (interpret_tool_calls (se_calls env) (co_tool_calls out));
          finish = (if streamed \<or> is_some calls then ToolCalls else finish_reason_from (co_finish_reason out))
      in (case opt_filter (\<lambda>_. \<not> streamed) calls of
            Some tc \<Rightarrow> [chunk_payload h (no_delta\<lparr>sd_tool_calls := Some tc\<rparr>) None]
          | None \<Rightarrow> []) @
         [chunk_payload h no_delta (Some finish)])"

definition v1_sse_error :: "StreamEnv \<Rightarrow> HiggsError \<Rightarrow> payload" where
  "v1_sse_error env e = ErrorPayload (v1_envelope_for (se_display env) e)"

text \<open>\<open>assemble\<close>; \<open>overflow\<close> is the byte count of a queue whose cap was hit.\<close>

definition assemble ::
  "StreamEnv \<Rightarrow> StreamHead \<Rightarrow> bool \<Rightarrow> polled list \<Rightarrow> nat option \<Rightarrow> payload list option" where
  "assemble env h include_usage polls overflow =
     (let first = chunk_payload h (no_delta\<lparr>sd_role := Some ''assistant''\<rparr>) None
      in case drain_deltas env h polls ([first], False) of
           None \<Rightarrow> None
         | Some (j, ps, streamed) \<Rightarrow>
             Some (ps @
               (case overflow of
                  Some n \<Rightarrow> [v1_sse_error env (ChatStreamOverflow n)]
                | None \<Rightarrow>
                    (case j of
                       Inr (Inr out) \<Rightarrow>
                         emit_outcome env h out streamed @
                         (if include_usage
                          then [usage_payload h (co_prompt_tokens out) (co_completion_tokens out)] else [])
                     | Inr (Inl err) \<Rightarrow> [v1_sse_error env err]
                     | Inl e \<Rightarrow> [v1_sse_error env (ChatTaskFailed e)])) @
               [DonePayload]))"

subsection \<open>The protocol\<close>

text \<open>The deltas a poll sequence delivers, and the outcome it ends with.\<close>

fun deltas_of :: "polled list \<Rightarrow> ChatDelta list" where
  "deltas_of [] = []"
| "deltas_of (GotDelta d # ps) = d # deltas_of ps"
| "deltas_of (QueueEnded j # ps) = []"
| "deltas_of (OutcomeReady rest j # ps) = rest"

fun outcome_of :: "polled list \<Rightarrow> joined option" where
  "outcome_of [] = None"
| "outcome_of (GotDelta d # ps) = outcome_of ps"
| "outcome_of (QueueEnded j # ps) = Some j"
| "outcome_of (OutcomeReady rest j # ps) = Some j"

definition delta_payloads :: "StreamEnv \<Rightarrow> StreamHead \<Rightarrow> ChatDelta list \<Rightarrow> payload list" where
  "delta_payloads env h ds = map (\<lambda>c. chunk_payload h c None) (List.map_filter (delta_chunk env) ds)"

text \<open>A fragment that was sent.\<close>

definition fragment_sent :: "StreamEnv \<Rightarrow> ChatDelta list \<Rightarrow> bool" where
  "fragment_sent env ds \<longleftrightarrow> list_ex (\<lambda>d. kind d = ToolCall \<and> delta_chunk env d \<noteq> None) ds"

lemma delta_payloads_simps [simp]:
  "delta_payloads env h [] = []"
  "delta_payloads env h (d # ds) =
     (case delta_chunk env d of None \<Rightarrow> [] | Some c \<Rightarrow> [chunk_payload h c None]) @ delta_payloads env h ds"
  by (simp_all add: delta_payloads_def List.map_filter_simps split: option.split)

lemma fragment_sent_simps [simp]:
  "\<not> fragment_sent env []"
  "fragment_sent env (d # ds) \<longleftrightarrow> kind d = ToolCall \<and> delta_chunk env d \<noteq> None \<or> fragment_sent env ds"
  by (simp_all add: fragment_sent_def)

lemma fold_emit:
  "fold (emit_delta env h) ds (ps, b) = (ps @ delta_payloads env h ds, b \<or> fragment_sent env ds)"
  by (induction ds arbitrary: ps b) (auto simp: emit_delta_def split: option.split)

lemma drain_all:
  "drain_deltas env h polls (ps, b) =
     map_option (\<lambda>j. (j, ps @ delta_payloads env h (deltas_of polls), b \<or> fragment_sent env (deltas_of polls)))
       (outcome_of polls)"
proof (induction polls arbitrary: ps b)
  case (Cons p polls)
  then show ?case
    by (cases p; cases "outcome_of polls") (auto simp: emit_delta_def fold_emit split: option.split)
qed simp

text \<open>How a stream closes, before its end mark.\<close>

definition closing :: "StreamEnv \<Rightarrow> StreamHead \<Rightarrow> bool \<Rightarrow> bool \<Rightarrow> nat option \<Rightarrow> joined \<Rightarrow> payload list" where
  "closing env h include_usage streamed overflow j =
     (case overflow of
        Some n \<Rightarrow> [v1_sse_error env (ChatStreamOverflow n)]
      | None \<Rightarrow>
          (case j of
             Inr (Inr out) \<Rightarrow>
               emit_outcome env h out streamed @
               (if include_usage then [usage_payload h (co_prompt_tokens out) (co_completion_tokens out)] else [])
           | Inr (Inl err) \<Rightarrow> [v1_sse_error env err]
           | Inl e \<Rightarrow> [v1_sse_error env (ChatTaskFailed e)]))"

lemma assemble_eq:
  "assemble env h u polls overflow =
     map_option (\<lambda>j. chunk_payload h (no_delta\<lparr>sd_role := Some ''assistant''\<rparr>) None #
         delta_payloads env h (deltas_of polls) @
         closing env h u (fragment_sent env (deltas_of polls)) overflow j @ [DonePayload]) (outcome_of polls)"
  by (cases "outcome_of polls") (auto simp: assemble_def drain_all closing_def)

text \<open>What a client can rely on: a finish reason ends the chunks.\<close>

fun finish_of :: "payload list \<Rightarrow> FinishReason list" where
  "finish_of [] = []"
| "finish_of (ChunkPayload h d (Some f) # ps) = f # finish_of ps"
| "finish_of (_ # ps) = finish_of ps"

fun errors_of :: "payload list \<Rightarrow> ApiError list" where
  "errors_of [] = []"
| "errors_of (ErrorPayload e # ps) = e # errors_of ps"
| "errors_of (_ # ps) = errors_of ps"

fun tool_chunks :: "payload list \<Rightarrow> ToolCallChunk list" where
  "tool_chunks [] = []"
| "tool_chunks (ChunkPayload h d f # ps) = unwrap_or [] (sd_tool_calls d) @ tool_chunks ps"
| "tool_chunks (_ # ps) = tool_chunks ps"

fun content_of :: "payload list \<Rightarrow> string" where
  "content_of [] = []"
| "content_of (ChunkPayload h d f # ps) = unwrap_or [] (sd_content d) @ content_of ps"
| "content_of (_ # ps) = content_of ps"

lemma readers_append [simp]:
  "finish_of (ps @ qs) = finish_of ps @ finish_of qs" "errors_of (ps @ qs) = errors_of ps @ errors_of qs"
  "tool_chunks (ps @ qs) = tool_chunks ps @ tool_chunks qs" "content_of (ps @ qs) = content_of ps @ content_of qs"
  by (induction ps rule: finish_of.induct; simp)+

lemma delta_readers [simp]:
  "finish_of (delta_payloads env h ds) = []" "errors_of (delta_payloads env h ds) = []"
  by (induction ds) (auto simp: chunk_payload_def split: option.split)

lemma delta_content: "content_of (delta_payloads env h ds) = concat (map delta_text (filter (\<lambda>d. kind d = Content) ds))"
proof (induction ds)
  case (Cons d ds)
  then show ?case
    by (cases "kind d") (auto simp: delta_chunk_def chunk_payload_def no_delta_def split: option.split)
qed simp

lemma delta_tools: "tool_chunks (delta_payloads env h ds) = [] \<longleftrightarrow> \<not> fragment_sent env ds"
proof (induction ds)
  case (Cons d ds)
  then show ?case
    by (cases "kind d") (auto simp: delta_chunk_def chunk_payload_def no_delta_def split: option.split)
qed simp

text \<open>C10. Every stream follows the protocol: the role first, then the accepted deltas in the order
  they came, none lost and none reordered, and it closes with the end mark after exactly one
  finish reason, when the generation ended well and no delta was dropped, or else exactly
  one error; the text a client puts together is the content the queue delivered.\<close>

theorem stream_follows_protocol:
  "case assemble env h u polls overflow of
     None \<Rightarrow> outcome_of polls = None
   | Some ps \<Rightarrow>
       (\<exists>tail j. outcome_of polls = Some j \<and>
          ps = chunk_payload h (no_delta\<lparr>sd_role := Some ''assistant''\<rparr>) None #
               delta_payloads env h (deltas_of polls) @ tail @ [DonePayload] \<and>
          DonePayload \<notin> set tail \<and>
          (if overflow = None \<and> (\<exists>out. j = Inr (Inr out))
           then length (finish_of ps) = 1 \<and> errors_of ps = []
           else finish_of ps = [] \<and> length (errors_of ps) = 1)) \<and>
       content_of ps = concat (map delta_text (filter (\<lambda>d. kind d = Content) (deltas_of polls)))"
proof (cases "outcome_of polls")
  case (Some j)
  let ?t = "closing env h u (fragment_sent env (deltas_of polls)) overflow j"
  have t: "DonePayload \<notin> set ?t" "content_of ?t = []"
    "if overflow = None \<and> (\<exists>out. j = Inr (Inr out)) then length (finish_of ?t) = 1 \<and> errors_of ?t = []
     else finish_of ?t = [] \<and> length (errors_of ?t) = 1"
    by (auto simp: closing_def emit_outcome_def v1_sse_error_def chunk_payload_def usage_payload_def no_delta_def Let_def
        split: option.split sum.split)
  then show ?thesis
    by (auto simp: assemble_eq Some delta_content chunk_payload_def no_delta_def)
qed (simp add: assemble_eq)

text \<open>A client never learns of tool calls without their data: a stream that finishes with
  \<open>tool_calls\<close> has sent at least one tool-call chunk, either fragments as they came or the calls
  of the final message.\<close>

theorem tool_calls_have_data:
  "case assemble env h u polls overflow of
     None \<Rightarrow> True
   | Some ps \<Rightarrow> \<not> (finish_of ps = [ToolCalls] \<and> tool_chunks ps = [])"
proof (cases "outcome_of polls")
  case (Some j)
  let ?b = "fragment_sent env (deltas_of polls)"
  have "finish_of (closing env h u ?b overflow j) = [ToolCalls] \<Longrightarrow> \<not> ?b \<Longrightarrow>
      tool_chunks (closing env h u ?b overflow j) \<noteq> []"
    by (auto simp: closing_def emit_outcome_def v1_sse_error_def chunk_payload_def usage_payload_def no_delta_def Let_def
        interpret_tool_calls_def stream_tool_calls_def opt_filter_def is_some_def finish_reason_from_def enumerate_eq_zip
        split: option.splits sum.splits if_splits)
  then show ?thesis
    by (auto simp: assemble_eq Some chunk_payload_def no_delta_def delta_tools)
qed (simp add: assemble_eq)

text \<open>The finish reason of a stream is the one of the plain response for the same outcome, unless
  fragments of a tool call were streamed which the final message does not have.\<close>

theorem finish_reason_parity:
  assumes "assemble env h u polls None = Some ps" "outcome_of polls = Some (Inr (Inr out))"
  shows "finish_of ps = [rr_finish_reason (chat_response (se_calls env) i t m out)] \<longleftrightarrow>
    \<not> (fragment_sent env (deltas_of polls) \<and> interpret_tool_calls (se_calls env) (co_tool_calls out) = None)"
proof -
  have "finish_of ps = finish_of (closing env h u (fragment_sent env (deltas_of polls)) None (Inr (Inr out)))"
    using assms by (auto simp: assemble_eq chunk_payload_def)
  then show ?thesis
    by (auto simp: closing_def emit_outcome_def chunk_payload_def usage_payload_def chat_response_def Let_def
        is_some_def finish_reason_from_def split: option.split)
qed

definition demo_env :: StreamEnv where
  "demo_env =
     \<lparr>se_fragment = (\<lambda>s. Some \<lparr>tc_index = 0, tc_id = None, tc_type = None, tc_function = None\<rparr>),
      se_calls = (\<lambda>j. None), se_display = error_code\<rparr>"

definition demo_outcome :: ChatOutcome where
  "demo_outcome =
     \<lparr>co_content = ''hi'', co_finish_reason = ''stop'', co_tool_calls = None, co_reasoning_content = None,
      co_prompt_tokens = 3, co_completion_tokens = 2\<rparr>"

definition demo_head :: StreamHead where
  "demo_head = \<lparr>sh_id = ''c'', sh_model = ''m'', sh_created = 0\<rparr>"

theorem finish_reason_parity_witness:
  "finish_of (the (assemble demo_env demo_head False
       [OutcomeReady [\<lparr>kind = ToolCall, delta_text = ''x''\<rparr>] (Inr (Inr demo_outcome))] None)) \<noteq>
     [rr_finish_reason (chat_response (se_calls demo_env) [] 0 [] demo_outcome)]"
  using finish_reason_parity [of demo_env demo_head False
      "[OutcomeReady [\<lparr>kind = ToolCall, delta_text = ''x''\<rparr>] (Inr (Inr demo_outcome))]" _ demo_outcome "[]" 0 "[]"]
  by (simp add: assemble_eq interpret_tool_calls_def delta_chunk_def demo_env_def demo_outcome_def)

end
