(* ===== verification/Ledger.thy ===== *)
theory Ledger
  imports Interfaces Diagnostics "HOL-Library.Multiset"
begin

text \<open>
  \<open>src/catalog/ledger.rs\<close>: the downloads ledger of one models root. \<open>Ledger\<close> holds the file,
  the queue of terminals whose write failed, and the keys this process has claimed (the two
  process-global sets of the code). One pass of \<open>with_ledger\<close> runs under the file lock, so it
  is one step; how its input and output fare is an argument (\<open>pass_io\<close>), as is what the
  process sees of the machine (\<open>Env\<close>): its own pid, one clock reading per pass, the
  processes and the download locks. The JSON encoding is not modelled.
\<close>

subsection \<open>Rows\<close>

datatype LedgerStatus = Downloading | DoneStatus | FailedStatus | CancelledStatus

record Entry =
  e_repo :: string
  e_file :: string
  e_pid :: u32
  e_pid_started :: "u64 option"
  e_started :: u64
  e_downloaded :: u64
  e_total :: "u64 option"
  e_status :: LedgerStatus
  e_ended :: "u64 option"
  e_path :: "string option"
  e_detail :: "string option"

datatype LedgerEnd = EndDone string | EndFailed string | EndCancelled

record PendingTerminal =
  p_repo :: string
  p_file :: string
  p_end :: LedgerEnd
  p_counters :: "(u64 \<times> u64 option) option"
  p_ended :: u64
  p_pid :: u32

record Env =
  own :: u32
  now :: u64
  signalable :: "u32 \<Rightarrow> bool"
  pid_start_time :: "u32 \<Rightarrow> u64 option"
  key_stale :: "string \<Rightarrow> string \<Rightarrow> bool"
  key_lock_file :: "string \<Rightarrow> string \<Rightarrow> bool"

definition MAX_TERMINAL_ENTRIES :: nat where "MAX_TERMINAL_ENTRIES = 50"

definition LOCKLESS_ROW_MAX_AGE_MS :: u64 where "LOCKLESS_ROW_MAX_AGE_MS = 86400000"

text \<open>A pid that is no positive 32-bit signed number is dead and never probed.\<close>

definition pid_alive :: "Env \<Rightarrow> u32 \<Rightarrow> bool" where
  "pid_alive env pid \<longleftrightarrow> 0 < pid \<and> unat pid < 2 ^ 31 \<and> signalable env pid"

definition entry_process_alive :: "Env \<Rightarrow> Entry \<Rightarrow> bool" where
  "entry_process_alive env e \<longleftrightarrow>
     pid_alive env (e_pid e) \<and>
     (case (e_pid_started e, pid_start_time env (e_pid e)) of
        (Some recorded, Some current) \<Rightarrow> recorded = current
      | _ \<Rightarrow> True)"

definition live_row :: "u32 \<Rightarrow> string \<Rightarrow> string \<Rightarrow> Entry \<Rightarrow> bool" where
  "live_row pid repo file e \<longleftrightarrow>
     e_status e = Downloading \<and> e_pid e = pid \<and> e_repo e = repo \<and> e_file e = file"

definition end_entry :: "LedgerEnd \<Rightarrow> (u64 \<times> u64 option) option \<Rightarrow> u64 \<Rightarrow> Entry \<Rightarrow> Entry" where
  "end_entry fin counters at e =
     (let e = e\<lparr>e_ended := Some at\<rparr>;
          e = (case counters of None \<Rightarrow> e | Some (d, t) \<Rightarrow> e\<lparr>e_downloaded := d, e_total := t\<rparr>)
      in case fin of
           EndDone path \<Rightarrow> e\<lparr>e_status := DoneStatus, e_path := Some path\<rparr>
         | EndFailed detail \<Rightarrow> e\<lparr>e_status := FailedStatus, e_detail := Some detail\<rparr>
         | EndCancelled \<Rightarrow> e\<lparr>e_status := CancelledStatus\<rparr>)"

subsection \<open>One pass\<close>

datatype ledger_file = Missing | Corrupt | Rows "Entry list"

record Ledger =
  disk :: ledger_file
  pending :: "PendingTerminal list"
  active :: "(string \<times> string) list"

datatype pass_io = PassOk | LockFails | ReadFails | WriteFails
datatype ledger_io = Refused HiggsError | Io

definition rows :: "ledger_file \<Rightarrow> Entry list" where
  "rows f = (case f of Rows es \<Rightarrow> es | _ \<Rightarrow> [])"

text \<open>The drain: rows, applied terminals, terminals without a row.\<close>

fun drain ::
  "u32 \<Rightarrow> PendingTerminal list \<Rightarrow> Entry list \<Rightarrow>
   Entry list \<times> PendingTerminal list \<times> PendingTerminal list" where
  "drain pid [] es = (es, [], [])"
| "drain pid (p # ps) es =
     (if p_pid p \<noteq> pid then drain pid ps es
      else if list_ex (live_row pid (p_repo p) (p_file p)) es then
        (case drain pid ps (update_first (live_row pid (p_repo p) (p_file p))
                              (end_entry (p_end p) (p_counters p) (p_ended p)) es) of
           (es', a, m) \<Rightarrow> (es', p # a, m))
      else
        (case drain pid ps es of (es', a, m) \<Rightarrow> (es', a, p # m)))"

definition same_terminal :: "PendingTerminal \<Rightarrow> PendingTerminal \<Rightarrow> bool" where
  "same_terminal p q \<longleftrightarrow> p_repo p = p_repo q \<and> p_file p = p_file q \<and> p_ended p = p_ended q"

definition unqueue :: "u32 \<Rightarrow> PendingTerminal list \<Rightarrow> PendingTerminal list \<Rightarrow> PendingTerminal list" where
  "unqueue pid done ps = filter (\<lambda>p. \<not> (p_pid p = pid \<and> list_ex (\<lambda>q. same_terminal q p) done)) ps"

definition stale_row :: "Env \<Rightarrow> Entry \<Rightarrow> bool" where
  "stale_row env e \<longleftrightarrow>
     e_status e = Downloading \<and>
     (\<not> entry_process_alive env e \<or> key_stale env (e_repo e) (e_file e) \<or>
      (\<not> key_lock_file env (e_repo e) (e_file e) \<and>
       LOCKLESS_ROW_MAX_AGE_MS < sat_sub (now env) (e_started e)))"

definition sweep_row :: "Env \<Rightarrow> Entry \<Rightarrow> Entry" where
  "sweep_row env e =
     (if stale_row env e then
        e\<lparr>e_status := FailedStatus, e_ended := Some (now env),
          e_detail := Some
            (if \<not> entry_process_alive env e then ''downloader process exited''
             else if key_stale env (e_repo e) (e_file e)
               then ''downloader released the machine lock without recording a terminal''
             else ''stale lockless entry (pre-lock build or interrupted writer)'')\<rparr>
      else e)"

definition row_key :: "Entry \<Rightarrow> string \<times> string \<times> u64" where
  "row_key e = (e_repo e, e_file e, e_started e)"

definition terminal :: "Entry \<Rightarrow> bool" where
  "terminal e \<longleftrightarrow> e_status e \<noteq> Downloading"

text \<open>Newest first: a stable sort by the reversed time of the end.\<close>

definition newest_first :: "Entry list \<Rightarrow> Entry list" where
  "newest_first es = sort_key (\<lambda>e. - uint (unwrap_or 0 (e_ended e))) es"

definition prune :: "Entry list \<Rightarrow> Entry list" where
  "prune es =
     (let ts = filter terminal es in
      if length ts > MAX_TERMINAL_ENTRIES then
        let cutoff = map row_key (drop MAX_TERMINAL_ENTRIES (newest_first ts)) in
        filter (\<lambda>e. \<not> terminal e \<or> row_key e \<notin> set cutoff) es
      else es)"

definition with_ledger ::
  "Env \<Rightarrow> pass_io \<Rightarrow> (Entry list \<Rightarrow> HiggsError + 'a \<times> bool \<times> Entry list) \<Rightarrow> Ledger \<Rightarrow>
   (ledger_io + 'a) \<times> Ledger" where
  "with_ledger env io mutate s =
     (if io = LockFails \<or> io = ReadFails then (Inl Io, s)
      else
        let (es, applied, missing) = drain (own env) (pending s) (rows (disk s));
            s = s\<lparr>pending := unqueue (own env) missing (pending s)\<rparr>;
            swept = (applied \<noteq> [] \<or> list_ex (stale_row env) es)
        in case mutate (map (sweep_row env) es) of
             Inl e \<Rightarrow> (Inl (Refused e), s)
           | Inr (v, mutated, es) \<Rightarrow>
               if mutated \<or> swept then
                 if io = WriteFails then (Inl Io, s)
                 else (Inr v, s\<lparr>disk := Rows (prune es),
                                pending := unqueue (own env) applied (pending s)\<rparr>)
               else (Inr v, s))"

subsection \<open>Operations\<close>

definition purge :: "Env \<Rightarrow> string \<Rightarrow> string \<Rightarrow> Entry list \<Rightarrow> Entry list" where
  "purge env repo file es =
     filter (\<lambda>e. \<not> (e_status e = Downloading \<and> e_repo e = repo \<and> e_file e = file \<and>
                     (e_pid e = own env \<or> \<not> entry_process_alive env e))) es"

definition new_row :: "Env \<Rightarrow> string \<Rightarrow> string \<Rightarrow> Entry" where
  "new_row env repo file =
     \<lparr>e_repo = repo, e_file = file, e_pid = own env,
      e_pid_started = pid_start_time env (own env), e_started = now env, e_downloaded = 0,
      e_total = None, e_status = Downloading, e_ended = None, e_path = None, e_detail = None\<rparr>"

definition claim_start ::
  "Env \<Rightarrow> pass_io \<Rightarrow> string \<times> string \<Rightarrow> Ledger \<Rightarrow> (HiggsError + unit) \<times> Ledger" where
  "claim_start env io key s =
     (let (repo, file) = key in
      if key \<in> set (active s) then (Inl (DownloadInFlight repo file), s)
      else
        case with_ledger env io
               (\<lambda>es. Inr ((), True, purge env repo file es @ [new_row env repo file]))
               (s\<lparr>active := key # active s\<rparr>) of
          (Inl (Refused e), s) \<Rightarrow> (Inl e, s\<lparr>active := removeAll key (active s)\<rparr>)
        | (_, s) \<Rightarrow> (Inr (), s))"

definition update_own ::
  "Env \<Rightarrow> string \<Rightarrow> string \<Rightarrow> (Entry \<Rightarrow> Entry) \<Rightarrow> Entry list \<Rightarrow> 'e + unit \<times> bool \<times> Entry list" where
  "update_own env repo file f es =
     (if list_ex (live_row (own env) repo file) es
      then Inr ((), True, update_first (live_row (own env) repo file) f es)
      else Inr ((), False, es))"

definition record_progress ::
  "Env \<Rightarrow> pass_io \<Rightarrow> string \<Rightarrow> string \<Rightarrow> u64 \<Rightarrow> u64 option \<Rightarrow> Ledger \<Rightarrow> Ledger" where
  "record_progress env io repo file n t s =
     snd (with_ledger env io
            (update_own env repo file (\<lambda>e. e\<lparr>e_downloaded := n, e_total := t\<rparr>)) s)"

definition record_end ::
  "Env \<Rightarrow> pass_io \<Rightarrow> string \<Rightarrow> string \<Rightarrow> LedgerEnd \<Rightarrow> (u64 \<times> u64 option) option \<Rightarrow> Ledger \<Rightarrow> Ledger" where
  "record_end env io repo file fin counters s =
     (case with_ledger env io (update_own env repo file (end_entry fin counters (now env))) s of
        (Inl Io, s) \<Rightarrow>
          s\<lparr>pending := pending s @
             [\<lparr>p_repo = repo, p_file = file, p_end = fin, p_counters = counters,
               p_ended = now env, p_pid = own env\<rparr>]\<rparr>
      | (_, s) \<Rightarrow> s)"

text \<open>\<open>LedgerClaim::end\<close>, and its drop without an end.\<close>

definition end_claim ::
  "Env \<Rightarrow> pass_io \<Rightarrow> LedgerEnd \<Rightarrow> (u64 \<times> u64 option) option \<Rightarrow> string \<times> string \<Rightarrow> Ledger \<Rightarrow> Ledger" where
  "end_claim env io fin counters key s =
     (let s = record_end env io (fst key) (snd key) fin counters s in
      s\<lparr>active := removeAll key (active s)\<rparr>)"

definition drop_claim :: "Env \<Rightarrow> pass_io \<Rightarrow> string \<times> string \<Rightarrow> Ledger \<Rightarrow> Ledger" where
  "drop_claim env io key s = end_claim env io EndCancelled None key s"

text \<open>The newest of the candidates: \<open>max_by_key\<close> over positions.\<close>

definition newest_index :: "('a \<Rightarrow> bool) \<Rightarrow> ('a \<Rightarrow> u64) \<Rightarrow> 'a list \<Rightarrow> nat option" where
  "newest_index p k xs =
     max_by_key (\<lambda>i. unat (k (xs ! i))) (filter (\<lambda>i. p (xs ! i)) [0 ..< length xs])"

definition flip_pending :: "u32 \<Rightarrow> string \<Rightarrow> string \<Rightarrow> u64 \<Rightarrow> PendingTerminal list \<Rightarrow> PendingTerminal list" where
  "flip_pending pid repo file since ps =
     (case newest_index
             (\<lambda>p. p_pid p = pid \<and> p_repo p = repo \<and> p_file p = file \<and> since \<le> p_ended p \<and>
                  (case p_end p of EndFailed _ \<Rightarrow> True | _ \<Rightarrow> False))
             p_ended ps of
        None \<Rightarrow> ps
      | Some i \<Rightarrow> ps[i := (ps ! i)\<lparr>p_end := EndCancelled\<rparr>])"

definition flip_failed :: "u32 \<Rightarrow> string \<Rightarrow> string \<Rightarrow> u64 \<Rightarrow> Entry list \<Rightarrow> 'e + unit \<times> bool \<times> Entry list" where
  "flip_failed pid repo file since es =
     (case newest_index
             (\<lambda>e. e_pid e = pid \<and> e_repo e = repo \<and> e_file e = file \<and>
                  e_status e = FailedStatus \<and> since \<le> unwrap_or 0 (e_ended e))
             (\<lambda>e. unwrap_or 0 (e_ended e)) es of
        None \<Rightarrow> Inr ((), False, es)
      | Some i \<Rightarrow> Inr ((), True, es[i := (es ! i)\<lparr>e_status := CancelledStatus, e_detail := None\<rparr>]))"

definition overwrite_last_failed_to_cancelled ::
  "Env \<Rightarrow> pass_io \<Rightarrow> string \<Rightarrow> string \<Rightarrow> u64 \<Rightarrow> Ledger \<Rightarrow> Ledger" where
  "overwrite_last_failed_to_cancelled env io repo file since s =
     snd (with_ledger env io (flip_failed (own env) repo file since)
            (s\<lparr>pending := flip_pending (own env) repo file since (pending s)\<rparr>))"

definition read_pass :: "Env \<Rightarrow> pass_io \<Rightarrow> Ledger \<Rightarrow> (ledger_io + Entry list) \<times> Ledger" where
  "read_pass env io s = with_ledger env io (\<lambda>es. Inr (es, False, es)) s"

text \<open>Live rows first, then terminals, newest end first.\<close>

definition read_all :: "Env \<Rightarrow> pass_io \<Rightarrow> Ledger \<Rightarrow> Entry list \<times> Ledger" where
  "read_all env io s =
     (case read_pass env io s of
        (Inr es, s) \<Rightarrow>
          (let key = (\<lambda>e. - uint (unwrap_or (- 1) (e_ended e))) in
           (sort_key key (filter (\<lambda>e. \<not> terminal e) es) @ sort_key key (filter terminal es), s))
      | (Inl _, s) \<Rightarrow> ([], s))"

definition read_live :: "Env \<Rightarrow> pass_io \<Rightarrow> Ledger \<Rightarrow> Entry list \<times> Ledger" where
  "read_live env io s =
     (case read_all env io s of (es, s) \<Rightarrow> (filter (\<lambda>e. \<not> terminal e) es, s))"


text \<open>
  Several processes share the file; each has its own queue and its own claims. An event is an
  operation of the process \<open>own env\<close>.
\<close>

datatype LedgerOp =
    ClaimStart "string \<times> string"
  | Progress string string u64 "u64 option"
  | EndClaim LedgerEnd "(u64 \<times> u64 option) option" "string \<times> string"
  | DropClaim "string \<times> string"
  | OverwriteFailed string string u64
  | ReadAll

fun ledger_op :: "Env \<Rightarrow> pass_io \<Rightarrow> LedgerOp \<Rightarrow> Ledger \<Rightarrow> Ledger" where
  "ledger_op env io (ClaimStart key) s = snd (claim_start env io key s)"
| "ledger_op env io (Progress repo file n t) s = record_progress env io repo file n t s"
| "ledger_op env io (EndClaim fin c key) s = end_claim env io fin c key s"
| "ledger_op env io (DropClaim key) s = drop_claim env io key s"
| "ledger_op env io (OverwriteFailed repo file since) s =
     overwrite_last_failed_to_cancelled env io repo file since s"
| "ledger_op env io ReadAll s = snd (read_all env io s)"

type_synonym machine = "ledger_file \<times> (u32 \<Rightarrow> PendingTerminal list \<times> (string \<times> string) list)"

definition view :: "u32 \<Rightarrow> machine \<Rightarrow> Ledger" where
  "view pid m = \<lparr>disk = fst m, pending = fst (snd m pid), active = snd (snd m pid)\<rparr>"

fun machine_step :: "machine \<Rightarrow> Env \<times> pass_io \<times> LedgerOp \<Rightarrow> machine" where
  "machine_step m (env, io, opn) =
     (let s = ledger_op env io opn (view (own env) m) in
      (disk s, (snd m)(own env := (pending s, active s))))"

definition machine_run :: "machine \<Rightarrow> (Env \<times> pass_io \<times> LedgerOp) list \<Rightarrow> machine" where
  "machine_run m evs = foldl machine_step m evs"

definition fresh_machine :: machine where
  "fresh_machine = (Missing, \<lambda>_. ([], []))"

subsection \<open>At most one live row per process and key\<close>

definition own_live :: "u32 \<Rightarrow> Entry \<Rightarrow> bool" where
  "own_live pid e \<longleftrightarrow> e_status e = Downloading \<and> e_pid e = pid"

definition e_key :: "Entry \<Rightarrow> string \<times> string" where
  "e_key e = (e_repo e, e_file e)"

definition one_own :: "u32 \<Rightarrow> Entry list \<Rightarrow> bool" where
  "one_own pid es \<longleftrightarrow> distinct (map e_key (filter (own_live pid) es))"

text \<open>An edit of a row keeps its key and wakes no ended row.\<close>

definition tame :: "u32 \<Rightarrow> Entry \<Rightarrow> Entry \<Rightarrow> bool" where
  "tame pid x y \<longleftrightarrow> e_key y = e_key x \<and> (own_live pid y \<longrightarrow> own_live pid x)"

lemma live_row_iff: "live_row pid r f e \<longleftrightarrow> own_live pid e \<and> e_key e = (r, f)"
  by (auto simp: live_row_def own_live_def e_key_def)

lemma tame_refl [simp]: "tame pid x x"
  by (simp add: tame_def)

lemma tames_refl [simp]: "list_all2 (tame pid) es es"
  by (simp add: list_all2_refl)

lemma tames_trans:
  "list_all2 (tame pid) xs ys \<Longrightarrow> list_all2 (tame pid) ys zs \<Longrightarrow> list_all2 (tame pid) xs zs"
  using list_all2_trans [of "tame pid" "tame pid" "tame pid" xs ys zs] by (auto simp: tame_def)

lemma tames_keys:
  "list_all2 (tame pid) xs ys \<Longrightarrow>
     e_key ` set (filter (own_live pid) ys) \<subseteq> e_key ` set (filter (own_live pid) xs)"
  by (induction rule: list_all2_induct) (auto simp: tame_def)

lemma one_own_tames: "list_all2 (tame pid) xs ys \<Longrightarrow> one_own pid xs \<Longrightarrow> one_own pid ys"
proof (induction rule: list_all2_induct)
  case (Cons x xs y ys)
  then have "e_key ` set (filter (own_live pid) ys) \<subseteq> e_key ` set (filter (own_live pid) xs)"
    by (intro tames_keys)
  with Cons show ?case by (auto simp: one_own_def tame_def split: if_splits)
qed (simp add: one_own_def)

lemma no_live_tames:
  "list_all2 (tame pid) xs ys \<Longrightarrow> \<not> list_ex (live_row pid r f) xs \<Longrightarrow>
     \<not> list_ex (live_row pid r f) ys"
  by (induction rule: list_all2_induct) (auto simp: live_row_iff tame_def)

lemma tames_update_first:
  "(\<And>x. p x \<Longrightarrow> tame pid x (g x)) \<Longrightarrow> list_all2 (tame pid) es (update_first p g es)"
  by (induction es) (auto simp: list_all2_refl)

lemma tames_map: "(\<And>x. tame pid x (g x)) \<Longrightarrow> list_all2 (tame pid) es (map g es)"
  by (simp add: list_all2_conv_all_nth)

lemma tames_list_update: "tame pid (es ! i) x \<Longrightarrow> list_all2 (tame pid) es (es[i := x])"
  by (cases "i < length es") (auto simp: list_all2_conv_all_nth nth_list_update_if)

lemma one_own_filter: "one_own pid es \<Longrightarrow> one_own pid (filter p es)"
  by (induction es) (auto simp: one_own_def)

lemma tame_end_entry: "tame pid x (end_entry fin c at x)"
  by (auto simp: tame_def e_key_def own_live_def end_entry_def Let_def
      split: LedgerEnd.splits option.splits)

lemma tame_sweep_row: "tame pid x (sweep_row env x)"
  by (auto simp: tame_def e_key_def own_live_def sweep_row_def)

lemma not_live_end_entry: "\<not> live_row pid r f (end_entry fin c at x)"
  by (auto simp: live_row_def end_entry_def Let_def split: LedgerEnd.splits option.splits)

lemma tames_drain: "list_all2 (tame q) es (fst (drain pid ps es))"
proof (induction pid ps es rule: drain.induct)
  case (2 pid p ps es)
  let ?es = "update_first (live_row pid (p_repo p) (p_file p))
    (end_entry (p_end p) (p_counters p) (p_ended p)) es"
  have "list_all2 (tame q) es ?es"
    by (rule tames_update_first) (simp add: tame_end_entry)
  with 2 show ?case by (auto split: prod.splits dest: tames_trans)
qed simp

lemma drain_lists:
  "drain pid ps es = (es', a, m) \<Longrightarrow> set a \<union> set m = {p \<in> set ps. p_pid p = pid}"
  by (induction pid ps es arbitrary: es' a m rule: drain.induct)
    (fastforce split: if_splits prod.splits)+

lemma ended_row_gone:
  "one_own pid es \<Longrightarrow>
     \<not> list_ex (live_row pid r f) (update_first (live_row pid r f) (end_entry fin c at) es)"
proof (induction es)
  case (Cons e es)
  show ?case
  proof (cases "live_row pid r f e")
    case True
    with Cons.prems have "\<not> list_ex (live_row pid r f) es"
      by (auto simp: one_own_def live_row_iff list_ex_iff image_iff)
    with True show ?thesis by (simp add: not_live_end_entry)
  next
    case False
    with Cons show ?thesis by (auto simp: one_own_def split: if_splits)
  qed
qed simp

lemma drain_nothing: "drain pid ps es = (es', [], m) \<Longrightarrow> es' = es"
  by (induction pid ps es arbitrary: es' m rule: drain.induct) (auto split: if_splits prod.splits)

text \<open>After a drain no live row is left for any own terminal of the queue.\<close>

lemma drain_settles:
  "one_own pid es \<Longrightarrow> p \<in> set ps \<Longrightarrow> p_pid p = pid \<Longrightarrow>
     \<not> list_ex (live_row pid (p_repo p) (p_file p)) (fst (drain pid ps es))"
proof (induction pid ps es rule: drain.induct)
  case (2 pid q ps es)
  let ?es = "update_first (live_row pid (p_repo q) (p_file q))
    (end_entry (p_end q) (p_counters q) (p_ended q)) es"
  have one: "one_own pid ?es"
    by (rule one_own_tames [OF tames_update_first 2(4)]) (simp add: tame_end_entry)
  show ?case
  proof (cases "p = q")
    case True
    with 2 have "\<not> list_ex (live_row pid (p_repo q) (p_file q)) ?es"
      by (intro ended_row_gone)
    then have "\<not> list_ex (live_row pid (p_repo q) (p_file q)) (fst (drain pid ps ?es))"
      by (rule no_live_tames [OF tames_drain])
    moreover have "\<not> list_ex (live_row pid (p_repo q) (p_file q)) es \<Longrightarrow>
        \<not> list_ex (live_row pid (p_repo q) (p_file q)) (fst (drain pid ps es))"
      by (rule no_live_tames [OF tames_drain])
    ultimately show ?thesis using True 2(6) by (auto split: prod.splits)
  next
    case False
    with 2 one show ?thesis by (auto split: prod.splits)
  qed
qed simp


subsection \<open>What a pass keeps\<close>

text \<open>A property of the rows that edits and removals cannot break.\<close>

definition stable :: "u32 \<Rightarrow> (Entry list \<Rightarrow> bool) \<Rightarrow> bool" where
  "stable pid P \<longleftrightarrow>
     (\<forall>xs ys. list_all2 (tame pid) xs ys \<longrightarrow> P xs \<longrightarrow> P ys) \<and> (\<forall>p xs. P xs \<longrightarrow> P (filter p xs))"

lemma stableD:
  "stable pid P \<Longrightarrow> list_all2 (tame pid) xs ys \<Longrightarrow> P xs \<Longrightarrow> P ys"
  "stable pid P \<Longrightarrow> P xs \<Longrightarrow> P (filter p xs)"
  unfolding stable_def by blast+

lemma stable_one_own: "stable pid (one_own pid)"
  unfolding stable_def by (blast intro: one_own_tames one_own_filter)

lemma stable_no_live: "stable pid (\<lambda>es. \<not> list_ex (live_row pid r f) es)"
  unfolding stable_def
proof (intro conjI allI impI)
  fix xs ys assume "list_all2 (tame pid) xs ys" "\<not> list_ex (live_row pid r f) xs"
  then show "\<not> list_ex (live_row pid r f) ys" by (rule no_live_tames)
qed (auto simp: list_ex_iff)

lemma rows_simps [simp]: "rows Missing = []" "rows Corrupt = []" "rows (Rows es) = es"
  by (simp_all add: rows_def)

lemma prune_filter: "\<exists>p. prune es = filter p es"
  by (cases "length (filter terminal es) > MAX_TERMINAL_ENTRIES")
    (auto simp: prune_def Let_def intro: exI [of _ "\<lambda>_. True"])

lemma stable_prune: "stable pid P \<Longrightarrow> P es \<Longrightarrow> P (prune es)"
  using prune_filter [of es] by (auto dest: stableD(2))

lemma with_ledger_keeps:
  assumes P: "stable pid P" "P (rows (disk s))"
    and m: "\<And>es v b es'. P es \<Longrightarrow> mutate es = Inr (v, b, es') \<Longrightarrow> P es'"
  shows "P (rows (disk (snd (with_ledger env io mutate s))))"
proof (cases "io = LockFails \<or> io = ReadFails")
  case True
  with P show ?thesis by (auto simp: with_ledger_def)
next
  case False
  obtain es a ms where d: "drain (own env) (pending s) (rows (disk s)) = (es, a, ms)"
    by (cases "drain (own env) (pending s) (rows (disk s))")
  have "P es" using stableD(1) [OF P(1) tames_drain P(2)] d by (metis fst_conv)
  then have "P (map (sweep_row env) es)"
    by (rule stableD(1) [OF P(1) tames_map [OF tame_sweep_row]])
  then show ?thesis
    using False P d m stable_prune [OF P(1)]
    by (auto simp: with_ledger_def Let_def split: sum.split)
qed

lemma with_ledger_active [simp]: "active (snd (with_ledger env io mutate s)) = active s"
  by (auto simp: with_ledger_def Let_def split: prod.split sum.split)

lemma update_own_keeps:
  "stable pid P \<Longrightarrow> P es \<Longrightarrow> (\<And>x. tame pid x (g x)) \<Longrightarrow>
     update_own env r f g es = Inr (v, b, es') \<Longrightarrow> P es'"
  by (auto simp: update_own_def split: if_splits intro: stableD(1) [OF _ tames_update_first])

lemma tame_counters: "tame pid x (x\<lparr>e_downloaded := n, e_total := t\<rparr>)"
  by (simp add: tame_def e_key_def own_live_def)

lemma tame_flip: "tame pid x (x\<lparr>e_status := CancelledStatus, e_detail := None\<rparr>)"
  by (simp add: tame_def e_key_def own_live_def)

lemma flip_failed_keeps:
  "stable pid P \<Longrightarrow> P es \<Longrightarrow> flip_failed q r f since es = Inr (v, b, es') \<Longrightarrow> P es'"
  by (auto simp: flip_failed_def split: option.splits
      intro: stableD(1) [OF _ tames_list_update [OF tame_flip]])

lemma record_end_disk:
  "disk (record_end env io r f fin c s) =
     disk (snd (with_ledger env io (update_own env r f (end_entry fin c (now env))) s))"
  by (auto simp: record_end_def split: prod.split sum.split ledger_io.split)

lemma record_end_keeps:
  "stable pid P \<Longrightarrow> P (rows (disk s)) \<Longrightarrow> P (rows (disk (record_end env io r f fin c s)))"
  unfolding record_end_disk
  by (rule with_ledger_keeps, assumption, assumption) (erule (1) update_own_keeps, rule tame_end_entry)

lemma claim_start_disk:
  "disk (snd (claim_start env io key s)) =
     (if key \<in> set (active s) then disk s
      else disk (snd (with_ledger env io
             (\<lambda>es. Inr ((), True, purge env (fst key) (snd key) es @ [new_row env (fst key) (snd key)]))
             (s\<lparr>active := key # active s\<rparr>))))"
  by (auto simp: claim_start_def split: prod.split sum.split ledger_io.split)

lemma read_all_state: "snd (read_all env io s) = snd (read_pass env io s)"
  by (auto simp: read_all_def Let_def split: prod.split sum.split)

text \<open>Only a new row of a claim can break a stable property.\<close>

lemma ledger_op_keeps:
  assumes P: "stable pid P" "P (rows (disk s))"
    and new: "\<And>es r f. P es \<Longrightarrow> P (purge env r f es @ [new_row env r f])"
  shows "P (rows (disk (ledger_op env io opn s)))"
proof (cases opn)
  case (ClaimStart key)
  have "P (rows (disk (snd (with_ledger env io
         (\<lambda>es. Inr ((), True, purge env (fst key) (snd key) es @ [new_row env (fst key) (snd key)]))
         (s\<lparr>active := key # active s\<rparr>)))))"
    by (rule with_ledger_keeps [OF P(1)]) (use P new in auto)
  with ClaimStart P show ?thesis by (simp add: claim_start_disk)
next
  case (Progress r f n t)
  with P show ?thesis
    by (auto simp: record_progress_def intro!: with_ledger_keeps [OF P(1)]
        intro: update_own_keeps tame_counters)
next
  case (EndClaim fin c key)
  with record_end_keeps [OF P] show ?thesis by (simp add: end_claim_def Let_def)
next
  case (DropClaim key)
  with record_end_keeps [OF P] show ?thesis by (simp add: drop_claim_def end_claim_def Let_def)
next
  case (OverwriteFailed r f since)
  with P show ?thesis
    by (auto simp: overwrite_last_failed_to_cancelled_def intro!: with_ledger_keeps [OF P(1)]
        intro: flip_failed_keeps)
next
  case ReadAll
  with P show ?thesis
    by (auto simp: read_all_state read_pass_def intro!: with_ledger_keeps [OF P(1)])
qed

lemma new_row_live: "live_row pid r' f' (new_row env r f) \<longleftrightarrow> pid = own env \<and> r' = r \<and> f' = f"
  by (auto simp: live_row_def new_row_def)

lemma claim_keeps_one_own: "one_own pid es \<Longrightarrow> one_own pid (purge env r f es @ [new_row env r f])"
  using one_own_filter [of pid es]
  by (auto simp: one_own_def purge_def own_live_def e_key_def new_row_def)

lemma claim_keeps_no_live:
  "pid \<noteq> own env \<Longrightarrow> \<not> list_ex (live_row pid r' f') es \<Longrightarrow>
     \<not> list_ex (live_row pid r' f') (purge env r f es @ [new_row env r f])"
  by (auto simp: new_row_live purge_def list_ex_iff)


lemma machine_run_keeps:
  assumes "stable pid P" "P (rows (fst m))"
    and new: "\<And>env io opn es r f. (env, io, opn) \<in> set evs \<Longrightarrow> P es \<Longrightarrow>
      P (purge env r f es @ [new_row env r f])"
  shows "P (rows (fst (machine_run m evs)))"
  using assms(2) new
proof (induction evs arbitrary: m)
  case (Cons ev evs)
  obtain env io opn where ev: "ev = (env, io, opn)" by (cases ev)
  have "P (rows (disk (ledger_op env io opn (view (own env) m))))"
  proof (rule ledger_op_keeps [OF assms(1)])
    show "P (rows (disk (view (own env) m)))" using Cons.prems(1) by (simp add: view_def)
    show "P es \<Longrightarrow> P (purge env r f es @ [new_row env r f])" for es r f
      using Cons.prems(2) [of env io opn] ev by simp
  qed
  then have "P (rows (fst (machine_step m ev)))" using ev by (simp add: Let_def)
  with Cons show ?case by (fastforce simp: machine_run_def)
qed (simp add: machine_run_def)

lemma machine_one_own: "one_own pid (rows (fst (machine_run fresh_machine evs)))"
  by (rule machine_run_keeps [OF stable_one_own])
    (simp add: fresh_machine_def one_own_def, rule claim_keeps_one_own)

subsection \<open>Terminals are not lost\<close>

lemma with_ledger_fails:
  "with_ledger env io (update_own env r f g) s = (Inl e, s') \<Longrightarrow> e = Io"
  by (auto simp: with_ledger_def update_own_def Let_def split: prod.splits if_splits)

text \<open>An end either reaches the file or waits in the queue.\<close>

lemma record_end_settles:
  assumes "one_own (own env) (rows (disk s))"
  shows "\<not> list_ex (live_row (own env) r f) (rows (disk (record_end env io r f fin c s))) \<or>
    (\<exists>p \<in> set (pending (record_end env io r f fin c s)).
       p_pid p = own env \<and> p_repo p = r \<and> p_file p = f)"
proof (cases "with_ledger env io (update_own env r f (end_entry fin c (now env))) s")
  case (Pair res s')
  show ?thesis
  proof (cases res)
    case (Inl e)
    then have "e = Io" using Pair with_ledger_fails by blast
    with Pair Inl show ?thesis by (simp add: record_end_def)
  next
    case (Inr v)
    obtain es a ms where d: "drain (own env) (pending s) (rows (disk s)) = (es, a, ms)"
      by (cases "drain (own env) (pending s) (rows (disk s))")
    let ?es = "map (sweep_row env) es"
    let ?up = "update_first (live_row (own env) r f) (end_entry fin c (now env)) ?es"
    have "list_all2 (tame (own env)) (rows (disk s)) es"
      using tames_drain d by (metis fst_conv)
    then have tame: "list_all2 (tame (own env)) (rows (disk s)) ?es"
      by (rule tames_trans) (rule tames_map [OF tame_sweep_row])
    then have gone: "\<not> list_ex (live_row (own env) r f) ?up"
      by (intro ended_row_gone one_own_tames [OF _ assms])
    have "\<not> list_ex (live_row (own env) r f) (rows (disk s'))"
    proof (cases "list_ex (live_row (own env) r f) ?es")
      case True
      with Pair Inr d have "rows (disk s') = prune ?up"
        by (auto simp: with_ledger_def Let_def update_own_def split: if_splits)
      with gone show ?thesis using stable_prune [OF stable_no_live] by metis
    next
      case False
      have "disk s' = disk s \<and> a = [] \<and> \<not> list_ex (stale_row env) es \<or>
          rows (disk s') = prune ?es"
        using Pair Inr d False
        by (auto simp: with_ledger_def Let_def update_own_def split: if_splits)
      moreover have "\<not> list_ex (live_row (own env) r f) (prune ?es)"
        using False by (rule stable_prune [OF stable_no_live])
      moreover have "\<not> list_ex (live_row (own env) r f) (rows (disk s))"
        if "a = []" "\<not> list_ex (stale_row env) es"
      proof -
        have "?es = es" using that(2) by (intro map_idI) (auto simp: sweep_row_def list_ex_iff)
        moreover have "es = rows (disk s)" using drain_nothing d that(1) by blast
        ultimately show ?thesis using False by simp
      qed
      ultimately show ?thesis by auto
    qed
    with Pair Inr show ?thesis by (simp add: record_end_def)
  qed
qed


lemma read_pass_settles:
  assumes pass: "read_pass env PassOk s = (res, s')" and one: "one_own (own env) (rows (disk s))"
  shows "pending s' = filter (\<lambda>p. p_pid p \<noteq> own env) (pending s)"
    and "p \<in> set (pending s) \<Longrightarrow> p_pid p = own env \<Longrightarrow>
      \<not> list_ex (live_row (own env) (p_repo p) (p_file p)) (rows (disk s'))"
    and "\<not> list_ex (live_row (own env) r f) (rows (disk s)) \<Longrightarrow>
      \<not> list_ex (live_row (own env) r f) (rows (disk s'))"
proof -
  obtain es a ms where d: "drain (own env) (pending s) (rows (disk s)) = (es, a, ms)"
    by (cases "drain (own env) (pending s) (rows (disk s))")
  let ?es = "map (sweep_row env) es"
  have lists: "set a \<union> set ms = {p \<in> set (pending s). p_pid p = own env}"
    using drain_lists [OF d] .
  have s': "disk s' = disk s \<and> a = [] \<and> es = rows (disk s) \<or> rows (disk s') = prune ?es"
    using pass d drain_nothing [of "own env" "pending s" "rows (disk s)" es ms]
    by (auto simp: read_pass_def with_ledger_def Let_def split: if_splits)
  have q: "pending s' = unqueue (own env) a (unqueue (own env) ms (pending s)) \<or>
      a = [] \<and> pending s' = unqueue (own env) ms (pending s)"
    using pass d by (auto simp: read_pass_def with_ledger_def Let_def split: if_splits)
  have "unqueue (own env) a (unqueue (own env) ms (pending s)) =
      filter (\<lambda>p. p_pid p \<noteq> own env) (pending s)"
    using lists
    by (auto simp: unqueue_def list_ex_iff same_terminal_def intro!: filter_cong)
  moreover have "unqueue (own env) ms (pending s) = filter (\<lambda>p. p_pid p \<noteq> own env) (pending s)"
    if "a = []"
    using lists that by (auto simp: unqueue_def list_ex_iff same_terminal_def intro!: filter_cong)
  ultimately show "pending s' = filter (\<lambda>p. p_pid p \<noteq> own env) (pending s)"
    using q by metis
  have down: "\<not> list_ex (live_row (own env) r f) (rows (disk s'))"
    if "\<not> list_ex (live_row (own env) r f) es" for r f
  proof -
    have "\<not> list_ex (live_row (own env) r f) ?es"
      by (rule no_live_tames [OF tames_map [OF tame_sweep_row] that])
    then have "\<not> list_ex (live_row (own env) r f) (prune ?es)"
      by (rule stable_prune [OF stable_no_live])
    with s' that show ?thesis by auto
  qed
  show "\<not> list_ex (live_row (own env) (p_repo p) (p_file p)) (rows (disk s'))"
    if "p \<in> set (pending s)" "p_pid p = own env"
    using drain_settles [OF one that] d by (intro down) simp
  show "\<not> list_ex (live_row (own env) r f) (rows (disk s'))"
    if "\<not> list_ex (live_row (own env) r f) (rows (disk s))"
    using no_live_tames [OF tames_drain that] d by (intro down) (metis fst_conv)
qed

text \<open>The times at which a process ended its transfers of a key, and the times of the queued ends.\<close>

fun ends_key :: "string \<times> string \<Rightarrow> LedgerOp \<Rightarrow> bool" where
  "ends_key key (EndClaim _ _ key') = (key' = key)"
| "ends_key key (DropClaim key') = (key' = key)"
| "ends_key _ _ = False"

definition end_times :: "u32 \<Rightarrow> string \<times> string \<Rightarrow> (Env \<times> pass_io \<times> LedgerOp) list \<Rightarrow> u64 list" where
  "end_times pid key evs =
     map (\<lambda>(e, _, _). now e) (filter (\<lambda>(e, _, opn). own e = pid \<and> ends_key key opn) evs)"

definition queued_for :: "u32 \<Rightarrow> string \<times> string \<Rightarrow> PendingTerminal \<Rightarrow> bool" where
  "queued_for pid key p \<longleftrightarrow> p_pid p = pid \<and> p_repo p = fst key \<and> p_file p = snd key"

definition queue_times :: "u32 \<Rightarrow> string \<times> string \<Rightarrow> PendingTerminal list \<Rightarrow> u64 list" where
  "queue_times pid key ps = map p_ended (filter (queued_for pid key) ps)"

lemma end_times_append: "end_times pid key (xs @ ys) = end_times pid key xs @ end_times pid key ys"
  by (simp add: end_times_def)

lemma queue_times_append:
  "queue_times pid key (xs @ ys) = queue_times pid key xs @ queue_times pid key ys"
  by (simp add: queue_times_def)

lemma queue_times_filter:
  "mset (queue_times pid key (filter P ps)) \<subseteq># mset (queue_times pid key ps)"
proof -
  have "mset (filter (queued_for pid key) (filter P ps)) =
      filter_mset P (filter_mset (queued_for pid key) (mset ps))"
    by (simp add: filter_filter_mset conj_commute)
  then have "mset (filter (queued_for pid key) (filter P ps)) \<subseteq># mset (filter (queued_for pid key) ps)"
    by simp
  then show ?thesis by (simp only: queue_times_def mset_map image_mset_subseteq_mono)
qed

lemma queue_times_update:
  assumes "p_pid x = p_pid (ps ! i)" "p_repo x = p_repo (ps ! i)" "p_file x = p_file (ps ! i)"
    "p_ended x = p_ended (ps ! i)"
  shows "queue_times pid key (ps[i := x]) = queue_times pid key ps"
  using assms
  by (induction ps arbitrary: i)
    (auto simp: queue_times_def queued_for_def split: nat.splits)

lemma queue_times_flip: "queue_times pid key (flip_pending q r f since ps) = queue_times pid key ps"
  by (auto simp: flip_pending_def queue_times_update split: option.split)

lemma with_ledger_pending: "\<exists>P. pending (snd (with_ledger env io mutate s)) = filter P (pending s)"
proof -
  have [simp]: "\<exists>P. xs = filter P xs" for xs :: "PendingTerminal list"
    by (rule exI [of _ "\<lambda>_. True"]) simp
  show ?thesis
    by (auto simp: with_ledger_def Let_def unqueue_def split: prod.split sum.split)
qed

lemma with_ledger_times:
  "mset (queue_times pid key (pending (snd (with_ledger env io mutate s))))
     \<subseteq># mset (queue_times pid key (pending s))"
  using with_ledger_pending [of env io mutate s] queue_times_filter by metis

lemma record_end_pending:
  "pending (record_end env io r f fin c s) =
     pending (snd (with_ledger env io (update_own env r f (end_entry fin c (now env))) s)) \<or>
   pending (record_end env io r f fin c s) =
     pending (snd (with_ledger env io (update_own env r f (end_entry fin c (now env))) s)) @
       [\<lparr>p_repo = r, p_file = f, p_end = fin, p_counters = c, p_ended = now env, p_pid = own env\<rparr>]"
  by (auto simp: record_end_def split: prod.split sum.split ledger_io.split)

lemma record_end_times:
  "mset (queue_times pid key (pending (record_end env io r f fin c s)))
     \<subseteq># mset (queue_times pid key (pending s)) +
        (if own env = pid \<and> (r, f) = key then {#now env#} else {#})"
  using record_end_pending [of env io r f fin c s]
    with_ledger_times [of pid key env io "update_own env r f (end_entry fin c (now env))" s]
  by (auto simp: queue_times_append queue_times_def queued_for_def
      intro: subset_mset.order_trans subset_mset.add_increasing2)

lemma claim_start_pending:
  "pending (snd (claim_start env io key s)) =
     (if key \<in> set (active s) then pending s
      else pending (snd (with_ledger env io
             (\<lambda>es. Inr ((), True, purge env (fst key) (snd key) es @ [new_row env (fst key) (snd key)]))
             (s\<lparr>active := key # active s\<rparr>))))"
  by (auto simp: claim_start_def split: prod.split sum.split ledger_io.split)

lemma ledger_op_times:
  "mset (queue_times pid key (pending (ledger_op env io opn s)))
     \<subseteq># mset (queue_times pid key (pending s)) +
        (if own env = pid \<and> ends_key key opn then {#now env#} else {#})"
proof (cases opn)
  case (ClaimStart k)
  then show ?thesis
    using with_ledger_times [of pid key env io _ "s\<lparr>active := k # active s\<rparr>"]
    by (simp add: claim_start_pending) blast
next
  case (OverwriteFailed r f since)
  then show ?thesis
    using with_ledger_times [of pid key env io _ "s\<lparr>pending := flip_pending (own env) r f since (pending s)\<rparr>"]
    by (simp add: overwrite_last_failed_to_cancelled_def queue_times_flip)
next
  case (EndClaim fin c k)
  then show ?thesis
    using record_end_times [of pid key env io "fst k" "snd k" fin c s]
    by (auto simp: end_claim_def Let_def split: if_splits)
next
  case (DropClaim k)
  then show ?thesis
    using record_end_times [of pid key env io "fst k" "snd k" EndCancelled None s]
    by (auto simp: drop_claim_def end_claim_def Let_def split: if_splits)
qed (simp_all add: record_progress_def read_all_state read_pass_def with_ledger_times)

lemma machine_times:
  "mset (queue_times pid key (fst (snd (machine_run fresh_machine evs) pid)))
     \<subseteq># mset (end_times pid key evs)"
proof (induction evs rule: rev_induct)
  case (snoc ev evs)
  obtain env io opn where ev: "ev = (env, io, opn)" by (cases ev)
  let ?m = "machine_run fresh_machine evs"
  have split: "mset (end_times pid key (evs @ [ev])) = mset (end_times pid key evs) +
      (if own env = pid \<and> ends_key key opn then {#now env#} else {#})"
    by (simp add: end_times_append) (simp add: end_times_def ev)
  show ?case
  proof (cases "own env = pid")
    case True
    have "mset (queue_times pid key (pending (ledger_op env io opn (view pid ?m))))
        \<subseteq># mset (queue_times pid key (fst (snd ?m pid))) +
           (if own env = pid \<and> ends_key key opn then {#now env#} else {#})"
      using ledger_op_times [of pid key env io opn "view pid ?m"] by (simp add: view_def)
    also have "\<dots> \<subseteq># mset (end_times pid key (evs @ [ev]))"
      unfolding split by (intro subset_mset.add_right_mono snoc)
    finally show ?thesis using True by (simp add: ev machine_run_def Let_def)
  next
    case False
    with snoc show ?thesis unfolding split by (simp add: ev machine_run_def Let_def)
  qed
qed (simp add: machine_run_def fresh_machine_def queue_times_def)

text \<open>A drain ends the live row of a key that has a queued terminal, and never takes a terminal of
  the same time as a missing one.\<close>

lemma live_elsewhere:
  "list_ex (live_row pid r f) es \<Longrightarrow> (r', f') \<noteq> (r, f) \<Longrightarrow>
     list_ex (live_row pid r f) (update_first (live_row pid r' f') g es)"
  by (induction es) (auto simp: live_row_def)

lemma drain_applies:
  "drain pid ps es = (es', a, m) \<Longrightarrow> list_ex (live_row pid (fst key) (snd key)) es \<Longrightarrow>
     queue_times pid key ps \<noteq> [] \<Longrightarrow> list_ex (queued_for pid key) a"
proof (induction pid ps es arbitrary: es' a m rule: drain.induct)
  case (2 pid p ps es)
  show ?case
  proof (cases "queued_for pid key p")
    case True
    with 2 show ?thesis by (auto simp: queued_for_def split: prod.splits)
  next
    case False
    let ?up = "update_first (live_row pid (p_repo p) (p_file p))
      (end_entry (p_end p) (p_counters p) (p_ended p)) es"
    have q: "queue_times pid key ps \<noteq> []" using 2(6) False by (simp add: queue_times_def)
    have live: "list_ex (live_row pid (fst key) (snd key)) ?up" if "p_pid p = pid"
      by (rule live_elsewhere [OF 2(5)]) (use that False in \<open>auto simp: queued_for_def prod_eq_iff\<close>)
    show ?thesis
    proof (cases "p_pid p = pid")
      case own: True
      show ?thesis
      proof (cases "list_ex (live_row pid (p_repo p) (p_file p)) es")
        case True
        with own 2(2) [OF _ _ _ live q] 2(4) show ?thesis by (auto split: prod.splits)
      next
        case False
        with own 2(3) [OF _ _ _ 2(5) q] 2(4) show ?thesis by (auto split: prod.splits)
      qed
    next
      case False
      with 2(1) [OF _ _ 2(5) q] 2(4) show ?thesis by auto
    qed
  qed
qed (simp add: queue_times_def)

lemma drain_apart:
  "drain pid ps es = (es', a, m) \<Longrightarrow> distinct (queue_times pid key ps) \<Longrightarrow>
     p \<in> set a \<Longrightarrow> queued_for pid key p \<Longrightarrow> q \<in> set m \<Longrightarrow> \<not> same_terminal q p"
proof (induction pid ps es arbitrary: es' a m rule: drain.induct)
  case (2 pid x ps es)
  have fresh: "p_ended y \<noteq> p_ended x" if "queued_for pid key x" "queued_for pid key y" "y \<in> set ps" for y
    using 2(5) that by (simp add: queue_times_def image_iff) metis
  have d: "distinct (queue_times pid key ps)"
    using 2(5) by (simp add: queue_times_def split: if_splits)
  have same: "same_terminal y z \<Longrightarrow> p_pid y = pid \<Longrightarrow> queued_for pid key z \<Longrightarrow>
      queued_for pid key y \<and> p_ended y = p_ended z" for y z
    by (auto simp: same_terminal_def queued_for_def)
  show ?case
    using 2(4,6-8) 2(1) [OF _ _ d] 2(2) [OF _ _ _ d] 2(3) [OF _ _ _ d] fresh same
    by (fastforce split: if_splits prod.splits dest: drain_lists)
qed simp

text \<open>As long as the ends of a key have distinct times, a live row of a key that was ended is covered
  by a queued terminal, whatever the process does next, a new claim of the key aside.\<close>

definition covered :: "u32 \<Rightarrow> string \<times> string \<Rightarrow> Ledger \<Rightarrow> bool" where
  "covered pid key s \<longleftrightarrow>
     \<not> list_ex (live_row pid (fst key) (snd key)) (rows (disk s)) \<or> queue_times pid key (pending s) \<noteq> []"

lemma with_ledger_covered:
  assumes own: "own env = pid" and one: "one_own pid (rows (disk s))"
    and d: "distinct (queue_times pid key (pending s))" and cov: "covered pid key s"
    and m: "\<And>es. \<exists>b es'. mutate es = Inr ((), b, es') \<and>
      (list_ex (live_row pid (fst key) (snd key)) es' \<longrightarrow> list_ex (live_row pid (fst key) (snd key)) es)"
  shows "covered pid key (snd (with_ledger env io mutate s))"
proof (cases "list_ex (live_row pid (fst key) (snd key)) (rows (disk s))")
  case False
  have "\<not> list_ex (live_row pid (fst key) (snd key)) (rows (disk (snd (with_ledger env io mutate s))))"
    by (rule with_ledger_keeps [OF stable_no_live False]) (use m in \<open>metis Inr_inject prod.inject\<close>)
  then show ?thesis by (simp add: covered_def)
next
  case True
  then have q: "queue_times pid key (pending s) \<noteq> []" using cov by (simp add: covered_def)
  obtain es a ms where dr: "drain pid (pending s) (rows (disk s)) = (es, a, ms)"
    by (cases "drain pid (pending s) (rows (disk s))")
  obtain p where p: "p \<in> set a" "queued_for pid key p"
    using drain_applies [OF dr True q] by (auto simp: list_ex_iff)
  have pin: "p \<in> set (pending s)" using drain_lists [OF dr] p by auto
  have still: "p \<in> set (unqueue pid ms (pending s))"
    using drain_apart [OF dr d p] pin by (auto simp: unqueue_def list_ex_iff)
  have gone: "\<not> list_ex (live_row pid (fst key) (snd key)) es"
    using drain_settles [OF one pin] p(2) dr by (simp add: queued_for_def)
  then have swept: "\<not> list_ex (live_row pid (fst key) (snd key)) (map (sweep_row env) es)"
    by (rule no_live_tames [OF tames_map [OF tame_sweep_row]])
  obtain b es' where mu: "mutate (map (sweep_row env) es) = Inr ((), b, es')"
    "\<not> list_ex (live_row pid (fst key) (snd key)) es'" using m swept by blast
  have w: "\<not> list_ex (live_row pid (fst key) (snd key)) (prune es')"
    using mu(2) by (rule stable_prune [OF stable_no_live])
  have some: "a \<noteq> []" using p by auto
  have kept: "queue_times pid key (unqueue pid ms (pending s)) \<noteq> []"
    using still p(2) by (auto simp: queue_times_def filter_empty_conv)
  show ?thesis
    using own dr mu(1) w some kept q
    by (cases io) (simp_all add: covered_def with_ledger_def Let_def)
qed

lemma update_own_covered:
  assumes "\<And>x. tame pid x (g x)"
  shows "\<exists>b es'. update_own env r f g es = Inr ((), b, es') \<and>
    (list_ex (live_row pid r' f') es' \<longrightarrow> list_ex (live_row pid r' f') es)"
  using no_live_tames [OF tames_update_first [OF assms]]
  by (auto simp: update_own_def)

lemma flip_failed_covered:
  "\<exists>b es'. flip_failed q r f since es = Inr ((), b, es') \<and>
    (list_ex (live_row pid r' f') es' \<longrightarrow> list_ex (live_row pid r' f') es)"
proof -
  have "list_ex (live_row pid r' f') es"
    if "list_ex (live_row pid r' f') (es[i := (es ! i)\<lparr>e_status := CancelledStatus, e_detail := None\<rparr>])" for i
    using no_live_tames [OF tames_list_update [OF tame_flip]] that by blast
  then show ?thesis by (auto simp: flip_failed_def split: option.split)
qed

lemma claim_elsewhere:
  "(r, f) \<noteq> (r', f') \<or> pid \<noteq> own env \<Longrightarrow>
     list_ex (live_row pid r' f') (purge env r f es @ [new_row env r f]) \<Longrightarrow>
     list_ex (live_row pid r' f') es"
  by (auto simp: new_row_live purge_def list_ex_iff)

lemma record_end_covered:
  assumes "own env = pid" "one_own pid (rows (disk s))"
    "distinct (queue_times pid key (pending s))" "covered pid key s"
  shows "covered pid key (record_end env io r f fin c s)"
proof -
  have "covered pid key (snd (with_ledger env io (update_own env r f (end_entry fin c (now env))) s))"
    by (rule with_ledger_covered [OF assms]) (rule update_own_covered [OF tame_end_entry])
  then show ?thesis
    using record_end_pending [of env io r f fin c s]
    by (auto simp: covered_def record_end_disk queue_times_append)
qed

text \<open>The end itself covers its row.\<close>

lemma end_claim_covers:
  assumes "one_own (own env) (rows (disk s))"
  shows "covered (own env) (r, f) (end_claim env io fin c (r, f) s)"
  using record_end_settles [OF assms, of r f io fin c]
  by (auto simp: covered_def end_claim_def Let_def queue_times_def queued_for_def filter_empty_conv)

fun starts_key :: "string \<times> string \<Rightarrow> LedgerOp \<Rightarrow> bool" where
  "starts_key key (ClaimStart key') = (key' = key)"
| "starts_key _ _ = False"

lemma ledger_op_covered:
  assumes a: "own env = pid" "one_own pid (rows (disk s))"
    "distinct (queue_times pid key (pending s))" "covered pid key s"
    and new: "\<not> starts_key key opn"
  shows "covered pid key (ledger_op env io opn s)"
proof (cases opn)
  case (ClaimStart k)
  have "covered pid key (snd (with_ledger env io
         (\<lambda>es. Inr ((), True, purge env (fst k) (snd k) es @ [new_row env (fst k) (snd k)]))
         (s\<lparr>active := k # active s\<rparr>)))"
  proof (rule with_ledger_covered [OF a(1)])
    show "covered pid key (s\<lparr>active := k # active s\<rparr>)" using a(4) by (simp add: covered_def)
  qed (use a new ClaimStart in \<open>auto intro: claim_elsewhere simp: prod_eq_iff\<close>)
  with ClaimStart a show ?thesis
    by (auto simp: covered_def claim_start_disk claim_start_pending split: if_splits)
next
  case (Progress r f n t)
  with a show ?thesis
    by (auto simp: record_progress_def intro!: with_ledger_covered update_own_covered tame_counters)
next
  case (EndClaim fin c k)
  with record_end_covered [OF a] show ?thesis by (simp add: end_claim_def Let_def covered_def)
next
  case (DropClaim k)
  with record_end_covered [OF a] show ?thesis
    by (simp add: drop_claim_def end_claim_def Let_def covered_def)
next
  case (OverwriteFailed r f since)
  have "covered pid key (snd (with_ledger env io (flip_failed (own env) r f since)
         (s\<lparr>pending := flip_pending (own env) r f since (pending s)\<rparr>)))"
  proof (rule with_ledger_covered [OF a(1)])
    show "covered pid key (s\<lparr>pending := flip_pending (own env) r f since (pending s)\<rparr>)"
      using a(4) by (simp add: covered_def queue_times_flip)
  qed (use a in \<open>simp_all add: queue_times_flip flip_failed_covered\<close>)
  with OverwriteFailed show ?thesis by (simp add: overwrite_last_failed_to_cancelled_def)
next
  case ReadAll
  have "covered pid key (snd (with_ledger env io (\<lambda>es. Inr ((), False, es)) s))"
    by (rule with_ledger_covered [OF a]) auto
  moreover have "covered pid key (snd (with_ledger env io (\<lambda>es. Inr (es, False, es)) s)) =
      covered pid key (snd (with_ledger env io (\<lambda>es. Inr ((), False, es)) s))"
    by (simp add: covered_def with_ledger_def Let_def split: prod.split)
  ultimately show ?thesis using ReadAll by (simp add: read_all_state read_pass_def)
qed

lemma distinct_sub: "mset xs \<subseteq># mset ys \<Longrightarrow> distinct ys \<Longrightarrow> distinct xs"
  by (metis distinct_append ex_mset mset_append mset_eq_imp_distinct_iff subset_mset.le_iff_add)

lemma machine_covered:
  assumes d: "distinct (end_times pid key (evs @ rest))"
    and new: "list_all (\<lambda>(e, _, opn). \<not> (own e = pid \<and> starts_key key opn)) rest"
    and c: "covered pid key (view pid (machine_run fresh_machine evs))"
  shows "covered pid key (view pid (machine_run fresh_machine (evs @ rest)))"
  using d new
proof (induction rest rule: rev_induct)
  case (snoc ev rest)
  obtain env io opn where ev: "ev = (env, io, opn)" by (cases ev)
  let ?m = "machine_run fresh_machine (evs @ rest)"
  have run: "machine_run fresh_machine (evs @ rest @ [ev]) = machine_step ?m ev"
    by (simp add: machine_run_def)
  have d: "distinct (end_times pid key (evs @ rest))"
    using snoc.prems(1) by (auto simp: end_times_append)
  have cov: "covered pid key (view pid ?m)" using snoc d by simp
  have one: "one_own pid (rows (disk (view pid ?m)))" using machine_one_own by (simp add: view_def)
  have q: "distinct (queue_times pid key (pending (view pid ?m)))"
    unfolding view_def using distinct_sub [OF machine_times d] by simp
  show ?case
  proof (cases "own env = pid")
    case True
    then have "\<not> starts_key key opn" using snoc.prems(2) by (simp add: ev)
    from ledger_op_covered [OF True one q cov this, of io] True
    show ?thesis unfolding run by (simp add: ev Let_def covered_def view_def)
  next
    case False
    have "\<not> list_ex (live_row pid (fst key) (snd key)) (rows (fst (machine_step ?m ev)))"
      if "\<not> list_ex (live_row pid (fst key) (snd key)) (rows (fst ?m))"
    proof -
      have "\<not> list_ex (live_row pid (fst key) (snd key)) (rows (fst (machine_run ?m [ev])))"
        by (rule machine_run_keeps [OF stable_no_live that]) (rule claim_keeps_no_live, use False ev in auto)
      moreover have "machine_run ?m [ev] = machine_step ?m ev" by (simp add: machine_run_def)
      ultimately show ?thesis by simp
    qed
    moreover have "snd (machine_step ?m ev) pid = snd ?m pid" using False by (simp add: ev Let_def)
    ultimately show ?thesis using cov unfolding run by (auto simp: covered_def view_def)
  qed
qed (use c in simp)

text \<open>C34. A terminal is not lost. A process ends its transfer of a key, and the write of the end may
  fail in whatever way. Whatever happens afterwards, that is any further operations of any processes,
  further failing or succeeding passes of the process itself included, the next pass of the process
  that succeeds leaves no live row of the transfer in the file and nothing of the process in its
  queue. The conditions: the process does not claim the same key again in between, and the ends it
  gives to that key carry pairwise different milliseconds (for equal ones the claim is false, see
  \<open>same_time_terminals_lost\<close> below).\<close>

theorem ledger_terminal_not_lost:
  assumes "list_all (\<lambda>(e, _, opn). \<not> (own e = own env \<and> starts_key (r, f) opn)) rest"
    and "distinct (end_times (own env) (r, f) (evs @ (env, io, EndClaim fin c (r, f)) # rest))"
    and "own env2 = own env"
  shows "(let m = machine_run fresh_machine (evs @ (env, io, EndClaim fin c (r, f)) # rest);
              (res, s) = read_pass env2 PassOk (view (own env) m)
          in \<not> list_ex (live_row (own env) r f) (rows (disk s)) \<and>
             list_all (\<lambda>p. p_pid p \<noteq> own env) (pending s))"
proof -
  let ?pid = "own env"
  let ?evs = "evs @ [(env, io, EndClaim fin c (r, f))]"
  let ?m = "machine_run fresh_machine (?evs @ rest)"
  have now: "covered ?pid (r, f) (view ?pid (machine_run fresh_machine ?evs))"
    using end_claim_covers [of env "view ?pid (machine_run fresh_machine evs)" r f io fin c]
      machine_one_own [of ?pid evs]
    by (simp add: machine_run_def view_def Let_def covered_def)
  have cov: "covered ?pid (r, f) (view ?pid ?m)"
    by (rule machine_covered [OF _ assms(1) now]) (use assms(2) in simp)
  obtain res s where pass: "read_pass env2 PassOk (view ?pid ?m) = (res, s)" by fastforce
  have one: "one_own (own env2) (rows (disk (view ?pid ?m)))"
    using machine_one_own assms(3) by (simp add: view_def)
  note settle = read_pass_settles [OF pass one, unfolded assms(3)]
  have "list_all (\<lambda>p. p_pid p \<noteq> ?pid) (pending s)"
    by (simp add: settle(1) list_all_iff)
  moreover have "\<not> list_ex (live_row ?pid r f) (rows (disk s))"
    using cov settle(2,3)
    by (auto simp: covered_def queue_times_def queued_for_def filter_empty_conv)
  ultimately show ?thesis using pass by simp
qed

definition plain_env :: "u32 \<Rightarrow> u64 \<Rightarrow> Env" where
  "plain_env pid at =
     \<lparr>own = pid, now = at, signalable = (\<lambda>_. True), pid_start_time = (\<lambda>_. None),
      key_stale = (\<lambda>_ _. False), key_lock_file = (\<lambda>_ _. True)\<rparr>"

theorem ledger_terminal_not_lost_witness:
  "let m = machine_run fresh_machine
             ([(plain_env 7 1, PassOk, ClaimStart (''r'', ''f''))] @
              (plain_env 7 2, WriteFails, EndClaim (EndDone ''p'') None (''r'', ''f'')) #
              [(plain_env 8 3, PassOk, ReadAll), (plain_env 7 4, WriteFails, ReadAll),
               (plain_env 7 5, LockFails, Progress ''r'' ''f'' 9 None)]);
       (res, s) = read_pass (plain_env 7 6) PassOk (view (own (plain_env 7 2)) m)
   in \<not> list_ex (live_row (own (plain_env 7 2)) ''r'' ''f'') (rows (disk s)) \<and>
      list_all (\<lambda>p. p_pid p \<noteq> own (plain_env 7 2)) (pending s)"
  by (rule ledger_terminal_not_lost) (simp_all add: plain_env_def end_times_def)

text \<open>Why the milliseconds must differ: the queue is thinned by repository, file and time, so a
  terminal found to have no row takes its twin of the same millisecond out of the queue before the
  file is written; when that write fails as well, the row stays live after the next pass that
  succeeds.\<close>

definition twin_history :: "(Env \<times> pass_io \<times> LedgerOp) list" where
  "twin_history =
     [(plain_env 7 1, PassOk, ClaimStart (''r'', ''f'')),
      (plain_env 7 2, WriteFails, EndClaim (EndDone ''p'') None (''r'', ''f'')),
      (plain_env 7 2, WriteFails, ClaimStart (''r'', ''f'')),
      (plain_env 7 2, WriteFails, EndClaim (EndDone ''p'') None (''r'', ''f'')),
      (plain_env 7 3, WriteFails, ReadAll)]"

theorem same_time_terminals_lost:
  "case read_pass (plain_env 7 4) PassOk (view 7 (machine_run fresh_machine twin_history)) of
     (res, s) \<Rightarrow> list_ex (live_row 7 ''r'' ''f'') (rows (disk s)) \<and> pending s = []"
  by (simp add: twin_history_def machine_run_def fresh_machine_def view_def plain_env_def Let_def
      claim_start_def end_claim_def record_end_def read_all_state read_pass_def with_ledger_def
      update_own_def live_row_def new_row_def purge_def unqueue_def same_terminal_def end_entry_def
      stale_row_def sweep_row_def entry_process_alive_def pid_alive_def prune_def terminal_def
      MAX_TERMINAL_ENTRIES_def)

subsection \<open>What readers see\<close>

lemma read_pass_rows:
  "read_pass env io s = (Inr es, s') \<Longrightarrow> \<exists>es'. es = map (sweep_row env) es'"
  by (auto simp: read_pass_def with_ledger_def Let_def split: if_splits prod.splits)

text \<open>Only transfers that run are announced: every row that \<open>read_live\<close> returns is a
  download whose recorded process incarnation is alive, whose machine lock was not found
  abandoned, and that has a lock file or is younger than a day; when the pass fails nothing is
  announced at all.\<close>

theorem read_live_honest:
  "list_all
     (\<lambda>e. e_status e = Downloading \<and> entry_process_alive env e \<and>
          \<not> key_stale env (e_repo e) (e_file e) \<and>
          (key_lock_file env (e_repo e) (e_file e) \<or>
           sat_sub (now env) (e_started e) \<le> LOCKLESS_ROW_MAX_AGE_MS))
     (fst (read_live env io s)) \<and>
   (fst (read_pass env io s) = Inl Io \<and> fst (read_live env io s) = [] \<or>
    (\<exists>es. fst (read_pass env io s) = Inr es \<and>
       mset (fst (read_live env io s)) = mset (filter (\<lambda>e. \<not> terminal e) es)))"
proof (cases "read_pass env io s")
  case (Pair res s')
  show ?thesis
  proof (cases res)
    case (Inl e)
    then have "e = Io" using Pair
      by (auto simp: read_pass_def with_ledger_def Let_def split: if_splits prod.splits)
    with Pair Inl show ?thesis by (simp add: read_live_def read_all_def)
  next
    case (Inr es)
    have live: "mset (fst (read_live env io s)) = mset (filter (\<lambda>e. \<not> terminal e) es)"
      using Pair Inr by (auto simp: read_live_def read_all_def Let_def filter_filter_mset)
    obtain es' where es: "es = map (sweep_row env) es'"
      using Pair Inr read_pass_rows by blast
    have fresh: "\<not> stale_row env e" if "e \<in> set es" "\<not> terminal e" for e
      using that es by (auto simp: sweep_row_def terminal_def split: if_splits)
    have "set (fst (read_live env io s)) = {e \<in> set es. \<not> terminal e}"
      using live by (metis set_filter set_mset_mset)
    with fresh live Pair Inr show ?thesis
      by (auto simp: list_all_iff stale_row_def terminal_def not_less)
  qed
qed

subsection \<open>The history is bounded\<close>

lemma mset_newest_first: "mset (newest_first es) = mset es"
  by (simp add: newest_first_def)

text \<open>The history cannot grow without bound and pruning drops the oldest: of the ended
  rows at most the newest \<open>MAX_TERMINAL_ENTRIES\<close> are kept, rows of running transfers are all
  kept, in their order, and no row is invented.\<close>

theorem prune_keeps_newest:
  "mset (filter terminal (prune es)) \<subseteq>#
     mset (take MAX_TERMINAL_ENTRIES (newest_first (filter terminal es))) \<and>
   filter (\<lambda>e. \<not> terminal e) (prune es) = filter (\<lambda>e. \<not> terminal e) es \<and>
   length (filter terminal (prune es)) \<le> MAX_TERMINAL_ENTRIES"
proof -
  let ?ts = "filter terminal es"
  let ?n = MAX_TERMINAL_ENTRIES
  have sub: "mset (filter terminal (prune es)) \<subseteq># mset (take ?n (newest_first ?ts))"
  proof (cases "length ?ts > ?n")
    case True
    let ?cut = "map row_key (drop ?n (newest_first ?ts))"
    have "filter terminal (prune es) = filter (\<lambda>e. row_key e \<notin> set ?cut) ?ts"
      using True by (auto simp: prune_def Let_def intro!: filter_cong)
    also have "mset \<dots> = filter_mset (\<lambda>e. row_key e \<notin> set ?cut) (mset (newest_first ?ts))"
      by (simp add: mset_newest_first filter_filter_mset)
    also have "mset (newest_first ?ts) =
        mset (take ?n (newest_first ?ts)) + mset (drop ?n (newest_first ?ts))"
      by (metis append_take_drop_id mset_append)
    also have "filter_mset (\<lambda>e. row_key e \<notin> set ?cut) \<dots> =
        filter_mset (\<lambda>e. row_key e \<notin> set ?cut) (mset (take ?n (newest_first ?ts)))"
    proof -
      have "filter (\<lambda>e. row_key e \<notin> set ?cut) (drop ?n (newest_first ?ts)) = []"
        by (auto simp: filter_empty_conv)
      then show ?thesis by (metis add_0_right filter_union_mset mset.simps(1) mset_filter)
    qed
    finally show ?thesis by (metis multiset_filter_subset)
  next
    case False
    then have "length (newest_first ?ts) \<le> ?n" by (simp add: newest_first_def)
    then have "take ?n (newest_first ?ts) = newest_first ?ts" by simp
    with False show ?thesis by (simp add: prune_def mset_newest_first)
  qed
  moreover have "filter (\<lambda>e. \<not> terminal e) (prune es) = filter (\<lambda>e. \<not> terminal e) es"
    by (auto simp: prune_def Let_def intro!: filter_cong)
  moreover have "length (filter terminal (prune es)) \<le> ?n"
    using size_mset_mono [OF sub] by (simp only: size_mset length_take)
  ultimately show ?thesis by blast
qed


subsection \<open>Claims are exclusive within the process\<close>

text \<open>
  As a table of slots: the state carries the machine's answers to the passes to come, so the
  contract holds however the file fares.
\<close>

type_synonym claim_table = "Ledger \<times> (nat \<Rightarrow> Env \<times> pass_io) \<times> nat"

definition claim_held :: "claim_table \<Rightarrow> string \<times> string \<Rightarrow> bool" where
  "claim_held t key \<longleftrightarrow> key \<in> set (active (fst t))"

definition claim_acquire :: "string \<times> string \<Rightarrow> claim_table \<Rightarrow> claim_table option" where
  "claim_acquire key t =
     (case t of (s, world, n) \<Rightarrow>
        (case claim_start (fst (world n)) (snd (world n)) key s of
           (Inl _, _) \<Rightarrow> None
         | (Inr _, s) \<Rightarrow> Some (s, world, Suc n)))"

definition claim_release :: "string \<times> string \<Rightarrow> claim_table \<Rightarrow> claim_table" where
  "claim_release key t =
     (case t of (s, world, n) \<Rightarrow>
        (drop_claim (fst (world n)) (snd (world n)) key s, world, Suc n))"

lemma claim_start_result:
  "claim_start env io key s =
     (if key \<in> set (active s) then (Inl (DownloadInFlight (fst key) (snd key)), s)
      else (Inr (), snd (claim_start env io key s)))"
  "key \<notin> set (active s) \<Longrightarrow> active (snd (claim_start env io key s)) = key # active s"
proof -
  let ?pass = "with_ledger env io
    (\<lambda>es. Inr ((), True, purge env (fst key) (snd key) es @ [new_row env (fst key) (snd key)]))
    (s\<lparr>active := key # active s\<rparr>)"
  have "fst ?pass \<noteq> Inl (Refused e)" for e
    by (auto simp: with_ledger_def Let_def split: prod.split)
  moreover have "active (snd ?pass) = key # active s" by simp
  ultimately show
    "claim_start env io key s =
       (if key \<in> set (active s) then (Inl (DownloadInFlight (fst key) (snd key)), s)
        else (Inr (), snd (claim_start env io key s)))"
    "key \<notin> set (active s) \<Longrightarrow> active (snd (claim_start env io key s)) = key # active s"
    by (cases key; cases ?pass; auto simp: claim_start_def split: sum.split ledger_io.split)+
qed

lemma drop_claim_active: "active (drop_claim env io key s) = removeAll key (active s)"
proof -
  have "active (record_end env io r f fin c s) = active s" for r f fin c
    using with_ledger_active [of env io "update_own env r f (end_entry fin c (now env))" s]
    by (cases "with_ledger env io (update_own env r f (end_entry fin c (now env))) s")
      (auto simp: record_end_def split: sum.split ledger_io.split)
  then show ?thesis by (simp add: drop_claim_def end_claim_def Let_def)
qed

interpretation claims: slot_table claim_held claim_acquire claim_release
proof unfold_locales
  fix t :: claim_table and k j t'
  obtain s world n where t: "t = (s, world, n)" by (cases t) auto
  note claim = claim_start_result [where env = "fst (world n)" and io = "snd (world n)" and key = k and s = s]
  show "claim_held t k \<Longrightarrow> claim_acquire k t = None"
    using claim(1) t by (simp add: claim_held_def claim_acquire_def)
  show free: "\<not> claim_held t k \<Longrightarrow> claim_acquire k t \<noteq> None"
    using claim(1) t by (auto simp: claim_held_def claim_acquire_def split: prod.split sum.split)
  show "claim_acquire k t = Some t' \<Longrightarrow> claim_held t' j \<longleftrightarrow> j = k \<or> claim_held t j"
    using claim t
    by (cases "k \<in> set (active s)")
      (auto simp: claim_held_def claim_acquire_def split: prod.splits sum.splits)
  show "claim_held (claim_release k t) j \<longleftrightarrow> j \<noteq> k \<and> claim_held t j"
    using t by (auto simp: claim_held_def claim_release_def drop_claim_active)
qed

text \<open>The ledger's claims fail open and stay exclusive: a claim is refused exactly when
  the key is claimed by this process, whatever happens to the file; and over any run of claims
  and drops two holders of a key are the same holder and a dropped key can be claimed again.\<close>

theorem ledger_claim_exclusive:
  "fst (claim_start env io (r, f) s) =
     (if (r, f) \<in> set (active s) then Inl (DownloadInFlight r f) else Inr ()) \<and>
   (active s = [] \<and> slot_run claim_acquire claim_release (s, world, 0) es = (t, g) \<and>
    (c, k) \<in> g \<and> (d, k) \<in> g \<longrightarrow> c = d \<and> claim_acquire k (claim_release k t) \<noteq> None)"
proof (intro conjI impI)
  show "fst (claim_start env io (r, f) s) =
     (if (r, f) \<in> set (active s) then Inl (DownloadInFlight r f) else Inr ())"
    using claim_start_result(1) [of env io "(r, f)" s] by (metis fst_conv snd_conv)
  assume a: "active s = [] \<and> slot_run claim_acquire claim_release (s, world, 0) es = (t, g) \<and>
    (c, k) \<in> g \<and> (d, k) \<in> g"
  then have "\<not> claim_held (s, world, 0) k" for k by (simp add: claim_held_def)
  with a show "c = d" using claims.slot_exclusive(1) [of "(s, world, 0)" es t g c k d] by blast
  show "claim_acquire k (claim_release k t) \<noteq> None" by (rule claims.reacquire)
qed

theorem ledger_claim_exclusive_witness:
  "claim_acquire (''r'', ''f'') (claim_release (''r'', ''f'')
     (fst (slot_run claim_acquire claim_release
        (view 7 fresh_machine, (\<lambda>_. (plain_env 7 1, WriteFails)), 0)
        [Claim (0::nat) (''r'', ''f'')]))) \<noteq> None"
proof -
  let ?s = "view 7 fresh_machine"
  let ?w = "\<lambda>_::nat. (plain_env 7 1, WriteFails)"
  let ?run = "slot_run claim_acquire claim_release (?s, ?w, 0) [Claim (0::nat) (''r'', ''f'')]"
  have a: "active ?s = []" by (simp add: view_def fresh_machine_def)
  then have "claim_acquire (''r'', ''f'') (?s, ?w, 0) \<noteq> None"
    by (intro claims.acquire_free) (simp add: claim_held_def)
  then have "(0, ''r'', ''f'') \<in> snd ?run" by (auto simp: slot_run_def)
  with a show ?thesis
    using ledger_claim_exclusive [of "plain_env 7 1" WriteFails "''r''" "''f''" ?s ?w
        "[Claim (0::nat) (''r'', ''f'')]" "fst ?run" "snd ?run" 0 "(''r'', ''f'')" 0] by simp
qed

end
