(* ===== verification/Download_Lock.thy ===== *)
theory Download_Lock
  imports Interfaces Diagnostics
begin

text \<open>
  \<open>src/catalog/download_lock.rs\<close>: one advisory lock file per download key. The locks are a
  table of exclusive slots, so they interpret \<open>slot_table\<close>.

  The lock files are a map from paths to the guard that holds the kernel lock, if any. The
  digest (SHA-256 in hex) and the models root are arguments. While one \<open>acquire\<close> retries,
  only read-side probes may come and go; which attempts a probe blocks is in an argument.
\<close>

subsection \<open>Lock files\<close>

record Locks =
  lock_files :: "string \<Rightarrow> nat option option"
  next_guard :: nat

definition locks_dir :: "string \<Rightarrow> string" where
  "locks_dir root = root @ ''/.download-locks''"

definition lock_path :: "(string \<Rightarrow> string) \<Rightarrow> string \<Rightarrow> string \<Rightarrow> string \<Rightarrow> string" where
  "lock_path sha root repo file =
     locks_dir root @ ''/'' @
     sha (to_ascii_lowercase repo @ [CHR 0x00] @ to_ascii_lowercase file) @ ''.lock''"

text \<open>An attempt meets a probe, an error of the lock call, or neither.\<close>

datatype attempt = Clear | Probed | LockErr string

datatype acquire_error = InFlight | FileWrite string

fun try_lock :: "nat \<Rightarrow> attempt list \<Rightarrow> string \<Rightarrow> Locks \<Rightarrow> (acquire_error + nat) \<times> Locks" where
  "try_lock 0 as path s = (Inl InFlight, s)"
| "try_lock (Suc n) as path s =
     (case (case as of [] \<Rightarrow> Clear | a # _ \<Rightarrow> a) of
        LockErr e \<Rightarrow> (Inl (FileWrite e), s)
      | Probed \<Rightarrow> try_lock n (tl as) path s
      | Clear \<Rightarrow>
          (case lock_files s path of
             Some (Some g) \<Rightarrow> try_lock n (tl as) path s
           | _ \<Rightarrow>
              (Inr (next_guard s),
               s\<lparr>lock_files := (lock_files s)(path \<mapsto> Some (next_guard s)),
                 next_guard := next_guard s + 1\<rparr>)))"

text \<open>Opening creates the file; \<open>fs\<close> is the error of creating the directory or opening.\<close>

definition open_lock :: "string \<Rightarrow> Locks \<Rightarrow> Locks" where
  "open_lock path s =
     (case lock_files s path of
        None \<Rightarrow> s\<lparr>lock_files := (lock_files s)(path \<mapsto> None)\<rparr>
      | Some _ \<Rightarrow> s)"

definition acquire_path :: "string option \<Rightarrow> attempt list \<Rightarrow> string \<Rightarrow> Locks \<Rightarrow> (acquire_error + nat) \<times> Locks" where
  "acquire_path fs as path s =
     (case fs of
        Some e \<Rightarrow> (Inl (FileWrite e), s)
      | None \<Rightarrow> try_lock 5 as path (open_lock path s))"

definition acquire ::
  "(string \<Rightarrow> string) \<Rightarrow> string \<Rightarrow> string \<Rightarrow> string \<Rightarrow> string option \<Rightarrow> attempt list \<Rightarrow> Locks \<Rightarrow>
   (HiggsError + nat \<times> string) \<times> Locks" where
  "acquire sha root repo file fs as s =
     (let path = lock_path sha root repo file in
      case acquire_path fs as path s of
        (Inl InFlight, s) \<Rightarrow> (Inl (DownloadInFlight repo file), s)
      | (Inl (FileWrite e), s) \<Rightarrow> (Inl (HubFileWrite repo file e), s)
      | (Inr g, s) \<Rightarrow> (Inr (g, path), s))"

text \<open>Dropping a guard unlocks; the file stays.\<close>

definition unlock :: "string \<Rightarrow> Locks \<Rightarrow> Locks" where
  "unlock path s =
     (case lock_files s path of
        None \<Rightarrow> s
      | Some _ \<Rightarrow> s\<lparr>lock_files := (lock_files s)(path \<mapsto> None)\<rparr>)"

definition protects :: "(string \<Rightarrow> string) \<Rightarrow> string \<Rightarrow> string \<Rightarrow> string \<Rightarrow> string \<Rightarrow> bool" where
  "protects sha root guard_path repo file \<longleftrightarrow> guard_path = lock_path sha root repo file"

definition lock_file_exists :: "string \<Rightarrow> Locks \<Rightarrow> bool" where
  "lock_file_exists path s \<longleftrightarrow> lock_files s path \<noteq> None"

definition is_key_stale :: "string \<Rightarrow> Locks \<Rightarrow> bool" where
  "is_key_stale path s \<longleftrightarrow> lock_files s path = Some None"

definition lock_held :: "Locks \<Rightarrow> string \<Rightarrow> bool" where
  "lock_held s path \<longleftrightarrow> (\<exists>g. lock_files s path = Some (Some g))"

definition lock_acquire :: "string \<Rightarrow> Locks \<Rightarrow> Locks option" where
  "lock_acquire path s =
     (case acquire_path None [] path s of (Inl _, _) \<Rightarrow> None | (Inr _, s') \<Rightarrow> Some s')"

lemma try_lock_held:
  "lock_held s path \<Longrightarrow> \<exists>e. try_lock n as path s = (Inl e, s)"
  by (induction n arbitrary: as) (auto simp: lock_held_def split: attempt.split)

lemma open_lock_held [simp]: "lock_held (open_lock path s) p = lock_held s p"
  by (auto simp: open_lock_def lock_held_def split: option.split)

lemma acquire_held: "lock_held s path \<Longrightarrow> \<exists>e t. acquire_path fs as path s = (Inl e, t)"
  using try_lock_held [of "open_lock path s" path 5 as]
  by (auto simp: acquire_path_def split: option.split)

lemma try_lock_free:
  assumes "\<not> lock_held s path" "0 < n"
  shows "try_lock n [] path s =
    (Inr (next_guard s),
     s\<lparr>lock_files := (lock_files s)(path \<mapsto> Some (next_guard s)), next_guard := next_guard s + 1\<rparr>)"
  using assms by (cases n) (auto simp: lock_held_def split: option.split)

lemma lock_acquire_free:
  assumes "\<not> lock_held s path"
  shows "\<exists>s'. lock_acquire path s = Some s' \<and> (\<forall>p. lock_held s' p \<longleftrightarrow> p = path \<or> lock_held s p)"
proof -
  have "\<not> lock_held (open_lock path s) path" using assms by simp
  from try_lock_free [OF this, of 5] show ?thesis
    by (auto simp: lock_acquire_def acquire_path_def lock_held_def open_lock_def split: option.split)
qed

interpretation locks: slot_table lock_held lock_acquire unlock
proof unfold_locales
  fix s k
  show "lock_held s k \<Longrightarrow> lock_acquire k s = None"
    using acquire_held [of s k None "[]"] by (auto simp: lock_acquire_def)
  show "\<not> lock_held s k \<Longrightarrow> lock_acquire k s \<noteq> None"
    using lock_acquire_free [of s k] by auto
  fix s' j
  show "lock_acquire k s = Some s' \<Longrightarrow> lock_held s' j \<longleftrightarrow> j = k \<or> lock_held s j"
    using lock_acquire_free [of s k] acquire_held [of s k None "[]"]
    by (cases "lock_held s k") (auto simp: lock_acquire_def)
  show "lock_held (unlock k s) j \<longleftrightarrow> j \<noteq> k \<and> lock_held s j"
    by (auto simp: unlock_def lock_held_def split: option.split)
qed

definition no_locks :: Locks where
  "no_locks = \<lparr>lock_files = (\<lambda>_. None), next_guard = 0\<rparr>"

lemma no_locks_free: "\<not> lock_held no_locks k"
  by (simp add: no_locks_def lock_held_def)

text \<open>C16. At most one transfer per file on a machine: whatever the order in which processes
  take and drop download locks, two holders of one key are the same holder, also when the
  keys differ only in ASCII case (they name one file on a case-insensitive disk); a held key is
  never reported stale; and a dropped key is reported stale and can be taken again.\<close>

theorem download_lock_exclusive:
  assumes "slot_run lock_acquire unlock no_locks es = (t, g)"
    "to_ascii_lowercase r = to_ascii_lowercase r'" "to_ascii_lowercase f = to_ascii_lowercase f'"
    "(c, lock_path sha root r f) \<in> g"
  shows "((d, lock_path sha root r' f') \<in> g \<longrightarrow> c = d) \<and>
    \<not> is_key_stale (lock_path sha root r' f') t \<and>
    is_key_stale (lock_path sha root r' f') (unlock (lock_path sha root r f) t) \<and>
    lock_acquire (lock_path sha root r' f') (unlock (lock_path sha root r f) t) \<noteq> None"
proof -
  have p: "lock_path sha root r' f' = lock_path sha root r f"
    using assms(2,3) by (simp add: lock_path_def)
  have h: "lock_held t (lock_path sha root r f)"
    using locks.slot_exclusive(2) [OF no_locks_free assms(1)] assms(4) by blast
  show ?thesis
    unfolding p using h assms(4) locks.slot_exclusive(1) [OF no_locks_free assms(1)] locks.reacquire
    by (auto simp: is_key_stale_def lock_held_def unlock_def)
qed

theorem download_lock_exclusive_witness:
  "is_key_stale (lock_path id ''/m'' ''Org/M'' ''m.gguf'')
     (unlock (lock_path id ''/m'' ''org/m'' ''M.gguf'')
       (fst (slot_run lock_acquire unlock no_locks [Claim (0::nat) (lock_path id ''/m'' ''org/m'' ''M.gguf'')])))"
proof -
  let ?k = "lock_path id ''/m'' ''org/m'' ''M.gguf''"
  let ?run = "slot_run lock_acquire unlock no_locks [Claim (0::nat) ?k]"
  have low: "to_ascii_lowercase ''org/m'' = to_ascii_lowercase ''Org/M''"
    "to_ascii_lowercase ''M.gguf'' = to_ascii_lowercase ''m.gguf''"
    by code_simp+
  have "(0, ?k) \<in> snd ?run"
    using lock_acquire_free [OF no_locks_free, of ?k] by (auto simp: slot_run_def)
  then show ?thesis
    using download_lock_exclusive [OF prod.collapse [symmetric] low, of 0 id "''/m''"
        "[Claim (0::nat) ?k]"] by blast
qed

end
