(* ===== verification/Download.thy ===== *)
theory Download
  imports Text Ledger Download_Lock
begin

text \<open>
  \<open>src/download.rs\<close>: the destination of a pull, one attempt with its temporary file, and the
  transfer with a fallback under the download lock and the ledger claim. The file system below
  the models root is a map from paths to contents. What a fetcher does (chunks, progress
  reports, the end of its future) and which file operations fail are arguments. Display texts
  of errors are not modelled, except where the code passes a text on.
\<close>

subsection \<open>Destinations\<close>

definition segment_char :: "char \<Rightarrow> bool" where
  "segment_char c \<longleftrightarrow>
     (let n = (of_char c :: nat) in
      (48 \<le> n \<and> n \<le> 57) \<or> (65 \<le> n \<and> n \<le> 90) \<or> (97 \<le> n \<and> n \<le> 122)) \<or>
     c = CHR ''.'' \<or> c = CHR ''_'' \<or> c = CHR ''-''"

definition is_safe_segment :: "string \<Rightarrow> bool" where
  "is_safe_segment s \<longleftrightarrow> s \<noteq> [] \<and> s \<noteq> ''.'' \<and> s \<noteq> ''..'' \<and> list_all segment_char s"

definition NAME_MAX :: nat where "NAME_MAX = 255"

definition TEMP_SUFFIX_MAX :: nat where
  "TEMP_SUFFIX_MAX = length ''.part.'' + 10 + length ''.'' + 20"

record PullTarget =
  t_repo :: string
  t_file :: string
  t_revision :: string

definition dest_path :: "string \<Rightarrow> string \<Rightarrow> string \<Rightarrow> HiggsError + string" where
  "dest_path root repo file =
     (let segs = split_on CHR ''/'' repo; rel = repo @ ''/'' @ file in
      if length segs \<noteq> 2 \<or> \<not> list_all (\<lambda>s. is_safe_segment s \<and> length s \<le> NAME_MAX) segs
      then Inl (DownloadFailed repo file ''repo'')
      else if \<not> is_safe_segment file \<or> length file > NAME_MAX - TEMP_SUFFIX_MAX \<or>
              \<not> suffix ''.gguf'' (to_ascii_lowercase file)
      then Inl (DownloadFailed repo file ''file'')
      else if prefix ''/'' rel \<or> list_ex (\<lambda>c. c = ''..'') (split_on CHR ''/'' rel)
      then Inl (DownloadFailed repo file ''path must be relative'')
      else Inr (root @ ''/'' @ rel))"

definition safe_revision :: "string \<Rightarrow> bool" where
  "safe_revision r \<longleftrightarrow> list_all is_safe_segment (split_on CHR ''/'' r)"

definition trim_end_slashes :: "string \<Rightarrow> string" where
  "trim_end_slashes s = rev (dropWhile (\<lambda>c. c = CHR ''/'') (rev s))"

text \<open>\<open>env\<close> is the variable \<open>HIGGS_HF_ENDPOINT\<close>.\<close>

definition hf_url :: "string option \<Rightarrow> string \<Rightarrow> string \<Rightarrow> string \<Rightarrow> string" where
  "hf_url env repo revision file =
     trim_end_slashes (unwrap_or ''https://huggingface.co'' (opt_filter (\<lambda>s. s \<noteq> []) env)) @
     ''/'' @ repo @ ''/resolve/'' @ revision @ ''/'' @ file"

lemma segment_char_no_slash: "segment_char c \<Longrightarrow> c \<noteq> CHR ''/''"
  by (auto simp: segment_char_def)

lemma safe_no_slash: "is_safe_segment s \<Longrightarrow> CHR ''/'' \<notin> set s"
  by (auto simp: is_safe_segment_def list_all_iff dest: segment_char_no_slash)

text \<open>A destination is accepted exactly when it fits the layout that the model scanner
  walks: two safe directory names and one safe \<open>.gguf\<close> file name, no longer than the file
  system (and the suffix of the temporary file) allows; then it lies below the models root and
  no path component is empty, \<open>.\<close> or \<open>..\<close>.\<close>

theorem dest_path_iff:
  "dest_path root repo file = Inr p \<longleftrightarrow>
     (\<exists>org model. repo = org @ ''/'' @ model \<and> p = root @ ''/'' @ org @ ''/'' @ model @ ''/'' @ file \<and>
        is_safe_segment org \<and> is_safe_segment model \<and> is_safe_segment file \<and>
        length org \<le> 255 \<and> length model \<le> 255 \<and> length file \<le> 218 \<and>
        suffix ''.gguf'' (to_ascii_lowercase file))"
proof -
  have segs: "length (split_on CHR ''/'' repo) = 2 \<and>
      list_all (\<lambda>s. is_safe_segment s \<and> length s \<le> NAME_MAX) (split_on CHR ''/'' repo) \<longleftrightarrow>
      (\<exists>org model. repo = org @ ''/'' @ model \<and> is_safe_segment org \<and> is_safe_segment model \<and>
         length org \<le> 255 \<and> length model \<le> 255)" (is "?l \<longleftrightarrow> ?r")
  proof
    assume ?l
    then obtain org model where "split_on CHR ''/'' repo = [org, model]"
      by (auto simp: length_Suc_conv numeral_2_eq_2)
    with \<open>?l\<close> show ?r by (auto simp: split_on_two NAME_MAX_def)
  next
    assume ?r
    then obtain org model where r: "repo = org @ ''/'' @ model"
      "is_safe_segment org" "is_safe_segment model" "length org \<le> 255" "length model \<le> 255"
      by blast
    then have "split_on CHR ''/'' repo = [org, model]"
      by (simp add: split_on_two safe_no_slash)
    with r show ?l by (simp add: NAME_MAX_def)
  qed
  have rel: "\<not> (prefix ''/'' (repo @ ''/'' @ file) \<or>
      list_ex (\<lambda>c. c = ''..'') (split_on CHR ''/'' (repo @ ''/'' @ file)))"
    if "repo = org @ ''/'' @ model" "is_safe_segment org" "is_safe_segment model"
      "is_safe_segment file" for org model
  proof -
    have "split_on CHR ''/'' (repo @ ''/'' @ file) = [org, model, file]"
      using that by (simp add: split_on_append split_on_absent safe_no_slash)
    moreover have "org \<noteq> []" "CHR ''/'' \<notin> set org"
      using that(2) safe_no_slash by (auto simp: is_safe_segment_def)
    ultimately show ?thesis
      using that by (cases org) (auto simp: is_safe_segment_def)
  qed
  have limit: "length file > NAME_MAX - TEMP_SUFFIX_MAX \<longleftrightarrow> \<not> length file \<le> 218"
    by (simp add: NAME_MAX_def TEMP_SUFFIX_MAX_def) linarith
  show ?thesis
  proof (cases ?thesis)
    case False
    then show ?thesis
      using segs rel limit by (auto simp: dest_path_def Let_def split: if_splits)
  qed
qed


subsection \<open>One attempt\<close>

text \<open>
  The state of a transfer: the files below the root, the process-global counter of temporary
  names, the locks, the ledger with the machine's answers to its passes, the mirror that
  throttles the ledger's progress writes, and the reports the caller's callback saw.
\<close>

record Mirror =
  last_written :: u64
  last_total :: "u64 option"
  last_seen :: "u64 \<times> u64 option"

record Transfer =
  files :: "string \<Rightarrow> string option"
  seq :: u64
  locks :: Locks
  ledger :: Ledger
  world :: "nat \<Rightarrow> Env \<times> pass_io"
  tick :: nat
  mirror :: Mirror
  reported :: "(u64 \<times> u64 option) list"

definition new_mirror :: Mirror where
  "new_mirror = \<lparr>last_written = 0, last_total = None, last_seen = (0, None)\<rparr>"

definition MIRROR_STEP :: u64 where "MIRROR_STEP = 8 * 1024 * 1024"

text \<open>One pass over the ledger takes the machine's next answer.\<close>

definition ledger_pass :: "(Env \<Rightarrow> pass_io \<Rightarrow> Ledger \<Rightarrow> Ledger) \<Rightarrow> Transfer \<Rightarrow> Transfer" where
  "ledger_pass f s =
     (case world s (tick s) of (env, io) \<Rightarrow> s\<lparr>ledger := f env io (ledger s), tick := tick s + 1\<rparr>)"

definition mirror_due :: "Mirror \<Rightarrow> u64 \<Rightarrow> u64 option \<Rightarrow> bool" where
  "mirror_due m n t \<longleftrightarrow>
     n < last_written m \<or> t \<noteq> last_total m \<or> MIRROR_STEP \<le> sat_sub n (last_written m)"

definition mirror_report :: "u64 \<Rightarrow> u64 option \<Rightarrow> Mirror \<Rightarrow> Mirror" where
  "mirror_report n t m =
     (let m' = m\<lparr>last_seen := (n, t)\<rparr> in
      if mirror_due m n t then m'\<lparr>last_written := n, last_total := t\<rparr> else m')"

definition ledger_progress :: "PullTarget \<Rightarrow> u64 \<Rightarrow> u64 option \<Rightarrow> Transfer \<Rightarrow> Transfer" where
  "ledger_progress tgt n t s =
     (let due = mirror_due (mirror s) n t;
          s = s\<lparr>mirror := mirror_report n t (mirror s)\<rparr>;
          s = (if due
               then ledger_pass (\<lambda>env io. record_progress env io (t_repo tgt) (t_file tgt) n t) s
               else s)
      in s\<lparr>reported := reported s @ [(n, t)]\<rparr>)"

text \<open>
  What one attempt meets. A fetcher hands out chunks and reports, then its future ends: with
  success, with an error, or dropped in the middle by a cancel.
\<close>

datatype fetch_event = GotChunk string | Progressed u64 "u64 option"
datatype fetch_end = FetchOk | FetchErr HiggsError | FutureDropped

record Fetch =
  fetch_events :: "fetch_event list"
  fetch_end :: fetch_end
  mkdir_err :: "string option"
  create_err :: "string option"
  write_err :: "(nat \<times> string) option"    \<comment> \<open>the chunk whose write fails\<close>
  sync_err :: "string option"
  rename_err :: "string option"
  remove_fails :: bool
  guard_fails :: bool

datatype attempt_result =
    Completed string
  | LocalError HiggsError
  | FetcherError HiggsError
  | AttemptDropped

text \<open>The chunks reach the file up to the first failed write; later ones are discarded.\<close>

fun run_fetch ::
  "PullTarget \<Rightarrow> string \<Rightarrow> nat option \<Rightarrow> nat \<Rightarrow> fetch_event list \<Rightarrow> Transfer \<Rightarrow> Transfer" where
  "run_fetch tgt tmp bad i [] s = s"
| "run_fetch tgt tmp bad i (GotChunk c # es) s =
     run_fetch tgt tmp bad (Suc i) es
       (if (case bad of None \<Rightarrow> False | Some b \<Rightarrow> b \<le> i) then s
        else s\<lparr>files := (files s)(tmp := map_option (\<lambda>x. x @ c) (files s tmp))\<rparr>)"
| "run_fetch tgt tmp bad i (Progressed n t # es) s =
     run_fetch tgt tmp bad i es (ledger_progress tgt n t s)"

definition fetch_chunks :: "fetch_event list \<Rightarrow> string list" where
  "fetch_chunks es = concat (map (\<lambda>e. case e of GotChunk c \<Rightarrow> [c] | _ \<Rightarrow> []) es)"

definition fetch_reports :: "fetch_event list \<Rightarrow> (u64 \<times> u64 option) list" where
  "fetch_reports es = concat (map (\<lambda>e. case e of Progressed n t \<Rightarrow> [(n, t)] | _ \<Rightarrow> []) es)"

definition write_failure :: "Fetch \<Rightarrow> string option" where
  "write_failure f =
     (case write_err f of
        Some (i, e) \<Rightarrow> if i < length (fetch_chunks (fetch_events f)) then Some e else None
      | None \<Rightarrow> None)"

definition remove_file :: "bool \<Rightarrow> string \<Rightarrow> Transfer \<Rightarrow> Transfer" where
  "remove_file fails path s = (if fails then s else s\<lparr>files := (files s)(path := None)\<rparr>)"

definition temp_path :: "u32 \<Rightarrow> u64 \<Rightarrow> string \<Rightarrow> string" where
  "temp_path pid n dest = dest @ ''.part.'' @ dec (unat pid) @ ''.'' @ dec (unat n)"

text \<open>The explicit removal of an error path, then the guard's.\<close>

definition discard_temp :: "Fetch \<Rightarrow> string \<Rightarrow> Transfer \<Rightarrow> Transfer" where
  "discard_temp f tmp s = remove_file (guard_fails f) tmp (remove_file (remove_fails f) tmp s)"

definition bad_revision :: "PullTarget \<Rightarrow> HiggsError" where
  "bad_revision tgt = DownloadFailed (t_repo tgt) (t_file tgt) ''invalid revision''"

definition fs_fail :: "PullTarget \<Rightarrow> string \<Rightarrow> attempt_result" where
  "fs_fail tgt e = LocalError (HubFileWrite (t_repo tgt) (t_file tgt) e)"

definition finish_attempt ::
  "PullTarget \<Rightarrow> Fetch \<Rightarrow> string \<Rightarrow> string \<Rightarrow> Transfer \<Rightarrow> attempt_result \<times> Transfer" where
  "finish_attempt tgt f tmp dest s =
     (case fetch_end f of
        FutureDropped \<Rightarrow> (AttemptDropped, remove_file (guard_fails f) tmp s)
      | FetchErr e \<Rightarrow> (FetcherError e, discard_temp f tmp s)
      | FetchOk \<Rightarrow>
          (case write_failure f of
             Some e \<Rightarrow> (fs_fail tgt (''write failed: '' @ e), discard_temp f tmp s)
           | None \<Rightarrow>
               (case sync_err f of
                  Some e \<Rightarrow> (fs_fail tgt e, discard_temp f tmp s)
                | None \<Rightarrow>
                    (case rename_err f of
                       Some e \<Rightarrow> (fs_fail tgt e, discard_temp f tmp s)
                     | None \<Rightarrow>
                         (Completed dest,
                          s\<lparr>files := (files s)(dest := files s tmp, tmp := None)\<rparr>)))))"

definition download_attempt ::
  "string \<Rightarrow> u32 \<Rightarrow> PullTarget \<Rightarrow> Fetch \<Rightarrow> Transfer \<Rightarrow> attempt_result \<times> Transfer" where
  "download_attempt root pid tgt f s =
     (case dest_path root (t_repo tgt) (t_file tgt) of
        Inl e \<Rightarrow> (LocalError e, s)
      | Inr dest \<Rightarrow>
          if \<not> safe_revision (t_revision tgt) then (LocalError (bad_revision tgt), s)
          else
            case mkdir_err f of
              Some e \<Rightarrow> (fs_fail tgt e, s)
            | None \<Rightarrow>
                let tmp = temp_path pid (seq s) dest;
                    s = s\<lparr>seq := seq s + 1\<rparr>
                in case create_err f of
                     Some e \<Rightarrow> (fs_fail tgt e, remove_file (guard_fails f) tmp s)
                   | None \<Rightarrow>
                       finish_attempt tgt f tmp dest
                         (run_fetch tgt tmp (map_option fst (write_err f)) 0 (fetch_events f)
                            (s\<lparr>files := (files s)(tmp \<mapsto> [])\<rparr>)))"

subsection \<open>The transfer\<close>

datatype outcome = Finished "HiggsError + string" | Dropped

text \<open>The ledger claim and its end; a dropped transfer drops its claim.\<close>

definition end_transfer ::
  "PullTarget \<Rightarrow> outcome \<Rightarrow> Transfer \<Rightarrow> outcome \<times> Transfer" where
  "end_transfer tgt r s =
     (let key = (t_repo tgt, t_file tgt); seen = Some (last_seen (mirror s)) in
      (r, ledger_pass
            (\<lambda>env io. case r of
               Finished (Inr path) \<Rightarrow> end_claim env io (EndDone path) seen key
             | Finished (Inl e) \<Rightarrow> end_claim env io (EndFailed (error_code e)) seen key
             | Dropped \<Rightarrow> drop_claim env io key) s))"

definition with_claim ::
  "PullTarget \<Rightarrow> (Transfer \<Rightarrow> outcome \<times> Transfer) \<Rightarrow> Transfer \<Rightarrow> outcome \<times> Transfer" where
  "with_claim tgt body s =
     (case world s (tick s) of
        (env, io) \<Rightarrow>
          (case claim_start env io (t_repo tgt, t_file tgt) (ledger s) of
             (Inl e, l) \<Rightarrow> (Finished (Inl e), s\<lparr>ledger := l, tick := tick s + 1\<rparr>)
           | (Inr _, l) \<Rightarrow>
               (case body (s\<lparr>ledger := l, tick := tick s + 1, mirror := new_mirror\<rparr>) of
                  (r, s) \<Rightarrow> end_transfer tgt r s)))"

definition exhausted :: HiggsError where "exhausted = OtherError ''HG036''"

definition dual_attempts ::
  "string \<Rightarrow> u32 \<Rightarrow> PullTarget \<Rightarrow> Fetch \<Rightarrow> Fetch \<Rightarrow> Transfer \<Rightarrow> outcome \<times> Transfer" where
  "dual_attempts root pid tgt primary fallback s =
     (case download_attempt root pid tgt primary s of
        (Completed p, s) \<Rightarrow> (Finished (Inr p), s)
      | (LocalError e, s) \<Rightarrow> (Finished (Inl e), s)
      | (AttemptDropped, s) \<Rightarrow> (Dropped, s)
      | (FetcherError _, s) \<Rightarrow>
          (case download_attempt root pid tgt fallback s of
             (Completed p, s) \<Rightarrow> (Finished (Inr p), s)
           | (AttemptDropped, s) \<Rightarrow> (Dropped, s)
           | (_, s) \<Rightarrow> (Finished (Inl exhausted), s)))"

definition single_attempt ::
  "string \<Rightarrow> u32 \<Rightarrow> PullTarget \<Rightarrow> Fetch \<Rightarrow> Transfer \<Rightarrow> outcome \<times> Transfer" where
  "single_attempt root pid tgt f s =
     (case download_attempt root pid tgt f s of
        (Completed p, s) \<Rightarrow> (Finished (Inr p), s)
      | (LocalError e, s) \<Rightarrow> (Finished (Inl e), s)
      | (FetcherError e, s) \<Rightarrow> (Finished (Inl e), s)
      | (AttemptDropped, s) \<Rightarrow> (Dropped, s))"

definition wrong_lock :: "PullTarget \<Rightarrow> HiggsError" where
  "wrong_lock tgt = DownloadFailed (t_repo tgt) (t_file tgt) ''internal error''"

definition download_dual_locked ::
  "(string \<Rightarrow> string) \<Rightarrow> string \<Rightarrow> u32 \<Rightarrow> PullTarget \<Rightarrow> Fetch \<Rightarrow> Fetch \<Rightarrow> string \<Rightarrow> Transfer \<Rightarrow>
   outcome \<times> Transfer" where
  "download_dual_locked sha root pid tgt primary fallback guard_path s =
     (if \<not> protects sha root guard_path (t_repo tgt) (t_file tgt)
      then (Finished (Inl (wrong_lock tgt)), s)
      else with_claim tgt (dual_attempts root pid tgt primary fallback) s)"

text \<open>Validation, the lock, the transfer, and the lock's release when the guard goes.\<close>

definition with_lock ::
  "(string \<Rightarrow> string) \<Rightarrow> string \<Rightarrow> PullTarget \<Rightarrow> string option \<Rightarrow> attempt list \<Rightarrow>
   (string \<Rightarrow> Transfer \<Rightarrow> outcome \<times> Transfer) \<Rightarrow> Transfer \<Rightarrow> outcome \<times> Transfer" where
  "with_lock sha root tgt fs as body s =
     (case dest_path root (t_repo tgt) (t_file tgt) of
        Inl e \<Rightarrow> (Finished (Inl e), s)
      | Inr _ \<Rightarrow>
          if \<not> safe_revision (t_revision tgt) then (Finished (Inl (bad_revision tgt)), s)
          else
            case acquire sha root (t_repo tgt) (t_file tgt) fs as (locks s) of
              (Inl e, l) \<Rightarrow> (Finished (Inl e), s\<lparr>locks := l\<rparr>)
            | (Inr (_, path), l) \<Rightarrow>
                (case body path (s\<lparr>locks := l\<rparr>) of
                   (r, s) \<Rightarrow> (r, s\<lparr>locks := unlock path (locks s)\<rparr>)))"

definition download_dual ::
  "(string \<Rightarrow> string) \<Rightarrow> string \<Rightarrow> u32 \<Rightarrow> PullTarget \<Rightarrow> string option \<Rightarrow> attempt list \<Rightarrow>
   Fetch \<Rightarrow> Fetch \<Rightarrow> Transfer \<Rightarrow> outcome \<times> Transfer" where
  "download_dual sha root pid tgt fs as primary fallback s =
     with_lock sha root tgt fs as (download_dual_locked sha root pid tgt primary fallback) s"

definition download ::
  "(string \<Rightarrow> string) \<Rightarrow> string \<Rightarrow> u32 \<Rightarrow> PullTarget \<Rightarrow> string option \<Rightarrow> attempt list \<Rightarrow>
   Fetch \<Rightarrow> Transfer \<Rightarrow> outcome \<times> Transfer" where
  "download sha root pid tgt fs as f s =
     with_lock sha root tgt fs as (\<lambda>_. with_claim tgt (single_attempt root pid tgt f)) s"

subsection \<open>The sweep of left-over temporary files\<close>

definition sweeps :: "u32 \<Rightarrow> string \<Rightarrow> string \<Rightarrow> bool" where
  "sweeps pid file name \<longleftrightarrow>
     (let pre = file @ ''.part.'' @ dec (unat pid) @ ''.'' in
      prefix pre name \<and> drop (length pre) name \<noteq> [] \<and>
      list_all is_digit (drop (length pre) name))"

text \<open>The directory's listing may break off with an error, and a removal may fail.\<close>

datatype listing = NoDir | ListErr | Listing "(unit + string) list"

fun sweep_names ::
  "u32 \<Rightarrow> string \<Rightarrow> (string \<Rightarrow> bool) \<Rightarrow> (unit + string) list \<Rightarrow> bool \<times> string list" where
  "sweep_names pid file unremovable [] = (True, [])"
| "sweep_names pid file unremovable (Inl _ # r) = (False, [])"
| "sweep_names pid file unremovable (Inr name # r) =
     (if sweeps pid file name then
        if unremovable name then (False, [])
        else (case sweep_names pid file unremovable r of (ok, gone) \<Rightarrow> (ok, name # gone))
      else sweep_names pid file unremovable r)"

definition remove_partials ::
  "string \<Rightarrow> u32 \<Rightarrow> string \<Rightarrow> string \<Rightarrow> listing \<Rightarrow> (string \<Rightarrow> bool) \<Rightarrow> (HiggsError + unit) \<times> string list" where
  "remove_partials root pid repo file dir unremovable =
     (case dest_path root repo file of
        Inl e \<Rightarrow> (Inl e, [])
      | Inr _ \<Rightarrow>
          (let failed = Inl (DownloadFailed repo file ''partial sweep'') in
           case dir of
             NoDir \<Rightarrow> (Inr (), [])
           | ListErr \<Rightarrow> (failed, [])
           | Listing names \<Rightarrow>
               (case sweep_names pid file unremovable names of
                  (True, gone) \<Rightarrow> (Inr (), gone)
                | (False, gone) \<Rightarrow> (failed, gone))))"


subsection \<open>A transfer is atomic\<close>

lemma ledger_pass_frame [simp]:
  "files (ledger_pass g s) = files s" "seq (ledger_pass g s) = seq s"
  "locks (ledger_pass g s) = locks s" "world (ledger_pass g s) = world s"
  "mirror (ledger_pass g s) = mirror s" "reported (ledger_pass g s) = reported s"
  by (simp_all add: ledger_pass_def split: prod.split)

lemma ledger_progress_frame [simp]:
  "files (ledger_progress tgt n t s) = files s" "seq (ledger_progress tgt n t s) = seq s"
  "locks (ledger_progress tgt n t s) = locks s"
  by (simp_all add: ledger_progress_def Let_def)

lemma fetch_simps [simp]:
  "fetch_chunks [] = []" "fetch_chunks (GotChunk c # es) = c # fetch_chunks es"
  "fetch_chunks (Progressed n t # es) = fetch_chunks es"
  by (simp_all add: fetch_chunks_def)

definition written :: "nat option \<Rightarrow> nat \<Rightarrow> fetch_event list \<Rightarrow> string" where
  "written bad i es =
     concat (case bad of None \<Rightarrow> fetch_chunks es | Some b \<Rightarrow> take (b - i) (fetch_chunks es))"

lemma written_Progressed [simp]: "written bad i (Progressed n t # es) = written bad i es"
  by (cases bad) (simp_all add: written_def)

lemma run_fetch_frame [simp]:
  "seq (run_fetch tgt tmp bad i es s) = seq s" "locks (run_fetch tgt tmp bad i es s) = locks s"
  by (induction tgt tmp bad i es s rule: run_fetch.induct) simp_all

lemma run_fetch_files:
  "files (run_fetch tgt tmp bad i es s) =
     (files s)(tmp := map_option (\<lambda>x. x @ written bad i es) (files s tmp))"
proof (induction tgt tmp bad i es s rule: run_fetch.induct)
  case (1 tgt tmp bad i s)
  then show ?case by (auto simp: written_def map_option.id [unfolded id_def] split: option.split)
next
  case (2 tgt tmp bad i c es s)
  show ?case
  proof (cases "case bad of None \<Rightarrow> False | Some b \<Rightarrow> b \<le> i")
    case True
    then have "written bad i (GotChunk c # es) = written bad (Suc i) es"
      by (auto simp: written_def split: option.splits)
    with 2 True show ?thesis by simp
  next
    case False
    then have "written bad i (GotChunk c # es) = c @ written bad (Suc i) es"
      by (auto simp: written_def Suc_diff_Suc split: option.splits)
        (metis Suc_diff_Suc concat.simps(2) not_le take_Suc_Cons)
    with 2 False show ?thesis by (auto simp: option.map_comp comp_def fun_eq_iff)
  qed
next
  case (3 tgt tmp bad i n t es s)
  then show ?case by simp
qed

lemma written_all:
  "write_failure f = None \<Longrightarrow>
     written (map_option fst (write_err f)) 0 (fetch_events f) = concat (fetch_chunks (fetch_events f))"
  by (auto simp: write_failure_def written_def split: option.splits if_splits)

lemma remove_file_frame [simp]:
  "seq (remove_file b q s) = seq s" "locks (remove_file b q s) = locks s"
  "seq (discard_temp f q s) = seq s" "locks (discard_temp f q s) = locks s"
  by (simp_all add: remove_file_def discard_temp_def)

lemma remove_file_files:
  "files (remove_file b q s) = (if b then files s else (files s)(q := None))"
  "files (discard_temp f q s) =
     (if guard_fails f \<and> remove_fails f then files s else (files s)(q := None))"
  by (auto simp: remove_file_def discard_temp_def)

lemma temp_path_inj: "temp_path pid m dest = temp_path pid n dest \<longleftrightarrow> m = n"
  by (simp add: temp_path_def dec_inj word_unat_eq_iff)

lemma temp_not_dest [simp]: "temp_path pid n dest \<noteq> dest" "dest \<noteq> temp_path pid n dest"
  by (auto simp: temp_path_def)

text \<open>What one attempt does to the files.\<close>

lemma finish_files:
  assumes "finish_attempt tgt f tmp dest s = (r, s')" "tmp \<noteq> dest"
  shows "seq s' = seq s \<and> locks s' = locks s \<and>
    (\<forall>q. q \<noteq> dest \<and> q \<noteq> tmp \<longrightarrow> files s' q = files s q) \<and>
    (\<not> guard_fails f \<longrightarrow> files s' tmp = None) \<and>
    (r = Completed dest \<and> fetch_end f = FetchOk \<and> write_failure f = None \<and> files s' dest = files s tmp \<or>
     (\<forall>p. r \<noteq> Completed p) \<and> files s' dest = files s dest)"
  using assms
  by (auto simp: finish_attempt_def fs_fail_def remove_file_files
      split: fetch_end.splits option.splits if_splits)

text \<open>
  Whatever fails: only the destination and the temporary file are touched, the destination is
  replaced by the whole fetch or left alone, and the temporary file stays only if the guard could
  not remove it (or was there before).
\<close>

lemma attempt_files:
  assumes dest: "dest_path root (t_repo tgt) (t_file tgt) = Inr dest"
    and run: "download_attempt root pid tgt f s = (r, s')"
  shows "locks s' = locks s \<and> ((\<exists>e. r = FetcherError e) \<longrightarrow> seq s' = seq s + 1) \<and>
    (\<forall>q. q \<noteq> dest \<and> q \<noteq> temp_path pid (seq s) dest \<longrightarrow> files s' q = files s q) \<and>
    (\<not> guard_fails f \<and> files s (temp_path pid (seq s) dest) = None \<longrightarrow>
       files s' (temp_path pid (seq s) dest) = None) \<and>
    (r = Completed dest \<and> fetch_end f = FetchOk \<and> write_failure f = None \<and>
       files s' dest = Some (concat (fetch_chunks (fetch_events f))) \<or>
     (\<forall>p. r \<noteq> Completed p) \<and> files s' dest = files s dest)"
proof -
  let ?tmp = "temp_path pid (seq s) dest"
  let ?bad = "map_option fst (write_err f)"
  let ?start = "s\<lparr>seq := seq s + 1, files := (files s)(?tmp \<mapsto> [])\<rparr>"
  let ?fetched = "run_fetch tgt ?tmp ?bad 0 (fetch_events f) ?start"
  consider (early) "s' = s" "\<forall>p. r \<noteq> Completed p" "\<forall>e. r \<noteq> FetcherError e"
    | (create) "s' = remove_file (guard_fails f) ?tmp (s\<lparr>seq := seq s + 1\<rparr>)" "\<forall>p. r \<noteq> Completed p"
    | (fetch) "finish_attempt tgt f ?tmp dest ?fetched = (r, s')"
    using dest run
    by (auto simp: download_attempt_def fs_fail_def Let_def split: if_splits option.splits)
  then show ?thesis
  proof cases
    case early
    then show ?thesis by simp
  next
    case create
    then show ?thesis by (simp add: remove_file_files)
  next
    case fetch
    have fetched: "files ?fetched = (files s)(?tmp \<mapsto> written ?bad 0 (fetch_events f))"
      by (simp add: run_fetch_files)
    from finish_files [OF fetch] show ?thesis
      unfolding fetched by (auto simp: written_all)
  qed
qed


lemma try_lock_cases:
  "try_lock n as path s = (Inl e, s') \<Longrightarrow> s' = s"
  "try_lock n as path s = (Inr g, s') \<Longrightarrow>
     \<not> lock_held s path \<and> (\<forall>j. lock_held s' j \<longleftrightarrow> j = path \<or> lock_held s j)"
  by (induction n as path s rule: try_lock.induct)
    (auto simp: lock_held_def split: list.splits attempt.splits option.splits)

lemma acquire_path_cases:
  "acquire_path fs as path s = (Inl e, s') \<Longrightarrow> lock_held s' = lock_held s"
  "acquire_path fs as path s = (Inr g, s') \<Longrightarrow>
     \<not> lock_held s path \<and> (\<forall>j. lock_held s' j \<longleftrightarrow> j = path \<or> lock_held s j)"
  by (cases fs; auto simp: acquire_path_def fun_eq_iff dest: try_lock_cases)+

lemma acquire_cases:
  "acquire sha root repo file fs as s = (Inl e, s') \<Longrightarrow> lock_held s' = lock_held s"
  "acquire sha root repo file fs as s = (Inr (g, path), s') \<Longrightarrow>
     path = lock_path sha root repo file \<and> \<not> lock_held s path \<and>
     (\<forall>j. lock_held s' j \<longleftrightarrow> j = path \<or> lock_held s j)"
proof -
  let ?path = "lock_path sha root repo file"
  obtain res l where a: "acquire_path fs as ?path s = (res, l)" by fastforce
  note cs = acquire_path_cases [of fs as ?path s]
  show "acquire sha root repo file fs as s = (Inl e, s') \<Longrightarrow> lock_held s' = lock_held s"
    using a cs(1) [of _ l] by (cases res) (auto simp: acquire_def Let_def split: acquire_error.splits)
  show "acquire sha root repo file fs as s = (Inr (g, path), s') \<Longrightarrow>
      path = ?path \<and> \<not> lock_held s path \<and> (\<forall>j. lock_held s' j \<longleftrightarrow> j = path \<or> lock_held s j)"
    using a cs(2) [of _ l] by (cases res) (auto simp: acquire_def Let_def split: acquire_error.splits)
qed

lemma with_lock_cases:
  assumes "with_lock sha root tgt fs as body s = (r, s')"
  obtains (refused) e l where "r = Finished (Inl e)" "s' = s\<lparr>locks := l\<rparr>" "lock_held l = lock_held (locks s)"
  | (held) l dest t where "dest_path root (t_repo tgt) (t_file tgt) = Inr dest"
      "safe_revision (t_revision tgt)"
      "body (lock_path sha root (t_repo tgt) (t_file tgt)) (s\<lparr>locks := l\<rparr>) = (r, t)"
      "s' = t\<lparr>locks := unlock (lock_path sha root (t_repo tgt) (t_file tgt)) (locks t)\<rparr>"
      "\<And>j. lock_held l j \<longleftrightarrow>
         j = lock_path sha root (t_repo tgt) (t_file tgt) \<or> lock_held (locks s) j"
      "\<not> lock_held (locks s) (lock_path sha root (t_repo tgt) (t_file tgt))"
proof (cases "dest_path root (t_repo tgt) (t_file tgt)")
  case (Inl e)
  with assms show ?thesis by (intro refused [of e "locks s"]) (auto simp: with_lock_def)
next
  case dest: (Inr dest)
  show ?thesis
  proof (cases "safe_revision (t_revision tgt)")
    case False
    with dest assms show ?thesis
      by (intro refused [of "bad_revision tgt" "locks s"]) (auto simp: with_lock_def)
  next
    case rev: True
    obtain res l where acq: "acquire sha root (t_repo tgt) (t_file tgt) fs as (locks s) = (res, l)"
      by fastforce
    show ?thesis
    proof (cases res)
      case (Inl e)
      with dest rev acq assms show ?thesis
        by (intro refused [of e l]) (auto simp: with_lock_def dest: acquire_cases)
    next
      case (Inr gp)
      obtain g path where "gp = (g, path)" by (cases gp)
      with Inr acq have a: "path = lock_path sha root (t_repo tgt) (t_file tgt)"
        "\<not> lock_held (locks s) path" "\<And>j. lock_held l j \<longleftrightarrow> j = path \<or> lock_held (locks s) j"
        using acquire_cases(2) by blast+
      obtain t where "body path (s\<lparr>locks := l\<rparr>) = (r, t)" "s' = t\<lparr>locks := unlock path (locks t)\<rparr>"
        using assms dest rev acq Inr \<open>gp = (g, path)\<close> by (auto simp: with_lock_def split: prod.splits)
      with dest rev a show ?thesis by (intro held) auto
    qed
  qed
qed

lemma end_transfer_frame:
  "end_transfer tgt r s = (r', s') \<Longrightarrow>
     r' = r \<and> files s' = files s \<and> locks s' = locks s \<and> seq s' = seq s"
  by (auto simp: end_transfer_def Let_def)

lemma with_claim_cases:
  assumes "with_claim tgt body s = (r, s')"
  obtains (refused) e where "r = Finished (Inl e)" "files s' = files s" "locks s' = locks s"
  | (claimed) t u where "files t = files s" "locks t = locks s" "seq t = seq s"
      "body t = (r, u)" "files s' = files u" "locks s' = locks u"
proof (cases "world s (tick s)")
  case (Pair env io)
  obtain res l where c: "claim_start env io (t_repo tgt, t_file tgt) (ledger s) = (res, l)"
    by fastforce
  show ?thesis
  proof (cases res)
    case (Inl e)
    with c Pair assms show ?thesis by (intro refused [of e]) (auto simp: with_claim_def)
  next
    case (Inr v)
    let ?t = "s\<lparr>ledger := l, tick := tick s + 1, mirror := new_mirror\<rparr>"
    obtain r' u where b: "body ?t = (r', u)" by fastforce
    with Inr c Pair assms have "end_transfer tgt r' u = (r, s')" by (simp add: with_claim_def)
    from end_transfer_frame [OF this] b show ?thesis by (intro claimed [of ?t u]) auto
  qed
qed

text \<open>
  How a transfer may have changed the files: beyond the temporary files only the destination, and
  that by one whole fetch exactly when success is reported.
\<close>

definition replaced ::
  "string \<Rightarrow> string list \<Rightarrow> Fetch list \<Rightarrow> (string \<Rightarrow> string option) \<Rightarrow> outcome \<Rightarrow> (string \<Rightarrow> string option) \<Rightarrow> bool" where
  "replaced dest temps gs before r after \<longleftrightarrow>
     (\<forall>q. q \<noteq> dest \<and> q \<notin> set temps \<longrightarrow> after q = before q) \<and>
     (r = Finished (Inr dest) \<and>
        (\<exists>g \<in> set gs. fetch_end g = FetchOk \<and> write_failure g = None \<and>
           after dest = Some (concat (fetch_chunks (fetch_events g)))) \<or>
      (\<forall>p. r \<noteq> Finished (Inr p)) \<and> after dest = before dest)"

lemma replaced_same: "\<forall>p. r \<noteq> Finished (Inr p) \<Longrightarrow> replaced dest temps gs before r before"
  by (simp add: replaced_def)

definition temp_swept :: "Fetch \<Rightarrow> string \<Rightarrow> (string \<Rightarrow> string option) \<Rightarrow> (string \<Rightarrow> string option) \<Rightarrow> bool" where
  "temp_swept g tmp before after \<longleftrightarrow> (before tmp = None \<and> after tmp \<noteq> None \<longrightarrow> guard_fails g)"

lemma dual_files:
  assumes "dest_path root (t_repo tgt) (t_file tgt) = Inr dest"
    and run: "dual_attempts root pid tgt p f s = (r, s')"
  defines "tmp0 \<equiv> temp_path pid (seq s) dest" and "tmp1 \<equiv> temp_path pid (seq s + 1) dest"
  shows "locks s' = locks s \<and> replaced dest [tmp0, tmp1] [p, f] (files s) r (files s') \<and>
    temp_swept p tmp0 (files s) (files s') \<and> temp_swept f tmp1 (files s) (files s')"
proof -
  obtain a t where a: "download_attempt root pid tgt p s = (a, t)" by fastforce
  note one = attempt_files [OF assms(1) a, folded tmp0_def]
  have apart: "tmp1 \<noteq> tmp0" "tmp0 \<noteq> dest" "tmp1 \<noteq> dest"
    by (simp_all add: tmp0_def tmp1_def temp_path_inj)
  show ?thesis
  proof (cases "\<exists>e. a = FetcherError e")
    case True
    then obtain e where e: "a = FetcherError e" by blast
    obtain b u where b: "download_attempt root pid tgt f t = (b, u)" by fastforce
    have seq: "seq t = seq s + 1" using one e by blast
    note two = attempt_files [OF assms(1) b, unfolded seq, folded tmp1_def]
    have res: "r = (case b of Completed p \<Rightarrow> Finished (Inr p) | AttemptDropped \<Rightarrow> Dropped | _ \<Rightarrow> Finished (Inl exhausted))"
        "s' = u"
      using run a e b by (auto simp: dual_attempts_def split: attempt_result.splits)
    have still: "files t dest = files s dest" using one e by auto
    show ?thesis
      using one two apart still unfolding res replaced_def temp_swept_def
      by (cases b) auto
  next
    case False
    then have res: "r = (case a of Completed p \<Rightarrow> Finished (Inr p) | AttemptDropped \<Rightarrow> Dropped
          | LocalError e \<Rightarrow> Finished (Inl e) | FetcherError e \<Rightarrow> Finished (Inl e))" "s' = t"
      using run a by (auto simp: dual_attempts_def split: attempt_result.splits)
    show ?thesis
      using one apart False unfolding res replaced_def temp_swept_def
      by (cases a) auto
  qed
qed

text \<open>C14. A download is atomic at its destination: whatever the fetchers deliver, wherever an operation
  on the files fails (the removal of a temporary file included), a refusal comes or the transfer
  is dropped, either the transfer reports the destination and the destination holds one fetcher's
  complete bytes, or it does not report success and the destination is as before; beyond it only
  the temporary files of the two attempts can change, and the machine's locks are held as before.
  A temporary file that was not there before stays only if the removal by its guard failed (then the
  \<open>.part\<close> file remains).\<close>

theorem download_atomic:
  assumes "dest_path root (t_repo tgt) (t_file tgt) = Inr dest"
    and run: "download_dual sha root pid tgt fs as p f s = (r, s')"
  shows "replaced dest [temp_path pid (seq s) dest, temp_path pid (seq s + 1) dest] [p, f] (files s) r (files s') \<and>
    temp_swept p (temp_path pid (seq s) dest) (files s) (files s') \<and>
    temp_swept f (temp_path pid (seq s + 1) dest) (files s) (files s') \<and>
    lock_held (locks s') = lock_held (locks s)"
  using run unfolding download_dual_def
proof (cases rule: with_lock_cases)
  case refused
  then show ?thesis by (auto simp: temp_swept_def intro: replaced_same)
next
  case (held l d t)
  let ?path = "lock_path sha root (t_repo tgt) (t_file tgt)"
  let ?files = "\<lambda>before after. replaced dest [temp_path pid (seq s) dest, temp_path pid (seq s + 1) dest] [p, f] before r after \<and>
    temp_swept p (temp_path pid (seq s) dest) before after \<and> temp_swept f (temp_path pid (seq s + 1) dest) before after"
  have "with_claim tgt (dual_attempts root pid tgt p f) (s\<lparr>locks := l\<rparr>) = (r, t)"
    using held(3) by (simp add: download_dual_locked_def protects_def)
  then have "?files (files s) (files t) \<and> locks t = l"
  proof (cases rule: with_claim_cases)
    case refused
    then show ?thesis by (auto simp: temp_swept_def intro: replaced_same)
  next
    case (claimed t' u)
    from dual_files [OF assms(1) claimed(4)] claimed show ?thesis by simp
  qed
  then show ?thesis
    using held(4-6) locks.release_only by (auto simp: fun_eq_iff)
qed


definition demo_target :: PullTarget where
  "demo_target = \<lparr>t_repo = ''o/m'', t_file = ''x.gguf'', t_revision = ''main''\<rparr>"

definition demo_fetch :: Fetch where
  "demo_fetch =
     \<lparr>fetch_events = [GotChunk ''ab'', Progressed 2 None, GotChunk ''c''], fetch_end = FetchOk,
      mkdir_err = None, create_err = None, write_err = None, sync_err = None, rename_err = None,
      remove_fails = False, guard_fails = False\<rparr>"

definition demo_transfer :: Transfer where
  "demo_transfer =
     \<lparr>files = (\<lambda>_. None), seq = 0, locks = no_locks, ledger = view 7 fresh_machine,
      world = (\<lambda>_. (plain_env 7 1, PassOk)), tick = 0, mirror = new_mirror, reported = []\<rparr>"

text \<open>The first fetch breaks and its temporary file cannot be removed; the fallback delivers.\<close>

definition demo_broken :: Fetch where
  "demo_broken = demo_fetch\<lparr>fetch_end := FetchErr exhausted, remove_fails := True, guard_fails := True\<rparr>"

theorem download_atomic_witness:
  "let (r, s') = download_dual id ''/r'' 7 demo_target None [] demo_broken demo_fetch demo_transfer
   in replaced ''/r/o/m/x.gguf'' [temp_path 7 0 ''/r/o/m/x.gguf'', temp_path 7 1 ''/r/o/m/x.gguf'']
        [demo_broken, demo_fetch] (files demo_transfer) r (files s') \<and>
      files s' (temp_path 7 1 ''/r/o/m/x.gguf'') = None"
proof -
  have "dest_path ''/r'' (t_repo demo_target) (t_file demo_target) = Inr ''/r/o/m/x.gguf''"
    by code_simp
  then show ?thesis
    using download_atomic [of "''/r''" demo_target "''/r/o/m/x.gguf''" id 7 None "[]" demo_broken demo_fetch demo_transfer]
    by (auto simp: demo_fetch_def demo_transfer_def temp_swept_def split: prod.split)
qed

subsection \<open>The claims and the progress mirror\<close>

text \<open>The ledger's progress mirror is never far behind: after every report of a fetcher,
  the caller's callback has seen it, the counters for the final record are exactly the last
  report, the mirrored total is right, and the mirrored count is not ahead and less than 8 MiB
  behind; the ledger is touched only when the mirror moves.\<close>

theorem progress_mirror_lag:
  "(let s' = ledger_progress tgt n t s; m = mirror s' in
      reported s' = reported s @ [(n, t)] \<and> last_seen m = (n, t) \<and> last_total m = t \<and>
      last_written m \<le> n \<and> sat_sub n (last_written m) < MIRROR_STEP \<and>
      (if last_written m = last_written (mirror s) \<and> last_total m = last_total (mirror s)
       then mirror_due (mirror s) n t \<or> ledger s' = ledger s \<and> tick s' = tick s
       else tick s' = tick s + 1))"
proof -
  have step: "0 < MIRROR_STEP" by (simp add: MIRROR_STEP_def)
  have zero: "sat_sub x x = 0" for x :: u64 by (simp add: sat_sub_def)
  have tick: "tick (ledger_pass g x) = tick x + 1" for g x
    by (simp add: ledger_pass_def split: prod.split)
  show ?thesis
    using step by (auto simp: ledger_progress_def mirror_report_def mirror_due_def Let_def zero tick not_less)
qed

subsection \<open>The sweep takes only this process's temporary files\<close>

lemma digits_no_dot: "list_all is_digit s \<Longrightarrow> CHR ''.'' \<notin> set s"
  by (auto simp: list_all_iff is_digit_def)

lemma dec_dot_inj:
  assumes "dec m @ ''.'' @ x = dec n @ ''.'' @ y"
  shows "m = n \<and> x = y"
proof -
  have "dec m # split_on CHR ''.'' x = dec n # split_on CHR ''.'' y"
    using assms split_on_append [OF digits_no_dot [OF dec_digits]] by (metis append_Cons append_Nil)
  then have "dec m = dec n" by simp
  with assms show ?thesis by (simp add: dec_inj)
qed

lemma prefix_drop: "prefix p s \<and> Q (drop (length p) s) \<longleftrightarrow> (\<exists>x. s = p @ x \<and> Q x)"
  by (auto simp: prefix_def)

lemma sweeps_iff:
  "sweeps pid file name \<longleftrightarrow>
     (\<exists>x. name = file @ ''.part.'' @ dec (unat pid) @ ''.'' @ x \<and> x \<noteq> [] \<and> list_all is_digit x)"
  using prefix_drop [of "file @ ''.part.'' @ dec (unat pid) @ ''.''" name
      "\<lambda>x. x \<noteq> [] \<and> list_all is_digit x"]
  unfolding sweeps_def Let_def append_assoc by blast

lemma sweeps_temp:
  "sweeps pid file (file @ ''.part.'' @ dec (unat pid') @ ''.'' @ dec n) \<longleftrightarrow> pid' = pid"
proof
  assume "sweeps pid file (file @ ''.part.'' @ dec (unat pid') @ ''.'' @ dec n)"
  then obtain x where "dec (unat pid') @ ''.'' @ dec n = dec (unat pid) @ ''.'' @ x"
    by (auto simp: sweeps_iff)
  then have "unat pid' = unat pid" using dec_dot_inj by blast
  then show "pid' = pid" by (simp add: word_unat_eq_iff)
next
  assume "pid' = pid"
  then show "sweeps pid file (file @ ''.part.'' @ dec (unat pid') @ ''.'' @ dec n)"
    by (auto simp: sweeps_iff dec_digits intro: exI [of _ "dec n"])
qed

lemma sweeps_not_model:
  assumes "sweeps pid file name"
  shows "\<not> suffix ''.gguf'' (to_ascii_lowercase name)"
proof
  assume s: "suffix ''.gguf'' (to_ascii_lowercase name)"
  obtain y x where x: "name = y @ x" "x \<noteq> []" "list_all is_digit x"
    using assms unfolding sweeps_iff append_assoc [symmetric] by blast
  then have l: "name \<noteq> []" and d: "is_digit (last name)"
    by (auto simp: list_all_iff)
  have "last (to_ascii_lowercase name) = CHR ''f''"
    using s by (auto simp: suffix_def)
  moreover have "last (to_ascii_lowercase name) = ascii_lower_char (last name)"
    using l by (simp add: to_ascii_lowercase_def last_map)
  moreover have "ascii_lower_char (last name) = last name"
    using d by (auto simp: is_digit_def ascii_lower_char_def Let_def)
  ultimately show False using d by (simp add: is_digit_def)
qed

lemma sweep_names_gone:
  "sweep_names pid file bad ns = (ok, gone) \<Longrightarrow>
     list_all (sweeps pid file) gone \<and>
     (ok \<longrightarrow> gone = filter (sweeps pid file) (concat (map (case_sum (\<lambda>_. []) (\<lambda>n. [n])) ns)))"
  by (induction pid "file" bad ns arbitrary: ok gone rule: sweep_names.induct)
    (auto split: if_splits prod.splits)

text \<open>The sweep is precise: whatever the listing holds and wherever it fails, every removed
  name is a temporary of this file and this process (a temporary of another process never is)
  and never a model file; and a reported success removed every such temporary that the listing
  showed.\<close>

theorem remove_partials_precise:
  assumes "remove_partials root pid repo file dir bad = (r, gone)"
  shows "list_all (\<lambda>n. sweeps pid file n \<and> \<not> suffix ''.gguf'' (to_ascii_lowercase n) \<and>
      (\<forall>pid' k. n = file @ ''.part.'' @ dec (unat pid') @ ''.'' @ dec k \<longrightarrow> pid' = pid)) gone \<and>
    (r = Inr () \<longrightarrow> (case dir of
        Listing ns \<Rightarrow> gone = filter (sweeps pid file) (concat (map (case_sum (\<lambda>_. []) (\<lambda>n. [n])) ns))
      | NoDir \<Rightarrow> gone = []
      | ListErr \<Rightarrow> False))"
proof -
  have "list_all (sweeps pid file) gone"
    using assms sweep_names_gone
    by (auto simp: remove_partials_def Let_def split: sum.splits listing.splits prod.splits bool.splits)
  moreover have "r = Inr () \<longrightarrow> (case dir of
        Listing ns \<Rightarrow> gone = filter (sweeps pid file) (concat (map (case_sum (\<lambda>_. []) (\<lambda>n. [n])) ns))
      | NoDir \<Rightarrow> gone = []
      | ListErr \<Rightarrow> False)"
    using assms sweep_names_gone [of pid "file" bad]
    by (auto simp: remove_partials_def Let_def split: sum.splits listing.splits prod.splits bool.splits)
  ultimately show ?thesis
    using sweeps_not_model sweeps_temp by (auto simp: list_all_iff)
qed

theorem remove_partials_precise_witness:
  "let gone = snd (remove_partials ''/r'' 7 ''o/m'' ''x.gguf''
        (Listing [Inr ''x.gguf'', Inr ''x.gguf.part.7.12'', Inr ''x.gguf.part.71.2'']) (\<lambda>_. False))
   in gone = [''x.gguf.part.7.12''] \<and> list_all (sweeps 7 ''x.gguf'') gone"
proof -
  let ?dir = "Listing [Inr ''x.gguf'', Inr ''x.gguf.part.7.12'', Inr ''x.gguf.part.71.2'']"
  have r: "remove_partials ''/r'' 7 ''o/m'' ''x.gguf'' ?dir (\<lambda>_. False) =
      (Inr (), [''x.gguf.part.7.12''])" by code_simp
  from remove_partials_precise [OF r] show ?thesis by (simp add: r)
qed

end
