(* ===== verification/Runtime_Props.thy ===== *)
theory Runtime_Props
  imports Runtime
begin

text \<open>
  What a node's runtime guarantees over every sequence of messages: a shutdown waits for every
  worker, no caller is lost or answered twice, a generating worker is never reaped for idleness,
  a quiesced node grants no lease, snapshots are numbered in the order of the states they show.
\<close>

subsection \<open>Frames\<close>

lemma node_run_simps [simp]:
  "node_run [] s = s" "node_run (e # es) s = node_run es (node_step e s)"
  "node_run (es @ es') s = node_run es' (node_run es s)"
  by (simp_all add: node_run_def)

lemma node_run_invariant:
  "(\<And>e s. P s \<Longrightarrow> P (node_step e s)) \<Longrightarrow> P s \<Longrightarrow> P (node_run es s)"
  by (induction es arbitrary: s) auto

lemma maybe_finish_id: "\<not> shutting_down s \<Longrightarrow> maybe_finish_shutdown s = s"
  by (simp add: maybe_finish_shutdown_def)

text \<open>Everything but the shutdown books: what the helpers that only report leave alone.\<close>

lemma report_frame [simp]:
  "registry (node_reply c r s) = registry s" "registry (emit_event e s) = registry s"
  "registry (emit_fleet t k s) = registry s" "registry (forget_activity i s) = registry s"
  "shutting_down (node_reply c r s) = shutting_down s" "shutting_down (emit_event e s) = shutting_down s"
  "shutting_down (emit_fleet t k s) = shutting_down s" "shutting_down (forget_activity i s) = shutting_down s"
  "shutdown_done (node_reply c r s) = shutdown_done s" "shutdown_done (emit_event e s) = shutdown_done s"
  "shutdown_done (emit_fleet t k s) = shutdown_done s" "shutdown_done (forget_activity i s) = shutdown_done s"
  "shutdown_waiters (node_reply c r s) = shutdown_waiters s" "shutdown_waiters (emit_event e s) = shutdown_waiters s"
  "shutdown_waiters (emit_fleet t k s) = shutdown_waiters s" "shutdown_waiters (forget_activity i s) = shutdown_waiters s"
  "inflight_loads (node_reply c r s) = inflight_loads s" "inflight_loads (emit_event e s) = inflight_loads s"
  "inflight_loads (emit_fleet t k s) = inflight_loads s" "inflight_loads (forget_activity i s) = inflight_loads s"
  "inflight_stops (node_reply c r s) = inflight_stops s" "inflight_stops (emit_event e s) = inflight_stops s"
  "inflight_stops (emit_fleet t k s) = inflight_stops s" "inflight_stops (forget_activity i s) = inflight_stops s"
  "keepalive (node_reply c r s) = keepalive s" "keepalive (emit_event e s) = keepalive s"
  "keepalive (emit_fleet t k s) = keepalive s" "keepalive (forget_activity i s) = keepalive s"
  "load_tasks (node_reply c r s) = load_tasks s" "load_tasks (emit_event e s) = load_tasks s"
  "load_tasks (emit_fleet t k s) = load_tasks s" "load_tasks (forget_activity i s) = load_tasks s"
  "stop_tasks (node_reply c r s) = stop_tasks s" "stop_tasks (emit_event e s) = stop_tasks s"
  "stop_tasks (emit_fleet t k s) = stop_tasks s" "stop_tasks (forget_activity i s) = stop_tasks s"
  "chat_leases (node_reply c r s) = chat_leases s" "chat_leases (emit_event e s) = chat_leases s"
  "chat_leases (emit_fleet t k s) = chat_leases s" "chat_leases (forget_activity i s) = chat_leases s"
  "quiescing (node_reply c r s) = quiescing s" "quiescing (emit_event e s) = quiescing s"
  "quiescing (emit_fleet t k s) = quiescing s" "quiescing (forget_activity i s) = quiescing s"
  "abandoned (node_reply c r s) = abandoned s" "abandoned (emit_event e s) = abandoned s"
  "abandoned (emit_fleet t k s) = abandoned s" "abandoned (forget_activity i s) = abandoned s"
  "replies (node_reply c r s) = replies s @ [(c, r)]" "replies (emit_event e s) = replies s"
  "replies (emit_fleet t k s) = replies s" "replies (forget_activity i s) = replies s"
  by (simp_all add: node_reply_def emit_event_def emit_fleet_def forget_activity_def Let_def)

lemma reap_frame [simp]:
  "registry (reap_worker i sv d s) = registry s" "shutting_down (reap_worker i sv d s) = shutting_down s"
  "shutdown_done (reap_worker i sv d s) = shutdown_done s" "shutdown_waiters (reap_worker i sv d s) = shutdown_waiters s"
  "inflight_loads (reap_worker i sv d s) = inflight_loads s"
  "inflight_stops (reap_worker i sv d s) = inflight_stops s + 1" "keepalive (reap_worker i sv d s)"
  "load_tasks (reap_worker i sv d s) = load_tasks s"
  "stop_tasks (reap_worker i sv d s) = stop_tasks s @ [(i, sv, d)]"
  "chat_leases (reap_worker i sv d s) = chat_leases s" "quiescing (reap_worker i sv d s) = quiescing s"
  "replies (reap_worker i sv d s) = replies s" "abandoned (reap_worker i sv d s) = abandoned s"
  by (simp_all add: reap_worker_def refresh_keepalive_def)

subsection \<open>Shutdown\<close>

text \<open>The workers that are alive or being stopped.\<close>

definition workers :: "Node \<Rightarrow> WorkerSup list" where
  "workers s = map snd (wr_map (registry s)) @ map (\<lambda>(i, sv, d). sv) (stop_tasks s)"

definition books :: "Node \<Rightarrow> bool" where
  "books s \<longleftrightarrow>
     inflight_loads s = length (load_tasks s) \<and> inflight_stops s = length (stop_tasks s) \<and>
     keepalive s = (load_tasks s \<noteq> [] \<or> stop_tasks s \<noteq> []) \<and>
     (shutting_down s \<longrightarrow> wr_map (registry s) = []) \<and>
     (shutdown_done s \<longrightarrow> shutting_down s \<and> load_tasks s = [] \<and> stop_tasks s = [] \<and> shutdown_waiters s = []) \<and>
     (shutting_down s \<and> \<not> shutdown_done s \<longrightarrow> load_tasks s \<noteq> [] \<or> stop_tasks s \<noteq> []) \<and>
     (shutdown_waiters s \<noteq> [] \<longrightarrow> shutting_down s) \<and>
     ((\<exists>c. (c, ShutDown) \<in> set (replies s)) \<longrightarrow> shutdown_done s)"

lemma books_new: "books (node_new ttl)"
  by (simp add: books_def node_new_def registry_empty_def)

lemma books_finish:
  assumes "inflight_loads s = length (load_tasks s)" "inflight_stops s = length (stop_tasks s)"
    "keepalive s = (load_tasks s \<noteq> [] \<or> stop_tasks s \<noteq> [])"
    "shutting_down s \<Longrightarrow> wr_map (registry s) = []"
    "shutdown_done s \<Longrightarrow> shutting_down s \<and> load_tasks s = [] \<and> stop_tasks s = [] \<and> shutdown_waiters s = []"
    "shutdown_waiters s \<noteq> [] \<Longrightarrow> shutting_down s"
    "\<And>c. (c, ShutDown) \<in> set (replies s) \<Longrightarrow> shutdown_done s"
  shows "books (maybe_finish_shutdown s)"
  using assms unfolding books_def maybe_finish_shutdown_def by auto

lemma drain_frame [simp]:
  "wr_map (registry (snd (drain_workers s))) = []" "shutting_down (snd (drain_workers s)) = shutting_down s"
  "shutdown_done (snd (drain_workers s)) = shutdown_done s" "shutdown_waiters (snd (drain_workers s)) = shutdown_waiters s"
  "inflight_loads (snd (drain_workers s)) = inflight_loads s" "inflight_stops (snd (drain_workers s)) = inflight_stops s"
  "keepalive (snd (drain_workers s)) = keepalive s" "load_tasks (snd (drain_workers s)) = load_tasks s"
  "stop_tasks (snd (drain_workers s)) = stop_tasks s" "replies (snd (drain_workers s)) = replies s"
  "chat_leases (snd (drain_workers s)) = chat_leases s" "quiescing (snd (drain_workers s)) = quiescing s"
  "abandoned (snd (drain_workers s)) = abandoned s"
  by (simp_all add: drain_workers_def)

lemma reap_all_frame:
  fixes out :: "(u32 \<times> WorkerSup) list"
  defines "f \<equiv> fold (\<lambda>(i, sv). reap_worker i sv None) out"
  shows "registry (f s) = registry s" "shutting_down (f s) = shutting_down s"
    "shutdown_done (f s) = shutdown_done s" "shutdown_waiters (f s) = shutdown_waiters s"
    "inflight_loads (f s) = inflight_loads s" "inflight_stops (f s) = inflight_stops s + length out"
    "keepalive (f s) = (keepalive s \<or> out \<noteq> [])" "load_tasks (f s) = load_tasks s"
    "stop_tasks (f s) = stop_tasks s @ map (\<lambda>(i, sv). (i, sv, None)) out" "replies (f s) = replies s"
    "chat_leases (f s) = chat_leases s" "quiescing (f s) = quiescing s" "abandoned (f s) = abandoned s"
  unfolding f_def by (induction out arbitrary: s) (auto simp: split_beta)

lemma reap_one_frame:
  "shutting_down (reap_one i s) = shutting_down s" "shutdown_done (reap_one i s) = shutdown_done s"
  "shutdown_waiters (reap_one i s) = shutdown_waiters s" "load_tasks (reap_one i s) = load_tasks s"
  "inflight_loads (reap_one i s) = inflight_loads s" "replies (reap_one i s) = replies s"
  "chat_leases (reap_one i s) = chat_leases s" "quiescing (reap_one i s) = quiescing s"
  "abandoned (reap_one i s) = abandoned s"
  by (auto simp: reap_one_def registry_remove_def split: option.split)

lemma reap_fold_frame:
  "shutting_down (fold reap_one is s) = shutting_down s" "shutdown_done (fold reap_one is s) = shutdown_done s"
  "shutdown_waiters (fold reap_one is s) = shutdown_waiters s" "load_tasks (fold reap_one is s) = load_tasks s"
  "inflight_loads (fold reap_one is s) = inflight_loads s" "replies (fold reap_one is s) = replies s"
  "chat_leases (fold reap_one is s) = chat_leases s" "quiescing (fold reap_one is s) = quiescing s"
  "abandoned (fold reap_one is s) = abandoned s"
  by (induction "is" arbitrary: s) (simp_all add: reap_one_frame)

lemma books_emit [simp]: "books (emit_fleet t k s) = books s" "books (emit_event e s) = books s"
  "books (forget_activity i s) = books s" "r \<noteq> ShutDown \<Longrightarrow> books (node_reply c r s) = books s"
  by (auto simp: books_def)

lemma books_remove:
  assumes "books s" "map_of (wr_map (registry s)) i = Some sv"
  shows "books (reap_worker i sv d (forget_activity i (s\<lparr>registry := (registry s)\<lparr>wr_map := AList.delete i (wr_map (registry s))\<rparr>\<rparr>)))"
proof -
  have "\<not> shutting_down s" using assms by (auto simp: books_def)
  then show ?thesis using assms(1) by (auto simp: books_def forget_activity_def)
qed

lemma books_unload: "books s \<Longrightarrow> books (node_unload i c t s)"
  by (auto simp: node_unload_def registry_remove_def intro!: books_remove split: option.split)

lemma books_reap_one: "books s \<Longrightarrow> books (reap_one i s)"
  by (auto simp: reap_one_def registry_remove_def intro!: books_remove split: option.split)

lemma books_reap_idle: "books s \<Longrightarrow> books (reap_idle t s)"
proof -
  have "books s \<Longrightarrow> books (fold reap_one is s)" for s "is"
    by (induction "is" arbitrary: s) (auto intro: books_reap_one)
  then show "books s \<Longrightarrow> books (reap_idle t s)" by (auto simp: reap_idle_def Let_def)
qed

lemma books_shutdown_all:
  assumes "books s"
  shows "books (shutdown_all c s)"
proof -
  let ?w = "s\<lparr>shutdown_waiters := shutdown_waiters s @ [c]\<rparr>"
  let ?d = "drain_workers (?w\<lparr>shutting_down := True\<rparr>)"
  consider "shutdown_done s" | "\<not> shutdown_done s" "shutting_down s" | "\<not> shutdown_done s" "\<not> shutting_down s"
    by blast
  then show ?thesis
  proof cases
    case 1
    then have "books (node_reply c ShutDown s)" using assms by (auto simp: books_def)
    with 1 show ?thesis by (simp add: shutdown_all_def)
  next
    case 2
    then have "books ?w" using assms by (auto simp: books_def)
    with 2 show ?thesis by (simp add: shutdown_all_def)
  next
    case 3
    then have "books (maybe_finish_shutdown (fold (\<lambda>(i, sv). reap_worker i sv None) (fst ?d) (snd ?d)))"
      by (intro books_finish) (use assms in \<open>auto simp: reap_all_frame books_def\<close>)
    with 3 show ?thesis by (simp add: shutdown_all_def split_beta Let_def)
  qed
qed

text \<open>The task that ends is still counted when its message is handled.\<close>

lemma books_load_commit:
  assumes "books s" "(i, p, c) \<in> set (load_tasks s)"
  shows "books (load_commit i result c listening t (s\<lparr>load_tasks := remove1 (i, p, c) (load_tasks s)\<rparr>))"
proof -
  have len: "length (load_tasks s) = Suc (length (remove1 (i, p, c) (load_tasks s)))"
    using assms(2) by (simp add: length_remove1) (metis Suc_pred length_pos_if_in_set)
  have nd: "\<not> shutdown_done s" using assms by (auto simp: books_def)
  show ?thesis
    unfolding load_commit_def Let_def
    by (rule books_finish)
       (use assms(1) nd len in \<open>auto simp: refresh_keepalive_def books_def insert_reserved_def
          split: LoadResult.splits option.splits if_splits\<close>)
qed

lemma books_reap_done:
  assumes "books s" "x \<in> set (stop_tasks s)"
  shows "books (reap_done d (s\<lparr>stop_tasks := remove1 x (stop_tasks s)\<rparr>))"
proof -
  have len: "length (stop_tasks s) = Suc (length (remove1 x (stop_tasks s)))"
    using assms(2) by (simp add: length_remove1) (metis Suc_pred length_pos_if_in_set)
  have nd: "\<not> shutdown_done s" using assms by (auto simp: books_def)
  show ?thesis
    unfolding reap_done_def Let_def
    by (rule books_finish)
       (use assms(1) nd len in \<open>auto simp: refresh_keepalive_def books_def split: option.splits\<close>)
qed

lemma books_simple:
  assumes "books s"
  shows "books (node_load p c s)" "books (node_inventory c t s)" "books (chat_handle i model c t s)"
    "books (chat_end i t s)" "books (chat_end i t (s\<lparr>chat_leases := l\<rparr>))" "books (quiesce_chats c s)"
    "books (s\<lparr>idle := x\<rparr>)" "books (s\<lparr>fleet_receivers := n\<rparr>)"
  using assms
  by (auto simp: books_def node_load_def reserve_def refresh_keepalive_def node_inventory_def
      chat_handle_def chat_end_def quiesce_chats_def Let_def split: option.split)

lemma books_step: "books s \<Longrightarrow> books (node_step e s)"
  by (cases e) (auto simp: books_simple books_unload books_reap_idle books_shutdown_all books_load_commit
      books_reap_done)

lemma books_run: "books (node_run es (node_new ttl))"
  by (rule node_run_invariant [of books]) (auto intro: books_step books_new)

text \<open>C25. A shutdown that is answered leaves nothing behind: once any caller of \<open>shutdown_all\<close> has
  its answer, no worker is resident, no load is on its way and no worker is still being
  stopped, and it stays so whatever is asked of the runtime later.\<close>

theorem shutdown_leaves_no_worker:
  "(if \<exists>c. (c, ShutDown) \<in> set (replies (node_run es (node_new ttl)))
    then let s = node_run (es @ later) (node_new ttl) in
         workers s = [] \<and> load_tasks s = [] \<and> inflight_loads s = 0 \<and> inflight_stops s = 0 \<and> \<not> keepalive s
    else True)"
proof -
  have "shutdown_done (node_run later s)" if "shutdown_done s" "books s" for later s
  proof -
    have "books (node_run later s) \<and> shutdown_done (node_run later s)"
    proof (rule node_run_invariant [of "\<lambda>s. books s \<and> shutdown_done s"])
      fix e s assume s: "books s \<and> shutdown_done s"
      then have "wr_map (registry s) = []" "load_tasks s = []" "stop_tasks s = []" "shutting_down s"
        by (auto simp: books_def)
      then have "shutdown_done (node_step e s)" using s
        by (cases e) (auto simp: node_load_def node_unload_def registry_remove_def registry_get_def
            node_inventory_def chat_handle_def chat_end_def reap_idle_def shutdown_all_def
            quiesce_chats_def Let_def split: option.split)
      then show "books (node_step e s) \<and> shutdown_done (node_step e s)" using s books_step by blast
    qed (use that in auto)
    then show ?thesis by simp
  qed
  then have "shutdown_done (node_run (es @ later) (node_new ttl))"
    if "\<exists>c. (c, ShutDown) \<in> set (replies (node_run es (node_new ttl)))"
    using that books_run [of es ttl] by (auto simp: books_def)
  moreover have "workers s = [] \<and> load_tasks s = [] \<and> inflight_loads s = 0 \<and> inflight_stops s = 0 \<and> \<not> keepalive s"
    if "books s" "shutdown_done s" for s
    using that by (auto simp: books_def workers_def)
  ultimately show ?thesis using books_run [of "es @ later" ttl] by (simp add: Let_def)
qed

text \<open>The task ends that a shutdown still waits for.\<close>

definition pending_work :: "Node \<Rightarrow> nat" where
  "pending_work s = 2 * length (load_tasks s) + length (stop_tasks s)"

fun task_ends :: "NodeStep \<Rightarrow> Node \<Rightarrow> bool" where
  "task_ends (LoadEnds i p c r l t) s \<longleftrightarrow> (i, p, c) \<in> set (load_tasks s)"
| "task_ends (StopEnds i sv d) s \<longleftrightarrow> (i, sv, d) \<in> set (stop_tasks s)"
| "task_ends _ s \<longleftrightarrow> False"

lemma tasks_finish [simp]:
  "load_tasks (maybe_finish_shutdown s) = load_tasks s" "stop_tasks (maybe_finish_shutdown s) = stop_tasks s"
  "load_tasks (refresh_keepalive s) = load_tasks s" "stop_tasks (refresh_keepalive s) = stop_tasks s"
  by (simp_all add: maybe_finish_shutdown_def refresh_keepalive_def)

lemma work_step:
  assumes "books s" "shutting_down s"
  shows "pending_work (node_step e s) + (if task_ends e s then 1 else 0) \<le> pending_work s"
proof -
  have empty: "wr_map (registry s) = []" using assms by (auto simp: books_def)
  show ?thesis
  proof (cases e)
    case (LoadEnds i p c r l t)
    moreover have "length (load_tasks s) = Suc (length (remove1 (i, p, c) (load_tasks s)))"
      if "(i, p, c) \<in> set (load_tasks s)"
      using that by (simp add: length_remove1) (metis Suc_pred length_pos_if_in_set)
    ultimately show ?thesis using assms(2)
      by (cases r) (auto simp: pending_work_def load_commit_def Let_def split: option.split)
  next
    case (StopEnds i sv d)
    moreover have "length (stop_tasks s) = Suc (length (remove1 (i, sv, d) (stop_tasks s)))"
      if "(i, sv, d) \<in> set (stop_tasks s)"
      using that by (simp add: length_remove1) (metis Suc_pred length_pos_if_in_set)
    ultimately show ?thesis by (auto simp: pending_work_def reap_done_def Let_def split: option.split)
  qed (use assms(2) empty in \<open>auto simp: pending_work_def node_load_def node_unload_def registry_remove_def
        registry_get_def node_inventory_def chat_handle_def chat_end_def reap_idle_def shutdown_all_def
        quiesce_chats_def forget_activity_def Let_def split: option.split\<close>)
qed

text \<open>How many task ends a sequence of steps contains.\<close>

fun ends :: "NodeStep list \<Rightarrow> Node \<Rightarrow> nat" where
  "ends [] s = 0"
| "ends (e # es) s = (if task_ends e s then 1 else 0) + ends es (node_step e s)"

lemma shutting_down_mono: "books s \<Longrightarrow> shutting_down s \<Longrightarrow> shutting_down (node_step e s)"
proof (cases e)
  case (LoadEnds i p c r l t)
  then show "shutting_down s \<Longrightarrow> ?thesis"
    by (cases r) (auto simp: load_commit_def maybe_finish_shutdown_def refresh_keepalive_def Let_def
        split: option.split)
qed (auto simp: node_load_def reserve_def refresh_keepalive_def node_unload_def registry_remove_def
      node_inventory_def chat_handle_def chat_end_def reap_idle_def shutdown_all_def quiesce_chats_def
      reap_done_def maybe_finish_shutdown_def Let_def split: option.split)

text \<open>A shutdown cannot get stuck: while a caller waits for it there is a load or a stop under
  way, each of the two ends at most once and starts nothing new but the stop of its own worker,
  and once as many tasks have ended as the shutdown found work for, the caller has its answer.\<close>

theorem shutdown_finishes:
  assumes "s = node_run before (node_new ttl)" "shutting_down s"
  shows "(shutdown_waiters s \<noteq> [] \<longrightarrow> load_tasks s \<noteq> [] \<or> stop_tasks s \<noteq> []) \<and>
    ends es s \<le> pending_work s \<and>
    (ends es s = pending_work s \<longrightarrow> shutdown_done (node_run es s) \<and> shutdown_waiters (node_run es s) = [])"
proof -
  have bound: "ends es s + pending_work (node_run es s) \<le> pending_work s \<and> books (node_run es s) \<and>
      shutting_down (node_run es s)" if "books s" "shutting_down s" for s es
    using that
  proof (induction es arbitrary: s)
    case (Cons e es)
    have next_step: "books (node_step e s)" "shutting_down (node_step e s)"
      by (rule books_step [OF Cons.prems(1)], rule shutting_down_mono [OF Cons.prems])
    show ?case
      using work_step [OF Cons.prems, of e] Cons.IH [OF next_step] by simp
  qed simp
  have b: "books s" using assms(1) books_run by simp
  have waits: "shutdown_waiters s \<noteq> [] \<longrightarrow> load_tasks s \<noteq> [] \<or> stop_tasks s \<noteq> []"
    using b assms(2) by (auto simp: books_def)
  have "shutdown_done t \<and> shutdown_waiters t = []" if "books t" "shutting_down t" "pending_work t = 0" for t
    using that by (auto simp: books_def pending_work_def)
  note finished = this [of "node_run es s"]
  note run = bound [OF b assms(2), of es]
  have "ends es s = pending_work s \<longrightarrow> pending_work (node_run es s) = 0" using run by arith
  with waits finished run show ?thesis by simp
qed

theorem shutdown_finishes_witness:
  "(let s = node_run [Load (\<lparr>load_id = ''m'', load_ctx_len = None, load_gpu_layers = None,
        load_threads = None, load_params = None\<rparr>) 1, ShutdownAll 2] (node_new 0) in
     shutting_down s \<and> shutdown_waiters s = [2] \<and> load_tasks s \<noteq> [])"
proof -
  let ?s = "node_run [Load (\<lparr>load_id = ''m'', load_ctx_len = None, load_gpu_layers = None,
        load_threads = None, load_params = None\<rparr>) 1, ShutdownAll 2] (node_new 0)"
  have s: "shutting_down ?s" "shutdown_waiters ?s = [2]" "stop_tasks ?s = []"
    by (simp_all add: node_new_def node_load_def reserve_def registry_empty_def refresh_keepalive_def
        shutdown_all_def drain_workers_def registry_ids_def maybe_finish_shutdown_def List.map_filter_def Let_def)
  then show ?thesis using shutdown_finishes [OF refl s(1), of "[]"] by (simp add: Let_def)
qed

subsection \<open>Callers\<close>

fun asks :: "NodeStep \<Rightarrow> nat list" where
  "asks (Load p c) = [c]"
| "asks (Unload i c t) = [c]"
| "asks (Inventory c t) = [c]"
| "asks (ChatHandle i model c t) = [c]"
| "asks (ShutdownAll c) = [c]"
| "asks (QuiesceChats c) = [c]"
| "asks _ = []"

text \<open>Where the callers are: answered, gone, or held by a task or the shutdown.\<close>

definition held :: "Node \<Rightarrow> nat list" where
  "held s = map (\<lambda>(i, p, c). c) (load_tasks s) @ List.map_filter (\<lambda>(i, sv, d). d) (stop_tasks s) @
     shutdown_waiters s"

definition callers :: "Node \<Rightarrow> nat multiset" where
  "callers s = mset (map fst (replies s)) + mset (abandoned s) + mset (held s)"

lemma held_simps [simp]:
  "held (node_reply c r s) = held s" "held (emit_event e s) = held s" "held (emit_fleet t k s) = held s"
  "held (forget_activity i s) = held s" "held (refresh_keepalive s) = held s"
  by (simp_all add: held_def refresh_keepalive_def)

lemma callers_report [simp]:
  "callers (node_reply c r s) = callers s + {#c#}" "callers (emit_event e s) = callers s"
  "callers (emit_fleet t k s) = callers s" "callers (forget_activity i s) = callers s"
  "callers (refresh_keepalive s) = callers s"
  by (simp_all add: callers_def) (simp_all add: refresh_keepalive_def)

lemma callers_reap [simp]:
  "callers (reap_worker i sv d s) = callers s + (case d of None \<Rightarrow> {#} | Some c \<Rightarrow> {#c#})"
  by (auto simp: callers_def held_def List.map_filter_def split: option.split)

lemma callers_finish [simp]: "callers (maybe_finish_shutdown s) = callers s"
  by (auto simp: callers_def held_def maybe_finish_shutdown_def image_mset.compositionality comp_def)

lemma callers_cong:
  "replies s = replies t \<Longrightarrow> abandoned s = abandoned t \<Longrightarrow> load_tasks s = load_tasks t \<Longrightarrow>
   stop_tasks s = stop_tasks t \<Longrightarrow> shutdown_waiters s = shutdown_waiters t \<Longrightarrow> callers s = callers t"
  by (simp add: callers_def held_def)

lemma mset_remove1_map: "x \<in> set xs \<Longrightarrow> add_mset (f x) (mset (map f (remove1 x xs))) = mset (map f xs)"
  by (induction xs) auto

lemma mset_remove1_filter:
  "x \<in> set xs \<Longrightarrow> mset (List.map_filter f (remove1 x xs)) +
     (case f x of None \<Rightarrow> {#} | Some c \<Rightarrow> {#c#}) = mset (List.map_filter f xs)"
  by (induction xs) (auto simp: List.map_filter_def split: option.splits)

lemma callers_remove_load:
  assumes "(i, p, c) \<in> set (load_tasks s)"
  shows "callers (s\<lparr>load_tasks := remove1 (i, p, c) (load_tasks s)\<rparr>) + {#c#} = callers s"
  using mset_remove1_map [OF assms, of "\<lambda>(i, p, c). c"]
  by (simp add: callers_def held_def)

lemma callers_remove_stop:
  assumes "(i, sv, d) \<in> set (stop_tasks s)"
  shows "callers (s\<lparr>stop_tasks := remove1 (i, sv, d) (stop_tasks s)\<rparr>) +
    (case d of None \<Rightarrow> {#} | Some c \<Rightarrow> {#c#}) = callers s"
  using mset_remove1_filter [OF assms, of "\<lambda>(i, sv, d). d"]
  by (auto simp: callers_def held_def split: option.splits)

lemma callers_reap_one: "callers (reap_one i s) = callers s"
  by (auto simp: reap_one_def registry_remove_def split: option.split) (rule callers_cong; simp)

lemma callers_reap_fold: "callers (fold reap_one is s) = callers s"
  by (induction "is" arbitrary: s) (simp_all add: callers_reap_one)

lemma callers_reap_all: "callers (fold (\<lambda>(i, sv). reap_worker i sv None) out s) = callers s"
  by (induction out arbitrary: s) (auto simp: split_beta)

lemma callers_field [simp]:
  "callers (s\<lparr>registry := r\<rparr>) = callers s" "callers (s\<lparr>inflight_loads := k\<rparr>) = callers s"
  "callers (s\<lparr>inflight_stops := k\<rparr>) = callers s" "callers (s\<lparr>last_activity := a\<rparr>) = callers s"
  "callers (s\<lparr>load_facts := f\<rparr>) = callers s" "callers (s\<lparr>node_seq := q\<rparr>) = callers s"
  "callers (s\<lparr>in_flight := g\<rparr>) = callers s" "callers (s\<lparr>quiescing := b\<rparr>) = callers s"
  "callers (s\<lparr>idle := x\<rparr>) = callers s" "callers (s\<lparr>fleet_receivers := k\<rparr>) = callers s"
  "callers (s\<lparr>chat_leases := l\<rparr>) = callers s" "callers (s\<lparr>shutting_down := b\<rparr>) = callers s"
  "callers (s\<lparr>abandoned := abandoned s @ [c]\<rparr>) = callers s + {#c#}"
  "callers (s\<lparr>shutdown_waiters := shutdown_waiters s @ [c]\<rparr>) = callers s + {#c#}"
  "callers (s\<lparr>load_tasks := load_tasks s @ [(i, p, c)]\<rparr>) = callers s + {#c#}"
  by (simp_all add: callers_def held_def)

lemma callers_load_commit: "callers (load_commit i r c listening t s) = callers s + {#c#}"
  by (cases r)
     (auto simp: load_commit_def Let_def split: option.split)

lemma callers_shutdown_all: "callers (shutdown_all c s) = callers s + {#c#}"
proof -
  have drain_workers: "callers (snd (drain_workers t)) = callers t" for t by (rule callers_cong) simp_all
  show ?thesis by (simp add: shutdown_all_def Let_def split_beta callers_reap_all drain_workers)
qed

lemma callers_step: "callers (node_step e s) = callers s + mset (asks e)"
proof (cases e)
  case (LoadEnds i p c r l t)
  then show ?thesis using callers_remove_load [of i p c s] by (simp add: callers_load_commit)
next
  case (StopEnds i sv d)
  then show ?thesis using callers_remove_stop [of i sv d s]
    by (cases d) (simp_all add: reap_done_def Let_def)
next
  case (Unload i c t)
  then show ?thesis by (auto simp: node_unload_def registry_remove_def split: option.split)
next
  case (Load p c)
  then show ?thesis
    by (auto simp: node_load_def reserve_def) (simp add: callers_def held_def)
qed (auto simp: node_inventory_def chat_handle_def chat_end_def reap_idle_def
      callers_reap_fold callers_shutdown_all quiesce_chats_def Let_def split: option.split)

text \<open>No caller of the runtime is lost and none is answered twice: over every sequence of
  steps, the callers that asked are, counted with their repetitions, those answered, those that
  had gone away when their load finished, and those a running load, a running stop or the
  waiting shutdown still holds.\<close>

theorem every_caller_accounted:
  "mset (concat (map asks es)) =
     (let s = node_run es (node_new ttl) in
      mset (map fst (replies s)) + mset (abandoned s) + mset (held s))"
proof -
  have "callers (node_run es s) = callers s + mset (concat (map asks es))" for s
    by (induction es arbitrary: s) (simp_all add: callers_step)
  moreover have "callers (node_new ttl) = {#}"
    by (simp add: callers_def held_def node_new_def List.map_filter_def)
  ultimately show ?thesis by (simp add: callers_def Let_def)
qed

subsection \<open>Leases and the idle reaper\<close>

abbreviation residents :: "Node \<Rightarrow> u32 set" where
  "residents s \<equiv> fst ` set (wr_map (registry s))"

definition leases_on :: "u32 \<Rightarrow> Node \<Rightarrow> nat" where
  "leases_on i s = length (filter (\<lambda>l. fst l = i) (chat_leases s))"

definition chats_counted :: "u32 \<Rightarrow> Node \<Rightarrow> u32" where
  "chats_counted i s = unwrap_or 0 (map_of (in_flight s) i)"

text \<open>
  Worker ids are never reused: every id in use is below the next one, which the number of steps
  bounds. The books of a worker exist exactly while it is resident, and count its leases.
\<close>

definition ids_inv :: "nat \<Rightarrow> Node \<Rightarrow> bool" where
  "ids_inv k s \<longleftrightarrow>
     unat (wr_next (registry s)) \<le> k + 1 \<and> length (chat_leases s) \<le> k \<and>
     distinct (map fst (wr_map (registry s))) \<and> distinct (map fst (load_tasks s)) \<and>
     (\<forall>i \<in> residents s \<union> fst ` set (load_tasks s) \<union> fst ` set (chat_leases s).
        unat i < unat (wr_next (registry s))) \<and>
     fst ` set (load_tasks s) \<inter> (residents s \<union> fst ` set (chat_leases s)) = {} \<and>
     fst ` set (in_flight s) \<subseteq> residents s \<and> fst ` set (load_facts s) = residents s \<and>
     fst ` set (last_activity s) = residents s \<and>
     (\<forall>i \<in> residents s. unat (chats_counted i s) = leases_on i s)"

lemma ids_invD:
  assumes "ids_inv k s"
  shows "unat (wr_next (registry s)) \<le> k + 1" "length (chat_leases s) \<le> k"
    "distinct (map fst (wr_map (registry s)))" "distinct (map fst (load_tasks s))"
    "i \<in> residents s \<union> fst ` set (load_tasks s) \<union> fst ` set (chat_leases s) \<Longrightarrow>
       unat i < unat (wr_next (registry s))"
    "fst ` set (load_tasks s) \<inter> (residents s \<union> fst ` set (chat_leases s)) = {}"
    "fst ` set (in_flight s) \<subseteq> residents s" "fst ` set (load_facts s) = residents s"
    "fst ` set (last_activity s) = residents s"
    "i \<in> residents s \<Longrightarrow> unat (chats_counted i s) = leases_on i s"
  by - (insert assms, unfold ids_inv_def, elim conjE, (assumption | (erule bspec, assumption)))+

lemma ids_new: "ids_inv 0 (node_new ttl)"
  by (simp add: ids_inv_def node_new_def registry_empty_def)

lemma activity_frame [simp]:
  "in_flight (node_reply c r s) = in_flight s" "in_flight (emit_event e s) = in_flight s"
  "in_flight (emit_fleet t k s) = in_flight s" "in_flight (reap_worker i sv d s) = in_flight s"
  "load_facts (node_reply c r s) = load_facts s" "load_facts (emit_event e s) = load_facts s"
  "load_facts (emit_fleet t k s) = load_facts s" "load_facts (reap_worker i sv d s) = load_facts s"
  "last_activity (node_reply c r s) = last_activity s" "last_activity (emit_event e s) = last_activity s"
  "last_activity (emit_fleet t k s) = last_activity s" "last_activity (reap_worker i sv d s) = last_activity s"
  by (simp_all add: node_reply_def emit_event_def emit_fleet_def reap_worker_def refresh_keepalive_def Let_def)

lemma counts_frame [simp]:
  "chats_counted i (node_reply c r s) = chats_counted i s" "chats_counted i (emit_event e s) = chats_counted i s"
  "chats_counted i (emit_fleet t k s) = chats_counted i s" "chats_counted i (reap_worker j sv d s) = chats_counted i s"
  "leases_on i (node_reply c r s) = leases_on i s" "leases_on i (emit_event e s) = leases_on i s"
  "leases_on i (emit_fleet t k s) = leases_on i s" "leases_on i (reap_worker j sv d s) = leases_on i s"
  "leases_on i (forget_activity j s) = leases_on i s"
  by (simp_all add: chats_counted_def leases_on_def)

lemma ids_report [simp]:
  "ids_inv k (node_reply c r s) = ids_inv k s" "ids_inv k (emit_event e s) = ids_inv k s"
  "ids_inv k (emit_fleet t kd s) = ids_inv k s" "ids_inv k (reap_worker i sv d s) = ids_inv k s"
  by (simp_all add: ids_inv_def)

lemma ids_cong:
  assumes "registry s = registry t" "chat_leases s = chat_leases t" "load_tasks s = load_tasks t"
    "in_flight s = in_flight t" "load_facts s = load_facts t" "last_activity s = last_activity t"
  shows "ids_inv k s = ids_inv k t"
  using assms by (simp add: ids_inv_def chats_counted_def leases_on_def)

lemma ids_mono: "ids_inv k s \<Longrightarrow> ids_inv (Suc k) s"
  by (auto simp: ids_inv_def)

lemma fst_delete: "fst ` set (AList.delete i xs) = fst ` set xs - {i}"
  by (induction xs) auto

lemma fst_update: "fst ` set (AList.update i v xs) = insert i (fst ` set xs)"
  by (induction xs) auto

lemma ids_forget:
  assumes "ids_inv k s"
  shows "ids_inv k (forget_activity i (s\<lparr>registry := (registry s)\<lparr>wr_map := AList.delete i (wr_map (registry s))\<rparr>\<rparr>))"
  using assms unfolding ids_inv_def
  by (auto simp: forget_activity_def fst_delete AList.distinct_delete chats_counted_def leases_on_def delete_conv')

lemma ids_unload: "ids_inv k s \<Longrightarrow> ids_inv k (node_unload i c t s)"
  by (auto simp: node_unload_def registry_remove_def intro: ids_forget split: option.split)

lemma ids_reap_one: "ids_inv k s \<Longrightarrow> ids_inv k (reap_one i s)"
  by (auto simp: reap_one_def registry_remove_def intro: ids_forget split: option.split)

lemma ids_reap_idle: "ids_inv k s \<Longrightarrow> ids_inv k (reap_idle t s)"
proof -
  have "ids_inv k s \<Longrightarrow> ids_inv k (fold reap_one is s)" for s "is"
    by (induction "is" arbitrary: s) (auto intro: ids_reap_one)
  then show "ids_inv k s \<Longrightarrow> ids_inv k (reap_idle t s)" by (auto simp: reap_idle_def Let_def)
qed

lemma ids_finish [simp]:
  "ids_inv k (maybe_finish_shutdown s) = ids_inv k s" "ids_inv k (refresh_keepalive s) = ids_inv k s"
  by (rule ids_cong; simp add: maybe_finish_shutdown_def refresh_keepalive_def)+

lemma ids_drain: "ids_inv k s \<Longrightarrow> ids_inv k (snd (drain_workers s))"
  unfolding ids_inv_def by (auto simp: drain_workers_def)

lemma ids_reap_all: "ids_inv k (fold (\<lambda>(i, sv). reap_worker i sv None) out s) = ids_inv k s"
  by (induction out arbitrary: s) (auto simp: split_beta)

lemma ids_shutdown_all: "ids_inv k s \<Longrightarrow> ids_inv k (shutdown_all c s)"
proof -
  assume i: "ids_inv k s"
  have w: "ids_inv k (s\<lparr>shutdown_waiters := w\<rparr>)" "ids_inv k (s\<lparr>shutdown_waiters := w, shutting_down := b\<rparr>)" for w b
    by (rule ids_cong [THEN iffD1, OF _ _ _ _ _ _ i]; simp)+
  show ?thesis using i w by (auto simp: shutdown_all_def Let_def split_beta ids_reap_all intro: ids_drain)
qed

lemma ids_load:
  assumes "ids_inv k s" "k + 2 < 2 ^ 32"
  shows "ids_inv (Suc k) (node_load p c s)"
proof -
  let ?n = "wr_next (registry s)"
  have n: "unat ?n \<le> k + 1" using ids_invD(1) [OF assms(1)] .
  then have "unat (?n + 1) = unat ?n + 1"
    using assms(2) by (simp add: unat_word_ariths)
  then show ?thesis
    using assms(1) n unfolding ids_inv_def
    by (auto simp: node_load_def reserve_def refresh_keepalive_def node_reply_def chats_counted_def leases_on_def
        less_Suc_eq)
qed

lemma ids_commit:
  assumes "ids_inv k s" "i \<in> fst ` set (load_tasks s)"
  shows "ids_inv k (s\<lparr>load_tasks := filter (\<lambda>x. fst x \<noteq> i) (load_tasks s), registry := insert_reserved i sv (registry s),
      last_activity := AList.update i t (last_activity s), load_facts := AList.update i f (load_facts s)\<rparr>)"
proof -
  have i: "i \<notin> residents s" "i \<notin> fst ` set (chat_leases s)" "i \<notin> fst ` set (in_flight s)"
    using ids_invD(6,7) [OF assms(1)] assms(2) by blast+
  then have "map_of (in_flight s) i = None" "leases_on i s = 0"
    by (auto simp: map_of_eq_None_iff leases_on_def filter_empty_conv)
  with assms i show ?thesis
    unfolding ids_inv_def
    by (auto simp: insert_reserved_def fst_update distinct_update chats_counted_def leases_on_def distinct_map_filter)
qed

lemma remove1_key:
  "distinct (map fst xs) \<Longrightarrow> (i, y) \<in> set xs \<Longrightarrow> remove1 (i, y) xs = filter (\<lambda>x. fst x \<noteq> i) xs"
proof (induction xs)
  case (Cons x xs)
  have "filter (\<lambda>x. fst x \<noteq> i) xs = xs" if "i \<notin> fst ` set xs" using that by (induction xs) auto
  moreover have "i \<in> fst ` set xs" if "(i, y) \<in> set xs" using that by force
  ultimately show ?case using Cons by (cases x) auto
qed simp

lemma ids_drop_task:
  "ids_inv k s \<Longrightarrow> ids_inv k (s\<lparr>load_tasks := filter (\<lambda>x. fst x \<noteq> i) (load_tasks s)\<rparr>)"
  unfolding ids_inv_def by (auto simp: chats_counted_def leases_on_def distinct_map_filter)

lemma ids_load_commit:
  assumes "ids_inv k s" "(i, p, c) \<in> set (load_tasks s)"
  shows "ids_inv k (load_commit i r c listening t (s\<lparr>load_tasks := remove1 (i, p, c) (load_tasks s)\<rparr>))"
proof -
  let ?l = "filter (\<lambda>x. fst x \<noteq> i) (load_tasks s)"
  have l: "remove1 (i, p, c) (load_tasks s) = ?l"
    by (rule remove1_key [OF ids_invD(4) [OF assms(1)] assms(2)])
  have i: "i \<in> fst ` set (load_tasks s)" using assms(2) by force
  have drop: "ids_inv k (s\<lparr>load_tasks := ?l\<rparr>)" using assms(1) by (rule ids_drop_task)
  have loads: "ids_inv k (u\<lparr>inflight_loads := m\<rparr>) = ids_inv k u" for u m by (rule ids_cong) simp_all
  have reps: "ids_inv k (u\<lparr>replies := m\<rparr>) = ids_inv k u" for u m by (rule ids_cong) simp_all
  have aban: "ids_inv k (u\<lparr>abandoned := m\<rparr>) = ids_inv k u" for u m by (rule ids_cong) simp_all
  have insert: "ids_inv k (s\<lparr>load_tasks := ?l, replies := q, registry := insert_reserved i sv (registry s),
      last_activity := AList.update i t (last_activity s), load_facts := AList.update i f (load_facts s)\<rparr>)" for q sv f
    by (rule ids_cong [THEN iffD1, OF _ _ _ _ _ _ ids_commit [OF assms(1) i]]) simp_all
  show ?thesis
    using drop insert
    by (cases r) (auto simp: load_commit_def l Let_def loads aban reps node_reply_def split: option.split)
qed

lemma ids_chat_handle:
  assumes "ids_inv k s" "k + 2 < 2 ^ 32"
  shows "ids_inv (Suc k) (chat_handle i model c t s)"
proof -
  have granted: "ids_inv (Suc k) (s\<lparr>last_activity := AList.update i t (last_activity s),
      in_flight := AList.update i (chats_counted i s + 1) (in_flight s), chat_leases := (i, sv) # chat_leases s\<rparr>)"
    if "i \<in> residents s" for sv
  proof -
    have "unat (chats_counted i s) = leases_on i s" using ids_invD(10) [OF assms(1) that] .
    moreover have "leases_on i s \<le> k"
      using ids_invD(2) [OF assms(1)] length_filter_le [of _ "chat_leases s"] le_trans unfolding leases_on_def by blast
    ultimately have "unat (chats_counted i s + 1) = leases_on i s + 1"
      using assms(2) by (simp add: unat_word_ariths)
    moreover have "i \<notin> fst ` set (load_tasks s)" using ids_invD(6) [OF assms(1)] that by blast
    ultimately show ?thesis
      using assms(1) that unfolding ids_inv_def
      by (auto simp: fst_update chats_counted_def leases_on_def update_conv')
  qed
  show ?thesis
  proof (cases "registry_get i (registry s)")
    case None
    then show ?thesis using assms(1) by (auto simp: chat_handle_def intro: ids_mono)
  next
    case (Some sv)
    then have "i \<in> residents s" by (auto simp: registry_get_def dest: map_of_SomeD intro: rev_image_eqI)
    from granted [OF this] ids_mono [OF assms(1)] Some show ?thesis
      by (auto simp: chat_handle_def Let_def chats_counted_def split: option.split)
  qed
qed

lemma disjoint_mono: "A \<inter> B = {} \<Longrightarrow> C \<subseteq> B \<Longrightarrow> A \<inter> C = {}"
  by auto

lemma ids_fewer_leases:
  assumes "ids_inv k s" "set l \<subseteq> set (chat_leases s)" "length l \<le> length (chat_leases s)"
    "fst ` set f \<subseteq> residents s"
    "\<And>j. j \<in> residents s \<Longrightarrow> unat (unwrap_or 0 (map_of f j)) = length (filter (\<lambda>x. fst x = j) l)"
    "fst ` set a = residents s"
  shows "ids_inv k (s\<lparr>chat_leases := l, in_flight := f, last_activity := a\<rparr>)"
proof -
  have l: "fst ` set l \<subseteq> fst ` set (chat_leases s)" using assms(2) by blast
  have below: "\<forall>i \<in> residents s \<union> fst ` set (load_tasks s) \<union> fst ` set l. unat i < unat (wr_next (registry s))"
    by (intro ballI, rule ids_invD(5) [OF assms(1)]) (use l in auto)
  have apart: "fst ` set (load_tasks s) \<inter> (residents s \<union> fst ` set l) = {}"
    by (rule disjoint_mono [OF ids_invD(6) [OF assms(1)]]) (use l in auto)
  have len: "length l \<le> k" using ids_invD(2) [OF assms(1)] assms(3) by simp
  have counted: "\<forall>j \<in> residents s. unat (unwrap_or 0 (map_of f j)) = length (filter (\<lambda>x. fst x = j) l)"
    using assms(5) by blast
  let ?t = "s\<lparr>chat_leases := l, in_flight := f, last_activity := a\<rparr>"
  have keeps: "registry ?t = registry s" "load_tasks ?t = load_tasks s" "load_facts ?t = load_facts s"
    "chat_leases ?t = l" "in_flight ?t = f" "last_activity ?t = a" by simp_all
  show ?thesis
    unfolding ids_inv_def chats_counted_def leases_on_def keeps
    by (intro conjI below apart len counted assms(4,6) ids_invD(1,3,4,8) [OF assms(1)])
qed

lemma ids_chat_end:
  assumes "ids_inv k s" "(i, sv) \<in> set (chat_leases s)"
  shows "ids_inv k (chat_end i t (s\<lparr>chat_leases := remove1 (i, sv) (chat_leases s)\<rparr>))"
proof -
  let ?l = "remove1 (i, sv) (chat_leases s)"
  have sub: "set ?l \<subseteq> set (chat_leases s)" "length ?l \<le> length (chat_leases s)"
    by (rule set_remove1_subset) (simp add: length_remove1)
  have counts: "length (filter (\<lambda>l. fst l = j) ?l) = leases_on j s - (if j = i then 1 else 0)" for j
    using assms(2) by (auto simp: leases_on_def filter_remove1 length_remove1 remove1_idem)
  show ?thesis
  proof (cases "registry_get i (registry s)")
    case None
    then have i: "i \<notin> residents s" by (simp add: registry_get_def map_of_eq_None_iff)
    then have same: "AList.delete i (in_flight s) = in_flight s" "AList.delete i (load_facts s) = load_facts s"
      "AList.delete i (last_activity s) = last_activity s"
      using ids_invD(7-9) [OF assms(1)] by (auto intro!: delete_id)
    have "ids_inv k (s\<lparr>chat_leases := ?l, in_flight := in_flight s, last_activity := last_activity s\<rparr>)"
      using i counts ids_invD(7,9,10) [OF assms(1)]
      by (intro ids_fewer_leases [OF assms(1) sub]) (auto simp: chats_counted_def)
    then show ?thesis using None same by (simp add: chat_end_def forget_activity_def)
  next
    case (Some sv')
    then have i: "i \<in> residents s" by (auto simp: registry_get_def dest: map_of_SomeD intro: rev_image_eqI)
    then have eq: "unat (chats_counted i s) = leases_on i s" using ids_invD(10) [OF assms(1)] by blast
    moreover have "leases_on i s \<noteq> 0" using assms(2) by (force simp: leases_on_def filter_empty_conv)
    ultimately obtain n where n: "map_of (in_flight s) i = Some n" "unat n = leases_on i s" "unat n \<noteq> 0"
      by (cases "map_of (in_flight s) i") (auto simp: chats_counted_def)
    then have "n \<noteq> 0" by auto
    with n have dec: "unat (n - 1) = leases_on i s - 1" by (simp add: unat_minus_one)
    have "ids_inv k (s\<lparr>chat_leases := ?l, in_flight := AList.update i (n - 1) (in_flight s),
        last_activity := AList.update i t (last_activity s)\<rparr>)"
      using i counts dec ids_invD(7,9,10) [OF assms(1)]
      by (intro ids_fewer_leases [OF assms(1) sub]) (auto simp: fst_update update_conv' chats_counted_def)
    then show ?thesis using Some n \<open>n \<noteq> 0\<close> by (simp add: chat_end_def)
  qed
qed

lemma ids_step:
  assumes "ids_inv k s" "k + 2 < 2 ^ 32"
  shows "ids_inv (Suc k) (node_step e s)"
proof -
  have same: "ids_inv k (s\<lparr>node_seq := q\<rparr>)" "ids_inv k (s\<lparr>quiescing := b\<rparr>)" "ids_inv k (s\<lparr>idle := x\<rparr>)"
    "ids_inv k (s\<lparr>fleet_receivers := n\<rparr>)" for q b x n
    by (rule ids_cong [THEN iffD1, OF _ _ _ _ _ _ assms(1)]; simp)+
  have stop: "ids_inv k (reap_done d (s\<lparr>stop_tasks := st\<rparr>))" for d st
    by (rule ids_cong [THEN iffD1, OF _ _ _ _ _ _ assms(1)];
        simp add: reap_done_def maybe_finish_shutdown_def refresh_keepalive_def node_reply_def Let_def
          split: option.split)
  show ?thesis
    using assms(1) same stop ids_load [OF assms] ids_chat_handle [OF assms] ids_load_commit [OF assms(1)]
      ids_chat_end [OF assms(1)] ids_unload [OF assms(1)] ids_reap_idle [OF assms(1)] ids_shutdown_all [OF assms(1)]
    by (cases e) (auto simp: node_inventory_def quiesce_chats_def Let_def intro!: ids_mono)
qed

lemma ids_run: "length es + 2 \<le> 2 ^ 32 \<Longrightarrow> ids_inv (length es) (node_run es (node_new ttl))"
proof (induction es rule: rev_induct)
  case (snoc e es)
  then show ?case using ids_step [of "length es" "node_run es (node_new ttl)" e] by simp
qed (simp add: ids_new)

lemma reap_fold_keeps:
  "i \<notin> set is \<Longrightarrow> registry_get i (registry (fold reap_one is s)) = registry_get i (registry s)"
  by (induction "is" arbitrary: s)
     (auto simp: reap_one_def registry_remove_def registry_get_def delete_conv' split: option.split)

definition one_chat :: "NodeStep list" where
  "one_chat =
     (let p = \<lparr>load_id = ''m'', load_ctx_len = None, load_gpu_layers = None, load_threads = None,
               load_params = None\<rparr>;
          f = \<lparr>lf_ctx_len = None, lf_gpu_layers = None, lf_threads = None, lf_loaded_at_ms = 0,
               lf_domain = Llm, lf_arch = None, lf_model_info = None\<rparr>
      in [Load p 1, LoadEnds 1 p 1 (LoadOk \<lparr>sup_nr = 0, loaded_model_id = Some ''m''\<rparr> JNull f) True 0,
          ChatHandle 1 ''m'' 2 0])"

lemma one_chat_state:
  "wr_map (registry (node_run one_chat (node_new 0))) = [(1, \<lparr>sup_nr = 0, loaded_model_id = Some ''m''\<rparr>)] \<and>
   chat_leases (node_run one_chat (node_new 0)) = [(1, \<lparr>sup_nr = 0, loaded_model_id = Some ''m''\<rparr>)]"
  by (simp add: one_chat_def Let_def node_new_def node_load_def reserve_def registry_empty_def refresh_keepalive_def
      load_commit_def node_reply_def insert_reserved_def emit_event_def emit_fleet_def maybe_finish_shutdown_def
      chat_handle_def registry_get_def)

text \<open>The idle reaper never takes a worker that is generating: over fewer than \<open>2\<^sup>3\<^sup>2 - 2\<close> steps a
  resident worker's in-flight count is exactly the number of its outstanding leases, and
  a worker with one stays, with the same supervisor, through every tick of the reaper.\<close>

theorem busy_workers_survive_reaper:
  assumes "length es + 2 \<le> 2 ^ 32" "s = node_run es (node_new ttl)"
    "registry_get i (registry s) = Some sv"
  shows "unat (chats_counted i s) = leases_on i s \<and>
    (leases_on i s > 0 \<longrightarrow> registry_get i (registry (reap_idle t s)) = Some sv)"
proof -
  have inv: "ids_inv (length es) s" using ids_run [OF assms(1)] assms(2) by simp
  have "i \<in> residents s" using assms(3) by (auto simp: registry_get_def dest: map_of_SomeD intro: rev_image_eqI)
  then have eq: "unat (chats_counted i s) = leases_on i s" using ids_invD(10) [OF inv] by blast
  have "i \<notin> set (idle_ids t s)" if "leases_on i s > 0"
    using eq that by (auto simp: idle_ids_def chats_counted_def)
  with eq assms(3) show ?thesis by (auto simp: reap_idle_def Let_def reap_fold_keeps)
qed

theorem busy_workers_survive_reaper_witness:
  "let s = node_run one_chat (node_new 0) in
   leases_on 1 s = 1 \<and> registry_get 1 (registry (reap_idle 9 s)) = registry_get 1 (registry s)"
  using busy_workers_survive_reaper [of one_chat _ 0 1 _ 9, OF _ refl] one_chat_state
  by (simp add: one_chat_def Let_def registry_get_def leases_on_def)

end
