(* ===== verification/Runtime_Load.thy ===== *)
theory Runtime_Load
  imports Runtime_Props
begin

text \<open>
  The chat gate of a node's runtime, the load task that runs beside the actor, the request it
  sends to its worker, and the timing of the idle reaper.
\<close>

subsection \<open>The chat gate\<close>

text \<open>The verdict of the gate, as the callers see it.\<close>

definition gate :: "Node \<Rightarrow> u32 \<Rightarrow> string \<Rightarrow> HiggsError + WorkerSup" where
  "gate s i model =
     (if quiescing s then Inl (WorkerDead ''node runtime shutting down'')
      else case map_of (wr_map (registry s)) i of
        None \<Rightarrow> Inl (WorkerDead (''no worker w-'' @ dec (unat i)))
      | Some sv \<Rightarrow>
          (case map_of (load_facts s) i of
             Some f \<Rightarrow>
               if loaded_model_id sv = Some model \<and> lf_domain f \<noteq> Llm
               then Inl (ModelNotChatCapable model (unwrap_or ''unknown'' (lf_arch f)) (lf_domain f))
               else Inr sv
           | None \<Rightarrow> Inr sv))"

text \<open>The chat gate: a request gets a lease exactly if the node is not draining, the worker is
  resident and it is not a worker of another class serving the very model asked for; every
  refusal is the typed error of its cause and leaves no trace beside the answer: no activity
  stamp, no in-flight hold, no push.\<close>

theorem chat_gate_refusals:
  "(case gate s i model of
      Inl e \<Rightarrow> chat_handle i model c t s = node_reply c (Failed e) s
    | Inr sv \<Rightarrow>
        (let s' = chat_handle i model c t s in
         replies s' = replies s @ [(c, Leased sv)] \<and> chat_leases s' = (i, sv) # chat_leases s \<and>
         map_of (last_activity s') i = Some t \<and>
         registry s' = registry s \<and>
         (\<forall>j. chats_counted j s' = chats_counted j s + (if j = i then 1 else 0))))"
proof -
  have count: "chats_counted j (emit_fleet t k u) = chats_counted j u" for j k u
    by (simp add: chats_counted_def emit_fleet_def Let_def)
  have activity: "last_activity (emit_fleet t k u) = last_activity u" for k u
    by (simp add: emit_fleet_def Let_def)
  show ?thesis
    by (auto simp: gate_def chat_handle_def registry_get_def shutting_down_error_def no_worker_error_def Let_def
        chats_counted_def update_conv' split: option.splits if_splits)
qed

subsection \<open>The context window\<close>

text \<open>The window of a load is never zero: an explicit non-zero request is sent and used as it
  is; without one the trained context below \<open>2\<^sup>3\<^sup>2\<close> is capped, and with neither nothing is sent and
  the worker's default holds. A trained context of \<open>2\<^sup>3\<^sup>2\<close> or more is reduced to its low 32 bits
  before the cap.\<close>

theorem ctx_window:
  "(case effective_ctx requested ctx_train of
      (wire, allocated) \<Rightarrow>
        allocated > 0 \<and> allocated = unwrap_or 4096 wire \<and>
        wire = (if requested \<noteq> None \<and> requested \<noteq> Some 0 then requested
                else case ctx_train of
                  None \<Rightarrow> None
                | Some n \<Rightarrow>
                    if uint n mod 2 ^ 32 = 0 then None
                    else Some (word_of_int (min (uint n mod 2 ^ 32) 32768))))"
proof -
  have cap: "min (ucast n) DEFAULT_CTX_CAP = (word_of_int (min (uint n mod 2 ^ 32) 32768) :: u32)" for n :: u64
  proof -
    have n: "uint (ucast n :: u32) = uint n mod 2 ^ 32" by (simp add: unsigned_ucast_eq take_bit_eq_mod)
    have "uint (min (ucast n) DEFAULT_CTX_CAP) = min (uint n mod 2 ^ 32) 32768"
      by (auto simp: min_def word_le_def n DEFAULT_CTX_CAP_def)
    then show ?thesis by (metis word_of_int_uint)
  qed
  have zero: "min (ucast n) DEFAULT_CTX_CAP > 0 \<longleftrightarrow> uint n mod 2 ^ 32 \<noteq> 0" for n :: u64
  proof -
    have "(ucast n :: u32) = 0 \<longleftrightarrow> uint n mod 2 ^ 32 = 0"
      by (simp add: uint_0_iff [symmetric] unsigned_ucast_eq take_bit_eq_mod)
    then show ?thesis by (auto simp: min_def DEFAULT_CTX_CAP_def word_neq_0_conv [symmetric])
  qed
  show ?thesis
    using zero cap
    by (cases requested; cases ctx_train)
       (auto simp: effective_ctx_def Let_def opt_filter_def DEFAULT_WORKER_CTX_def word_neq_0_conv)
qed

subsection \<open>The request to the worker\<close>

definition overridden :: "string \<Rightarrow> json option \<Rightarrow> json option" where
  "overridden k v =
     opt_filter (\<lambda>v. \<not> is_null v \<and> \<not> (k \<in> set zero_counts \<and> as_u64 v = Some 0))
       (if k \<in> set base_fields then None else v)"

lemma overridden_None [simp]: "overridden k None = None"
  by (simp add: overridden_def)

lemma merge_get:
  "distinct (map fst m) \<Longrightarrow>
   map_of (fold merge_override m obj) k =
     (case overridden k (map_of m k) of Some v \<Rightarrow> Some v | None \<Rightarrow> map_of obj k)"
proof (induction m arbitrary: obj)
  case (Cons kv m)
  obtain j v where kv: "kv = (j, v)" by (cases kv)
  have step: "map_of (merge_override (j, v) obj) k =
      (if j = k then (case overridden k (Some v) of Some v \<Rightarrow> Some v | None \<Rightarrow> map_of obj k) else map_of obj k)"
    by (auto simp: merge_override_def overridden_def json_insert_def update_conv')
  have "j = k \<Longrightarrow> map_of m k = None" using Cons.prems kv by (auto simp: map_of_eq_None_iff)
  with Cons.IH [of "merge_override (j, v) obj"] Cons.prems kv step show ?case
    by (auto split: option.split)
qed simp

lemma base_get:
  "map_of (fold merge_override m obj) k = map_of obj k" if "k \<notin> fst ` set m \<or> k \<in> set base_fields"
  using that
  by (induction m arbitrary: obj) (auto simp: merge_override_def json_insert_def update_conv')

text \<open>What a load puts on the wire: the node's own resolution of the model, path, window,
  offload and threads is authoritative, whatever the overrides say of them; a null or an explicit
  zero count is left out, so that the worker's default applies; every other override is sent as
  it is; and nothing else.\<close>

theorem load_wire_contract:
  assumes "distinct (map fst (unwrap_or [] extra))" "''id'' \<notin> fst ` set (unwrap_or [] extra)"
    "''path'' \<notin> fst ` set (unwrap_or [] extra)"
  shows "json_get k (worker_load_params i path ctx gpu thr extra) =
    (if k = ''id'' then Some (JStr i)
     else if k = ''path'' then Some (JStr path)
     else if k = ''ctx_len'' then map_option (\<lambda>c. JInt (uint c)) ctx
     else if k = ''gpu_layers'' then map_option gpu_layers_to_json gpu
     else if k = ''threads'' then (if thr = Some 0 then None else map_option (\<lambda>c. JInt (uint c)) thr)
     else opt_filter (\<lambda>v. \<not> is_null v \<and> \<not> (k \<in> set zero_counts \<and> as_u64 v = Some 0))
            (map_of (unwrap_or [] extra) k))"
proof -
  let ?m = "unwrap_or [] extra"
  obtain obj where obj: "worker_load_params i path ctx gpu thr extra = JObj (fold merge_override ?m obj)"
    "map_of obj k = (if k = ''id'' then Some (JStr i)
     else if k = ''path'' then Some (JStr path)
     else if k = ''ctx_len'' then map_option (\<lambda>c. JInt (uint c)) ctx
     else if k = ''gpu_layers'' then map_option gpu_layers_to_json gpu
     else if k = ''threads'' then (if thr = Some 0 then None else map_option (\<lambda>c. JInt (uint c)) thr)
     else None)"
    by (cases extra; cases ctx; cases gpu; cases thr)
       (force simp: worker_load_params_def Let_def json_insert_def update_conv' opt_filter_def word_neq_0_conv)+
  have base: "overridden k (map_of ?m k) = None" if "k \<in> set base_fields \<or> k = ''id'' \<or> k = ''path''"
    using that assms(2,3) by (auto simp: overridden_def map_of_eq_None_iff [THEN iffD2])
  show ?thesis
  proof (cases "k \<in> set base_fields \<or> k = ''id'' \<or> k = ''path''")
    case True
    with base [OF True] show ?thesis
      unfolding obj(1) json_get.simps merge_get [OF assms(1)] obj(2)
      by (auto simp: base_fields_def)
  next
    case False
    then show ?thesis
      unfolding obj(1) json_get.simps merge_get [OF assms(1)] obj(2)
      by (auto simp: base_fields_def overridden_def split: option.split)
  qed
qed

theorem load_wire_contract_witness:
  "json_get ''n_batch'' (worker_load_params ''m'' ''/m.gguf'' (Some 2048) None (Some 0)
     (Some [(''ctx_len'', JInt 7), (''n_batch'', JInt 0), (''n_ubatch'', JInt 64)])) = None \<and>
   json_get ''ctx_len'' (worker_load_params ''m'' ''/m.gguf'' (Some 2048) None (Some 0)
     (Some [(''ctx_len'', JInt 7), (''n_batch'', JInt 0), (''n_ubatch'', JInt 64)])) = Some (JInt 2048)"
  by (subst (1 2) load_wire_contract) (simp_all add: zero_counts_def u64_max_def)

subsection \<open>The load task\<close>

text \<open>A load task ends in one of three ways, each with its typed outcome: before a worker exists
  it fails with the error of the scan or of the memory guard; once one is spawned it carries that
  worker out in every outcome, with the error of its start or of the load request, or with the
  model recorded for a replay and the facts of the resolved file.\<close>

theorem load_outcomes:
  assumes "\<And>q. ''id'' \<notin> fst ` set (le_to_obj env q) \<and> ''path'' \<notin> fst ` set (le_to_obj env q)"
  shows "case do_load env p of
      LoadFailure None e \<Rightarrow>
        le_resolve env (load_id p) = Inl e \<or>
        (\<exists>r. le_resolve env (load_id p) = Inr r \<and> le_headroom env (load_id p) (rm_size_bytes r) = Some e)
    | LoadFailure (Some sv) e \<Rightarrow>
        sup_nr sv = le_spawn env \<and> loaded_model_id sv = None \<and>
        (le_start_for env (load_id p) = Some e \<or>
         le_start_for env (load_id p) = None \<and> (\<exists>lp. le_m_load env lp = Inl e \<and> get_str ''id'' lp = Some (load_id p)))
    | LoadOk sv loaded f \<Rightarrow>
        sup_nr sv = le_spawn env \<and> loaded_model_id sv = Some (load_id p) \<and>
        (\<exists>r lp. le_resolve env (load_id p) = Inr r \<and> le_headroom env (load_id p) (rm_size_bytes r) = None \<and>
           le_start_for env (load_id p) = None \<and> le_m_load env lp = Inr loaded \<and>
           get_str ''id'' lp = Some (load_id p) \<and> get_str ''path'' lp = Some (rm_path r) \<and>
           lf_domain f = rm_domain r \<and> lf_arch f = rm_arch r \<and> lf_model_info f = Some (rm_full r) \<and>
           lf_ctx_len f = Some (snd (effective_ctx (load_ctx_len p) (rm_ctx_train r))))"
proof -
  have ident: "get_str ''id'' (worker_load_params (load_id p) path ctx gpu thr (map_option (le_to_obj env) q)) =
      Some (load_id p)" for path ctx gpu thr q
    using assms
    by (cases q; cases ctx; cases gpu; cases thr)
       (auto simp: worker_load_params_def Let_def json_insert_def base_get update_conv' opt_filter_def)
  have path: "get_str ''path'' (worker_load_params (load_id p) path ctx gpu thr (map_option (le_to_obj env) q)) =
      Some path" for path ctx gpu thr q
    using assms
    by (cases q; cases ctx; cases gpu; cases thr)
       (auto simp: worker_load_params_def Let_def json_insert_def base_get update_conv' opt_filter_def)
  show ?thesis
    by (simp add: do_load_def Let_def ident split: sum.split option.split prod.split)
       (use ident path in blast)
qed

theorem load_outcomes_witness:
  "let env = \<lparr>le_resolve = (\<lambda>i. Inl (ModelNotFound i)), le_headroom = (\<lambda>i n. None), le_spawn = 7,
                le_start_for = (\<lambda>i. None), le_m_load = Inr, le_to_obj = (\<lambda>q. []), le_unix_ms = 0\<rparr>;
       p = \<lparr>load_id = ''m'', load_ctx_len = None, load_gpu_layers = None, load_threads = None, load_params = None\<rparr>
   in do_load env p = LoadFailure None (ModelNotFound ''m'') \<and> le_resolve env (load_id p) = Inl (ModelNotFound ''m'')"
  using load_outcomes [of "\<lparr>le_resolve = (\<lambda>i. Inl (ModelNotFound i)), le_headroom = (\<lambda>i n. None), le_spawn = 7,
                le_start_for = (\<lambda>i. None), le_m_load = Inr, le_to_obj = (\<lambda>q. []), le_unix_ms = 0\<rparr>"
      "\<lparr>load_id = ''m'', load_ctx_len = None, load_gpu_layers = None, load_threads = None, load_params = None\<rparr>"]
  by (simp add: do_load_def Let_def)

subsection \<open>No worker is orphaned\<close>

text \<open>The workers a step's load brought up, and those a step finished stopping.\<close>

fun brought_up :: "NodeStep \<Rightarrow> Node \<Rightarrow> WorkerSup list" where
  "brought_up (LoadEnds i p c r l t) s =
     (if (i, p, c) \<in> set (load_tasks s)
      then case r of LoadOk sv _ _ \<Rightarrow> [sv] | LoadFailure (Some sv) _ \<Rightarrow> [sv] | LoadFailure None _ \<Rightarrow> []
      else [])"
| "brought_up e s = []"

fun stopped :: "NodeStep \<Rightarrow> Node \<Rightarrow> WorkerSup list" where
  "stopped (StopEnds i sv d) s = (if (i, sv, d) \<in> set (stop_tasks s) then [sv] else [])"
| "stopped e s = []"

fun along :: "(NodeStep \<Rightarrow> Node \<Rightarrow> 'a list) \<Rightarrow> NodeStep list \<Rightarrow> Node \<Rightarrow> 'a list" where
  "along f [] s = []"
| "along f (e # es) s = f e s @ along f es (node_step e s)"

lemma along_append [simp]: "along f (es @ es') s = along f es s @ along f es' (node_run es s)"
  by (induction es arbitrary: s) auto

lemma mset_delete:
  "distinct (map fst xs) \<Longrightarrow> map_of xs i = Some v \<Longrightarrow>
   add_mset v (mset (map snd (AList.delete i xs))) = mset (map snd xs)"
proof (induction xs)
  case (Cons x xs)
  have "AList.delete i xs = xs" if "i \<notin> fst ` set xs" using that by (rule delete_id)
  with Cons show ?case by (cases x) (auto simp del: mset_filter mset_map simp: mset_map [symmetric])
qed simp

lemma workers_reap [simp]: "mset (workers (reap_worker i sv d s)) = add_mset sv (mset (workers s))"
  by (simp add: workers_def)

lemma workers_cong:
  "wr_map (registry s) = wr_map (registry s') \<Longrightarrow> stop_tasks s = stop_tasks s' \<Longrightarrow> workers s = workers s'"
  by (simp add: workers_def)

lemma workers_frame [simp]:
  "workers (node_reply c r s) = workers s" "workers (emit_event e s) = workers s"
  "workers (emit_fleet t k s) = workers s" "workers (forget_activity i s) = workers s"
  "workers (refresh_keepalive s) = workers s" "workers (maybe_finish_shutdown s) = workers s"
  by (rule workers_cong; simp add: refresh_keepalive_def maybe_finish_shutdown_def)+

lemma workers_field [simp]:
  "workers (s\<lparr>inflight_loads := n\<rparr>) = workers s" "workers (s\<lparr>inflight_stops := n\<rparr>) = workers s"
  "workers (s\<lparr>load_tasks := x\<rparr>) = workers s" "workers (s\<lparr>load_facts := f\<rparr>) = workers s"
  "workers (s\<lparr>last_activity := a\<rparr>) = workers s" "workers (s\<lparr>in_flight := b\<rparr>) = workers s"
  "workers (s\<lparr>chat_leases := l\<rparr>) = workers s" "workers (s\<lparr>abandoned := ab\<rparr>) = workers s"
  "workers (s\<lparr>shutting_down := q\<rparr>) = workers s" "workers (s\<lparr>shutdown_waiters := w\<rparr>) = workers s"
  "workers (s\<lparr>quiescing := q\<rparr>) = workers s" "workers (s\<lparr>idle := z\<rparr>) = workers s"
  "workers (s\<lparr>fleet_receivers := n\<rparr>) = workers s" "workers (s\<lparr>node_seq := y\<rparr>) = workers s"
  by (rule workers_cong; simp)+

lemma workers_remove:
  assumes "ids_inv k s" "map_of (wr_map (registry s)) i = Some sv"
  shows "add_mset sv (mset (workers (s\<lparr>registry := (registry s)\<lparr>wr_map := AList.delete i (wr_map (registry s))\<rparr>\<rparr>))) =
    mset (workers s)"
  using mset_delete [OF ids_invD(3) [OF assms(1)] assms(2)] by (simp add: workers_def)

lemma workers_unload: "ids_inv k s \<Longrightarrow> mset (workers (node_unload i c t s)) = mset (workers s)"
  by (auto simp: node_unload_def registry_remove_def workers_remove split: option.split)

lemma workers_reap_one: "ids_inv k s \<Longrightarrow> mset (workers (reap_one i s)) = mset (workers s)"
  by (auto simp: reap_one_def registry_remove_def workers_remove split: option.split)

lemma workers_reap_idle: "ids_inv k s \<Longrightarrow> mset (workers (reap_idle t s)) = mset (workers s)"
proof -
  have "ids_inv k s \<Longrightarrow> mset (workers (fold reap_one is s)) = mset (workers s)" for s "is"
    by (induction "is" arbitrary: s) (auto simp: workers_reap_one ids_reap_one)
  then show "ids_inv k s \<Longrightarrow> ?thesis" by (auto simp: reap_idle_def Let_def)
qed

lemma workers_reap_all:
  "mset (workers (fold (\<lambda>(i, sv). reap_worker i sv None) out s)) = mset (workers s) + mset (map snd out)"
  by (induction out arbitrary: s) auto

lemma drained_all:
  assumes "ids_inv k s"
  shows "mset (map snd (fst (drain_workers s))) = mset (map snd (wr_map (registry s)))"
proof -
  let ?m = "wr_map (registry s)"
  have d: "distinct (map fst ?m)" using ids_invD(3) [OF assms] .
  have out: "List.map_filter (\<lambda>i. map_option (Pair i) (map_of ?m i)) is = map (\<lambda>i. (i, the (map_of ?m i))) is"
    if "set is \<subseteq> fst ` set ?m" for "is"
    using that
  proof (induction "is")
    case (Cons j js)
    then have "map_of ?m j \<noteq> None" by (simp add: map_of_eq_None_iff)
    with Cons show ?case by (auto simp: List.map_filter_simps)
  qed (simp add: List.map_filter_simps)
  have "map snd (fst (drain_workers s)) = map (\<lambda>i. the (map_of ?m i)) (sort (map fst ?m))"
    using out [of "sort (map fst ?m)"] by (simp add: drain_workers_def registry_ids_def registry_get_def)
  then have "mset (map snd (fst (drain_workers s))) = image_mset (\<lambda>i. the (map_of ?m i)) (mset (map fst ?m))"
    by (simp del: mset_map add: mset_map)
  also have "\<dots> = mset (map (\<lambda>x. the (map_of ?m (fst x))) ?m)" by (simp add: multiset.map_comp comp_def)
  also have "map (\<lambda>x. the (map_of ?m (fst x))) ?m = map snd ?m"
    using d by (auto intro!: map_cong)
  finally show ?thesis .
qed

lemma workers_shutdown_all:
  assumes "ids_inv k s"
  shows "mset (workers (shutdown_all c s)) = mset (workers s)"
proof -
  have inv: "ids_inv k (s\<lparr>shutdown_waiters := w, shutting_down := q\<rparr>)" for w q
    by (rule ids_cong [THEN iffD1, OF _ _ _ _ _ _ assms]) simp_all
  have "mset (workers (snd (drain_workers u))) = mset (map (\<lambda>(i, sv, d). sv) (stop_tasks u))" for u
    by (simp add: workers_def)
  moreover have "mset (map snd (fst (drain_workers (s\<lparr>shutdown_waiters := w, shutting_down := q\<rparr>)))) =
      mset (map snd (wr_map (registry s)))" for w q
    using drained_all [OF inv] by simp
  ultimately show ?thesis
    by (simp add: shutdown_all_def Let_def split_beta workers_reap_all del: mset_map)
       (simp add: workers_def del: mset_map)
qed

lemma workers_commit:
  assumes "i \<notin> residents s"
  shows "mset (workers (load_commit i r c l t s)) = mset (workers s) +
    mset (case r of LoadOk sv _ _ \<Rightarrow> [sv] | LoadFailure (Some sv) _ \<Rightarrow> [sv] | LoadFailure None _ \<Rightarrow> [])"
proof -
  have new: "i \<notin> fst ` set m \<Longrightarrow> AList.update i sv m = m @ [(i, sv)]" for sv and m :: "(u32 \<times> WorkerSup) list"
    by (induction m) auto
  from new [OF assms] have "AList.update i sv (wr_map (registry s)) = wr_map (registry s) @ [(i, sv)]" for sv .
  then show ?thesis
    by (simp add: load_commit_def Let_def split: LoadResult.split option.split)
       (simp add: workers_def insert_reserved_def)
qed

lemma workers_step:
  assumes "ids_inv k s"
  shows "mset (workers (node_step e s)) + mset (stopped e s) = mset (workers s) + mset (brought_up e s)"
proof (cases e)
  case (LoadEnds i p c r l t)
  let ?u = "s\<lparr>load_tasks := remove1 (i, p, c) (load_tasks s)\<rparr>"
  have "i \<notin> residents ?u" if "(i, p, c) \<in> set (load_tasks s)"
    using that ids_invD(6) [OF assms] by force
  from workers_commit [OF this, of r c l t] LoadEnds show ?thesis by auto
next
  case (StopEnds i sv d)
  have "mset (workers (reap_done d (s\<lparr>stop_tasks := remove1 (i, sv, d) (stop_tasks s)\<rparr>))) + {#sv#} = mset (workers s)"
    if "(i, sv, d) \<in> set (stop_tasks s)"
    using mset_remove1_map [OF that, of "\<lambda>(i, sv, d). sv"]
    by (auto simp: reap_done_def Let_def workers_def refresh_keepalive_def maybe_finish_shutdown_def node_reply_def
        split: option.split)
  with StopEnds show ?thesis by auto
next
  case (ChatHandle i model c t)
  then show ?thesis by (auto simp: chat_handle_def Let_def split: option.split)
next
  case (LeaseEnds i sv t)
  then show ?thesis by (auto simp: chat_end_def split: option.split)
qed (use workers_unload [OF assms] workers_reap_idle [OF assms] workers_shutdown_all [OF assms] in
    \<open>simp_all add: node_load_def reserve_def node_inventory_def quiesce_chats_def Let_def workers_def
       refresh_keepalive_def\<close>)

lemma workers_run:
  "length es + 2 \<le> 2 ^ 32 \<Longrightarrow>
   mset (workers (node_run es (node_new ttl))) + mset (along stopped es (node_new ttl)) =
   mset (along brought_up es (node_new ttl))"
proof (induction es rule: rev_induct)
  case Nil
  then show ?case by (simp add: workers_def node_new_def registry_empty_def)
next
  case (snoc e es)
  have "ids_inv (length es) (node_run es (node_new ttl))" using ids_run [of es] snoc.prems by simp
  from workers_step [OF this, of e] snoc show ?case by (simp add: algebra_simps)
qed

text \<open>C26. No worker is orphaned: over fewer than \<open>2\<^sup>3\<^sup>2 - 2\<close> steps, with loads, cancelled callers,
  failures, unloads, idle reaping and shutdowns in any order, each worker a load brought up is
  resident or being stopped until a stop of it has ended, exactly once.\<close>

theorem no_worker_orphaned:
  assumes "length es + 2 \<le> 2 ^ 32"
  shows "mset (along brought_up es (node_new ttl)) =
    mset (workers (node_run es (node_new ttl))) + mset (along stopped es (node_new ttl))"
  using workers_run [OF assms, of ttl] by simp

theorem no_worker_orphaned_witness:
  "mset (along brought_up one_chat (node_new 0)) =
    mset (workers (node_run one_chat (node_new 0))) + mset (along stopped one_chat (node_new 0))"
  by (rule no_worker_orphaned) (simp add: one_chat_def Let_def)

text \<open>The idle reaper takes exactly the workers that are due: with the policy on and no shutdown
  running, those whose count of generations is zero and whose last activity is at least the TTL
  ago. It wakes at least every minute, and with a TTL of at least 200 ms at least four times per TTL.\<close>

theorem reaper_takes_the_idle:
  "registry_get i (registry (reap_idle t s)) =
     (if \<not> shutting_down s \<and> idle_enabled (idle s) \<and> chats_counted i s = 0 \<and>
         (case map_of (last_activity s) i of None \<Rightarrow> False | Some u \<Rightarrow> t - u \<ge> idle_ttl (idle s))
      then None else registry_get i (registry s)) \<and>
   50000000 \<le> reap_interval ttl \<and> reap_interval ttl \<le> 60000000000 \<and>
   (if ttl \<ge> 200000000 then 4 * reap_interval ttl \<le> ttl else reap_interval ttl = 50000000)"
proof -
  have gone: "registry_get i (registry (fold reap_one is s)) = (if i \<in> set is then None else registry_get i (registry s))"
    for "is" s
  proof (induction "is" arbitrary: s)
    case (Cons j js)
    have "registry_get i (registry (reap_one j s)) = (if i = j then None else registry_get i (registry s))"
      by (auto simp: reap_one_def registry_remove_def registry_get_def delete_conv' split: option.split)
    with Cons [of "reap_one j s"] show ?case by (cases "i = j") simp_all
  qed simp
  have absent: "registry_get i (registry s) = None" if "i \<notin> residents s"
    using that by (simp add: registry_get_def map_of_eq_None_iff)
  have fold: "registry (reap_idle t s) = registry (fold reap_one (idle_ids t s) s)"
    if "\<not> shutting_down s" "idle_enabled (idle s)"
    using that by (simp add: reap_idle_def Let_def)
  have due: "i \<in> set (idle_ids t s) \<longleftrightarrow> i \<in> residents s \<and> chats_counted i s = 0 \<and>
      (case map_of (last_activity s) i of None \<Rightarrow> False | Some u \<Rightarrow> t - u \<ge> idle_ttl (idle s))"
    by (auto simp: idle_ids_def chats_counted_def registry_ids_def)
  have "registry_get i (registry (reap_idle t s)) =
     (if \<not> shutting_down s \<and> idle_enabled (idle s) \<and> chats_counted i s = 0 \<and>
         (case map_of (last_activity s) i of None \<Rightarrow> False | Some u \<Rightarrow> t - u \<ge> idle_ttl (idle s))
      then None else registry_get i (registry s))"
  proof (cases "\<not> shutting_down s \<and> idle_enabled (idle s)")
    case True
    then have "registry (reap_idle t s) = registry (fold reap_one (idle_ids t s) s)" by (intro fold) simp_all
    with True show ?thesis by (simp add: gone due) (use absent in auto)
  next
    case False
    then show ?thesis by (auto simp: reap_idle_def)
  qed
  then show ?thesis by (auto simp: reap_interval_def min_def max_def)
qed

text \<open>The actor's books are well formed in every state it reaches in fewer than \<open>2\<^sup>3\<^sup>2 - 2\<close> steps: a
  worker has one entry, its facts and its activity stamp exist exactly while it is resident, a
  count of generations only then, no load on its way has the id of a resident worker, and every
  id in use was issued.\<close>

theorem actor_books_well_formed:
  assumes "length es + 2 \<le> 2 ^ 32" "s = node_run es (node_new ttl)"
  shows "distinct (map fst (wr_map (registry s))) \<and> fst ` set (load_facts s) = residents s \<and>
    fst ` set (last_activity s) = residents s \<and> fst ` set (in_flight s) \<subseteq> residents s \<and>
    fst ` set (load_tasks s) \<inter> residents s = {} \<and> distinct (map fst (load_tasks s)) \<and>
    (\<forall>i \<in> residents s. i < wr_next (registry s))"
proof -
  have inv: "ids_inv (length es) s" using ids_run [OF assms(1), of ttl] assms(2) by simp
  have "i < wr_next (registry s)" if "i \<in> residents s" for i
    using ids_invD(5) [OF inv, of i] that by (simp add: word_less_nat_alt)
  moreover have "fst ` set (load_tasks s) \<inter> residents s = {}"
    by (rule disjoint_mono [OF ids_invD(6) [OF inv]]) simp
  ultimately show ?thesis
    by (intro conjI ballI ids_invD(3,4,7-9) [OF inv])
qed

theorem actor_books_well_formed_witness:
  "fst ` set (load_facts (node_run one_chat (node_new 0))) = residents (node_run one_chat (node_new 0))"
  by (rule actor_books_well_formed [of one_chat _ 0, OF _ refl, THEN conjunct2, THEN conjunct1])
     (simp add: one_chat_def Let_def)

end
