(* ===== verification/Facade_Node.thy ===== *)
theory Facade_Node
  imports Facade Runtime_Load
begin

text \<open>
  The local node as the facade sees it: which steps of it can add a resident worker, that answers
  once given stay, and the model a loaded worker serves.
\<close>

subsection \<open>What a step of the node can do\<close>

text \<open>Worker \<open>w\<close> is resident and serves the raw model \<open>m\<close>.\<close>

definition resides :: "Node \<Rightarrow> u32 \<Rightarrow> string \<Rightarrow> bool" where
  "resides n w m \<longleftrightarrow> (\<exists>sv. map_of (wr_map (registry n)) w = Some sv \<and> unwrap_or [] (loaded_model_id sv) = m)"

lemma resides_cong: "registry n = registry n' \<Longrightarrow> resides n = resides n'"
  by (simp add: fun_eq_iff resides_def)

text \<open>The registry only shrinks.\<close>

definition shrinks :: "Node \<Rightarrow> Node \<Rightarrow> bool" where
  "shrinks n n' \<longleftrightarrow> map_of (wr_map (registry n')) \<subseteq>\<^sub>m map_of (wr_map (registry n))"

lemma shrinks_refl [simp]: "registry n' = registry n \<Longrightarrow> shrinks n n'"
  by (simp add: shrinks_def)

lemma shrinks_trans: "shrinks n n' \<Longrightarrow> shrinks n' n'' \<Longrightarrow> shrinks n n''"
  unfolding shrinks_def by (rule map_le_trans)

lemma shrinks_resides: "shrinks n n' \<Longrightarrow> resides n' w m \<Longrightarrow> resides n w m"
  by (force simp: shrinks_def resides_def map_le_def dom_def)

lemma map_of_delete_le: "map_of (AList.delete i xs) \<subseteq>\<^sub>m map_of xs"
  by (auto simp: map_le_def delete_conv')

lemma registry_finish [simp]: "registry (maybe_finish_shutdown n) = registry n" "registry (refresh_keepalive n) = registry n"
  by (simp_all add: maybe_finish_shutdown_def refresh_keepalive_def)

lemma shrinks_unload: "shrinks n (node_unload i c t n)"
  by (auto simp: node_unload_def registry_remove_def shrinks_def map_of_delete_le split: option.split)

lemma shrinks_reap_one: "shrinks n (reap_one i n)"
  by (auto simp: reap_one_def registry_remove_def shrinks_def map_of_delete_le split: option.split)

lemma shrinks_reap_fold: "shrinks n (fold reap_one is n)"
  by (induction "is" arbitrary: n) (auto intro: shrinks_trans shrinks_reap_one)

lemma shrinks_reap_idle: "shrinks n (reap_idle t n)"
  using shrinks_reap_fold [of n "idle_ids t n"] by (auto simp: reap_idle_def Let_def shrinks_def)

lemma shrinks_shutdown_all: "shrinks n (shutdown_all c n)"
  by (auto simp: shutdown_all_def Let_def split_beta reap_all_frame shrinks_def)

lemma load_commit_registry:
  "registry (load_commit i r c listening t n) =
     (case r of
        LoadOk sv v f \<Rightarrow> if listening \<and> \<not> shutting_down n then insert_reserved i sv (registry n) else registry n
      | LoadFailure _ _ \<Rightarrow> registry n)"
  by (auto simp: load_commit_def Let_def split: LoadResult.split option.split)

lemma chat_handle_registry [simp]: "registry (chat_handle i m c t n) = registry n"
  by (auto simp: chat_handle_def Let_def split: option.split)

lemma chat_end_registry [simp]: "registry (chat_end i t n) = registry n"
  by (auto simp: chat_end_def split: option.split)

lemma resides_step:
  assumes "resides (node_step e n) w m"
  shows "resides n w m \<or>
    (\<exists>p c sv v f t. e = LoadEnds w p c (LoadOk sv v f) True t \<and> (w, p, c) \<in> set (load_tasks n) \<and>
       \<not> shutting_down n \<and> unwrap_or [] (loaded_model_id sv) = m)"
proof (cases e)
  case (LoadEnds i p c r l t)
  with assms show ?thesis
    by (cases r) (auto simp: resides_def load_commit_registry insert_reserved_def update_conv' split: if_splits)
next
  case (Load p c)
  with assms show ?thesis by (auto simp: resides_def node_load_def reserve_def split: if_splits)
next
  case (Unload i c t)
  with assms show ?thesis by (simp add: shrinks_resides [OF shrinks_unload])
next
  case (ReapIdle t)
  with assms show ?thesis by (simp add: shrinks_resides [OF shrinks_reap_idle])
next
  case (ShutdownAll c)
  with assms show ?thesis by (simp add: shrinks_resides [OF shrinks_shutdown_all])
qed (use assms in \<open>auto simp: node_inventory_def quiesce_chats_def reap_done_def Let_def resides_def split: option.splits if_splits\<close>)

lemma resides_unload: "resides (node_step (Unload i c t) n) w m \<Longrightarrow> w \<noteq> i \<and> resides n w m"
  by (auto simp: resides_def node_unload_def registry_remove_def delete_conv' split: option.splits if_splits)

lemma load_tasks_step:
  assumes "x \<in> set (load_tasks (node_step e n))"
  shows "x \<in> set (load_tasks n) \<or> (\<exists>p c. e = Load p c \<and> snd x = (p, c))"
proof (cases e)
  case (LoadEnds i p c r l t)
  have "load_tasks (load_commit i r c l t n') = load_tasks n'" for n'
    by (auto simp: load_commit_def Let_def maybe_finish_shutdown_def refresh_keepalive_def split: LoadResult.split option.split)
  with LoadEnds assms show ?thesis by (auto split: if_splits dest: set_remove1_subset [THEN subsetD])
next
  case (Load p c)
  with assms show ?thesis by (auto simp: node_load_def reserve_def refresh_keepalive_def split: if_splits)
qed (use assms in \<open>auto simp: node_inventory_def quiesce_chats_def reap_done_def node_unload_def registry_remove_def
      chat_handle_def chat_end_def reap_idle_def reap_fold_frame shutdown_all_def reap_all_frame split_beta
      maybe_finish_shutdown_def refresh_keepalive_def Let_def split: option.splits if_splits\<close>)

lemma replies_step: "\<exists>xs. replies (node_step e n) = replies n @ xs"
proof (cases e)
  case (LoadEnds i p c r l t)
  then show ?thesis
    by (cases r) (auto simp: load_commit_def Let_def maybe_finish_shutdown_def refresh_keepalive_def split: option.split)
next
  case (Load p c)
  then show ?thesis by (auto simp: node_load_def reserve_def refresh_keepalive_def)
qed (auto simp: node_inventory_def quiesce_chats_def reap_done_def node_unload_def registry_remove_def
      chat_handle_def chat_end_def reap_idle_def reap_fold_frame shutdown_all_def reap_all_frame split_beta
      maybe_finish_shutdown_def refresh_keepalive_def Let_def split: option.split)

lemma answer_stable: "map_of (replies n) c = Some r \<Longrightarrow> map_of (replies (node_step e n)) c = Some r"
  using replies_step [of e n] by (auto simp: map_add_def)

lemma kept_answer:
  assumes "(i, p, c) \<in> set (load_tasks n)" "\<not> shutting_down n" "c \<notin> fst ` set (replies n)"
  shows "map_of (replies (node_step (LoadEnds i p c (LoadOk sv v f) True t) n)) c = Some (Loaded i v)"
proof -
  have "map_of (replies n) c = None" using assms(3) by (simp add: map_of_eq_None_iff)
  with assms show ?thesis
    by (auto simp: load_commit_def Let_def maybe_finish_shutdown_def refresh_keepalive_def map_add_def split: option.split)
qed

abbreviation keys_once :: "Node \<Rightarrow> bool" where
  "keys_once n \<equiv> distinct (map fst (wr_map (registry n)))"

lemma keys_once_reap_fold: "keys_once n \<Longrightarrow> keys_once (fold reap_one is n)"
  by (induction "is" arbitrary: n) (auto simp: reap_one_def registry_remove_def AList.distinct_delete split: option.split)

lemma keys_once_step: "keys_once n \<Longrightarrow> keys_once (node_step e n)"
proof (cases e)
  case (LoadEnds i p c r l t)
  assume "keys_once n"
  with LoadEnds show ?thesis
    by (cases r) (auto simp: load_commit_registry insert_reserved_def distinct_update)
next
  case (ReapIdle t)
  assume "keys_once n"
  with ReapIdle show ?thesis by (auto simp: reap_idle_def Let_def keys_once_reap_fold)
qed (auto simp: node_load_def reserve_def node_inventory_def quiesce_chats_def reap_done_def node_unload_def
      registry_remove_def AList.distinct_delete shutdown_all_def reap_all_frame split_beta Let_def split: option.splits)

lemma loaded_model_do_load:
  assumes "do_load env p = LoadOk sv v f" "plain_overrides env p"
  shows "loaded_model_id sv = Some (load_id p)"
proof -
  have "get_str ''id'' (worker_load_params (load_id p) path ctx gpu thr (map_option (le_to_obj env) (load_params p))) =
      Some (load_id p)" for path ctx gpu thr
    using assms(2)
    by (cases "load_params p"; cases ctx; cases gpu; cases thr)
       (auto simp: plain_overrides_def worker_load_params_def Let_def json_insert_def base_get update_conv' opt_filter_def)
  with assms(1) show ?thesis by (auto simp: do_load_def Let_def split: sum.splits option.splits prod.splits)
qed

end
