(* ===== verification/Facade_Moves.thy ===== *)
theory Facade_Moves
  imports Facade_Node
begin

text \<open>
  One task of the facade at a time: what a step of it, or its being dropped, can do to the lifecycle
  lock, the benchmark flags and the local node. The properties of theory Facade_Props rest on this
  summary, not on the program points.
\<close>

subsection \<open>Tasks\<close>

definition task_at :: "Higgs \<Rightarrow> nat \<Rightarrow> task" where
  "task_at s k = (if k < length (hg_tasks s) then hg_tasks s ! k else Finished)"

lemma task_at_cong: "hg_tasks s = hg_tasks s' \<Longrightarrow> task_at s = task_at s'"
  by (simp add: fun_eq_iff task_at_def)

lemma task_at_set: "k < length (hg_tasks s) \<Longrightarrow> task_at (set_task k t s) j = (if j = k then t else task_at s j)"
  by (simp add: task_at_def set_task_def nth_list_update)

lemma set_task_frame [simp]:
  "hg_lifecycle (set_task k t s) = hg_lifecycle s" "hg_benchmarking (set_task k t s) = hg_benchmarking s"
  "hg_local (set_task k t s) = hg_local s" "hg_calls (set_task k t s) = hg_calls s"
  "hg_sent (set_task k t s) = hg_sent s" "hg_events (set_task k t s) = hg_events s"
  "hg_gate (set_task k t s) = hg_gate s" "hg_remote_gate (set_task k t s) = hg_remote_gate s"
  "hg_last_loads (set_task k t s) = hg_last_loads s" "hg_models (set_task k t s) = hg_models s"
  "length (hg_tasks (set_task k t s)) = length (hg_tasks s)" "hg_loading (set_task k t s) = hg_loading s"
  by (simp_all add: set_task_def)

lemma emit_load_phase_frame [simp]:
  "hg_lifecycle (emit_load_phase k i p c s) = hg_lifecycle s"
  "hg_benchmarking (emit_load_phase k i p c s) = hg_benchmarking s"
  "hg_local (emit_load_phase k i p c s) = hg_local s" "hg_calls (emit_load_phase k i p c s) = hg_calls s"
  "hg_sent (emit_load_phase k i p c s) = hg_sent s"
  "hg_events (emit_load_phase k i p c s) = hg_events s @ [(k, i, p, c)]"
  "hg_gate (emit_load_phase k i p c s) = hg_gate s" "hg_remote_gate (emit_load_phase k i p c s) = hg_remote_gate s"
  "hg_last_loads (emit_load_phase k i p c s) = hg_last_loads s" "hg_models (emit_load_phase k i p c s) = hg_models s"
  "hg_tasks (emit_load_phase k i p c s) = hg_tasks s" "hg_loading (emit_load_phase k i p c s) = hg_loading s"
  by (simp_all add: emit_load_phase_def)

lemma release_frame [simp]:
  "hg_lifecycle (release s) = None" "hg_benchmarking (release s) = hg_benchmarking s"
  "hg_local (release s) = hg_local s" "hg_calls (release s) = hg_calls s" "hg_sent (release s) = hg_sent s"
  "hg_events (release s) = hg_events s" "hg_gate (release s) = hg_gate s"
  "hg_remote_gate (release s) = hg_remote_gate s" "hg_last_loads (release s) = hg_last_loads s"
  "hg_models (release s) = hg_models s" "hg_tasks (release s) = hg_tasks s" "hg_loading (release s) = hg_loading s"
  by (simp_all add: release_def)

lemma unflag_frame [simp]:
  "hg_lifecycle (unflag i s) = hg_lifecycle s" "hg_benchmarking (unflag i s) = removeAll i (hg_benchmarking s)"
  "hg_local (unflag i s) = hg_local s" "hg_calls (unflag i s) = hg_calls s" "hg_sent (unflag i s) = hg_sent s"
  "hg_events (unflag i s) = hg_events s" "hg_gate (unflag i s) = hg_gate s"
  "hg_remote_gate (unflag i s) = hg_remote_gate s" "hg_last_loads (unflag i s) = hg_last_loads s"
  "hg_models (unflag i s) = hg_models s" "hg_tasks (unflag i s) = hg_tasks s" "hg_loading (unflag i s) = hg_loading s"
  by (simp_all add: unflag_def)

lemma task_at_frame [simp]:
  "task_at (emit_load_phase k i p c s) = task_at s" "task_at (release s) = task_at s" "task_at (unflag i s) = task_at s"
  by (rule task_at_cong; simp)+

lemma persist_load_frame [simp]:
  "hg_lifecycle (persist_load i p np np' an a s) = hg_lifecycle s"
  "hg_benchmarking (persist_load i p np np' an a s) = hg_benchmarking s"
  "hg_local (persist_load i p np np' an a s) = hg_local s" "hg_calls (persist_load i p np np' an a s) = hg_calls s"
  "hg_sent (persist_load i p np np' an a s) = hg_sent s" "hg_events (persist_load i p np np' an a s) = hg_events s"
  "hg_gate (persist_load i p np np' an a s) = hg_gate s"
  "hg_remote_gate (persist_load i p np np' an a s) = hg_remote_gate s"
  "hg_tasks (persist_load i p np np' an a s) = hg_tasks s" "hg_loading (persist_load i p np np' an a s) = hg_loading s"
  by (simp_all add: persist_load_def Let_def split: option.split)

text \<open>
  The shape of a step: the task moves from \<open>t\<close> to \<open>t'\<close>; what it does to the lock, the flags and the
  node.
\<close>

definition locked :: "task \<Rightarrow> bool" where
  "locked t =
     (case t of
        LoadTask _ _ _ pc \<Rightarrow> holds_lock pc
      | UnloadTask _ pc \<Rightarrow> (case pc of UQueue \<Rightarrow> False | UEnded _ \<Rightarrow> False | _ \<Rightarrow> True)
      | BenchTask _ _ pc \<Rightarrow> (case pc of BResident _ \<Rightarrow> True | _ \<Rightarrow> False)
      | StopTask c \<Rightarrow> c \<noteq> None
      | _ \<Rightarrow> False)"

text \<open>The model whose flag the task owns, and the model it has claimed without a flag.\<close>

definition flags :: "task \<Rightarrow> string option" where
  "flags t =
     (case t of
        BenchTask i _ pc \<Rightarrow> (case pc of BQueue _ \<Rightarrow> None | BResident _ \<Rightarrow> None | BEnded _ \<Rightarrow> None | _ \<Rightarrow> Some i)
      | Cleanup i _ _ \<Rightarrow> Some i
      | _ \<Rightarrow> None)"

definition claims :: "task \<Rightarrow> string option" where
  "claims t =
     (case t of
        LoadTask i _ _ pc \<Rightarrow> (if holds_lock pc then Some i else None)
      | BenchTask i _ pc \<Rightarrow> (case pc of BResident _ \<Rightarrow> Some i | _ \<Rightarrow> None)
      | _ \<Rightarrow> None)"

lemma claims_locked: "claims t = Some i \<Longrightarrow> locked t"
  by (auto simp: claims_def locked_def split: task.splits if_splits bench_pc.splits)

subsection \<open>Moves\<close>

text \<open>How one task's move may change the lock and the flags.\<close>

definition lock_move :: "nat \<Rightarrow> task \<Rightarrow> task \<Rightarrow> Higgs \<Rightarrow> Higgs \<Rightarrow> bool" where
  "lock_move k t t' s s' \<longleftrightarrow>
     (locked t' \<longrightarrow> locked t \<or> hg_lifecycle s = None) \<and>
     hg_lifecycle s' =
       (if locked t' then (if locked t then hg_lifecycle s else Some k) else if locked t then None else hg_lifecycle s)"

definition flag_move :: "task \<Rightarrow> task \<Rightarrow> Higgs \<Rightarrow> Higgs \<Rightarrow> bool" where
  "flag_move t t' s s' \<longleftrightarrow>
     set (hg_benchmarking s') =
       (if flags t' = flags t then set (hg_benchmarking s)
        else set (hg_benchmarking s) - set_option (flags t) \<union> set_option (flags t')) \<and>
     (flags t' = None \<or> flags t' = flags t \<or> flags t = None \<and> flags t' = claims t) \<and>
     (claims t' = None \<or> claims t' = claims t \<or> set_option (claims t') \<inter> set (hg_benchmarking s) = {}) \<and>
     (claims t' = None \<or> flags t = None)"

text \<open>The call of a load a task waits for, and its model.\<close>

definition load_wait :: "task \<Rightarrow> (nat \<times> string) option" where
  "load_wait t =
     (case t of
        LoadTask i _ _ (LWait c _ _ _ _ _) \<Rightarrow> Some (c, i)
      | BenchTask i _ (BLoadWait c _ _) \<Rightarrow> Some (c, i)
      | _ \<Rightarrow> None)"

definition harmless :: "NodeStep \<Rightarrow> bool" where
  "harmless e \<longleftrightarrow> (case e of Load _ _ \<Rightarrow> False | LoadEnds _ _ _ _ _ _ \<Rightarrow> False | _ \<Rightarrow> True)"

definition node_own :: "Node \<Rightarrow> Node \<Rightarrow> bool" where
  "node_own n n' \<longleftrightarrow> (\<exists>e. n' = node_step e n \<and> harmless e \<and> asks e = [])"

definition node_asked :: "nat \<Rightarrow> Node \<Rightarrow> Node \<Rightarrow> bool" where
  "node_asked c n n' \<longleftrightarrow> (\<exists>e. n' = node_step e n \<and> harmless e \<and> asks e = [c])"

lemma node_ownI: "harmless e \<Longrightarrow> asks e = [] \<Longrightarrow> node_own n (node_step e n)"
  by (auto simp: node_own_def)

lemma node_askedI: "harmless e \<Longrightarrow> asks e = [c] \<Longrightarrow> node_asked c n (node_step e n)"
  by (auto simp: node_asked_def)

lemma node_asked_simps [simp]:
  "node_asked c n (node_unload w c t n)" "node_asked c n (chat_handle w m c t n)" "node_asked c n (shutdown_all c n)"
  using node_askedI [of "Unload w c t" c n] node_askedI [of "ChatHandle w m c t" c n] node_askedI [of "ShutdownAll c" c n]
  by (simp_all add: harmless_def)

definition node_move :: "nat \<Rightarrow> task \<Rightarrow> Higgs \<Rightarrow> Higgs \<Rightarrow> bool" where
  "node_move k t' s s' \<longleftrightarrow>
     (case awaits t' of
        None \<Rightarrow> (hg_local s' = hg_local s \<or> node_own (hg_local s) (hg_local s')) \<and>
                 hg_calls s' = hg_calls s \<and> hg_sent s' = hg_sent s
      | Some c \<Rightarrow>
          c = hg_calls s \<and> hg_calls s' = Suc c \<and>
          (case load_wait t' of
             None \<Rightarrow> node_asked c (hg_local s) (hg_local s') \<and> hg_sent s' = hg_sent s
           | Some (c', i) \<Rightarrow> c' = c \<and>
               (\<exists>np. hg_local s' = node_load np c (hg_local s) \<and> hg_sent s' = hg_sent s @ [(c, k, np)] \<and> load_id np = i)))"

text \<open>Where a task has made room for the load it asks for.\<close>

definition unanswered_clear :: "Node \<Rightarrow> nat \<Rightarrow> string \<Rightarrow> bool" where
  "unanswered_clear n c i \<longleftrightarrow>
     (\<exists>w v. map_of (replies n) c = Some (Loaded w v)) \<or> (\<forall>w. \<not> resides n w i)"

definition room :: "Node \<Rightarrow> task \<Rightarrow> bool" where
  "room n t =
     (case t of
        LoadTask i _ _ pc \<Rightarrow>
          (case pc of
             LPrepare \<Rightarrow> \<forall>w. \<not> resides n w i
           | LAnchor _ \<Rightarrow> \<forall>w. \<not> resides n w i
           | LSend _ _ _ _ _ \<Rightarrow> \<forall>w. \<not> resides n w i
           | LWait c _ _ _ _ _ \<Rightarrow> unanswered_clear n c i
           | _ \<Rightarrow> True)
      | BenchTask i _ pc \<Rightarrow>
          (case pc of
             BClear _ _ (Some ws) \<Rightarrow> \<forall>w. resides n w i \<longrightarrow> w \<in> set ws
           | BClearWait _ _ _ ws \<Rightarrow> \<forall>w. resides n w i \<longrightarrow> w \<in> set ws
           | BLoad _ _ \<Rightarrow> \<forall>w. \<not> resides n w i
           | BLoadWait c _ _ \<Rightarrow> unanswered_clear n c i
           | _ \<Rightarrow> True)
      | _ \<Rightarrow> True)"

text \<open>What a load sends is about its model.\<close>

definition named :: "task \<Rightarrow> bool" where
  "named t =
     (case t of
        LoadTask i _ _ (LSend np r _ _ rungs) \<Rightarrow> load_id np = i \<and> load_id r = i \<and> (\<forall>g \<in> set rungs. load_id (rung_params g) = i)
      | LoadTask i _ _ (LWait _ np r _ _ rungs) \<Rightarrow> load_id np = i \<and> load_id r = i \<and> (\<forall>g \<in> set rungs. load_id (rung_params g) = i)
      | _ \<Rightarrow> True)"

definition moved :: "nat \<Rightarrow> task \<Rightarrow> Higgs \<Rightarrow> Higgs \<Rightarrow> bool" where
  "moved k t s s' \<longleftrightarrow>
     (let t' = task_at s' k in
      task_at s' = (task_at s)(k := t') \<and> lock_move k t t' s s' \<and> flag_move t t' s s' \<and> node_move k t' s s' \<and>
      (room (hg_local s) t \<longrightarrow> room (hg_local s') t') \<and> named t')"

lemma in_instances: "(w, m) \<in> set (local_instances n) \<longleftrightarrow> resides n w m"
proof -
  have some: "y \<in> set (List.map_filter f xs) \<longleftrightarrow> (\<exists>x \<in> set xs. f x = Some y)" for y and f :: "u32 \<Rightarrow> (u32 \<times> string) option" and xs
    by (induction xs) (auto simp: List.map_filter_simps split: option.split)
  have "map_of (wr_map (registry n)) w = Some sv \<Longrightarrow> w \<in> fst ` set (wr_map (registry n))" for sv
    by (force dest: map_of_SomeD)
  then show ?thesis
    by (fastforce simp: local_instances_def resides_def some registry_get_def registry_ids_def)
qed

lemma is_resident_iff: "is_resident m n \<longleftrightarrow> (\<exists>w. resides n w m)"
  by (force simp: is_resident_def list_ex_iff in_instances)

lemma in_own_workers: "w \<in> set (own_workers i n) \<longleftrightarrow> resides n w i"
  by (force simp: own_workers_def in_instances)

lemma load_keeps_room [simp]: "resides (node_load np c n) = resides n"
  by (auto simp: fun_eq_iff resides_def node_load_def reserve_def)

lemma unload_room: "resides (node_unload i c t n) w m \<Longrightarrow> w \<noteq> i \<and> resides n w m"
  using resides_unload [of i c t n w m] by simp

lemma task_at_upd: "k < length (hg_tasks s) \<Longrightarrow> task_at (set_task k t s) = (task_at s)(k := t)"
  by (simp add: fun_eq_iff task_at_set)

lemma task_at_fields [simp]:
  "task_at (s\<lparr>hg_lifecycle := a\<rparr>) = task_at s" "task_at (s\<lparr>hg_loading := b\<rparr>) = task_at s"
  "task_at (s\<lparr>hg_benchmarking := c\<rparr>) = task_at s" "task_at (s\<lparr>hg_gate := d\<rparr>) = task_at s"
  "task_at (s\<lparr>hg_remote_gate := d\<rparr>) = task_at s" "task_at (s\<lparr>hg_local := n\<rparr>) = task_at s"
  "task_at (s\<lparr>hg_calls := d\<rparr>) = task_at s" "task_at (s\<lparr>hg_sent := e\<rparr>) = task_at s"
  by (rule task_at_cong; simp)+

lemma task_at_persist [simp]: "task_at (persist_load i p np np' an a s) = task_at s"
  by (rule task_at_cong) simp

lemmas move_defs = lock_move_def flag_move_def node_move_def locked_def flags_def claims_def load_wait_def awaits_def
  room_def holds_lock_def harmless_def named_def

lemma ladder_ids: "g \<in> set (oom_ladder np layers) \<Longrightarrow> load_id (rung_params g) = load_id np"
  by (auto simp: oom_ladder_def Let_def with_kv_off_def reduce_gpu_layers_def
      split: if_splits option.splits GpuLayers.splits)

lemma ladder_cons:
  "oom_ladder np layers = g # gs \<Longrightarrow>
   load_id (rung_params g) = load_id np \<and> (\<forall>h \<in> set gs. load_id (rung_params h) = load_id np)"
  using ladder_ids [of _ np layers] by simp

lemma node_params_ids [simp]:
  "load_id (node_params_for i p) = i" "load_id (load_node_params i q d) = i"
  by (simp_all add: node_params_for_def load_node_params_def split: option.split)

lemma load_step_moves:
  assumes "load_step k i params persist pc a s = Some s'" "k < length (hg_tasks s)" "named (LoadTask i params persist pc)"
  shows "moved k (LoadTask i params persist pc) s s'"
proof (cases pc)
  case LQueue
  with assms show ?thesis
    by (auto simp: moved_def move_defs Let_def task_at_upd end_load_def is_benchmarking_def split: if_splits option.splits)
next
  case LResident
  with assms show ?thesis
    by (auto simp: moved_def move_defs Let_def task_at_upd end_load_def is_resident_iff split: if_splits option.splits)
next
  case LPrepare
  with assms show ?thesis
    by (auto simp: moved_def move_defs Let_def task_at_upd end_load_def split: sum.splits)
next
  case (LAnchor p)
  with assms show ?thesis
    by (auto simp: moved_def move_defs Let_def task_at_upd)
next
  case (LSend np r an n rs)
  with assms show ?thesis
    by (auto simp: moved_def move_defs Let_def task_at_upd call_node_def unanswered_clear_def)
next
  case (LWait c np r an n rs)
  with assms show ?thesis
    by (auto simp: Let_def load_failed_def answer_of_def dest: ladder_cons
          split: option.splits NodeReply.splits list.splits if_splits)
       (auto simp: moved_def move_defs Let_def task_at_upd end_load_def answer_of_def unanswered_clear_def dest: ladder_cons)
next
  case (LPersist c np r an)
  with assms show ?thesis
    by (auto simp: moved_def move_defs Let_def task_at_upd end_load_def)
qed (use assms in simp)

lemma unload_step_moves:
  assumes "unload_step k which pc a s = Some s'" "k < length (hg_tasks s)"
  shows "moved k (UnloadTask which pc) s s'"
proof (cases pc)
  case (UNext ws)
  with assms show ?thesis
    by (cases ws) (auto simp: moved_def move_defs Let_def task_at_upd end_unload_def call_node_def)
next
  case UQueue
  with assms show ?thesis
    by (auto simp: Let_def split: if_splits option.splits)
       (auto simp: moved_def move_defs Let_def task_at_upd end_unload_def)
next
  case URead
  with assms show ?thesis
    by (auto split: sum.splits) (auto simp: moved_def move_defs Let_def task_at_upd end_unload_def)
next
  case (UWait c ws)
  with assms show ?thesis
    by (auto split: if_splits) (auto simp: moved_def move_defs Let_def task_at_upd)
qed (use assms in simp)

lemma next_turn_moves:
  assumes "k < length (hg_tasks s)" "flags t = Some i" "locked t = False"
  shows "moved k t s (next_turn k i turns c r cs s)"
  using assms
  by (auto simp: moved_def next_turn_def Let_def end_bench_def task_at_upd lock_move_def flag_move_def node_move_def
      locked_def flags_def claims_def load_wait_def awaits_def room_def named_def)

lemma bench_step_moves:
  assumes "bench_step k i turns pc a s = Some s'" "k < length (hg_tasks s)"
  shows "moved k (BenchTask i turns pc) s s'"
proof (cases pc)
  case (BQueue cs)
  with assms show ?thesis
    by (auto simp: moved_def move_defs Let_def task_at_upd is_benchmarking_def split: if_splits)
next
  case (BResident cs)
  with assms show ?thesis
    by (auto simp: moved_def move_defs Let_def task_at_upd split: if_splits)
next
  case (BNext cs)
  with assms show ?thesis
    by (cases cs) (auto simp: moved_def move_defs Let_def task_at_upd end_bench_def split: if_splits)
next
  case (BClear c cs ws)
  show ?thesis
  proof (cases ws)
    case None
    with BClear assms show ?thesis by (auto simp: moved_def move_defs Let_def task_at_upd in_own_workers)
  next
    case (Some xs)
    with BClear assms show ?thesis
      by (cases xs) (auto simp: moved_def move_defs Let_def task_at_upd call_node_def dest!: unload_room)
  qed
next
  case (BClearWait n c cs ws)
  with assms show ?thesis by (auto simp: moved_def move_defs Let_def task_at_upd split: if_splits)
next
  case (BLoad c cs)
  with assms show ?thesis by (auto simp: moved_def move_defs Let_def task_at_upd call_node_def unanswered_clear_def)
next
  case (BLoadWait n c cs)
  with assms show ?thesis
    by (auto intro!: next_turn_moves simp: flags_def locked_def split: option.splits NodeReply.splits)
       (auto simp: moved_def move_defs Let_def task_at_upd)
next
  case (BMeasure w c cs)
  with assms show ?thesis by (auto simp: moved_def move_defs Let_def task_at_upd)
next
  case (BDrop w r c cs ws)
  show ?thesis
  proof (cases ws)
    case None
    with BDrop assms show ?thesis by (auto simp: moved_def move_defs Let_def task_at_upd)
  next
    case (Some xs)
    show ?thesis
    proof (cases xs)
      case Nil
      with BDrop Some assms show ?thesis by (auto intro!: next_turn_moves simp: flags_def locked_def)
    next
      case (Cons y ys)
      with BDrop Some assms show ?thesis by (auto simp: moved_def move_defs Let_def task_at_upd call_node_def)
    qed
  qed
next
  case (BDropWait n w r c cs ws)
  with assms show ?thesis by (auto simp: moved_def move_defs Let_def task_at_upd split: if_splits)
qed (use assms in simp)

lemma cleanup_step_moves:
  assumes "cleanup_step k i w c a s = Some s'" "k < length (hg_tasks s)"
  shows "moved k (Cleanup i w c) s s'"
  using assms
  by (auto simp: cleanup_step_def moved_def move_defs Let_def task_at_upd call_node_def split: option.splits if_splits)

lemma chat_step_moves:
  assumes "chat_step k public m pc a s = Some s'" "k < length (hg_tasks s)"
  shows "moved k (ChatTask public m pc) s s'"
proof (cases pc)
  case (CGate resolved)
  with assms show ?thesis
    by (auto simp: Let_def call_node_def split: option.splits if_splits prod.splits)
       (auto simp: moved_def move_defs Let_def task_at_upd)
next
  case (CRun w sv permit)
  with assms show ?thesis
    by (auto simp: moved_def move_defs Let_def task_at_upd node_ownI harmless_def simp del: node_step.simps split: if_splits)
next
  case CRead
  with assms show ?thesis by (auto simp: moved_def move_defs Let_def task_at_upd)
next
  case (CWait c w raw permit)
  with assms show ?thesis
    by (auto split: option.splits NodeReply.splits) (auto simp: moved_def move_defs Let_def task_at_upd)
next
  case CRemote
  with assms show ?thesis
    by (auto split: option.splits if_splits) (auto simp: moved_def move_defs Let_def task_at_upd)
next
  case CRemoteWait
  with assms show ?thesis
    by (auto split: option.splits) (auto simp: moved_def move_defs Let_def task_at_upd)
next
  case CRunRemote
  with assms show ?thesis by (auto simp: moved_def move_defs Let_def task_at_upd)
qed (use assms in simp)

lemma halt_step_moves:
  assumes "halt_step k c s = Some s'" "k < length (hg_tasks s)"
  shows "moved k (StopTask c) s s'"
  using assms
  by (auto simp: halt_step_def moved_def move_defs Let_def task_at_upd call_node_def split: option.splits if_splits)

lemma drop_moves:
  assumes "k < length (hg_tasks s)" "drop_task k s \<noteq> s"
  shows "moved k (hg_tasks s ! k) s (drop_task k s)"
proof (cases "hg_tasks s ! k")
  case (LoadTask i params persist pc)
  with assms show ?thesis
    by (cases pc) (auto simp: drop_task_def drop_load_def shows_loading_def moved_def move_defs Let_def task_at_upd)
next
  case (UnloadTask which pc)
  with assms show ?thesis
    by (cases pc) (auto simp: drop_task_def drop_unload_def moved_def move_defs Let_def task_at_upd)
next
  case (BenchTask i turns pc)
  with assms show ?thesis
    by (cases pc) (auto simp: drop_task_def drop_bench_def live_candidate_def moved_def move_defs Let_def task_at_upd)
next
  case (ChatTask public m pc)
  with assms show ?thesis
    by (cases pc) (auto simp: drop_task_def drop_chat_def moved_def move_defs Let_def task_at_upd)
next
  case (StopTask c)
  with assms show ?thesis
    by (cases c) (auto simp: drop_task_def moved_def move_defs Let_def task_at_upd)
qed (use assms in \<open>simp_all add: drop_task_def\<close>)

lemma task_step_moves:
  assumes "task_step k a s = Some s'" "named (task_at s k)"
  shows "k < length (hg_tasks s) \<and> moved k (task_at s k) s s'"
proof -
  from assms(1) have k: "k < length (hg_tasks s)" by (simp add: task_step_def split: if_splits)
  then have at: "task_at s k = hg_tasks s ! k" by (simp add: task_at_def)
  have "moved k (hg_tasks s ! k) s s'"
    using assms k unfolding at
    by (cases "hg_tasks s ! k")
      (simp_all add: task_step_def load_step_moves unload_step_moves bench_step_moves cleanup_step_moves
        chat_step_moves halt_step_moves)
  with k at show ?thesis by simp
qed

end
