(* ===== verification/Facade_Props.thy ===== *)
theory Facade_Props
  imports Facade_Moves
begin

text \<open>
  What the facade guarantees over every schedule of its requests, with tasks dropped anywhere: the
  lock is held exactly by the task in its critical section, a model is flagged exactly while a
  benchmark of it or the cleanup of one runs, and the local node has one worker per model.
\<close>

subsection \<open>The lock and the flags\<close>

definition lock_inv :: "Higgs \<Rightarrow> bool" where
  "lock_inv s \<longleftrightarrow> (\<forall>j. locked (task_at s j) \<longleftrightarrow> hg_lifecycle s = Some j)"

definition flag_inv :: "Higgs \<Rightarrow> bool" where
  "flag_inv s \<longleftrightarrow>
     (\<forall>i. i \<in> set (hg_benchmarking s) \<longleftrightarrow> (\<exists>j. flags (task_at s j) = Some i)) \<and>
     (\<forall>i j j'. flags (task_at s j) = Some i \<and> flags (task_at s j') = Some i \<longrightarrow> j = j') \<and>
     (\<forall>i j. claims (task_at s j) = Some i \<longrightarrow> i \<notin> set (hg_benchmarking s))"


lemma claims_flags: "claims t = None \<or> flags t = None"
  by (auto simp: claims_def flags_def split: task.split bench_pc.split)

lemma lock_moved:
  assumes "lock_inv s" "moved k (task_at s k) s s'"
  shows "lock_inv s'"
proof -
  obtain t' where t': "task_at s' = (task_at s)(k := t')" "lock_move k (task_at s k) t' s s'"
    using assms(2) by (auto simp: moved_def Let_def)
  show ?thesis
    unfolding lock_inv_def t'(1)
    using assms(1) t'(2) unfolding lock_inv_def lock_move_def by (auto split: if_splits)
qed

lemma flag_moved:
  assumes l: "lock_inv s" and f: "flag_inv s" and m: "moved k (task_at s k) s s'"
  shows "flag_inv s'"
proof -
  define t where "t = task_at s k"
  define t' where "t' = task_at s' k"
  have upd: "task_at s' = (task_at s)(k := t')" and mv: "flag_move t t' s s'"
    using m by (auto simp: moved_def Let_def t_def t'_def)
  have set_iff: "i \<in> set (hg_benchmarking s) \<longleftrightarrow> (\<exists>j. flags (task_at s j) = Some i)" for i
    using f by (simp add: flag_inv_def)
  have uniq: "flags (task_at s j) = Some i \<Longrightarrow> flags (task_at s j') = Some i \<Longrightarrow> j = j'" for i j j'
    using f by (simp add: flag_inv_def)
  have free: "claims (task_at s j) = Some i \<Longrightarrow> i \<notin> set (hg_benchmarking s)" for i j
    using f unfolding flag_inv_def by blast
  have alone: "claims t = Some i \<Longrightarrow> claims (task_at s j) = Some i' \<Longrightarrow> j = k" for i i' j
    using claims_locked l unfolding lock_inv_def t_def by (metis option.inject)
  have ft: "flags (task_at s k) = flags t" "claims (task_at s k) = claims t" by (simp_all add: t_def)
  consider "flags t' = flags t" "set (hg_benchmarking s') = set (hg_benchmarking s)"
    | i where "flags t = Some i" "flags t' = None" "set (hg_benchmarking s') = set (hg_benchmarking s) - {i}"
    | i where "flags t = None" "flags t' = Some i" "claims t = Some i"
        "set (hg_benchmarking s') = insert i (set (hg_benchmarking s))"
    using mv unfolding flag_move_def by (cases "flags t"; cases "flags t'") (auto split: if_splits)
  then have "(\<forall>i. i \<in> set (hg_benchmarking s') \<longleftrightarrow> (\<exists>j. flags (task_at s' j) = Some i)) \<and>
     (\<forall>i j j'. flags (task_at s' j) = Some i \<and> flags (task_at s' j') = Some i \<longrightarrow> j = j')"
  proof cases
    case 1
    then have "flags (task_at s' j) = flags (task_at s j)" for j using ft by (simp add: upd)
    then show ?thesis using uniq by (auto simp: 1(2) set_iff)
  next
    case (2 i)
    have other: "flags (task_at s j) \<noteq> Some i" if "j \<noteq> k" for j
      using uniq [of j i k] that 2(1) ft(1) by metis
    have G: "flags (task_at s' j) = Some i' \<longleftrightarrow> flags (task_at s j) = Some i' \<and> i' \<noteq> i" for i' j
      using other [of j] 2(1,2) ft(1) by (cases "j = k") (simp_all add: upd, auto)
    show ?thesis using uniq by (simp add: 2(3) set_iff G)
  next
    case (3 i)
    then have F: "flags (task_at s' j) = Some i' \<longleftrightarrow> flags (task_at s j) = Some i' \<or> j = k \<and> i' = i" for i' j
      using ft by (auto simp: upd)
    have "flags (task_at s j) \<noteq> Some i" for j using free [of k i] 3(3) ft(2) set_iff by auto
    with F show ?thesis using uniq by (auto simp: 3(4) set_iff)
  qed
  moreover have "i \<notin> set (hg_benchmarking s')" if c: "claims (task_at s' j) = Some i" for i j
  proof (cases "j = k")
    case True
    with c have "claims t' = Some i" by (simp add: upd)
    with mv claims_flags [of t'] free [of k i] ft show ?thesis by (auto simp: flag_move_def split: if_splits)
  next
    case False
    with c have c: "claims (task_at s j) = Some i" by (simp add: upd)
    from False alone c have "claims t = None" by (cases "claims t") auto
    with mv free [OF c] show ?thesis by (auto simp: flag_move_def split: if_splits)
  qed
  ultimately show ?thesis by (auto simp: flag_inv_def)
qed

subsection \<open>Calls\<close>

text \<open>
  Calls are numbered; each is answered or held by the node once; what the node's load tasks work on
  is what a task of the facade sent; a task waits for its own call.
\<close>

definition call_inv :: "Higgs \<Rightarrow> bool" where
  "call_inv s \<longleftrightarrow>
     callers (hg_local s) = mset [0..<hg_calls s] \<and>
     (\<forall>(c, k, p) \<in> set (hg_sent s). c < hg_calls s) \<and>
     distinct (map fst (hg_sent s)) \<and>
     (\<forall>(i, p, c) \<in> set (load_tasks (hg_local s)). \<exists>k. (c, k, p) \<in> set (hg_sent s)) \<and>
     (\<forall>k c. awaits (task_at s k) = Some c \<longrightarrow> c < hg_calls s) \<and>
     (\<forall>k c i. load_wait (task_at s k) = Some (c, i) \<longrightarrow> (\<exists>p. (c, k, p) \<in> set (hg_sent s) \<and> load_id p = i)) \<and>
     (\<forall>k c j p. awaits (task_at s k) = Some c \<and> load_wait (task_at s k) = None \<longrightarrow> (c, j, p) \<notin> set (hg_sent s))"

lemma call_invD:
  assumes "call_inv s"
  shows "callers (hg_local s) = mset [0..<hg_calls s]"
    "(c, k, p) \<in> set (hg_sent s) \<Longrightarrow> c < hg_calls s" "distinct (map fst (hg_sent s))"
    "(i, p, c) \<in> set (load_tasks (hg_local s)) \<Longrightarrow> \<exists>k. (c, k, p) \<in> set (hg_sent s)"
    "awaits (task_at s k) = Some c \<Longrightarrow> c < hg_calls s"
    "load_wait (task_at s k) = Some (c, m) \<Longrightarrow> \<exists>p. (c, k, p) \<in> set (hg_sent s) \<and> load_id p = m"
    "awaits (task_at s k) = Some c \<Longrightarrow> load_wait (task_at s k) = None \<Longrightarrow> (c, j, p) \<notin> set (hg_sent s)"
  using assms unfolding call_inv_def by (simp, fastforce, simp, fastforce, simp, simp, simp)

lemma load_wait_awaits: "load_wait t = Some (c, i) \<Longrightarrow> awaits t = Some c"
  by (auto simp: load_wait_def awaits_def split: task.splits load_pc.splits bench_pc.splits)

lemma harmless_load_tasks: "harmless e \<Longrightarrow> x \<in> set (load_tasks (node_step e n)) \<Longrightarrow> x \<in> set (load_tasks n)"
  by (drule load_tasks_step) (auto simp: harmless_def)

lemma call_moved:
  assumes c: "call_inv s" and m: "moved k (task_at s k) s s'"
  shows "call_inv s'"
proof -
  define t' where "t' = task_at s' k"
  have upd: "task_at s' = (task_at s)(k := t')" and mv: "node_move k t' s s'"
    using m by (auto simp: moved_def Let_def t'_def)
  note C = call_invD [OF c]
  consider
      (quiet) "awaits t' = None" "hg_calls s' = hg_calls s" "hg_sent s' = hg_sent s"
        "hg_local s' = hg_local s \<or> node_own (hg_local s) (hg_local s')"
    | (asks) "awaits t' = Some (hg_calls s)" "load_wait t' = None" "hg_calls s' = Suc (hg_calls s)" "hg_sent s' = hg_sent s"
        "node_asked (hg_calls s) (hg_local s) (hg_local s')"
    | (loads) np where "awaits t' = Some (hg_calls s)" "load_wait t' = Some (hg_calls s, load_id np)"
        "hg_calls s' = Suc (hg_calls s)" "hg_sent s' = hg_sent s @ [(hg_calls s, k, np)]"
        "hg_local s' = node_load np (hg_calls s) (hg_local s)"
    using mv unfolding node_move_def by (auto split: option.splits)
  then show ?thesis
  proof cases
    case quiet
    have "callers (hg_local s') = callers (hg_local s)" "set (load_tasks (hg_local s')) \<subseteq> set (load_tasks (hg_local s))"
      using quiet(4) by (auto simp: node_own_def callers_step dest: harmless_load_tasks)
    moreover have "load_wait t' = None" using quiet(1) load_wait_awaits by (cases "load_wait t'") auto
    ultimately show ?thesis using quiet(1) C unfolding call_inv_def upd quiet(2,3) by (intro conjI) (auto split: if_splits)
  next
    case asks
    have "callers (hg_local s') = callers (hg_local s) + {#hg_calls s#}" "set (load_tasks (hg_local s')) \<subseteq> set (load_tasks (hg_local s))"
      using asks(5) by (auto simp: node_asked_def callers_step dest: harmless_load_tasks)
    moreover have "(hg_calls s, j, p) \<notin> set (hg_sent s)" for j p using C(2) by fastforce
    ultimately show ?thesis using asks(1,2) C unfolding call_inv_def upd asks(3,4)
      by (intro conjI) (auto simp: less_Suc_eq split: if_splits)
  next
    case (loads np)
    have callers: "callers (hg_local s') = callers (hg_local s) + {#hg_calls s#}"
      using callers_step [of "Load np (hg_calls s)" "hg_local s"] loads(5) by simp
    have tasks: "x \<in> set (load_tasks (hg_local s')) \<Longrightarrow> x \<in> set (load_tasks (hg_local s)) \<or> snd x = (np, hg_calls s)" for x
      using load_tasks_step [of x "Load np (hg_calls s)" "hg_local s"] loads(5) by auto
    have fresh: "hg_calls s \<notin> fst ` set (hg_sent s)" using C(2) by fastforce
    show ?thesis
      unfolding call_inv_def upd loads(3,4)
    proof (intro conjI)
      show "callers (hg_local s') = mset [0..<Suc (hg_calls s)]" using callers C(1) by simp
      show "\<forall>(c, k, p) \<in> set (hg_sent s @ [(hg_calls s, k, np)]). c < Suc (hg_calls s)" using C(2) by fastforce
      show "distinct (map fst (hg_sent s @ [(hg_calls s, k, np)]))" using C(3) fresh by simp
      show "\<forall>(i, p, c) \<in> set (load_tasks (hg_local s')). \<exists>ka. (c, ka, p) \<in> set (hg_sent s @ [(hg_calls s, k, np)])"
        using tasks C(4) by fastforce
      show "\<forall>ka c. awaits (((task_at s)(k := t')) ka) = Some c \<longrightarrow> c < Suc (hg_calls s)"
        using loads(1) C(5) by (auto simp: less_Suc_eq)
      show "\<forall>ka c i. load_wait (((task_at s)(k := t')) ka) = Some (c, i) \<longrightarrow>
          (\<exists>p. (c, ka, p) \<in> set (hg_sent s @ [(hg_calls s, k, np)]) \<and> load_id p = i)"
        using loads(2) C(6) by (fastforce split: if_splits)
      show "\<forall>ka c j p. awaits (((task_at s)(k := t')) ka) = Some c \<and> load_wait (((task_at s)(k := t')) ka) = None \<longrightarrow>
          (c, j, p) \<notin> set (hg_sent s @ [(hg_calls s, k, np)])"
        using loads(2) C(5,7) by (fastforce split: if_splits)
    qed
  qed
qed

subsection \<open>Residents\<close>

text \<open>The rooms the tasks have made, and that no model has two workers.\<close>

definition home_inv :: "Higgs \<Rightarrow> bool" where
  "home_inv s \<longleftrightarrow>
     keys_once (hg_local s) \<and> (\<forall>k. room (hg_local s) (task_at s k) \<and> named (task_at s k)) \<and>
     (\<forall>m w w'. resides (hg_local s) w m \<and> resides (hg_local s) w' m \<longrightarrow> w = w')"

text \<open>A room stays when the registry shrinks and the answers stay.\<close>

lemma room_shrinks_at:
  assumes "\<And>w i. claims t = Some i \<or> flags t = Some i \<Longrightarrow> resides n' w i \<Longrightarrow> resides n w i"
    "\<And>c r. map_of (replies n) c = Some r \<Longrightarrow> map_of (replies n') c = Some r" "room n t"
  shows "room n' t"
  using assms
  by (auto simp: room_def unanswered_clear_def claims_def flags_def holds_lock_def
      split: task.splits load_pc.splits bench_pc.splits option.splits) blast+

lemma room_shrinks:
  assumes "\<And>w m. resides n' w m \<Longrightarrow> resides n w m" "\<And>c r. map_of (replies n) c = Some r \<Longrightarrow> map_of (replies n') c = Some r"
    "room n t"
  shows "room n' t"
  using assms(1) by (rule room_shrinks_at [OF _ assms(2,3)])

lemma room_step:
  assumes "room n t" "\<And>w p c sv v f t. e = LoadEnds w p c (LoadOk sv v f) True t \<Longrightarrow> (w, p, c) \<notin> set (load_tasks n)"
  shows "room (node_step e n) t"
proof (rule room_shrinks [OF _ answer_stable assms(1)])
  fix w m assume "resides (node_step e n) w m"
  from resides_step [OF this] assms(2) show "resides n w m" by blast
qed

lemma room_harmless: "room n t \<Longrightarrow> harmless e \<Longrightarrow> room (node_step e n) t"
  by (rule room_step) (auto simp: harmless_def)

lemma room_quiet:
  assumes "room n t" "node_own n n' \<or> node_asked c n n' \<or> n' = node_load np c n \<or> n' = n"
  shows "room n' t"
  using assms room_harmless [of n t] room_step [of n t "Load np c"]
  by (auto simp: node_own_def node_asked_def)

lemma resides_quiet:
  assumes "resides n' w m" "node_own n n' \<or> node_asked c n n' \<or> n' = node_load np c n \<or> n' = n"
  shows "resides n w m"
  using assms by (auto simp: node_own_def node_asked_def harmless_def dest: resides_step)

lemma keys_quiet:
  assumes "keys_once n" "node_own n n' \<or> node_asked c n n' \<or> n' = node_load np c n \<or> n' = n"
  shows "keys_once n'"
  using assms keys_once_step [of n] keys_once_step [of n "Load np c"] by (auto simp: node_own_def node_asked_def)

lemma home_moved:
  assumes h: "home_inv s" and m: "moved k (task_at s k) s s'"
  shows "home_inv s'"
proof -
  define t' where "t' = task_at s' k"
  have upd: "task_at s' = (task_at s)(k := t')" and mv: "node_move k t' s s'" and named: "named t'"
    and room: "room (hg_local s) (task_at s k) \<longrightarrow> room (hg_local s') t'"
    using m by (auto simp: moved_def Let_def t'_def)
  obtain c np where quiet: "node_own (hg_local s) (hg_local s') \<or> node_asked c (hg_local s) (hg_local s') \<or>
      hg_local s' = node_load np c (hg_local s) \<or> hg_local s' = hg_local s"
    using mv by (auto simp: node_move_def split: option.splits prod.splits)
  have "room (hg_local s') (task_at s' j) \<and> named (task_at s' j)" for j
    using h room named room_quiet [OF _ quiet] by (auto simp: home_inv_def upd)
  moreover have "resides (hg_local s') w m' \<Longrightarrow> resides (hg_local s') w' m' \<Longrightarrow> w = w'" for w w' m'
    using h resides_quiet [OF _ quiet] unfolding home_inv_def by blast
  ultimately show ?thesis using h keys_quiet [OF _ quiet] by (auto simp: home_inv_def)
qed

text \<open>A load of the node that ends: the worker is kept only for a task that waits, which made room for it.\<close>

definition higgs_inv :: "Higgs \<Rightarrow> bool" where
  "higgs_inv s \<longleftrightarrow> lock_inv s \<and> flag_inv s \<and> call_inv s \<and> home_inv s"

lemma load_wait_claims: "load_wait t = Some (c, i) \<Longrightarrow> claims t = Some i \<or> flags t = Some i"
  by (auto simp: load_wait_def claims_def flags_def holds_lock_def split: task.splits load_pc.splits bench_pc.splits)

lemma room_load_wait: "load_wait t = Some (c, i) \<Longrightarrow> room n t = unanswered_clear n c i"
  by (auto simp: load_wait_def room_def split: task.splits load_pc.splits bench_pc.splits)

lemma one_owner:
  assumes "lock_inv s" "flag_inv s" "claims (task_at s j) = Some i \<or> flags (task_at s j) = Some i"
    "claims (task_at s k) = Some i \<or> flags (task_at s k) = Some i"
  shows "j = k"
proof -
  have flagged: "flags (task_at s j) = Some i \<Longrightarrow> i \<in> set (hg_benchmarking s)"
    and free: "claims (task_at s j) = Some i \<Longrightarrow> i \<notin> set (hg_benchmarking s)"
    and uniq: "flags (task_at s j) = Some i \<Longrightarrow> flags (task_at s k) = Some i \<Longrightarrow> j = k" for j k
    using assms(2) unfolding flag_inv_def by blast+
  have lock: "hg_lifecycle s = Some j" if "claims (task_at s j) = Some i" for j
    using assms(1) claims_locked [OF that] by (simp add: lock_inv_def)
  show ?thesis using assms(3,4)
  proof (elim disjE)
    assume "claims (task_at s j) = Some i" "claims (task_at s k) = Some i"
    then show ?thesis using lock [of j] lock [of k] by simp
  qed (use flagged free uniq in blast)+
qed

lemma awaited_task:
  assumes "awaited c s"
  shows "\<exists>k. awaits (task_at s k) = Some c"
proof -
  obtain k where "k < length (hg_tasks s)" "awaits (hg_tasks s ! k) = Some c"
    using assms unfolding awaited_def list_ex_iff by (metis in_set_conv_nth)
  then have "awaits (task_at s k) = Some c" by (simp add: task_at_def)
  then show ?thesis ..
qed

text \<open>The task a load of the node reports to, if its caller waits.\<close>

lemma awaited_load:
  assumes "call_inv s" "(i, p, c) \<in> set (load_tasks (hg_local s))" "awaited c s"
  obtains k where "load_wait (task_at s k) = Some (c, load_id p)" "c \<notin> fst ` set (replies (hg_local s))"
proof -
  note C = call_invD [OF assms(1)]
  obtain k where k: "awaits (task_at s k) = Some c" using awaited_task [OF assms(3)] ..
  obtain k' where k': "(c, k', p) \<in> set (hg_sent s)" using C(4) [OF assms(2)] ..
  from C(7) [OF k] k' obtain c' m where w: "load_wait (task_at s k) = Some (c', m)"
    by (cases "load_wait (task_at s k)") auto
  from load_wait_awaits [OF w] k have [simp]: "c' = c" by simp
  obtain p' where p': "(c, k, p') \<in> set (hg_sent s)" "load_id p' = m" using C(6) [OF w] by auto
  have "p' = p" using eq_key_imp_eq_value [OF C(3) k' p'(1)] by simp
  moreover have "c \<notin> fst ` set (replies (hg_local s))"
  proof
    assume "c \<in> fst ` set (replies (hg_local s))"
    then have "c \<in># mset (map fst (replies (hg_local s)))" by simp
    moreover have "c \<in># mset (held (hg_local s))" using assms(2) by (force simp: held_def)
    ultimately have "0 < count (mset (map fst (replies (hg_local s)))) c" "0 < count (mset (held (hg_local s))) c"
      by (simp_all only: count_greater_zero_iff)
    then have "count (callers (hg_local s)) c \<ge> 2" unfolding callers_def count_union by linarith
    moreover have "count (mset [0..<hg_calls s]) c \<le> 1"
      by (metis distinct_count_atmost_1 distinct_upt le_numeral_extra(3,4) zero_le_one)
    ultimately show False using C(1) by simp
  qed
  ultimately show thesis using that [of k] w p' by simp
qed

lemma lock_flag_cong:
  assumes "task_at s' = task_at s" "hg_lifecycle s' = hg_lifecycle s" "hg_benchmarking s' = hg_benchmarking s"
  shows "lock_inv s' = lock_inv s" "flag_inv s' = flag_inv s"
  by (simp_all only: lock_inv_def flag_inv_def assms)

lemma call_home_cong:
  assumes "task_at s' = task_at s" "hg_local s' = hg_local s" "hg_calls s' = hg_calls s" "hg_sent s' = hg_sent s"
  shows "call_inv s' = call_inv s" "home_inv s' = home_inv s"
  by (simp_all only: call_inv_def home_inv_def assms)

lemma inv_local [simp]: "lock_inv (s\<lparr>hg_local := n\<rparr>) = lock_inv s" "flag_inv (s\<lparr>hg_local := n\<rparr>) = flag_inv s"
  by (rule lock_flag_cong; simp)+

lemma home_local:
  assumes "home_inv s" "keys_once n'" "\<And>w m. resides n' w m \<Longrightarrow> resides (hg_local s) w m"
    "\<And>t. room (hg_local s) t \<Longrightarrow> room n' t"
  shows "home_inv (s\<lparr>hg_local := n'\<rparr>)"
proof -
  have "resides n' w m \<Longrightarrow> resides n' w' m \<Longrightarrow> w = w'" for w w' m
    using assms(1,3) unfolding home_inv_def by blast
  moreover have "task_at (s\<lparr>hg_local := n'\<rparr>) = task_at s" by simp
  ultimately show ?thesis using assms(1,2,4) unfolding home_inv_def by auto
qed

lemma call_inv_local:
  assumes "call_inv s" "asks e = []" "\<And>p c. e \<noteq> Load p c"
  shows "call_inv (s\<lparr>hg_local := node_step e (hg_local s)\<rparr>)"
proof -
  have "set (load_tasks (node_step e (hg_local s))) \<subseteq> set (load_tasks (hg_local s))"
    using load_tasks_step assms(3) by blast
  moreover have "callers (node_step e (hg_local s)) = callers (hg_local s)" using assms(2) by (simp add: callers_step)
  ultimately show ?thesis using assms(1) by (auto simp: call_inv_def)
qed

lemma home_load_ends:
  assumes s: "higgs_inv s" and listens: "listening \<Longrightarrow> awaited c s" and
    r: "\<And>sv v f. r = LoadOk sv v f \<Longrightarrow> loaded_model_id sv = Some (load_id p)"
  shows "home_inv (s\<lparr>hg_local := node_step (LoadEnds i p c r listening t) (hg_local s)\<rparr>)"
proof -
  let ?n = "hg_local s" and ?n' = "node_step (LoadEnds i p c r listening t) (hg_local s)"
  have inv: "lock_inv s" "flag_inv s" "call_inv s" "home_inv s" using s by (simp_all add: higgs_inv_def)
  have rooms: "room ?n (task_at s j)" "named (task_at s j)" for j using inv(4) by (simp_all add: home_inv_def)
  have once: "resides ?n w m \<Longrightarrow> resides ?n w' m \<Longrightarrow> w = w'" for w w' m using inv(4) unfolding home_inv_def by blast
  have keys: "keys_once ?n'" using inv(4) by (intro keys_once_step) (simp add: home_inv_def)
  show ?thesis
  proof (cases "listening \<and> (i, p, c) \<in> set (load_tasks ?n) \<and> \<not> shutting_down ?n \<and> (\<exists>sv v f. r = LoadOk sv v f)")
    case False
    have "resides ?n w m" if "resides ?n' w m" for w m using resides_step [OF that] False by blast
    then show ?thesis by (intro home_local [OF inv(4) keys] room_shrinks [OF _ answer_stable])
  next
    case True
    then obtain sv v f where k: "listening" "(i, p, c) \<in> set (load_tasks ?n)" "\<not> shutting_down ?n" "r = LoadOk sv v f" by auto
    obtain j where j: "load_wait (task_at s j) = Some (c, load_id p)" "c \<notin> fst ` set (replies ?n)"
      using awaited_load [OF inv(3) k(2) listens [OF k(1)]] by blast
    have clear: "\<not> resides ?n w (load_id p)" for w
      using rooms(1) [of j] j(2) unfolding room_load_wait [OF j(1)] unanswered_clear_def
      by (force dest: map_of_SomeD)
    have new: "resides ?n w m \<or> w = i \<and> m = load_id p" if "resides ?n' w m" for w m
      using resides_step [OF that] r [OF k(4)] k(4) by auto
    have "room ?n' (task_at s q)" for q
    proof (cases "q = j")
      case True
      show ?thesis unfolding True room_load_wait [OF j(1)] unanswered_clear_def
        using kept_answer [OF k(2,3) j(2)] k(1,4) by auto
    next
      case False
      have "claims (task_at s q) = Some m \<or> flags (task_at s q) = Some m \<Longrightarrow> m \<noteq> load_id p" for m
        using one_owner [OF inv(1,2), of q m j] load_wait_claims [OF j(1)] False by auto
      then show ?thesis using new by (intro room_shrinks_at [OF _ answer_stable rooms(1)]) blast
    qed
    moreover have "resides ?n' w m \<Longrightarrow> resides ?n' w' m \<Longrightarrow> w = w'" for w w' m
      using new [of w m] new [of w' m] clear once by blast
    ultimately show ?thesis using keys rooms(2) unfolding home_inv_def by (auto simp del: node_step.simps)
  qed
qed

lemma home_own:
  assumes "home_inv s" "own_move e"
  shows "home_inv (s\<lparr>hg_local := node_step e (hg_local s)\<rparr>)"
proof -
  have "node_own (hg_local s) (node_step e (hg_local s))"
    using assms(2) by (intro node_ownI) (auto simp: own_move_def harmless_def split: NodeStep.splits)
  then have q: "node_own (hg_local s) (node_step e (hg_local s)) \<or> node_asked c (hg_local s) (node_step e (hg_local s)) \<or>
      node_step e (hg_local s) = node_load np c (hg_local s) \<or> node_step e (hg_local s) = hg_local s" for c np by simp
  show ?thesis
    using assms(1) by (intro home_local keys_quiet [OF _ q] resides_quiet [OF _ q] room_quiet [OF _ q]) (simp_all add: home_inv_def)
qed

lemma task_at_ask: "task_at (ask r s) = (task_at s)(length (hg_tasks s) := first_task r)"
  by (auto simp: fun_eq_iff task_at_def ask_def Let_def nth_append split: facade_request.split)

lemma ask_frame [simp]:
  "hg_lifecycle (ask r s) = hg_lifecycle s" "hg_benchmarking (ask r s) = hg_benchmarking s"
  "hg_local (ask r s) = hg_local s" "hg_calls (ask r s) = hg_calls s" "hg_sent (ask r s) = hg_sent s"
  "hg_gate (ask r s) = hg_gate s" "hg_remote_gate (ask r s) = hg_remote_gate s"
  "hg_last_loads (ask r s) = hg_last_loads s" "hg_models (ask r s) = hg_models s"
  by (auto simp: ask_def Let_def split: facade_request.split)

lemma ask_moved: "moved (length (hg_tasks s)) Finished s (ask r s)"
  by (cases r) (auto simp: moved_def task_at_ask first_task_def move_defs)

lemma task_at_end: "task_at s (length (hg_tasks s)) = Finished"
  by (simp add: task_at_def)

lemma inv_moved:
  assumes "higgs_inv s" "moved k (task_at s k) s s'"
  shows "higgs_inv s'"
  using assms lock_moved flag_moved call_moved home_moved unfolding higgs_inv_def by blast

lemma inv_step: "higgs_inv s \<Longrightarrow> higgs_inv (facade_step e s)"
proof (cases e)
  case (Ask r)
  assume "higgs_inv s"
  with Ask show ?thesis using inv_moved [of s "length (hg_tasks s)"] ask_moved [of s r] by (simp add: task_at_end)
next
  case (Proceed k a)
  assume s: "higgs_inv s"
  then have "named (task_at s k)" by (simp add: higgs_inv_def home_inv_def)
  with s Proceed show ?thesis
    using task_step_moves [of k a s] inv_moved [of s k] by (cases "task_step k a s") auto
next
  case (Drop k)
  assume s: "higgs_inv s"
  show ?thesis
  proof (cases "k < length (hg_tasks s) \<and> drop_task k s \<noteq> s")
    case True
    with s Drop drop_moves [of k s] inv_moved [of s k] show ?thesis by (simp add: task_at_def)
  next
    case False
    with s Drop show ?thesis by (auto simp: drop_task_def)
  qed
next
  case (NodeLoadEnds i p c env t)
  assume s: "higgs_inv s"
  then show ?thesis
    using NodeLoadEnds home_load_ends [OF s, of "awaited c s" c "do_load env p" p i t]
      call_inv_local [of s "LoadEnds i p c (do_load env p) (awaited c s) t"] loaded_model_do_load [of env p]
    by (auto simp: higgs_inv_def simp del: node_step.simps)
next
  case (NodeMoves x)
  assume s: "higgs_inv s"
  moreover have "own_move x \<Longrightarrow> asks x = [] \<and> (\<forall>p c. x \<noteq> Load p c)" by (cases x) (auto simp: own_move_def)
  ultimately show ?thesis
    using NodeMoves home_own [of s x] call_inv_local [of s x]
    by (auto simp: higgs_inv_def simp del: node_step.simps)
next
  case (PutTuning i r)
  assume "higgs_inv s"
  moreover have "task_at (s\<lparr>hg_models := m\<rparr>) = task_at s" for m by (rule task_at_cong) simp
  ultimately show ?thesis using PutTuning lock_flag_cong [of "facade_step e s" s] call_home_cong [of "facade_step e s" s]
    by (simp add: higgs_inv_def)
qed

lemma inv_new: "higgs_inv (higgs_new ttl d store)"
proof -
  have "task_at (higgs_new ttl d store) = (\<lambda>_. Finished)" by (simp add: fun_eq_iff task_at_def higgs_new_def)
  then show ?thesis
    by (simp add: higgs_inv_def lock_inv_def flag_inv_def call_inv_def home_inv_def)
       (simp add: higgs_new_def node_new_def registry_empty_def callers_def held_def List.map_filter_def resides_def
         locked_def flags_def claims_def room_def named_def awaits_def load_wait_def)
qed

lemma inv_run: "higgs_inv (facade_run es (higgs_new ttl d store))"
proof -
  have "higgs_inv s \<Longrightarrow> higgs_inv (fold facade_step es s)" for s
    by (induction es arbitrary: s) (simp_all add: inv_step)
  then show ?thesis using inv_new by (simp add: facade_run_def)
qed

lemma distinct_map_filter_keys:
  "distinct xs \<Longrightarrow> distinct (List.map_filter (\<lambda>i. map_option (\<lambda>sv. (i, g sv)) (f i)) xs)"
  by (induction xs) (auto simp: List.map_filter_def)

lemma distinct_instances: "keys_once n \<Longrightarrow> distinct (local_instances n)"
  by (simp add: local_instances_def registry_ids_def distinct_map_filter_keys)

text \<open>C3. The registry of the local node never has two committed workers for one model: over every
  schedule of loads with their retries, benchmarks, unloads, chats, shutdowns and idle reaps, and
  wherever requests are dropped, the resident workers (the rows that \<open>local_instances\<close> lists and
  that chats are routed to) serve pairwise different models. Workers that are still loading or
  already being stopped are not counted: after a dropped load a second one may be loading beside
  the first for a while, but the first is never committed.
\<close>

theorem one_worker_per_model:
  "distinct (map snd (local_instances (hg_local (facade_run es (higgs_new ttl d store)))))"
proof -
  let ?n = "hg_local (facade_run es (higgs_new ttl d store))"
  have "home_inv (facade_run es (higgs_new ttl d store))" using inv_run by (simp add: higgs_inv_def)
  then have keys: "keys_once ?n" and once: "resides ?n w m \<Longrightarrow> resides ?n w' m \<Longrightarrow> w = w'" for w w' m
    unfolding home_inv_def by blast+
  have "distinct (local_instances ?n)" using keys by (rule distinct_instances)
  moreover have "inj_on snd (set (local_instances ?n))" using once by (auto intro!: inj_onI simp: in_instances)
  ultimately show ?thesis by (simp add: distinct_map)
qed

text \<open>C18. Neither the lifecycle lock nor a benchmark flag is ever leaked, wherever tasks are dropped:
  the lock is held exactly by the one task that is between taking and releasing it, a model is
  flagged exactly while one benchmark of it, or the cleanup a dropped one left, is running, and
  no load has passed the gate of a flagged model.
\<close>

theorem lock_and_flags_exact:
  "let s = facade_run es (higgs_new ttl d store) in
   (\<forall>k. hg_lifecycle s = Some k \<longleftrightarrow> locked (task_at s k)) \<and>
   (\<forall>i. is_benchmarking i s \<longleftrightarrow> (\<exists>!k. flags (task_at s k) = Some i)) \<and>
   (\<forall>k i. \<not> (claims (task_at s k) = Some i \<and> is_benchmarking i s))"
proof -
  define s where "s = facade_run es (higgs_new ttl d store)"
  have inv: "lock_inv s" "flag_inv s" using inv_run by (simp_all add: higgs_inv_def s_def)
  from inv(2) have "is_benchmarking i s \<longleftrightarrow> (\<exists>!k. flags (task_at s k) = Some i)"
    "\<not> (claims (task_at s k) = Some i \<and> is_benchmarking i s)" for i k
    unfolding flag_inv_def is_benchmarking_def by metis+
  with inv(1) show ?thesis unfolding s_def [symmetric] Let_def lock_inv_def by blast
qed

end
