(* ===== verification/Facade_Loads.thy ===== *)
theory Facade_Loads
  imports Facade_Props
begin

text \<open>
  What a user of the facade sees of one request: the progress of a load and how it is closed, the
  record a load leaves, the bound on concurrent inference; and a candidate a dropped benchmark
  leaves behind.
\<close>

subsection \<open>The progress of a load\<close>

text \<open>The phases shown for request \<open>k\<close>.\<close>

definition phases_of :: "nat \<Rightarrow> Higgs \<Rightarrow> ModelLoadPhase list" where
  "phases_of k s = map (\<lambda>(_, _, p, _). p) (filter (\<lambda>(j, _). j = k) (hg_events s))"

definition mid_phases :: "ModelLoadPhase list" where
  "mid_phases = [Preparing, LoadingWeights, Finalizing]"

definition open_bar :: "ModelLoadPhase list \<Rightarrow> bool" where
  "open_bar ps \<longleftrightarrow> (case ps of [] \<Rightarrow> False | p # mid \<Rightarrow> p = Queued \<and> prefix mid mid_phases)"

definition closed_bar :: "ModelLoadPhase \<Rightarrow> ModelLoadPhase list \<Rightarrow> bool" where
  "closed_bar p ps \<longleftrightarrow> ps \<noteq> [] \<and> open_bar (butlast ps) \<and> List.last ps = p"

text \<open>What is shown while the load is at a program point.\<close>

definition shown :: "load_pc \<Rightarrow> ModelLoadPhase list" where
  "shown pc =
     (case pc of
        LQueue \<Rightarrow> [Queued]
      | LResident \<Rightarrow> [Queued]
      | LPrepare \<Rightarrow> [Queued, Preparing]
      | LAnchor _ \<Rightarrow> [Queued, Preparing]
      | LSend _ _ _ _ _ \<Rightarrow> [Queued, Preparing, LoadingWeights]
      | LWait _ _ _ _ _ _ \<Rightarrow> [Queued, Preparing, LoadingWeights]
      | LPersist _ _ _ _ \<Rightarrow> [Queued, Preparing, LoadingWeights, Finalizing]
      | LEnded _ \<Rightarrow> [])"

lemma open_shown: "(\<forall>e. pc \<noteq> LEnded e) \<Longrightarrow> open_bar (shown pc)"
  by (cases pc) (auto simp: shown_def open_bar_def mid_phases_def)

definition bar_ok :: "task \<Rightarrow> ModelLoadPhase list \<Rightarrow> bool" where
  "bar_ok t ps \<longleftrightarrow>
     (case t of
        LoadTask _ _ _ (LEnded e) \<Rightarrow> closed_bar (if e = None then Ready else LoadFailed) ps
      | LoadTask _ _ _ pc \<Rightarrow> ps = shown pc
      | Finished \<Rightarrow> ps = [] \<or> closed_bar LoadFailed ps
      | _ \<Rightarrow> ps = [])"

definition bars_inv :: "Higgs \<Rightarrow> bool" where
  "bars_inv s \<longleftrightarrow>
     (\<forall>k. bar_ok (task_at s k) (phases_of k s)) \<and> (\<forall>(j, e) \<in> set (hg_events s). j < length (hg_tasks s))"

text \<open>A task's move shows phases of its own only.\<close>

definition bar_moved :: "nat \<Rightarrow> Higgs \<Rightarrow> Higgs \<Rightarrow> bool" where
  "bar_moved k s s' \<longleftrightarrow>
     length (hg_tasks s') = length (hg_tasks s) \<and>
     (\<exists>es. hg_events s' = hg_events s @ es \<and> list_all (\<lambda>(j, _). j = k) es \<and>
       (bar_ok (task_at s k) (phases_of k s) \<longrightarrow>
          bar_ok (task_at s' k) (phases_of k s @ map (\<lambda>(_, _, p, _). p) es)))"

lemmas bar_defs = bar_moved_def bar_ok_def shown_def closed_bar_def open_bar_def mid_phases_def

lemma load_step_bar:
  assumes "load_step k i params persist pc a s = Some s'" "k < length (hg_tasks s)"
    "task_at s k = LoadTask i params persist pc"
  shows "bar_moved k s s'"
proof (cases pc)
  case LQueue
  with assms show ?thesis
    by (auto simp: Let_def split: if_splits option.splits) (auto simp: bar_defs task_at_upd end_load_def)
next
  case LResident
  with assms show ?thesis
    by (auto split: if_splits) (auto simp: bar_defs task_at_upd end_load_def)
next
  case LPrepare
  with assms show ?thesis
    by (auto split: sum.splits) (auto simp: bar_defs task_at_upd end_load_def)
next
  case (LAnchor p)
  with assms show ?thesis by (auto simp: bar_defs task_at_upd Let_def)
next
  case (LSend np r an n rs)
  with assms show ?thesis by (auto simp: bar_defs task_at_upd call_node_def)
next
  case (LWait c np r an n rs)
  with assms show ?thesis
    by (auto simp: Let_def load_failed_def split: option.splits NodeReply.splits list.splits if_splits)
       (auto simp: bar_defs task_at_upd end_load_def)
next
  case (LPersist c np r an)
  with assms show ?thesis by (auto simp: bar_defs task_at_upd end_load_def)
qed (use assms in simp)

text \<open>No other task shows phases.\<close>

definition silent :: "task \<Rightarrow> bool" where
  "silent t \<longleftrightarrow> (case t of LoadTask _ _ _ _ \<Rightarrow> False | _ \<Rightarrow> True)"

lemma silent_bar: "silent t \<Longrightarrow> t \<noteq> Finished \<Longrightarrow> bar_ok t ps \<longleftrightarrow> ps = []"
  by (auto simp: silent_def bar_ok_def split: task.splits)

definition silent_move :: "nat \<Rightarrow> Higgs \<Rightarrow> Higgs \<Rightarrow> bool" where
  "silent_move k s s' \<longleftrightarrow>
     hg_events s' = hg_events s \<and> length (hg_tasks s') = length (hg_tasks s) \<and> silent (task_at s' k)"

lemma silent_moved: "silent_move k s s' \<Longrightarrow> silent (task_at s k) \<Longrightarrow> task_at s k \<noteq> Finished \<Longrightarrow> bar_moved k s s'"
  using silent_bar [of "task_at s k"] silent_bar [of "task_at s' k"]
  by (cases "task_at s' k = Finished") (auto simp: silent_move_def bar_moved_def bar_ok_def)

lemmas silent_defs = silent_move_def silent_def task_at_upd Let_def

lemma bench_step_silent:
  assumes "bench_step k i turns pc a s = Some s'" "k < length (hg_tasks s)"
  shows "silent_move k s s'"
  using assms
  by (cases "(k, i, turns, pc, a, s)" rule: bench_step.cases)
     (auto simp: next_turn_def end_bench_def silent_defs call_node_def split: if_splits option.splits NodeReply.splits)

lemma other_step_silent:
  assumes "k < length (hg_tasks s)"
  shows "unload_step k which upc a s = Some s' \<Longrightarrow> silent_move k s s'"
    "chat_step k public m cpc a s = Some s' \<Longrightarrow> silent_move k s s'"
    "cleanup_step k i w c a s = Some s' \<Longrightarrow> silent_move k s s'"
    "halt_step k c s = Some s' \<Longrightarrow> silent_move k s s'"
  subgoal
    using assms by (cases "(k, which, upc, a, s)" rule: unload_step.cases)
      (auto simp: end_unload_def silent_defs call_node_def split: if_splits option.splits sum.splits)
  subgoal
    using assms by (cases "(k, public, m, cpc, a, s)" rule: chat_step.cases)
      (auto simp: silent_defs call_node_def split: if_splits option.splits NodeReply.splits prod.splits)
  subgoal using assms by (auto simp: cleanup_step_def silent_defs call_node_def split: if_splits option.splits)
  subgoal using assms by (auto simp: halt_step_def silent_defs call_node_def split: if_splits option.splits)
  done

lemma task_step_bar:
  assumes "task_step k a s = Some s'"
  shows "bar_moved k s s'"
proof -
  from assms have k: "k < length (hg_tasks s)" by (simp add: task_step_def split: if_splits)
  then have at: "task_at s k = hg_tasks s ! k" by (simp add: task_at_def)
  show ?thesis
    using assms k at
    by (cases "hg_tasks s ! k")
      (auto simp: task_step_def silent_def intro: load_step_bar silent_moved bench_step_silent other_step_silent)
qed

lemma drop_bar:
  assumes "k < length (hg_tasks s)"
  shows "bar_moved k s (drop_task k s)"
proof -
  have at: "task_at s k = hg_tasks s ! k" using assms by (simp add: task_at_def)
  show ?thesis
  proof (cases "hg_tasks s ! k")
    case (LoadTask i params persist pc)
    then show ?thesis using assms at
      by (cases pc) (auto simp: drop_task_def drop_load_def shows_loading_def holds_lock_def Let_def bar_defs task_at_upd)
  next
    case (UnloadTask which pc)
    then show ?thesis using assms at
      by (cases pc) (auto simp: drop_task_def drop_unload_def bar_defs task_at_upd)
  next
    case (BenchTask i turns pc)
    then show ?thesis using assms at
      by (cases pc) (auto simp: drop_task_def drop_bench_def live_candidate_def bar_defs task_at_upd)
  next
    case (ChatTask public m pc)
    then show ?thesis using assms at
      by (cases pc) (auto simp: drop_task_def drop_chat_def bar_defs task_at_upd)
  next
    case (StopTask c)
    then show ?thesis using assms at by (cases c) (auto simp: drop_task_def bar_defs task_at_upd)
  qed (use assms at in \<open>auto simp: drop_task_def bar_moved_def\<close>)
qed

lemma phases_app: "phases_of j s' = phases_of j s @ (if j = k then map (\<lambda>(_, _, p, _). p) es else [])"
  if "hg_events s' = hg_events s @ es" "list_all (\<lambda>(j, _). j = k) es"
proof -
  have "filter (\<lambda>(j', _). j' = j) es = (if j = k then es else [])"
    using that(2) by (induction es) auto
  then show ?thesis using that(1) by (simp add: phases_of_def)
qed

lemma bars_moved:
  assumes "bars_inv s" "bar_moved k s s'" "\<And>j. j \<noteq> k \<Longrightarrow> task_at s' j = task_at s j" "k < length (hg_tasks s)"
  shows "bars_inv s'"
proof -
  obtain es where es: "hg_events s' = hg_events s @ es" "list_all (\<lambda>(j, _). j = k) es"
    "bar_ok (task_at s k) (phases_of k s) \<longrightarrow> bar_ok (task_at s' k) (phases_of k s @ map (\<lambda>(_, _, p, _). p) es)"
    "length (hg_tasks s') = length (hg_tasks s)"
    using assms(2) by (auto simp: bar_moved_def)
  have "bar_ok (task_at s' j) (phases_of j s')" for j
    using assms(1,3) es(3) phases_app [OF es(1,2), of j] by (cases "j = k") (auto simp: bars_inv_def)
  moreover have "\<forall>(j, e) \<in> set (hg_events s'). j < length (hg_tasks s')"
    using assms(1,4) es(1,2,4) by (auto simp: bars_inv_def list_all_iff)
  ultimately show ?thesis by (simp add: bars_inv_def)
qed

lemma moved_others: "moved k t s s' \<Longrightarrow> j \<noteq> k \<Longrightarrow> task_at s' j = task_at s j"
  by (simp add: moved_def Let_def) (metis fun_upd_other)

lemma bars_ask: "bars_inv s \<Longrightarrow> bars_inv (ask r s)"
proof -
  assume b: "bars_inv s"
  let ?k = "length (hg_tasks s)"
  have none: "filter (\<lambda>(j, _). j = ?k) (hg_events s) = []"
    using b by (auto simp: bars_inv_def filter_empty_conv)
  obtain es where es: "hg_events (ask r s) = hg_events s @ es" "list_all (\<lambda>(j, _). j = ?k) es"
      "bar_ok (first_task r) (map (\<lambda>(_, _, p, _). p) es)" "length (hg_tasks (ask r s)) = Suc ?k"
    by (cases r) (auto simp: ask_def first_task_def bar_ok_def shown_def Let_def)
  have "bar_ok (task_at (ask r s) j) (phases_of j (ask r s))" for j
    using b es(3) none phases_app [OF es(1,2), of j]
    by (cases "j = ?k") (auto simp: bars_inv_def task_at_ask phases_of_def)
  moreover have "\<forall>(j, e) \<in> set (hg_events (ask r s)). j < length (hg_tasks (ask r s))"
    using b es(1,2,4) by (force simp: bars_inv_def list_all_iff)
  ultimately show ?thesis by (simp add: bars_inv_def)
qed

lemma bars_cong: "hg_tasks s' = hg_tasks s \<Longrightarrow> hg_events s' = hg_events s \<Longrightarrow> bars_inv s' = bars_inv s"
  by (simp add: bars_inv_def phases_of_def task_at_def)

lemma bars_fields [simp]: "bars_inv (s\<lparr>hg_local := n\<rparr>) = bars_inv s" "bars_inv (s\<lparr>hg_models := m\<rparr>) = bars_inv s"
  by (rule bars_cong; simp)+

lemma bars_step: "higgs_inv s \<Longrightarrow> bars_inv s \<Longrightarrow> bars_inv (facade_step e s)"
proof (cases e)
  case (Ask r)
  assume "bars_inv s"
  with Ask show ?thesis by (simp add: bars_ask)
next
  case (Proceed k a)
  assume "higgs_inv s" and b: "bars_inv s"
  then have "named (task_at s k)" by (simp add: higgs_inv_def home_inv_def)
  then show ?thesis
    using Proceed b task_step_moves [of k a s] task_step_bar [of k a s] bars_moved [OF b, of k] moved_others
    by (cases "task_step k a s") auto
next
  case (Drop k)
  assume b: "bars_inv s"
  show ?thesis
  proof (cases "k < length (hg_tasks s) \<and> drop_task k s \<noteq> s")
    case True
    then show ?thesis using Drop bars_moved [OF b drop_bar [of k s]] moved_others [OF drop_moves [of k s]] by simp
  next
    case False
    with b Drop show ?thesis by (auto simp: drop_task_def)
  qed
qed (simp_all del: node_step.simps)

lemma runs_inv:
  assumes "P (higgs_new ttl d store)" "\<And>e s. higgs_inv s \<Longrightarrow> P s \<Longrightarrow> P (facade_step e s)"
  shows "P (facade_run es (higgs_new ttl d store))"
proof -
  have "higgs_inv s \<and> P s \<Longrightarrow> higgs_inv (fold facade_step es s) \<and> P (fold facade_step es s)" for s
    by (induction es arbitrary: s) (simp_all add: inv_step assms(2))
  then show ?thesis using inv_new assms(1) by (simp add: facade_run_def)
qed

text \<open>C30. The progress bar of every load opens at once and is closed exactly once, whatever happens to
  the load: the phases shown are queued, then an initial part of preparing, loading weights and
  finalizing, and once the request is over, answered or dropped, one last phase, which is ready
  only for a load that succeeded; other requests show nothing.
\<close>

theorem load_bars_closed:
  "let s = facade_run es (higgs_new ttl d store) in
   case task_at s k of
     LoadTask _ _ _ pc \<Rightarrow>
       (case pc of LEnded e \<Rightarrow> closed_bar (if e = None then Ready else LoadFailed) (phases_of k s)
        | _ \<Rightarrow> open_bar (phases_of k s))
   | Finished \<Rightarrow> phases_of k s = [] \<or> closed_bar LoadFailed (phases_of k s)
   | _ \<Rightarrow> phases_of k s = []"
proof -
  define s where "s = facade_run es (higgs_new ttl d store)"
  have "bars_inv (higgs_new ttl d store)"
    by (simp add: bars_inv_def task_at_def higgs_new_def bar_ok_def phases_of_def)
  then have "bars_inv s" unfolding s_def by (rule runs_inv) (rule bars_step)
  then have "bar_ok (task_at s k) (phases_of k s)" by (simp add: bars_inv_def)
  then show ?thesis unfolding s_def [symmetric] Let_def
    by (auto simp: bar_ok_def open_shown split: task.splits load_pc.splits)
qed

subsection \<open>Concurrent inference\<close>

text \<open>
  The public chats that wait for a lease or generate here, and the chats (public or not) that are
  being relayed or wait for their relay.
\<close>

definition holds_permit :: "task \<Rightarrow> bool" where
  "holds_permit t =
     (case t of
        ChatTask public _ (CWait _ _ _ _) \<Rightarrow> public
      | ChatTask public _ (CRun _ _ _) \<Rightarrow> public
      | _ \<Rightarrow> False)"

definition holds_remote :: "task \<Rightarrow> bool" where
  "holds_remote t =
     (case t of
        ChatTask _ _ CRemoteWait \<Rightarrow> True
      | ChatTask _ _ CRunRemote \<Rightarrow> True
      | _ \<Rightarrow> False)"

text \<open>The permit that a chat carries is there exactly when it is public.\<close>

definition permit_fits :: "task \<Rightarrow> bool" where
  "permit_fits t =
     (case t of
        ChatTask public _ (CWait _ _ _ p) \<Rightarrow> p = public
      | ChatTask public _ (CRun _ _ p) \<Rightarrow> p = public
      | _ \<Rightarrow> True)"

definition count_tasks :: "(task \<Rightarrow> bool) \<Rightarrow> Higgs \<Rightarrow> nat" where
  "count_tasks P s = length (filter P (hg_tasks s))"

definition gate_move :: "nat \<Rightarrow> Higgs \<Rightarrow> Higgs \<Rightarrow> bool" where
  "gate_move k s s' \<longleftrightarrow> permit_fits (task_at s k) \<longrightarrow>
     permit_fits (task_at s' k) \<and>
     hg_gate s' + of_bool (holds_permit (task_at s' k)) = hg_gate s + of_bool (holds_permit (task_at s k)) \<and>
     hg_remote_gate s' + of_bool (holds_remote (task_at s' k)) = hg_remote_gate s + of_bool (holds_remote (task_at s k))"

lemmas gate_defs = gate_move_def holds_permit_def holds_remote_def permit_fits_def task_at_upd Let_def

lemma chat_step_gate:
  assumes "chat_step k public m pc a s = Some s'" "k < length (hg_tasks s)" "task_at s k = ChatTask public m pc"
  shows "gate_move k s s'"
  using assms
  by (cases "(k, public, m, pc, a, s)" rule: chat_step.cases)
     (auto simp: gate_defs call_node_def split: if_splits option.splits NodeReply.splits prod.splits)

lemma load_step_gate:
  assumes "load_step k i params persist pc a s = Some s'" "k < length (hg_tasks s)" "task_at s k = LoadTask i params persist pc"
  shows "gate_move k s s'"
  using assms
  by (cases "(k, i, params, persist, pc, a, s)" rule: load_step.cases)
     (auto simp: gate_defs call_node_def end_load_def load_failed_def
       split: if_splits option.splits NodeReply.splits prod.splits sum.splits list.splits)

lemma bench_step_gate:
  assumes "bench_step k i turns pc a s = Some s'" "k < length (hg_tasks s)" "task_at s k = BenchTask i turns pc"
  shows "gate_move k s s'"
  using assms
  by (cases "(k, i, turns, pc, a, s)" rule: bench_step.cases)
     (auto simp: next_turn_def end_bench_def gate_defs call_node_def split: if_splits option.splits NodeReply.splits)

lemma other_step_gate:
  assumes "k < length (hg_tasks s)"
  shows "unload_step k which upc a s = Some s' \<Longrightarrow> task_at s k = UnloadTask which upc \<Longrightarrow> gate_move k s s'"
    "cleanup_step k i w c a s = Some s' \<Longrightarrow> task_at s k = Cleanup i w c \<Longrightarrow> gate_move k s s'"
    "halt_step k c s = Some s' \<Longrightarrow> task_at s k = StopTask c \<Longrightarrow> gate_move k s s'"
  subgoal
    using assms by (cases "(k, which, upc, a, s)" rule: unload_step.cases)
      (auto simp: end_unload_def gate_defs call_node_def split: if_splits option.splits sum.splits)
  subgoal using assms by (auto simp: cleanup_step_def gate_defs call_node_def split: if_splits option.splits)
  subgoal using assms by (auto simp: halt_step_def gate_defs call_node_def split: if_splits option.splits)
  done

lemma task_step_gate:
  assumes "task_step k a s = Some s'"
  shows "gate_move k s s'"
proof -
  from assms have k: "k < length (hg_tasks s)" by (simp add: task_step_def split: if_splits)
  then have at: "task_at s k = hg_tasks s ! k" by (simp add: task_at_def)
  show ?thesis
    using assms k at
    by (cases "hg_tasks s ! k")
      (auto simp: task_step_def intro: load_step_gate chat_step_gate bench_step_gate other_step_gate)
qed

lemma drop_gate:
  assumes "k < length (hg_tasks s)"
  shows "gate_move k s (drop_task k s)"
proof -
  have at: "task_at s k = hg_tasks s ! k" using assms by (simp add: task_at_def)
  show ?thesis
  proof (cases "hg_tasks s ! k")
    case (LoadTask i params persist pc)
    then show ?thesis using assms at
      by (cases pc) (auto simp: drop_task_def drop_load_def shows_loading_def holds_lock_def gate_defs)
  next
    case (UnloadTask which pc)
    then show ?thesis using assms at by (cases pc) (auto simp: drop_task_def drop_unload_def gate_defs)
  next
    case (BenchTask i turns pc)
    then show ?thesis using assms at
      by (cases pc) (auto simp: drop_task_def drop_bench_def live_candidate_def gate_defs)
  next
    case (ChatTask public m pc)
    then show ?thesis using assms at by (cases pc) (auto simp: drop_task_def drop_chat_def gate_defs)
  next
    case (StopTask c)
    then show ?thesis using assms at by (cases c) (auto simp: drop_task_def gate_defs)
  qed (use assms at in \<open>auto simp: drop_task_def gate_move_def\<close>)
qed

definition gate_inv :: "Higgs \<Rightarrow> bool" where
  "gate_inv s \<longleftrightarrow>
     list_all permit_fits (hg_tasks s) \<and>
     hg_gate s + count_tasks holds_permit s = MAX_CONCURRENT_INFERENCE \<and>
     hg_remote_gate s + count_tasks holds_remote s = MAX_CONCURRENT_INFERENCE"

lemma count_update:
  "k < length xs \<Longrightarrow> length (filter P (xs[k := y])) + of_bool (P (xs ! k)) = length (filter P xs) + of_bool (P y)"
proof (induction xs arbitrary: k)
  case (Cons x xs)
  show ?case
  proof (cases k)
    case (Suc n)
    with Cons.IH [of n] Cons.prems show ?thesis by simp
  qed (simp add: of_bool_def)
qed simp

lemma tasks_moved:
  assumes "length (hg_tasks s') = length (hg_tasks s)" "\<And>j. j \<noteq> k \<Longrightarrow> task_at s' j = task_at s j" "k < length (hg_tasks s)"
  shows "hg_tasks s' = (hg_tasks s)[k := task_at s' k]"
proof (rule nth_equalityI)
  show "length (hg_tasks s') = length ((hg_tasks s)[k := task_at s' k])" using assms(1) by simp
  fix j assume j: "j < length (hg_tasks s')"
  with assms(1) have "task_at s' j = hg_tasks s' ! j" "task_at s j = hg_tasks s ! j" by (simp_all add: task_at_def)
  with assms(2) [of j] assms(3) j show "hg_tasks s' ! j = (hg_tasks s)[k := task_at s' k] ! j"
    by (cases "j = k") auto
qed

lemma gate_moved:
  assumes "gate_inv s" "gate_move k s s'" "hg_tasks s' = (hg_tasks s)[k := task_at s' k]" "k < length (hg_tasks s)"
  shows "gate_inv s'"
proof -
  have old: "permit_fits (task_at s k)"
    using assms(1,4) by (simp add: gate_inv_def list_all_length task_at_def)
  with assms(2) have "permit_fits (task_at s' k)" by (simp add: gate_move_def)
  then have fits: "list_all permit_fits (hg_tasks s')"
    using assms(1) unfolding gate_inv_def
    by (subst assms(3)) (auto simp: list_all_iff dest: set_update_subset_insert [THEN subsetD])
  have "count_tasks P s' + of_bool (P (task_at s k)) = count_tasks P s + of_bool (P (task_at s' k))" for P
  proof -
    have "task_at s k = hg_tasks s ! k" using assms(4) by (simp add: task_at_def)
    then show ?thesis
      unfolding count_tasks_def using count_update [OF assms(4), of P "task_at s' k"] by (simp only: assms(3) [symmetric])
  qed
  from this [of holds_permit] this [of holds_remote] show ?thesis
    using assms(1,2) old fits unfolding gate_inv_def gate_move_def by simp
qed

lemma gate_fields [simp]:
  "gate_inv (s\<lparr>hg_local := n\<rparr>) = gate_inv s" "gate_inv (s\<lparr>hg_models := m\<rparr>) = gate_inv s"
  by (simp_all add: gate_inv_def count_tasks_def)

lemma ask_gate: "gate_inv (ask r s) = gate_inv s"
  by (cases r) (simp_all add: ask_def Let_def gate_inv_def count_tasks_def first_task_def holds_permit_def holds_remote_def
      permit_fits_def)

lemma gate_step: "higgs_inv s \<Longrightarrow> gate_inv s \<Longrightarrow> gate_inv (facade_step e s)"
proof (cases e)
  case (Proceed k a)
  assume "higgs_inv s" and g: "gate_inv s"
  then have n: "named (task_at s k)" by (simp add: higgs_inv_def home_inv_def)
  show ?thesis
  proof (cases "task_step k a s")
    case (Some s')
    have k: "k < length (hg_tasks s)" using task_step_moves [OF Some n] by simp
    have "hg_tasks s' = (hg_tasks s)[k := task_at s' k]"
      using task_step_bar [OF Some] moved_others task_step_moves [OF Some n] k
      by (intro tasks_moved) (auto simp: bar_moved_def)
    with gate_moved [OF g task_step_gate [OF Some] _ k] Some Proceed show ?thesis by simp
  qed (use g Proceed in simp)
next
  case (Drop k)
  assume g: "gate_inv s"
  show ?thesis
  proof (cases "k < length (hg_tasks s) \<and> drop_task k s \<noteq> s")
    case True
    then have "hg_tasks (drop_task k s) = (hg_tasks s)[k := task_at (drop_task k s) k]"
      using drop_bar [of k s] moved_others [OF drop_moves [of k s]] by (intro tasks_moved) (auto simp: bar_moved_def)
    with gate_moved [OF g drop_gate [of k s]] True Drop show ?thesis by simp
  next
    case False
    with g Drop show ?thesis by (auto simp: drop_task_def)
  qed
qed (simp_all add: ask_gate del: node_step.simps)

text \<open>C32. No inference permit is lost and the gates bound what runs, whatever fails and whatever is
  dropped. At every moment the free permits of the local gate and the public chats that wait for a
  lease or generate here add up to eight; the free permits of the remote gate and the chats, public
  or not, that wait for \<open>fleet.chat\<close> or are being relayed add up to eight. So at most eight of each
  run at once. (The measurements of a benchmark take no permit of the local gate.)\<close>

theorem inference_gate_exact:
  "let s = facade_run es (higgs_new ttl d store) in
   hg_gate s + count_tasks holds_permit s = 8 \<and> hg_remote_gate s + count_tasks holds_remote s = 8"
proof -
  have "gate_inv (higgs_new ttl d store)"
    by (simp add: gate_inv_def count_tasks_def higgs_new_def)
  then have "gate_inv (facade_run es (higgs_new ttl d store))" by (rule runs_inv) (rule gate_step)
  then show ?thesis by (simp add: gate_inv_def MAX_CONCURRENT_INFERENCE_def)
qed

subsection \<open>The record of a load\<close>

text \<open>The call that loaded, and its parameters, as the load task \<open>k\<close> carries them.\<close>

definition carries :: "Higgs \<Rightarrow> nat \<Rightarrow> task \<Rightarrow> bool" where
  "carries s k t =
     (case t of
        LoadTask i _ _ (LWait c np _ _ _ _) \<Rightarrow> (c, k, np) \<in> set (hg_sent s) \<and> load_id np = i
      | LoadTask i _ _ (LPersist c np _ _) \<Rightarrow>
          (c, k, np) \<in> set (hg_sent s) \<and> load_id np = i \<and> (\<exists>w v. answer_of c s = Some (Loaded w v))
      | _ \<Rightarrow> True)"

definition loaded_as :: "Higgs \<Rightarrow> string \<times> LlamaCppParams \<Rightarrow> bool" where
  "loaded_as s r \<longleftrightarrow>
     (\<exists>c k np w v params persist. (c, k, np) \<in> set (hg_sent s) \<and> answer_of c s = Some (Loaded w v) \<and>
        load_id np = fst r \<and> effective_params np = snd r \<and> persist \<noteq> Ephemeral \<and>
        task_at s k = LoadTask (fst r) params persist (LEnded None))"

definition record_inv :: "Higgs \<Rightarrow> bool" where
  "record_inv s \<longleftrightarrow> (\<forall>k. carries s k (task_at s k)) \<and> (\<forall>r \<in> set (hg_last_loads s). loaded_as s r)"

definition grows :: "Higgs \<Rightarrow> Higgs \<Rightarrow> bool" where
  "grows s s' \<longleftrightarrow> set (hg_sent s) \<subseteq> set (hg_sent s') \<and> (\<forall>c r. answer_of c s = Some r \<longrightarrow> answer_of c s' = Some r)"

lemma moved_grows: "moved k t s s' \<Longrightarrow> grows s s'"
  using answer_stable [of "hg_local s"] answer_stable [of "hg_local s" _ _ "Load _ _"]
  by (auto simp: moved_def Let_def node_move_def node_own_def node_asked_def grows_def answer_of_def
      split: option.splits prod.splits)

lemma carries_grows: "grows s s' \<Longrightarrow> carries s k t \<Longrightarrow> carries s' k t"
  by (auto simp: carries_def grows_def split: task.splits load_pc.splits)

lemma loaded_as_grows:
  assumes "grows s s'" "loaded_as s r" "\<And>k i params persist e. task_at s k = LoadTask i params persist (LEnded e) \<Longrightarrow> task_at s' k = task_at s k"
  shows "loaded_as s' r"
proof -
  from assms(2) obtain c k np w v params persist where r: "(c, k, np) \<in> set (hg_sent s)" "answer_of c s = Some (Loaded w v)"
    "load_id np = fst r" "effective_params np = snd r" "persist \<noteq> Ephemeral" "task_at s k = LoadTask (fst r) params persist (LEnded None)"
    by (auto simp: loaded_as_def)
  with assms(1) assms(3) [OF r(6)] show ?thesis unfolding loaded_as_def grows_def
    by (intro exI [of _ c] exI [of _ k] exI [of _ np] exI [of _ w] exI [of _ v] exI [of _ params] exI [of _ persist]) auto
qed

lemma persist_load_record:
  "hg_last_loads (persist_load i persist r np an a s) =
     (if persist \<noteq> Ephemeral \<and> as_config_writes a
      then AList.update i (effective_params np) (hg_last_loads s) else hg_last_loads s)"
  by (simp add: persist_load_def Let_def split: option.split)

text \<open>What a step of a load does to the records.\<close>

lemma load_step_record:
  assumes "load_step k i params persist pc a s = Some s'" "k < length (hg_tasks s)"
    "named (LoadTask i params persist pc)" "carries s k (LoadTask i params persist pc)"
  shows "carries s' k (task_at s' k) \<and>
    (hg_last_loads s' = hg_last_loads s \<or>
     (\<exists>c np. (c, k, np) \<in> set (hg_sent s') \<and> load_id np = i \<and> (\<exists>w v. answer_of c s' = Some (Loaded w v)) \<and> persist \<noteq> Ephemeral \<and>
        task_at s' k = LoadTask i params persist (LEnded None) \<and>
        hg_last_loads s' = AList.update i (effective_params np) (hg_last_loads s)))"
proof (cases pc)
  case LQueue
  with assms show ?thesis
    by (auto simp: Let_def split: if_splits option.splits) (auto simp: carries_def task_at_upd end_load_def)
next
  case LResident
  with assms show ?thesis
    by (auto split: if_splits) (auto simp: carries_def task_at_upd end_load_def)
next
  case LPrepare
  with assms show ?thesis
    by (auto split: sum.splits) (auto simp: carries_def task_at_upd end_load_def)
next
  case (LAnchor p)
  with assms show ?thesis by (auto simp: carries_def task_at_upd Let_def)
next
  case (LSend np r an n rs)
  with assms show ?thesis by (auto simp: carries_def task_at_upd call_node_def named_def)
next
  case (LWait c np r an n rs)
  with assms show ?thesis
    by (auto simp: Let_def load_failed_def split: option.splits NodeReply.splits list.splits if_splits)
       (auto simp: carries_def task_at_upd end_load_def answer_of_def)
next
  case (LPersist c np r an)
  with assms have s': "s' = end_load k i params persist None (persist_load i persist r np an a (s\<lparr>hg_loading := None\<rparr>))"
    by simp
  have at: "task_at s' k = LoadTask i params persist (LEnded None)" using assms(2) by (simp add: s' end_load_def task_at_upd)
  have same: "hg_sent s' = hg_sent s" "answer_of c s' = answer_of c s" by (simp_all add: s' end_load_def answer_of_def)
  have "hg_last_loads s' = (if persist \<noteq> Ephemeral \<and> as_config_writes a
      then AList.update i (effective_params np) (hg_last_loads s) else hg_last_loads s)"
    by (simp add: s' end_load_def persist_load_record)
  moreover have "(c, k, np) \<in> set (hg_sent s') \<and> load_id np = i \<and> (\<exists>w v. answer_of c s' = Some (Loaded w v))"
    using assms(4) LPersist by (simp add: same carries_def)
  moreover have "carries s' k (task_at s' k)" by (simp add: at carries_def)
  ultimately show ?thesis using at by (cases "persist \<noteq> Ephemeral \<and> as_config_writes a") auto
qed (use assms in simp)

lemma record_moved:
  assumes inv: "record_inv s" and m: "moved k (task_at s k) s s'" and c: "carries s' k (task_at s' k)"
    and ended: "\<And>i params persist e. task_at s k = LoadTask i params persist (LEnded e) \<Longrightarrow> task_at s' k = task_at s k"
    and recs: "\<And>r. r \<in> set (hg_last_loads s') \<Longrightarrow> r \<in> set (hg_last_loads s) \<or> loaded_as s' r"
  shows "record_inv s'"
proof -
  note g = moved_grows [OF m]
  have "carries s' j (task_at s' j)" for j
    using c inv moved_others [OF m] carries_grows [OF g] by (cases "j = k") (auto simp: record_inv_def)
  moreover have "loaded_as s' r" if "loaded_as s r" for r
  proof (rule loaded_as_grows [OF g that])
    fix j i params persist e assume "task_at s j = LoadTask i params persist (LEnded e)"
    then show "task_at s' j = task_at s j" using ended moved_others [OF m, of j] by (cases "j = k") auto
  qed
  ultimately show ?thesis using inv recs unfolding record_inv_def by blast
qed

lemma set_update: "r \<in> set (AList.update i v xs) \<Longrightarrow> r \<in> set xs \<or> r = (i, v)"
  by (induction xs) (auto split: if_splits)

lemma task_step_ended:
  "task_step k a s = Some s' \<Longrightarrow> task_at s k \<noteq> LoadTask i params persist (LEnded e)"
  by (auto simp: task_step_def task_at_def split: if_splits)

lemma other_step_records:
  assumes "task_step k a s = Some s'" "silent (task_at s k)"
  shows "hg_last_loads s' = hg_last_loads s \<and> silent (task_at s' k)"
proof -
  from assms(1) have k: "k < length (hg_tasks s)" by (simp add: task_step_def split: if_splits)
  then have at: "task_at s k = hg_tasks s ! k" by (simp add: task_at_def)
  have turn: "hg_last_loads (next_turn k i turns c r cs s) = hg_last_loads s" for i turns c r cs
    by (simp add: next_turn_def end_bench_def Let_def)
  have bench: "bench_step k i turns pc a s = Some s' \<Longrightarrow> hg_last_loads s' = hg_last_loads s" for i turns pc
    by (cases "(k, i, turns, pc, a, s)" rule: bench_step.cases)
      (auto simp: turn end_bench_def call_node_def Let_def split: if_splits option.splits NodeReply.splits)
  have unload: "unload_step k which pc a s = Some s' \<Longrightarrow> hg_last_loads s' = hg_last_loads s" for which pc
    by (cases "(k, which, pc, a, s)" rule: unload_step.cases)
      (auto simp: end_unload_def call_node_def Let_def split: if_splits option.splits sum.splits)
  have chat: "chat_step k public m pc a s = Some s' \<Longrightarrow> hg_last_loads s' = hg_last_loads s" for public m pc
    by (cases "(k, public, m, pc, a, s)" rule: chat_step.cases)
      (auto simp: call_node_def Let_def split: if_splits option.splits NodeReply.splits prod.splits)
  have small: "cleanup_step k i w c a s = Some s' \<Longrightarrow> hg_last_loads s' = hg_last_loads s"
    "halt_step k c s = Some s' \<Longrightarrow> hg_last_loads s' = hg_last_loads s" for i w c
    by (auto simp: cleanup_step_def halt_step_def call_node_def split: if_splits option.splits)
  show ?thesis
    using assms k at bench unload chat small bench_step_silent [OF _ k] other_step_silent [OF k]
    by (cases "hg_tasks s ! k") (auto simp: task_step_def silent_move_def silent_def)
qed

lemma drop_records:
  assumes "k < length (hg_tasks s)" "drop_task k s \<noteq> s"
  shows "hg_last_loads (drop_task k s) = hg_last_loads s \<and> silent (task_at (drop_task k s) k)"
proof (cases "hg_tasks s ! k")
  case (LoadTask i params persist pc)
  with assms show ?thesis
    by (cases pc) (auto simp: drop_task_def drop_load_def shows_loading_def holds_lock_def silent_defs)
next
  case (UnloadTask which pc)
  with assms show ?thesis by (cases pc) (auto simp: drop_task_def drop_unload_def silent_defs)
next
  case (BenchTask i turns pc)
  with assms show ?thesis by (cases pc) (auto simp: drop_task_def drop_bench_def live_candidate_def silent_defs)
next
  case (ChatTask public m pc)
  with assms show ?thesis by (cases pc) (auto simp: drop_task_def drop_chat_def silent_defs)
next
  case (StopTask c)
  with assms show ?thesis by (cases c) (auto simp: drop_task_def silent_defs)
qed (use assms in \<open>simp_all add: drop_task_def\<close>)

lemma silent_carries: "silent t \<Longrightarrow> carries s k t"
  by (auto simp: silent_def carries_def split: task.splits)

lemma record_proceed:
  assumes "higgs_inv s" "record_inv s" "task_step k a s = Some s'"
  shows "record_inv s'"
proof -
  from assms(1) have n: "named (task_at s k)" by (simp add: higgs_inv_def home_inv_def)
  have k: "k < length (hg_tasks s)" and m: "moved k (task_at s k) s s'" using task_step_moves [OF assms(3) n] by simp_all
  have at: "task_at s k = hg_tasks s ! k" using k by (simp add: task_at_def)
  show ?thesis
  proof (cases "silent (task_at s k)")
    case True
    with other_step_records [OF assms(3) True] show ?thesis
      by (intro record_moved [OF assms(2) m]) (auto simp: silent_carries dest: task_step_ended [OF assms(3), THEN notE])
  next
    case False
    then obtain i params persist pc where t: "task_at s k = LoadTask i params persist pc" by (auto simp: silent_def split: task.splits)
    have step: "load_step k i params persist pc a s = Some s'"
      using assms(3) k at [symmetric] by (simp add: task_step_def t)
    have "carries s k (LoadTask i params persist pc)" using assms(2) t unfolding record_inv_def by metis
    note r = load_step_record [OF step k n [unfolded t] this]
    show ?thesis
    proof (rule record_moved [OF assms(2) m])
      show "carries s' k (task_at s' k)" using r by simp
      show "task_at s' k = task_at s k" if "task_at s k = LoadTask i' params' persist' (LEnded e)" for i' params' persist' e
        using task_step_ended [OF assms(3)] that by blast
      show "x \<in> set (hg_last_loads s) \<or> loaded_as s' x" if x: "x \<in> set (hg_last_loads s')" for x
      proof (cases "x \<in> set (hg_last_loads s)")
        case False
        with r x obtain c np where c: "(c, k, np) \<in> set (hg_sent s')" "load_id np = i" "\<exists>w v. answer_of c s' = Some (Loaded w v)"
          "persist \<noteq> Ephemeral" "task_at s' k = LoadTask i params persist (LEnded None)"
          "hg_last_loads s' = AList.update i (effective_params np) (hg_last_loads s)" by metis
        from x False have "x = (i, effective_params np)" unfolding c(6) by (blast dest: set_update)
        with c(1-5) have "loaded_as s' x" by (simp add: loaded_as_def) blast
        then show ?thesis ..
      qed simp
    qed
  qed
qed

lemma record_local:
  assumes "record_inv s" "\<And>c r. map_of (replies (hg_local s)) c = Some r \<Longrightarrow> map_of (replies n) c = Some r"
  shows "record_inv (s\<lparr>hg_local := n\<rparr>)"
proof -
  have g: "grows s (s\<lparr>hg_local := n\<rparr>)" using assms(2) by (simp add: grows_def answer_of_def)
  then have "loaded_as s r \<Longrightarrow> loaded_as (s\<lparr>hg_local := n\<rparr>) r" for r by (rule loaded_as_grows) simp_all
  then show ?thesis using assms(1) carries_grows [OF g] by (simp add: record_inv_def)
qed

lemma record_models: "record_inv s \<Longrightarrow> record_inv (s\<lparr>hg_models := m\<rparr>)"
proof -
  have at: "task_at (s\<lparr>hg_models := m\<rparr>) = task_at s" by (rule task_at_cong) simp
  have g: "grows s (s\<lparr>hg_models := m\<rparr>)" by (simp add: grows_def answer_of_def)
  then have "loaded_as s r \<Longrightarrow> loaded_as (s\<lparr>hg_models := m\<rparr>) r" for r by (rule loaded_as_grows) (simp_all add: at)
  then show "record_inv s \<Longrightarrow> record_inv (s\<lparr>hg_models := m\<rparr>)" using carries_grows [OF g] by (simp add: record_inv_def at)
qed

lemma record_step: "higgs_inv s \<Longrightarrow> record_inv s \<Longrightarrow> record_inv (facade_step e s)"
proof (cases e)
  case (Ask r)
  assume rec: "record_inv s"
  have m: "moved (length (hg_tasks s)) (task_at s (length (hg_tasks s))) s (ask r s)" by (simp add: task_at_end ask_moved)
  have "carries (ask r s) k (first_task r)" for k by (cases r) (simp_all add: first_task_def carries_def)
  then show ?thesis using Ask record_moved [OF rec m] by (simp add: task_at_end task_at_ask)
next
  case (Proceed k a)
  assume "higgs_inv s" "record_inv s"
  with Proceed show ?thesis by (cases "task_step k a s") (simp_all add: record_proceed)
next
  case (Drop k)
  assume rec: "record_inv s"
  show ?thesis
  proof (cases "k < length (hg_tasks s) \<and> drop_task k s \<noteq> s")
    case True
    then have m: "moved k (task_at s k) s (drop_task k s)" using drop_moves [of k s] by (simp add: task_at_def)
    have "task_at s k = LoadTask i params persist (LEnded e) \<Longrightarrow> drop_task k s = s" for i params persist e
      using True by (simp add: task_at_def drop_task_def drop_load_def)
    with True drop_records [of k s] record_moved [OF rec m] show ?thesis by (simp add: Drop silent_carries)
  next
    case False
    with rec Drop show ?thesis by (auto simp: drop_task_def)
  qed
qed (simp_all add: record_local answer_stable record_models del: node_step.simps)

text \<open>C35. The last-load record of a model is a load that happened: it holds the parameters of a call to
  the node that was answered with a resident worker, the last rung of its retries, made by a load
  of that model that succeeded and was not an ephemeral one; a failed, a dropped and an ephemeral
  load leave no record.
\<close>

theorem load_record_is_what_loaded:
  "let s = facade_run es (higgs_new ttl d store) in
   list_all (\<lambda>(i, eff). \<exists>c k np w v params persist.
     (c, k, np) \<in> set (hg_sent s) \<and> answer_of c s = Some (Loaded w v) \<and>
     load_id np = i \<and> effective_params np = eff \<and> persist \<noteq> Ephemeral \<and>
     task_at s k = LoadTask i params persist (LEnded None)) (hg_last_loads s)"
proof -
  define s where "s = facade_run es (higgs_new ttl d store)"
  have "record_inv (higgs_new ttl d store)"
    by (simp add: record_inv_def task_at_def higgs_new_def carries_def)
  then have "record_inv s" unfolding s_def by (rule runs_inv) (rule record_step)
  then show ?thesis unfolding s_def [symmetric] Let_def record_inv_def loaded_as_def list_all_iff by fastforce
qed

subsection \<open>A candidate left behind\<close>

definition plain_env :: LoadEnv where
  "plain_env =
     \<lparr>le_resolve = (\<lambda>i. Inr \<lparr>rm_path = i, rm_size_bytes = 1, rm_ctx_train = None, rm_domain = Llm,
        rm_arch = None, rm_full = JNull\<rparr>),
      le_headroom = (\<lambda>i n. None), le_spawn = 1, le_start_for = (\<lambda>i. None), le_m_load = (\<lambda>p. Inr JNull),
      le_to_obj = (\<lambda>q. []), le_unix_ms = 0\<rparr>"

definition plain_answers :: Answers where
  "plain_answers =
     \<lparr>as_store_opens = True, as_path_sig = None, as_hw = [], as_layers = None, as_config_writes = True,
      as_store_writes = True, as_now_ms = 0, as_instant = 0, as_measured = Inl BenchCancelled,
      as_remote = False, as_remote_chat = None\<rparr>"

text \<open>
  A benchmark of one candidate is dropped after the node kept its worker and answered, and before
  the benchmark read the answer.
\<close>

definition leak_run :: "facade_event list" where
  "leak_run =
     Ask (ABench ''m'' [\<lparr>cand_load = params_default, cand_label = ''seed''\<rparr>]) #
     replicate 6 (Proceed 0 plain_answers) @
     [NodeLoadEnds 1 (node_params_for ''m'' params_default) 0 plain_env 0, Drop 0]"

text \<open>The run up to the answer: the benchmark waits for its load.\<close>

lemma leak_waits:
  fixes c :: Candidate
  defines "c \<equiv> \<lparr>cand_load = params_default, cand_label = ''seed''\<rparr>"
  defines "np \<equiv> node_params_for ''m'' params_default"
  defines "s1 \<equiv> facade_run (Ask (ABench ''m'' [c]) # replicate 6 (Proceed 0 plain_answers)) (higgs_new 60 params_default [])"
  shows "hg_local s1 = node_load np 0 (node_new 60) \<and> hg_benchmarking s1 = [''m''] \<and>
    hg_tasks s1 = [BenchTask ''m'' [] (BLoadWait 0 c [])]"
proof -
  have six: "replicate 6 x = [x, x, x, x, x, x]" for x :: facade_event by (simp add: eval_nat_numeral)
  have quiet: "is_resident m (node_new 60) = False" "own_workers m (node_new 60) = []" for m
    by (simp_all add: is_resident_def own_workers_def local_instances_def node_new_def registry_empty_def registry_ids_def)
  let ?b = "\<lambda>pc. [BenchTask ''m'' [] pc]"
  define s0 where "s0 = (higgs_new 60 params_default [])\<lparr>hg_tasks := ?b (BQueue [c])\<rparr>"
  have asked: "facade_step (Ask (ABench ''m'' [c])) (higgs_new 60 params_default []) = s0"
    by (simp add: s0_def ask_def first_task_def higgs_new_def)
  have st: "facade_step (Proceed 0 plain_answers) s = unwrap_or s (bench_step 0 ''m'' [] pc plain_answers s)"
    if "hg_tasks s = ?b pc" for s pc
    using that by (simp add: task_step_def)
  have new: "hg_lifecycle s0 = None" "hg_benchmarking s0 = []" "hg_local s0 = node_new 60" "hg_stopping s0 = False"
    "hg_calls s0 = 0" "hg_sent s0 = []" "hg_tasks s0 = ?b (BQueue [c])" by (simp_all add: s0_def higgs_new_def)
  have p1: "facade_step (Proceed 0 plain_answers) s0 = s0\<lparr>hg_lifecycle := Some 0, hg_tasks := ?b (BResident [c])\<rparr>"
    unfolding st [OF new(7)] by (simp add: new set_task_def is_benchmarking_def)
  have p2: "facade_step (Proceed 0 plain_answers) (s0\<lparr>hg_lifecycle := Some 0, hg_tasks := ?b (BResident [c])\<rparr>) =
      s0\<lparr>hg_lifecycle := None, hg_benchmarking := [''m''], hg_tasks := ?b (BNext [c])\<rparr>"
    by (subst st [where pc = "BResident [c]"]) (simp_all add: new set_task_def release_def quiet)
  have p3: "facade_step (Proceed 0 plain_answers) (s0\<lparr>hg_lifecycle := None, hg_benchmarking := [''m''], hg_tasks := ?b (BNext [c])\<rparr>) =
      s0\<lparr>hg_lifecycle := None, hg_benchmarking := [''m''], hg_tasks := ?b (BClear c [] None)\<rparr>"
    by (subst st [where pc = "BNext [c]"]) (simp_all add: new set_task_def)
  have p4: "facade_step (Proceed 0 plain_answers) (s0\<lparr>hg_lifecycle := None, hg_benchmarking := [''m''], hg_tasks := ?b (BClear c [] None)\<rparr>) =
      s0\<lparr>hg_lifecycle := None, hg_benchmarking := [''m''], hg_tasks := ?b (BClear c [] (Some []))\<rparr>"
    by (subst st [where pc = "BClear c [] None"]) (simp_all add: new set_task_def quiet)
  have p5: "facade_step (Proceed 0 plain_answers) (s0\<lparr>hg_lifecycle := None, hg_benchmarking := [''m''], hg_tasks := ?b (BClear c [] (Some []))\<rparr>) =
      s0\<lparr>hg_lifecycle := None, hg_benchmarking := [''m''], hg_tasks := ?b (BLoad c [])\<rparr>"
    by (subst st [where pc = "BClear c [] (Some [])"]) (simp_all add: new set_task_def)
  have p6: "facade_step (Proceed 0 plain_answers) (s0\<lparr>hg_lifecycle := None, hg_benchmarking := [''m''], hg_tasks := ?b (BLoad c [])\<rparr>) =
      s0\<lparr>hg_lifecycle := None, hg_benchmarking := [''m''], hg_tasks := ?b (BLoadWait 0 c []), hg_calls := 1,
         hg_local := node_load np 0 (node_new 60), hg_sent := [(0, 0, np)]\<rparr>"
    by (subst st [where pc = "BLoad c []"]) (simp_all add: new set_task_def call_node_def Let_def np_def c_def)
  have "s1 = s0\<lparr>hg_lifecycle := None, hg_benchmarking := [''m''], hg_tasks := ?b (BLoadWait 0 c []), hg_calls := 1,
         hg_local := node_load np 0 (node_new 60), hg_sent := [(0, 0, np)]\<rparr>"
    by (simp only: s1_def six facade_run_def fold_simps asked p1 p2 p3 p4 p5 p6)
  then show ?thesis by simp
qed

text \<open>
  The guard of a dropped benchmark reclaims a candidate only once the benchmark has noted it, so
  a benchmark that is dropped between the node's answer and that note leaves its candidate
  resident: no task is left, no flag is set, and the model stays served with the candidate's
  parameters until something else unloads it.
\<close>

theorem dropped_benchmark_leaks_candidate:
  "let s = facade_run leak_run (higgs_new 60 params_default []) in
   local_instances (hg_local s) = [(1, ''m'')] \<and> hg_tasks s = [Finished] \<and> hg_benchmarking s = []"
proof -
  define np where "np = node_params_for ''m'' params_default"
  have np: "load_id np = ''m''" "load_params np = None"
    by (simp_all add: np_def node_params_for_def has_overrides_def params_default_def is_some_def)
  then have plain: "plain_overrides plain_env np" by (simp add: plain_overrides_def)
  obtain sv v f where l: "do_load plain_env np = LoadOk sv v f"
    by (cases "effective_ctx (load_ctx_len np) None") (auto simp: do_load_def plain_env_def Let_def)
  have sv: "loaded_model_id sv = Some ''m''" using loaded_model_do_load [OF l plain] np by simp
  have node: "node_load np 0 (node_new 60) =
      (node_new 60)\<lparr>registry := \<lparr>wr_next = 2, wr_map = []\<rparr>, inflight_loads := 1, keepalive := True, load_tasks := [(1, np, 0)]\<rparr>"
    by (simp add: node_load_def node_new_def registry_empty_def reserve_def refresh_keepalive_def)
  define s1 where "s1 = facade_run (Ask (ABench ''m'' [\<lparr>cand_load = params_default, cand_label = ''seed''\<rparr>]) #
     replicate 6 (Proceed 0 plain_answers)) (higgs_new 60 params_default [])"
  note s1 = leak_waits [folded np_def, folded s1_def]
  have "awaited 0 s1" using s1 by (simp add: awaited_def awaits_def)
  then have s2: "facade_step (NodeLoadEnds 1 np 0 plain_env 0) s1 =
      s1\<lparr>hg_local := node_step (LoadEnds 1 np 0 (LoadOk sv v f) True 0) (hg_local s1)\<rparr>"
    using plain l by simp
  have kept: "wr_map (registry (node_step (LoadEnds 1 np 0 (LoadOk sv v f) True 0) (hg_local s1))) = [(1, sv)]"
    using conjunct1 [OF s1] by (simp add: node load_commit_registry insert_reserved_def) (simp add: node_new_def)
  have "facade_run leak_run (higgs_new 60 params_default []) =
      drop_task 0 (s1\<lparr>hg_local := node_step (LoadEnds 1 np 0 (LoadOk sv v f) True 0) (hg_local s1)\<rparr>)"
    using s2 by (simp add: s1_def leak_run_def facade_run_def np_def del: node_step.simps facade_step.simps) simp
  then show ?thesis
    using s1 kept sv
    by (simp add: drop_task_def drop_bench_def live_candidate_def set_task_def local_instances_def registry_ids_def
        registry_get_def List.map_filter_def del: node_step.simps)
qed

end
