(* ===== verification/Handshake.thy ===== *)
theory Handshake
  imports Rpc Download
begin

text \<open>
  The opening of a node's connection to a hub. From \<open>src/remote.rs\<close>: the parameters of
  HELLO, version negotiation, the sanitizers of what the peer sends, and the acceptance of
  announced downloads. From \<open>src/node/mod.rs\<close>: \<open>read_hello\<close> and \<open>gate_read_hello\<close>, the
  part of the gate that runs before any lock is taken. Decoding the parameters from JSON (the
  derived deserialiser) is an argument. A text that is filtered by Unicode category is a list
  of code points.
\<close>

subsection \<open>Version negotiation\<close>

definition PROTOCOL_VERSIONS :: "u32 list" where "PROTOCOL_VERSIONS = [1, 2]"
definition MIN_SUPPORTED :: u32 where "MIN_SUPPORTED = 1"

record VersionMismatch =
  vm_peer :: "u32 list"
  vm_ours :: "u32 list"

definition negotiate_version ::
  "u32 list \<Rightarrow> u32 \<Rightarrow> u32 list \<Rightarrow> u32 \<Rightarrow> VersionMismatch + u32" where
  "negotiate_version peer_versions peer_min our_versions our_min =
     (let mismatch = Inl \<lparr>vm_peer = peer_versions, vm_ours = our_versions\<rparr> in
      case max_by_key (\<lambda>v. v) (filter (\<lambda>v. v \<in> set our_versions) peer_versions) of
        Some v \<Rightarrow> if v \<ge> peer_min \<and> v \<ge> our_min then Inr v else mismatch
      | None \<Rightarrow> mismatch)"

lemma greatest_common:
  "max_by_key (\<lambda>v. v) (filter (\<lambda>v. v \<in> set b) a) =
     (if set a \<inter> set b = {} then None else Some (Max (set a \<inter> set b)))" for a b :: "u32 list"
proof (cases "max_by_key (\<lambda>v. v) (filter (\<lambda>v. v \<in> set b) a)")
  case None
  then show ?thesis by (auto simp: filter_empty_conv)
next
  case (Some m)
  from max_by_key_Some [OF this] have "m \<in> set a \<inter> set b" "\<forall>w \<in> set a \<inter> set b. w \<le> m" by auto
  then have "Max (set a \<inter> set b) = m" by (intro Max_eqI) auto
  with Some \<open>m \<in> set a \<inter> set b\<close> show ?thesis by auto
qed

text \<open>Version negotiation agrees on the greatest version both sides speak, and only if
  neither side has ruled it out; otherwise it fails. The condition is symmetric, so both sides
  compute the same answer, whichever of them asks.\<close>

theorem negotiate_version_agrees:
  "(negotiate_version a amin b bmin = Inr v \<longleftrightarrow>
      set a \<inter> set b \<noteq> {} \<and> v = Max (set a \<inter> set b) \<and> amin \<le> v \<and> bmin \<le> v) \<and>
   (negotiate_version a amin b bmin = Inr v \<longleftrightarrow> negotiate_version b bmin a amin = Inr v)"
proof -
  have one: "negotiate_version x xmin y ymin = Inr v \<longleftrightarrow>
      set x \<inter> set y \<noteq> {} \<and> v = Max (set x \<inter> set y) \<and> xmin \<le> v \<and> ymin \<le> v"
    for x y :: "u32 list" and xmin ymin
    by (auto simp: negotiate_version_def Let_def greatest_common)
  show ?thesis using one [of a amin b bmin] one [of b bmin a amin] by (auto simp: Int_commute)
qed

subsection \<open>Sanitizers\<close>

definition ascii_alnum :: "char \<Rightarrow> bool" where
  "ascii_alnum c \<longleftrightarrow>
     (let n = (of_char c :: nat) in
      (48 \<le> n \<and> n \<le> 57) \<or> (65 \<le> n \<and> n \<le> 90) \<or> (97 \<le> n \<and> n \<le> 122))"

definition version_char :: "char \<Rightarrow> bool" where
  "version_char c \<longleftrightarrow> ascii_alnum c \<or> c = CHR ''.'' \<or> c = CHR ''+'' \<or> c = CHR ''-'' \<or> c = CHR ''_''"

definition sanitize_version :: "string \<Rightarrow> string" where
  "sanitize_version raw = take 64 (filter version_char raw)"

text \<open>\<open>char::is_control\<close> is the category Cc; the rest are Cf, Zl and Zp.\<close>

definition is_control :: "nat \<Rightarrow> bool" where
  "is_control c \<longleftrightarrow> c \<le> 0x1F \<or> (0x7F \<le> c \<and> c \<le> 0x9F)"

definition invisible_ranges :: "(nat \<times> nat) list" where
  "invisible_ranges =
     [(0x2028, 0x2029), (0xAD, 0xAD), (0x600, 0x605), (0x61C, 0x61C), (0x6DD, 0x6DD),
      (0x70F, 0x70F), (0x890, 0x891), (0x8E2, 0x8E2), (0x180E, 0x180E), (0x200B, 0x200F),
      (0x202A, 0x202E), (0x2060, 0x2064), (0x2066, 0x206F), (0xFEFF, 0xFEFF), (0xFFF9, 0xFFFB),
      (0x110BD, 0x110BD), (0x110CD, 0x110CD), (0x13430, 0x1343F), (0x1BCA0, 0x1BCA3),
      (0x1D173, 0x1D17A), (0xE0001, 0xE0001), (0xE0020, 0xE007F)]"

definition is_invisible_format :: "nat \<Rightarrow> bool" where
  "is_invisible_format c \<longleftrightarrow> list_ex (\<lambda>(a, b). a \<le> c \<and> c \<le> b) invisible_ranges"

definition sanitize_display :: "nat list \<Rightarrow> nat list" where
  "sanitize_display raw = take 128 (filter (\<lambda>c. \<not> is_control c \<and> \<not> is_invisible_format c) raw)"

subsection \<open>HELLO\<close>

record UpdateFailed =
  uf_from :: string
  uf_to :: string
  uf_reason :: "nat list"

record HelloDownload =
  hd_repo :: string
  hd_file :: string
  hd_downloaded :: u64
  hd_total :: "u64 option"
  hd_cancellable :: bool

type_synonym Capabilities = "(string \<times> json) list"

record HelloParams =
  h_role :: string
  h_node_id :: string
  h_name :: string
  h_pairing_token :: "string option"
  h_protocol_versions :: "u32 list"
  h_min_supported :: u32
  h_software_version :: string
  h_update_failed :: "UpdateFailed option"
  h_target :: "string option"
  h_variant :: "string option"
  h_capabilities :: Capabilities
  h_downloads :: "HelloDownload list"

text \<open>A capability counts only as an explicit \<open>true\<close>.\<close>

definition advertises :: "string \<Rightarrow> Capabilities \<Rightarrow> bool" where
  "advertises k caps \<longleftrightarrow> map_of caps k = Some (JBool True)"

definition node_capabilities :: "bool \<Rightarrow> Capabilities" where
  "node_capabilities reports =
     map (\<lambda>k. (k, JBool True))
       [''chat'', ''download'', ''log_stream'', ''fleet_events'', ''update'', ''update_by_version'',
        ''pull_status'', ''node_logs'', ''node_log_control''] @
     (if reports then [(''update_reporting'', JBool True)] else [])"

definition hub_capabilities :: Capabilities where
  "hub_capabilities = map (\<lambda>k. (k, JBool True)) [''update_push'', ''log_aggregate'', ''fleet_events'']"

definition download_fold :: "HelloDownload \<Rightarrow> string \<times> string" where
  "download_fold d = (to_ascii_lowercase (hd_repo d), to_ascii_lowercase (hd_file d))"

text \<open>The filter by \<open>seen.insert\<close>: the first of each key stays.\<close>

fun first_of_each :: "('a \<Rightarrow> 'k) \<Rightarrow> 'k list \<Rightarrow> 'a list \<Rightarrow> 'a list" where
  "first_of_each k seen [] = []"
| "first_of_each k seen (x # xs) =
     (if k x \<in> set seen then first_of_each k seen xs else x # first_of_each k (k x # seen) xs)"

definition is_ok :: "'e + 'a \<Rightarrow> bool" where
  "is_ok r = (case r of Inl _ \<Rightarrow> False | Inr _ \<Rightarrow> True)"

definition accept_announced_downloads :: "HelloDownload list \<Rightarrow> HelloDownload list" where
  "accept_announced_downloads raw =
     map (\<lambda>d. d\<lparr>hd_total := opt_filter (\<lambda>t. t > 0 \<and> hd_downloaded d \<le> t) (hd_total d)\<rparr>)
       (take 16 (first_of_each download_fold []
          (filter (\<lambda>d. is_ok (dest_path ''.'' (hd_repo d) (hd_file d))) raw)))"

subsection \<open>The first phase of the gate\<close>

definition M_HELLO :: string where "M_HELLO = ''higgs/node/hello''"

definition read_hello ::
  "(json \<Rightarrow> HelloParams option) \<Rightarrow> RpcFrame option \<Rightarrow> (u64 \<times> HelloParams) option" where
  "read_hello parse frame =
     (case frame of
        Some (Request q) \<Rightarrow>
          if req_method q = M_HELLO then map_option (\<lambda>p. (req_id q, p)) (parse (req_params q)) else None
      | _ \<Rightarrow> None)"

record Handshake =
  hs_id :: u64
  hs_hello :: HelloParams
  hs_version :: u32

text \<open>\<open>None\<close> for the frame is a peer that stalled beyond the deadline or closed.\<close>

definition gate_read_hello ::
  "(json \<Rightarrow> HelloParams option) \<Rightarrow> string \<Rightarrow> RpcFrame option \<Rightarrow> string + Handshake" where
  "gate_read_hello parse peer frame =
     (case read_hello parse frame of
        None \<Rightarrow> Inl ''HG028''
      | Some (i, h) \<Rightarrow>
          if h_role h \<noteq> ''node'' \<or> h_node_id h \<noteq> peer then Inl ''HG024''
          else
            case negotiate_version (h_protocol_versions h) (h_min_supported h)
                   PROTOCOL_VERSIONS MIN_SUPPORTED of
              Inl _ \<Rightarrow> Inl ''HG023''
            | Inr v \<Rightarrow> Inr \<lparr>hs_id = i, hs_hello = h, hs_version = v\<rparr>)"


subsection \<open>What passes the trust boundary\<close>

lemma first_of_each_keys:
  "set (map k (first_of_each k seen xs)) = k ` set xs - set seen"
  "distinct (map k (first_of_each k seen xs))"
proof (induction k seen xs rule: first_of_each.induct)
  case (2 k seen x xs)
  {
    case 1
    with 2 show ?case by auto
  next
    case 2
    with \<open>k x \<notin> set seen \<Longrightarrow> set (map k (first_of_each k (k x # seen) xs)) = _\<close>
    show ?case using "2.IH" by auto
  }
qed simp_all

lemma subseq_first_of_each: "subseq (first_of_each k seen xs) xs"
  by (induction k seen xs rule: first_of_each.induct) (auto intro: list_emb_Cons)

lemma set_first_of_each: "set (first_of_each k seen xs) \<subseteq> set xs"
  by (induction k seen xs rule: first_of_each.induct) auto

lemma subseq_take: "subseq (take n xs) xs"
  by (metis append_take_drop_id list_emb_append2 subseq_order.order_refl subseq_rev_drop_many)

definition download_id :: "HelloDownload \<Rightarrow> string \<times> string \<times> u64 \<times> bool" where
  "download_id d = (hd_repo d, hd_file d, hd_downloaded d, hd_cancellable d)"

definition announceable :: "HelloDownload \<Rightarrow> bool" where
  "announceable d \<longleftrightarrow> is_ok (dest_path ''.'' (hd_repo d) (hd_file d))"

text \<open>What a peer announces is accepted as it is or dropped: the accepted list has at most
  sixteen rows, one per file even if names differ only in ASCII case, in the announced order and
  with unchanged identity and count; each row names a destination the downloader itself would
  accept, its total is positive and not below its count; and a valid row is left out only for
  an earlier row of its file or because sixteen rows were taken.\<close>

theorem accept_announced_sound:
  "(let ds = accept_announced_downloads raw in
      length ds \<le> 16 \<and> distinct (map download_fold ds) \<and>
      subseq (map download_id ds) (map download_id raw) \<and>
      list_all (\<lambda>d. announceable d \<and>
        (case hd_total d of None \<Rightarrow> True | Some t \<Rightarrow> 0 < t \<and> hd_downloaded d \<le> t)) ds \<and>
      (if length ds < 16
       then set (map download_fold ds) = set (map download_fold (filter announceable raw))
       else True))"
proof -
  let ?fix = "\<lambda>d. d\<lparr>hd_total := opt_filter (\<lambda>t. t > 0 \<and> hd_downloaded d \<le> t) (hd_total d)\<rparr>"
  let ?firsts = "first_of_each download_fold [] (filter announceable raw)"
  have ds: "accept_announced_downloads raw = map ?fix (take 16 ?firsts)"
    by (simp add: accept_announced_downloads_def announceable_def [abs_def])
  have fold: "map download_fold (map ?fix xs) = map download_fold xs" for xs
    by (simp add: download_fold_def comp_def)
  have ident: "map download_id (map ?fix xs) = map download_id xs" for xs
    by (simp add: download_id_def comp_def)
  have sub: "subseq (take 16 ?firsts) raw"
    by (meson subseq_first_of_each subseq_filter_left subseq_order.order_trans subseq_take)
  have valid: "announceable d" if "d \<in> set (take 16 ?firsts)" for d
  proof -
    have "d \<in> set (filter announceable raw)"
      using that set_first_of_each by (metis in_set_takeD subsetD)
    then show ?thesis by simp
  qed
  have one: "distinct (map download_fold (take 16 ?firsts))"
    using first_of_each_keys(2) by (metis distinct_take take_map)
  have order: "subseq (map download_id (take 16 ?firsts)) (map download_id raw)"
    using sub by (rule subseq_map)
  have all: "set (map download_fold (take 16 ?firsts)) = set (map download_fold (filter announceable raw))"
    if "length (take 16 ?firsts) < 16"
    using that first_of_each_keys(1) [of download_fold "[]"] by auto
  have sane: "list_all (\<lambda>d. announceable d \<and>
        (case hd_total d of None \<Rightarrow> True | Some t \<Rightarrow> 0 < t \<and> hd_downloaded d \<le> t))
        (map ?fix (take 16 ?firsts))"
    unfolding list_all_iff
  proof
    fix e assume "e \<in> set (map ?fix (take 16 ?firsts))"
    then obtain d where d: "e = ?fix d" "d \<in> set (take 16 ?firsts)"
      unfolding set_map by (elim imageE)
    from valid [OF d(2)] have "announceable e" by (simp add: d(1) announceable_def)
    moreover have "case hd_total e of None \<Rightarrow> True | Some t \<Rightarrow> 0 < t \<and> hd_downloaded e \<le> t"
      unfolding d(1) by (cases "hd_total d") auto
    ultimately show "announceable e \<and>
        (case hd_total e of None \<Rightarrow> True | Some t \<Rightarrow> 0 < t \<and> hd_downloaded e \<le> t)" ..
  qed
  have few: "length (take 16 ?firsts) \<le> 16" by simp
  have upto: "if length (take 16 ?firsts) < 16
      then set (map download_fold (take 16 ?firsts)) = set (map download_fold (filter announceable raw))
      else True"
  proof (cases "length (take 16 ?firsts) < 16")
    case True
    show ?thesis unfolding if_P [OF True] by (rule all [OF True])
  next
    case False
    show ?thesis unfolding if_not_P [OF False] by (rule TrueI)
  qed
  show ?thesis
    unfolding ds Let_def fold ident length_map
    by (rule conjI [OF few conjI [OF one conjI [OF order conjI [OF sane upto]]]])
qed

end
