(* ===== verification/Pairing.thy ===== *)
theory Pairing
  imports Handshake "HOL-Library.AList" "HOL-Library.List_Lexorder"
begin

text \<open>
  \<open>src/auth.rs\<close>: the allowlist of paired nodes with its file, and the one-time pairing
  tokens. \<open>src/node/mod.rs\<close>: \<open>gate_admit\<close>, the phase of the gate that runs under the two
  pairing locks. Whether a save or the write of the reply fails, the clock, the random bytes
  of a token and the crate's version are arguments. \<open>pairings.json\<close> is its decoded content.
\<close>

subsection \<open>The allowlist\<close>

type_synonym pairings = "(string \<times> string option) list"

datatype pairings_file = NoFile | Unreadable io_kind | Garbage | Stored pairings

record Allowlist =
  al_nodes :: pairings
  al_file :: pairings_file

definition allowlist_load :: "pairings_file \<Rightarrow> io_error + Allowlist" where
  "allowlist_load f =
     (case f of
        Stored ns \<Rightarrow> Inr \<lparr>al_nodes = ns, al_file = f\<rparr>
      | Garbage \<Rightarrow> Inl (IoError InvalidData (Some ''HG041''))
      | NoFile \<Rightarrow> Inr \<lparr>al_nodes = [], al_file = f\<rparr>
      | Unreadable k \<Rightarrow> Inl (IoError k (Some ''HG040'')))"

definition allowlist_contains :: "Allowlist \<Rightarrow> string \<Rightarrow> bool" where
  "allowlist_contains a i \<longleftrightarrow> i \<in> fst ` set (al_nodes a)"

definition allowlist_label :: "Allowlist \<Rightarrow> string \<Rightarrow> string option" where
  "allowlist_label a i = (case map_of (al_nodes a) i of None \<Rightarrow> None | Some l \<Rightarrow> l)"

definition allowlist_ids :: "Allowlist \<Rightarrow> string list" where
  "allowlist_ids a = sort (map fst (al_nodes a))"

text \<open>\<open>err\<close> is the failure of the save, by its kind; then the change is rolled back.\<close>

definition mutate :: "(pairings \<Rightarrow> pairings) \<Rightarrow> io_kind option \<Rightarrow> Allowlist \<Rightarrow> (io_error + unit) \<times> Allowlist" where
  "mutate f err a =
     (let snapshot = al_nodes a; b = a\<lparr>al_nodes := f (al_nodes a)\<rparr> in
      case err of
        Some k \<Rightarrow> (Inl (IoError k (Some ''HG040'')), b\<lparr>al_nodes := snapshot\<rparr>)
      | None \<Rightarrow> (Inr (), b\<lparr>al_file := Stored (al_nodes b)\<rparr>))"

definition allowlist_add ::
  "string \<Rightarrow> string option \<Rightarrow> io_kind option \<Rightarrow> Allowlist \<Rightarrow> (io_error + unit) \<times> Allowlist" where
  "allowlist_add i label err a = mutate (AList.update i label) err a"

definition allowlist_remove ::
  "string \<Rightarrow> io_kind option \<Rightarrow> Allowlist \<Rightarrow> (io_error + unit) \<times> Allowlist" where
  "allowlist_remove i err a = mutate (AList.delete i) err a"

definition relabel ::
  "string \<Rightarrow> string option \<Rightarrow> io_kind option \<Rightarrow> Allowlist \<Rightarrow> (io_error + bool) \<times> Allowlist" where
  "relabel i label err a =
     (if \<not> allowlist_contains a i then (Inr False, a)
      else
        case mutate (AList.update i label) err a of
          (Inl e, a) \<Rightarrow> (Inl e, a)
        | (Inr _, a) \<Rightarrow> (Inr True, a))"

subsection \<open>Pairing tokens\<close>

datatype TokenError = UnknownOrUsed | Expired

type_synonym PairingTokens = "(string \<times> u64) list"

definition PAIRING_TOKEN_TTL_MS :: u64 where
  "PAIRING_TOKEN_TTL_MS = 100 * 365 * 24 * 60 * 60 * 1000"

definition hex_digit :: "nat \<Rightarrow> char" where
  "hex_digit n = (if n < 10 then char_of (48 + n) else char_of (87 + n))"

definition hex_encode :: "8 word list \<Rightarrow> string" where
  "hex_encode bs = concat (map (\<lambda>b. [hex_digit (unat b div 16), hex_digit (unat b mod 16)]) bs)"

definition mint :: "8 word list \<Rightarrow> u64 \<Rightarrow> u64 \<Rightarrow> PairingTokens \<Rightarrow> string \<times> PairingTokens" where
  "mint raw now_ms ttl_ms ts =
     (let tok = ''htk_'' @ hex_encode raw in (tok, AList.update tok (sat_add now_ms ttl_ms) ts))"

definition validate :: "string \<Rightarrow> u64 \<Rightarrow> PairingTokens \<Rightarrow> TokenError + unit" where
  "validate tok now_ms ts =
     (case map_of ts tok of
        None \<Rightarrow> Inl UnknownOrUsed
      | Some expiry \<Rightarrow> if now_ms > expiry then Inl Expired else Inr ())"

definition burn :: "string \<Rightarrow> PairingTokens \<Rightarrow> PairingTokens" where
  "burn tok ts = AList.delete tok ts"

definition validate_and_burn :: "string \<Rightarrow> u64 \<Rightarrow> PairingTokens \<Rightarrow> (TokenError + unit) \<times> PairingTokens" where
  "validate_and_burn tok now_ms ts =
     (case validate tok now_ms ts of Inl e \<Rightarrow> (Inl e, ts) | Inr _ \<Rightarrow> (Inr (), burn tok ts))"

subsection \<open>The second phase of the gate\<close>

record HubIdentity =
  hub_id :: string
  hub_name :: string

record HelloResult =
  hr_role :: string
  hr_node_id :: string
  hr_hub_name :: string
  hr_agreed_version :: u32
  hr_software_version :: string
  hr_assigned_label :: "string option"
  hr_capabilities :: Capabilities

record Admission =
  ad_version :: u32
  ad_software :: string
  ad_fleet_events :: bool
  ad_reports_failures :: bool
  ad_update_failed :: "UpdateFailed option"
  ad_target :: "string option"
  ad_variant :: "string option"
  ad_update_capable :: bool
  ad_version_capable :: bool
  ad_log_capable :: bool
  ad_pull_capable :: bool
  ad_downloads :: "HelloDownload list"

datatype GateOutcome = Admitted Admission | Rejected string

text \<open>What the peer hears: the result, a typed rejection frame, or nothing.\<close>

datatype GateReply = HelloReply HelloResult | RejectFrame string | NoReply

definition sanitize_opt :: "string option \<Rightarrow> string option" where
  "sanitize_opt s = opt_filter (\<lambda>v. v \<noteq> []) (map_option sanitize_version s)"

definition admission_of :: "HelloParams \<Rightarrow> u32 \<Rightarrow> Admission" where
  "admission_of h agreed =
     (let caps = h_capabilities h in
      \<lparr>ad_version = agreed, ad_software = sanitize_version (h_software_version h),
       ad_fleet_events = advertises ''fleet_events'' caps,
       ad_reports_failures = advertises ''update_reporting'' caps,
       ad_update_failed = map_option (\<lambda>f. \<lparr>uf_from = sanitize_version (uf_from f),
          uf_to = sanitize_version (uf_to f), uf_reason = sanitize_display (uf_reason f)\<rparr>)
          (h_update_failed h),
       ad_target = sanitize_opt (h_target h), ad_variant = sanitize_opt (h_variant h),
       ad_update_capable = advertises ''update'' caps,
       ad_version_capable = advertises ''update_by_version'' caps,
       ad_log_capable = advertises ''node_logs'' caps,
       ad_pull_capable = advertises ''pull_status'' caps,
       ad_downloads = (if advertises ''pull_status'' caps
                       then accept_announced_downloads (h_downloads h) else [])\<rparr>)"

text \<open>The allowlist or a token decides; a pairing is persisted before its token is burned.\<close>

definition admit_label ::
  "string \<Rightarrow> string option \<Rightarrow> string option \<Rightarrow> io_kind option \<Rightarrow> u64 \<Rightarrow> Allowlist \<Rightarrow> PairingTokens \<Rightarrow>
   (string + string option) \<times> Allowlist \<times> PairingTokens" where
  "admit_label peer token new_label err now_ms allow tokens =
     (if allowlist_contains allow peer then (Inr (allowlist_label allow peer), allow, tokens)
      else
        case token of
          None \<Rightarrow> (Inl ''HG024'', allow, tokens)
        | Some tok \<Rightarrow>
            (case validate tok now_ms tokens of
               Inl _ \<Rightarrow> (Inl ''HG022'', allow, tokens)
             | Inr _ \<Rightarrow>
                 (case allowlist_add peer new_label err allow of
                    (Inl _, allow) \<Rightarrow> (Inl ''HG040'', allow, tokens)
                  | (Inr _, allow) \<Rightarrow> (Inr new_label, allow, burn tok tokens))))"

definition gate_admit ::
  "string \<Rightarrow> HubIdentity \<Rightarrow> string \<Rightarrow> Handshake \<Rightarrow> string option \<Rightarrow> u64 \<Rightarrow> io_kind option \<Rightarrow> bool \<Rightarrow>
   Allowlist \<Rightarrow> PairingTokens \<Rightarrow> GateOutcome \<times> GateReply \<times> Allowlist \<times> PairingTokens" where
  "gate_admit own_version hub peer hs label_for_new now_ms err reply_fails allow tokens =
     (let h = hs_hello hs;
          new_label = (if h_name h = [] then label_for_new else Some (h_name h))
      in case admit_label peer (h_pairing_token h) new_label err now_ms allow tokens of
           (Inl code, allow, tokens) \<Rightarrow> (Rejected code, RejectFrame code, allow, tokens)
         | (Inr label, allow, tokens) \<Rightarrow>
             if reply_fails then (Rejected ''HG027'', NoReply, allow, tokens)
             else
               (Admitted (admission_of h (hs_version hs)),
                HelloReply \<lparr>hr_role = ''hub'', hr_node_id = hub_id hub, hr_hub_name = hub_name hub,
                  hr_agreed_version = hs_version hs, hr_software_version = own_version,
                  hr_assigned_label = label, hr_capabilities = hub_capabilities\<rparr>,
                allow, tokens))"

text \<open>Both phases on one connection.\<close>

definition gate_connection ::
  "(json \<Rightarrow> HelloParams option) \<Rightarrow> string \<Rightarrow> HubIdentity \<Rightarrow> string \<Rightarrow> RpcFrame option \<Rightarrow> string option \<Rightarrow>
   u64 \<Rightarrow> io_kind option \<Rightarrow> bool \<Rightarrow> Allowlist \<Rightarrow> PairingTokens \<Rightarrow>
   GateOutcome \<times> GateReply \<times> Allowlist \<times> PairingTokens" where
  "gate_connection parse own_version hub peer frame label_for_new now_ms err reply_fails allow tokens =
     (case gate_read_hello parse peer frame of
        Inl code \<Rightarrow>
          (Rejected code, if code = ''HG023'' then RejectFrame code else NoReply, allow, tokens)
      | Inr hs \<Rightarrow>
          gate_admit own_version hub peer hs label_for_new now_ms err reply_fails allow tokens)"


subsection \<open>The decision of the gate\<close>

definition token_ok :: "string option \<Rightarrow> u64 \<Rightarrow> PairingTokens \<Rightarrow> bool" where
  "token_ok token now_ms ts =
     (case token of None \<Rightarrow> False | Some tok \<Rightarrow> validate tok now_ms ts = Inr ())"

lemma mutate_simps [simp]:
  "mutate f (Some k) a = (Inl (IoError k (Some ''HG040'')), a)"
  "mutate f None a = (Inr (), a\<lparr>al_nodes := f (al_nodes a), al_file := Stored (f (al_nodes a))\<rparr>)"
  by (simp_all add: mutate_def Let_def)

lemma contains_add:
  "allowlist_contains (snd (allowlist_add i l None a)) j \<longleftrightarrow> j = i \<or> allowlist_contains a j"
  by (auto simp: allowlist_add_def allowlist_contains_def dom_update)

lemma contains_remove:
  "allowlist_contains (snd (allowlist_remove i None a)) j \<longleftrightarrow> j \<noteq> i \<and> allowlist_contains a j"
proof -
  have "fst ` set (AList.delete i (al_nodes a)) = set (removeAll i (map fst (al_nodes a)))"
    by (metis delete_keys list.set_map)
  then show ?thesis by (auto simp: allowlist_remove_def allowlist_contains_def)
qed

text \<open>A new pairing happens exactly for an unknown peer with a valid token and a good save.\<close>

definition pairs :: "string \<Rightarrow> string option \<Rightarrow> u64 \<Rightarrow> io_kind option \<Rightarrow> Allowlist \<Rightarrow> PairingTokens \<Rightarrow> bool" where
  "pairs peer token now_ms err allow tokens \<longleftrightarrow>
     \<not> allowlist_contains allow peer \<and> token_ok token now_ms tokens \<and> err = None"

lemma admit_label_cases:
  assumes "admit_label peer token new_label err now_ms allow tokens = (r, allow', tokens')"
  shows "if pairs peer token now_ms err allow tokens
    then r = Inr new_label \<and> allow' = snd (allowlist_add peer new_label None allow) \<and>
      tokens' = burn (the token) tokens
    else allow' = allow \<and> tokens' = tokens \<and>
      (if allowlist_contains allow peer then r = Inr (allowlist_label allow peer)
       else r = Inl (if token = None then ''HG024'' else if token_ok token now_ms tokens then ''HG040''
                     else ''HG022''))"
proof -
  have "validate t n ts \<noteq> Inr () \<longleftrightarrow> (\<exists>e. validate t n ts = Inl e)" for t n ts
    by (cases "validate t n ts") auto
  with assms show ?thesis
    by (cases err) (auto simp: admit_label_def pairs_def token_ok_def allowlist_add_def
        split: if_splits option.splits sum.splits)
qed

text \<open>The gate admits exactly the allowlisted peers and the peers with a valid token whose
  pairing could be saved; a rejection names its reason; only a new pairing changes anything, it
  adds exactly the peer, the file then holds what is in memory, and its token (and no other) is
  burned; a failed save leaves the token usable.\<close>

theorem gate_admit_effect:
  "(let token = h_pairing_token (hs_hello hs); new = pairs peer token now_ms err allow tokens;
        (r, reply, allow', tokens') =
          gate_admit v hub peer hs label now_ms err reply_fails allow tokens
    in (if new \<or> allowlist_contains allow peer
        then r = (if reply_fails then Rejected ''HG027''
                  else Admitted (admission_of (hs_hello hs) (hs_version hs)))
        else r = Rejected (if token = None then ''HG024''
                           else if token_ok token now_ms tokens then ''HG040'' else ''HG022'')) \<and>
       (if new
        then (allowlist_contains allow' i \<longleftrightarrow> i = peer \<or> allowlist_contains allow i) \<and>
             al_file allow' = Stored (al_nodes allow') \<and> tokens' = burn (the token) tokens
        else allow' = allow \<and> tokens' = tokens))"
proof -
  let ?h = "hs_hello hs"
  let ?token = "h_pairing_token ?h"
  let ?new_label = "if h_name ?h = [] then label else Some (h_name ?h)"
  obtain r allow' tokens' where
    a: "admit_label peer ?token ?new_label err now_ms allow tokens = (r, allow', tokens')"
    by (metis prod_cases3)
  note cs = admit_label_cases [OF a]
  show ?thesis
  proof (cases "pairs peer ?token now_ms err allow tokens")
    case True
    with cs have "r = Inr ?new_label" "allow' = snd (allowlist_add peer ?new_label None allow)"
      "tokens' = burn (the ?token) tokens" by simp_all
    with a True show ?thesis
      using contains_add [of peer ?new_label allow i]
      by (simp add: gate_admit_def Let_def) (simp add: allowlist_add_def)
  next
    case False
    with cs have "allow' = allow" "tokens' = tokens" by simp_all
    with a False cs show ?thesis
      by (cases "allowlist_contains allow peer") (auto simp: gate_admit_def Let_def)
  qed
qed

subsection \<open>Tokens are single-use\<close>

text \<open>The life of a hub's pairing state; \<open>minted\<close> and \<open>paired\<close> only record.\<close>

record PairingHub =
  ph_allow :: Allowlist
  ph_tokens :: PairingTokens
  minted :: nat
  paired :: "string list"

datatype PairingEvent =
    MintToken "8 word list" u64 u64
  | Dial string "RpcFrame option" "string option" u64 "io_kind option" bool
  | Relabel string "string option" "io_kind option"
  | Remove string "io_kind option"
  | Restart

text \<open>A restart loads the file and forgets the tokens.\<close>

fun pairing_step ::
  "(json \<Rightarrow> HelloParams option) \<Rightarrow> string \<Rightarrow> HubIdentity \<Rightarrow> PairingEvent \<Rightarrow> PairingHub \<Rightarrow> PairingHub" where
  "pairing_step parse v hub (MintToken raw now_ms ttl) s =
     s\<lparr>ph_tokens := snd (mint raw now_ms ttl (ph_tokens s)), minted := minted s + 1\<rparr>"
| "pairing_step parse v hub (Dial peer frame label now_ms err reply_fails) s =
     (case gate_connection parse v hub peer frame label now_ms err reply_fails (ph_allow s) (ph_tokens s) of
        (r, reply, allow, tokens) \<Rightarrow>
          s\<lparr>ph_allow := allow, ph_tokens := tokens,
            paired := (if allowlist_contains allow peer \<and> \<not> allowlist_contains (ph_allow s) peer
                       then peer # paired s else paired s)\<rparr>)"
| "pairing_step parse v hub (Relabel i label err) s =
     s\<lparr>ph_allow := snd (relabel i label err (ph_allow s))\<rparr>"
| "pairing_step parse v hub (Remove i err) s =
     s\<lparr>ph_allow := snd (allowlist_remove i err (ph_allow s))\<rparr>"
| "pairing_step parse v hub Restart s =
     (case allowlist_load (al_file (ph_allow s)) of
        Inl _ \<Rightarrow> s
      | Inr a \<Rightarrow> s\<lparr>ph_allow := a, ph_tokens := []\<rparr>)"

definition pairing_run ::
  "(json \<Rightarrow> HelloParams option) \<Rightarrow> string \<Rightarrow> HubIdentity \<Rightarrow> PairingHub \<Rightarrow> PairingEvent list \<Rightarrow> PairingHub" where
  "pairing_run parse v hub s es = fold (pairing_step parse v hub) es s"

definition in_sync :: "Allowlist \<Rightarrow> bool" where
  "in_sync a \<longleftrightarrow>
     (case al_file a of NoFile \<Rightarrow> al_nodes a = [] | Stored ns \<Rightarrow> al_nodes a = ns | _ \<Rightarrow> False)"

definition pairing_inv :: "string set \<Rightarrow> PairingHub \<Rightarrow> bool" where
  "pairing_inv known s \<longleftrightarrow>
     distinct (map fst (ph_tokens s)) \<and> length (paired s) + length (ph_tokens s) \<le> minted s \<and>
     in_sync (ph_allow s) \<and> fst ` set (al_nodes (ph_allow s)) \<subseteq> known \<union> set (paired s)"

lemma length_delete_key:
  "distinct (map fst ts) \<Longrightarrow> k \<in> fst ` set ts \<Longrightarrow> Suc (length (AList.delete k ts)) = length ts"
proof (induction ts)
  case (Cons x ts)
  show ?case
  proof (cases "fst x = k")
    case True
    with Cons.prems have "AList.delete k ts = ts" by (auto intro: delete_idem)
    with True show ?thesis by (cases x) simp
  next
    case False
    with Cons show ?thesis by (cases x) auto
  qed
qed simp

lemma length_update_key: "length (AList.update k v ts) \<le> Suc (length ts)"
  by (induction ts) auto

lemma burn_valid:
  assumes "distinct (map fst ts)" "token_ok token now_ms ts"
  shows "Suc (length (burn (the token) ts)) = length ts" "distinct (map fst (burn (the token) ts))"
proof -
  obtain tok where t: "token = Some tok" "validate tok now_ms ts = Inr ()"
    using assms(2) by (auto simp: token_ok_def split: option.splits)
  then have "map_of ts tok \<noteq> None" by (auto simp: validate_def split: option.splits)
  then have "tok \<in> fst ` set ts" by (metis map_of_eq_None_iff)
  with assms(1) t(1) show "Suc (length (burn (the token) ts)) = length ts"
    by (simp add: burn_def length_delete_key)
  show "distinct (map fst (burn (the token) ts))"
    using assms(1) by (simp add: burn_def distinct_delete)
qed


lemma in_sync_mutate: "in_sync a \<Longrightarrow> in_sync (snd (mutate f err a))"
  by (cases err) (simp_all add: in_sync_def)

lemma relabel_cases:
  "snd (relabel i l err a) = a \<or>
   (allowlist_contains a i \<and> snd (relabel i l err a) = snd (mutate (AList.update i l) err a))"
  by (auto simp: relabel_def split: prod.split sum.split)

lemma in_sync_load: "in_sync a \<Longrightarrow> \<exists>b. allowlist_load (al_file a) = Inr b \<and> al_nodes b = al_nodes a \<and> in_sync b"
  by (auto simp: in_sync_def allowlist_load_def split: pairings_file.splits)

text \<open>A connection: nothing changes, or a new pairing of the connection's own identity.\<close>

lemma gate_connection_cases:
  assumes "gate_connection parse v hub peer frame label now_ms err rf allow tokens = (r, reply, a', t')"
  shows "a' = allow \<and> t' = tokens \<or>
    (\<exists>h i. read_hello parse frame = Some (i, h) \<and> h_node_id h = peer \<and>
       pairs peer (h_pairing_token h) now_ms err allow tokens \<and>
       (\<exists>l. a' = snd (allowlist_add peer l None allow)) \<and> t' = burn (the (h_pairing_token h)) tokens)"
proof (cases "gate_read_hello parse peer frame")
  case (Inl code)
  with assms show ?thesis by (auto simp: gate_connection_def)
next
  case (Inr hs)
  let ?h = "hs_hello hs"
  have hello: "\<exists>i. read_hello parse frame = Some (i, ?h)" "h_node_id ?h = peer"
    using Inr by (auto simp: gate_read_hello_def split: option.splits if_splits sum.splits)
  let ?new_label = "if h_name ?h = [] then label else Some (h_name ?h)"
  obtain res b ts where
    a: "admit_label peer (h_pairing_token ?h) ?new_label err now_ms allow tokens = (res, b, ts)"
    by (metis prod_cases3)
  with assms Inr have "a' = b \<and> t' = ts"
    by (auto simp: gate_connection_def gate_admit_def Let_def split: sum.splits if_splits)
  with admit_label_cases [OF a] hello show ?thesis by (auto split: if_splits)
qed

lemma pairing_inv_step:
  assumes inv: "pairing_inv known s"
  shows "pairing_inv known (pairing_step parse v hub e s)"
proof (cases e)
  case (MintToken raw now_ms ttl)
  with inv length_update_key [of "''htk_'' @ hex_encode raw" "sat_add now_ms ttl" "ph_tokens s"]
  show ?thesis by (simp add: pairing_inv_def mint_def Let_def distinct_update)
next
  case (Dial peer frame label now_ms err rf)
  obtain r reply a' t' where
    g: "gate_connection parse v hub peer frame label now_ms err rf (ph_allow s) (ph_tokens s) = (r, reply, a', t')"
    by (metis prod_cases4)
  show ?thesis
  proof (cases "a' = ph_allow s \<and> t' = ph_tokens s")
    case True
    with inv Dial g show ?thesis by (simp add: pairing_inv_def)
  next
    case False
    with gate_connection_cases [OF g] obtain h :: HelloParams and l where
      p: "pairs peer (h_pairing_token h) now_ms err (ph_allow s) (ph_tokens s)"
      and a: "a' = snd (allowlist_add peer l None (ph_allow s))"
      and t: "t' = burn (the (h_pairing_token h)) (ph_tokens s)" by blast
    have new: "\<not> allowlist_contains (ph_allow s) peer" "allowlist_contains a' peer"
      using p a contains_add by (auto simp: pairs_def)
    have tok: "Suc (length t') = length (ph_tokens s)" "distinct (map fst t')"
      unfolding t using inv p by (auto simp: pairing_inv_def pairs_def intro: burn_valid)
    have keys: "fst ` set (al_nodes a') = insert peer (fst ` set (al_nodes (ph_allow s)))"
      by (simp add: a allowlist_add_def dom_update)
    show ?thesis
      using inv Dial g new tok keys in_sync_mutate [of "ph_allow s" _ None]
      by (auto simp: pairing_inv_def a allowlist_add_def)
  qed
next
  case (Relabel i label err)
  have "fst ` set (al_nodes (snd (mutate (AList.update i label) err (ph_allow s)))) =
      fst ` set (al_nodes (ph_allow s))" if "allowlist_contains (ph_allow s) i"
    using that by (cases err) (auto simp: allowlist_contains_def dom_update)
  then have "fst ` set (al_nodes (snd (relabel i label err (ph_allow s)))) =
      fst ` set (al_nodes (ph_allow s)) \<and> in_sync (snd (relabel i label err (ph_allow s)))"
    using relabel_cases [of i label err "ph_allow s"] in_sync_mutate inv
    by (metis pairing_inv_def)
  with inv Relabel show ?thesis by (simp add: pairing_inv_def)
next
  case (Remove i err)
  have "fst ` set (al_nodes (snd (allowlist_remove i err (ph_allow s)))) \<subseteq>
      fst ` set (al_nodes (ph_allow s))"
  proof (cases err)
    case None
    then show ?thesis
      using contains_remove [of i "ph_allow s"] by (auto simp: allowlist_contains_def)
  qed (simp add: allowlist_remove_def)
  with inv Remove show ?thesis
    by (auto simp: pairing_inv_def allowlist_remove_def in_sync_mutate)
next
  case Restart
  have "in_sync (ph_allow s)" using inv by (simp add: pairing_inv_def)
  then obtain b where "allowlist_load (al_file (ph_allow s)) = Inr b"
    "al_nodes b = al_nodes (ph_allow s)" "in_sync b" using in_sync_load by blast
  with inv Restart show ?thesis by (simp add: pairing_inv_def)
qed

definition new_hub :: "Allowlist \<Rightarrow> PairingHub" where
  "new_hub a = \<lparr>ph_allow = a, ph_tokens = [], minted = 0, paired = []\<rparr>"

text \<open>C11. Pairing tokens are single-use and the only way in: over any sequence of mints, dials by
  any peers with any frames, renames, removals, failed saves and restarts, there are never more
  new pairings than tokens minted (so no token admits two peers, and none is usable twice); every
  node in the allowlist was in it at the start or was newly paired by a connection of its own
  identity; and the memory always agrees with the file.\<close>

theorem tokens_are_single_use:
  assumes "allowlist_load f = Inr a" "pairing_run parse v hub (new_hub a) es = s"
  shows "length (paired s) + length (ph_tokens s) \<le> minted s \<and>
    fst ` set (al_nodes (ph_allow s)) \<subseteq> fst ` set (al_nodes a) \<union> set (paired s) \<and>
    in_sync (ph_allow s)"
proof -
  let ?known = "fst ` set (al_nodes a)"
  have "in_sync a"
    using assms(1) by (auto simp: allowlist_load_def in_sync_def split: pairings_file.splits)
  then have "pairing_inv ?known (new_hub a)"
    by (simp add: pairing_inv_def new_hub_def)
  then have "pairing_inv ?known (fold (pairing_step parse v hub) es (new_hub a))"
    by (induction es arbitrary: a rule: rev_induct) (simp_all add: pairing_inv_step)
  with assms(2) show ?thesis by (simp add: pairing_inv_def pairing_run_def)
qed

definition demo_hub :: HubIdentity where "demo_hub = \<lparr>hub_id = ''h'', hub_name = ''hub''\<rparr>"

definition demo_hello :: "string \<Rightarrow> string option \<Rightarrow> HelloParams" where
  "demo_hello i tok =
     \<lparr>h_role = ''node'', h_node_id = i, h_name = i, h_pairing_token = tok,
      h_protocol_versions = [1, 2], h_min_supported = 1, h_software_version = ''1.0'',
      h_update_failed = None, h_target = None, h_variant = None, h_capabilities = [],
      h_downloads = []\<rparr>"

definition demo_frame :: "RpcFrame option" where
  "demo_frame = Some (Request \<lparr>req_jsonrpc = ''2.0'', req_id = 1, req_method = M_HELLO, req_params = JNull\<rparr>)"

theorem tokens_are_single_use_witness:
  "let s = pairing_run (\<lambda>_. Some (demo_hello ''n1'' (Some ''htk_0a''))) ''1.0'' demo_hub
         (new_hub \<lparr>al_nodes = [], al_file = NoFile\<rparr>)
         [MintToken [10] 0 100, Dial ''n1'' demo_frame None 5 None False,
          Remove ''n1'' None, Dial ''n1'' demo_frame None 6 None False]
   in length (paired s) + length (ph_tokens s) \<le> minted s \<and> in_sync (ph_allow s)"
proof -
  let ?a = "\<lparr>al_nodes = [], al_file = NoFile\<rparr>"
  let ?es = "[MintToken [10] 0 100, Dial ''n1'' demo_frame None 5 None False,
          Remove ''n1'' None, Dial ''n1'' demo_frame None 6 None False]"
  let ?s = "pairing_run (\<lambda>_. Some (demo_hello ''n1'' (Some ''htk_0a''))) ''1.0'' demo_hub (new_hub ?a) ?es"
  have "allowlist_load NoFile = Inr ?a" by (simp add: allowlist_load_def)
  from tokens_are_single_use [OF this refl] show ?thesis by (simp only: Let_def)
qed

end
