(* ===== verification/Fleet.thy ===== *)
theory Fleet
  imports Served Pairing Inventory
begin

text \<open>
  \<open>src/node/fleet.rs\<close>: the actor that owns a hub's view of its nodes. Its state is
  \<open>FleetActor\<close>; each message is one operation, so the mailbox's order is the order of the
  operations. A transport (\<open>Arc<NodeTransport>\<close>) is its identity, compared as \<open>Arc::ptr_eq\<close>
  does; closing one, broadcasting an event and evicting logs are recorded in traces. The
  clocks are read by the caller: a \<open>PulledAt\<close> is an argument. Of an inventory only what the
  actor looks at is modelled; the rest is carried along.
\<close>

subsection \<open>State\<close>

type_synonym transport = nat

record PulledAt =
  wall :: nat
  mono :: nat

record Fleet =
  nodes :: "NodeKey \<Rightarrow> transport option"
  routes :: "((NodeKey \<times> WorkerId) \<times> string) list"
  node_ids :: NodeIdAllocator
  inventories :: "NodeKey \<Rightarrow> (NodeInventory \<times> PulledAt) option"
  chat_refreshes :: "NodeKey \<Rightarrow> (nat \<times> bool) option"
  chat_refresh_gen :: nat
  versions :: "NodeKey \<Rightarrow> u32 option"
  software_versions :: "NodeKey \<Rightarrow> string option"
  update_failures :: "NodeKey \<Rightarrow> UpdateFailed option"
  event_nodes :: "NodeKey set"
  targets :: "NodeKey \<Rightarrow> string option"
  variants :: "NodeKey \<Rightarrow> string option"
  update_capable :: "NodeKey set"
  version_capable :: "NodeKey set"
  log_capable :: "NodeKey set"
  pull_capable :: "NodeKey set"
  node_downloads :: "NodeKey \<Rightarrow> HelloDownload list option"
  connected_at :: "NodeKey \<Rightarrow> nat option"
  epochs :: "NodeKey \<Rightarrow> nat"
  admit_gen :: u64
  pending_pushes :: "NodeKey \<Rightarrow> (FleetEventKind \<times> InventoryWorker list \<times> u64 \<times> PulledAt) option"
  fallback_inflight :: "NodeKey \<Rightarrow> (nat \<times> u64) option"
  fallback_gen :: nat
  emitted :: "(NodeKey \<times> FleetEventKind) list"
  closed_transports :: "transport list"
  evicted_logs :: "(u32 \<times> WorkerId option) list"

definition fleet_new :: Fleet where
  "fleet_new =
     \<lparr>nodes = (\<lambda>_. None), routes = [], node_ids = node_ids_new, inventories = (\<lambda>_. None),
      chat_refreshes = (\<lambda>_. None), chat_refresh_gen = 0, versions = (\<lambda>_. None),
      software_versions = (\<lambda>_. None), update_failures = (\<lambda>_. None), event_nodes = {},
      targets = (\<lambda>_. None), variants = (\<lambda>_. None), update_capable = {}, version_capable = {},
      log_capable = {}, pull_capable = {}, node_downloads = (\<lambda>_. None), connected_at = (\<lambda>_. None),
      epochs = (\<lambda>_. 0), admit_gen = 0, pending_pushes = (\<lambda>_. None),
      fallback_inflight = (\<lambda>_. None), fallback_gen = 0, emitted = [], closed_transports = [],
      evicted_logs = []\<rparr>"

subsection \<open>Helpers\<close>

definition emit :: "NodeKey \<Rightarrow> FleetEventKind \<Rightarrow> Fleet \<Rightarrow> Fleet" where
  "emit n k s = s\<lparr>emitted := emitted s @ [(n, k)]\<rparr>"

definition fleet_bump_epoch :: "NodeKey \<Rightarrow> Fleet \<Rightarrow> Fleet" where
  "fleet_bump_epoch n s = s\<lparr>epochs := (epochs s)(n := epochs s n + 1)\<rparr>"

definition evict_remote_logs :: "NodeKey \<Rightarrow> WorkerId \<Rightarrow> Fleet \<Rightarrow> Fleet" where
  "evict_remote_logs n w s =
     (case ni_get n (node_ids s) of
        None \<Rightarrow> s
      | Some i \<Rightarrow> s\<lparr>evicted_logs := evicted_logs s @ [(i, Some w)]\<rparr>)"

definition close_transport :: "transport \<Rightarrow> Fleet \<Rightarrow> Fleet" where
  "close_transport t s = s\<lparr>closed_transports := closed_transports s @ [t]\<rparr>"

definition set_member :: "bool \<Rightarrow> NodeKey \<Rightarrow> NodeKey set \<Rightarrow> NodeKey set" where
  "set_member b n A = (if b then insert n A else A - {n})"

definition fleet_drop_transport_if :: "NodeKey \<Rightarrow> transport \<Rightarrow> Fleet \<Rightarrow> bool \<times> Fleet" where
  "fleet_drop_transport_if n t s =
     (if nodes s n = Some t
      then (True, close_transport t (s\<lparr>nodes := (nodes s)(n := None),
                                      connected_at := (connected_at s)(n := None)\<rparr>))
      else (False, s))"

definition remove_instance_no_bump :: "NodeKey \<Rightarrow> WorkerId \<Rightarrow> string \<Rightarrow> Fleet \<Rightarrow> bool \<times> Fleet" where
  "remove_instance_no_bump n w expected s =
     (if map_of (routes s) (n, w) = Some expected
      then (True, evict_remote_logs n w (s\<lparr>routes := AList.delete (n, w) (routes s)\<rparr>))
      else (False, s))"

definition remove_instance_if :: "NodeKey \<Rightarrow> WorkerId \<Rightarrow> string \<Rightarrow> Fleet \<Rightarrow> Fleet" where
  "remove_instance_if n w expected s =
     (case remove_instance_no_bump n w expected s of
        (removed, s) \<Rightarrow> if removed then fleet_bump_epoch n s else s)"

definition remove_gone :: "NodeKey \<Rightarrow> (WorkerId \<times> string) list \<Rightarrow> Fleet \<Rightarrow> Fleet" where
  "remove_gone n gone s = fold (\<lambda>(w, m) s. snd (remove_instance_no_bump n w m s)) gone s"

definition instances :: "Fleet \<Rightarrow> (NodeKey \<times> WorkerId \<times> string) list" where
  "instances s = map (\<lambda>((n, w), m). (n, w, m)) (routes s)"

definition fleet_served :: "Fleet \<Rightarrow> (string \<times> NodeKey \<times> WorkerId) list" where
  "fleet_served s = served_ids (instances s)"

definition retire :: "NodeKey \<Rightarrow> Fleet \<Rightarrow> Fleet" where
  "retire n s =
     (let s = (case nodes s n of
                 None \<Rightarrow> s
               | Some t \<Rightarrow> close_transport t (s\<lparr>nodes := (nodes s)(n := None)\<rparr>));
          s = (case ni_get n (node_ids s) of
                 None \<Rightarrow> s
               | Some i \<Rightarrow> s\<lparr>evicted_logs := evicted_logs s @ [(i, None)]\<rparr>);
          s = fleet_bump_epoch n (s\<lparr>routes := filter (\<lambda>((m, w), _). m \<noteq> n) (routes s)\<rparr>)
      in s\<lparr>inventories := (inventories s)(n := None), versions := (versions s)(n := None),
           software_versions := (software_versions s)(n := None),
           update_failures := (update_failures s)(n := None), event_nodes := event_nodes s - {n},
           targets := (targets s)(n := None), variants := (variants s)(n := None),
           update_capable := update_capable s - {n}, version_capable := version_capable s - {n},
           log_capable := log_capable s - {n}, pull_capable := pull_capable s - {n},
           node_downloads := (node_downloads s)(n := None),
           connected_at := (connected_at s)(n := None),
           pending_pushes := (pending_pushes s)(n := None),
           fallback_inflight := (fallback_inflight s)(n := None),
           chat_refreshes := (chat_refreshes s)(n := None),
           node_ids := ni_remove n (node_ids s)\<rparr>)"

text \<open>A worker counts as chat capable unless the inventory says otherwise of this model.\<close>

definition worker_chat_capable :: "NodeKey \<Rightarrow> WorkerId \<Rightarrow> Fleet \<Rightarrow> bool" where
  "worker_chat_capable n w s =
     (case map_of (routes s) (n, w) of
        None \<Rightarrow> True
      | Some model \<Rightarrow>
          (case inventories s n of
             None \<Rightarrow> True
           | Some (iv, _) \<Rightarrow>
               (case List.find (\<lambda>x. w_id x = w \<and> w_model x = model) (inv_workers iv) of
                  None \<Rightarrow> True
                | Some x \<Rightarrow> w_domain x = Llm)))"

definition fleet_routed_models :: "Fleet \<Rightarrow> string list" where
  "fleet_routed_models s =
     sort (map fst (filter (\<lambda>(_, n, w). nodes s n \<noteq> None \<and> worker_chat_capable n w s) (fleet_served s)))"

subsection \<open>Queries\<close>

definition not_connected :: "NodeKey \<Rightarrow> HiggsError" where
  "not_connected n = NodeUnreachable n ''node not connected''"

definition fleet_transport :: "NodeKey \<Rightarrow> Fleet \<Rightarrow> HiggsError + transport" where
  "fleet_transport n s = (case nodes s n of None \<Rightarrow> Inl (not_connected n) | Some t \<Rightarrow> Inr t)"

definition resolve_served :: "string \<Rightarrow> Fleet \<Rightarrow> (NodeKey \<times> WorkerId \<times> string) option" where
  "resolve_served served s =
     (case map_of (fleet_served s) served of
        None \<Rightarrow> None
      | Some (n, w) \<Rightarrow> map_option (\<lambda>m. (n, w, m)) (map_of (routes s) (n, w)))"

definition fleet_is_remote :: "string \<Rightarrow> Fleet \<Rightarrow> bool" where
  "fleet_is_remote served s \<longleftrightarrow> map_of (fleet_served s) served \<noteq> None"

definition fleet_remote_domain :: "NodeKey \<Rightarrow> WorkerId \<Rightarrow> string \<Rightarrow> Fleet \<Rightarrow> ModelDomain option" where
  "fleet_remote_domain n w model s =
     (case inventories s n of
        None \<Rightarrow> None
      | Some (iv, _) \<Rightarrow>
          map_option w_domain (List.find (\<lambda>x. w_id x = w \<and> w_model x = model) (inv_workers iv)))"

definition fleet_served_on :: "NodeKey \<Rightarrow> Fleet \<Rightarrow> string list" where
  "fleet_served_on n s = sort (map fst (filter (\<lambda>(_, m, _). m = n) (fleet_served s)))"

definition pull_status_handle :: "NodeKey \<Rightarrow> Fleet \<Rightarrow> HiggsError + transport \<times> bool" where
  "pull_status_handle n s =
     (case nodes s n of None \<Rightarrow> Inl (not_connected n) | Some t \<Rightarrow> Inr (t, n \<in> pull_capable s))"


subsection \<open>The state-changing messages\<close>

definition admit_node ::
  "NodeKey \<Rightarrow> transport \<Rightarrow> u64 option \<Rightarrow> u32 option \<Rightarrow> string option \<Rightarrow> Admission \<Rightarrow> nat \<Rightarrow> Fleet \<Rightarrow>
   (u32 \<times> transport option) option \<times> Fleet" where
  "admit_node n t gen agreed software ad instant s =
     (if (case gen of None \<Rightarrow> False | Some g \<Rightarrow> g \<noteq> admit_gen s) then (None, s)
      else
        let (i, ids) = ni_assign n (node_ids s);
            replaced = nodes s n;
            s = s\<lparr>node_ids := ids, versions := (versions s)(n := agreed),
                  inventories := (case inventories s n of
                      None \<Rightarrow> inventories s
                    | Some (iv, at) \<Rightarrow> (inventories s)(n \<mapsto> (iv\<lparr>snapshot_seq := None\<rparr>, at))),
                  software_versions := (software_versions s)(n := opt_filter (\<lambda>v. v \<noteq> []) software),
                  update_failures := (case ad_update_failed ad of
                      Some f \<Rightarrow> (update_failures s)(n \<mapsto> f)
                    | None \<Rightarrow> if ad_reports_failures ad then (update_failures s)(n := None)
                              else update_failures s),
                  pending_pushes := (pending_pushes s)(n := None),
                  fallback_inflight := (fallback_inflight s)(n := None),
                  event_nodes := set_member (ad_fleet_events ad) n (event_nodes s),
                  targets := (targets s)(n := ad_target ad),
                  variants := (variants s)(n := ad_variant ad),
                  update_capable := set_member (ad_update_capable ad) n (update_capable s),
                  version_capable := set_member (ad_version_capable ad) n (version_capable s),
                  node_downloads := (node_downloads s)(n \<mapsto> ad_downloads ad),
                  log_capable := set_member (ad_log_capable ad) n (log_capable s),
                  pull_capable := set_member (ad_pull_capable ad) n (pull_capable s),
                  nodes := (nodes s)(n \<mapsto> t), connected_at := (connected_at s)(n \<mapsto> instant)\<rparr>
        in (Some (i, replaced), fleet_bump_epoch n (emit n NodeConnected s)))"

definition bump_admit_gen :: "Fleet \<Rightarrow> u64 \<times> Fleet" where
  "bump_admit_gen s = (let g = admit_gen s + 1 in (g, s\<lparr>admit_gen := g\<rparr>))"

definition seed_node :: "NodeKey \<Rightarrow> Fleet \<Rightarrow> Fleet" where
  "seed_node n s = s\<lparr>node_ids := snd (ni_assign n (node_ids s))\<rparr>"

definition drop_transport :: "NodeKey \<Rightarrow> transport \<Rightarrow> Fleet \<Rightarrow> bool \<times> Fleet" where
  "drop_transport n t s =
     (case fleet_drop_transport_if n t s of
        (removed, s) \<Rightarrow> (removed, if removed then emit n NodeDropped s else s))"

definition set_node_downloads :: "NodeKey \<Rightarrow> HelloDownload list \<Rightarrow> transport \<Rightarrow> Fleet \<Rightarrow> Fleet" where
  "set_node_downloads n ds t s =
     (if nodes s n = Some t then s\<lparr>node_downloads := (node_downloads s)(n \<mapsto> ds)\<rparr> else s)"

definition retire_node :: "NodeKey \<Rightarrow> Fleet \<Rightarrow> Fleet" where
  "retire_node n s =
     (let known = ni_get n (node_ids s) \<noteq> None; s = retire n s in
      if known then emit n NodeDropped s else s)"

text \<open>\<open>drained\<close> is the connected nodes in the order the map is drained.\<close>

definition disconnect_all :: "(NodeKey \<times> transport) list \<Rightarrow> Fleet \<Rightarrow> Fleet" where
  "disconnect_all drained s =
     fold (\<lambda>(n, t) s. emit n NodeDropped (close_transport t s)) drained
       (s\<lparr>admit_gen := admit_gen s + 1, nodes := (\<lambda>_. None), connected_at := (\<lambda>_. None)\<rparr>)"

definition add_instance :: "NodeKey \<Rightarrow> WorkerId \<Rightarrow> string \<Rightarrow> transport \<Rightarrow> Fleet \<Rightarrow> bool \<times> Fleet" where
  "add_instance n w model t s =
     (if nodes s n \<noteq> Some t then (False, s)
      else (True, emit n InventorySynced (s\<lparr>routes := AList.update (n, w) model (routes s)\<rparr>)))"

definition remove_instance :: "NodeKey \<Rightarrow> WorkerId \<Rightarrow> string \<Rightarrow> Fleet \<Rightarrow> Fleet" where
  "remove_instance n w expected s =
     (let had_route = map_of (routes s) (n, w) \<noteq> None; s = remove_instance_if n w expected s in
      if had_route \<and> map_of (routes s) (n, w) = None then emit n InventorySynced s else s)"

text \<open>The workers of the old list that the new one no longer has.\<close>

definition gone_workers :: "InventoryWorker list \<Rightarrow> InventoryWorker list \<Rightarrow> (WorkerId \<times> string) list" where
  "gone_workers old new =
     map (\<lambda>x. (w_id x, w_model x)) (filter (\<lambda>x. \<not> list_ex (\<lambda>y. w_id y = w_id x) new) old)"

text \<open>Is the pulled snapshot newer, and was that decided by sequence numbers?\<close>

definition pull_newer :: "NodeInventory \<Rightarrow> PulledAt \<Rightarrow> (NodeInventory \<times> PulledAt) option \<Rightarrow> bool \<times> bool" where
  "pull_newer iv at cur =
     (case cur of
        None \<Rightarrow> (True, False)
      | Some (cur_iv, cur_at) \<Rightarrow>
          (case (snapshot_seq iv, snapshot_seq cur_iv) of
             (Some new_seq, Some old_seq) \<Rightarrow> (new_seq > old_seq, True)
           | _ \<Rightarrow> (mono at > mono cur_at, False)))"

text \<open>The push that waited for a full inventory is replayed over the pull if it is newer.\<close>

definition replay_push :: "NodeKey \<Rightarrow> NodeInventory \<Rightarrow> PulledAt \<Rightarrow> Fleet \<Rightarrow>
    FleetEventKind option \<times> (WorkerId \<times> string) list \<times> Fleet" where
  "replay_push n iv at s =
     (case pending_pushes s n of
        None \<Rightarrow> (None, [], s)
      | Some (knd, workers, sq, pushed_at) \<Rightarrow>
          (let s = s\<lparr>pending_pushes := (pending_pushes s)(n := None)\<rparr> in
           if (case snapshot_seq iv of None \<Rightarrow> True | Some pull_seq \<Rightarrow> sq > pull_seq)
           then (Some knd, gone_workers (inv_workers iv) workers,
                 s\<lparr>inventories := (inventories s)(n \<mapsto>
                     (iv\<lparr>inv_workers := workers, snapshot_seq := Some sq\<rparr>, pushed_at))\<rparr>)
           else (None, [], s)))"

definition commit_inventory ::
  "NodeKey \<Rightarrow> nat \<Rightarrow> NodeInventory \<Rightarrow> PulledAt \<Rightarrow> Fleet \<Rightarrow> bool \<times> Fleet" where
  "commit_inventory n epoch_before iv at s =
     (if epochs s n \<noteq> epoch_before then (False, s)
      else
        case pull_newer iv at (inventories s n) of
          (newer, seq_ordered) \<Rightarrow>
            if \<not> newer then (False, s)
            else
              let gone_from_pull =
                    (case inventories s n of
                       Some (cur_iv, _) \<Rightarrow>
                         if seq_ordered then gone_workers (inv_workers cur_iv) (inv_workers iv) else []
                     | None \<Rightarrow> []);
                  s = remove_gone n gone_from_pull s;
                  s = s\<lparr>inventories := (inventories s)(n \<mapsto> (iv, at))\<rparr>
              in case replay_push n iv at s of
                   (replayed, gone, s) \<Rightarrow>
                     (let s = emit n InventorySynced (remove_gone n gone s) in
                      (True, case replayed of None \<Rightarrow> s | Some knd \<Rightarrow> emit n knd s)))"

datatype PushOutcome = Applied | Stale | NeedsFull nat | Deferred

definition commit_workers ::
  "NodeKey \<Rightarrow> transport \<Rightarrow> FleetEventKind \<Rightarrow> InventoryWorker list \<Rightarrow> u64 \<Rightarrow> PulledAt \<Rightarrow> Fleet \<Rightarrow>
   PushOutcome \<times> Fleet" where
  "commit_workers n t knd workers sq at s =
     (if \<not> (n \<in> event_nodes s \<and> nodes s n = Some t) then (Stale, s)
      else
        case inventories s n of
          Some (cur_iv, cur_at) \<Rightarrow>
            (let (newer, seq_ordered) =
                   (case snapshot_seq cur_iv of
                      Some old_seq \<Rightarrow> (sq > old_seq, True)
                    | None \<Rightarrow> (mono at > mono cur_at, False))
             in if \<not> newer then (Stale, s)
                else
                  let gone = (if seq_ordered then gone_workers (inv_workers cur_iv) workers else []);
                      s = s\<lparr>inventories := (inventories s)(n \<mapsto>
                            (cur_iv\<lparr>inv_workers := workers, snapshot_seq := Some sq\<rparr>, at))\<rparr>
                  in (Applied, emit n knd (remove_gone n gone s)))
        | None \<Rightarrow>
            (let newer = (case pending_pushes s n of None \<Rightarrow> True | Some (_, _, old, _) \<Rightarrow> sq > old);
                 s = (if newer
                      then s\<lparr>pending_pushes := (pending_pushes s)(n \<mapsto> (knd, workers, sq, at))\<rparr>
                      else s);
                 pending_seq = (case pending_pushes s n of None \<Rightarrow> sq | Some (_, _, q, _) \<Rightarrow> q)
             in case fallback_inflight s n of
                  None \<Rightarrow>
                    (NeedsFull (fallback_gen s + 1),
                     s\<lparr>fallback_gen := fallback_gen s + 1,
                       fallback_inflight := (fallback_inflight s)(n \<mapsto> (fallback_gen s + 1, pending_seq))\<rparr>)
                | Some _ \<Rightarrow> (Deferred, s)))"

definition fallback_owner :: "NodeKey \<Rightarrow> nat \<Rightarrow> Fleet \<Rightarrow> bool" where
  "fallback_owner n gen s \<longleftrightarrow> (case fallback_inflight s n of None \<Rightarrow> False | Some (g, _) \<Rightarrow> g = gen)"

definition fallback_done :: "NodeKey \<Rightarrow> nat \<Rightarrow> bool \<Rightarrow> Fleet \<Rightarrow> bool \<times> Fleet" where
  "fallback_done n gen give_up s =
     (case fallback_inflight s n of
        None \<Rightarrow> (False, s)
      | Some (cur_gen, served_seq) \<Rightarrow>
          if cur_gen \<noteq> gen then (False, s)
          else
            let pending_seq = map_option (\<lambda>(_, _, q, _). q) (pending_pushes s n);
                live = (inventories s n = None \<and> pending_seq \<noteq> None \<and> nodes s n \<noteq> None);
                extend = (give_up \<and> live \<and>
                          (case pending_seq of None \<Rightarrow> False | Some q \<Rightarrow> q > served_seq));
                retry = (live \<and> (\<not> give_up \<or> extend))
            in (retry, s\<lparr>fallback_inflight := (fallback_inflight s)(n :=
                 (if retry then Some (gen, unwrap_or served_seq pending_seq) else None))\<rparr>))"

definition chat_refresh_begin :: "NodeKey \<Rightarrow> Fleet \<Rightarrow> nat option \<times> Fleet" where
  "chat_refresh_begin n s =
     (case chat_refreshes s n of
        None \<Rightarrow>
          (Some (chat_refresh_gen s + 1),
           s\<lparr>chat_refresh_gen := chat_refresh_gen s + 1,
             chat_refreshes := (chat_refreshes s)(n \<mapsto> (chat_refresh_gen s + 1, False))\<rparr>)
      | Some (g, _) \<Rightarrow> (None, s\<lparr>chat_refreshes := (chat_refreshes s)(n \<mapsto> (g, True))\<rparr>))"

definition chat_refresh_owner :: "NodeKey \<Rightarrow> nat \<Rightarrow> Fleet \<Rightarrow> bool" where
  "chat_refresh_owner n gen s \<longleftrightarrow> (case chat_refreshes s n of None \<Rightarrow> False | Some (g, _) \<Rightarrow> g = gen)"

definition chat_refresh_end :: "NodeKey \<Rightarrow> nat \<Rightarrow> Fleet \<Rightarrow> bool \<times> Fleet" where
  "chat_refresh_end n gen s =
     (case chat_refreshes s n of
        Some (g, again) \<Rightarrow>
          if g \<noteq> gen then (False, s)
          else if again then (True, s\<lparr>chat_refreshes := (chat_refreshes s)(n \<mapsto> (g, False))\<rparr>)
          else (False, s\<lparr>chat_refreshes := (chat_refreshes s)(n := None)\<rparr>)
      | None \<Rightarrow> (False, s))"


text \<open>The mailbox: one message, one step.\<close>

datatype FleetMsg =
    SeedNode NodeKey
  | AdmitNode NodeKey transport "u64 option" "u32 option" "string option" Admission nat
  | DropTransportIf NodeKey transport
  | Retire NodeKey
  | SetNodeDownloads NodeKey "HelloDownload list" transport
  | DisconnectAll "(NodeKey \<times> transport) list"
  | BumpAdmitGen
  | AddInstance NodeKey WorkerId string transport
  | RemoveInstanceIf NodeKey WorkerId string
  | CommitInventory NodeKey nat NodeInventory PulledAt
  | BumpEpoch NodeKey
  | CommitWorkers NodeKey transport FleetEventKind "InventoryWorker list" u64 PulledAt
  | AnnounceHubState
  | FallbackDone NodeKey nat bool
  | ChatRefreshBegin NodeKey
  | ChatRefreshEnd NodeKey nat

primrec handle :: "FleetMsg \<Rightarrow> Fleet \<Rightarrow> Fleet" where
  "handle (SeedNode n) s = seed_node n s"
| "handle (AdmitNode n t gen agreed software ad instant) s =
     snd (admit_node n t gen agreed software ad instant s)"
| "handle (DropTransportIf n t) s = snd (drop_transport n t s)"
| "handle (Retire n) s = retire_node n s"
| "handle (SetNodeDownloads n ds t) s = set_node_downloads n ds t s"
| "handle (DisconnectAll drained) s = disconnect_all drained s"
| "handle BumpAdmitGen s = snd (bump_admit_gen s)"
| "handle (AddInstance n w model t) s = snd (add_instance n w model t s)"
| "handle (RemoveInstanceIf n w expected) s = remove_instance n w expected s"
| "handle (CommitInventory n e iv at) s = snd (commit_inventory n e iv at s)"
| "handle (BumpEpoch n) s = fleet_bump_epoch n s"
| "handle (CommitWorkers n t k ws sq at) s = snd (commit_workers n t k ws sq at s)"
| "handle AnnounceHubState s = emit [] HubStateChanged s"
| "handle (FallbackDone n gen give_up) s = snd (fallback_done n gen give_up s)"
| "handle (ChatRefreshBegin n) s = snd (chat_refresh_begin n s)"
| "handle (ChatRefreshEnd n gen) s = snd (chat_refresh_end n gen s)"

definition fleet_run :: "FleetMsg list \<Rightarrow> Fleet \<Rightarrow> Fleet" where
  "fleet_run ms s = fold handle ms s"

end
