(* ===== verification/Fleet_Props.thy ===== *)
theory Fleet_Props
  imports Fleet
begin

text \<open>
  What the fleet actor guarantees over every mailbox: the well-formedness of its tables, the
  clean removal of a retired node, the rejection of stale admissions and stale pulls, the order
  of snapshots, and the coalescing of chat-end refreshes.
\<close>

subsection \<open>What the helpers touch\<close>

lemma emit_frame [simp]:
  "nodes (emit n k s) = nodes s" "routes (emit n k s) = routes s" "node_ids (emit n k s) = node_ids s"
  "inventories (emit n k s) = inventories s" "epochs (emit n k s) = epochs s"
  "admit_gen (emit n k s) = admit_gen s" "pending_pushes (emit n k s) = pending_pushes s"
  "fallback_inflight (emit n k s) = fallback_inflight s" "chat_refreshes (emit n k s) = chat_refreshes s"
  "chat_refresh_gen (emit n k s) = chat_refresh_gen s" "connected_at (emit n k s) = connected_at s"
  "event_nodes (emit n k s) = event_nodes s" "versions (emit n k s) = versions s"
  by (simp_all add: emit_def)

lemma fleet_bump_epoch_frame [simp]:
  "nodes (fleet_bump_epoch n s) = nodes s" "routes (fleet_bump_epoch n s) = routes s"
  "node_ids (fleet_bump_epoch n s) = node_ids s" "inventories (fleet_bump_epoch n s) = inventories s"
  "admit_gen (fleet_bump_epoch n s) = admit_gen s" "pending_pushes (fleet_bump_epoch n s) = pending_pushes s"
  "fallback_inflight (fleet_bump_epoch n s) = fallback_inflight s"
  "chat_refreshes (fleet_bump_epoch n s) = chat_refreshes s"
  "chat_refresh_gen (fleet_bump_epoch n s) = chat_refresh_gen s"
  "connected_at (fleet_bump_epoch n s) = connected_at s" "event_nodes (fleet_bump_epoch n s) = event_nodes s"
  "epochs (fleet_bump_epoch n s) = (epochs s)(n := epochs s n + 1)" "versions (fleet_bump_epoch n s) = versions s"
  by (simp_all add: fleet_bump_epoch_def)

text \<open>Everything but routes, epochs and traces.\<close>

definition core :: "Fleet \<Rightarrow> Fleet" where
  "core s = s\<lparr>routes := [], emitted := [], closed_transports := [], evicted_logs := [], epochs := (\<lambda>_. 0)\<rparr>"

lemma coreD:
  assumes "core s = core t"
  shows "nodes s = nodes t" "node_ids s = node_ids t" "inventories s = inventories t"
    "admit_gen s = admit_gen t" "pending_pushes s = pending_pushes t"
    "fallback_inflight s = fallback_inflight t" "chat_refreshes s = chat_refreshes t"
    "chat_refresh_gen s = chat_refresh_gen t" "connected_at s = connected_at t"
    "event_nodes s = event_nodes t" "versions s = versions t"
  using assms by (auto simp: core_def dest: arg_cong [of _ _ nodes] arg_cong [of _ _ node_ids]
      arg_cong [of _ _ inventories] arg_cong [of _ _ admit_gen] arg_cong [of _ _ pending_pushes]
      arg_cong [of _ _ fallback_inflight] arg_cong [of _ _ chat_refreshes]
      arg_cong [of _ _ chat_refresh_gen] arg_cong [of _ _ connected_at]
      arg_cong [of _ _ event_nodes] arg_cong [of _ _ versions])

lemma set_AList_delete: "set (AList.delete k xs) \<subseteq> set xs"
  by (induction xs) auto

lemma set_AList_update: "set (AList.update k v xs) \<subseteq> insert (k, v) (set xs)"
  by (induction xs) auto

lemma remove_instance_core:
  "core (snd (remove_instance_no_bump n w m s)) = core s"
  "epochs (snd (remove_instance_no_bump n w m s)) = epochs s"
  "set (routes (snd (remove_instance_no_bump n w m s))) \<subseteq> set (routes s)"
  "distinct (map fst (routes s)) \<Longrightarrow> distinct (map fst (routes (snd (remove_instance_no_bump n w m s))))"
  by (auto simp: remove_instance_no_bump_def evict_remote_logs_def core_def AList.distinct_delete
      dest: set_AList_delete [THEN subsetD] split: option.split)

lemma remove_gone_Cons:
  "remove_gone n ((w, m) # gone) s = remove_gone n gone (snd (remove_instance_no_bump n w m s))"
  by (simp add: remove_gone_def)

lemma remove_gone_core:
  "core (remove_gone n gone s) = core s \<and> epochs (remove_gone n gone s) = epochs s \<and>
   set (routes (remove_gone n gone s)) \<subseteq> set (routes s) \<and>
   (distinct (map fst (routes s)) \<longrightarrow> distinct (map fst (routes (remove_gone n gone s))))"
proof (induction gone arbitrary: s)
  case Nil
  show ?case by (simp add: remove_gone_def)
next
  case (Cons g gone)
  obtain w m where g: "g = (w, m)" by (cases g)
  show ?case
    using Cons [of "snd (remove_instance_no_bump n w m s)"] remove_instance_core(1-3) [of n w m s]
      remove_instance_core(4) [of s n w m]
    unfolding g remove_gone_Cons by auto
qed

lemmas remove_gone_frame [simp] = coreD [OF remove_gone_core [THEN conjunct1]]

lemma remove_gone_epochs [simp]: "epochs (remove_gone n gone s) = epochs s"
  using remove_gone_core [of n gone s] by blast

lemma close_transport_frame [simp]:
  "nodes (close_transport t s) = nodes s" "routes (close_transport t s) = routes s"
  "node_ids (close_transport t s) = node_ids s" "inventories (close_transport t s) = inventories s"
  "epochs (close_transport t s) = epochs s" "admit_gen (close_transport t s) = admit_gen s"
  "pending_pushes (close_transport t s) = pending_pushes s"
  "fallback_inflight (close_transport t s) = fallback_inflight s"
  "chat_refreshes (close_transport t s) = chat_refreshes s"
  "chat_refresh_gen (close_transport t s) = chat_refresh_gen s"
  "connected_at (close_transport t s) = connected_at s" "event_nodes (close_transport t s) = event_nodes s"
  "versions (close_transport t s) = versions s"
  by (simp_all add: close_transport_def)

lemma disconnect_all_frame [simp]:
  "nodes (disconnect_all d s) = (\<lambda>_. None)" "connected_at (disconnect_all d s) = (\<lambda>_. None)"
  "routes (disconnect_all d s) = routes s" "node_ids (disconnect_all d s) = node_ids s"
  "inventories (disconnect_all d s) = inventories s" "epochs (disconnect_all d s) = epochs s"
  "admit_gen (disconnect_all d s) = admit_gen s + 1"
  "pending_pushes (disconnect_all d s) = pending_pushes s"
  "fallback_inflight (disconnect_all d s) = fallback_inflight s"
  "chat_refreshes (disconnect_all d s) = chat_refreshes s"
  "chat_refresh_gen (disconnect_all d s) = chat_refresh_gen s"
  "event_nodes (disconnect_all d s) = event_nodes s" "versions (disconnect_all d s) = versions s"
proof -
  have "core (fold (\<lambda>(n, t) s. emit n NodeDropped (close_transport t s)) d s) = core s \<and>
      routes (fold (\<lambda>(n, t) s. emit n NodeDropped (close_transport t s)) d s) = routes s \<and>
      epochs (fold (\<lambda>(n, t) s. emit n NodeDropped (close_transport t s)) d s) = epochs s" for d s
    by (induction d arbitrary: s) (auto simp: core_def emit_def close_transport_def)
  note fr = this [THEN conjunct1, THEN coreD(1)] this [THEN conjunct1, THEN coreD(2)]
    this [THEN conjunct1, THEN coreD(3)] this [THEN conjunct1, THEN coreD(4)]
    this [THEN conjunct1, THEN coreD(5)] this [THEN conjunct1, THEN coreD(6)]
    this [THEN conjunct1, THEN coreD(7)] this [THEN conjunct1, THEN coreD(8)]
    this [THEN conjunct1, THEN coreD(9)] this [THEN conjunct1, THEN coreD(10)]
    this [THEN conjunct1, THEN coreD(11)]
    this [THEN conjunct2, THEN conjunct1] this [THEN conjunct2, THEN conjunct2]
  show "nodes (disconnect_all d s) = (\<lambda>_. None)" "connected_at (disconnect_all d s) = (\<lambda>_. None)"
    "routes (disconnect_all d s) = routes s" "node_ids (disconnect_all d s) = node_ids s"
    "inventories (disconnect_all d s) = inventories s" "epochs (disconnect_all d s) = epochs s"
    "admit_gen (disconnect_all d s) = admit_gen s + 1"
    "pending_pushes (disconnect_all d s) = pending_pushes s"
    "fallback_inflight (disconnect_all d s) = fallback_inflight s"
    "chat_refreshes (disconnect_all d s) = chat_refreshes s"
    "chat_refresh_gen (disconnect_all d s) = chat_refresh_gen s"
    "event_nodes (disconnect_all d s) = event_nodes s" "versions (disconnect_all d s) = versions s"
    by (simp_all add: disconnect_all_def fr)
qed

lemma fleet_run_simps [simp]:
  "fleet_run [] s = s" "fleet_run (m # ms) s = fleet_run ms (handle m s)"
  "fleet_run (ms @ ms') s = fleet_run ms' (fleet_run ms s)"
  by (simp_all add: fleet_run_def)

lemma fleet_run_invariant:
  assumes "\<And>m s. P s \<Longrightarrow> Q m \<Longrightarrow> P (handle m s)"
  shows "P s \<Longrightarrow> list_all Q ms \<Longrightarrow> P (fleet_run ms s)"
  by (induction ms arbitrary: s) (auto intro: assms)

lemmas op_defs = seed_node_def admit_node_def bump_admit_gen_def drop_transport_def
  fleet_drop_transport_if_def set_node_downloads_def retire_node_def add_instance_def
  commit_inventory_def replay_push_def commit_workers_def fallback_done_def chat_refresh_begin_def
  chat_refresh_end_def

subsection \<open>Epochs: a stale pull never commits\<close>

lemma retire_frame [simp]:
  "epochs (retire n s) = (epochs s)(n := epochs s n + 1)"
  "routes (retire n s) = filter (\<lambda>((m, w), _). m \<noteq> n) (routes s)"
  "nodes (retire n s) = (nodes s)(n := None)" "connected_at (retire n s) = (connected_at s)(n := None)"
  "inventories (retire n s) = (inventories s)(n := None)" "admit_gen (retire n s) = admit_gen s"
  "pending_pushes (retire n s) = (pending_pushes s)(n := None)"
  "fallback_inflight (retire n s) = (fallback_inflight s)(n := None)"
  "chat_refreshes (retire n s) = (chat_refreshes s)(n := None)"
  "chat_refresh_gen (retire n s) = chat_refresh_gen s" "event_nodes (retire n s) = event_nodes s - {n}"
  "node_ids (retire n s) = ni_remove n (node_ids s)" "versions (retire n s) = (versions s)(n := None)"
  by (auto simp: retire_def Let_def fleet_bump_epoch_def close_transport_def fun_eq_iff split: option.split)

lemma remove_instance_frame [simp]:
  "nodes (remove_instance n w x s) = nodes s" "node_ids (remove_instance n w x s) = node_ids s"
  "inventories (remove_instance n w x s) = inventories s"
  "admit_gen (remove_instance n w x s) = admit_gen s"
  "pending_pushes (remove_instance n w x s) = pending_pushes s"
  "fallback_inflight (remove_instance n w x s) = fallback_inflight s"
  "chat_refreshes (remove_instance n w x s) = chat_refreshes s"
  "chat_refresh_gen (remove_instance n w x s) = chat_refresh_gen s"
  "connected_at (remove_instance n w x s) = connected_at s"
  "event_nodes (remove_instance n w x s) = event_nodes s"
  by (auto simp: remove_instance_def remove_instance_if_def remove_instance_no_bump_def
      evict_remote_logs_def emit_def fleet_bump_epoch_def Let_def split: option.split)

lemma remove_instance_routes:
  "routes (remove_instance n w x s) =
     (if map_of (routes s) (n, w) = Some x then AList.delete (n, w) (routes s) else routes s)"
  "epochs (remove_instance n w x s) =
     (if map_of (routes s) (n, w) = Some x then (epochs s)(n := epochs s n + 1) else epochs s)"
  by (auto simp: remove_instance_def remove_instance_if_def remove_instance_no_bump_def
      evict_remote_logs_def emit_def fleet_bump_epoch_def Let_def split: option.split)

definition admits :: "u64 option \<Rightarrow> Fleet \<Rightarrow> bool" where
  "admits gen s \<longleftrightarrow> (case gen of None \<Rightarrow> True | Some g \<Rightarrow> g = admit_gen s)"

lemma admit_node_refused: "\<not> admits gen s \<Longrightarrow> admit_node n t gen a v ad i s = (None, s)"
  by (auto simp: admit_node_def admits_def split: option.splits)

lemma admit_node_frame:
  assumes "admits gen s"
  shows "fst (admit_node n t gen a v ad i s) = Some (fst (ni_assign n (node_ids s)), nodes s n)"
    "nodes (snd (admit_node n t gen a v ad i s)) = (nodes s)(n \<mapsto> t)"
    "connected_at (snd (admit_node n t gen a v ad i s)) = (connected_at s)(n \<mapsto> i)"
    "node_ids (snd (admit_node n t gen a v ad i s)) = snd (ni_assign n (node_ids s))"
    "routes (snd (admit_node n t gen a v ad i s)) = routes s"
    "epochs (snd (admit_node n t gen a v ad i s)) = (epochs s)(n := epochs s n + 1)"
    "admit_gen (snd (admit_node n t gen a v ad i s)) = admit_gen s"
    "pending_pushes (snd (admit_node n t gen a v ad i s)) = (pending_pushes s)(n := None)"
    "fallback_inflight (snd (admit_node n t gen a v ad i s)) = (fallback_inflight s)(n := None)"
    "chat_refreshes (snd (admit_node n t gen a v ad i s)) = chat_refreshes s"
    "chat_refresh_gen (snd (admit_node n t gen a v ad i s)) = chat_refresh_gen s"
    "event_nodes (snd (admit_node n t gen a v ad i s)) = set_member (ad_fleet_events ad) n (event_nodes s)"
    "inventories (snd (admit_node n t gen a v ad i s)) = (inventories s)
       (n := map_option (\<lambda>(iv, at). (iv\<lparr>snapshot_seq := None\<rparr>, at)) (inventories s n))"
  using assms by (auto simp: admit_node_def admits_def Let_def split_beta fun_eq_iff split: option.split)

text \<open>The messages after which an inventory read before them is out of date.\<close>

fun invalidates :: "NodeKey \<Rightarrow> FleetMsg \<Rightarrow> Fleet \<Rightarrow> bool" where
  "invalidates n (AdmitNode m t gen agreed software ad instant) s \<longleftrightarrow>
     m = n \<and> admits gen s"
| "invalidates n (Retire m) s \<longleftrightarrow> m = n"
| "invalidates n (BumpEpoch m) s \<longleftrightarrow> m = n"
| "invalidates n (RemoveInstanceIf m w x) s \<longleftrightarrow> m = n \<and> map_of (routes s) (n, w) = Some x"
| "invalidates n _ s \<longleftrightarrow> False"

lemma epochs_handle:
  "epochs (handle m s) n = (if invalidates n m s then epochs s n + 1 else epochs s n)"
proof (cases m)
  case (RemoveInstanceIf m' w x)
  then show ?thesis by (auto simp: remove_instance_routes)
next
  case (AdmitNode n' t gen agreed software ad instant)
  then show ?thesis by (cases "admits gen s") (auto simp: admit_node_refused admit_node_frame)
next
  case (CommitInventory n' e iv at)
  then show ?thesis by (auto simp: op_defs Let_def split: prod.split option.split)
next
  case (CommitWorkers n' t k ws sq at)
  then show ?thesis by (auto simp: op_defs Let_def split: prod.split option.split)
qed (auto simp: op_defs Let_def fleet_bump_epoch_def split: option.split prod.split)

lemma epochs_mono: "epochs s n \<le> epochs (fleet_run ms s) n"
proof (induction ms arbitrary: s)
  case (Cons m ms)
  show ?case using Cons [of "handle m s"] epochs_handle [of m s n] by (auto split: if_splits)
qed simp

text \<open>C36. A pull whose epoch was read before the node was admitted again, retired, or lost a
  route to the hub's own unload never changes the fleet, whatever else happened before and
  after that: the result is discarded and the fleet is the same.\<close>

theorem stale_pull_never_commits:
  assumes "e = epochs (fleet_run before s) n"
    and "invalidates n m (fleet_run meanwhile (fleet_run before s))"
  shows "commit_inventory n e iv at (fleet_run (before @ meanwhile @ m # later) s) =
    (False, fleet_run (before @ meanwhile @ m # later) s)"
proof -
  let ?b = "fleet_run before s" and ?m = "fleet_run meanwhile (fleet_run before s)"
  have "e \<le> epochs ?m n" using assms(1) epochs_mono [of ?b n meanwhile] by simp
  also have "\<dots> < epochs (handle m ?m) n" using assms(2) by (simp add: epochs_handle)
  also have "\<dots> \<le> epochs (fleet_run later (handle m ?m)) n" by (rule epochs_mono)
  finally show ?thesis by (simp add: commit_inventory_def)
qed

theorem stale_pull_never_commits_witness:
  "(let s = fleet_run [SeedNode ''n'', BumpEpoch ''n'', AnnounceHubState] fleet_new in
     commit_inventory ''n'' 0 \<lparr>inv_hostname = ''h'', inv_os = ''linux'', inv_workers = [],
            inv_hardware = JNull, inv_runtime = JNull, snapshot_seq = None\<rparr>
       \<lparr>wall = 5, mono = 5\<rparr> s = (False, s))"
  using stale_pull_never_commits [of 0 "[SeedNode ''n'']" fleet_new "''n''" "BumpEpoch ''n''" "[]" _ _ "[AnnounceHubState]"]
  by (simp add: Let_def fleet_new_def seed_node_def)

subsection \<open>The kill switch\<close>

fun bumps :: "FleetMsg list \<Rightarrow> nat" where
  "bumps [] = 0"
| "bumps (BumpAdmitGen # ms) = Suc (bumps ms)"
| "bumps (DisconnectAll d # ms) = Suc (bumps ms)"
| "bumps (m # ms) = bumps ms"

lemma admit_gen_commit [simp]:
  "admit_gen (snd (commit_inventory n e iv at s)) = admit_gen s"
  "admit_gen (snd (commit_workers n t k ws sq at s)) = admit_gen s"
  by (auto simp: op_defs Let_def split: prod.split option.split)

lemma admit_gen_admit [simp]: "admit_gen (snd (admit_node n t gen a v ad i s)) = admit_gen s"
  by (cases "admits gen s") (simp_all add: admit_node_refused admit_node_frame)

lemma admit_gen_run: "admit_gen (fleet_run ms s) = admit_gen s + of_nat (bumps ms)"
proof (induction ms arbitrary: s)
  case (Cons m ms)
  have "admit_gen (handle m s) = admit_gen s + of_nat (bumps [m])"
    by (cases m) (auto simp: seed_node_def bump_admit_gen_def drop_transport_def
        fleet_drop_transport_if_def set_node_downloads_def retire_node_def add_instance_def
        fallback_done_def chat_refresh_begin_def chat_refresh_end_def Let_def split: option.split)
  moreover have "bumps (m # ms) = bumps [m] + bumps ms" by (cases m) auto
  ultimately show ?case using Cons [of "handle m s"] by simp
qed simp

text \<open>Every admission in the mailbox carries a generation at most \<open>k\<close> older than \<open>g\<close>.\<close>

fun stale_admission :: "u64 \<Rightarrow> nat \<Rightarrow> FleetMsg \<Rightarrow> bool" where
  "stale_admission g k (AdmitNode n t gen agreed software ad instant) \<longleftrightarrow>
     (case gen of None \<Rightarrow> False | Some h \<Rightarrow> unat (g - h) \<le> k)"
| "stale_admission g k _ \<longleftrightarrow> True"

lemma bumps_append [simp]: "bumps (ms @ ms') = bumps ms + bumps ms'"
  by (induction ms rule: bumps.induct) auto

lemma nodes_commit [simp]:
  "nodes (snd (commit_inventory n e iv at s)) = nodes s"
  "nodes (snd (commit_workers n t k ws sq at s)) = nodes s"
  "connected_at (snd (commit_inventory n e iv at s)) = connected_at s"
  "connected_at (snd (commit_workers n t k ws sq at s)) = connected_at s"
  by (auto simp: op_defs Let_def split: prod.split option.split)

lemma stale_gen:
  fixes g h :: u64
  assumes "unat (g - h) \<le> k" "k + b + 1 < 2 ^ 64"
  shows "h \<noteq> g + 1 + of_nat b"
proof
  assume "h = g + 1 + of_nat b"
  then have "g - h = - of_nat (b + 1)" by simp
  then have "unat (- of_nat (b + 1) :: u64) \<le> k" using assms(1) by metis
  moreover have "unat (- of_nat (b + 1) :: u64) = 2 ^ 64 - (b + 1)"
  proof -
    have "(- of_nat (b + 1) :: u64) = of_nat (2 ^ 64 - (b + 1))"
      using assms(2) by (subst of_nat_diff) auto
    moreover have "2 ^ 64 - (b + 1) < (2 :: nat) ^ 64" by simp
    ultimately show ?thesis by (simp only: unat_of_nat) (simp add: take_bit_nat_eq_self)
  qed
  ultimately show False using assms(2) by simp
qed

lemma no_node_kept:
  assumes "nodes s = (\<lambda>_. None)" "connected_at s = (\<lambda>_. None)" "admit_gen s = g + 1 + of_nat b"
    "stale_admission g k m" "k + b + 1 < 2 ^ 64"
  shows "nodes (handle m s) = (\<lambda>_. None) \<and> connected_at (handle m s) = (\<lambda>_. None)"
proof (cases m)
  case (AdmitNode n t gen agreed software ad instant)
  then obtain h where "gen = Some h" "unat (g - h) \<le> k" using assms(4) by (auto split: option.splits)
  with stale_gen [OF this(2) assms(5)] assms(3) have "\<not> admits gen s" by (auto simp: admits_def)
  with AdmitNode assms(1,2) show ?thesis by (simp add: admit_node_refused)
qed (use assms in \<open>auto simp: seed_node_def bump_admit_gen_def drop_transport_def
        fleet_drop_transport_if_def set_node_downloads_def retire_node_def add_instance_def
        fallback_done_def chat_refresh_begin_def chat_refresh_end_def Let_def fun_eq_iff split: option.split\<close>)

text \<open>C31. The kill switch is airtight: after \<open>DisconnectAll\<close> no node is connected, and as long
  as every admission in the mailbox comes from an accept loop started before it, none gets
  connected, whatever other messages follow (a later enable, \<open>BumpAdmitGen\<close>, included). The
  generation is a wrapping \<open>u64\<close>, so this holds for fewer than \<open>2\<^sup>6\<^sup>4\<close> generations.\<close>

theorem kill_switch_airtight:
  assumes "list_all (stale_admission (admit_gen s) k) ms" "k + bumps ms + 1 < 2 ^ 64"
  shows "nodes (fleet_run ms (disconnect_all drained s)) = (\<lambda>_. None) \<and>
    connected_at (fleet_run ms (disconnect_all drained s)) = (\<lambda>_. None)"
  using assms
proof (induction ms rule: rev_induct)
  case Nil
  show ?case by simp
next
  case (snoc m ms)
  let ?s = "fleet_run ms (disconnect_all drained s)"
  have k: "k + bumps ms + 1 < 2 ^ 64" using snoc.prems(2) by simp
  have "nodes (handle m ?s) = (\<lambda>_. None) \<and> connected_at (handle m ?s) = (\<lambda>_. None)"
    using snoc k by (intro no_node_kept [of _ "admit_gen s" "bumps ms" k]) (auto simp: admit_gen_run)
  then show ?case by simp
qed

definition sample_admission :: Admission where
  "sample_admission =
     \<lparr>ad_version = 1, ad_software = ''1.0'', ad_fleet_events = True, ad_reports_failures = True,
      ad_update_failed = None, ad_target = None, ad_variant = None, ad_update_capable = False,
      ad_version_capable = False, ad_log_capable = False, ad_pull_capable = True, ad_downloads = []\<rparr>"

theorem kill_switch_airtight_witness:
  "nodes (fleet_run [BumpAdmitGen, AdmitNode ''n'' 7 (Some 0) (Some 1) None sample_admission 3]
     (disconnect_all [] fleet_new)) ''n'' = None"
  using kill_switch_airtight [of fleet_new 0
      "[BumpAdmitGen, AdmitNode ''n'' 7 (Some 0) (Some 1) None sample_admission 3]" "[]"]
  by (simp add: fleet_new_def)

subsection \<open>Retiring a node\<close>

text \<open>Everything the fleet holds of one node, but its number, its epoch and its traces.\<close>

record NodePart =
  np_transport :: "transport option"
  np_routes :: "((NodeKey \<times> WorkerId) \<times> string) list"
  np_inventory :: "(NodeInventory \<times> PulledAt) option"
  np_chat :: "(nat \<times> bool) option"
  np_version :: "u32 option"
  np_software :: "string option"
  np_failure :: "UpdateFailed option"
  np_flags :: "bool list"
  np_build :: "string option \<times> string option"
  np_downloads :: "HelloDownload list option"
  np_connected :: "nat option"
  np_pending :: "(FleetEventKind \<times> InventoryWorker list \<times> u64 \<times> PulledAt) option"
  np_fallback :: "(nat \<times> u64) option"

definition node_part :: "NodeKey \<Rightarrow> Fleet \<Rightarrow> NodePart" where
  "node_part n s =
     \<lparr>np_transport = nodes s n, np_routes = filter (\<lambda>((m, w), _). m = n) (routes s),
      np_inventory = inventories s n, np_chat = chat_refreshes s n, np_version = versions s n,
      np_software = software_versions s n, np_failure = update_failures s n,
      np_flags = [n \<in> event_nodes s, n \<in> update_capable s, n \<in> version_capable s,
                  n \<in> log_capable s, n \<in> pull_capable s],
      np_build = (targets s n, variants s n), np_downloads = node_downloads s n,
      np_connected = connected_at s n, np_pending = pending_pushes s n,
      np_fallback = fallback_inflight s n\<rparr>"

lemma node_part_emit [simp]: "node_part m (emit n k s) = node_part m s"
  by (simp add: node_part_def emit_def)

lemma node_part_bump [simp]: "node_part m (fleet_bump_epoch n s) = node_part m s"
  by (simp add: node_part_def fleet_bump_epoch_def)

lemma filter_other: "m \<noteq> n \<Longrightarrow>
  filter (\<lambda>((k, w), _). k = m) (filter (\<lambda>((k, w), _). k \<noteq> n) xs) = filter (\<lambda>((k, w), _). k = m) xs"
  by (induction xs) auto

lemma filter_own: "filter (\<lambda>((k, w), _). k = n) (filter (\<lambda>((k, w), _). k \<noteq> n) xs) = []"
  by (induction xs) auto

lemma node_part_retire:
  "node_part m (retire_node n s) = (if m = n then node_part n fleet_new else node_part m s)"
proof -
  have "node_part m (retire n s) = (if m = n then node_part n fleet_new else node_part m s)"
    by (auto simp: retire_def Let_def fleet_bump_epoch_def close_transport_def node_part_def fleet_new_def
        filter_other filter_own simp del: filter_filter split: option.split)
  then show ?thesis by (auto simp: retire_node_def Let_def)
qed

text \<open>What an admission makes of a node depends on what the fleet holds of that node only.\<close>

lemma node_part_admit:
  assumes "node_part n s = node_part n t" "admits gen s" "admits gen t"
  shows "node_part n (snd (admit_node n tr gen a v ad i s)) =
    node_part n (snd (admit_node n tr gen a v ad i t))"
proof -
  have eq: "inventories s n = inventories t n" "update_failures s n = update_failures t n"
    "chat_refreshes s n = chat_refreshes t n"
    "filter (\<lambda>((m, w), _). m = n) (routes s) = filter (\<lambda>((m, w), _). m = n) (routes t)"
    using assms(1) by (simp_all add: node_part_def)
  show ?thesis
    using assms(2,3) eq
    by (cases "inventories t n"; cases "ad_update_failed ad")
       (simp_all add: admit_node_def admits_def Let_def split_beta, auto simp: node_part_def set_member_def split: option.splits)
qed

text \<open>Retiring a node forgets all of it and nothing else: every table loses its entries of
  the node, every other node's part is unchanged; a node paired again after that is admitted
  with exactly the state it would have in a fleet that never knew it, so it inherits neither an
  old inventory, a pending push, a refresh slot nor an update failure.\<close>

theorem retire_leaves_no_trace:
  "node_part m (retire_node n s) = (if m = n then node_part n fleet_new else node_part m s) \<and>
   epochs (retire_node n s) = (epochs s)(n := epochs s n + 1) \<and>
   node_part n (handle (AdmitNode n t None agreed software ad i) (retire_node n s)) =
     node_part n (handle (AdmitNode n t None agreed software ad i) fleet_new)"
proof -
  have "epochs (retire_node n s) = (epochs s)(n := epochs s n + 1)"
    by (simp add: retire_node_def Let_def)
  moreover have "node_part n (snd (admit_node n t None agreed software ad i (retire_node n s))) =
      node_part n (snd (admit_node n t None agreed software ad i fleet_new))"
    by (rule node_part_admit) (simp_all add: node_part_retire admits_def)
  ultimately show ?thesis by (simp add: node_part_retire)
qed

subsection \<open>Chat-end refreshes are coalesced, not lost\<close>

fun leaves_refresh :: "NodeKey \<Rightarrow> nat \<Rightarrow> FleetMsg \<Rightarrow> bool" where
  "leaves_refresh n g (Retire m) \<longleftrightarrow> m \<noteq> n"
| "leaves_refresh n g (ChatRefreshEnd m h) \<longleftrightarrow> \<not> (m = n \<and> h = g)"
| "leaves_refresh n g _ \<longleftrightarrow> True"

lemma chat_refreshes_commit [simp]:
  "chat_refreshes (snd (commit_inventory n e iv at s)) = chat_refreshes s"
  "chat_refreshes (snd (commit_workers n t k ws sq at s)) = chat_refreshes s"
  "chat_refresh_gen (snd (commit_inventory n e iv at s)) = chat_refresh_gen s"
  "chat_refresh_gen (snd (commit_workers n t k ws sq at s)) = chat_refresh_gen s"
  by (auto simp: op_defs Let_def split: prod.split option.split)

lemma chat_refreshes_admit [simp]:
  "chat_refreshes (snd (admit_node n t gen a v ad i s)) = chat_refreshes s"
  "chat_refresh_gen (snd (admit_node n t gen a v ad i s)) = chat_refresh_gen s"
  by (cases "admits gen s"; simp add: admit_node_refused admit_node_frame)+

lemma chat_handle:
  "chat_refreshes (handle m s) =
     (case m of
        Retire n \<Rightarrow> (chat_refreshes s)(n := None)
      | ChatRefreshBegin n \<Rightarrow> chat_refreshes (snd (chat_refresh_begin n s))
      | ChatRefreshEnd n g \<Rightarrow> chat_refreshes (snd (chat_refresh_end n g s))
      | _ \<Rightarrow> chat_refreshes s)"
  "chat_refresh_gen (handle m s) =
     (case m of ChatRefreshBegin n \<Rightarrow> chat_refresh_gen (snd (chat_refresh_begin n s))
      | _ \<Rightarrow> chat_refresh_gen s)"
  by (cases m; auto simp: seed_node_def bump_admit_gen_def drop_transport_def
        fleet_drop_transport_if_def set_node_downloads_def retire_node_def add_instance_def
        fallback_done_def chat_refresh_end_def Let_def split: option.split)+

lemma refresh_kept:
  assumes "chat_refreshes s n = Some (g, True)" "leaves_refresh n g m"
  shows "chat_refreshes (handle m s) n = Some (g, True)"
  using assms unfolding chat_handle
  by (cases m) (auto simp: chat_refresh_begin_def chat_refresh_end_def split: option.split)

lemma refresh_slot_kept:
  assumes "chat_refreshes s n = Some (g, b)" "leaves_refresh n g m"
  shows "\<exists>b'. chat_refreshes (handle m s) n = Some (g, b')"
  using assms unfolding chat_handle
  by (cases m) (auto simp: chat_refresh_begin_def chat_refresh_end_def split: option.split)

text \<open>A chat that ends while a refresh of its node is running asks for one more pull, and
  gets it: it starts no second one, and the running refresh, identified by its generation, is
  told at its end to pull again, whatever happened in between short of retiring the node.
  An end with another generation changes nothing.\<close>

theorem chat_refresh_not_lost:
  assumes "chat_refreshes s n = Some (g, b)" "list_all (leaves_refresh n g) ms"
  shows "fst (chat_refresh_begin n s) = None \<and>
    fst (chat_refresh_end n g (fleet_run (ChatRefreshBegin n # ms) s)) \<and>
    (if h = g then True else chat_refresh_end n h s = (False, s))"
proof -
  have "chat_refreshes (handle (ChatRefreshBegin n) s) n = Some (g, True)"
    using assms(1) by (simp add: chat_refresh_begin_def)
  then have "chat_refreshes (fleet_run ms (handle (ChatRefreshBegin n) s)) n = Some (g, True)"
    using assms(2)
    by (rule fleet_run_invariant [where P = "\<lambda>s. chat_refreshes s n = Some (g, True)", rotated])
       (rule refresh_kept)
  with assms(1) show ?thesis by (auto simp: chat_refresh_begin_def chat_refresh_end_def)
qed

theorem chat_refresh_not_lost_witness:
  "fst (chat_refresh_end ''n'' 1 (fleet_run [ChatRefreshBegin ''n'', BumpEpoch ''n'']
     (fleet_run [ChatRefreshBegin ''n''] fleet_new)))"
  using chat_refresh_not_lost [of "fleet_run [ChatRefreshBegin ''n''] fleet_new" "''n''" 1 False "[BumpEpoch ''n'']"]
  by (simp add: fleet_new_def chat_refresh_begin_def)

subsection \<open>Well-formed tables\<close>

definition known :: "NodeKey \<Rightarrow> Fleet \<Rightarrow> bool" where
  "known n s \<longleftrightarrow> ni_get n (node_ids s) \<noteq> None"

definition fleet_wf :: "Fleet \<Rightarrow> bool" where
  "fleet_wf s \<longleftrightarrow>
     distinct (map fst (routes s)) \<and>
     (\<forall>n. nodes s n \<noteq> None \<longrightarrow> known n s) \<and>
     (\<forall>n. (connected_at s n \<noteq> None) = (nodes s n \<noteq> None)) \<and>
     (\<forall>n w m. ((n, w), m) \<in> set (routes s) \<longrightarrow> known n s) \<and>
     (\<forall>n. n \<in> event_nodes s \<longrightarrow> known n s) \<and>
     (\<forall>n. pending_pushes s n \<noteq> None \<longrightarrow> n \<in> event_nodes s \<and> inventories s n = None) \<and>
     (\<forall>n. fallback_inflight s n \<noteq> None \<longrightarrow> inventories s n = None \<longrightarrow> pending_pushes s n \<noteq> None) \<and>
     (\<forall>n g b. chat_refreshes s n = Some (g, b) \<longrightarrow> g \<le> chat_refresh_gen s)"

lemma fleet_wfD:
  assumes "fleet_wf s"
  shows "distinct (map fst (routes s))" "nodes s n \<noteq> None \<Longrightarrow> known n s"
    "(connected_at s n \<noteq> None) = (nodes s n \<noteq> None)"
    "((n, w), m) \<in> set (routes s) \<Longrightarrow> known n s" "n \<in> event_nodes s \<Longrightarrow> known n s"
    "pending_pushes s n \<noteq> None \<Longrightarrow> n \<in> event_nodes s \<and> inventories s n = None"
    "fallback_inflight s n \<noteq> None \<Longrightarrow> inventories s n = None \<Longrightarrow> pending_pushes s n \<noteq> None"
    "chat_refreshes s n = Some (g, b) \<Longrightarrow> g \<le> chat_refresh_gen s"
  using assms unfolding fleet_wf_def by blast+

lemma ni_get_assign: "ni_get m (snd (ni_assign n a)) = (if m = n then Some (fst (ni_assign n a)) else ni_get m a)"
  by (auto simp: ni_get_def ni_assign_def Let_def update_conv' split: option.split)

lemma ni_get_remove: "ni_get m (ni_remove n a) = (if m = n then None else ni_get m a)"
  by (auto simp: ni_get_def ni_remove_def delete_conv')

lemma wf_new: "fleet_wf fleet_new"
  by (simp add: fleet_wf_def fleet_new_def)

lemma wf_retire: "fleet_wf s \<Longrightarrow> fleet_wf (retire_node n s)"
  unfolding fleet_wf_def
  by (auto simp: retire_node_def Let_def known_def ni_get_remove distinct_map_filter)

lemma wf_admit: "fleet_wf s \<Longrightarrow> fleet_wf (snd (admit_node n t gen a v ad i s))"
  by (cases "admits gen s")
     (auto simp: fleet_wf_def admit_node_refused admit_node_frame known_def ni_get_assign set_member_def)

lemma wf_routes_subset:
  assumes "fleet_wf s" "core t = core s" "set (routes t) \<subseteq> set (routes s)" "distinct (map fst (routes t))"
  shows "fleet_wf t"
proof -
  have "\<forall>n w m. ((n, w), m) \<in> set (routes t) \<longrightarrow> known n s"
    using assms(3) fleet_wfD(4) [OF assms(1)] by blast
  with assms(1,4) show ?thesis unfolding fleet_wf_def known_def coreD [OF assms(2)] by simp
qed

lemma wf_remove_gone: "fleet_wf s \<Longrightarrow> fleet_wf (remove_gone n gone s)"
  using remove_gone_core [of n gone s] wf_routes_subset [of s "remove_gone n gone s"] fleet_wfD(1) [of s]
  by blast

lemma wf_emit [simp]: "fleet_wf (emit n k s) = fleet_wf s"
  by (simp add: fleet_wf_def known_def)

lemma wf_set_inventory:
  "fleet_wf s \<Longrightarrow> fleet_wf (s\<lparr>inventories := (inventories s)(n \<mapsto> iv),
     pending_pushes := (pending_pushes s)(n := None)\<rparr>)"
  unfolding fleet_wf_def known_def by auto

lemma no_pending_upd:
  "pending_pushes s n = None \<Longrightarrow>
   s\<lparr>inventories := f, pending_pushes := (pending_pushes s)(n := None)\<rparr> = s\<lparr>inventories := f\<rparr>"
  by (cases s) (simp add: fun_upd_idem)

lemma wf_set_inventory':
  "fleet_wf s \<Longrightarrow> pending_pushes s n = None \<Longrightarrow> fleet_wf (s\<lparr>inventories := (inventories s)(n \<mapsto> iv)\<rparr>)"
  by (drule wf_set_inventory [of s n iv]) (simp only: no_pending_upd)

lemma wf_swap:
  "fleet_wf (s\<lparr>inventories := f, pending_pushes := p\<rparr>) \<Longrightarrow>
   fleet_wf (s\<lparr>pending_pushes := p, inventories := f\<rparr>)"
  by (cases s) simp

lemma wf_commit_inventory:
  assumes "fleet_wf s"
  shows "fleet_wf (snd (commit_inventory n e iv at s))"
proof -
  have "fleet_wf ((remove_gone n gone s)\<lparr>inventories := (inventories s)(n \<mapsto> x),
      pending_pushes := (pending_pushes s)(n := None)\<rparr>)" for gone x
    using wf_set_inventory [OF wf_remove_gone [OF assms, of n gone], of n x] by simp
  moreover have "fleet_wf ((remove_gone n gone s)\<lparr>inventories := (inventories s)(n \<mapsto> x)\<rparr>)"
    if "pending_pushes s n = None" for gone x
    using wf_set_inventory' [OF wf_remove_gone [OF assms, of n gone], of n x] that by simp
  ultimately show ?thesis
    using assms
    by (auto simp: commit_inventory_def replay_push_def Let_def
        intro!: wf_remove_gone wf_swap split: option.split prod.split)
qed

lemma wf_commit_workers:
  assumes "fleet_wf s"
  shows "fleet_wf (snd (commit_workers n t k ws sq at s))"
proof (cases "inventories s n")
  case None
  then show ?thesis
    using assms unfolding fleet_wf_def known_def
    by (auto simp: commit_workers_def Let_def split: option.split prod.split)
next
  case (Some c)
  then have "pending_pushes s n = None" using fleet_wfD(6) [OF assms, of n] by (cases "pending_pushes s n") auto
  with assms have "fleet_wf (s\<lparr>inventories := (inventories s)(n \<mapsto> x)\<rparr>)" for x
    by (rule wf_set_inventory')
  with Some assms show ?thesis
    by (auto simp: commit_workers_def Let_def intro!: wf_remove_gone split: option.split prod.split)
qed

lemma wf_simple:
  assumes "fleet_wf s"
  shows "fleet_wf (seed_node n s)" "fleet_wf (snd (drop_transport n t s))"
    "fleet_wf (disconnect_all d s)" "fleet_wf (set_node_downloads n ds t s)"
    "fleet_wf (snd (bump_admit_gen s))" "fleet_wf (fleet_bump_epoch n s)"
    "fleet_wf (snd (fallback_done n g give_up s))"
    "fleet_wf (snd (chat_refresh_begin n s))" "fleet_wf (snd (chat_refresh_end n g s))"
  using assms unfolding fleet_wf_def known_def
  by (auto simp: seed_node_def ni_get_assign drop_transport_def fleet_drop_transport_if_def
      set_node_downloads_def bump_admit_gen_def fallback_done_def chat_refresh_begin_def
      chat_refresh_end_def Let_def le_Suc_eq split: option.split) blast+

lemma wf_add_instance: "fleet_wf s \<Longrightarrow> fleet_wf (snd (add_instance n w x t s))"
  by (auto simp: fleet_wf_def known_def add_instance_def distinct_update
      dest!: set_AList_update [THEN subsetD]) blast

lemma wf_remove_instance: "fleet_wf s \<Longrightarrow> fleet_wf (remove_instance n w x s)"
  by (auto simp: fleet_wf_def known_def remove_instance_routes AList.distinct_delete
      dest!: set_AList_delete [THEN subsetD]) blast

lemma wf_handle: "fleet_wf s \<Longrightarrow> fleet_wf (handle m s)"
  by (cases m) (simp_all add: wf_simple wf_admit wf_retire wf_commit_inventory wf_commit_workers
      wf_add_instance wf_remove_instance)

lemma wf_run: "fleet_wf (fleet_run ms fleet_new)"
  by (rule fleet_run_invariant [where Q = "\<lambda>_. True"]) (auto intro: wf_handle wf_new simp: list_all_iff)

subsection \<open>What the hub advertises\<close>

lemma fleet_served_names: "distinct (map fst (fleet_served s))"
  unfolding fleet_served_def using served_ids_sound by blast

lemma fleet_served_keys: "mset (map snd (fleet_served s)) = mset (map fst (routes s))"
proof -
  have "mset (map snd (fleet_served s)) = mset (map (\<lambda>(l, w, m). (l, w)) (instances s))"
    unfolding fleet_served_def using served_ids_sound by blast
  also have "map (\<lambda>(l, w, m). (l, w)) (instances s) = map fst (routes s)"
    by (simp add: instances_def comp_def split_def)
  finally show ?thesis .
qed

lemma fleet_served_route:
  "(name, n, w) \<in> set (fleet_served s) \<Longrightarrow> \<exists>m i. ((n, w), m) \<in> set (routes s) \<and> name = candidate m i"
  using served_ids_sound [of "instances s" "instances s"]
  by (fastforce simp: fleet_served_def instances_def list_all_iff)

lemma resolve_served_iff:
  assumes "fleet_wf s"
  shows "(name, n, w) \<in> set (fleet_served s) \<longleftrightarrow>
    (\<exists>m. resolve_served name s = Some (n, w, m) \<and> map_of (routes s) (n, w) = Some m)"
proof
  assume name: "(name, n, w) \<in> set (fleet_served s)"
  then have "map_of (fleet_served s) name = Some (n, w)"
    by (intro map_of_is_SomeI) (simp_all add: fleet_served_names)
  moreover obtain m where "((n, w), m) \<in> set (routes s)" using fleet_served_route [OF name] by blast
  then have "map_of (routes s) (n, w) = Some m"
    by (intro map_of_is_SomeI) (simp_all add: fleet_wfD(1) [OF assms])
  ultimately show "\<exists>m. resolve_served name s = Some (n, w, m) \<and> map_of (routes s) (n, w) = Some m"
    by (simp add: resolve_served_def)
next
  assume "\<exists>m. resolve_served name s = Some (n, w, m) \<and> map_of (routes s) (n, w) = Some m"
  then show "(name, n, w) \<in> set (fleet_served s)"
    by (auto simp: resolve_served_def split: option.splits dest: map_of_SomeD)
qed

lemma advertised_iff:
  "name \<in> set (fleet_routed_models s) \<longleftrightarrow>
   (\<exists>n w. (name, n, w) \<in> set (fleet_served s) \<and> nodes s n \<noteq> None \<and> worker_chat_capable n w s)"
  by (force simp: fleet_routed_models_def)

lemma advertised_sound:
  assumes wf: "fleet_wf s" and "name \<in> set (fleet_routed_models s)"
  shows "\<exists>n w m i. resolve_served name s = Some (n, w, m) \<and> map_of (routes s) (n, w) = Some m \<and>
    nodes s n \<noteq> None \<and> worker_chat_capable n w s \<and> name = candidate m i"
proof -
  obtain n w where nw: "(name, n, w) \<in> set (fleet_served s)" "nodes s n \<noteq> None"
    "worker_chat_capable n w s" using assms(2) advertised_iff by blast
  then obtain m where m: "resolve_served name s = Some (n, w, m)" "map_of (routes s) (n, w) = Some m"
    using resolve_served_iff [OF wf] by blast
  obtain m' i where m': "((n, w), m') \<in> set (routes s)" "name = candidate m' i"
    using fleet_served_route [OF nw(1)] by blast
  then have "m' = m" using map_of_is_SomeI [OF fleet_wfD(1) [OF wf]] m(2) by fastforce
  then show ?thesis using nw m m' by blast
qed

lemma advertised_unique:
  assumes wf: "fleet_wf s" and r: "map_of (routes s) (n, w) = Some m"
  shows "length (filter (\<lambda>name. resolve_served name s = Some (n, w, m)) (fleet_routed_models s)) =
    (if nodes s n \<noteq> None \<and> worker_chat_capable n w s then 1 else 0)"
proof -
  have "(n, w) \<in> set (map fst (routes s))" using r by (force dest: map_of_SomeD)
  then have "(n, w) \<in> set (map snd (fleet_served s))"
    using arg_cong [OF fleet_served_keys [of s], of set_mset] by simp
  then obtain name where name: "(name, n, w) \<in> set (fleet_served s)" by auto
  have "distinct (map snd (fleet_served s))"
    using fleet_served_keys [of s] fleet_wfD(1) [OF wf] by (metis mset_eq_imp_distinct_iff)
  then have one: "name' = name" if "(name', n, w) \<in> set (fleet_served s)" for name'
    using inj_onD [of snd "set (fleet_served s)" "(name', n, w)" "(name, n, w)"] name that
    by (simp add: distinct_map)
  have iff: "resolve_served name' s = Some (n, w, m) \<longleftrightarrow> name' = name" for name'
  proof
    assume "resolve_served name' s = Some (n, w, m)"
    then show "name' = name" using one resolve_served_iff [OF wf] r by blast
  next
    assume "name' = name"
    moreover obtain m' where "resolve_served name s = Some (n, w, m')" "map_of (routes s) (n, w) = Some m'"
      using resolve_served_iff [OF wf] name by blast
    ultimately show "resolve_served name' s = Some (n, w, m)" using r by simp
  qed
  have "name \<in> set (fleet_routed_models s) \<longleftrightarrow> nodes s n \<noteq> None \<and> worker_chat_capable n w s"
  proof -
    have "(n', w') = (n, w)" if "(name, n', w') \<in> set (fleet_served s)" for n' w'
      using that name fleet_served_names [of s] by (auto dest: eq_key_imp_eq_value)
    then show ?thesis using name advertised_iff by blast
  qed
  moreover have "distinct (fleet_routed_models s)"
    using fleet_served_names [of s] by (simp add: fleet_routed_models_def distinct_map_filter)
  moreover have "length (filter (\<lambda>x. x = name) xs) = (if name \<in> set xs then 1 else 0)"
    if "distinct xs" for xs using that by (induction xs) auto
  ultimately show ?thesis by (simp add: iff)
qed

text \<open>C20. Whatever messages the fleet has handled, its tables are well formed and each model it
  advertises can be used: the name is listed once and resolves to one instance, a route to a
  worker of a node that is connected now and not known to be unfit for chat, named after its
  model; and each route of a connected, fit worker is advertised under exactly one name, every
  other route under none.\<close>

theorem advertised_models_resolve:
  "(let s = fleet_run ms fleet_new in
     fleet_wf s \<and> distinct (fleet_routed_models s) \<and>
     list_all (\<lambda>name.
       case resolve_served name s of None \<Rightarrow> False
       | Some (n, w, m) \<Rightarrow> map_of (routes s) (n, w) = Some m \<and> nodes s n \<noteq> None \<and>
           worker_chat_capable n w s \<and> (\<exists>i. name = candidate m i)) (fleet_routed_models s) \<and>
     list_all (\<lambda>((n, w), m).
       length (filter (\<lambda>name. resolve_served name s = Some (n, w, m)) (fleet_routed_models s)) =
         (if nodes s n \<noteq> None \<and> worker_chat_capable n w s then 1 else 0)) (routes s))"
proof -
  let ?s = "fleet_run ms fleet_new"
  have wf: "fleet_wf ?s" by (rule wf_run)
  have "distinct (fleet_routed_models ?s)"
    using fleet_served_names [of ?s] by (simp add: fleet_routed_models_def distinct_map_filter)
  moreover have "map_of (routes ?s) (n, w) = Some m" if "((n, w), m) \<in> set (routes ?s)" for n w m
    by (intro map_of_is_SomeI that) (rule fleet_wfD(1) [OF wf])
  moreover have "case resolve_served name ?s of None \<Rightarrow> False
      | Some (n, w, m) \<Rightarrow> map_of (routes ?s) (n, w) = Some m \<and> nodes ?s n \<noteq> None \<and>
          worker_chat_capable n w ?s \<and> (\<exists>i. name = candidate m i)"
    if "name \<in> set (fleet_routed_models ?s)" for name
    using advertised_sound [OF wf that] by auto
  ultimately show ?thesis
    unfolding Let_def list_all_iff using wf by (auto simp: advertised_unique [OF wf] simp del: One_nat_def)
qed

subsection \<open>Snapshots never go back\<close>

text \<open>The newest snapshot the fleet holds of a node: the inventory's, or the pending push's.\<close>

definition seen_seq :: "NodeKey \<Rightarrow> Fleet \<Rightarrow> u64 option" where
  "seen_seq n s =
     (case inventories s n of
        Some (iv, _) \<Rightarrow> snapshot_seq iv
      | None \<Rightarrow> map_option (\<lambda>(_, _, q, _). q) (pending_pushes s n))"

definition seq_le :: "u64 option \<Rightarrow> u64 option \<Rightarrow> bool" where
  "seq_le a b = (case a of None \<Rightarrow> True | Some x \<Rightarrow> (case b of None \<Rightarrow> False | Some y \<Rightarrow> x \<le> y))"

lemma seq_le_refl [simp]: "seq_le a a"
  by (simp add: seq_le_def split: option.split)

lemma seq_le_trans: "seq_le a b \<Longrightarrow> seq_le b c \<Longrightarrow> seq_le a c"
  by (auto simp: seq_le_def split: option.splits)

text \<open>One connection of a node that numbers its snapshots.\<close>

fun keeps_order :: "NodeKey \<Rightarrow> FleetMsg \<Rightarrow> bool" where
  "keeps_order n (AdmitNode m t gen agreed software ad instant) \<longleftrightarrow> m \<noteq> n"
| "keeps_order n (Retire m) \<longleftrightarrow> m \<noteq> n"
| "keeps_order n (CommitInventory m e iv at) \<longleftrightarrow> m \<noteq> n \<or> snapshot_seq iv \<noteq> None"
| "keeps_order n _ \<longleftrightarrow> True"

text \<open>The number of the snapshot that the fleet accepts with a message.\<close>

fun accepted_seq :: "NodeKey \<Rightarrow> FleetMsg \<Rightarrow> Fleet \<Rightarrow> u64 option" where
  "accepted_seq n (CommitInventory m e iv at) s =
     (if m = n \<and> fst (commit_inventory m e iv at s) then snapshot_seq iv else None)"
| "accepted_seq n (CommitWorkers m t k ws sq at) s =
     (if m = n \<and> fst (commit_workers m t k ws sq at s) \<noteq> Stale then Some sq else None)"
| "accepted_seq n _ s = None"

lemma seen_commit_inventory:
  assumes "fleet_wf s" "m = n \<Longrightarrow> snapshot_seq iv \<noteq> None"
  shows "seq_le (seen_seq n s) (seen_seq n (snd (commit_inventory m e iv at s)))"
    "seq_le (accepted_seq n (CommitInventory m e iv at) s) (seen_seq n (snd (commit_inventory m e iv at s)))"
  using assms(2) fleet_wfD(6) [OF assms(1), of n]
  by (cases "m = n"; auto simp: commit_inventory_def replay_push_def pull_newer_def seen_seq_def
      seq_le_def Let_def split: option.splits prod.splits)+

lemma seen_commit_workers:
  "seq_le (seen_seq n s) (seen_seq n (snd (commit_workers m t k ws sq at s)))"
  "seq_le (accepted_seq n (CommitWorkers m t k ws sq at) s) (seen_seq n (snd (commit_workers m t k ws sq at s)))"
  by (cases "m = n"; auto simp: commit_workers_def seen_seq_def
      seq_le_def Let_def split: option.splits prod.splits)+

lemma seen_handle:
  assumes "fleet_wf s" "keeps_order n m"
  shows "seq_le (seen_seq n s) (seen_seq n (handle m s)) \<and>
    seq_le (accepted_seq n m s) (seen_seq n (handle m s))"
proof (cases m)
  case (AdmitNode k t gen a v ad i)
  then show ?thesis using assms(2)
    by (cases "admits gen s")
       (auto simp: admit_node_refused admit_node_frame seen_seq_def seq_le_def split: option.split)
next
  case (CommitInventory k e iv at)
  then show ?thesis using assms seen_commit_inventory [of s k n iv e at] by auto
next
  case (CommitWorkers k t knd ws sq at)
  then show ?thesis using seen_commit_workers by simp
qed (use assms(2) in \<open>auto simp: seen_seq_def seed_node_def drop_transport_def fleet_drop_transport_if_def
      set_node_downloads_def retire_node_def bump_admit_gen_def add_instance_def fallback_done_def
      chat_refresh_begin_def chat_refresh_end_def seq_le_def Let_def split: option.split\<close>)

lemma seen_run:
  "fleet_wf s \<Longrightarrow> list_all (keeps_order n) ms \<Longrightarrow> seq_le (seen_seq n s) (seen_seq n (fleet_run ms s))"
  by (induction ms arbitrary: s) (auto intro: seq_le_trans seen_handle [THEN conjunct1] wf_handle)

text \<open>C27. Over one connection of a node that numbers its snapshots the fleet's view of it never
  goes back and loses nothing it accepted: whatever the order in which pushes and pulls arrive,
  and whether a push had to wait for the first pull or not, once a snapshot is accepted the one
  held stays at least as new, and no earlier one is ever taken in its place.\<close>

theorem snapshots_never_go_back:
  assumes "s = fleet_run before fleet_new" "list_all (keeps_order n) (m # later)"
  shows "seq_le (seen_seq n s) (seen_seq n (fleet_run (m # later) s)) \<and>
    seq_le (accepted_seq n m s) (seen_seq n (fleet_run (m # later) s))"
proof -
  have wf: "fleet_wf s" using wf_run assms(1) by simp
  have "seq_le (seen_seq n (handle m s)) (seen_seq n (fleet_run later (handle m s)))"
    using assms(2) by (intro seen_run wf_handle [OF wf]) simp
  then show ?thesis using seen_handle [OF wf, of n m] assms(2) by (auto intro: seq_le_trans)
qed

theorem snapshots_never_go_back_witness:
  "(let before = [AdmitNode ''n'' 7 None (Some 1) None sample_admission 3];
        push = CommitWorkers ''n'' 7 ChatEnd [] 9 \<lparr>wall = 5, mono = 5\<rparr>;
        pull = CommitInventory ''n'' 1
          \<lparr>inv_hostname = ''h'', inv_os = ''linux'', inv_workers = [],
            inv_hardware = JNull, inv_runtime = JNull, snapshot_seq = Some 4\<rparr> \<lparr>wall = 6, mono = 6\<rparr>
    in accepted_seq ''n'' push (fleet_run before fleet_new) = Some 9 \<and>
       seq_le (Some 9) (seen_seq ''n'' (fleet_run [push, pull] (fleet_run before fleet_new))))"
proof -
  let ?before = "[AdmitNode ''n'' 7 None (Some 1) None sample_admission 3]"
  let ?push = "CommitWorkers ''n'' 7 ChatEnd [] 9 \<lparr>wall = 5, mono = 5\<rparr>"
  let ?pull = "CommitInventory ''n'' 1
          \<lparr>inv_hostname = ''h'', inv_os = ''linux'', inv_workers = [],
            inv_hardware = JNull, inv_runtime = JNull, snapshot_seq = Some 4\<rparr> \<lparr>wall = 6, mono = 6\<rparr>"
  have acc: "accepted_seq ''n'' ?push (fleet_run ?before fleet_new) = Some 9"
    by (simp add: admit_node_def sample_admission_def fleet_new_def ni_assign_def node_ids_new_def
        commit_workers_def set_member_def fleet_bump_epoch_def emit_def Let_def opt_filter_def)
  show ?thesis
    using snapshots_never_go_back [OF refl, of "''n''" ?push "[?pull]" ?before] acc by (simp add: Let_def)
qed

end
