(* ===== verification/Fleet_Ops.thy ===== *)
theory Fleet_Ops
  imports Fleet_Props
begin

text \<open>
  The operations of \<open>HubFleet\<close> (\<open>src/node/fleet.rs\<close>) that talk to a node: each is a
  sequence of questions to the fleet actor with a remote request between them, so other
  messages may be handled at every \<open>await\<close>. A world carries the actor's state, the messages the
  environment still contributes, one batch per \<open>await\<close>, and the log of everything handled, own
  messages marked. What a node answers is an argument of the operations.
\<close>

subsection \<open>Turns of the mailbox\<close>

record HubWorld =
  hw_fleet :: Fleet
  hw_env :: "FleetMsg list list"
  hw_log :: "(bool \<times> FleetMsg) list"

definition env_turn :: "HubWorld \<Rightarrow> HubWorld" where
  "env_turn w =
     (case hw_env w of
        [] \<Rightarrow> w
      | ms # rest \<Rightarrow> w\<lparr>hw_fleet := fleet_run ms (hw_fleet w), hw_env := rest,
                       hw_log := hw_log w @ map (Pair False) ms\<rparr>)"

text \<open>\<open>ask\<close> with a question, and \<open>ask\<close> with a message that may change the state.\<close>

definition ask_read :: "(Fleet \<Rightarrow> 'a) \<Rightarrow> HubWorld \<Rightarrow> 'a \<times> HubWorld" where
  "ask_read f w = (let w = env_turn w in (f (hw_fleet w), w))"

definition ask_msg :: "(Fleet \<Rightarrow> 'a) \<Rightarrow> FleetMsg \<Rightarrow> HubWorld \<Rightarrow> 'a \<times> HubWorld" where
  "ask_msg f m w =
     (let w = env_turn w in
      (f (hw_fleet w), w\<lparr>hw_fleet := handle m (hw_fleet w), hw_log := hw_log w @ [(True, m)]\<rparr>))"

subsection \<open>Errors of a remote operation\<close>

definition route_invalidating :: "HiggsError \<Rightarrow> bool" where
  "route_invalidating e =
     (case e of WorkerRpc _ _ (Some c) \<Rightarrow> c \<in> {''HG006'', ''HG007'', ''HG018''} | _ \<Rightarrow> False)"

text \<open>A dead transport is dropped if it is still the node's; display texts are not modelled.\<close>

definition handle_op_error ::
  "NodeKey \<Rightarrow> transport \<Rightarrow> HiggsError \<Rightarrow> HubWorld \<Rightarrow> HiggsError \<times> HubWorld" where
  "handle_op_error n used e w =
     (case e of
        WorkerDead d \<Rightarrow>
          (case ask_msg (\<lambda>_. ()) (DropTransportIf n used) w of
             (_, w) \<Rightarrow> (NodeUnreachable n d, w))
      | _ \<Rightarrow> (e, w))"

subsection \<open>Inventory pulls\<close>

text \<open>The node's answer: an error, or a value that decodes or not.\<close>

definition refresh_inventory ::
  "(transport \<Rightarrow> HiggsError + NodeInventory option) \<Rightarrow> NodeKey \<Rightarrow> PulledAt \<Rightarrow> HubWorld \<Rightarrow>
   (HiggsError + NodeInventory) \<times> HubWorld" where
  "refresh_inventory rpc n pulled_at w =
     (case ask_read (\<lambda>s. epochs s n) w of
        (epoch_before, w) \<Rightarrow>
      case ask_read (fleet_transport n) w of
        (Inl e, w) \<Rightarrow> (Inl e, w)
      | (Inr t, w) \<Rightarrow>
          (case rpc t of
             Inl e \<Rightarrow> (case handle_op_error n t e w of (e, w) \<Rightarrow> (Inl e, w))
           | Inr None \<Rightarrow> (Inl (ProtocolViolation ''node'' ''M_NODE_INVENTORY reply did not decode''), w)
           | Inr (Some iv) \<Rightarrow>
               (case ask_msg (\<lambda>_. ()) (CommitInventory n epoch_before iv pulled_at) w of
                  (_, w) \<Rightarrow> (Inr iv, w))))"

subsection \<open>Loading a model on a node\<close>

definition norm_load_params :: "NodeLoadParams \<Rightarrow> NodeLoadParams" where
  "norm_load_params p =
     p\<lparr>load_ctx_len := opt_filter (\<lambda>c. c > 0) (load_ctx_len p),
       load_threads := opt_filter (\<lambda>c. c > 0) (load_threads p),
       load_params := opt_filter has_overrides
         (map_option (\<lambda>lc. lc\<lparr>n_batch := opt_filter (\<lambda>c. c > 0) (n_batch lc),
                              n_ubatch := opt_filter (\<lambda>c. c > 0) (n_ubatch lc),
                              n_seq_max := opt_filter (\<lambda>c. c > 0) (n_seq_max lc),
                              n_threads_batch := opt_filter (\<lambda>c. c > 0) (n_threads_batch lc)\<rparr>)
           (load_params p))\<rparr>"

text \<open>\<open>{"id": model}\<close> is what the parameters encode to when every option is absent.\<close>

definition bare_load :: "string \<Rightarrow> NodeLoadParams" where
  "bare_load model =
     \<lparr>load_id = model, load_ctx_len = None, load_gpu_layers = None, load_threads = None,
      load_params = None\<rparr>"

definition is_bare :: "NodeLoadParams \<Rightarrow> bool" where
  "is_bare p \<longleftrightarrow> load_ctx_len p = None \<and> load_gpu_layers p = None \<and> load_threads p = None \<and>
     load_params p = None"

definition load_payload ::
  "NodeKey \<Rightarrow> string \<Rightarrow> NodeLoadParams option \<Rightarrow> HubWorld \<Rightarrow>
   (HiggsError + NodeLoadParams) \<times> HubWorld" where
  "load_payload n model params w =
     (case map_option norm_load_params params of
        None \<Rightarrow> (Inr (bare_load model), w)
      | Some p \<Rightarrow>
          if is_bare p then (Inr (bare_load model), w)
          else (case ask_read (\<lambda>s. unwrap_or 1 (versions s n)) w of
                  (agreed, w) \<Rightarrow>
                    if agreed < 2 then (Inl (NodeTooOldForParams n agreed), w)
                    else (Inr (p\<lparr>load_id := model\<rparr>), w)))"

definition parse_worker_id :: "json \<Rightarrow> HiggsError + u32" where
  "parse_worker_id reply =
     (case get_u64 ''worker_id'' reply of
        None \<Rightarrow> Inl (ProtocolViolation ''node'' ''M_NODE_LOAD reply missing worker_id'')
      | Some raw \<Rightarrow>
          (case u32_try_from raw of
             Some i \<Rightarrow> Inr i
           | None \<Rightarrow> Inl (ProtocolViolation ''node''
               (''M_NODE_LOAD reply worker_id '' @ dec (nat raw) @ '' out of u32 range''))))"

definition hub_load ::
  "(transport \<Rightarrow> NodeLoadParams \<Rightarrow> HiggsError + json) \<Rightarrow>
   (transport \<Rightarrow> HiggsError + NodeInventory option) \<Rightarrow> NodeKey \<Rightarrow> string \<Rightarrow>
   NodeLoadParams option \<Rightarrow> PulledAt \<Rightarrow> HubWorld \<Rightarrow> (HiggsError + WorkerId) \<times> HubWorld" where
  "hub_load rpc inv_rpc n model params pulled_at w =
     (case ask_read (fleet_transport n) w of
        (Inl e, w) \<Rightarrow> (Inl e, w)
      | (Inr t, w) \<Rightarrow>
      (case load_payload n model params w of
        (Inl e, w) \<Rightarrow> (Inl e, w)
      | (Inr payload, w) \<Rightarrow>
      (case rpc t payload of
        Inl e \<Rightarrow> (case handle_op_error n t e w of (e, w) \<Rightarrow> (Inl e, w))
      | Inr reply \<Rightarrow>
      (case parse_worker_id reply of
        Inl e \<Rightarrow> (Inl e, w)
      | Inr i \<Rightarrow>
      (case ask_msg (\<lambda>s. fst (add_instance n i model t s)) (AddInstance n i model t) w of
        (routed, w) \<Rightarrow>
          if \<not> routed
          then (Inl (NodeUnreachable n ''node reconnected while the load was in flight; retry the load''), w)
          else
            (case ask_msg (\<lambda>_. ()) (BumpEpoch n) w of
               (_, w) \<Rightarrow>
            (case refresh_inventory inv_rpc n pulled_at w of (_, w) \<Rightarrow> (Inr i, w))))))))"

subsection \<open>Unloading\<close>

definition require_served :: "string \<Rightarrow> HubWorld \<Rightarrow> (HiggsError + NodeKey \<times> WorkerId \<times> string) \<times> HubWorld" where
  "require_served served w =
     (case ask_read (resolve_served served) w of
        (None, w) \<Rightarrow> (Inl (ModelNotFound served), w)
      | (Some r, w) \<Rightarrow> (Inr r, w))"

definition unload_or_kill ::
  "(transport \<Rightarrow> WorkerId \<Rightarrow> HiggsError option) \<Rightarrow> (transport \<Rightarrow> HiggsError + NodeInventory option) \<Rightarrow>
   string \<Rightarrow> PulledAt \<Rightarrow> HubWorld \<Rightarrow> HiggsError option \<times> HubWorld" where
  "unload_or_kill rpc inv_rpc served pulled_at w =
     (case require_served served w of
        (Inl e, w) \<Rightarrow> (Some e, w)
      | (Inr (n, k, model), w) \<Rightarrow>
      (case ask_read (fleet_transport n) w of
        (Inl e, w) \<Rightarrow> (Some e, w)
      | (Inr t, w) \<Rightarrow>
          let res = rpc t k;
              w = (if (case res of None \<Rightarrow> True | Some e \<Rightarrow> route_invalidating e)
                   then snd (refresh_inventory inv_rpc n pulled_at
                          (snd (ask_msg (\<lambda>_. ()) (RemoveInstanceIf n k model) w)))
                   else w)
          in case res of
               None \<Rightarrow> (None, w)
             | Some e \<Rightarrow> (case handle_op_error n t e w of (e, w) \<Rightarrow> (Some e, w))))"

subsection \<open>Chats\<close>

text \<open>Where a chat is sent, or why it is refused.\<close>

definition chat_target ::
  "string \<Rightarrow> NodeKey option \<Rightarrow> HubWorld \<Rightarrow> (HiggsError + NodeKey \<times> WorkerId \<times> string) \<times> HubWorld" where
  "chat_target served pin w =
     (case require_served served w of
        (Inr (n, k, model), w) \<Rightarrow>
          (case pin of
             Some p \<Rightarrow>
               if n \<noteq> p
               then (Inl (ChatTestTargetMoved (''served instance '' @ served @ '' resolved to node '' @ n @
                       '' at dispatch, not the pinned node '' @ p)), w)
               else (Inr (n, k, model), w)
           | None \<Rightarrow> (Inr (n, k, model), w))
      | (Inl e, w) \<Rightarrow>
          (case (e, pin) of
             (ModelNotFound _, Some p) \<Rightarrow>
               (Inl (ChatTestTargetMoved (''served instance '' @ served @
                  '' is not routed on any node at dispatch (pinned to node '' @ p @ '')'')), w)
           | _ \<Rightarrow> (Inl e, w)))"

text \<open>
  The chat itself: \<open>dispatch\<close> is the node's acceptance of the stream, \<open>outcome\<close> its end. The
  number of refreshes scheduled is returned with the result.
\<close>

definition hub_chat ::
  "(transport \<Rightarrow> WorkerId \<Rightarrow> string \<Rightarrow> HiggsError option) \<Rightarrow> (HiggsError + json) \<Rightarrow> string \<Rightarrow>
   NodeKey option \<Rightarrow> HubWorld \<Rightarrow> (HiggsError + json) \<times> NodeKey list \<times> HubWorld" where
  "hub_chat dispatch outcome served pin w =
     (case chat_target served pin w of
        (Inl e, w) \<Rightarrow> (Inl e, [], w)
      | (Inr (n, k, model), w) \<Rightarrow>
      (case ask_read (fleet_transport n) w of
        (Inl e, w) \<Rightarrow> (Inl e, [], w)
      | (Inr t, w) \<Rightarrow>
      (case dispatch t k model of
        Some e \<Rightarrow> (case handle_op_error n t e w of (e, w) \<Rightarrow> (Inl e, [], w))
      | None \<Rightarrow>
      (case outcome of
        Inr v \<Rightarrow> (Inr v, [n], w)
      | Inl e \<Rightarrow>
          if route_invalidating e
          then (Inl e, [n], snd (ask_msg (\<lambda>_. ()) (RemoveInstanceIf n k model) w))
          else (case handle_op_error n t e w of (e, w) \<Rightarrow> (Inl e, [n], w))))))"

subsection \<open>Pushes of a node\<close>

text \<open>
  The kind of a push: a node's own kinds pass, the kinds that are the hub's own statements make
  the push invalid, an unknown kind becomes the generic invalidation.
\<close>

definition variant_name :: "json \<Rightarrow> string option" where
  "variant_name v = (case v of JStr k \<Rightarrow> Some k | JObj [(k, JNull)] \<Rightarrow> Some k | _ \<Rightarrow> None)"

definition push_kind :: "json \<Rightarrow> FleetEventKind option" where
  "push_kind v =
     (case variant_name v of
        None \<Rightarrow> Some InventorySynced
      | Some k \<Rightarrow>
          if k = ''chat_start'' then Some ChatStart
          else if k = ''chat_end'' then Some ChatEnd
          else if k = ''worker_loaded'' then Some WorkerLoaded
          else if k = ''worker_unloaded'' then Some WorkerUnloaded
          else if k = ''resync'' then Some Resync
          else if k \<in> {''hub_state_changed'', ''node_connected'', ''inventory_synced'', ''node_dropped''}
          then None
          else Some InventorySynced)"

text \<open>
  The owner of the fallback pull (\<open>apply_node_event\<close>): \<open>rpc k\<close> and \<open>at k\<close> are the answer and
  the time of its \<open>k\<close>-th pull, a pull that times out is an answer that does not decode. The
  result is the number of pulls; None means that the fuel did not suffice.
\<close>

fun fallback_loop ::
  "(nat \<Rightarrow> transport \<Rightarrow> HiggsError + NodeInventory option) \<Rightarrow> (nat \<Rightarrow> PulledAt) \<Rightarrow> NodeKey \<Rightarrow> nat \<Rightarrow>
   nat \<Rightarrow> nat \<Rightarrow> nat \<Rightarrow> HubWorld \<Rightarrow> (nat \<times> HubWorld) option" where
  "fallback_loop rpc at n gen 0 attempts pulls w = None"
| "fallback_loop rpc at n gen (Suc fuel) attempts pulls w =
     (case ask_read (fallback_owner n gen) w of
        (still_owner, w) \<Rightarrow>
          if \<not> still_owner then Some (pulls, w)
          else
            let w = snd (refresh_inventory (rpc pulls) n (at pulls) w);
                give_up = (attempts + 1 \<ge> 5)
            in case ask_msg (\<lambda>s. fst (fallback_done n gen give_up s)) (FallbackDone n gen give_up) w of
                 (retry, w) \<Rightarrow>
                   if \<not> retry then Some (pulls + 1, w)
                   else fallback_loop rpc at n gen fuel (if give_up then 0 else attempts + 1)
                          (pulls + 1) w)"

text \<open>What \<open>apply_node_event\<close> does with a push: the outcome, and the pulls it causes.\<close>

definition apply_node_event ::
  "(nat \<Rightarrow> transport \<Rightarrow> HiggsError + NodeInventory option) \<Rightarrow> (nat \<Rightarrow> PulledAt) \<Rightarrow> nat \<Rightarrow> NodeKey \<Rightarrow>
   FleetEventKind \<Rightarrow> u64 \<Rightarrow> InventoryWorker list \<Rightarrow> transport \<Rightarrow> PulledAt \<Rightarrow> HubWorld \<Rightarrow>
   PushOutcome \<times> (nat \<times> HubWorld) option" where
  "apply_node_event rpc at fuel n knd sq workers t pulled_at w =
     (case ask_msg (\<lambda>s. fst (commit_workers n t knd workers sq pulled_at s))
             (CommitWorkers n t knd workers sq pulled_at) w of
        (outcome, w) \<Rightarrow>
          (outcome, case outcome of NeedsFull gen \<Rightarrow> fallback_loop rpc at n gen fuel 0 0 w
                    | _ \<Rightarrow> Some (0, w)))"

subsection \<open>What an operation adds to the log\<close>

lemma ask_simps:
  "fst (ask_read f w) = f (hw_fleet (env_turn w))" "snd (ask_read f w) = env_turn w"
  "fst (ask_msg f m w) = f (hw_fleet (env_turn w))"
  "hw_fleet (snd (ask_msg f m w)) = handle m (hw_fleet (env_turn w))"
  "hw_log (snd (ask_msg f m w)) = hw_log (env_turn w) @ [(True, m)]"
  "hw_env (snd (ask_msg f m w)) = hw_env (env_turn w)"
  by (simp_all add: ask_read_def ask_msg_def Let_def)

text \<open>The log records what the fleet went through: \<open>w'\<close> follows \<open>w\<close> with the entries \<open>l\<close>.\<close>

definition follows :: "HubWorld \<Rightarrow> (bool \<times> FleetMsg) list \<Rightarrow> HubWorld \<Rightarrow> bool" where
  "follows w l w' \<longleftrightarrow> hw_log w' = hw_log w @ l \<and> hw_fleet w' = fleet_run (map snd l) (hw_fleet w)"

lemma follows_refl: "follows w [] w"
  by (simp add: follows_def)

lemma follows_trans: "follows w l w' \<Longrightarrow> follows w' l' w'' \<Longrightarrow> follows w (l @ l') w''"
  by (simp add: follows_def)

lemma map_snd_Pair [simp]: "map (snd \<circ> Pair b) ms = ms"
  by (simp add: comp_def)

lemma env_follows: "\<exists>ms. follows w (map (Pair False) ms) (env_turn w)"
  by (cases "hw_env w") (auto simp: env_turn_def follows_def intro: exI [of _ "[]"])

lemma read_follows: "\<exists>ms. follows w (map (Pair False) ms) (snd (ask_read f w))"
  using env_follows by (simp add: ask_simps)

lemma msg_follows: "\<exists>ms. follows w (map (Pair False) ms @ [(True, m)]) (snd (ask_msg f m w))"
proof -
  obtain ms where "follows w (map (Pair False) ms) (env_turn w)" using env_follows by blast
  then have "follows w (map (Pair False) ms @ [(True, m)]) (snd (ask_msg f m w))"
    by (simp add: follows_def ask_simps)
  then show ?thesis by blast
qed

subsection \<open>Loads\<close>

text \<open>The routes that the operation's own messages installed, evaluated along its log.\<close>

fun installed :: "Fleet \<Rightarrow> (bool \<times> FleetMsg) list \<Rightarrow> (NodeKey \<times> WorkerId \<times> string \<times> transport) list" where
  "installed s [] = []"
| "installed s ((mine, m) # l) =
     (case m of
        AddInstance n k model t \<Rightarrow> if mine \<and> nodes s n = Some t then [(n, k, model, t)] else []
      | _ \<Rightarrow> []) @ installed (handle m s) l"

definition no_add :: "(bool \<times> FleetMsg) list \<Rightarrow> bool" where
  "no_add l \<longleftrightarrow> list_all (\<lambda>(mine, m). mine \<longrightarrow> (case m of AddInstance n k x t \<Rightarrow> False | _ \<Rightarrow> True)) l"

lemma no_add_simps [simp]:
  "no_add []" "no_add (l @ l') \<longleftrightarrow> no_add l \<and> no_add l'" "no_add (map (Pair False) ms)"
  by (simp_all add: no_add_def list_all_iff ball_Un)

lemma installed_append: "installed s (l @ l') = installed s l @ installed (fleet_run (map snd l) s) l'"
  by (induction s l rule: installed.induct) simp_all

lemma installed_no_add: "no_add l \<Longrightarrow> installed s l = []"
  by (induction s l rule: installed.induct) (auto simp: no_add_def split: FleetMsg.splits)

text \<open>Steps that install nothing.\<close>

definition quiet :: "HubWorld \<Rightarrow> HubWorld \<Rightarrow> bool" where
  "quiet w w' \<longleftrightarrow> (\<exists>l. follows w l w' \<and> no_add l)"

lemma quiet_refl [simp]: "quiet w w"
  unfolding quiet_def using follows_refl by fastforce

lemma quiet_trans [trans]: "quiet w w' \<Longrightarrow> quiet w' w'' \<Longrightarrow> quiet w w''"
  unfolding quiet_def using follows_trans by fastforce

lemma quiet_read: "quiet w (env_turn w)"
  unfolding quiet_def using env_follows [of w] by fastforce

lemma quiet_msg:
  assumes "\<And>n k x t. m \<noteq> AddInstance n k x t"
  shows "quiet w (snd (ask_msg f m w))"
proof -
  obtain ms where "follows w (map (Pair False) ms @ [(True, m)]) (snd (ask_msg f m w))"
    using msg_follows by blast
  moreover have "no_add [(True, m)]" using assms by (simp add: no_add_def split: FleetMsg.split)
  ultimately show ?thesis unfolding quiet_def by fastforce
qed

lemma quiet_op_error: "quiet w (snd (handle_op_error n t e w))"
  by (auto simp: handle_op_error_def split_beta intro: quiet_msg split: HiggsError.split)

lemma quiet_refresh: "quiet w (snd (refresh_inventory rpc n at w))"
proof -
  let ?w2 = "env_turn (env_turn w)"
  have w2: "quiet w ?w2" using quiet_trans quiet_read by blast
  have "quiet ?w2 (snd (handle_op_error n t e ?w2))" for t e by (rule quiet_op_error)
  moreover have "quiet ?w2 (snd (ask_msg (\<lambda>_. ()) (CommitInventory n e iv at) ?w2))" for e iv
    by (rule quiet_msg) simp
  ultimately show ?thesis
    using w2 quiet_trans [OF w2]
    by (auto simp: refresh_inventory_def ask_read_def Let_def split_beta split: sum.split option.split)
qed

lemma quiet_payload: "quiet w (snd (load_payload n model params w))"
  by (auto simp: load_payload_def ask_read_def Let_def quiet_read split: option.split)

lemma quietD: "quiet w w' \<Longrightarrow> \<exists>l. follows w l w' \<and> installed (hw_fleet w) l = []"
  unfolding quiet_def using installed_no_add by blast

text \<open>The install of a load, and what follows it.\<close>

lemma install_follows:
  assumes "quiet w w1" "r = ask_msg (\<lambda>s. fst (add_instance n i model t s)) (AddInstance n i model t) w1"
    "quiet (snd r) w'"
  shows "\<exists>l. follows w l w' \<and> installed (hw_fleet w) l = (if fst r then [(n, i, model, t)] else [])"
proof -
  obtain l1 where l1: "follows w l1 w1" "no_add l1" using assms(1) unfolding quiet_def by blast
  obtain ms where ms: "follows w1 (map (Pair False) ms) (env_turn w1)" using env_follows by blast
  obtain l2 where l2: "follows (snd r) l2 w'" "no_add l2" using assms(3) unfolding quiet_def by blast
  let ?l = "(l1 @ map (Pair False) ms) @ [(True, AddInstance n i model t)] @ l2"
  let ?s = "hw_fleet (env_turn w1)"
  have pre: "follows w (l1 @ map (Pair False) ms) (env_turn w1)" using l1(1) ms by (rule follows_trans)
  have "follows (env_turn w1) [(True, AddInstance n i model t)] (snd r)"
    by (simp add: assms(2) follows_def ask_simps)
  with pre l2(1) have "follows w ?l w'" by (blast intro: follows_trans)
  moreover have "installed (hw_fleet w) ?l = (if fst r then [(n, i, model, t)] else [])"
  proof -
    have "installed (hw_fleet w) (l1 @ map (Pair False) ms) = []"
      using l1(2) by (intro installed_no_add) simp
    moreover have "fleet_run (map snd (l1 @ map (Pair False) ms)) (hw_fleet w) = ?s"
      using pre by (simp add: follows_def)
    moreover have "fst r \<longleftrightarrow> nodes ?s n = Some t"
      by (simp add: assms(2) ask_simps add_instance_def)
    ultimately show ?thesis
      using installed_no_add [OF l2(2)]
      by (simp only: installed_append) simp
  qed
  ultimately show ?thesis by blast
qed

lemma load_payload_id: "load_payload n model params w = (Inr p, w') \<Longrightarrow> load_id p = model"
  by (auto simp: load_payload_def bare_load_def split: option.splits if_splits prod.splits)

text \<open>A load either fails before it tries to install a route, or comes to that point.\<close>

definition reaches_install ::
  "(transport \<Rightarrow> NodeLoadParams \<Rightarrow> HiggsError + json) \<Rightarrow> NodeKey \<Rightarrow> string \<Rightarrow> HubWorld \<Rightarrow>
   (HiggsError + WorkerId) \<times> HubWorld \<Rightarrow> bool" where
  "reaches_install rpc n model w out \<longleftrightarrow>
     (\<exists>t p reply i w1 r. quiet w w1 \<and> load_id p = model \<and> rpc t p = Inr reply \<and>
        parse_worker_id reply = Inr i \<and>
        r = ask_msg (\<lambda>s. fst (add_instance n i model t s)) (AddInstance n i model t) w1 \<and>
        quiet (snd r) (snd out) \<and> (if fst r then fst out = Inr i else \<exists>e. fst out = Inl e))"

lemma after_parse:
  assumes "quiet w w2" "load_id p = model" "rpc t p = Inr reply" "parse_worker_id reply = Inr i"
    "out = (case ask_msg (\<lambda>s. fst (add_instance n i model t s)) (AddInstance n i model t) w2 of
        (routed, w) \<Rightarrow>
          if \<not> routed then (Inl e, w)
          else (case ask_msg (\<lambda>_. ()) (BumpEpoch n) w of
               (_, w) \<Rightarrow> (case refresh_inventory inv_rpc n at w of (_, w) \<Rightarrow> (Inr i, w))))"
  shows "reaches_install rpc n model w out"
proof -
  define r where "r = ask_msg (\<lambda>s. fst (add_instance n i model t s)) (AddInstance n i model t) w2"
  define b where "b = ask_msg (\<lambda>_. ()) (BumpEpoch n) (snd r)"
  have "quiet (snd r) (snd b)" unfolding b_def by (rule quiet_msg) simp
  then have "quiet (snd r) (snd (refresh_inventory inv_rpc n at (snd b)))"
    using quiet_refresh quiet_trans by blast
  moreover have "out = (if \<not> fst r then (Inl e, snd r)
      else (Inr i, snd (refresh_inventory inv_rpc n at (snd b))))"
    using assms(5) by (simp add: r_def b_def split_beta)
  ultimately show ?thesis
    using assms(1-4) r_def unfolding reaches_install_def
    by (intro exI [of _ t] exI [of _ p] exI [of _ reply] exI [of _ i] exI [of _ w2] exI [of _ r]) simp
qed

lemma load_cases:
  "(\<exists>e. fst (hub_load rpc inv_rpc n model params at w) = Inl e) \<and>
     quiet w (snd (hub_load rpc inv_rpc n model params at w)) \<or>
   reaches_install rpc n model w (hub_load rpc inv_rpc n model params at w)"
proof -
  obtain tr w1 where t: "ask_read (fleet_transport n) w = (tr, w1)" by fastforce
  have q1: "quiet w w1" using t by (auto simp: ask_read_def Let_def quiet_read)
  obtain pl w2 where p: "load_payload n model params w1 = (pl, w2)" by fastforce
  have q2: "quiet w w2" using quiet_trans [OF q1] quiet_payload [of w1 n model params] p by simp
  consider (refused) e where "tr = Inl e" | (old) t e where "tr = Inr t" "pl = Inl e"
    | (failed) t' p' e where "tr = Inr t'" "pl = Inr p'" "rpc t' p' = Inl e"
    | (bad) t' p' reply e where "tr = Inr t'" "pl = Inr p'" "rpc t' p' = Inr reply" "parse_worker_id reply = Inl e"
    | (worker) t' p' reply i where "tr = Inr t'" "pl = Inr p'" "rpc t' p' = Inr reply" "parse_worker_id reply = Inr i"
    by (meson sum.exhaust_sel)
  then show ?thesis
  proof cases
    case failed
    then have "quiet w (snd (handle_op_error n t' e w2))" using q2 quiet_op_error quiet_trans by blast
    with t p failed show ?thesis by (simp add: hub_load_def split_beta)
  next
    case worker
    then have "reaches_install rpc n model w (hub_load rpc inv_rpc n model params at w)"
      using t p q2 load_payload_id [of n model params w1 p' w2]
      by (intro after_parse [where t = t' and p = p']) (simp_all add: hub_load_def)
    then show ?thesis ..
  qed (use t p q1 q2 in \<open>simp_all add: hub_load_def\<close>)
qed

text \<open>Whatever the fleet handles while a model is being loaded on a node: a load that succeeds
  installs exactly one route, for the worker the node's reply names, on the connection the
  request went out on, still the node's current one at that moment; a load that fails installs
  none.\<close>

theorem load_installs_one_route:
  "\<exists>l. hw_log (snd (hub_load rpc inv_rpc n model params at w)) = hw_log w @ l \<and>
     hw_fleet (snd (hub_load rpc inv_rpc n model params at w)) = fleet_run (map snd l) (hw_fleet w) \<and>
     (case fst (hub_load rpc inv_rpc n model params at w) of
        Inl e \<Rightarrow> installed (hw_fleet w) l = []
      | Inr i \<Rightarrow> \<exists>t p reply. installed (hw_fleet w) l = [(n, i, model, t)] \<and>
          load_id p = model \<and> rpc t p = Inr reply \<and> parse_worker_id reply = Inr i)"
  using load_cases [of rpc inv_rpc n model params at w]
proof (elim disjE)
  assume "reaches_install rpc n model w (hub_load rpc inv_rpc n model params at w)"
  then obtain t p reply i w1 r where r: "quiet w w1" "load_id p = model" "rpc t p = Inr reply"
    "parse_worker_id reply = Inr i"
    "r = ask_msg (\<lambda>s. fst (add_instance n i model t s)) (AddInstance n i model t) w1"
    "quiet (snd r) (snd (hub_load rpc inv_rpc n model params at w))"
    "if fst r then fst (hub_load rpc inv_rpc n model params at w) = Inr i
     else \<exists>e. fst (hub_load rpc inv_rpc n model params at w) = Inl e"
    unfolding reaches_install_def by metis
  with install_follows [OF r(1,5,6)] show ?thesis
    by (cases "fst r") (auto simp: follows_def split: sum.split)
qed (auto simp: follows_def dest: quietD)

subsection \<open>Load parameters\<close>

text \<open>No count of zero is left.\<close>

definition zero_free :: "NodeLoadParams \<Rightarrow> bool" where
  "zero_free p \<longleftrightarrow>
     load_ctx_len p \<noteq> Some 0 \<and> load_threads p \<noteq> Some 0 \<and>
     (case load_params p of
        None \<Rightarrow> True
      | Some lc \<Rightarrow> n_batch lc \<noteq> Some 0 \<and> n_ubatch lc \<noteq> Some 0 \<and> n_seq_max lc \<noteq> Some 0 \<and>
          n_threads_batch lc \<noteq> Some 0 \<and> has_overrides lc)"

lemma zero_free_norm: "zero_free (norm_load_params p)"
  by (cases "load_params p")
     (auto simp: zero_free_def norm_load_params_def opt_filter_def split: option.split)

text \<open>What a load sends: parameters without zero counts and for the requested model, and either
  none at all or to a node whose agreed protocol honours them; a request that asks for nothing is
  never refused for the node's age, and one that asks for something is either sent whole or
  refused with HG078, never cut down.\<close>

theorem load_params_gate:
  "(case fst (load_payload n model params w) of
      Inr p \<Rightarrow>
        load_id p = model \<and> zero_free p \<and>
        (if is_bare p then True else
          (case versions (hw_fleet (snd (load_payload n model params w))) n of
             None \<Rightarrow> False | Some v \<Rightarrow> v \<ge> 2)) \<and>
        p = (case params of None \<Rightarrow> bare_load model | Some q \<Rightarrow> (norm_load_params q)\<lparr>load_id := model\<rparr>)
    | Inl e \<Rightarrow>
        (case params of None \<Rightarrow> False | Some q \<Rightarrow> \<not> is_bare (norm_load_params q)) \<and>
        (\<exists>agreed. e = NodeTooOldForParams n agreed \<and> agreed < 2))"
proof (cases params)
  case None
  then show ?thesis by (simp add: load_payload_def bare_load_def zero_free_def is_bare_def)
next
  case (Some q)
  let ?q = "norm_load_params q"
  show ?thesis
  proof (cases "is_bare ?q")
    case True
    then have "?q\<lparr>load_id := model\<rparr> = bare_load model" by (cases ?q) (simp add: is_bare_def bare_load_def)
    with True Some show ?thesis by (simp add: load_payload_def bare_load_def zero_free_def is_bare_def)
  next
    case False
    then have bare: "\<not> is_bare (?q\<lparr>load_id := model\<rparr>)" by (simp add: is_bare_def)
    have zf: "zero_free (?q\<lparr>load_id := model\<rparr>)" using zero_free_norm [of q] by (simp add: zero_free_def)
    let ?v = "versions (hw_fleet (env_turn w)) n"
    show ?thesis
    proof (cases "unwrap_or 1 ?v < 2")
      case True
      with False Some show ?thesis by (auto simp: load_payload_def ask_read_def Let_def)
    next
      case le: False
      then have "case ?v of None \<Rightarrow> False | Some v \<Rightarrow> v \<ge> 2" by (cases ?v) auto
      with le False Some bare zf show ?thesis by (simp add: load_payload_def ask_read_def Let_def)
    qed
  qed
qed

subsection \<open>Chats\<close>

text \<open>The operation's own messages.\<close>

definition own_msgs :: "HubWorld \<Rightarrow> FleetMsg list" where
  "own_msgs w = map snd (filter fst (hw_log w))"

lemma own_env [simp]: "own_msgs (env_turn w) = own_msgs w"
  by (cases "hw_env w") (simp_all add: env_turn_def own_msgs_def comp_def filter_map)

lemma own_ask [simp]:
  "own_msgs (snd (ask_read f w)) = own_msgs w" "own_msgs (snd (ask_msg f m w)) = own_msgs w @ [m]"
  by (simp_all add: ask_read_def ask_msg_def Let_def) (simp add: own_msgs_def own_env [unfolded own_msgs_def])

lemma own_op_error:
  "own_msgs (snd (handle_op_error n t e w)) =
     own_msgs w @ (case e of WorkerDead d \<Rightarrow> [DropTransportIf n t] | _ \<Rightarrow> [])"
  by (simp add: handle_op_error_def split_beta split: HiggsError.split)

definition op_error :: "NodeKey \<Rightarrow> HiggsError \<Rightarrow> HiggsError" where
  "op_error n e = (case e of WorkerDead d \<Rightarrow> NodeUnreachable n d | _ \<Rightarrow> e)"

lemma fst_op_error: "fst (handle_op_error n t e w) = op_error n e"
  by (simp add: handle_op_error_def op_error_def split_beta split: HiggsError.split)

definition moved :: "HiggsError \<Rightarrow> bool" where
  "moved e = (case e of ChatTestTargetMoved _ \<Rightarrow> True | _ \<Rightarrow> False)"

text \<open>The state in which the target of an operation is looked up.\<close>

definition lookup_state :: "HubWorld \<Rightarrow> Fleet" where
  "lookup_state w = hw_fleet (env_turn w)"

text \<open>A pinned chat never runs elsewhere: if the served name does not resolve to the pinned node
  when the chat is sent, it is refused as moved and nothing is done; otherwise only the pinned
  node is touched, an inventory refresh of it is scheduled exactly when the node took the chat,
  and a route is dropped only if the node said that its worker is gone or serves another model,
  and only that route.\<close>

theorem pinned_chat_never_moves:
  "(case hub_chat dispatch outcome served (Some p) w of
      (r, refreshed, w') \<Rightarrow>
        (case resolve_served served (lookup_state w) of
           None \<Rightarrow> (\<exists>e. r = Inl e \<and> moved e) \<and> refreshed = [] \<and> own_msgs w' = own_msgs w
         | Some (n, k, model) \<Rightarrow>
             if n \<noteq> p
             then (\<exists>e. r = Inl e \<and> moved e) \<and> refreshed = [] \<and> own_msgs w' = own_msgs w
             else
               refreshed \<in> {[], [p]} \<and>
               own_msgs w' \<in> {own_msgs w} \<union> {own_msgs w @ [DropTransportIf p t] | t. True} \<union>
                 (if \<exists>e. outcome = Inl e \<and> route_invalidating e \<and> r = Inl e
                  then {own_msgs w @ [RemoveInstanceIf p k model]} else {}) \<and>
               (case r of Inr v \<Rightarrow> refreshed = [p] \<and> outcome = Inr v \<and> own_msgs w' = own_msgs w
                | Inl e \<Rightarrow> True)))"
proof (cases "resolve_served served (lookup_state w)")
  case None
  then show ?thesis
    by (simp add: hub_chat_def chat_target_def require_served_def ask_read_def lookup_state_def moved_def Let_def)
next
  case (Some a)
  obtain n k model where a: "a = (n, k, model)" by (cases a)
  let ?w = "env_turn w"
  show ?thesis
  proof (cases "n = p")
    case False
    with Some a show ?thesis
      by (simp add: hub_chat_def chat_target_def require_served_def ask_read_def lookup_state_def moved_def Let_def)
  next
    case True
    then have target: "chat_target served (Some p) w = (Inr (p, k, model), ?w)"
      using Some a by (simp add: chat_target_def require_served_def ask_read_def lookup_state_def Let_def)
    obtain tr w2 where tr: "ask_read (fleet_transport p) ?w = (tr, w2)" by fastforce
    then have own2: "own_msgs w2 = own_msgs w" by (auto simp: ask_read_def Let_def)
    show ?thesis
      using target tr own2 Some a True
      by (cases tr; cases "dispatch (projr tr) k model"; cases outcome)
         (auto simp: hub_chat_def split_beta own_op_error fst_op_error split: HiggsError.split if_splits)
  qed
qed

subsection \<open>Unloads\<close>

definition refresh_msgs :: "NodeKey \<Rightarrow> FleetMsg list set" where
  "refresh_msgs n = {[]} \<union> {[DropTransportIf n t] | t. True} \<union> {[CommitInventory n e iv at] | e iv at. True}"

lemma own_refresh:
  "\<exists>ms \<in> refresh_msgs n. own_msgs (snd (refresh_inventory rpc n at w)) = own_msgs w @ ms"
proof -
  obtain tr w2 where tr: "ask_read (fleet_transport n) (env_turn w) = (tr, w2)" by fastforce
  then have own2: "own_msgs w2 = own_msgs w" by (auto simp: ask_read_def Let_def)
  show ?thesis
    unfolding refresh_msgs_def
    using tr own2
    by (cases tr; cases "rpc (projr tr)")
       (auto simp: refresh_inventory_def ask_read_def [of "\<lambda>s. epochs s n"] Let_def split_beta own_op_error
         split: HiggsError.split option.split)
qed

text \<open>Unloading or killing a served instance drops at most one route, the one the name resolved
  to, and only when the node did it or said that the worker is gone or serves another model; on
  any other failure the routes stay for a retry, and a dead connection is reported as such.\<close>

theorem unload_drops_only_its_route:
  "(case unload_or_kill rpc inv_rpc served at w of
      (res, w') \<Rightarrow>
        \<exists>ms. own_msgs w' = own_msgs w @ ms \<and>
          (case resolve_served served (lookup_state w) of
             None \<Rightarrow> res = Some (ModelNotFound served) \<and> ms = []
           | Some (n, k, model) \<Rightarrow>
               (case fleet_transport n (hw_fleet (env_turn (env_turn w))) of
                  Inl e \<Rightarrow> res = Some e \<and> ms = []
                | Inr t \<Rightarrow>
                    res = map_option (op_error n) (rpc t k) \<and>
                    (if (case rpc t k of None \<Rightarrow> True | Some e \<Rightarrow> route_invalidating e)
                     then \<exists>ms'. ms = RemoveInstanceIf n k model # ms' \<and> ms' \<in> refresh_msgs n
                     else ms \<in> {[], [DropTransportIf n t]}))))"
proof (cases "resolve_served served (lookup_state w)")
  case None
  then show ?thesis
    by (simp add: unload_or_kill_def require_served_def ask_read_def lookup_state_def Let_def)
next
  case (Some a)
  obtain n k model where a: "a = (n, k, model)" by (cases a)
  have rs: "require_served served w = (Inr (n, k, model), env_turn w)"
    using Some a by (simp add: require_served_def ask_read_def lookup_state_def Let_def)
  let ?w2 = "env_turn (env_turn w)"
  show ?thesis
  proof (cases "fleet_transport n (hw_fleet ?w2)")
    case (Inl e)
    with rs Some a show ?thesis by (simp add: unload_or_kill_def ask_read_def Let_def)
  next
    case (Inr t)
    let ?drop = "case rpc t k of None \<Rightarrow> True | Some e \<Rightarrow> route_invalidating e"
    define w3 where "w3 = snd (refresh_inventory inv_rpc n at
      (snd (ask_msg (\<lambda>_. ()) (RemoveInstanceIf n k model) ?w2)))"
    obtain ms' where ms': "ms' \<in> refresh_msgs n" "own_msgs w3 = own_msgs w @ RemoveInstanceIf n k model # ms'"
      using own_refresh [of n inv_rpc at "snd (ask_msg (\<lambda>_. ()) (RemoveInstanceIf n k model) ?w2)"]
      unfolding w3_def by auto
    have dead: "\<not> route_invalidating (WorkerDead d)" for d by (simp add: route_invalidating_def)
    have "unload_or_kill rpc inv_rpc served at w =
        (let w4 = (if ?drop then w3 else ?w2) in
         case rpc t k of None \<Rightarrow> (None, w4) | Some e \<Rightarrow> (case handle_op_error n t e w4 of (e, w) \<Rightarrow> (Some e, w)))"
      using rs Inr by (cases "rpc t k") (simp_all add: unload_or_kill_def ask_read_def w3_def Let_def)
    with Some a Inr ms' dead show ?thesis
      by (cases "rpc t k")
         (auto simp: split_beta own_op_error fst_op_error Let_def op_error_def split: HiggsError.split)
  qed
qed

subsection \<open>The fallback pull ends\<close>

text \<open>Pushes of a node among messages, and whether one has come that the owner does not serve yet.\<close>

fun is_push :: "NodeKey \<Rightarrow> FleetMsg \<Rightarrow> bool" where
  "is_push n (CommitWorkers k t knd ws sq at) \<longleftrightarrow> k = n"
| "is_push n _ \<longleftrightarrow> False"

definition pushes :: "NodeKey \<Rightarrow> FleetMsg list \<Rightarrow> nat" where
  "pushes n ms = length (filter (is_push n) ms)"

definition advanced :: "NodeKey \<Rightarrow> nat \<Rightarrow> Fleet \<Rightarrow> nat" where
  "advanced n gen s =
     (case (fallback_inflight s n, pending_pushes s n) of
        (Some (g, served), Some (_, _, q, _)) \<Rightarrow> if g = gen \<and> q > served then 1 else 0
      | _ \<Rightarrow> 0)"

lemma pushes_simps [simp]:
  "pushes n [] = 0" "pushes n (ms @ ms') = pushes n ms + pushes n ms'"
  "pushes n (m # ms) = (if is_push n m then 1 else 0) + pushes n ms"
  by (simp_all add: pushes_def)

lemma advanced_le: "advanced n gen s \<le> 1"
  by (auto simp: advanced_def split: option.split)

lemma fallback_commit [simp]:
  "fallback_inflight (snd (commit_inventory k e iv at s)) = fallback_inflight s"
  by (auto simp: op_defs Let_def split: prod.split option.split)

lemma pending_commit:
  "pending_pushes (snd (commit_inventory k e iv at s)) n =
     (if k = n \<and> fst (commit_inventory k e iv at s) then None else pending_pushes s n)"
  by (auto simp: commit_inventory_def replay_push_def Let_def split: prod.split option.split)

lemma advanced_handle: "advanced n gen (handle m s) \<le> advanced n gen s + (if is_push n m then 1 else 0)"
proof (cases m)
  case (AdmitNode k t g a v ad i)
  then show ?thesis
    by (cases "admits g s") (auto simp: advanced_def admit_node_refused admit_node_frame split: option.split)
next
  case (CommitInventory k e iv at)
  then show ?thesis by (auto simp: advanced_def pending_commit split: option.split)
next
  case (CommitWorkers k t knd ws sq at)
  show ?thesis
  proof (cases "k = n")
    case True
    with CommitWorkers show ?thesis using advanced_le [of n gen "handle m s"] by simp
  next
    case False
    with CommitWorkers show ?thesis
      by (auto simp: advanced_def commit_workers_def Let_def split: option.split prod.split)
  qed
next
  case (FallbackDone k g b)
  then show ?thesis
    by (auto simp: advanced_def fallback_done_def Let_def split: option.split)
qed (auto simp: advanced_def seed_node_def drop_transport_def fleet_drop_transport_if_def
      set_node_downloads_def retire_node_def bump_admit_gen_def add_instance_def
      chat_refresh_begin_def chat_refresh_end_def Let_def split: option.split)

lemma advanced_run: "advanced n gen (fleet_run ms s) \<le> advanced n gen s + pushes n ms"
proof (induction ms arbitrary: s)
  case (Cons m ms)
  show ?case using Cons [of "handle m s"] advanced_handle [of n gen m s] by simp
qed simp

text \<open>New data that an owner may still have to serve: pushes to come, and one that has come.\<close>

definition owed :: "NodeKey \<Rightarrow> nat \<Rightarrow> HubWorld \<Rightarrow> nat" where
  "owed n gen w = pushes n (concat (hw_env w)) + advanced n gen (hw_fleet w)"

lemma owed_env: "owed n gen (env_turn w) \<le> owed n gen w"
proof (cases "hw_env w")
  case (Cons ms rest)
  then show ?thesis using advanced_run [of n gen ms "hw_fleet w"] by (simp add: env_turn_def owed_def)
qed (simp add: env_turn_def owed_def)

lemma owed_msg:
  assumes "\<not> is_push n m"
  shows "owed n gen (snd (ask_msg f m w)) \<le> owed n gen w"
proof -
  have "owed n gen (snd (ask_msg f m w)) \<le> owed n gen (env_turn w)"
    using advanced_handle [of n gen m "hw_fleet (env_turn w)"] assms by (simp add: owed_def ask_simps)
  then show ?thesis using owed_env le_trans by blast
qed

lemma owed_refresh: "owed n gen (snd (refresh_inventory rpc n at w)) \<le> owed n gen w"
proof -
  let ?w2 = "env_turn (env_turn w)"
  have w2: "owed n gen ?w2 \<le> owed n gen w" using owed_env le_trans by blast
  have "owed n gen (snd (ask_msg (\<lambda>_. ()) (DropTransportIf n t) ?w2)) \<le> owed n gen ?w2"
    "owed n gen (snd (ask_msg (\<lambda>_. ()) (CommitInventory n e iv at) ?w2)) \<le> owed n gen ?w2" for t e iv
    by (rule owed_msg, simp)+
  with w2 show ?thesis
    by (auto simp: refresh_inventory_def ask_read_def Let_def split_beta handle_op_error_def
        intro: le_trans split: sum.split option.split HiggsError.split)
qed

lemma last_retry:
  assumes "fst (fallback_done n gen True s)"
  shows "advanced n gen s = 1" "advanced n gen (handle (FallbackDone n gen True) s) = 0"
  using assms by (auto simp: fallback_done_def advanced_def Let_def split: option.splits if_splits)

lemma loop_step:
  "fallback_loop rpc at n gen (Suc fuel) attempts pulls w =
     (let w1 = snd (refresh_inventory (rpc pulls) n (at pulls) (env_turn w));
          give_up = (attempts + 1 \<ge> 5);
          r = ask_msg (\<lambda>s. fst (fallback_done n gen give_up s)) (FallbackDone n gen give_up) w1
      in if \<not> fallback_owner n gen (hw_fleet (env_turn w)) then Some (pulls, env_turn w)
         else if \<not> fst r then Some (pulls + 1, snd r)
         else fallback_loop rpc at n gen fuel (if give_up then 0 else attempts + 1) (pulls + 1) (snd r))"
  unfolding fallback_loop.simps(2) Let_def split_beta ask_simps ..

lemma loop_bound:
  "attempts < 5 \<Longrightarrow> fuel > (5 - attempts) + 5 * owed n gen w \<Longrightarrow>
   \<exists>k w'. fallback_loop rpc at n gen fuel attempts pulls w = Some (pulls + k, w') \<and>
     k \<le> (5 - attempts) + 5 * owed n gen w"
proof (induction fuel arbitrary: attempts pulls w)
  case (Suc fuel)
  define w1 where "w1 = snd (refresh_inventory (rpc pulls) n (at pulls) (env_turn w))"
  define give_up where "give_up = (attempts + 1 \<ge> 5)"
  define w2 where "w2 = snd (ask_msg (\<lambda>s. fst (fallback_done n gen give_up s)) (FallbackDone n gen give_up) w1)"
  define s where "s = hw_fleet (env_turn w1)"
  have w1: "owed n gen w1 \<le> owed n gen w"
    unfolding w1_def using owed_refresh owed_env le_trans by blast
  have w2: "owed n gen w2 \<le> owed n gen w" unfolding w2_def by (rule le_trans [OF owed_msg w1]) simp
  have loop: "fallback_loop rpc at n gen (Suc fuel) attempts pulls w =
      (if \<not> fallback_owner n gen (hw_fleet (env_turn w)) then Some (pulls, env_turn w)
       else if \<not> fst (fallback_done n gen give_up s) then Some (pulls + 1, w2)
       else fallback_loop rpc at n gen fuel (if give_up then 0 else attempts + 1) (pulls + 1) w2)"
    unfolding loop_step Let_def w1_def w2_def s_def give_up_def ask_simps(3) ..
  show ?case
  proof (cases "fallback_owner n gen (hw_fleet (env_turn w)) \<and> fst (fallback_done n gen give_up s)")
    case False
    then show ?thesis using loop Suc.prems(1) by auto
  next
    case retry: True
    let ?a = "if give_up then 0 else attempts + 1"
    have step: "1 + (5 - ?a) + 5 * owed n gen w2 \<le> (5 - attempts) + 5 * owed n gen w"
    proof (cases give_up)
      case True
      then have "advanced n gen s = 1" "advanced n gen (handle (FallbackDone n gen give_up) s) = 0"
        using last_retry [of n gen s] retry by auto
      then have "owed n gen w2 + 1 = owed n gen (env_turn w1)"
        by (simp add: owed_def w2_def ask_simps s_def)
      also have "\<dots> \<le> owed n gen w" using owed_env w1 le_trans by blast
      finally show ?thesis using True Suc.prems(1) by simp
    next
      case False
      then show ?thesis using w2 Suc.prems(1) by (simp add: give_up_def)
    qed
    have "?a < 5" using Suc.prems(1) by (auto simp: give_up_def)
    moreover have "fuel > (5 - ?a) + 5 * owed n gen w2" using step Suc.prems(2) by linarith
    ultimately obtain k w' where "fallback_loop rpc at n gen fuel ?a (pulls + 1) w2 = Some (pulls + 1 + k, w')"
      "k \<le> (5 - ?a) + 5 * owed n gen w2" using Suc.IH by blast
    then show ?thesis using retry loop step by (intro exI [of _ "k + 1"] exI [of _ w']) simp
  qed
qed simp

lemma needs_full:
  assumes "fst (commit_workers n t knd ws sq at s) = NeedsFull gen"
  shows "advanced n gen (snd (commit_workers n t knd ws sq at s)) = 0"
  using assms
  by (auto simp: commit_workers_def advanced_def Let_def split: if_splits option.splits prod.splits)

text \<open>The pull that a push without an inventory starts always ends: whatever the node answers
  and whatever else is handled meanwhile, its owner makes at most five pulls, and five more
  for each push of that node that arrives while it runs.\<close>

theorem fallback_pulls_end:
  "(case apply_node_event rpc at (6 + 5 * pushes n (concat (hw_env w)) + extra) n knd sq ws t pulled_at w of
      (outcome, None) \<Rightarrow> False
    | (outcome, Some (pulls, w')) \<Rightarrow>
        (case outcome of NeedsFull gen \<Rightarrow> pulls \<le> 5 + 5 * pushes n (concat (hw_env w)) | _ \<Rightarrow> pulls = 0))"
proof -
  define p where "p = pushes n (concat (hw_env w))"
  let ?m = "CommitWorkers n t knd ws sq pulled_at"
  define r where "r = ask_msg (\<lambda>s. fst (commit_workers n t knd ws sq pulled_at s)) ?m w"
  have ev: "apply_node_event rpc at (6 + 5 * p + extra) n knd sq ws t pulled_at w =
      (fst r, case fst r of NeedsFull gen \<Rightarrow> fallback_loop rpc at n gen (6 + 5 * p + extra) 0 0 (snd r)
        | _ \<Rightarrow> Some (0, snd r))" unfolding apply_node_event_def r_def by (simp only: split_beta)
  show ?thesis
  proof (cases "fst r")
    case (NeedsFull gen)
    then have "advanced n gen (hw_fleet (snd r)) = 0" by (simp add: r_def ask_simps needs_full)
    moreover have "pushes n (concat (hw_env (snd r))) \<le> p"
      by (cases "hw_env w") (simp_all add: r_def ask_simps env_turn_def p_def)
    ultimately have owed: "owed n gen (snd r) \<le> p" by (simp add: owed_def)
    then have "(5 - 0) + 5 * owed n gen (snd r) < 6 + 5 * p + extra" by simp
    then obtain k w' where "fallback_loop rpc at n gen (6 + 5 * p + extra) 0 0 (snd r) = Some (0 + k, w')"
      "k \<le> (5 - 0) + 5 * owed n gen (snd r)" using loop_bound [of 0 n gen "snd r" "6 + 5 * p + extra" rpc at 0] by auto
    with NeedsFull ev owed show ?thesis by (simp add: p_def)
  qed (use ev in \<open>simp_all add: p_def\<close>)
qed

end
