(* ===== verification/Fleet_View.thy ===== *)
theory Fleet_View
  imports Fleet_Props
begin

text \<open>
  The fleet view (\<open>FleetActor::nodes_view\<close> and its helpers in \<open>src/node/fleet.rs\<close>): one atomic
  snapshot of what the actor knows of every node. The clocks and the live sample of a
  connection (iroh) are arguments; instants are nanoseconds. The lines of the offline advice are
  named, not spelled.
\<close>

subsection \<open>Link statistics\<close>

datatype LinkPath = Direct | Relay

datatype LinkState = Healthy | Degraded | Disconnected

record NetworkSample =
  sm_path :: LinkPath
  sm_rtt_ms :: "u32 option"
  sm_lost_packets :: u64
  sm_sent_datagrams :: u64
  sm_bytes_tx :: u64
  sm_bytes_rx :: u64

record NetworkStats =
  ns_path :: "LinkPath option"
  ns_rtt_ms :: "u32 option"
  ns_lost_packets :: u64
  ns_sent_datagrams :: u64
  ns_bytes_tx :: u64
  ns_bytes_rx :: u64
  ns_uptime_ms :: "u64 option"
  ns_state :: LinkState

definition stats_default :: NetworkStats where
  "stats_default =
     \<lparr>ns_path = None, ns_rtt_ms = None, ns_lost_packets = 0, ns_sent_datagrams = 0, ns_bytes_tx = 0,
      ns_bytes_rx = 0, ns_uptime_ms = None, ns_state = Disconnected\<rparr>"

definition get_passive_link_stats :: "bool \<Rightarrow> NetworkSample option \<Rightarrow> u64 option \<Rightarrow> NetworkStats" where
  "get_passive_link_stats connected sample uptime =
     (if connected then
        (case sample of
           Some x \<Rightarrow>
             \<lparr>ns_path = Some (sm_path x), ns_rtt_ms = sm_rtt_ms x,
              ns_lost_packets = sm_lost_packets x, ns_sent_datagrams = sm_sent_datagrams x,
              ns_bytes_tx = sm_bytes_tx x, ns_bytes_rx = sm_bytes_rx x, ns_uptime_ms = uptime,
              ns_state = (case sm_path x of Direct \<Rightarrow> Healthy | Relay \<Rightarrow> Degraded)\<rparr>
         | None \<Rightarrow> stats_default\<lparr>ns_uptime_ms := uptime, ns_state := Degraded\<rparr>)
      else stats_default\<lparr>ns_state := Disconnected\<rparr>)"

subsection \<open>Ages\<close>

definition elapsed_ms :: "nat \<Rightarrow> nat \<Rightarrow> nat" where
  "elapsed_ms clock since = (clock - since) div 1000000"

definition age_ms :: "PulledAt \<Rightarrow> PulledAt \<Rightarrow> u64" where
  "age_ms clock p = of_nat (max (wall clock - wall p) (mono clock - mono p) div 1000000)"

definition saturated_u64 :: "nat \<Rightarrow> u64" where
  "saturated_u64 n = (if n < 2 ^ 64 then of_nat n else - 1)"

subsection \<open>Advice for an offline node\<close>

datatype HelpLine = MacLocalNetwork | ServiceLog | HubReachable | Checklist

definition offline_help :: "string option \<Rightarrow> string option \<Rightarrow> HelpLine list" where
  "offline_help os target =
     (let affirmatively_non_mac =
            (case os of None \<Rightarrow> False
             | Some x \<Rightarrow> to_ascii_lowercase x = ''linux'' \<or> to_ascii_lowercase x = ''freebsd'');
          macos = (case os of None \<Rightarrow> False | Some x \<Rightarrow> eq_ignore_ascii_case x ''macos'') \<or>
                  (\<not> affirmatively_non_mac \<and>
                   (case target of None \<Rightarrow> False | Some t \<Rightarrow> str_contains ''apple-darwin'' t))
      in (if macos then [MacLocalNetwork] else []) @ [ServiceLog, HubReachable, Checklist])"

subsection \<open>The view\<close>

record NodeView =
  nv_node_id :: u32
  nv_endpoint :: NodeKey
  nv_connected :: bool
  nv_is_local :: bool
  nv_label :: string
  nv_inventory :: "NodeInventory option"
  nv_age_ms :: "u64 option"
  nv_software :: "string option"
  nv_update_failed :: "UpdateFailed option"
  nv_protocol :: "u32 option"
  nv_target :: "string option"
  nv_variant :: "string option"
  nv_update_by_version :: bool
  nv_node_logs :: bool
  nv_pull_status :: bool
  nv_downloads :: "HelloDownload list"
  nv_offline_help :: "HelpLine list"
  nv_link :: NetworkStats

definition served_rev :: "Fleet \<Rightarrow> ((NodeKey \<times> WorkerId) \<times> string) list" where
  "served_rev s = map (\<lambda>(served, key). (key, served)) (fleet_served s)"

definition served_id_for_worker :: "NodeKey \<times> WorkerId \<Rightarrow> string \<Rightarrow> Fleet \<Rightarrow> string" where
  "served_id_for_worker key model s =
     unwrap_or [] (Option.bind (opt_filter (\<lambda>m. m = model) (map_of (routes s) key))
       (\<lambda>_. map_of (served_rev s) key))"

definition tag_worker :: "NodeKey \<Rightarrow> Fleet \<Rightarrow> InventoryWorker \<Rightarrow> InventoryWorker" where
  "tag_worker n s x = x\<lparr>w_served_id := served_id_for_worker (n, w_id x) (w_model x) s\<rparr>"

definition view_inventory :: "NodeKey \<Rightarrow> Fleet \<Rightarrow> NodeInventory option" where
  "view_inventory n s =
     map_option (\<lambda>(iv, _). iv\<lparr>inv_workers := map (tag_worker n s) (inv_workers iv)\<rparr>) (inventories s n)"

definition node_view ::
  "(transport \<Rightarrow> NetworkSample option) \<Rightarrow> PulledAt \<Rightarrow> Fleet \<Rightarrow> NodeKey \<times> u32 \<Rightarrow> NodeView" where
  "node_view network_sample clock s = (\<lambda>(n, i).
     let connected = (nodes s n \<noteq> None);
         iv = view_inventory n s;
         uptime = map_option (\<lambda>t. saturated_u64 (elapsed_ms (mono clock) t)) (connected_at s n)
     in \<lparr>nv_node_id = i, nv_endpoint = n, nv_connected = connected, nv_is_local = False,
         nv_label = [], nv_inventory = iv,
         nv_age_ms = map_option (\<lambda>(_, at). age_ms clock at) (inventories s n),
         nv_software = software_versions s n, nv_update_failed = update_failures s n,
         nv_protocol = versions s n, nv_target = targets s n, nv_variant = variants s n,
         nv_update_by_version = connected \<and> n \<in> version_capable s,
         nv_node_logs = connected \<and> n \<in> log_capable s,
         nv_pull_status = connected \<and> n \<in> pull_capable s,
         nv_downloads = (if connected then unwrap_or [] (node_downloads s n) else []),
         nv_offline_help = (if connected then []
            else offline_help (map_option inv_os iv) (targets s n)),
         nv_link = get_passive_link_stats connected (Option.bind (nodes s n) network_sample) uptime\<rparr>)"

definition nodes_view ::
  "(transport \<Rightarrow> NetworkSample option) \<Rightarrow> PulledAt \<Rightarrow> Fleet \<Rightarrow> NodeView list" where
  "nodes_view network_sample clock s = map (node_view network_sample clock s) (ni_all (node_ids s))"

definition network_stats :: "(transport \<Rightarrow> NetworkSample option) \<Rightarrow> nat \<Rightarrow> NodeKey \<Rightarrow> Fleet \<Rightarrow> NetworkStats" where
  "network_stats network_sample clock n s =
     get_passive_link_stats (nodes s n \<noteq> None) (Option.bind (nodes s n) network_sample)
       (map_option (\<lambda>t. saturated_u64 (elapsed_ms clock t)) (connected_at s n))"

subsection \<open>Update targets\<close>

record NodeUpdateTarget =
  ut_node :: NodeKey
  ut_target :: "string option"
  ut_variant :: "string option"
  ut_update_capable :: bool
  ut_version_capable :: bool
  ut_software :: "string option"
  ut_transport :: transport

text \<open>\<open>connected\<close> is the list of the connected nodes in the order the map is walked.\<close>

definition update_targets :: "(NodeKey \<times> transport) list \<Rightarrow> Fleet \<Rightarrow> NodeUpdateTarget list" where
  "update_targets connected s =
     map (\<lambda>(n, t). \<lparr>ut_node = n, ut_target = targets s n, ut_variant = variants s n,
                    ut_update_capable = (n \<in> update_capable s),
                    ut_version_capable = (n \<in> version_capable s),
                    ut_software = software_versions s n, ut_transport = t\<rparr>) connected"

subsection \<open>The tags of the view are the names that work\<close>

lemma served_rev_iff:
  assumes "fleet_wf s"
  shows "map_of (served_rev s) (n, w) = Some name \<longleftrightarrow> (name, n, w) \<in> set (fleet_served s)"
proof -
  have "distinct (map snd (fleet_served s))"
    using fleet_served_keys [of s] fleet_wfD(1) [OF assms] by (metis mset_eq_imp_distinct_iff)
  then have "distinct (map fst (served_rev s))"
    by (simp add: served_rev_def comp_def split_def)
  then have "map_of (served_rev s) (n, w) = Some name \<longleftrightarrow> ((n, w), name) \<in> set (served_rev s)"
    by simp
  then show ?thesis by (force simp: served_rev_def)
qed

lemma tag_iff:
  assumes "fleet_wf s" "name \<noteq> []"
  shows "served_id_for_worker (n, w) model s = name \<longleftrightarrow> resolve_served name s = Some (n, w, model)"
proof
  assume "served_id_for_worker (n, w) model s = name"
  with assms(2) have r: "map_of (routes s) (n, w) = Some model" "map_of (served_rev s) (n, w) = Some name"
    by (auto simp: served_id_for_worker_def unwrap_or_def opt_filter_def bind_eq_Some_conv
        split: option.splits if_splits)
  then show "resolve_served name s = Some (n, w, model)"
    using resolve_served_iff [OF assms(1), of name n w] served_rev_iff [OF assms(1), of n w name] by auto
next
  assume r: "resolve_served name s = Some (n, w, model)"
  then have m: "map_of (routes s) (n, w) = Some model"
    by (auto simp: resolve_served_def split: option.splits)
  then have "(name, n, w) \<in> set (fleet_served s)" using r resolve_served_iff [OF assms(1)] by blast
  then have "map_of (served_rev s) (n, w) = Some name" using served_rev_iff [OF assms(1)] by blast
  with m show "served_id_for_worker (n, w) model s = name" by (simp add: served_id_for_worker_def)
qed

lemma node_ids_commit [simp]:
  "node_ids (snd (commit_inventory n e iv at s)) = node_ids s"
  "node_ids (snd (commit_workers n t k ws sq at s)) = node_ids s"
  by (auto simp: op_defs Let_def split: prod.split option.split)

text \<open>The numbered nodes are a table: one row per node.\<close>

definition ids_wf :: "Fleet \<Rightarrow> bool" where
  "ids_wf s \<longleftrightarrow> distinct (map fst (by_endpoint (node_ids s)))"

lemma ids_assign:
  "distinct (map fst (by_endpoint a)) \<Longrightarrow> distinct (map fst (by_endpoint (snd (ni_assign n a))))"
  by (auto simp: ni_assign_def Let_def distinct_update split: option.split)

lemma ids_wf_handle: "ids_wf s \<Longrightarrow> ids_wf (handle m s)"
proof (cases m)
  case (AdmitNode n t gen a v ad i)
  then show "ids_wf s \<Longrightarrow> ?thesis"
    by (cases "admits gen s") (simp_all add: ids_wf_def admit_node_refused admit_node_frame ids_assign)
qed (auto simp: ids_wf_def seed_node_def ids_assign retire_node_def ni_remove_def AList.distinct_delete
      drop_transport_def fleet_drop_transport_if_def set_node_downloads_def bump_admit_gen_def
      add_instance_def fallback_done_def chat_refresh_begin_def chat_refresh_end_def Let_def
      split: option.split)

lemma ids_wf_run: "ids_wf (fleet_run ms fleet_new)"
  by (rule fleet_run_invariant [where Q = "\<lambda>_. True"])
     (auto intro: ids_wf_handle simp: list_all_iff, simp add: ids_wf_def fleet_new_def node_ids_new_def)

lemma view_of:
  "(n, i) \<in> set (ni_all (node_ids s)) \<Longrightarrow> ids_wf s \<Longrightarrow> ni_get n (node_ids s) = Some i"
  by (simp add: ni_all_def ni_get_def ids_wf_def)

text \<open>What holds of one entry.\<close>

definition truthful :: "Fleet \<Rightarrow> NodeView \<Rightarrow> bool" where
  "truthful s v \<longleftrightarrow>
     ni_get (nv_endpoint v) (node_ids s) = Some (nv_node_id v) \<and>
     nv_connected v = (nodes s (nv_endpoint v) \<noteq> None) \<and>
     (ns_state (nv_link v) = Disconnected) = (\<not> nv_connected v) \<and>
     (nv_offline_help v = []) = nv_connected v \<and>
     (if nv_connected v then True
      else \<not> nv_update_by_version v \<and> \<not> nv_node_logs v \<and> \<not> nv_pull_status v \<and> nv_downloads v = []) \<and>
     (case nv_inventory v of
        None \<Rightarrow> True
      | Some iv \<Rightarrow> list_all (\<lambda>x.
          if w_served_id x = [] then True
          else resolve_served (w_served_id x) s = Some (nv_endpoint v, w_id x, w_model x)) (inv_workers iv))"

lemma truthful_node_view:
  assumes "fleet_wf s" "ni_get n (node_ids s) = Some i"
  shows "truthful s (node_view sample clock s (n, i))"
proof -
  have tag: "resolve_served (served_id_for_worker (n, w) model s) s = Some (n, w, model)"
    if "served_id_for_worker (n, w) model s \<noteq> []" for w model
    using that tag_iff [OF assms(1), of "served_id_for_worker (n, w) model s" n w model] by blast
  have "(ns_state (get_passive_link_stats c x u) = Disconnected) = (\<not> c)" for c x u
    by (auto simp: get_passive_link_stats_def stats_default_def split: option.split LinkPath.split)
  moreover have "offline_help os target \<noteq> []" for os target by (simp add: offline_help_def Let_def)
  ultimately show ?thesis
    using assms(2) tag
    by (cases "inventories s n")
       (auto simp: truthful_def node_view_def view_inventory_def tag_worker_def Let_def list_all_iff)
qed

text \<open>The fleet view is true: one entry per known node, in the order of their numbers; an entry
  says that its node is connected exactly when it is, and a node that is not shows no live
  capability, no downloads and a link that is down, but always some advice; and a served name
  shown at a worker is one that resolves to that very worker with that very model.\<close>

theorem nodes_view_truthful:
  "(let s = fleet_run ms fleet_new; view = nodes_view sample clock s in
     distinct (map nv_endpoint view) \<and> set (map nv_endpoint view) = {n. known n s} \<and>
     sorted (map nv_node_id view) \<and> list_all (truthful s) view)"
proof -
  let ?s = "fleet_run ms fleet_new"
  have wf: "fleet_wf ?s" "ids_wf ?s" by (rule wf_run, rule ids_wf_run)
  have ep: "map nv_endpoint (nodes_view sample clock ?s) = map fst (ni_all (node_ids ?s))"
    by (simp add: nodes_view_def node_view_def Let_def comp_def split_beta)
  have ids: "map nv_node_id (nodes_view sample clock ?s) = map snd (ni_all (node_ids ?s))"
    by (simp add: nodes_view_def node_view_def Let_def comp_def split_beta)
  have "mset (map fst (ni_all (node_ids ?s))) = mset (map fst (by_endpoint (node_ids ?s)))"
    by (simp add: ni_all_def)
  then have "distinct (map fst (ni_all (node_ids ?s)))"
    using wf(2) unfolding ids_wf_def by (metis mset_eq_imp_distinct_iff)
  moreover have "set (map fst (ni_all (node_ids ?s))) = {n. known n ?s}"
    by (auto simp: ni_all_def known_def ni_get_def map_of_eq_None_iff)
  moreover have "sorted (map snd (ni_all (node_ids ?s)))"
  proof -
    have "(\<lambda>(e :: string, i :: u32). i) = snd" by auto
    then show ?thesis unfolding ni_all_def by (metis sorted_sort_key)
  qed
  moreover have "list_all (truthful ?s) (nodes_view sample clock ?s)"
    unfolding nodes_view_def using truthful_node_view [OF wf(1)] view_of [OF _ wf(2)]
    by (auto simp: list_all_iff)
  ultimately show ?thesis by (simp only: Let_def ep ids)
qed

end
