(* ===== verification/Keystore.thy ===== *)
theory Keystore
  imports Diagnostics
begin

text \<open>
  \<open>src/keys.rs\<close>: the API-key store with its scopes, and the mint and revoke decisions of
  \<open>src/serve/control.rs\<close>. The digest function is an argument (\<open>hash\<close>): SHA-256 in hex.
  Comparing two digests in constant time is comparing them. Time is an argument; a file is
  its contents, and writing one either succeeds (temporary file, then rename) or leaves it.
\<close>

datatype Scope = ChatScope | ModelsScope | AdminScope

definition scope_parse :: "string \<Rightarrow> Scope option" where
  "scope_parse s =
     (let t = to_ascii_lowercase (trim s) in
      if t = ''chat'' then Some ChatScope
      else if t = ''models'' then Some ModelsScope
      else if t = ''admin'' then Some AdminScope
      else None)"

record ApiKey =
  sha256 :: string
  key_label :: string
  scopes :: "Scope list"
  created_at_ms :: "u64 option"
  last_used_ms :: "u64 option"
  hidden :: bool

definition grants :: "Scope \<Rightarrow> ApiKey \<Rightarrow> bool" where
  "grants required k = list_ex (\<lambda>s. s = AdminScope \<or> s = required) (scopes k)"

type_synonym ApiKeys = "ApiKey list"

subsection \<open>The store\<close>

definition visible :: "ApiKeys \<Rightarrow> ApiKeys" where
  "visible ks = filter (\<lambda>k. \<not> hidden k) ks"

text \<open>What is written: the visible keys. What is read back never has the flag set, whatever
  the file says.\<close>

definition saved :: "ApiKeys \<Rightarrow> ApiKeys" where
  "saved ks = visible ks"

definition loaded_keys :: "ApiKeys option \<Rightarrow> ApiKeys" where
  "loaded_keys file = (case file of None \<Rightarrow> [] | Some ks \<Rightarrow> map (\<lambda>k. k\<lparr>hidden := False\<rparr>) ks)"

definition new_key :: "(string \<Rightarrow> string) \<Rightarrow> u64 \<Rightarrow> bool \<Rightarrow> string \<Rightarrow> string \<Rightarrow> Scope list \<Rightarrow> ApiKey" where
  "new_key hash now hid token label ss =
     \<lparr>sha256 = hash token, key_label = label, scopes = ss, created_at_ms = Some now,
      last_used_ms = None, hidden = hid\<rparr>"

definition add_key ::
  "(string \<Rightarrow> string) \<Rightarrow> u64 \<Rightarrow> string \<Rightarrow> string \<Rightarrow> Scope list \<Rightarrow> ApiKeys \<Rightarrow> ApiKeys" where
  "add_key hash now token label ss ks =
     filter (\<lambda>k. sha256 k \<noteq> hash token) ks @ [new_key hash now False token label ss]"

definition add_internal ::
  "(string \<Rightarrow> string) \<Rightarrow> u64 \<Rightarrow> string \<Rightarrow> string \<Rightarrow> Scope list \<Rightarrow> ApiKeys \<Rightarrow> ApiKeys" where
  "add_internal hash now token label ss ks =
     (if trim token = [] then ks
      else filter (\<lambda>k. sha256 k \<noteq> hash token \<and> \<not> (hidden k \<and> key_label k = label)) ks
           @ [new_key hash now True token label ss])"

definition remove_label :: "string \<Rightarrow> ApiKeys \<Rightarrow> nat \<times> ApiKeys" where
  "remove_label label ks =
     (let ks' = filter (\<lambda>k. hidden k \<or> key_label k \<noteq> label) ks
      in (length ks - length ks', ks'))"

text \<open>The scan keeps the first match and looks at every key.\<close>

fun authorizing_scan :: "string \<Rightarrow> Scope \<Rightarrow> string option \<Rightarrow> ApiKeys \<Rightarrow> string option" where
  "authorizing_scan presented required found [] = found"
| "authorizing_scan presented required found (k # ks) =
     authorizing_scan presented required
       (if length (sha256 k) = length presented \<and> sha256 k = presented \<and> grants required k
           \<and> found = None
        then Some (sha256 k) else found) ks"

definition authorizing_sha :: "(string \<Rightarrow> string) \<Rightarrow> string \<Rightarrow> Scope \<Rightarrow> ApiKeys \<Rightarrow> string option" where
  "authorizing_sha hash token required ks = authorizing_scan (hash token) required None ks"

definition authorizes :: "(string \<Rightarrow> string) \<Rightarrow> string \<Rightarrow> Scope \<Rightarrow> ApiKeys \<Rightarrow> bool" where
  "authorizes hash token required ks \<longleftrightarrow> ks = [] \<or> authorizing_sha hash token required ks \<noteq> None"

definition advances :: "u64 \<Rightarrow> u64 option \<Rightarrow> bool" where
  "advances now prev = (case prev of None \<Rightarrow> True | Some t \<Rightarrow> t < now)"

definition touch :: "string \<Rightarrow> u64 \<Rightarrow> ApiKeys \<Rightarrow> bool \<times> ApiKeys" where
  "touch sha now ks =
     (case List.find (\<lambda>k. sha256 k = sha) ks of
        None \<Rightarrow> (False, ks)
      | Some k \<Rightarrow>
          if advances now (last_used_ms k) then
            (True, update_first (\<lambda>k. sha256 k = sha) (\<lambda>k. k\<lparr>last_used_ms := Some now\<rparr>) ks)
          else (False, ks))"

subsection \<open>Decisions\<close>

datatype Mint = MintOk "Scope list" | Duplicate | MintUnauthorized | BootstrapNeedsAdmin

definition admin_bearer :: "(string \<Rightarrow> string) \<Rightarrow> string option \<Rightarrow> ApiKeys \<Rightarrow> bool" where
  "admin_bearer hash bearer ks =
     (case bearer of None \<Rightarrow> False | Some t \<Rightarrow> authorizes hash t AdminScope ks)"

definition decide_mint ::
  "(string \<Rightarrow> string) \<Rightarrow> ApiKeys \<Rightarrow> bool \<Rightarrow> string option \<Rightarrow> Scope list option \<Rightarrow> string \<Rightarrow> Mint" where
  "decide_mint hash ks trusted bearer requested label =
     (let bootstrap = (ks = []) in
      if \<not> trusted \<and> \<not> bootstrap \<and> \<not> admin_bearer hash bearer ks then MintUnauthorized
      else if list_ex (\<lambda>k. key_label k = label) ks then Duplicate
      else if bootstrap \<and> (case requested of None \<Rightarrow> False | Some ss \<Rightarrow> AdminScope \<notin> set ss)
        then BootstrapNeedsAdmin
      else MintOk (case requested of
                     Some ss \<Rightarrow> ss
                   | None \<Rightarrow> if bootstrap then [AdminScope] else [ChatScope, ModelsScope]))"

datatype Revoke = Removed nat | RevokeUnauthorized | RevokeLastKeyOnLan | RevokeLastAdminKey

definition is_admin :: "ApiKey \<Rightarrow> bool" where
  "is_admin k \<longleftrightarrow> AdminScope \<in> set (scopes k)"

definition decide_revoke ::
  "(string \<Rightarrow> string) \<Rightarrow> ApiKeys \<Rightarrow> bool \<Rightarrow> string option \<Rightarrow> string \<Rightarrow> bool \<Rightarrow> Revoke" where
  "decide_revoke hash ks trusted bearer label lan_exposed =
     (if \<not> trusted \<and> ks \<noteq> [] \<and> \<not> admin_bearer hash bearer ks then RevokeUnauthorized
      else
        let total = length (visible ks);
            hits = filter (\<lambda>k. key_label k = label) (visible ks);
            rest = filter (\<lambda>k. key_label k \<noteq> label) (visible ks);
            matching = length hits
        in if matching > 0 \<and> lan_exposed \<and> matching = total then RevokeLastKeyOnLan
           else if matching > 0 \<and> matching < total \<and> list_ex is_admin hits \<and> \<not> list_ex is_admin rest
             then RevokeLastAdminKey
           else Removed matching)"

definition label_char :: "char \<Rightarrow> bool" where
  "label_char c \<longleftrightarrow>
     (let n = (of_char c :: nat) in
      (48 \<le> n \<and> n \<le> 57) \<or> (65 \<le> n \<and> n \<le> 90) \<or> (97 \<le> n \<and> n \<le> 122)) \<or>
     c = CHR ''-'' \<or> c = CHR ''_'' \<or> c = CHR ''.''"

definition validate_key_label :: "string \<Rightarrow> bool" where
  "validate_key_label label \<longleftrightarrow>
     label \<noteq> [] \<and> length label \<le> 64 \<and> label \<noteq> ''.'' \<and> label \<noteq> ''..'' \<and>
     list_all label_char label"

subsection \<open>Facts\<close>

lemma find_append:
  "List.find p (xs @ ys) = opt_or (List.find p xs) (List.find p ys)"
  by (induction xs) simp_all

lemma authorizing_scan_found: "authorizing_scan h r (Some x) ks = Some x"
  by (induction ks) simp_all

lemma authorizing_scan_spec:
  "authorizing_scan h r None ks =
     (if \<exists>k \<in> set ks. sha256 k = h \<and> grants r k then Some h else None)"
  by (induction ks) (auto simp: authorizing_scan_found)

lemma authorizing_sha_iff:
  "authorizing_sha hash t r ks = Some x \<longleftrightarrow>
     x = hash t \<and> (\<exists>k \<in> set ks. sha256 k = hash t \<and> grants r k)"
  by (auto simp: authorizing_sha_def authorizing_scan_spec)

lemma authorizing_sha_None:
  "authorizing_sha hash t r ks = None \<longleftrightarrow> (\<forall>k \<in> set ks. sha256 k = hash t \<longrightarrow> \<not> grants r k)"
  by (auto simp: authorizing_sha_def authorizing_scan_spec)

lemma authorizes_iff:
  "authorizes hash t r ks \<longleftrightarrow> ks = [] \<or> (\<exists>k \<in> set ks. sha256 k = hash t \<and> grants r k)"
  by (auto simp: authorizes_def authorizing_sha_None)

lemma visible_simps [simp]:
  "visible [] = []" "visible (ks @ ls) = visible ks @ visible ls"
  by (simp_all add: visible_def)

lemma in_visible [simp]: "k \<in> set (visible ks) \<longleftrightarrow> k \<in> set ks \<and> \<not> hidden k"
  by (auto simp: visible_def)

lemma is_admin_grants: "is_admin k \<Longrightarrow> grants r k"
  by (auto simp: is_admin_def grants_def list_ex_iff)

lemma grants_admin_iff: "grants AdminScope k \<longleftrightarrow> is_admin k"
  by (auto simp: is_admin_def grants_def list_ex_iff)

lemma touch_maps:
  "map sha256 (snd (touch sha now ks)) = map sha256 ks"
  "map scopes (snd (touch sha now ks)) = map scopes ks"
  "map hidden (snd (touch sha now ks)) = map hidden ks"
  "map key_label (snd (touch sha now ks)) = map key_label ks"
  by (auto simp: touch_def map_update_first split: option.split)

lemma touch_eq_Nil [simp]: "snd (touch sha now ks) = [] \<longleftrightarrow> ks = []"
  using touch_maps(1) [of sha now ks] by (metis map_is_Nil_conv)

end
