(* ===== verification/Key_Facade.thy ===== *)
theory Key_Facade
  imports Keystore
begin

text \<open>
  The part of the \<open>Higgs\<close> facade (\<open>src/api.rs\<close>, \<open>src/api/embed.rs\<close>) that owns the live key
  store and the registry of \<open>/v1\<close> listeners: minting, revoking, the internal token, usage
  stamps, arming a listener for the LAN. Every operation runs under the \<open>keys_io\<close> lock or is
  one access, so it is one step; \<open>facade_step\<close> runs any of them. And the guards of the HTTP
  surface (\<open>src/serve/mod.rs\<close>) that read this state.

  Arguments: \<open>hash\<close> (SHA-256), \<open>dbg\<close> (Rust's debug format of a string), the time, and per
  mutation the error of writing the store, if it fails.
\<close>

subsection \<open>State\<close>

record ServeSlot =
  slot_id :: nat
  lan :: bool
  addr :: "string option"

record Facade =
  live_keys :: ApiKeys
  disk_keys :: "ApiKeys option"
  serves :: "ServeSlot list"
  next_serve_id :: nat
  rebind_reservations :: nat
  lan_override :: bool
  touch_throttle :: "string \<Rightarrow> u64 option"

definition lan_exposed :: "Facade \<Rightarrow> bool" where
  "lan_exposed s \<longleftrightarrow> lan_override s \<or> list_ex lan (serves s)"

subsection \<open>Mutations of the store\<close>

definition mutate_api_keys ::
  "io_error option \<Rightarrow> (ApiKeys \<Rightarrow> 'a \<times> ApiKeys) \<Rightarrow> Facade \<Rightarrow> (io_error + 'a) \<times> Facade" where
  "mutate_api_keys save f s =
     (let (out, keys) = f (live_keys s) in
      if keys \<noteq> live_keys s then
        (case save of
           Some e \<Rightarrow> (Inl e, s)
         | None \<Rightarrow> (Inr out, s\<lparr>disk_keys := Some (saved keys), live_keys := keys\<rparr>))
      else (Inr out, s))"

definition keystore_io_error :: "io_error \<Rightarrow> HiggsError" where
  "keystore_io_error e = PersistenceFailed ''api_keys'' ''api_keys.json'' e"

definition emdash :: string where
  "emdash = [CHR 0xE2, CHR 0x80, CHR 0x94]"

definition mint_key ::
  "(string \<Rightarrow> string) \<Rightarrow> (string \<Rightarrow> string) \<Rightarrow> u64 \<Rightarrow> string \<Rightarrow> io_error option \<Rightarrow> string \<Rightarrow>
   Scope list option \<Rightarrow> Facade \<Rightarrow> (HiggsError + Scope list) \<times> Facade" where
  "mint_key hash dbg now token save label requested s =
     (let label = trim label in
      if \<not> validate_key_label label then
        (Inl (InvalidKeyRequest (''invalid key label '' @ dbg label @ '' '' @ emdash @
          '' use 1-64 chars from [A-Za-z0-9._-] (the label must fit in a single URL path segment to be revocable)'')), s)
      else if requested = Some [] then
        (Inl (InvalidKeyRequest (''at least one scope required '' @ emdash @
          '' pass any of chat, models, admin'')), s)
      else
        case mutate_api_keys save
               (\<lambda>ks. let decision = decide_mint hash ks True None requested label in
                  (decision,
                   case decision of MintOk ss \<Rightarrow> add_key hash now token label ss ks | _ \<Rightarrow> ks)) s of
          (Inl e, s) \<Rightarrow> (Inl (keystore_io_error e), s)
        | (Inr outcome, s) \<Rightarrow>
            ((case outcome of
                MintOk ss \<Rightarrow> Inr ss
              | Duplicate \<Rightarrow>
                  Inl (InvalidKeyRequest (''a key labeled '' @ dbg label @ '' already exists '' @
                    emdash @ '' revoke it first''))
              | BootstrapNeedsAdmin \<Rightarrow>
                  Inl (InvalidKeyRequest (''the first API key must include the `admin` scope (it is the only key able to manage keys) '' @
                    emdash @ '' pass scopes: [\"admin\"], or omit scopes to default to admin''))
              | MintUnauthorized \<Rightarrow> Inl (OtherError ''HG042'')), s))"

definition revoke_key ::
  "(string \<Rightarrow> string) \<Rightarrow> (string \<Rightarrow> string) \<Rightarrow> io_error option \<Rightarrow> string \<Rightarrow> Facade \<Rightarrow>
   (HiggsError + nat \<times> bool) \<times> Facade" where
  "revoke_key hash dbg save label s =
     (case mutate_api_keys save
             (\<lambda>ks. let decision = decide_revoke hash ks True None label (lan_exposed s) in
                (decision,
                 case decision of Removed n \<Rightarrow> snd (remove_label label ks) | _ \<Rightarrow> ks)) s of
        (Inl e, s) \<Rightarrow> (Inl (keystore_io_error e), s)
      | (Inr outcome, s) \<Rightarrow>
          ((case outcome of
              RevokeLastKeyOnLan \<Rightarrow> Inl (LastKeyOnLan label)
            | RevokeLastAdminKey \<Rightarrow> Inl (LastAdminKey label)
            | RevokeUnauthorized \<Rightarrow> Inl (OtherError ''HG042'')
            | Removed n \<Rightarrow>
                if n = 0 then
                  Inl (InvalidKeyRequest (''no key labeled '' @ dbg label @ '' '' @ emdash @
                    '' nothing was revoked; list the keys for the current labels''))
                else Inr (n, live_keys s \<noteq> [])), s))"

definition register_internal_token ::
  "(string \<Rightarrow> string) \<Rightarrow> u64 \<Rightarrow> string \<Rightarrow> Scope list \<Rightarrow> Facade \<Rightarrow> Facade" where
  "register_internal_token hash now token ss s =
     s\<lparr>live_keys := add_internal hash now token ''jigglebot (internal)'' ss (live_keys s)\<rparr>"

definition THROTTLE_MS :: u64 where "THROTTLE_MS = 60000"

definition touch_api_key :: "u64 \<Rightarrow> string \<Rightarrow> Facade \<Rightarrow> Facade" where
  "touch_api_key now sha s =
     (if (case touch_throttle s sha of None \<Rightarrow> False | Some t \<Rightarrow> sat_sub now t < THROTTLE_MS) then s
      else s\<lparr>touch_throttle := (touch_throttle s)(sha \<mapsto> now),
             live_keys := snd (touch sha now (live_keys s))\<rparr>)"

subsection \<open>Listeners\<close>

definition register_serve :: "bool \<Rightarrow> string option \<Rightarrow> Facade \<Rightarrow> nat \<times> Facade" where
  "register_serve l a s =
     (next_serve_id s,
      s\<lparr>next_serve_id := next_serve_id s + 1,
        serves := serves s @ [\<lparr>slot_id = next_serve_id s, lan = l, addr = a\<rparr>]\<rparr>)"

definition set_lan :: "nat \<Rightarrow> Facade \<Rightarrow> Facade" where
  "set_lan i s = s\<lparr>serves := update_first (\<lambda>x. slot_id x = i) (\<lambda>x. x\<lparr>lan := True\<rparr>) (serves s)\<rparr>"

definition arm_lan_serve :: "nat \<Rightarrow> string \<Rightarrow> Facade \<Rightarrow> (HiggsError + unit) \<times> Facade" where
  "arm_lan_serve i bind s =
     (if live_keys s = [] then (Inl (LanBindWithoutKeys bind), s)
      else if \<not> list_ex is_admin (live_keys s) then (Inl (LanBindWithoutAdminKey bind), s)
      else (Inr (), set_lan i s))"

definition deregister_serve :: "nat \<Rightarrow> Facade \<Rightarrow> bool \<times> Facade" where
  "deregister_serve i s =
     (let rest = filter (\<lambda>x. slot_id x \<noteq> i) (serves s) in
      (rest = [] \<and> rebind_reservations s = 0, s\<lparr>serves := rest\<rparr>))"

definition bound_addr :: "Facade \<Rightarrow> string option" where
  "bound_addr s = (case serves s of [] \<Rightarrow> None | x # _ \<Rightarrow> addr x)"

text \<open>\<open>serve_v1\<close> up to the moment the listener serves: registration, and for an address
  beyond loopback the armed checks; a refused listener is deregistered, and the answer tells
  whether the caller must stop the facade.\<close>

definition serve_v1_start ::
  "bool \<Rightarrow> string option \<Rightarrow> string \<Rightarrow> Facade \<Rightarrow> ((HiggsError \<times> bool) + nat) \<times> Facade" where
  "serve_v1_start loopback a bind s =
     (let (i, s) = register_serve False a s in
      if loopback then (Inr i, s)
      else case arm_lan_serve i bind s of
          (Inr _, s) \<Rightarrow> (Inr i, s)
        | (Inl e, s) \<Rightarrow> (let (alone, s) = deregister_serve i s in (Inl (e, alone), s)))"

subsection \<open>Guards of the HTTP surface\<close>

definition required_scope :: "string \<Rightarrow> Scope option" where
  "required_scope path =
     (if path = ''/health'' then None
      else if path = ''/v1/chat/completions'' then Some ChatScope
      else if path = ''/v1/models'' then Some ModelsScope
      else if prefix ''/v1/'' path then Some AdminScope
      else None)"

text \<open>A header value is text when it has only visible ASCII, blanks and tabs.\<close>

definition header_to_str :: "string \<Rightarrow> string option" where
  "header_to_str v =
     (if list_all (\<lambda>c. let n = (of_char c :: nat) in (32 \<le> n \<and> n < 127) \<or> n = 9) v
      then Some v else None)"

definition strip_prefix :: "string \<Rightarrow> string \<Rightarrow> string option" where
  "strip_prefix p s = (if prefix p s then Some (drop (length p) s) else None)"

definition bearer_token :: "string option \<Rightarrow> string option" where
  "bearer_token authorization =
     (case Option.bind authorization header_to_str of
        None \<Rightarrow> None
      | Some v \<Rightarrow>
          map_option trim (opt_or (strip_prefix ''Bearer '' v) (strip_prefix ''bearer '' v)))"

datatype guard = Pass | Refuse HiggsError

definition auth_guard ::
  "(string \<Rightarrow> string) \<Rightarrow> u64 \<Rightarrow> string \<Rightarrow> string option \<Rightarrow> Facade \<Rightarrow> guard \<times> Facade" where
  "auth_guard hash now path authorization s =
     (case required_scope path of
        None \<Rightarrow> (Pass, s)
      | Some required \<Rightarrow>
          if live_keys s = [] then (Pass, s)
          else case Option.bind (bearer_token authorization)
                      (\<lambda>tok. authorizing_sha hash tok required (live_keys s)) of
              Some sha \<Rightarrow> (Pass, touch_api_key now sha s)
            | None \<Rightarrow> (Refuse Unauthorized, s))"

subsection \<open>Every schedule\<close>

datatype facade_op =
    OpMint u64 string "io_error option" string "Scope list option"
  | OpRevoke "io_error option" string
  | OpInternal u64 string "Scope list"
  | OpRequest u64 string "string option"
  | OpServe bool "string option" string
  | OpExit nat
  | OpOverride bool
  | OpReserve bool

definition set_lan_exposed :: "bool \<Rightarrow> Facade \<Rightarrow> Facade" where
  "set_lan_exposed b s = s\<lparr>lan_override := b\<rparr>"

definition reserve_rebind :: "bool \<Rightarrow> Facade \<Rightarrow> Facade" where
  "reserve_rebind on s =
     s\<lparr>rebind_reservations := (if on then rebind_reservations s + 1 else rebind_reservations s - 1)\<rparr>"

fun facade_step ::
  "(string \<Rightarrow> string) \<Rightarrow> (string \<Rightarrow> string) \<Rightarrow> Facade \<Rightarrow> facade_op \<Rightarrow> Facade" where
  "facade_step hash dbg s (OpMint now token save label req) =
     snd (mint_key hash dbg now token save label req s)"
| "facade_step hash dbg s (OpRevoke save label) = snd (revoke_key hash dbg save label s)"
| "facade_step hash dbg s (OpInternal now token ss) = register_internal_token hash now token ss s"
| "facade_step hash dbg s (OpRequest now path auth) = snd (auth_guard hash now path auth s)"
| "facade_step hash dbg s (OpServe loopback a bind) = snd (serve_v1_start loopback a bind s)"
| "facade_step hash dbg s (OpExit i) = snd (deregister_serve i s)"
| "facade_step hash dbg s (OpOverride b) = set_lan_exposed b s"
| "facade_step hash dbg s (OpReserve t) = reserve_rebind t s"

text \<open>The facade as the binary creates it: the keys of the file, no listener.\<close>

definition facade_start :: "ApiKeys option \<Rightarrow> Facade" where
  "facade_start file =
     \<lparr>live_keys = loaded_keys file, disk_keys = file, serves = [], next_serve_id = 0,
      rebind_reservations = 0, lan_override = False, touch_throttle = (\<lambda>_. None)\<rparr>"

definition facade_run ::
  "(string \<Rightarrow> string) \<Rightarrow> (string \<Rightarrow> string) \<Rightarrow> ApiKeys option \<Rightarrow> facade_op list \<Rightarrow> Facade" where
  "facade_run hash dbg file ops = foldl (facade_step hash dbg) (facade_start file) ops"

subsection \<open>Invariants\<close>

text \<open>A listener on the LAN has keys in front of it.\<close>

definition lan_safe :: "Facade \<Rightarrow> bool" where
  "lan_safe s \<longleftrightarrow> (list_ex lan (serves s) \<longrightarrow> live_keys s \<noteq> [])"

definition no_hidden :: "ApiKeys option \<Rightarrow> bool" where
  "no_hidden file \<longleftrightarrow> (\<forall>ks. file = Some ks \<longrightarrow> (\<forall>k \<in> set ks. \<not> hidden k))"

lemma mutate_cases:
  assumes "mutate_api_keys save f s = (r, t)" "f (live_keys s) = (out, ks)"
  shows "(t = s \<and> (r = Inr out \<and> ks = live_keys s \<or> (\<exists>e. save = Some e \<and> r = Inl e))) \<or>
    (save = None \<and> r = Inr out \<and> t = s\<lparr>disk_keys := Some (saved ks), live_keys := ks\<rparr>)"
  using assms by (auto simp: mutate_api_keys_def split: option.splits if_splits)

lemma mint_key_cases:
  assumes "mint_key hash dbg now token save label req s = (r, t)"
  shows "(\<exists>e. r = Inl e \<and> t = s) \<or>
    (\<exists>ss. r = Inr ss \<and> decide_mint hash (live_keys s) True None req (trim label) = MintOk ss \<and>
       validate_key_label (trim label) \<and> ss \<noteq> [] \<and>
       (let ks = add_key hash now token (trim label) ss (live_keys s) in
        t = s\<lparr>disk_keys := Some (saved ks), live_keys := ks\<rparr> \<or> (t = s \<and> ks = live_keys s)))"
  using assms
  by (auto simp: mint_key_def mutate_api_keys_def Let_def decide_mint_def
      split: if_splits option.splits Mint.splits)

lemma revoke_key_cases:
  assumes "revoke_key hash dbg save label s = (r, t)"
  shows "(\<exists>e. r = Inl e \<and> t = s) \<or>
    (\<exists>n. decide_revoke hash (live_keys s) True None label (lan_exposed s) = Removed n \<and> 0 < n \<and>
       (let ks = snd (remove_label label (live_keys s)) in
        r = Inr (n, ks \<noteq> []) \<and>
        (t = s\<lparr>disk_keys := Some (saved ks), live_keys := ks\<rparr> \<or> (t = s \<and> ks = live_keys s))))"
proof (cases "decide_revoke hash (live_keys s) True None label (lan_exposed s)")
  case (Removed n)
  have n: "n = length (filter (\<lambda>k. key_label k = label) (visible (live_keys s)))"
    using Removed by (auto simp: decide_revoke_def Let_def split: if_splits)
  have same: "snd (remove_label label (live_keys s)) = live_keys s" if "n = 0"
    using that n
    by (auto simp: remove_label_def Let_def visible_def filter_empty_conv intro!: filter_True)
  show ?thesis
  proof (cases "n = 0")
    case True
    with Removed same assms show ?thesis by (auto simp: revoke_key_def mutate_api_keys_def Let_def)
  next
    case False
    with Removed assms show ?thesis
      by (auto simp: revoke_key_def mutate_api_keys_def Let_def split: if_splits option.splits)
  qed
qed (use assms in \<open>auto simp: revoke_key_def mutate_api_keys_def Let_def\<close>)

lemma add_key_not_Nil [simp]: "add_key hash now token label ss ks \<noteq> []"
  by (simp add: add_key_def)

lemma add_internal_not_Nil: "ks \<noteq> [] \<Longrightarrow> add_internal hash now token label ss ks \<noteq> []"
  by (simp add: add_internal_def)

lemma lan_safe_mint: "lan_safe s \<Longrightarrow> lan_safe (snd (mint_key hash dbg now token save label req s))"
  using mint_key_cases [of hash dbg now token save label req s]
  by (cases "mint_key hash dbg now token save label req s") (auto simp: lan_safe_def Let_def)

text \<open>A revoke that empties the store removed every visible key and no key is hidden, which the
  decision refuses on a LAN.\<close>

lemma revoke_keeps_a_key:
  assumes "decide_revoke hash ks True None label True = Removed n" "0 < n"
  shows "snd (remove_label label ks) \<noteq> []"
proof
  assume e: "snd (remove_label label ks) = []"
  then have "\<forall>k \<in> set ks. \<not> hidden k \<and> key_label k = label"
    by (auto simp: remove_label_def Let_def filter_empty_conv)
  then have "filter (\<lambda>k. key_label k = label) (visible ks) = visible ks"
    by (intro filter_True) auto
  with assms show False by (auto simp: decide_revoke_def Let_def split: if_splits)
qed

lemma lan_safe_revoke:
  assumes "lan_safe s"
  shows "lan_safe (snd (revoke_key hash dbg save label s))"
proof (cases "list_ex lan (serves s)")
  case True
  then have "lan_exposed s" by (simp add: lan_exposed_def)
  then show ?thesis
    using revoke_key_cases [of hash dbg save label s] assms revoke_keeps_a_key
    by (cases "revoke_key hash dbg save label s") (fastforce simp: lan_safe_def Let_def)
next
  case False
  then show ?thesis
    using revoke_key_cases [of hash dbg save label s] assms
    by (cases "revoke_key hash dbg save label s") (auto simp: lan_safe_def Let_def)
qed

lemma live_keys_touch [simp]: "live_keys (touch_api_key now sha s) = [] \<longleftrightarrow> live_keys s = []"
  by (simp add: touch_api_key_def split: option.split)

lemma touch_api_key_simps [simp]:
  "serves (touch_api_key now sha s) = serves s"
  "disk_keys (touch_api_key now sha s) = disk_keys s"
  by (simp_all add: touch_api_key_def split: option.split)

lemma lan_filter: "list_ex lan (filter p xs) \<Longrightarrow> list_ex lan xs"
  by (auto simp: list_ex_iff)

lemma lan_safe_step:
  assumes "lan_safe s"
  shows "lan_safe (facade_step hash dbg s op)"
proof (cases op)
  case (OpMint now token save label req)
  with assms show ?thesis by (simp add: lan_safe_mint)
next
  case (OpRevoke save label)
  with assms show ?thesis by (simp add: lan_safe_revoke)
next
  case (OpRequest now path auth)
  with assms show ?thesis
    by (auto simp: lan_safe_def auth_guard_def split: option.split)
next
  case (OpServe loopback a bind)
  with assms show ?thesis
    by (auto simp: lan_safe_def serve_v1_start_def register_serve_def arm_lan_serve_def
        deregister_serve_def set_lan_def Let_def list_ex_append dest: lan_filter)
next
  case (OpExit i)
  with assms show ?thesis
    by (auto simp: lan_safe_def deregister_serve_def Let_def dest: lan_filter)
qed (use assms in \<open>auto simp: lan_safe_def register_internal_token_def
      add_internal_not_Nil set_lan_exposed_def reserve_rebind_def\<close>)

lemma lan_safe_run: "lan_safe (facade_run hash dbg file ops)"
  unfolding facade_run_def
proof (induction ops rule: rev_induct)
  case Nil
  then show ?case by (simp add: lan_safe_def facade_start_def)
next
  case (snoc op ops)
  then show ?case by (simp add: lan_safe_step)
qed

text \<open>The file never holds a hidden key.\<close>

lemma no_hidden_saved: "no_hidden (Some (saved ks))"
  by (simp add: no_hidden_def saved_def)

lemma no_hidden_step:
  assumes "no_hidden (disk_keys s)"
  shows "no_hidden (disk_keys (facade_step hash dbg s op))"
proof (cases op)
  case (OpMint now token save label req)
  with assms no_hidden_saved mint_key_cases [of hash dbg now token save label req s]
  show ?thesis by (cases "mint_key hash dbg now token save label req s") (auto simp: Let_def)
next
  case (OpRevoke save label)
  with assms no_hidden_saved revoke_key_cases [of hash dbg save label s]
  show ?thesis by (cases "revoke_key hash dbg save label s") (auto simp: Let_def)
qed (use assms in \<open>auto simp: register_internal_token_def auth_guard_def serve_v1_start_def
      register_serve_def arm_lan_serve_def set_lan_def deregister_serve_def Let_def
      set_lan_exposed_def reserve_rebind_def split: option.split\<close>)

lemma no_hidden_run: "no_hidden file \<Longrightarrow> no_hidden (disk_keys (facade_run hash dbg file ops))"
  unfolding facade_run_def
proof (induction ops rule: rev_induct)
  case Nil
  then show ?case by (simp add: facade_start_def)
next
  case (snoc op ops)
  then show ?case by (simp add: no_hidden_step)
qed

subsection \<open>Properties\<close>

definition demo_hash :: "string \<Rightarrow> string" where "demo_hash t = ''#'' @ t"
definition demo_dbg :: "string \<Rightarrow> string" where "demo_dbg t = t"

definition demo_ops :: "facade_op list" where
  "demo_ops = [OpMint 1 ''t'' None ''ci'' None, OpServe False None ''lan'']"

text \<open>C15. The LAN surface is never open. In every schedule of mints, revokes, internal
  tokens, requests and listeners starting and ending, from any key file, as long as a listener
  beyond loopback lives, a request to a guarded path is let through only with a bearer token
  whose digest is stored with the scope the path needs; other paths need no key.\<close>

theorem lan_requests_are_authorized:
  assumes "s = facade_run hash dbg file ops" "list_ex lan (serves s)"
    "required_scope path = Some r" "fst (auth_guard hash now path auth s) = Pass"
  shows "\<exists>tok k. bearer_token auth = Some tok \<and> k \<in> set (live_keys s) \<and>
    sha256 k = hash tok \<and> grants r k"
proof -
  have "live_keys s \<noteq> []"
    using assms(2) lan_safe_run unfolding assms(1) lan_safe_def by blast
  with assms(3,4) obtain sha where
    "Option.bind (bearer_token auth) (\<lambda>tok. authorizing_sha hash tok r (live_keys s)) = Some sha"
    by (auto simp: auth_guard_def split: option.splits)
  then obtain tok where "bearer_token auth = Some tok"
    "authorizing_sha hash tok r (live_keys s) = Some sha"
    by (cases "bearer_token auth") auto
  then show ?thesis by (auto simp: authorizing_sha_iff)
qed

theorem lan_requests_are_authorized_witness:
  "\<exists>k \<in> set (live_keys (facade_run demo_hash demo_dbg None demo_ops)).
     sha256 k = ''#t'' \<and> grants ChatScope k"
proof -
  let ?s = "facade_run demo_hash demo_dbg None demo_ops"
  have trim: "trim ''ci'' = ''ci''" "trim ''t'' = ''t''"
    by (simp_all add: trim_graphic graphic_def)
  have valid: "validate_key_label ''ci''" by code_simp
  have mint: "snd (mint_key demo_hash demo_dbg 1 ''t'' None ''ci'' None (facade_start None)) =
      (facade_start None)\<lparr>disk_keys := Some [new_key demo_hash 1 False ''t'' ''ci'' [AdminScope]],
         live_keys := [new_key demo_hash 1 False ''t'' ''ci'' [AdminScope]]\<rparr>"
    using valid
    by (simp add: mint_key_def trim mutate_api_keys_def decide_mint_def add_key_def
        facade_start_def loaded_keys_def saved_def visible_def new_key_def Let_def)
  have start: "serves (facade_start None) = []" "next_serve_id (facade_start None) = 0"
    by (simp_all add: facade_start_def)
  have keys: "live_keys ?s = [new_key demo_hash 1 False ''t'' ''ci'' [AdminScope]]"
    "list_ex lan (serves ?s)"
    by (simp_all add: facade_run_def demo_ops_def mint serve_v1_start_def register_serve_def
        arm_lan_serve_def is_admin_def new_key_def set_lan_def start)
  have tok: "bearer_token (Some ''Bearer t'') = Some ''t''"
    using trim(2) by (simp add: bearer_token_def header_to_str_def strip_prefix_def)
  have "fst (auth_guard demo_hash 5 ''/v1/chat/completions'' (Some ''Bearer t'') ?s) = Pass"
    "required_scope ''/v1/chat/completions'' = Some ChatScope"
    using keys tok
    by (simp_all add: auth_guard_def required_scope_def authorizing_sha_def new_key_def
        grants_def demo_hash_def)
  from lan_requests_are_authorized [OF refl keys(2) this(2,1)] tok
  show ?thesis by (auto simp: demo_hash_def)
qed

text \<open>A successful mint adds exactly one credential: the new token is authorised for the
  granted scopes (everything, if they include admin) and nothing else, no other token gains or
  loses a right while auth was on, the first key ever can manage keys, and the file holds
  exactly the visible keys. A refused mint changes nothing.\<close>

theorem mint_key_effect:
  assumes m: "mint_key hash dbg now token save label req s = (r, t)"
  shows "(\<forall>e. r = Inl e \<longrightarrow> t = s) \<and>
    (\<forall>ss. r = Inr ss \<longrightarrow>
       (\<forall>q. authorizes hash token q (live_keys t) \<longleftrightarrow> q \<in> set ss \<or> AdminScope \<in> set ss) \<and>
       (\<forall>tok q. hash tok \<noteq> hash token \<longrightarrow> live_keys s \<noteq> [] \<longrightarrow>
          authorizes hash tok q (live_keys t) = authorizes hash tok q (live_keys s)) \<and>
       (live_keys s = [] \<longrightarrow> AdminScope \<in> set ss) \<and>
       disk_keys t = Some (visible (live_keys t)))"
  using mint_key_cases [OF m]
proof (elim disjE exE conjE)
  fix e
  assume "r = Inl e" "t = s"
  then show ?thesis by simp
next
  fix ss
  let ?ks = "add_key hash now token (trim label) ss (live_keys s)"
  assume r: "r = Inr ss" "ss \<noteq> []"
    and d: "decide_mint hash (live_keys s) True None req (trim label) = MintOk ss"
    and t: "let ks = ?ks in t = s\<lparr>disk_keys := Some (saved ks), live_keys := ks\<rparr> \<or>
      (t = s \<and> ks = live_keys s)"
  have "\<not> list_ex (\<lambda>k. key_label k = trim label) (live_keys s)"
    using d by (auto simp: decide_mint_def Let_def split: if_splits)
  then have "?ks \<noteq> live_keys s"
    by (auto simp: add_key_def new_key_def list_ex_iff)
       (metis in_set_conv_decomp ApiKey.select_convs(2))
  with t have t: "t = s\<lparr>disk_keys := Some (saved ?ks), live_keys := ?ks\<rparr>" by (simp add: Let_def)
  have "authorizes hash token q ?ks \<longleftrightarrow> q \<in> set ss \<or> AdminScope \<in> set ss" for q
    by (auto simp: authorizes_iff add_key_def new_key_def grants_def list_ex_iff)
  moreover have "authorizes hash tok q ?ks = authorizes hash tok q (live_keys s)"
    if "hash tok \<noteq> hash token" "live_keys s \<noteq> []" for tok q
    using that by (auto simp: authorizes_iff add_key_def new_key_def)
  moreover have "AdminScope \<in> set ss" if "live_keys s = []"
    using d that by (auto simp: decide_mint_def split: if_splits option.splits)
  ultimately show ?thesis using r(1) t by (simp add: saved_def)
qed

theorem mint_key_effect_witness:
  "live_keys (snd (mint_key demo_hash demo_dbg 1 ''t'' None ''ci'' (Some [ChatScope]) (facade_start None)))
     = []"
proof -
  have trim: "trim ''ci'' = ''ci''" by (simp add: trim_graphic graphic_def)
  have "\<exists>e. fst (mint_key demo_hash demo_dbg 1 ''t'' None ''ci'' (Some [ChatScope]) (facade_start None)) = Inl e"
    by (simp add: mint_key_def trim mutate_api_keys_def decide_mint_def Let_def facade_start_def
        loaded_keys_def validate_key_label_def label_char_def)
  then have "snd (mint_key demo_hash demo_dbg 1 ''t'' None ''ci'' (Some [ChatScope]) (facade_start None))
      = facade_start None"
    using mint_key_effect [of demo_hash demo_dbg 1 "''t''" None "''ci''" "Some [ChatScope]"
        "facade_start None"] by (metis prod.collapse)
  then show ?thesis by (simp add: facade_start_def loaded_keys_def)
qed

text \<open>A revoke removes exactly the visible keys of its label or nothing: after a success
  at least one key is gone, none visible with the label is left, every other key stays (the
  embedder's hidden key too), no admin is locked out while visible keys remain, on a LAN a
  visible key remains, and the file holds exactly the visible keys. A refusal changes
  nothing.\<close>

theorem revoke_key_effect:
  assumes v: "revoke_key hash dbg save label s = (r, t)"
  shows "(\<forall>e. r = Inl e \<longrightarrow> t = s) \<and>
    (\<forall>n on. r = Inr (n, on) \<longrightarrow>
       0 < n \<and> live_keys t = filter (\<lambda>k. hidden k \<or> key_label k \<noteq> label) (live_keys s) \<and>
       (on \<longleftrightarrow> live_keys t \<noteq> []) \<and>
       (list_ex is_admin (visible (live_keys s)) \<longrightarrow> visible (live_keys t) \<noteq> [] \<longrightarrow>
          list_ex is_admin (visible (live_keys t))) \<and>
       (lan_exposed s \<longrightarrow> visible (live_keys t) \<noteq> []) \<and>
       disk_keys t = Some (visible (live_keys t)))"
  using revoke_key_cases [OF v]
proof (elim disjE exE conjE)
  fix e
  assume "r = Inl e" "t = s"
  then show ?thesis by simp
next
  fix n
  let ?ks = "filter (\<lambda>k. hidden k \<or> key_label k \<noteq> label) (live_keys s)"
  let ?v = "visible (live_keys s)"
  let ?hits = "filter (\<lambda>k. key_label k = label) ?v"
  let ?rest = "filter (\<lambda>k. key_label k \<noteq> label) ?v"
  assume d: "decide_revoke hash (live_keys s) True None label (lan_exposed s) = Removed n" "0 < n"
    and t: "let ks = snd (remove_label label (live_keys s)) in
        r = Inr (n, ks \<noteq> []) \<and>
        (t = s\<lparr>disk_keys := Some (saved ks), live_keys := ks\<rparr> \<or> (t = s \<and> ks = live_keys s))"
  have n: "n = length ?hits"
    and lan: "lan_exposed s \<Longrightarrow> length ?hits \<noteq> length ?v"
    and adm: "length ?hits < length ?v \<Longrightarrow> list_ex is_admin ?hits \<Longrightarrow> list_ex is_admin ?rest"
    using d by (auto simp: decide_revoke_def Let_def split: if_splits)
  have ks: "snd (remove_label label (live_keys s)) = ?ks" by (simp add: remove_label_def Let_def)
  have vis: "visible ?ks = ?rest" by (auto simp: visible_def intro: filter_cong)
  have len: "length ?hits + length ?rest = length ?v"
    by (rule sum_length_filter_compl)
  obtain k where "k \<in> set ?hits" using n d(2) by (cases ?hits) auto
  then have "k \<in> set (live_keys s)" "k \<notin> set ?ks" by auto
  then have "?ks \<noteq> live_keys s" by metis
  with t ks have t: "r = Inr (n, ?ks \<noteq> [])"
    "t = s\<lparr>disk_keys := Some (saved ?ks), live_keys := ?ks\<rparr>" by (auto simp: Let_def)
  have "list_ex is_admin ?rest" if "list_ex is_admin ?v" "?rest \<noteq> []"
  proof -
    have "length ?hits < length ?v" using that(2) len by (cases ?rest) auto
    moreover have "list_ex is_admin ?hits \<or> list_ex is_admin ?rest"
      using that(1) unfolding list_ex_iff by auto blast
    ultimately show ?thesis using adm by blast
  qed
  moreover have "?rest \<noteq> []" if "lan_exposed s" using lan [OF that] len by auto
  ultimately show ?thesis using t d(2) vis by (simp add: saved_def)
qed

theorem revoke_key_effect_witness:
  "snd (revoke_key demo_hash demo_dbg None ''x'' (facade_start None)) = facade_start None"
proof -
  have "\<exists>e. fst (revoke_key demo_hash demo_dbg None ''x'' (facade_start None)) = Inl e"
    by (simp add: revoke_key_def mutate_api_keys_def decide_revoke_def Let_def facade_start_def
        loaded_keys_def remove_label_def)
  then show ?thesis
    using revoke_key_effect [of demo_hash demo_dbg None "''x''" "facade_start None"]
    by (metis prod.collapse)
qed

text \<open>The embedder's internal credential exists only in memory, and no stored credential is
  invisible: whatever the file says, after a start every key that authorises is listed and can
  be revoked, and no schedule ever writes a hidden key.\<close>

theorem hidden_keys_never_stored:
  "visible (live_keys (facade_start file)) = live_keys (facade_start file) \<and>
   (no_hidden file \<longrightarrow> no_hidden (disk_keys (facade_run hash dbg file ops)))"
  by (auto simp: facade_start_def loaded_keys_def visible_def no_hidden_run intro!: filter_True
      split: option.split)

theorem hidden_keys_never_stored_witness:
  "no_hidden (disk_keys (facade_run demo_hash demo_dbg None demo_ops))"
  using hidden_keys_never_stored [of None demo_hash demo_dbg demo_ops]
  by (simp add: no_hidden_def)

end
