(* ===== verification/Llama_Props.thy ===== *)
theory Llama_Props
  imports Llama_Engine
begin

text \<open>
  What the engine guarantees for every behaviour of the binding: loads forget the model and
  the error lines before them, a generation stays inside the window and the budget, no token
  is decoded outside the window, and the text streamed without a parser is the text returned.
\<close>

subsection \<open>A binding to run the model on\<close>

text \<open>Tokens are numbers, 0 ends the generation; the native state is the tokens to sample, and a
  prompt has one token per byte.\<close>

definition demo_llama :: "(unit, string, unit, nat, nat list) llama" where
  "demo_llama =
     \<lparr>load_from_file = (\<lambda>path calls w. (if path = ''/m.gguf'' then Inr () else Inl ''null result'',
        if path = ''/m.gguf'' then [] else [''unknown model architecture''], w)),
      devices_ok = (\<lambda>d. None), chat_template = (\<lambda>m. Inl ''none''),
      apply_oaicompat = (\<lambda>m t p. Inr (oai_messages p)), template_prompt = (\<lambda>t. t),
      streaming_state = (\<lambda>t. Inl ''no parser''), parser_update = (\<lambda>p t b. (Inl ''no parser'', p)),
      parse_response = (\<lambda>t s. Inl ''no parser''), read_json = (\<lambda>s. None), show_json = (\<lambda>j. []),
      parse_f64 = (\<lambda>s. None), n_ctx_train = (\<lambda>m. 32), str_to_token = (\<lambda>m s. Inr (map (\<lambda>c. 1) s)),
      new_context = (\<lambda>m c w. (None, w)), batch_add = (\<lambda>n b s. None), decode_batch = (\<lambda>b w. (None, w)),
      random_u32 = (\<lambda>w. (7, w)), chain_simple = (\<lambda>c w. w),
      sample_accept = (\<lambda>i w. case w of [] \<Rightarrow> (0, []) | t # ts \<Rightarrow> (t, ts)), is_eog_token = (\<lambda>m t. t = 0),
      token_to_piece = (\<lambda>m t w. (Inr [char_of (64 + t)], w)), flush_decoder = (\<lambda>w. ([], w)),
      backend_devices = (\<lambda>w. [])\<rparr>"

definition demo_gen :: "nat \<Rightarrow> GenParams" where
  "demo_gen n = \<lparr>max_tokens = n, gen_sampling = sampling_default, tools_json = None, chat_template_kwargs = None\<rparr>"

definition demo_engine :: "nat list \<Rightarrow> (unit, nat list) LlamaCppEngine" where
  "demo_engine w =
     \<lparr>resident_model = Some ((), params_base (Fixed 8) All 4), diagnostics = [], native = w\<rparr>"

subsection \<open>Loading\<close>

lemma record_line_bound: "length buf \<le> 64 \<Longrightarrow> length (record_engine_diagnostic l buf) \<le> 64"
  by (simp add: record_engine_diagnostic_def MAX_ENGINE_DIAGNOSTICS_def)

lemma record_lines:
  "length buf \<le> 64 \<Longrightarrow> fold record_engine_diagnostic ls buf = take 64 (buf @ ls)"
proof (induction ls arbitrary: buf)
  case (Cons l ls)
  show ?case
  proof (cases "length buf < 64")
    case True
    then obtain k where "64 - length buf = Suc k" by (metis Suc_diff_Suc)
    with Cons.IH [of "buf @ [l]"] True show ?thesis
      by (simp add: record_engine_diagnostic_def MAX_ENGINE_DIAGNOSTICS_def)
  qed (use Cons in \<open>simp add: record_engine_diagnostic_def MAX_ENGINE_DIAGNOSTICS_def\<close>)
qed simp

text \<open>A load depends on nothing that was there before it: neither the model that was resident
  nor error lines the engine printed earlier. Afterwards a model is resident exactly if the load
  succeeded, with the parameters of this load; a failure names this path, and its reason is the
  first 64 lines the engine printed during this load, or the binding's text when it printed none.\<close>

theorem load_forgets_the_past:
  "llama_load ll path p s = llama_load ll path p \<lparr>resident_model = None, diagnostics = [], native = native s\<rparr> \<and>
   (case llama_load ll path p s of
      (None, s') \<Rightarrow> (\<exists>m. resident_model s' = Some (m, p))
    | (Some e, s') \<Rightarrow>
        resident_model s' = None \<and> diagnostics s' = [] \<and>
        (\<exists>why. Option.bind (devices p) (devices_ok ll) = Some why \<and> e = EngineLoadFailed path why \<or>
           (\<exists>calls lines w. load_from_file ll path calls (native s) = (Inl why, lines, w) \<and>
              e = EngineLoadFailed path (if lines = [] then why else join_with ''; '' (take 64 lines)))))"
proof -
  have "s\<lparr>resident_model := None, diagnostics := []\<rparr> =
      \<lparr>resident_model = None, diagnostics = [], native = native s\<rparr>"
    by (cases s) simp
  then show ?thesis
    by (auto simp: llama_load_def Let_def load_failure_def record_lines split: option.split prod.split sum.split)
qed

subsection \<open>The loop\<close>

lemma emit_text_frame [simp]:
  "n_cur (emit_text ll piece s) = n_cur s"
  "batch_n_tokens (emit_text ll piece s) = batch_n_tokens s"
  "ctx_native (emit_text ll piece s) = ctx_native s"
  by (simp_all add: emit_text_def split: prod.split)

lemma decode_round_end:
  "decode_round ll m cap limit s = (Some (Inr r), s') \<Longrightarrow>
     (r = ''stop'' \<and> n_generated s' = n_generated s) \<or>
     (r = ''length'' \<and> n_generated s' = n_generated s + 1 \<and> limit \<le> n_generated s')"
  unfolding decode_round_def Let_def
  by (cases "sample_accept ll (batch_n_tokens s - 1) (ctx_native s)")
     (simp split: prod.splits if_splits sum.splits option.splits; elim conjE; hypsubst; simp)

lemma decode_loop_count:
  "n_generated s < limit \<Longrightarrow> decode_loop ll m cap limit s = (Inr r, s') \<Longrightarrow>
     (r = ''stop'' \<and> n_generated s' < limit) \<or> (r = ''length'' \<and> n_generated s' = limit)"
proof (induction ll m cap limit s rule: decode_loop.induct)
  case (1 ll m cap limit s)
  obtain o' s1 where round: "decode_round ll m cap limit s = (o', s1)" by fastforce
  show ?case
  proof (cases o')
    case None
    with round have "n_generated s1 < limit" by (auto dest: decode_round_progress)
    moreover from None round 1(3) have "decode_loop ll m cap limit s1 = (Inr r, s')"
      by (simp add: decode_loop.simps [of ll m cap limit s])
    ultimately show ?thesis using 1(1) [of o' s1] round None by simp
  next
    case (Some x)
    with round 1(3) have "decode_round ll m cap limit s = (Some (Inr r), s')"
      by (simp add: decode_loop.simps [of ll m cap limit s])
    from decode_round_end [OF this] 1(2) show ?thesis by auto
  qed
qed

lemma finish_count: "finish_decode ll r s = (out, ds, w) \<Longrightarrow>
    out_finish_reason out = r \<and> out_n_generated out = n_generated s"
  by (auto simp: finish_decode_def Let_def split: prod.splits)

lemma run_decode_count:
  assumes "run_decode ll m lp tokens gen st w = (Inr out, ds, w')" "0 < max_tokens gen"
  shows "(out_finish_reason out = ''stop'' \<and> out_n_generated out < max_tokens gen) \<or>
    (out_finish_reason out = ''length'' \<and> out_n_generated out = max_tokens gen)"
  using assms
  by (auto simp: run_decode_def split: prod.splits option.splits sum.splits
      dest!: finish_count decode_loop_count [rotated])

lemma chat_result:
  assumes "llama_chat ll messages gen s = (Inr r, ds, s')"
  shows "\<exists>m lp prompt tokens fitted n.
    resident_model s = Some (m, lp) \<and> resident_model s' = Some (m, lp) \<and>
    fit_check ll m prompt lp gen = Inr (tokens, fitted) \<and>
    prompt_tokens r = of_nat (length tokens) \<and> completion_tokens r = of_nat n \<and>
    (if max_tokens gen = 0 then n = 0 \<and> finish_reason r = ''length''
     else finish_reason r = ''stop'' \<and> n < fitted \<or> finish_reason r = ''length'' \<and> n = fitted)"
proof -
  obtain m lp t tokens fitted where
    a: "resident_model s = Some (m, lp)" "fit_check ll m (template_prompt ll t) lp gen = Inr (tokens, fitted)"
      "(if max_tokens gen = 0
        then (Inr \<lparr>res_content = [], finish_reason = ''length'', res_tool_calls = None,
                  prompt_tokens = of_nat (length tokens), completion_tokens = 0,
                  reasoning_content = None\<rparr>, [], s)
        else
          (case run_decode ll m lp tokens (gen\<lparr>max_tokens := fitted\<rparr>)
                  (case streaming_state ll t of Inr p \<Rightarrow> Some p | Inl e \<Rightarrow> None) (native s) of
             (Inl e, ds, w) \<Rightarrow> (Inl e, ds, s\<lparr>native := w\<rparr>)
           | (Inr out, ds, w) \<Rightarrow>
               (let parsed = parse_output ll t (out_full out)
                in (Inr \<lparr>res_content = out_content parsed, finish_reason = out_finish_reason out,
                         res_tool_calls = out_tool_calls parsed,
                         prompt_tokens = of_nat (length tokens),
                         completion_tokens = of_nat (out_n_generated out),
                         reasoning_content = out_reasoning parsed\<rparr>, ds, s\<lparr>native := w\<rparr>)))) = (Inr r, ds, s')"
    using assms unfolding llama_chat_def by (auto split: option.splits prod.splits sum.splits)
  show ?thesis
  proof (cases "max_tokens gen = 0")
    case True
    with a(3) have "s' = s" "prompt_tokens r = of_nat (length tokens)" "completion_tokens r = of_nat 0"
      "finish_reason r = ''length''" by auto
    with a(1,2) True show ?thesis by metis
  next
    case False
    with a(3) obtain st out w where
      run: "run_decode ll m lp tokens (gen\<lparr>max_tokens := fitted\<rparr>) st (native s) = (Inr out, ds, w)"
      and r: "finish_reason r = out_finish_reason out" "prompt_tokens r = of_nat (length tokens)"
        "completion_tokens r = of_nat (out_n_generated out)" "resident_model s' = Some (m, lp)"
      using a(1) by (auto simp: Let_def split: prod.splits sum.splits)
    have "0 < fitted" using a(2) by (auto simp: fit_check_def Let_def split: sum.splits if_splits)
    then have "(out_finish_reason out = ''stop'' \<and> out_n_generated out < fitted) \<or>
        (out_finish_reason out = ''length'' \<and> out_n_generated out = fitted)"
      using run_decode_count [OF run] by simp
    with a(1,2) r False show ?thesis by metis
  qed
qed

text \<open>C21. A chat that returns has stayed inside the window the model was loaded with and inside the
  caller's budget: prompt and completion together fit the window, and the finish reason is
  \<open>length\<close> exactly when every token of the budget, cut to the room the prompt leaves, was used.\<close>

theorem chat_inside_window:
  "case llama_chat ll messages gen s of
     (Inl e, _, _) \<Rightarrow> True
   | (Inr r, _, s') \<Rightarrow>
       (\<exists>m lp. resident_model s = Some (m, lp) \<and> resident_model s' = Some (m, lp) \<and>
          (let window = unat (effective_n_ctx ll lp m); used = unat (prompt_tokens r) in
             used < window \<and> used + unat (completion_tokens r) \<le> window \<and>
             unat (completion_tokens r) \<le> max_tokens gen \<and>
             finish_reason r =
               (if unat (completion_tokens r) = min (max_tokens gen) (window - used)
                then ''length'' else ''stop'')))"
proof -
  have small: "unat (of_nat k :: u32) = k" if "k \<le> unat (n :: u32)" for k n
  proof -
    have "unat n < 2 ^ LENGTH(32)" by (rule unsigned_less)
    with that show ?thesis by (simp add: unsigned_of_nat take_bit_nat_eq_self)
  qed
  have ok: "\<exists>m lp. resident_model s = Some (m, lp) \<and> resident_model s' = Some (m, lp) \<and>
      (let window = unat (effective_n_ctx ll lp m); used = unat (prompt_tokens r) in
         used < window \<and> used + unat (completion_tokens r) \<le> window \<and>
         unat (completion_tokens r) \<le> max_tokens gen \<and>
         finish_reason r =
           (if unat (completion_tokens r) = min (max_tokens gen) (window - used)
            then ''length'' else ''stop''))"
    if run: "llama_chat ll messages gen s = (Inr r, ds, s')" for r ds s'
  proof -
    from chat_result [OF run] obtain m lp prompt tokens fitted n where
      c: "resident_model s = Some (m, lp)" "resident_model s' = Some (m, lp)"
        "fit_check ll m prompt lp gen = Inr (tokens, fitted)"
        "prompt_tokens r = of_nat (length tokens)" "completion_tokens r = of_nat n"
        "if max_tokens gen = 0 then n = 0 \<and> finish_reason r = ''length''
         else finish_reason r = ''stop'' \<and> n < fitted \<or> finish_reason r = ''length'' \<and> n = fitted"
      by blast
    define window where "window = unat (effective_n_ctx ll lp m)"
    have fit: "length tokens < window" "fitted = max (min (max_tokens gen) (window - length tokens)) 1"
      using c(3) by (auto simp: fit_check_def Let_def window_def split: sum.splits if_splits)
    have n: "n \<le> window - length tokens" "n \<le> max_tokens gen"
      "finish_reason r = (if n = min (max_tokens gen) (window - length tokens) then ''length'' else ''stop'')"
      using c(6) fit by (auto split: if_splits)
    have "unat (prompt_tokens r) = length tokens" "unat (completion_tokens r) = n"
      using c(4,5) fit(1) n(1) by (simp_all add: small [of _ "effective_n_ctx ll lp m"] window_def)
    with c(1,2) fit(1) n show ?thesis
      by (auto simp: Let_def window_def [symmetric])
  qed
  obtain r ds s' where run: "llama_chat ll messages gen s = (r, ds, s')" by (rule prod_cases3)
  show ?thesis
  proof (cases r)
    case (Inr x)
    from ok [OF run [unfolded Inr]] show ?thesis unfolding run Inr by (simp only: prod.case sum.case)
  qed (simp add: run)
qed

text \<open>The binding with a check before each decode: no position outside the window.\<close>

definition in_window :: "nat \<Rightarrow> 'k slot \<Rightarrow> bool" where
  "in_window n = (\<lambda>(t, pos, l). 0 \<le> sint pos \<and> sint pos < int n)"

definition guarded :: "nat \<Rightarrow> ('m, 't, 'p, 'k, 'w) llama \<Rightarrow> ('m, 't, 'p, 'k, 'w) llama" where
  "guarded n ll =
     ll\<lparr>decode_batch := (\<lambda>b w. if list_all (in_window n) b then decode_batch ll b w
                                 else (Some ''position outside the window'', w))\<rparr>"

lemma guarded_simps [simp]:
  "chat_template (guarded n ll) = chat_template ll" "apply_oaicompat (guarded n ll) = apply_oaicompat ll"
  "template_prompt (guarded n ll) = template_prompt ll" "streaming_state (guarded n ll) = streaming_state ll"
  "parser_update (guarded n ll) = parser_update ll" "parse_response (guarded n ll) = parse_response ll"
  "read_json (guarded n ll) = read_json ll" "show_json (guarded n ll) = show_json ll"
  "n_ctx_train (guarded n ll) = n_ctx_train ll" "str_to_token (guarded n ll) = str_to_token ll"
  "new_context (guarded n ll) = new_context ll" "batch_add (guarded n ll) = batch_add ll"
  "random_u32 (guarded n ll) = random_u32 ll" "chain_simple (guarded n ll) = chain_simple ll"
  "sample_accept (guarded n ll) = sample_accept ll" "is_eog_token (guarded n ll) = is_eog_token ll"
  "token_to_piece (guarded n ll) = token_to_piece ll" "flush_decoder (guarded n ll) = flush_decoder ll"
  by (simp_all add: guarded_def)

lemma guarded_decode:
  "list_all (in_window n) b \<Longrightarrow> decode_batch (guarded n ll) b w = decode_batch ll b w"
  by (simp add: guarded_def)

lemma guarded_emit [simp]:
  "route_one (guarded n ll) = route_one ll" "route_parsed_deltas (guarded n ll) = route_parsed_deltas ll"
  "emit_text (guarded n ll) = emit_text ll"
proof -
  show 1: "route_one (guarded n ll) = route_one ll" by (simp add: fun_eq_iff route_one_def split: option.split)
  show 2: "route_parsed_deltas (guarded n ll) = route_parsed_deltas ll"
    by (simp add: fun_eq_iff route_parsed_deltas_def 1 split: prod.split sum.split)
  show "emit_text (guarded n ll) = emit_text ll" by (simp add: fun_eq_iff emit_text_def emit_piece_def 2 split: option.split prod.split)
qed

lemma guarded_fill [simp]: "fill_batch (guarded n ll) cap k i ts b = fill_batch ll cap k i ts b"
  by (induction ll cap k i ts b rule: fill_batch.induct) (simp_all add: Let_def split: option.split)

lemma guarded_window [simp]: "effective_n_ctx (guarded n ll) = effective_n_ctx ll"
  by (simp add: fun_eq_iff effective_n_ctx_def split: CtxLen.split)

lemma guarded_fit [simp]: "fit_check (guarded n ll) = fit_check ll"
  by (simp add: fun_eq_iff fit_check_def split: sum.split)

lemma guarded_context [simp]: "context_calls (guarded n ll) = context_calls ll"
  by (simp add: fun_eq_iff context_calls_def n_batch_of_def Let_def split: option.split)

lemma guarded_finish [simp]: "finish_decode (guarded n ll) = finish_decode ll"
  by (simp add: fun_eq_iff finish_decode_def Let_def split: prod.split option.split)

lemma guarded_output [simp]:
  "parse_output (guarded n ll) = parse_output ll" "load_template (guarded n ll) = load_template ll"
  by (simp_all add: fun_eq_iff parse_output_def load_template_def split: sum.split option.split)

lemma sint_small: "i < 2 ^ 31 \<Longrightarrow> sint (of_nat i :: 32 word) = int i"
proof -
  assume i: "i < 2 ^ 31"
  then have "take_bit 32 i = i" by (simp add: take_bit_nat_eq_self)
  with i show ?thesis by (simp add: sint_uint signed_take_bit_int_eq_self unsigned_of_nat)
qed

lemma fill_batch_window:
  "fill_batch ll cap k i ts b = Inr b' \<Longrightarrow> list_all (in_window n) b \<Longrightarrow> i + length ts \<le> n \<Longrightarrow>
     list_all (in_window n) b' \<and> length b' = length b + length ts"
  by (induction ll cap k i ts b rule: fill_batch.induct)
     (auto simp: Let_def in_window_def sint_small not_le split: if_splits option.splits)

lemma sint_succ:
  assumes "sint (x :: 32 word) = int k" "k + 1 < 2 ^ 31"
  shows "sint (x + 1) = int (k + 1)"
proof -
  have "x = word_of_int (sint x)" by simp
  also have "\<dots> = of_nat k" by (simp add: assms(1))
  finally have "x + 1 = of_nat (k + 1)" by simp
  then show ?thesis using sint_small [OF assms(2)] by metis
qed

lemma guarded_round:
  fixes ll :: "('m, 't, 'p, 'k, 'w) llama"
  assumes "sint (n_cur s) = int (P + n_generated s)" "P + limit \<le> n"
  shows "decode_round (guarded n ll) m cap limit s = decode_round ll m cap limit s"
proof -
  have "list_all (in_window n) [(t, n_cur s, True)]" if "n_generated s + 1 < limit" for t :: 'k
    using assms that by (simp add: in_window_def)
  then show ?thesis
    by (auto simp: decode_round_def Let_def guarded_decode split: prod.split sum.split option.split)
qed

lemma round_position:
  assumes "decode_round ll m cap limit s = (None, s')" "sint (n_cur s) = int (P + n_generated s)"
    "P + limit \<le> 2 ^ 31"
  shows "sint (n_cur s') = int (P + n_generated s')"
proof -
  have "n_cur s' = n_cur s + 1" using assms(1)
    by (auto simp: decode_round_def Let_def split: prod.splits sum.splits option.splits if_splits)
  moreover have "n_generated s' = n_generated s + 1" "n_generated s' < limit"
    using decode_round_progress [OF assms(1)] by auto
  ultimately show ?thesis using assms(2,3) sint_succ [OF assms(2)] by simp
qed

lemma guarded_loop:
  "sint (n_cur s) = int (P + n_generated s) \<Longrightarrow> P + limit \<le> n \<Longrightarrow> n \<le> 2 ^ 31 \<Longrightarrow>
     decode_loop (guarded n ll) m cap limit s = decode_loop ll m cap limit s"
proof (induction ll m cap limit s rule: decode_loop.induct)
  case (1 ll m cap limit s)
  obtain o' s1 where round: "decode_round ll m cap limit s = (o', s1)" by fastforce
  have eq: "decode_round (guarded n ll) m cap limit s = (o', s1)"
    using guarded_round [OF 1(2,3), where ll = ll and m = m and cap = cap] round by simp
  have unroll: "decode_loop (guarded n ll) m cap limit s =
      (case o' of Some r \<Rightarrow> (r, s1) | None \<Rightarrow> decode_loop (guarded n ll) m cap limit s1)"
    using decode_loop.simps [of "guarded n ll" m cap limit s] by (simp add: eq)
  have unroll': "decode_loop ll m cap limit s =
      (case o' of Some r \<Rightarrow> (r, s1) | None \<Rightarrow> decode_loop ll m cap limit s1)"
    using decode_loop.simps [of ll m cap limit s] by (simp add: round)
  show ?case
  proof (cases o')
    case None
    have "P + limit \<le> 2 ^ 31" using 1(3,4) by linarith
    then have "sint (n_cur s1) = int (P + n_generated s1)"
      by (rule round_position [OF round [unfolded None] 1(2)])
    then have "decode_loop (guarded n ll) m cap limit s1 = decode_loop ll m cap limit s1"
      by (rule 1(1) [OF round [symmetric] None _ 1(3,4)])
    with None show ?thesis by (simp only: unroll unroll' option.case)
  qed (simp only: unroll unroll' option.case)
qed

lemma guarded_run:
  assumes "length tokens + max_tokens gen \<le> n" "n \<le> 2 ^ 31" "0 < max_tokens gen"
  shows "run_decode (guarded n ll) m lp tokens gen st w = run_decode ll m lp tokens gen st w"
proof (cases "fill_batch ll (max (length tokens) 1) (length tokens - 1) 0 tokens []")
  case (Inr b)
  have b: "list_all (in_window n) b" "length b = length tokens"
    using fill_batch_window [OF Inr, of n] assms(1) by auto
  have loop: "decode_loop (guarded n ll) m cap (max_tokens gen)
        \<lparr>stream_state = st, full_text = [], n_generated = 0, n_cur = of_nat (length b),
         batch_n_tokens = bt, emitted = [], ctx_native = w'\<rparr> =
      decode_loop ll m cap (max_tokens gen)
        \<lparr>stream_state = st, full_text = [], n_generated = 0, n_cur = of_nat (length b),
         batch_n_tokens = bt, emitted = [], ctx_native = w'\<rparr>" for cap bt w'
    using assms b(2) by (intro guarded_loop [where P = "length b"]) (simp_all add: sint_small)
  obtain o1 w1 where ctx: "new_context ll m (context_calls ll lp m) w = (o1, w1)" by fastforce
  obtain o2 w2 where dec: "decode_batch ll b w1 = (o2, w2)" by fastforce
  obtain sd w3 where seed: "(case opt_or (sample_seed (gen_sampling gen)) (load_seed lp) of
      Some sd \<Rightarrow> (sd, w2) | None \<Rightarrow> random_u32 ll w2) = (sd, w3)" by fastforce
  note facts = guarded_simps guarded_context guarded_finish guarded_fill Inr ctx guarded_decode [OF b(1)] dec seed loop
  show ?thesis
    by (cases o1; cases o2; cases "unsupported_sampler (gen_sampling gen)")
       (simp_all only: run_decode_def facts prod.case option.case sum.case)
qed (simp add: run_decode_def cong: prod.case_cong option.case_cong)

text \<open>C29. The engine never decodes a token at a position outside the window: with a binding that
  refuses such a batch every chat ends in the same way, with the same stream and the same native
  state. Positions are 32-bit signed, so this is for windows of up to \<open>2 ^ 31\<close> tokens.\<close>

theorem positions_inside_window:
  assumes "resident_model s = Some (m, lp)" "unat (effective_n_ctx ll lp m) \<le> 2 ^ 31"
  shows "llama_chat (guarded (unat (effective_n_ctx ll lp m)) ll) messages gen s = llama_chat ll messages gen s"
proof -
  let ?n = "unat (effective_n_ctx ll lp m)"
  have run: "run_decode (guarded ?n ll) m lp tokens (gen\<lparr>max_tokens := fitted\<rparr>) st w =
      run_decode ll m lp tokens (gen\<lparr>max_tokens := fitted\<rparr>) st w"
    if "fit_check ll m prompt lp gen = Inr (tokens, fitted)" for prompt tokens fitted st w
    using that assms(2)
    by (intro guarded_run) (auto simp: fit_check_def Let_def max_def min_def split: sum.splits if_splits)
  show ?thesis
    by (auto simp: llama_chat_def assms(1) run Let_def split: sum.split prod.split)
qed

theorem positions_inside_window_witness:
  "llama_chat (guarded 8 demo_llama) ''abc'' (demo_gen 9) (demo_engine [1, 2, 0]) =
     llama_chat demo_llama ''abc'' (demo_gen 9) (demo_engine [1, 2, 0])"
  using positions_inside_window [of "demo_engine [1, 2, 0]" "()" "params_base (Fixed 8) All 4" demo_llama]
  by (simp add: demo_engine_def effective_n_ctx_def params_base_def params_default_def)

subsection \<open>The stream\<close>

definition streams_text :: "('p, 'w) DecodeState \<Rightarrow> bool" where
  "streams_text s \<longleftrightarrow>
     stream_state s = None \<and> list_all (\<lambda>d. engine_delta_kind d = Content) (emitted s) \<and>
     concat (map engine_delta_text (emitted s)) = full_text s"

lemma streams_text_cong:
  "stream_state s' = stream_state s \<Longrightarrow> emitted s' = emitted s \<Longrightarrow> full_text s' = full_text s \<Longrightarrow>
     streams_text s' = streams_text s"
  by (simp add: streams_text_def)

lemma streams_text_frame [simp]:
  "streams_text (s\<lparr>ctx_native := w\<rparr>) = streams_text s" "streams_text (s\<lparr>n_generated := n\<rparr>) = streams_text s"
  "streams_text (s\<lparr>n_cur := c\<rparr>) = streams_text s" "streams_text (s\<lparr>batch_n_tokens := b\<rparr>) = streams_text s"
  by (rule streams_text_cong; simp)+

lemma streams_text_emit: "streams_text s \<Longrightarrow> streams_text (emit_text ll piece s)"
  by (simp add: streams_text_def emit_text_def emit_piece_def)

lemma streams_text_round: "streams_text s \<Longrightarrow> decode_round ll m cap limit s = (r, s') \<Longrightarrow> streams_text s'"
  by (auto simp: decode_round_def Let_def streams_text_emit split: prod.splits sum.splits option.splits if_splits)

lemma streams_text_loop: "streams_text s \<Longrightarrow> decode_loop ll m cap limit s = (r, s') \<Longrightarrow> streams_text s'"
proof (induction ll m cap limit s rule: decode_loop.induct)
  case (1 ll m cap limit s)
  obtain o' s1 where round: "decode_round ll m cap limit s = (o', s1)" by fastforce
  with 1(2) have "streams_text s1" by (rule streams_text_round)
  with 1(1) [of o' s1] 1(3) round show ?case
    by (cases o') (simp_all add: decode_loop.simps [of ll m cap limit s])
qed

lemma streams_text_finish:
  assumes "streams_text s" "finish_decode ll r s = (out, ds, w)"
  shows "list_all (\<lambda>d. engine_delta_kind d = Content) ds \<and> concat (map engine_delta_text ds) = out_full out"
proof -
  have "streams_text (emit_text ll tail (s\<lparr>ctx_native := w\<rparr>))" "streams_text (emit_text ll tail s)" for tail w
    using assms(1) by (simp_all add: streams_text_emit)
  with assms(2) show ?thesis
    by (auto simp: finish_decode_def Let_def streams_text_def split: prod.splits)
qed

text \<open>Without an incremental parser the stream is the text: everything that reaches the sink is
  content, and put together it is the whole generation, also when the generation ends within a
  character.\<close>

theorem streamed_text_is_the_text:
  "case run_decode ll m lp tokens gen None w of
     (Inl e, _, _) \<Rightarrow> True
   | (Inr out, ds, _) \<Rightarrow>
       list_all (\<lambda>d. engine_delta_kind d = Content) ds \<and> concat (map engine_delta_text ds) = out_full out"
proof -
  have start: "streams_text \<lparr>stream_state = None, full_text = [], n_generated = 0, n_cur = c,
      batch_n_tokens = b, emitted = [], ctx_native = w'\<rparr>" for c b w'
    by (simp add: streams_text_def)
  note fin = streams_text_finish [OF streams_text_loop [OF start]]
  show ?thesis
    by (auto simp: run_decode_def dest!: fin split: prod.split sum.split option.split)
qed

subsection \<open>The prompt batch\<close>

text \<open>A prompt that passed the fit check fits the batch of the context unless the load pinned a
  smaller batch; then the whole prompt is still fed in one call.\<close>

theorem pinned_batch_smaller_than_prompt:
  assumes "fit_check ll m prompt lp gen = Inr (tokens, fitted)"
  shows "unat (n_batch_of ll lp m) < length tokens \<longleftrightarrow> (\<exists>n. n_batch lp = Some n \<and> unat n < length tokens)"
proof -
  have "length tokens < unat (effective_n_ctx ll lp m)"
    using assms by (auto simp: fit_check_def Let_def split: sum.splits if_splits)
  moreover have "unat x \<le> unat (max x (1::u32))" for x
    by (metis max.cobounded1 word_le_nat_alt)
  ultimately have "n_batch lp = None \<Longrightarrow> \<not> unat (n_batch_of ll lp m) < length tokens"
    by (metis n_batch_of_def option.simps(4) less_le_trans not_less order_less_imp_le)
  then show ?thesis by (cases "n_batch lp") (auto simp: n_batch_of_def)
qed

theorem pinned_batch_smaller_than_prompt_witness:
  "unat (n_batch_of demo_llama (params_base (Fixed 8) All 4\<lparr>n_batch := Some 2\<rparr>) ()) < length [1, 1, 1 :: nat]"
  by (subst pinned_batch_smaller_than_prompt [where prompt = "''abc''" and gen = "demo_gen 1" and fitted = 1])
     (simp_all add: fit_check_def demo_llama_def effective_n_ctx_def params_base_def params_default_def demo_gen_def)

end
