(* ===== verification/Pull_Cancel.thy ===== *)
theory Pull_Cancel
  imports Interfaces Diagnostics "HOL-Library.AList"
begin

text \<open>
  \<open>src/catalog/cancel.rs\<close>: the registry of cancellable pulls, and \<open>cancellable_pull\<close>, which
  runs a download against a cancel signal.

  A registration owns a watch channel and a progress counter that the transfer also holds, so
  both live in a store (\<open>channels\<close>) and the map holds addresses.
\<close>

type_synonym PullKey = "string option \<times> string \<times> string"

subsection \<open>The registry\<close>

record channel =
  fired :: bool
  receiver_alive :: bool
  downloaded :: u64
  total_bytes :: u64

record Registry =
  pulls :: "(PullKey \<times> nat) list"
  channels :: "channel list"

record InFlightPull =
  pull_key :: PullKey
  pull_downloaded :: u64
  pull_total :: "u64 option"

definition registry_new :: Registry where
  "registry_new = \<lparr>pulls = [], channels = []\<rparr>"

definition new_channel :: channel where
  "new_channel = \<lparr>fired = False, receiver_alive = True, downloaded = 0, total_bytes = 0\<rparr>"

definition register :: "PullKey \<Rightarrow> Registry \<Rightarrow> (HiggsError + nat) \<times> Registry" where
  "register key s =
     (case map_of (pulls s) key of
        Some _ \<Rightarrow> (Inl (DownloadInFlight (fst (snd key)) (snd (snd key))), s)
      | None \<Rightarrow>
          (Inr (length (channels s)),
           s\<lparr>pulls := AList.update key (length (channels s)) (pulls s),
             channels := channels s @ [new_channel]\<rparr>))"

definition set_progress :: "nat \<Rightarrow> u64 \<Rightarrow> u64 option \<Rightarrow> Registry \<Rightarrow> Registry" where
  "set_progress a n t s =
     s\<lparr>channels := (channels s)[a := (channels s ! a)\<lparr>downloaded := n, total_bytes := unwrap_or 0 t\<rparr>]\<rparr>"

definition in_flight :: "Registry \<Rightarrow> InFlightPull list" where
  "in_flight s =
     map (\<lambda>(key, a). \<lparr>pull_key = key, pull_downloaded = downloaded (channels s ! a),
            pull_total = (let t = total_bytes (channels s ! a) in if t = 0 then None else Some t)\<rparr>)
         (take 16 (pulls s))"

definition no_in_flight :: "PullKey \<Rightarrow> HiggsError" where
  "no_in_flight key =
     DownloadFailed (fst (snd key)) (snd (snd key)) ''no in-flight download to cancel''"

definition cancel :: "PullKey \<Rightarrow> Registry \<Rightarrow> (HiggsError + unit) \<times> Registry" where
  "cancel key s =
     (case map_of (pulls s) key of
        None \<Rightarrow> (Inl (no_in_flight key), s)
      | Some a \<Rightarrow>
          if receiver_alive (channels s ! a)
          then (Inr (), s\<lparr>channels := (channels s)[a := (channels s ! a)\<lparr>fired := True\<rparr>]\<rparr>)
          else (Inl (no_in_flight key), s))"

text \<open>The end of \<open>cancellable_pull\<close> drops the receiver, the end of the guard the entry.\<close>

definition drop_receiver_of :: "nat \<Rightarrow> Registry \<Rightarrow> Registry" where
  "drop_receiver_of a s =
     s\<lparr>channels := (channels s)[a := (channels s ! a)\<lparr>receiver_alive := False\<rparr>]\<rparr>"

definition drop_guard :: "PullKey \<Rightarrow> Registry \<Rightarrow> Registry" where
  "drop_guard key s = s\<lparr>pulls := AList.delete key (pulls s)\<rparr>"

definition is_registered :: "Registry \<Rightarrow> PullKey \<Rightarrow> bool" where
  "is_registered s key \<longleftrightarrow> map_of (pulls s) key \<noteq> None"

definition claim_pull :: "PullKey \<Rightarrow> Registry \<Rightarrow> Registry option" where
  "claim_pull key s = (case register key s of (Inl _, _) \<Rightarrow> None | (Inr _, s') \<Rightarrow> Some s')"

interpretation pulls: slot_table is_registered claim_pull drop_guard
  by unfold_locales
    (auto simp: is_registered_def claim_pull_def register_def drop_guard_def update_conv'
      delete_conv' split: option.splits if_splits)

lemma length_in_flight [simp]: "length (in_flight s) = min 16 (length (pulls s))"
  by (simp add: in_flight_def min.commute)

subsection \<open>A pull against its cancel signal\<close>

text \<open>What one poll of the download future sees: whether the signal fired since the last look,
  what the future answers (a path, an error, or still pending), and whether the signal fires
  while it runs.\<close>

record poll =
  fired_before :: bool
  answer :: "(HiggsError + string) option"
  fired_during :: bool

text \<open>The result, and whether the ledger's failure record is turned into a cancellation.\<close>

record pull_result =
  result :: "HiggsError + string"
  reconciled :: bool

definition hg089 :: "string \<Rightarrow> string \<Rightarrow> HiggsError" where
  "hg089 repo file = DownloadCancelled repo file True"

definition outrace :: "string \<Rightarrow> string \<Rightarrow> bool \<Rightarrow> HiggsError + string \<Rightarrow> pull_result" where
  "outrace repo file cancelled res =
     (if cancelled then
        (case res of
           Inl e \<Rightarrow> \<lparr>result = Inl (hg089 repo file), reconciled = True\<rparr>
         | Inr p \<Rightarrow> \<lparr>result = Inr p, reconciled = False\<rparr>)
      else \<lparr>result = res, reconciled = False\<rparr>)"

text \<open>The biased \<open>select!\<close>: the future first, then the signal. The number counts the polls.\<close>

fun select_loop :: "string \<Rightarrow> string \<Rightarrow> bool \<Rightarrow> poll list \<Rightarrow> (pull_result \<times> nat) option" where
  "select_loop repo file c [] = None"
| "select_loop repo file c (p # ps) =
     (let c = (c \<or> fired_before p \<or> fired_during p) in
      case answer p of
        Some res \<Rightarrow> Some (outrace repo file c res, 1)
      | None \<Rightarrow>
          if c then Some (\<lparr>result = Inl (hg089 repo file), reconciled = False\<rparr>, 1)
          else map_option (\<lambda>(r, n). (r, n + 1)) (select_loop repo file c ps))"

definition cancellable_pull :: "string \<Rightarrow> string \<Rightarrow> poll list \<Rightarrow> (pull_result \<times> nat) option" where
  "cancellable_pull repo file ps =
     (case ps of
        [] \<Rightarrow> None
      | p # ps \<Rightarrow>
          if fired_before p then Some (\<lparr>result = Inl (hg089 repo file), reconciled = False\<rparr>, 0)
          else
            let c = fired_during p in
            case answer p of
              Some res \<Rightarrow> Some (outrace repo file c res, 1)
            | None \<Rightarrow> map_option (\<lambda>(r, n). (r, n + 1)) (select_loop repo file c ps))"

definition signalled :: "poll \<Rightarrow> bool" where
  "signalled p \<longleftrightarrow> fired_before p \<or> fired_during p"

lemma ex_less_Suc_nth:
  "(\<exists>i < n + 1. P ((x # xs) ! i)) \<longleftrightarrow> P x \<or> (\<exists>i < n. P (xs ! i))"
proof -
  have "(\<exists>i < Suc n. P ((x # xs) ! i)) \<longleftrightarrow> P ((x # xs) ! 0) \<or> (\<exists>i < n. P ((x # xs) ! Suc i))"
    by (rule Ex_less_Suc2)
  then show ?thesis by simp
qed

lemma select_loop_spec:
  "select_loop repo file c ps = Some (r, n) \<Longrightarrow>
     0 < n \<and> n \<le> length ps \<and> (\<forall>i < n - 1. answer (ps ! i) = None) \<and>
     (case answer (ps ! (n - 1)) of
        Some res \<Rightarrow> r = outrace repo file (c \<or> (\<exists>i < n. signalled (ps ! i))) res
      | None \<Rightarrow> r = \<lparr>result = Inl (hg089 repo file), reconciled = False\<rparr> \<and>
          (c \<or> (\<exists>i < n. signalled (ps ! i))))"
proof (induction ps arbitrary: c r n)
  case (Cons p ps)
  show ?case
  proof (cases "answer p")
    case (Some res)
    with Cons.prems show ?thesis by (auto simp: Let_def signalled_def)
  next
    case None
    show ?thesis
    proof (cases "c \<or> signalled p")
      case True
      with None Cons.prems show ?thesis by (auto simp: Let_def signalled_def)
    next
      case False
      with None Cons.prems obtain m where
        m: "select_loop repo file False ps = Some (r, m)" "n = m + 1"
        by (auto simp: Let_def signalled_def)
      from Cons.IH [OF m(1)] have i: "0 < m" "m \<le> length ps"
        "\<forall>i < m - 1. answer (ps ! i) = None"
        "case answer (ps ! (m - 1)) of
           Some res \<Rightarrow> r = outrace repo file (\<exists>i < m. signalled (ps ! i)) res
         | None \<Rightarrow> r = \<lparr>result = Inl (hg089 repo file), reconciled = False\<rparr> \<and>
             (\<exists>i < m. signalled (ps ! i))"
        by (simp_all cong: option.case_cong)
      have ex: "(\<exists>i < n. signalled ((p # ps) ! i)) \<longleftrightarrow> (\<exists>i < m. signalled (ps ! i))"
        using False unfolding m(2) ex_less_Suc_nth by simp
      have "\<forall>i < n - 1. answer ((p # ps) ! i) = None"
        using None i(1,3) m(2) by (auto simp: nth_Cons split: nat.split)
      moreover have "(p # ps) ! (n - 1) = ps ! (m - 1)" using i(1) m(2) by simp
      moreover have "0 < n" "n \<le> length (p # ps)" "c = False" using i m(2) False by simp_all
      ultimately show ?thesis using i(4) by (simp only: ex simp_thms)
    qed
  qed
qed simp

lemma cancellable_pull_spec:
  assumes "cancellable_pull repo file ps = Some (r, n)"
  shows "(n = 0 \<and> ps \<noteq> [] \<and> fired_before (ps ! 0) \<and>
      r = \<lparr>result = Inl (hg089 repo file), reconciled = False\<rparr>) \<or>
    (0 < n \<and> n \<le> length ps \<and> (\<forall>i < n - 1. answer (ps ! i) = None) \<and>
     (case answer (ps ! (n - 1)) of
        Some res \<Rightarrow> r = outrace repo file (\<exists>i < n. signalled (ps ! i)) res
      | None \<Rightarrow> r = \<lparr>result = Inl (hg089 repo file), reconciled = False\<rparr> \<and>
          (\<exists>i < n. signalled (ps ! i))))"
proof (cases ps)
  case Nil
  with assms show ?thesis by (simp add: cancellable_pull_def)
next
  case (Cons p qs)
  show ?thesis
  proof (cases "fired_before p")
    case True
    with assms Cons show ?thesis by (auto simp: cancellable_pull_def)
  next
    case False
    then have sp: "signalled p = fired_during p" by (simp add: signalled_def)
    show ?thesis
    proof (cases "answer p")
      case (Some res)
      with False assms Cons sp show ?thesis by (auto simp: cancellable_pull_def Let_def)
    next
      case None
      with False assms Cons obtain m where
        m: "select_loop repo file (fired_during p) qs = Some (r, m)" "n = m + 1"
        by (auto simp: cancellable_pull_def Let_def)
      note l = select_loop_spec [OF m(1)]
      have "ps ! (n - 1) = qs ! (m - 1)" using l Cons m(2) by (cases m) auto
      moreover have "\<forall>i < n - 1. answer (ps ! i) = None"
        using None l Cons m(2) by (auto simp: nth_Cons split: nat.split)
      moreover have "(\<exists>i < n. signalled (ps ! i)) \<longleftrightarrow> fired_during p \<or> (\<exists>i < m. signalled (qs ! i))"
        unfolding Cons m(2) ex_less_Suc_nth sp ..
      ultimately show ?thesis using l Cons m(2) by (simp only:) simp
    qed
  qed
qed

lemma select_loop_returns:
  "i < length ps \<Longrightarrow> signalled (ps ! i) \<or> answer (ps ! i) \<noteq> None \<Longrightarrow>
     \<exists>r n. select_loop repo file c ps = Some (r, n) \<and> n \<le> i + 1"
proof (induction ps arbitrary: i c)
  case (Cons p ps)
  show ?case
  proof (cases i)
    case 0
    with Cons.prems show ?thesis by (auto simp: Let_def signalled_def split: option.split)
  next
    case (Suc j)
    with Cons.prems Cons.IH [of j "c \<or> fired_before p \<or> fired_during p"] show ?thesis
      by (auto simp: Let_def split: option.split)
  qed
qed simp

subsection \<open>Properties\<close>

text \<open>Cancellation is honest. When a pull returns after some polls: a path is returned only
  if the last poll produced it, a success is never reported as cancelled, the cancellation
  result means that no poll delivered a file and that the operator did signal, and any other
  error is the future's own, with no signal seen. The failure record in the ledger is rewritten
  exactly when a failing transfer is reported as cancelled.\<close>

theorem cancellable_pull_honest:
  assumes "cancellable_pull repo file ps = Some (r, n)"
    "\<forall>p \<in> set ps. answer p \<noteq> Some (Inl (hg089 repo file))"
  shows "n \<le> length ps \<and>
    (\<forall>path. result r = Inr path \<longrightarrow> 0 < n \<and> answer (ps ! (n - 1)) = Some (Inr path)) \<and>
    (result r = Inl (hg089 repo file) \<longrightarrow>
       (\<forall>i < n. \<forall>path. answer (ps ! i) \<noteq> Some (Inr path)) \<and>
       (\<exists>i < n + 1. i < length ps \<and> signalled (ps ! i))) \<and>
    (\<forall>e. result r = Inl e \<longrightarrow> e \<noteq> hg089 repo file \<longrightarrow>
       answer (ps ! (n - 1)) = Some (Inl e) \<and> (\<forall>i < n. \<not> signalled (ps ! i))) \<and>
    (reconciled r \<longleftrightarrow> result r = Inl (hg089 repo file) \<and> 0 < n \<and> answer (ps ! (n - 1)) \<noteq> None)"
  using cancellable_pull_spec [OF assms(1)]
proof (elim disjE conjE)
  assume "n = 0" "ps \<noteq> []" "fired_before (ps ! 0)"
    "r = \<lparr>result = Inl (hg089 repo file), reconciled = False\<rparr>"
  then show ?thesis by (auto simp: signalled_def)
next
  assume n: "0 < n" "n \<le> length ps" and before: "\<forall>i < n - 1. answer (ps ! i) = None"
    and sp: "case answer (ps ! (n - 1)) of
        Some res \<Rightarrow> r = outrace repo file (\<exists>i < n. signalled (ps ! i)) res
      | None \<Rightarrow> r = \<lparr>result = Inl (hg089 repo file), reconciled = False\<rparr> \<and>
          (\<exists>i < n. signalled (ps ! i))"
  have noans: "answer (ps ! (n - 1)) \<noteq> Some (Inl (hg089 repo file))"
    using assms(2) n by simp
  have each: "i = n - 1" if "answer (ps ! i) = Some x" "i < n" for i x
    using before that by (cases "i < n - 1") auto
  have sig: "\<exists>i < n + 1. i < length ps \<and> signalled (ps ! i)" if "\<exists>i < n. signalled (ps ! i)"
    using that n by (metis Suc_eq_plus1 less_SucI order_less_le_trans)
  show ?thesis
  proof (cases "answer (ps ! (n - 1))")
    case None
    with sp have r: "result r = Inl (hg089 repo file)" "\<not> reconciled r" "\<exists>i < n. signalled (ps ! i)"
      by auto
    have "answer (ps ! i) \<noteq> Some x" if "i < n" for i x
      using each [OF _ that] None by auto
    with None r n sig show ?thesis by simp
  next
    case (Some res)
    with sp have r: "r = outrace repo file (\<exists>i < n. signalled (ps ! i)) res" by simp
    show ?thesis
    proof (cases res)
      case (Inr path)
      with r have "result r = Inr path" "\<not> reconciled r" by (simp_all add: outrace_def)
      with Some Inr n show ?thesis by simp
    next
      case (Inl e)
      have ne: "e \<noteq> hg089 repo file" using noans Some Inl by auto
      have no: "answer (ps ! i) \<noteq> Some (Inr x)" if "i < n" for i x
        using each [OF _ that] Some Inl by auto
      show ?thesis
      proof (cases "\<exists>i < n. signalled (ps ! i)")
        case True
        with r Inl have "result r = Inl (hg089 repo file)" "reconciled r"
          by (simp_all add: outrace_def)
        with no sig [OF True] Some n show ?thesis by simp
      next
        case False
        with r Inl have "result r = Inl e" "\<not> reconciled r" by (simp_all add: outrace_def)
        with ne Some Inl False n show ?thesis by simp
      qed
    qed
  qed
qed

definition demo_poll :: "bool \<Rightarrow> (HiggsError + string) option \<Rightarrow> poll" where
  "demo_poll f a = \<lparr>fired_before = f, answer = a, fired_during = False\<rparr>"

theorem cancellable_pull_honest_witness:
  "answer ([demo_poll False None, demo_poll True (Some (Inr ''p''))] ! 1) = Some (Inr ''p'')"
  using cancellable_pull_honest [of "''r''" "''f''"
      "[demo_poll False None, demo_poll True (Some (Inr ''p''))]" "\<lparr>result = Inr ''p'', reconciled = False\<rparr>" 2]
  by (simp add: cancellable_pull_def demo_poll_def outrace_def Let_def)

text \<open>Cancellation is prompt: a pull whose signal has fired by some poll returns at that
  poll, or, when the signal fires during the very first one, at the next; a signal that fired
  before the first poll returns without polling the download at all.\<close>

theorem cancellable_pull_prompt:
  assumes "i < length ps" "signalled (ps ! i)" "i = 0 \<longrightarrow> \<not> fired_before (ps ! 0) \<longrightarrow> 1 < length ps"
  shows "(\<exists>r n. cancellable_pull repo file ps = Some (r, n) \<and> n \<le> max 2 (i + 1)) \<and>
    (fired_before (ps ! 0) \<longrightarrow>
       cancellable_pull repo file ps = Some (\<lparr>result = Inl (hg089 repo file), reconciled = False\<rparr>, 0))"
proof (cases ps)
  case Nil
  with assms(1) show ?thesis by simp
next
  case (Cons p qs)
  show ?thesis
  proof (cases "fired_before p \<or> answer p \<noteq> None")
    case True
    with Cons show ?thesis by (auto simp: cancellable_pull_def Let_def)
  next
    case False
    have "\<exists>r n. select_loop repo file (fired_during p) qs = Some (r, n) \<and> n + 1 \<le> max 2 (i + 1)"
    proof (cases i)
      case 0
      with assms False Cons obtain q rs where "fired_during p" "qs = q # rs"
        by (cases qs) (auto simp: signalled_def)
      then show ?thesis by (auto simp: Let_def split: option.split)
    next
      case (Suc j)
      with assms Cons select_loop_returns [of j qs repo "file" "fired_during p"] show ?thesis by fastforce
    qed
    with False Cons show ?thesis by (fastforce simp: cancellable_pull_def Let_def)
  qed
qed

theorem cancellable_pull_prompt_witness:
  "\<exists>r n. cancellable_pull ''r'' ''f'' [demo_poll False None, demo_poll True None] = Some (r, n) \<and> n \<le> Suc (Suc 0)"
  using cancellable_pull_prompt [of 1 "[demo_poll False None, demo_poll True None]" "''r''" "''f''"]
  by (simp add: demo_poll_def signalled_def)

text \<open>The registry never holds two pulls of one key and announces at most sixteen: whatever
  the order of starts and ends, two owners of a key are the same, and an ended pull's key is
  free again.\<close>

theorem pull_registry_exclusive:
  assumes "slot_run claim_pull drop_guard registry_new es = (t, g)"
  shows "((c, key) \<in> g \<longrightarrow> (d, key) \<in> g \<longrightarrow> c = d) \<and>
    (is_registered t key \<longleftrightarrow> (\<exists>c. (c, key) \<in> g)) \<and>
    length (in_flight t) \<le> 16 \<and> claim_pull key (drop_guard key t) \<noteq> None"
proof -
  have free: "\<not> is_registered registry_new k" for k
    by (simp add: is_registered_def registry_new_def)
  note ex = pulls.slot_exclusive [OF free assms]
  show ?thesis
    using ex(1) [of c key d] ex(2) [of key] pulls.reacquire [of key t] by auto
qed

theorem pull_registry_exclusive_witness:
  "is_registered (fst (slot_run claim_pull drop_guard registry_new [Claim (0::nat) (None, ''r'', ''f'')]))
     (None, ''r'', ''f'')"
proof -
  let ?run = "slot_run claim_pull drop_guard registry_new [Claim (0::nat) (None, ''r'', ''f'')]"
  have "(0, None, ''r'', ''f'') \<in> snd ?run"
    by (simp add: slot_run_def claim_pull_def register_def registry_new_def)
  moreover have "slot_run claim_pull drop_guard registry_new [Claim (0::nat) (None, ''r'', ''f'')] =
      (fst ?run, snd ?run)" by simp
  ultimately show ?thesis
    using pull_registry_exclusive [of "[Claim (0::nat) (None, ''r'', ''f'')]" "fst ?run" "snd ?run" 0
        "(None, ''r'', ''f'')"] by blast
qed

end
