(* ===== verification/Runtime_Chats.thy ===== *)
theory Runtime_Chats
  imports Runtime_Props
begin

text \<open>
  What the runtime tells its hub and its callers: the chat gate and the drain before an update,
  the numbered snapshots, and what a load sends to its worker and hands back to the actor.
\<close>

subsection \<open>The drain before an update restart\<close>

fun leased :: "nat \<times> NodeReply \<Rightarrow> bool" where
  "leased (c, Leased sv) = True"
| "leased (c, r) = False"

lemma leased_iff: "leased (c, r) \<longleftrightarrow> (\<exists>sv. r = Leased sv)"
  by (cases r) auto

lemma leases_finish [simp]:
  "chat_leases (maybe_finish_shutdown s) = chat_leases s" "quiescing (maybe_finish_shutdown s) = quiescing s"
  "filter leased (replies (maybe_finish_shutdown s)) = filter leased (replies s)"
  by (auto simp: maybe_finish_shutdown_def filter_empty_conv)

lemma leases_keepalive [simp]:
  "chat_leases (refresh_keepalive s) = chat_leases s" "quiescing (refresh_keepalive s) = quiescing s"
  "replies (refresh_keepalive s) = replies s"
  by (simp_all add: refresh_keepalive_def)

lemma leases_load_commit [simp]:
  "chat_leases (load_commit i r c l t s) = chat_leases s" "quiescing (load_commit i r c l t s) = quiescing s"
  "filter leased (replies (load_commit i r c l t s)) = filter leased (replies s)"
  by (auto simp: load_commit_def Let_def split: LoadResult.split option.split)

lemma leases_chat_end [simp]:
  "chat_leases (chat_end i t s) = chat_leases s" "quiescing (chat_end i t s) = quiescing s"
  "replies (chat_end i t s) = replies s"
  by (auto simp: chat_end_def split: option.split)

lemma leases_shutdown_all [simp]:
  "chat_leases (shutdown_all c s) = chat_leases s" "quiescing (shutdown_all c s) = quiescing s"
  "filter leased (replies (shutdown_all c s)) = filter leased (replies s)"
  by (simp_all add: shutdown_all_def Let_def split_beta reap_all_frame)

lemma leases_reap_idle [simp]:
  "chat_leases (reap_idle t s) = chat_leases s" "quiescing (reap_idle t s) = quiescing s"
  "replies (reap_idle t s) = replies s"
  by (simp_all add: reap_idle_def Let_def reap_fold_frame)

lemma leases_unload [simp]:
  "chat_leases (node_unload i c t s) = chat_leases s" "quiescing (node_unload i c t s) = quiescing s"
  "filter leased (replies (node_unload i c t s)) = filter leased (replies s)"
  by (auto simp: node_unload_def registry_remove_def split: option.split)

lemma leases_reap_done [simp]:
  "chat_leases (reap_done d s) = chat_leases s" "quiescing (reap_done d s) = quiescing s"
  "filter leased (replies (reap_done d s)) = filter leased (replies s)"
  by (auto simp: reap_done_def Let_def split: option.split)

lemma leases_load [simp]:
  "chat_leases (node_load p c s) = chat_leases s" "quiescing (node_load p c s) = quiescing s"
  "filter leased (replies (node_load p c s)) = filter leased (replies s)"
  by (auto simp: node_load_def reserve_def)

lemma quiesced_step:
  assumes "quiescing s"
  shows "quiescing (node_step e s) \<and> mset (chat_leases (node_step e s)) \<subseteq># mset (chat_leases s) \<and>
    filter leased (replies (node_step e s)) = filter leased (replies s)"
  using assms
  by (cases e) (auto simp: node_inventory_def quiesce_chats_def chat_handle_def Let_def diff_subset_eq_self)

lemma quiesced_run:
  "quiescing s \<Longrightarrow> quiescing (node_run es s) \<and> mset (chat_leases (node_run es s)) \<subseteq># mset (chat_leases s) \<and>
    filter leased (replies (node_run es s)) = filter leased (replies s)"
proof (induction es arbitrary: s)
  case (Cons e es)
  note step = quiesced_step [OF Cons.prems, of e]
  show ?case using step Cons.IH [of "node_step e s"] subset_mset.order_trans by auto
qed simp

text \<open>Quiescing is an exact barrier: from the message on, whatever follows it, no chat gets a
  lease any more. The outstanding leases only shrink, and the callers that were granted one are
  exactly those granted before it.\<close>

theorem quiesce_is_a_barrier:
  "let s = node_run before (node_new ttl);
       t = node_run (before @ QuiesceChats c # after) (node_new ttl)
   in quiescing t \<and> mset (chat_leases t) \<subseteq># mset (chat_leases s) \<and>
      filter leased (replies t) = filter leased (replies s)"
  using quiesced_run [of "quiesce_chats c (node_run before (node_new ttl))" after]
  by (simp add: Let_def quiesce_chats_def)

lemma leases_of_residents:
  "distinct is \<Longrightarrow> (\<Sum>i\<leftarrow>is. length (filter (\<lambda>l. fst l = i) ls)) = length (filter (\<lambda>l. fst l \<in> set is) ls)"
proof (induction ls)
  case (Cons l ls)
  have "(\<Sum>i\<leftarrow>is. if fst l = i then 1 else 0) = (if fst l \<in> set is then 1 else 0 :: nat)"
    using Cons.prems by (induction "is") auto
  moreover have "(\<Sum>i\<leftarrow>is. length (filter (\<lambda>x. fst x = i) (l # ls))) =
      (\<Sum>i\<leftarrow>is. if fst l = i then 1 else 0) + (\<Sum>i\<leftarrow>is. length (filter (\<lambda>x. fst x = i) ls))"
    by (subst sum_list_addf [symmetric]) (rule arg_cong [of _ _ sum_list], auto)
  ultimately show ?case using Cons by simp
qed simp

lemma unat_sum_list:
  fixes ws :: "'a::len word list"
  shows "sum_list (map unat ws) < 2 ^ LENGTH('a) \<Longrightarrow> unat (sum_list ws) = sum_list (map unat ws)"
  by (induction ws) (auto simp: unat_word_ariths)

lemma in_flight_sum:
  "in_flight_total t s = sum_list (map (\<lambda>i. chats_counted i s) (registry_ids (registry s)))"
proof -
  have "\<forall>i \<in> set (registry_ids (registry s)). registry_get i (registry s) \<noteq> None"
    by (auto simp: registry_ids_def registry_get_def map_of_eq_None_iff)
  then have "map (\<lambda>x. unwrap_or 0 (w_in_flight x))
      (List.map_filter (\<lambda>i. map_option (worker_row t s i) (registry_get i (registry s))) is) =
    map (\<lambda>i. chats_counted i s) is" if "set is \<subseteq> set (registry_ids (registry s))" for "is"
    using that by (induction "is") (auto simp: List.map_filter_simps worker_row_def chats_counted_def Let_def)
  from this [OF subset_refl] show ?thesis by (simp add: in_flight_total_def snapshot_workers_def)
qed

lemma in_flight_exact:
  assumes "ids_inv k s" "k < 2 ^ 32"
  shows "unat (in_flight_total t s) = length (filter (\<lambda>l. fst l \<in> residents s) (chat_leases s))"
proof -
  let ?is = "registry_ids (registry s)"
  have ids: "set ?is = residents s" "distinct ?is"
    using ids_invD(3) [OF assms(1)] by (simp_all add: registry_ids_def)
  have "map unat (map (\<lambda>i. chats_counted i s) ?is) = map (\<lambda>i. leases_on i s) ?is"
    using ids_invD(10) [OF assms(1)] ids(1) by auto
  moreover have "sum_list (map (\<lambda>i. leases_on i s) ?is) = length (filter (\<lambda>l. fst l \<in> residents s) (chat_leases s))"
    unfolding leases_on_def leases_of_residents [OF ids(2)] ids(1) ..
  ultimately have total: "sum_list (map unat (map (\<lambda>i. chats_counted i s) ?is)) =
      length (filter (\<lambda>l. fst l \<in> residents s) (chat_leases s))" by (simp only:)
  have "length (filter (\<lambda>l. fst l \<in> residents s) (chat_leases s)) \<le> k"
    using ids_invD(2) [OF assms(1)] length_filter_le le_trans by blast
  with assms(2) have "sum_list (map unat (map (\<lambda>i. chats_counted i s) ?is)) < 2 ^ LENGTH(32)"
    unfolding total by simp
  from unat_sum_list [OF this] show ?thesis unfolding in_flight_sum total .
qed

text \<open>The poll of the drain counts what it should: over fewer than \<open>2\<^sup>3\<^sup>2 - 2\<close> steps the \<open>u32\<close> total
  never wraps and is the number of outstanding leases on resident workers, so that a total of
  zero means that no resident worker is generating.\<close>

theorem drain_poll_exact:
  assumes "length es + 2 \<le> 2 ^ 32" "s = node_run es (node_new ttl)"
  shows "unat (in_flight_total t s) = length (filter (\<lambda>l. fst l \<in> residents s) (chat_leases s)) \<and>
    (in_flight_total t s = 0 \<longleftrightarrow> (\<forall>l \<in> set (chat_leases s). fst l \<notin> residents s))"
proof -
  have "unat (in_flight_total t s) = length (filter (\<lambda>l. fst l \<in> residents s) (chat_leases s))"
    using in_flight_exact [OF ids_run [OF assms(1)]] assms by simp
  moreover from this have "in_flight_total t s = 0 \<longleftrightarrow> filter (\<lambda>l. fst l \<in> residents s) (chat_leases s) = []"
    by (metis length_0_conv unat_eq_zero)
  ultimately show ?thesis by (simp add: filter_empty_conv)
qed

theorem drain_poll_exact_witness:
  "let s = node_run one_chat (node_new 0) in unat (in_flight_total 5 s) = 1"
  using drain_poll_exact [of one_chat _ 0 5, OF _ refl] one_chat_state
  by (simp add: one_chat_def Let_def)

subsection \<open>Snapshots\<close>

fun step_time :: "NodeStep \<Rightarrow> nat" where
  "step_time (LoadEnds i p c r l t) = t"
| "step_time (Unload i c t) = t"
| "step_time (Inventory c t) = t"
| "step_time (ChatHandle i model c t) = t"
| "step_time (LeaseEnds i sv t) = t"
| "step_time (ReapIdle t) = t"
| "step_time (FleetResnapshot t) = t"
| "step_time e = 0"

text \<open>\<open>published t s s'\<close>: from \<open>s\<close> to \<open>s'\<close> nothing is published, or one numbered snapshot of \<open>s'\<close>.\<close>

definition published :: "nat \<Rightarrow> Node \<Rightarrow> Node \<Rightarrow> bool" where
  "published t s s' \<longleftrightarrow>
     fleet_events s' = fleet_events s \<and> node_seq s' = node_seq s \<or>
     node_seq s' = node_seq s + 1 \<and>
     (\<exists>k. fleet_events s' = fleet_events s @ [\<lparr>fe_kind = k, fe_seq = node_seq s', fe_workers = snapshot_workers t s'\<rparr>])"

lemma snapshot_cong:
  "registry s = registry s' \<Longrightarrow> load_facts s = load_facts s' \<Longrightarrow> last_activity s = last_activity s' \<Longrightarrow>
   in_flight s = in_flight s' \<Longrightarrow> snapshot_workers t s = snapshot_workers t s'"
  by (simp add: snapshot_workers_def worker_row_def [abs_def])

lemma published_emit: "published t s (emit_fleet t k s')" if "fleet_events s' = fleet_events s" "node_seq s' = node_seq s"
  using that by (auto simp: published_def emit_fleet_def Let_def intro: snapshot_cong)

lemma events_frame [simp]:
  "fleet_events (node_reply c r s) = fleet_events s" "node_seq (node_reply c r s) = node_seq s"
  "fleet_events (emit_event e s) = fleet_events s" "node_seq (emit_event e s) = node_seq s"
  "fleet_events (forget_activity i s) = fleet_events s" "node_seq (forget_activity i s) = node_seq s"
  "fleet_events (reap_worker i sv d s) = fleet_events s" "node_seq (reap_worker i sv d s) = node_seq s"
  "fleet_events (refresh_keepalive s) = fleet_events s" "node_seq (refresh_keepalive s) = node_seq s"
  "fleet_events (maybe_finish_shutdown s) = fleet_events s" "node_seq (maybe_finish_shutdown s) = node_seq s"
  "fleet_events (snd (drain_workers s)) = fleet_events s" "node_seq (snd (drain_workers s)) = node_seq s"
  by (simp_all add: node_reply_def emit_event_def forget_activity_def reap_worker_def refresh_keepalive_def
      maybe_finish_shutdown_def drain_workers_def)

lemma events_reap_fold [simp]:
  "fleet_events (fold reap_one is s) = fleet_events s" "node_seq (fold reap_one is s) = node_seq s"
  by (induction "is" arbitrary: s) (auto simp: reap_one_def registry_remove_def split: option.split)

lemma events_reap_all [simp]:
  "fleet_events (fold (\<lambda>(i, sv). reap_worker i sv None) out s) = fleet_events s"
  "node_seq (fold (\<lambda>(i, sv). reap_worker i sv None) out s) = node_seq s"
  by (induction out arbitrary: s) auto

lemma published_refl: "fleet_events s' = fleet_events s \<Longrightarrow> node_seq s' = node_seq s \<Longrightarrow> published t s s'"
  by (simp add: published_def)

lemma published_cong:
  assumes "published t s u" "fleet_events u = fleet_events u'" "node_seq u = node_seq u'" "registry u = registry u'"
    "load_facts u = load_facts u'" "last_activity u = last_activity u'" "in_flight u = in_flight u'"
  shows "published t s u'"
  using assms snapshot_cong [OF assms(4-7), of t] by (simp add: published_def)

lemma published_load_commit: "published t s (load_commit i r c l t s)"
proof -
  have finish: "published t s (maybe_finish_shutdown (refresh_keepalive (u\<lparr>inflight_loads := n\<rparr>)))"
    if "published t s u" for u n
    by (rule published_cong [OF that])
       (simp_all add: maybe_finish_shutdown_def refresh_keepalive_def)
  show ?thesis
    unfolding load_commit_def Let_def
    by (rule finish) (simp add: published_emit published_refl split: LoadResult.split option.split)
qed

lemma published_chat_end:
  "fleet_events u = fleet_events s \<Longrightarrow> node_seq u = node_seq s \<Longrightarrow> published t s (chat_end i t u)"
  unfolding chat_end_def by (simp add: published_emit published_refl split: option.split)

lemma published_load_commit':
  "fleet_events u = fleet_events s \<Longrightarrow> node_seq u = node_seq s \<Longrightarrow> published t s (load_commit i r c l t u)"
  using published_load_commit [of t u i r c l] by (simp add: published_def)

lemma published_rest:
  "published t s (node_load p c s)" "published t s (node_unload i c t s)" "published t s (chat_handle i model c t s)"
  "published t s (reap_idle t s)" "published t s (shutdown_all c s)" "published t s (quiesce_chats c s)"
  "published t s (reap_done d (s\<lparr>stop_tasks := st\<rparr>))"
  by (simp_all add: node_load_def reserve_def node_unload_def registry_remove_def chat_handle_def reap_idle_def
      shutdown_all_def quiesce_chats_def reap_done_def Let_def split_beta published_emit published_refl
      split: option.split)

lemma published_step:
  "(\<forall>c t. e \<noteq> Inventory c t) \<Longrightarrow> published (step_time e) s (node_step e s)"
  by (cases e) (simp_all add: published_rest published_load_commit' published_chat_end published_emit published_refl)

definition inventory_numbers :: "Node \<Rightarrow> u64 list" where
  "inventory_numbers s =
     List.map_filter (\<lambda>(c, r). case r of InventoryRows w q \<Rightarrow> Some q | _ \<Rightarrow> None) (replies s)"

lemma inventory_numbers_reply [simp]:
  "inventory_numbers (node_reply c (InventoryRows w q) s) = inventory_numbers s @ [q]"
  "(\<And>w q. r \<noteq> InventoryRows w q) \<Longrightarrow> inventory_numbers (node_reply c r s) = inventory_numbers s"
  by (cases r; simp add: inventory_numbers_def node_reply_def List.map_filter_def)+

lemma inventory_numbers_frame:
  "replies s = replies s' \<Longrightarrow> inventory_numbers s = inventory_numbers s'"
  by (simp add: inventory_numbers_def)

lemma inventory_numbers_simps [simp]:
  "inventory_numbers (emit_event e s) = inventory_numbers s" "inventory_numbers (emit_fleet t k s) = inventory_numbers s"
  "inventory_numbers (reap_worker i sv d s) = inventory_numbers s" "inventory_numbers (refresh_keepalive s) = inventory_numbers s"
  "inventory_numbers (forget_activity i s) = inventory_numbers s" "inventory_numbers (chat_end i t s) = inventory_numbers s"
  "inventory_numbers (reap_idle t s) = inventory_numbers s"
  "inventory_numbers (maybe_finish_shutdown s) = inventory_numbers s"
  by (rule inventory_numbers_frame; simp)+
     (auto simp: inventory_numbers_def maybe_finish_shutdown_def List.map_filter_def filter_empty_conv)

lemma inventory_numbers_field [simp]:
  "inventory_numbers (s\<lparr>registry := x1\<rparr>) = inventory_numbers s" "inventory_numbers (s\<lparr>inflight_loads := x2\<rparr>) = inventory_numbers s"
  "inventory_numbers (s\<lparr>inflight_stops := x2\<rparr>) = inventory_numbers s" "inventory_numbers (s\<lparr>load_tasks := x3\<rparr>) = inventory_numbers s"
  "inventory_numbers (s\<lparr>stop_tasks := x4\<rparr>) = inventory_numbers s" "inventory_numbers (s\<lparr>load_facts := x5\<rparr>) = inventory_numbers s"
  "inventory_numbers (s\<lparr>last_activity := x6\<rparr>) = inventory_numbers s" "inventory_numbers (s\<lparr>in_flight := x7\<rparr>) = inventory_numbers s"
  "inventory_numbers (s\<lparr>chat_leases := x8\<rparr>) = inventory_numbers s" "inventory_numbers (s\<lparr>abandoned := x9\<rparr>) = inventory_numbers s"
  "inventory_numbers (s\<lparr>shutting_down := b\<rparr>) = inventory_numbers s" "inventory_numbers (s\<lparr>shutdown_waiters := y\<rparr>) = inventory_numbers s"
  "inventory_numbers (s\<lparr>quiescing := b\<rparr>) = inventory_numbers s" "inventory_numbers (s\<lparr>idle := z\<rparr>) = inventory_numbers s"
  "inventory_numbers (s\<lparr>fleet_receivers := x2\<rparr>) = inventory_numbers s" "inventory_numbers (s\<lparr>node_seq := q\<rparr>) = inventory_numbers s"
  by (rule inventory_numbers_frame; simp)+

lemma inventory_numbers_step:
  "inventory_numbers (node_step e s) =
     (case e of Inventory c t \<Rightarrow> inventory_numbers s @ [node_seq s + 1] | _ \<Rightarrow> inventory_numbers s)"
proof (cases e)
  case (ShutdownAll c)
  have "inventory_numbers (fold (\<lambda>(i, sv). reap_worker i sv None) out u) = inventory_numbers u" for out u
    by (rule inventory_numbers_frame) (simp add: reap_all_frame)
  moreover have "inventory_numbers (snd (drain_workers u)) = inventory_numbers u" for u
    by (rule inventory_numbers_frame) simp
  ultimately show ?thesis using ShutdownAll by (simp add: shutdown_all_def Let_def split_beta)
qed (auto simp: node_load_def reserve_def load_commit_def node_unload_def registry_remove_def node_inventory_def
      chat_handle_def quiesce_chats_def reap_done_def Let_def split: LoadResult.split option.split)

definition numbered :: "nat \<Rightarrow> Node \<Rightarrow> bool" where
  "numbered k s \<longleftrightarrow>
     unat (node_seq s) \<le> k \<and>
     mset (map fe_seq (fleet_events s)) + mset (inventory_numbers s) = mset (map of_nat [1..<unat (node_seq s) + 1]) \<and>
     sorted_wrt (<) (map fe_seq (fleet_events s)) \<and> (\<forall>e \<in> set (fleet_events s). fe_seq e \<le> node_seq s)"

lemma numbered_next:
  assumes "numbered k s" "Suc k < 2 ^ 64" "node_seq s' = node_seq s + 1"
    "fleet_events s' = fleet_events s @ ev \<and> inventory_numbers s' = inventory_numbers s @ iv"
    "map fe_seq ev @ iv = [node_seq s']"
  shows "numbered (Suc k) s'"
proof -
  have q: "unat (node_seq s + 1) = unat (node_seq s) + 1"
    using assms(1,2) by (simp add: numbered_def unat_word_ariths)
  then have up: "node_seq s < node_seq s + 1" by (simp add: word_less_nat_alt)
  have below: "fe_seq e < node_seq s + 1" if "e \<in> set (fleet_events s)" for e
    using that assms(1) up by (auto simp: numbered_def intro: le_less_trans)
  have "mset (map fe_seq (fleet_events s')) + mset (inventory_numbers s') =
      mset (map fe_seq (fleet_events s)) + mset (inventory_numbers s) + mset (map fe_seq ev @ iv)"
    using assms(4) by simp
  also have "\<dots> = mset (map of_nat [1..<unat (node_seq s) + 1]) + {#node_seq s + 1#}"
    using assms(1,3,5) by (simp add: numbered_def)
  also have "\<dots> = mset (map of_nat [1..<unat (node_seq s') + 1])"
    using q assms(3) by (simp add: upt_Suc_append)
  finally have numbers: "mset (map fe_seq (fleet_events s')) + mset (inventory_numbers s') =
      mset (map of_nat [1..<unat (node_seq s') + 1])" .
  have "ev = [] \<or> (\<exists>x. ev = [x] \<and> fe_seq x = node_seq s + 1)"
    using assms(3,5) by (cases ev) auto
  with assms(1,3,4) below q numbers up show ?thesis
    unfolding numbered_def by (auto simp: sorted_wrt_append less_imp_le)
qed

lemma numbered_step:
  assumes "numbered k s" "Suc k < 2 ^ 64"
  shows "numbered (Suc k) (node_step e s)"
proof (cases "\<exists>c t. e = Inventory c t")
  case True
  then obtain c t where e: "e = Inventory c t" by blast
  then have "fleet_events (node_step e s) = fleet_events s @ []" "node_seq (node_step e s) = node_seq s + 1"
    by (simp_all add: node_inventory_def Let_def)
  moreover have "inventory_numbers (node_step e s) = inventory_numbers s @ [node_seq s + 1]"
    using inventory_numbers_step [of e s] e by simp
  ultimately show ?thesis by (intro numbered_next [OF assms, of _ "[]" "[node_seq s + 1]"]) simp_all
next
  case False
  with inventory_numbers_step [of e s] have inv: "inventory_numbers (node_step e s) = inventory_numbers s"
    by (simp split: NodeStep.splits)
  have "published (step_time e) s (node_step e s)" using False by (intro published_step) auto
  then consider "fleet_events (node_step e s) = fleet_events s" "node_seq (node_step e s) = node_seq s"
    | x where "node_seq (node_step e s) = node_seq s + 1" "fleet_events (node_step e s) = fleet_events s @ [x]"
        "fe_seq x = node_seq (node_step e s)"
    unfolding published_def by force
  then show ?thesis
  proof cases
    case 1
    with inv assms(1) show ?thesis by (simp add: numbered_def)
  next
    case 2
    with inv show ?thesis by (intro numbered_next [OF assms 2(1), of "[x]" "[]"]) simp_all
  qed
qed

lemma numbered_run: "length es < 2 ^ 64 \<Longrightarrow> numbered (length es) (node_run es (node_new ttl))"
proof (induction es rule: rev_induct)
  case Nil
  then show ?case by (simp add: numbered_def node_new_def inventory_numbers_def List.map_filter_def)
next
  case (snoc e es)
  then show ?case using numbered_step [of "length es" "node_run es (node_new ttl)" e] by simp
qed

text \<open>Snapshots are totally ordered: over fewer than \<open>2\<^sup>6\<^sup>4\<close> steps the pushes and the answered
  inventories together carry the numbers \<open>1, 2, \<dots>\<close> up to the actor's counter, each once, and
  the pushes leave in increasing order of their numbers.\<close>

theorem snapshots_numbered:
  assumes "length es < 2 ^ 64" "s = node_run es (node_new ttl)"
  shows "mset (map fe_seq (fleet_events s)) + mset (inventory_numbers s) = mset (map of_nat [1..<unat (node_seq s) + 1]) \<and>
    sorted_wrt (<) (map fe_seq (fleet_events s)) \<and> unat (node_seq s) \<le> length es"
  using numbered_run [OF assms(1), of ttl] assms(2) by (simp add: numbered_def)

theorem snapshots_numbered_witness:
  "let s = node_run [Subscribers 1, FleetResnapshot 0, Inventory 7 0, FleetResnapshot 3] (node_new 0)
   in mset (map fe_seq (fleet_events s)) + mset (inventory_numbers s) = mset (map of_nat [1..<unat (node_seq s) + 1])"
  unfolding Let_def
  by (rule snapshots_numbered [THEN conjunct1, of "[Subscribers 1, FleetResnapshot 0, Inventory 7 0, FleetResnapshot 3]",
        OF _ refl]) simp

lemma receivers_frame [simp]:
  "fleet_receivers (node_reply c r s) = fleet_receivers s" "fleet_receivers (emit_event e s) = fleet_receivers s"
  "fleet_receivers (forget_activity i s) = fleet_receivers s" "fleet_receivers (reap_worker i sv d s) = fleet_receivers s"
  by (simp_all add: node_reply_def emit_event_def forget_activity_def reap_worker_def refresh_keepalive_def)

lemma receivers_reap_fold [simp]: "fleet_receivers (fold reap_one is s) = fleet_receivers s"
  by (induction "is" arbitrary: s) (auto simp: reap_one_def registry_remove_def split: option.split)

lemma emits: "fleet_receivers s > 0 \<Longrightarrow> fleet_events (emit_fleet t k s) \<noteq> fleet_events s"
  by (simp add: emit_fleet_def Let_def)

lemma residents_frame [simp]:
  "registry (refresh_keepalive s) = registry s" "registry (maybe_finish_shutdown s) = registry s"
  "shutting_down (refresh_keepalive s) = shutting_down s" "shutting_down (maybe_finish_shutdown s) = shutting_down s"
  by (simp_all add: refresh_keepalive_def maybe_finish_shutdown_def)

lemma announced_load_commit:
  "fleet_receivers s > 0 \<Longrightarrow> registry (load_commit i r c l t s) \<noteq> registry s \<Longrightarrow>
   fleet_events (load_commit i r c l t s) \<noteq> fleet_events s"
  by (auto simp: load_commit_def Let_def emit_fleet_def split: LoadResult.splits option.splits if_splits)

lemma announced_unload:
  "fleet_receivers s > 0 \<Longrightarrow> fleet_events (node_unload i c t s) \<noteq> fleet_events s \<or>
   residents (node_unload i c t s) = residents s"
  by (auto simp: node_unload_def registry_remove_def emit_fleet_def Let_def split: option.splits)

lemma announced_reap_idle:
  "fleet_receivers s > 0 \<Longrightarrow> fleet_events (reap_idle t s) \<noteq> fleet_events s \<or> residents (reap_idle t s) = residents s"
  by (simp add: reap_idle_def Let_def emit_fleet_def)

lemma announced_step:
  assumes "fleet_receivers s > 0" "\<not> shutting_down (node_step e s)" "residents (node_step e s) \<noteq> residents s"
  shows "fleet_events (node_step e s) \<noteq> fleet_events s"
proof (cases e)
  case (LoadEnds i p c r l t)
  let ?u = "s\<lparr>load_tasks := remove1 (i, p, c) (load_tasks s)\<rparr>"
  from LoadEnds assms(3) have in_tasks: "(i, p, c) \<in> set (load_tasks s)" by (auto split: if_splits)
  with LoadEnds assms(3) have "registry (load_commit i r c l t ?u) \<noteq> registry ?u" by auto
  with assms(1) have "fleet_events (load_commit i r c l t ?u) \<noteq> fleet_events ?u"
    by (intro announced_load_commit) simp_all
  with LoadEnds in_tasks show ?thesis by simp
next
  case (ShutdownAll c)
  with assms(2,3) show ?thesis
    by (auto simp: shutdown_all_def Let_def split_beta reap_all_frame split: if_splits)
next
  case (Unload i c t)
  with announced_unload [OF assms(1), of i c t] assms(3) show ?thesis by auto
next
  case (ReapIdle t)
  with announced_reap_idle [OF assms(1), of t] assms(3) show ?thesis by auto
qed (use assms in
    \<open>auto simp: node_load_def reserve_def node_inventory_def chat_handle_def chat_end_def quiesce_chats_def
       reap_done_def Let_def split: option.splits if_splits\<close>)

text \<open>What the node publishes is what it is: a step pushes at most one snapshot, numbered next,
  and it shows the state the step leaves; an inventory answers with the state of its turn and the
  next number; and while a hub listens and no shutdown runs, a change of the resident workers
  is always pushed.\<close>

theorem snapshots_truthful:
  "let s' = node_step e s in
   (case e of
      Inventory c t \<Rightarrow>
        fleet_events s' = fleet_events s \<and> node_seq s' = node_seq s + 1 \<and>
        replies s' = replies s @ [(c, InventoryRows (snapshot_workers t s') (node_seq s'))]
    | _ \<Rightarrow> published (step_time e) s s') \<and>
   (if fleet_receivers s > 0 \<and> \<not> shutting_down s' \<and> residents s' \<noteq> residents s
    then fleet_events s' \<noteq> fleet_events s else True)"
proof -
  have "case e of Inventory c t \<Rightarrow>
        fleet_events (node_step e s) = fleet_events s \<and> node_seq (node_step e s) = node_seq s + 1 \<and>
        replies (node_step e s) = replies s @
          [(c, InventoryRows (snapshot_workers t (node_step e s)) (node_seq (node_step e s)))]
    | _ \<Rightarrow> published (step_time e) s (node_step e s)"
    using published_step [of e s]
    by (cases e) (auto simp: node_inventory_def Let_def intro: snapshot_cong)
  with announced_step [of s e] show ?thesis by (simp add: Let_def)
qed

end
