(* ===== verification/Service_Unit.thy ===== *)
theory Service_Unit
  imports Text
begin

text \<open>
  The rendering half of \<open>src/node/service.rs\<close>: the three escapes, the systemd user unit and the
  launchd property list, byte by byte, and the environment variables an install pins or clears.
  How systemd, launchd or a shell read these texts is not modelled; the lemmas are about the texts:
  the lines of a unit, which inputs can add a line, and that no escape maps two texts to one.
\<close>

subsection \<open>Escapes\<close>

text \<open>\<open>str::replace\<close> of one character.\<close>

definition replace_char :: "char \<Rightarrow> string \<Rightarrow> string \<Rightarrow> string" where
  "replace_char c r s = concat (map (\<lambda>x. if x = c then r else [x]) s)"

abbreviation DQ :: char where "DQ \<equiv> CHR 0x22"
abbreviation BS :: char where "BS \<equiv> CHR 0x5C"
abbreviation SQ :: char where "SQ \<equiv> CHR 0x27"
abbreviation LF :: char where "LF \<equiv> CHR 0x0A"

definition systemd_escape :: "string \<Rightarrow> string" where
  "systemd_escape s = replace_char CHR ''%'' ''%%'' s"

definition systemd_env_escape :: "string \<Rightarrow> string" where
  "systemd_env_escape s = replace_char CHR ''%'' ''%%'' (replace_char DQ [BS, DQ] (replace_char BS [BS, BS] s))"

definition systemd_exec_escape :: "string \<Rightarrow> string" where
  "systemd_exec_escape s =
     replace_char CHR ''$'' ''$$'' (replace_char CHR ''%'' ''%%'' (replace_char DQ [BS, DQ] (replace_char BS [BS, BS] s)))"

definition xml_escape :: "string \<Rightarrow> string" where
  "xml_escape s =
     replace_char SQ ''&apos;'' (replace_char DQ ''&quot;'' (replace_char CHR ''>'' ''&gt;''
       (replace_char CHR ''<'' ''&lt;'' (replace_char CHR ''&'' ''&amp;'' s))))"

definition shell_single_quote :: "string \<Rightarrow> string" where
  "shell_single_quote s = [SQ] @ replace_char SQ [SQ, BS, SQ, SQ] s @ [SQ]"

subsection \<open>Paths and names\<close>

definition path_join :: "string \<Rightarrow> string \<Rightarrow> string" where
  "path_join p c = (if p = [] then c else if List.last p = CHR ''/'' then p @ c else p @ ''/'' @ c)"

definition SERVICE_NAME :: string where "SERVICE_NAME = ''com.higgs.node''"
definition SYSTEMD_UNIT :: string where "SYSTEMD_UNIT = ''higgs-node.service''"
definition PRESERVED_ENV :: "string list" where "PRESERVED_ENV = [''HIGGS_HF_ENDPOINT'', ''HIGGS_ENGINE'']"

definition higgs_current :: "string \<Rightarrow> string" where
  "higgs_current pfx = path_join (path_join (path_join pfx ''bin'') ''current'') ''higgs''"

definition log_path :: "string \<Rightarrow> string" where
  "log_path pfx = path_join (path_join pfx ''logs'') ''node.log''"

definition agent_plist_path :: "string \<Rightarrow> string" where
  "agent_plist_path home = path_join (path_join (path_join home ''Library'') ''LaunchAgents'') (SERVICE_NAME @ ''.plist'')"

definition unpinned_app_env :: "string option \<Rightarrow> (string \<times> string) list \<Rightarrow> string list" where
  "unpinned_app_env model_dir extra_env =
     (if model_dir = None then [''HIGGS_MODEL_DIR''] else []) @
     filter (\<lambda>k. \<not> list_ex (\<lambda>(ek, _). ek = k) extra_env) PRESERVED_ENV @ [''HIGGS_IROH_LOCAL'']"

subsection \<open>The systemd unit\<close>

definition env_line :: "string \<Rightarrow> string" where
  "env_line assignment = ''Environment='' @ [DQ] @ assignment @ [DQ]"

definition systemd_unit ::
  "string \<Rightarrow> string \<Rightarrow> string \<Rightarrow> string option \<Rightarrow> (string \<times> string) list \<Rightarrow> string" where
  "systemd_unit home pfx higgs_home model_dir extra_env =
     (let bin = systemd_exec_escape (higgs_current pfx);
          log = systemd_escape (log_path pfx);
          home_env = systemd_env_escape home;
          state = systemd_env_escape higgs_home;
          model_env = (case model_dir of
                         None \<Rightarrow> []
                       | Some d \<Rightarrow> env_line (''HIGGS_MODEL_DIR='' @ systemd_env_escape d) @ [LF]);
          extra = concat (map (\<lambda>(k, v). env_line (systemd_env_escape k @ ''='' @ systemd_env_escape v) @ [LF]) extra_env);
          unset = unpinned_app_env model_dir extra_env;
          unset_env = (if unset = [] then [] else ''UnsetEnvironment='' @ join_with '' '' unset @ [LF])
      in ''[Unit]'' @ [LF] @
         ''Description=higgs node daemon (fleet worker)'' @ [LF] @
         ''StartLimitIntervalSec=0'' @ [LF] @ [LF] @
         ''[Service]'' @ [LF] @
         ''Type=exec'' @ [LF] @
         env_line (''HOME='' @ home_env) @ [LF] @
         env_line (''HIGGS_HOME='' @ state) @ [LF] @
         model_env @ extra @ unset_env @ ''ExecStart='' @ [DQ] @ bin @ [DQ] @ '' --node'' @ [LF] @
         ''Restart=always'' @ [LF] @
         ''RestartSec=5'' @ [LF] @
         ''StandardOutput=append:'' @ log @ [LF] @
         ''StandardError=append:'' @ log @ [LF] @ [LF] @
         ''[Install]'' @ [LF] @
         ''WantedBy=default.target'' @ [LF])"

subsection \<open>The property list\<close>

definition string_entry :: "string \<Rightarrow> string \<Rightarrow> string" where
  "string_entry key val =
     [LF] @ ''        <key>'' @ key @ ''</key>'' @ [LF] @ ''        <string>'' @ val @ ''</string>''"

definition unlines :: "string list \<Rightarrow> string" where
  "unlines ls = concat (map (\<lambda>l. l @ [LF]) ls)"

definition launchd_plist ::
  "string option \<Rightarrow> string \<Rightarrow> string \<Rightarrow> string \<Rightarrow> string option \<Rightarrow> (string \<times> string) list \<Rightarrow> string" where
  "launchd_plist user home pfx higgs_home model_dir extra_env =
     (let bin = xml_escape (higgs_current pfx);
          user_block = (case user of
                          None \<Rightarrow> []
                        | Some u \<Rightarrow> [LF] @ ''    <key>UserName</key>'' @ [LF] @ ''    <string>'' @ xml_escape u @ ''</string>'');
          home_s = xml_escape home;
          state = xml_escape higgs_home;
          model_env = (case model_dir of None \<Rightarrow> [] | Some d \<Rightarrow> string_entry ''HIGGS_MODEL_DIR'' (xml_escape d));
          extra = concat (map (\<lambda>(k, v). string_entry (xml_escape k) (xml_escape v)) extra_env);
          log = xml_escape (log_path pfx);
          q = [DQ]
      in unlines
           [''<?xml version='' @ q @ ''1.0'' @ q @ '' encoding='' @ q @ ''UTF-8'' @ q @ ''?>'',
            ''<!DOCTYPE plist PUBLIC '' @ q @ ''-//Apple//DTD PLIST 1.0//EN'' @ q @ '' '' @ q @
              ''http://www.apple.com/DTDs/PropertyList-1.0.dtd'' @ q @ ''>'',
            ''<plist version='' @ q @ ''1.0'' @ q @ ''>'',
            ''<dict>'',
            ''    <key>Label</key>'',
            ''    <string>'' @ SERVICE_NAME @ ''</string>'',
            ''    <key>ProgramArguments</key>'',
            ''    <array>'',
            ''        <string>'' @ bin @ ''</string>'',
            ''        <string>--node</string>'',
            ''    </array>'' @ user_block,
            ''    <key>WorkingDirectory</key>'',
            ''    <string>'' @ home_s @ ''</string>'',
            ''    <key>EnvironmentVariables</key>'',
            ''    <dict>'',
            ''        <key>HOME</key>'',
            ''        <string>'' @ home_s @ ''</string>'',
            ''        <key>HIGGS_HOME</key>'',
            ''        <string>'' @ state @ ''</string>'' @ model_env @ extra,
            ''    </dict>'',
            ''    <key>RunAtLoad</key>'',
            ''    <true/>'',
            ''    <key>KeepAlive</key>'',
            ''    <true/>'',
            ''    <key>ThrottleInterval</key>'',
            ''    <integer>5</integer>'',
            ''    <key>Umask</key>'',
            ''    <integer>18</integer>'',
            ''    <key>StandardOutPath</key>'',
            ''    <string>'' @ log @ ''</string>'',
            ''    <key>StandardErrorPath</key>'',
            ''    <string>'' @ log @ ''</string>'',
            ''</dict>'',
            ''</plist>''])"

subsection \<open>Splitting\<close>

text \<open>\<open>str::split_once\<close> on a character.\<close>

fun split_once :: "char \<Rightarrow> string \<Rightarrow> (string \<times> string) option" where
  "split_once c [] = None"
| "split_once c (x # s) =
     (if x = c then Some ([], s) else map_option (\<lambda>(a, b). (x # a, b)) (split_once c s))"

subsection \<open>Escapes lose nothing\<close>

lemma replace_concat: "replace_char c r (concat (map f s)) = concat (map (\<lambda>x. replace_char c r (f x)) s)"
  by (induction s) (simp_all add: replace_char_def)

lemma replace_map: "replace_char c r s = concat (map (\<lambda>x. if x = c then r else [x]) s)"
  by (rule replace_char_def)

definition quote_char :: "char \<Rightarrow> string" where
  "quote_char c = (if c = BS then [BS, BS] else if c = DQ then [BS, DQ] else [c])"

definition doubled :: "char \<Rightarrow> string \<Rightarrow> string" where
  "doubled g s = replace_char g [g, g] s"

lemma doubled_simps [simp]:
  "doubled g [] = []" "doubled g (c # s) = (if c = g then [g, g] else [c]) @ doubled g s"
  by (simp_all add: doubled_def replace_char_def)

lemma quote_chain:
  "replace_char DQ [BS, DQ] (replace_char BS [BS, BS] s) = concat (map quote_char s)"
  unfolding replace_map [of BS] replace_concat
  by (rule arg_cong [where f = concat], rule map_cong) (auto simp: replace_char_def quote_char_def)

lemma double_quoted:
  "g \<noteq> BS \<Longrightarrow> g \<noteq> DQ \<Longrightarrow>
     replace_char g [g, g] (concat (map quote_char s)) = concat (map quote_char (doubled g s))"
  by (induction s) (auto simp: replace_char_def quote_char_def)

lemma env_escape: "systemd_env_escape s = concat (map quote_char (doubled CHR ''%'' s))"
  by (simp add: systemd_env_escape_def quote_chain double_quoted)

lemma exec_escape: "systemd_exec_escape s = concat (map quote_char (doubled CHR ''$'' (doubled CHR ''%'' s)))"
  by (simp add: systemd_exec_escape_def quote_chain double_quoted)

lemma doubled_append: "doubled g (a @ b) = doubled g a @ doubled g b"
  by (simp add: doubled_def replace_char_def)

lemma env_escape_simps [simp]:
  "systemd_env_escape [] = []"
  "systemd_env_escape (c # s) = (if c = CHR ''%'' then ''%%'' else quote_char c) @ systemd_env_escape s"
  by (simp_all add: env_escape quote_char_def)

lemma env_escape_append: "systemd_env_escape (a @ b) = systemd_env_escape a @ systemd_env_escape b"
  by (simp add: env_escape doubled_append)

text \<open>A text coded character by character, by codes none of which begins another, can be decoded.\<close>

lemma code_inj:
  assumes "\<And>a b. prefix (f a) (f b) \<Longrightarrow> a = b" "\<And>a. f a \<noteq> []" "concat (map f s) = concat (map f t)"
  shows "s = t"
  using assms(3)
proof (induction s arbitrary: t)
  case Nil
  then show ?case using assms(2) by (cases t) auto
next
  case (Cons a s)
  then obtain b t' where t: "t = b # t'" using assms(2) by (cases t) auto
  with Cons.prems have e: "f a @ concat (map f s) = f b @ concat (map f t')" by simp
  then have "prefix (f a) (f b) \<or> prefix (f b) (f a)" by (metis prefixI prefix_same_cases)
  then have ab: "a = b" using assms(1) by metis
  with e have "concat (map f s) = concat (map f t')" by simp
  then have "s = t'" by (rule Cons.IH)
  with ab t show ?case by simp
qed

definition env_char :: "char \<Rightarrow> string" where
  "env_char c = (if c = CHR ''%'' then ''%%'' else quote_char c)"

definition exec_char :: "char \<Rightarrow> string" where
  "exec_char c = (if c = CHR ''$'' then ''$$'' else env_char c)"

lemma env_chars: "systemd_env_escape s = concat (map env_char s)"
  unfolding env_escape by (induction s) (auto simp: env_char_def quote_char_def)

lemma exec_chars: "systemd_exec_escape s = concat (map exec_char s)"
  unfolding exec_escape by (induction s) (auto simp: exec_char_def env_char_def quote_char_def)

lemma systemd_escapes_inj:
  "systemd_env_escape s = systemd_env_escape t \<longleftrightarrow> s = t"
  "systemd_exec_escape s = systemd_exec_escape t \<longleftrightarrow> s = t"
proof -
  have env: "env_char a \<noteq> []" "prefix (env_char a) (env_char b) \<Longrightarrow> a = b" for a b
    by (auto simp: env_char_def quote_char_def prefix_def split: if_splits)
  have exec: "exec_char a \<noteq> []" "prefix (exec_char a) (exec_char b) \<Longrightarrow> a = b" for a b
    by (auto simp: exec_char_def env_char_def quote_char_def prefix_def split: if_splits)
  show "systemd_env_escape s = systemd_env_escape t \<longleftrightarrow> s = t"
    unfolding env_chars using code_inj [of env_char, OF env(2,1)] by blast
  show "systemd_exec_escape s = systemd_exec_escape t \<longleftrightarrow> s = t"
    unfolding exec_chars using code_inj [of exec_char, OF exec(2,1)] by blast
qed

subsection \<open>The lines of a unit\<close>

text \<open>The assignments an install pins.\<close>

definition pinned_env ::
  "string \<Rightarrow> string \<Rightarrow> string option \<Rightarrow> (string \<times> string) list \<Rightarrow> (string \<times> string) list" where
  "pinned_env home higgs_home model_dir extra_env =
     [(''HOME'', home), (''HIGGS_HOME'', higgs_home)] @
     (case model_dir of None \<Rightarrow> [] | Some d \<Rightarrow> [(''HIGGS_MODEL_DIR'', d)]) @ extra_env"

definition assignment_of :: "string \<times> string \<Rightarrow> string" where
  "assignment_of kv = fst kv @ ''='' @ snd kv"

definition quoted_env :: "string \<times> string \<Rightarrow> string" where
  "quoted_env kv = [DQ] @ systemd_env_escape (assignment_of kv) @ [DQ]"

definition assign_line :: "string \<Rightarrow> string" where
  "assign_line v = ''Environment='' @ v"

definition unit_lines ::
  "string \<Rightarrow> string \<Rightarrow> string \<Rightarrow> string option \<Rightarrow> (string \<times> string) list \<Rightarrow> string list" where
  "unit_lines home pfx higgs_home model_dir extra_env =
     [''[Unit]'', ''Description=higgs node daemon (fleet worker)'', ''StartLimitIntervalSec=0'', [],
      ''[Service]'', ''Type=exec''] @
     map assign_line (map quoted_env (pinned_env home higgs_home model_dir extra_env)) @
     [''UnsetEnvironment='' @ join_with '' '' (unpinned_app_env model_dir extra_env),
      ''ExecStart='' @ [DQ] @ systemd_exec_escape (higgs_current pfx) @ [DQ] @ '' --node'',
      ''Restart=always'', ''RestartSec=5'',
      ''StandardOutput=append:'' @ systemd_escape (log_path pfx),
      ''StandardError=append:'' @ systemd_escape (log_path pfx), [],
      ''[Install]'', ''WantedBy=default.target'']"

lemma unpinned_not_Nil [simp]: "unpinned_app_env model_dir extra_env \<noteq> []"
  by (simp add: unpinned_app_env_def)

lemma unlines_simps [simp]:
  "unlines [] = []" "unlines (l # ls) = l @ [LF] @ unlines ls" "unlines (ls @ ms) = unlines ls @ unlines ms"
  by (simp_all add: unlines_def)

lemma quoted_env_line: "assign_line (quoted_env (k, v)) = env_line (systemd_env_escape k @ ''='' @ systemd_env_escape v)"
  by (simp add: assign_line_def quoted_env_def assignment_of_def env_line_def env_escape_append quote_char_def)

lemma extra_lines:
  "concat (map (\<lambda>(k, v). env_line (systemd_env_escape k @ ''='' @ systemd_env_escape v) @ [LF]) extra) =
     unlines (map assign_line (map quoted_env extra))"
proof (induction extra)
  case (Cons kv extra)
  then show ?case by (cases kv) (simp only: list.map concat.simps prod.case unlines_simps quoted_env_line append_assoc)
qed simp

lemma literal_env:
  "env_line (''HOME='' @ systemd_env_escape v) = assign_line (quoted_env (''HOME'', v))"
  "env_line (''HIGGS_HOME='' @ systemd_env_escape v) = assign_line (quoted_env (''HIGGS_HOME'', v))"
  "env_line (''HIGGS_MODEL_DIR='' @ systemd_env_escape v) = assign_line (quoted_env (''HIGGS_MODEL_DIR'', v))"
  by (simp_all add: assign_line_def quoted_env_def assignment_of_def env_line_def quote_char_def)

lemma unit_is_lines:
  "systemd_unit home pfx higgs_home model_dir extra_env = unlines (unit_lines home pfx higgs_home model_dir extra_env)"
  by (cases model_dir)
     (simp_all add: systemd_unit_def unit_lines_def pinned_env_def Let_def extra_lines [simplified] literal_env [simplified])

lemma split_unlines: "list_all (\<lambda>l. LF \<notin> set l) ls \<Longrightarrow> split_on LF (unlines ls) = ls @ [[]]"
  by (induction ls) (simp_all add: split_on_append)

subsection \<open>No line break gets in\<close>

lemma set_replace: "set (replace_char c r s) \<subseteq> set s \<union> set r"
  by (auto simp: replace_char_def split: if_splits)

lemma breakless [intro]:
  "LF \<notin> set s \<Longrightarrow> LF \<notin> set r \<Longrightarrow> LF \<notin> set (replace_char c r s)"
  using set_replace by fastforce

lemma breakless_join [intro]: "LF \<notin> set p \<Longrightarrow> LF \<notin> set c \<Longrightarrow> LF \<notin> set (path_join p c)"
  by (auto simp: path_join_def)

lemma breakless_escapes:
  "LF \<notin> set s \<Longrightarrow> LF \<notin> set (systemd_env_escape s)" "LF \<notin> set s \<Longrightarrow> LF \<notin> set (systemd_exec_escape s)"
  "LF \<notin> set s \<Longrightarrow> LF \<notin> set (systemd_escape s)"
  unfolding systemd_env_escape_def systemd_exec_escape_def systemd_escape_def by (intro breakless; simp)+

lemma breakless_paths:
  "LF \<notin> set p \<Longrightarrow> LF \<notin> set (higgs_current p)" "LF \<notin> set p \<Longrightarrow> LF \<notin> set (log_path p)"
  unfolding higgs_current_def log_path_def by (intro breakless_join; simp)+

lemma breakless_unset: "LF \<notin> set (join_with '' '' (unpinned_app_env model_dir extra_env))"
  by (cases "model_dir = None") (auto simp: unpinned_app_env_def PRESERVED_ENV_def)

definition breakless_inputs :: "string \<Rightarrow> string \<Rightarrow> string \<Rightarrow> string option \<Rightarrow> (string \<times> string) list \<Rightarrow> bool" where
  "breakless_inputs home pfx higgs_home model_dir extra_env \<longleftrightarrow>
     LF \<notin> set pfx \<and> list_all (\<lambda>(k, v). LF \<notin> set k \<and> LF \<notin> set v) (pinned_env home higgs_home model_dir extra_env)"

lemma breakless_lines:
  assumes "breakless_inputs home pfx higgs_home model_dir extra_env"
  shows "list_all (\<lambda>l. LF \<notin> set l) (unit_lines home pfx higgs_home model_dir extra_env)"
proof -
  have "LF \<notin> set (quoted_env kv)" if "kv \<in> set (pinned_env home higgs_home model_dir extra_env)" for kv
  proof -
    have "LF \<notin> set (assignment_of kv)"
      using assms that by (auto simp: breakless_inputs_def list_all_iff assignment_of_def)
    then show ?thesis by (simp add: quoted_env_def breakless_escapes)
  qed
  moreover have "LF \<notin> set pfx" using assms by (simp add: breakless_inputs_def)
  ultimately show ?thesis
    by (simp add: unit_lines_def assign_line_def breakless_escapes breakless_paths breakless_unset list_all_iff)
qed

text \<open>Without a line break in an input the lines of the text are the lines of the template.\<close>

lemma unit_text_lines:
  "breakless_inputs home pfx higgs_home model_dir extra_env \<Longrightarrow>
     split_on LF (systemd_unit home pfx higgs_home model_dir extra_env) =
       unit_lines home pfx higgs_home model_dir extra_env @ [[]]"
  unfolding unit_is_lines by (rule split_unlines) (rule breakless_lines)

subsection \<open>Shell words and property lists\<close>

definition xml_char :: "char \<Rightarrow> string" where
  "xml_char c =
     (if c = CHR ''&'' then ''&amp;'' else if c = CHR ''<'' then ''&lt;'' else if c = CHR ''>'' then ''&gt;''
      else if c = DQ then ''&quot;'' else if c = SQ then ''&apos;'' else [c])"

lemma xml_chain: "xml_escape s = concat (map xml_char s)"
  unfolding xml_escape_def replace_map [of "CHR ''&''"] replace_concat
  by (rule arg_cong [where f = concat], rule map_cong) (auto simp: replace_char_def xml_char_def)

lemma xml_escape_inj: "xml_escape s = xml_escape t \<longleftrightarrow> s = t"
proof -
  have xml: "xml_char a \<noteq> []" "prefix (xml_char a) (xml_char b) \<Longrightarrow> a = b" for a b
    by (auto simp: xml_char_def prefix_def split: if_splits)
  show ?thesis unfolding xml_chain using code_inj [of xml_char, OF xml(2,1)] by blast
qed

text \<open>No markup is left in an escaped text.\<close>

lemma xml_escape_plain: "set (xml_escape s) \<inter> {CHR ''<'', CHR ''>'', DQ, SQ} = {}"
  unfolding xml_chain by (induction s) (auto simp: xml_char_def)

end
