(* ===== verification/Service_Install.thy ===== *)
theory Service_Install
  imports Service_Unit
begin

text \<open>
  \<open>higgs node install-service\<close>: the plans of \<open>src/node/service.rs\<close> and, from
  \<open>src/node/cli.rs\<close>, the flags, the environment an install pins, the guards against two nodes on
  one machine, and the run of a plan with its rollback.

  On macOS two property lists may define the node: the agent of the login session, and the daemon
  of the system. \<open>Mac\<close> is what the install can see of them; a look at a file may fail for reasons
  other than absence, and the home that holds the agent's file may be gone. The commands
  (\<open>launchctl\<close>, \<open>rm\<close>) are an argument. The checks of ownership and access before the write, and
  the temporary file, are one argument: the error they end with, if any.
\<close>

subsection \<open>Plans\<close>

datatype ServiceScope = LoginBound | SurvivesLogout
datatype ServiceKind = LaunchdAgent | Launchd | SystemdUser
datatype RootRequirement = RootRequired | RootRefused

record ServiceCommand =
  sc_argv :: "string list"
  sc_best_effort :: bool
  sc_as_operator :: bool

definition required_command :: "string list \<Rightarrow> ServiceCommand" where
  "required_command argv = \<lparr>sc_argv = argv, sc_best_effort = False, sc_as_operator = False\<rparr>"

definition best_effort_command :: "string list \<Rightarrow> ServiceCommand" where
  "best_effort_command argv = \<lparr>sc_argv = argv, sc_best_effort = True, sc_as_operator = False\<rparr>"

definition required_as_operator :: "string list \<Rightarrow> ServiceCommand" where
  "required_as_operator argv = \<lparr>sc_argv = argv, sc_best_effort = False, sc_as_operator = True\<rparr>"

text \<open>The notes of a plan are printed and nothing more; they are left out.\<close>

record ServicePlan =
  sp_kind :: ServiceKind
  sp_unit_path :: string
  sp_unit_content :: string
  sp_commands :: "ServiceCommand list"
  sp_root :: RootRequirement

definition clear_env_command :: "string list \<Rightarrow> ServiceCommand" where
  "clear_env_command names =
     best_effort_command
       [''sh'', ''-c'', ''for v in '' @ join_with '' '' names @ ''; do launchctl unsetenv '' @ [DQ] @ ''$v'' @ [DQ] @ ''; done'']"

definition gui_target :: "nat \<Rightarrow> string" where
  "gui_target uid = ''gui/'' @ dec uid @ ''/'' @ SERVICE_NAME"

definition assert_agent_gone :: "nat \<Rightarrow> ServiceCommand" where
  "assert_agent_gone uid =
     required_command
       [''sh'', ''-c'',
        ''if launchctl print '' @ gui_target uid @ '' >/dev/null 2>&1; then echo '' @ [SQ] @
        ''the login-bound agent is still LOADED (gui bootout failed) '' @ [CHR 0xE2, CHR 0x80, CHR 0x94] @
        '' boot it out (launchctl bootout '' @ gui_target uid @ '') before installing the daemon'' @ [SQ] @
        '' >&2; exit 1; fi'']"

definition remove_agent_command :: "string \<Rightarrow> ServiceCommand" where
  "remove_agent_command home = required_as_operator [''rm'', ''-f'', agent_plist_path home]"

definition plan_launchd ::
  "string \<Rightarrow> string \<Rightarrow> nat \<Rightarrow> string \<Rightarrow> string \<Rightarrow> string option \<Rightarrow> (string \<times> string) list \<Rightarrow> ServicePlan" where
  "plan_launchd user home uid pfx higgs_home model_dir extra_env =
     (let unit_path = ''/Library/LaunchDaemons/'' @ SERVICE_NAME @ ''.plist''
      in \<lparr>sp_kind = Launchd, sp_unit_path = unit_path,
          sp_unit_content = launchd_plist (Some user) home pfx higgs_home model_dir extra_env,
          sp_commands =
            [required_command [''launchctl'', ''enable'', ''system/'' @ SERVICE_NAME],
             remove_agent_command home,
             best_effort_command [''launchctl'', ''bootout'', gui_target uid],
             assert_agent_gone uid,
             best_effort_command [''launchctl'', ''bootout'', ''system/'' @ SERVICE_NAME],
             clear_env_command (unpinned_app_env model_dir extra_env),
             required_command [''launchctl'', ''bootstrap'', ''system'', unit_path]],
          sp_root = RootRequired\<rparr>)"

definition plan_launchd_agent ::
  "string \<Rightarrow> nat \<Rightarrow> string \<Rightarrow> string \<Rightarrow> string option \<Rightarrow> (string \<times> string) list \<Rightarrow> ServicePlan" where
  "plan_launchd_agent home uid pfx higgs_home model_dir extra_env =
     (let unit_path = agent_plist_path home
      in \<lparr>sp_kind = LaunchdAgent, sp_unit_path = unit_path,
          sp_unit_content = launchd_plist None home pfx higgs_home model_dir extra_env,
          sp_commands =
            [required_command [''launchctl'', ''enable'', gui_target uid],
             best_effort_command [''launchctl'', ''bootout'', gui_target uid],
             clear_env_command (unpinned_app_env model_dir extra_env),
             required_command [''launchctl'', ''bootstrap'', ''gui/'' @ dec uid, unit_path]],
          sp_root = RootRefused\<rparr>)"

definition plan_systemd_user ::
  "string \<Rightarrow> string \<Rightarrow> string \<Rightarrow> string \<Rightarrow> string option \<Rightarrow> (string \<times> string) list \<Rightarrow> ServiceScope \<Rightarrow> ServicePlan" where
  "plan_systemd_user user home pfx higgs_home model_dir extra_env scope =
     (let unit_path = path_join pfx SYSTEMD_UNIT
      in \<lparr>sp_kind = SystemdUser, sp_unit_path = unit_path,
          sp_unit_content = systemd_unit home pfx higgs_home model_dir extra_env,
          sp_commands =
            [required_command [''systemctl'', ''--user'', ''enable'', ''--force'', unit_path],
             required_command [''systemctl'', ''--user'', ''daemon-reload''],
             required_command [''systemctl'', ''--user'', ''restart'', SYSTEMD_UNIT]] @
            (case scope of
               LoginBound \<Rightarrow> []
             | SurvivesLogout \<Rightarrow> [best_effort_command [''loginctl'', ''enable-linger'', user]]),
          sp_root = RootRefused\<rparr>)"

text \<open>\<open>macos\<close> is the target the program was built for.\<close>

definition plan_install ::
  "bool \<Rightarrow> string \<Rightarrow> string \<Rightarrow> nat \<Rightarrow> string \<Rightarrow> string \<Rightarrow> string option \<Rightarrow> (string \<times> string) list \<Rightarrow> ServiceScope \<Rightarrow> ServicePlan" where
  "plan_install macos user home uid pfx higgs_home model_dir extra_env scope =
     (if macos then
        (case scope of
           LoginBound \<Rightarrow> plan_launchd_agent home uid pfx higgs_home model_dir extra_env
         | SurvivesLogout \<Rightarrow> plan_launchd user home uid pfx higgs_home model_dir extra_env)
      else plan_systemd_user user home pfx higgs_home model_dir extra_env scope)"

subsection \<open>Errors, flags and the environment\<close>

datatype InstallError =
    NeedsValue string
  | EmptyValue string
  | SwallowedFlag string string
  | NotAbsolute string string
  | ParentComponent string
  | NotAssignment string
  | NotPreserved string
  | UnknownFlag string
  | DaemonLoaded
  | DaemonConflict
  | CrossScopeCoexistence
  | NeedsRoot
  | RefusesRoot
  | Unprepared string
  | RenameFailed
  | NotDurable
  | CommandFailed "string list"

record InstallFlags =
  if_dry_run :: bool
  if_prefix :: "string option"
  if_higgs_home :: "string option"
  if_model_dir :: "string option"
  if_env :: "(string \<times> string) list"
  if_scope :: ServiceScope

definition no_flags :: InstallFlags where
  "no_flags = \<lparr>if_dry_run = False, if_prefix = None, if_higgs_home = None, if_model_dir = None, if_env = [],
     if_scope = LoginBound\<rparr>"

definition has_dotdot :: "string \<Rightarrow> bool" where
  "has_dotdot p \<longleftrightarrow> ''..'' \<in> set (split_on CHR ''/'' p)"

definition reject_dotdot :: "string \<Rightarrow> string \<Rightarrow> InstallError + unit" where
  "reject_dotdot source p = (if has_dotdot p then Inl (ParentComponent source) else Inr ())"

text \<open>\<open>absolute\<close> is \<open>std::path::absolute\<close> in the working directory of the call.\<close>

definition dir_value :: "(string \<Rightarrow> string option) \<Rightarrow> string \<Rightarrow> string \<Rightarrow> InstallError + string" where
  "dir_value absolute flag dir =
     (if dir = [] then Inl (EmptyValue flag)
      else if hd dir = CHR ''-'' then Inl (SwallowedFlag flag dir)
      else case absolute dir of
             None \<Rightarrow> Inl (NotAbsolute flag dir)
           | Some abs_dir \<Rightarrow> if has_dotdot abs_dir then Inl (ParentComponent flag) else Inr abs_dir)"

definition env_flag :: "string \<Rightarrow> InstallFlags \<Rightarrow> InstallError + InstallFlags" where
  "env_flag kv f =
     (case split_once CHR ''='' kv of
        None \<Rightarrow> Inl (NotAssignment kv)
      | Some (k, v) \<Rightarrow>
          if k \<notin> set PRESERVED_ENV then Inl (NotPreserved k)
          else if v = [] then Inl (EmptyValue k)
          else Inr (f\<lparr>if_env := filter (\<lambda>(ek, _). ek \<noteq> k) (if_env f) @ [(k, v)]\<rparr>))"

fun parse_flags :: "(string \<Rightarrow> string option) \<Rightarrow> string list \<Rightarrow> InstallFlags \<Rightarrow> InstallError + InstallFlags" where
  "parse_flags absolute [] f = Inr f"
| "parse_flags absolute (a # args) f =
     (if a = ''--dry-run'' then parse_flags absolute args (f\<lparr>if_dry_run := True\<rparr>)
      else if a = ''--system'' then parse_flags absolute args (f\<lparr>if_scope := SurvivesLogout\<rparr>)
      else if a \<in> set [''--prefix'', ''--higgs-home'', ''--model-dir'', ''--env''] then
        (case args of
           [] \<Rightarrow> Inl (NeedsValue a)
         | v # rest \<Rightarrow>
             if a = ''--env'' then rbind (env_flag v f) (parse_flags absolute rest)
             else rbind (dir_value absolute a v) (\<lambda>d.
               parse_flags absolute rest
                 (if a = ''--prefix'' then f\<lparr>if_prefix := Some d\<rparr>
                  else if a = ''--higgs-home'' then f\<lparr>if_higgs_home := Some d\<rparr>
                  else f\<lparr>if_model_dir := Some d\<rparr>)))
      else Inl (UnknownFlag a))"

text \<open>\<open>env\<close> is the environment of the install.\<close>

definition preserved_env :: "(string \<Rightarrow> string option) \<Rightarrow> (string \<times> string) list \<Rightarrow> (string \<times> string) list" where
  "preserved_env env env_flags =
     List.map_filter (\<lambda>k. case find (\<lambda>(ek, _). ek = k) env_flags of
         Some (_, v) \<Rightarrow> Some (k, v)
       | None \<Rightarrow> map_option (\<lambda>v. (k, v)) (opt_filter (\<lambda>v. v \<noteq> []) (env k)))
     PRESERVED_ENV"

subsection \<open>The property lists of the machine\<close>

record Mac =
  agent_file :: bool
  daemon_file :: bool
  meta_fault :: bool
  home_there :: bool
  daemon_job :: bool

datatype Meta = Found | NotFound | MetaError

definition daemon_meta :: "'x Mac_scheme \<Rightarrow> Meta" where
  "daemon_meta m = (if meta_fault m then MetaError else if daemon_file m then Found else NotFound)"

definition agent_meta :: "'x Mac_scheme \<Rightarrow> Meta" where
  "agent_meta m = (if meta_fault m then MetaError else if home_there m \<and> agent_file m then Found else NotFound)"

definition plist_present :: "Meta \<Rightarrow> bool" where
  "plist_present x \<longleftrightarrow> x \<noteq> NotFound"

definition plist_present_under :: "Meta \<Rightarrow> bool \<Rightarrow> bool" where
  "plist_present_under x root_exists =
     (case x of Found \<Rightarrow> True | NotFound \<Rightarrow> \<not> root_exists | MetaError \<Rightarrow> True)"

definition refuse_daemon_conflict :: "Meta \<Rightarrow> InstallError + unit" where
  "refuse_daemon_conflict daemon = (if plist_present daemon then Inl DaemonConflict else Inr ())"

definition refuse_cross_scope_coexistence :: "Meta \<Rightarrow> Meta \<Rightarrow> bool \<Rightarrow> InstallError + unit" where
  "refuse_cross_scope_coexistence daemon agent root_exists =
     (if plist_present daemon \<and> plist_present_under agent root_exists then Inl CrossScopeCoexistence else Inr ())"

definition should_rollback_unit :: "ServiceKind \<Rightarrow> bool \<Rightarrow> bool \<Rightarrow> bool" where
  "should_rollback_unit kind unit_preexisted agent_plist_present \<longleftrightarrow>
     kind \<in> {LaunchdAgent, Launchd} \<and> \<not> unit_preexisted \<and> agent_plist_present"

text \<open>The unit file of a plan; a systemd unit is not one of the two.\<close>

fun set_unit :: "ServiceKind \<Rightarrow> bool \<Rightarrow> 'x Mac_scheme \<Rightarrow> 'x Mac_scheme" where
  "set_unit LaunchdAgent b m = m\<lparr>agent_file := b\<rparr>"
| "set_unit Launchd b m = m\<lparr>daemon_file := b\<rparr>"
| "set_unit SystemdUser b m = m"

fun unit_meta :: "ServiceKind \<Rightarrow> 'x Mac_scheme \<Rightarrow> Meta" where
  "unit_meta LaunchdAgent m = agent_meta m"
| "unit_meta Launchd m = daemon_meta m"
| "unit_meta SystemdUser m = NotFound"

text \<open>\<open>unlinks\<close>: whether removing the unit file succeeds.\<close>

definition rollback_unit_file :: "bool \<Rightarrow> ServiceKind \<Rightarrow> 'x Mac_scheme \<Rightarrow> 'x Mac_scheme" where
  "rollback_unit_file unlinks kind m = (if unlinks then set_unit kind False m else m)"

definition rollback_unit :: "bool \<Rightarrow> ServiceKind \<Rightarrow> bool \<Rightarrow> 'x Mac_scheme \<Rightarrow> 'x Mac_scheme" where
  "rollback_unit unlinks kind preexisted m =
     (if should_rollback_unit kind preexisted (plist_present_under (agent_meta m) (home_there m))
      then rollback_unit_file unlinks kind m else m)"

text \<open>A command by its words and whose credentials it runs with: whether it succeeded.\<close>

type_synonym 'x host = "string list \<Rightarrow> bool \<Rightarrow> 'x Mac_scheme \<Rightarrow> bool \<times> 'x Mac_scheme"

fun run_commands ::
  "'x host \<Rightarrow> bool \<Rightarrow> bool \<Rightarrow> ServiceKind \<Rightarrow> bool \<Rightarrow> ServiceCommand list \<Rightarrow> 'x Mac_scheme \<Rightarrow>
   (InstallError + unit) \<times> 'x Mac_scheme" where
  "run_commands run root unlinks kind preexisted [] m = (Inr (), m)"
| "run_commands run root unlinks kind preexisted (c # cs) m =
     (case run (sc_argv c) (sc_as_operator c \<and> root) m of
        (ok, m') \<Rightarrow>
          if ok \<or> sc_best_effort c then run_commands run root unlinks kind preexisted cs m'
          else (Inl (CommandFailed (sc_argv c)), rollback_unit unlinks kind preexisted m'))"

text \<open>The flush of the directory after the rename: done, not offered by the file system, or a
  storage error (\<open>dir_fsync_should_abort\<close>).\<close>

datatype Flush = Flushed | FlushUnsupported | FlushFailed

record InstallWorld =
  iw_unprepared :: "string option"
  iw_renames :: bool
  iw_flush :: Flush
  iw_unlinks :: bool

definition install_guards :: "ServicePlan \<Rightarrow> bool \<Rightarrow> 'x Mac_scheme \<Rightarrow> InstallError + unit" where
  "install_guards plan root m =
     rbind (case sp_kind plan of
              LaunchdAgent \<Rightarrow>
                if daemon_job m then Inl DaemonLoaded else refuse_daemon_conflict (daemon_meta m)
            | Launchd \<Rightarrow> refuse_cross_scope_coexistence (daemon_meta m) (agent_meta m) (home_there m)
            | SystemdUser \<Rightarrow> Inr ())
       (\<lambda>_. case sp_root plan of
              RootRequired \<Rightarrow> if \<not> root then Inl NeedsRoot else Inr ()
            | RootRefused \<Rightarrow> if root then Inl RefusesRoot else Inr ())"

definition run_install ::
  "'x host \<Rightarrow> InstallWorld \<Rightarrow> ServicePlan \<Rightarrow> bool \<Rightarrow> 'x Mac_scheme \<Rightarrow> (InstallError + unit) \<times> 'x Mac_scheme" where
  "run_install run w plan root m =
     (case install_guards plan root m of
        Inl e \<Rightarrow> (Inl e, m)
      | Inr _ \<Rightarrow>
          (case iw_unprepared w of
             Some e \<Rightarrow> (Inl (Unprepared e), m)
           | None \<Rightarrow>
               (let kind = sp_kind plan; preexisted = (unit_meta kind m = Found)
                in if \<not> iw_renames w then (Inl RenameFailed, m)
                   else
                     (let m = set_unit kind True m
                      in if iw_flush w = FlushFailed
                         then (Inl NotDurable, rollback_unit (iw_unlinks w) kind preexisted m)
                         else run_commands run root (iw_unlinks w) kind preexisted (sp_commands plan) m))))"

end
