(* ===== verification/Service_Props.thy ===== *)
theory Service_Props
  imports Service_Install
begin

text \<open>
  What an installation guarantees on a host whose commands do what their manuals say and whose home
  stays mounted: it does not leave two definitions of the node behind where there were none or one,
  does not lose the only one, and pins nothing but the variables it may pin. The same for a home
  that is not there, and for a line break in a variable, fails; the theorems at hand say how.
\<close>

subsection \<open>Hosts\<close>

text \<open>What the install relies on: no command creates a property list or takes the home away, and
  an \<open>rm -f\<close> that succeeds while the home is there has removed the file.\<close>

definition careful_host :: "'x host \<Rightarrow> string \<Rightarrow> bool" where
  "careful_host run agent_path \<longleftrightarrow>
     (\<forall>argv op m. case run argv op m of (ok, m') \<Rightarrow>
        (agent_file m' \<longrightarrow> agent_file m) \<and> (daemon_file m' \<longrightarrow> daemon_file m) \<and>
        (home_there m' \<longleftrightarrow> home_there m) \<and>
        (ok \<and> argv = [''rm'', ''-f'', agent_path] \<and> home_there m \<longrightarrow> \<not> agent_file m'))"

text \<open>A host on which, moreover, files can be looked at and only that \<open>rm\<close> removes one.\<close>

definition exact_host :: "'x host \<Rightarrow> string \<Rightarrow> bool" where
  "exact_host run agent_path \<longleftrightarrow>
     (\<forall>argv op m. case run argv op m of (ok, m') \<Rightarrow>
        (daemon_file m' \<longleftrightarrow> daemon_file m) \<and> (home_there m' \<longleftrightarrow> home_there m) \<and>
        (meta_fault m' \<longleftrightarrow> meta_fault m) \<and>
        (agent_file m' \<longleftrightarrow> agent_file m) \<or> argv = [''rm'', ''-f'', agent_path] \<and>
        (daemon_file m' \<longleftrightarrow> daemon_file m) \<and> (home_there m' \<longleftrightarrow> home_there m) \<and>
        (meta_fault m' \<longleftrightarrow> meta_fault m) \<and> \<not> agent_file m')"

lemma carefulD:
  assumes "careful_host run p" "run argv op m = (ok, m')"
  shows "agent_file m' \<Longrightarrow> agent_file m" "daemon_file m' \<Longrightarrow> daemon_file m" "home_there m' = home_there m"
    "ok \<Longrightarrow> argv = [''rm'', ''-f'', p] \<Longrightarrow> home_there m \<Longrightarrow> \<not> agent_file m'"
  using assms(1) [unfolded careful_host_def, THEN spec [of _ argv], THEN spec [of _ op], THEN spec [of _ m]] assms(2)
  by auto

lemma exactD:
  assumes "exact_host run p" "run argv op m = (ok, m')"
  shows "daemon_file m' = daemon_file m" "home_there m' = home_there m" "meta_fault m' = meta_fault m"
    "agent_file m' \<Longrightarrow> agent_file m" "argv \<noteq> [''rm'', ''-f'', p] \<Longrightarrow> agent_file m' = agent_file m"
  using assms(1) [unfolded exact_host_def, THEN spec [of _ argv], THEN spec [of _ op], THEN spec [of _ m]] assms(2)
  by auto

lemma set_unit_simps [simp]:
  "home_there (set_unit k b m) = home_there m" "meta_fault (set_unit k b m) = meta_fault m"
  by (cases k; simp)+

lemma rollback_shrinks:
  "agent_file (rollback_unit u k p m) \<Longrightarrow> agent_file m" "daemon_file (rollback_unit u k p m) \<Longrightarrow> daemon_file m"
  by (cases k; auto simp: rollback_unit_def rollback_unit_file_def split: if_splits)+

lemma agent_seen: "agent_file m \<Longrightarrow> home_there m \<Longrightarrow> plist_present_under (agent_meta m) (home_there m)"
  by (simp add: agent_meta_def plist_present_under_def)

lemma rollback_leaves_one:
  "home_there m \<Longrightarrow> \<not> (agent_file (rollback_unit True Launchd False m) \<and> daemon_file (rollback_unit True Launchd False m))"
  using agent_seen [of m] by (auto simp: rollback_unit_def rollback_unit_file_def should_rollback_unit_def)

subsection \<open>Running a plan\<close>

lemma run_shrinks:
  assumes "careful_host run p" "run_commands run root u k pre cs m = (r, m')"
  shows "(agent_file m' \<longrightarrow> agent_file m) \<and> (daemon_file m' \<longrightarrow> daemon_file m)"
  using assms(2)
proof (induction cs arbitrary: m)
  case (Cons c cs)
  obtain ok m1 where step: "run (sc_argv c) (sc_as_operator c \<and> root) m = (ok, m1)" by fastforce
  note less = carefulD(1,2) [OF assms(1) step]
  show ?case
  proof (cases "ok \<or> sc_best_effort c")
    case True
    with Cons step less show ?thesis by auto
  next
    case False
    with Cons.prems step have "m' = rollback_unit u k pre m1" by simp
    with rollback_shrinks [of u k pre m1] less show ?thesis by auto
  qed
qed simp

lemma run_fails_with_one:
  assumes "careful_host run p" "run_commands run root True Launchd False cs m = (Inl e, m')" "home_there m"
  shows "\<not> (agent_file m' \<and> daemon_file m')"
  using assms(2,3)
proof (induction cs arbitrary: m)
  case (Cons c cs)
  obtain ok m1 where step: "run (sc_argv c) (sc_as_operator c \<and> root) m = (ok, m1)" by fastforce
  have home: "home_there m1" using carefulD(3) [OF assms(1) step] Cons.prems(2) by simp
  show ?case
  proof (cases "ok \<or> sc_best_effort c")
    case True
    with Cons.prems step home show ?thesis by (intro Cons.IH [of m1]) simp_all
  next
    case False
    with Cons.prems step have "m' = rollback_unit True Launchd False m1" by simp
    with rollback_leaves_one [OF home] show ?thesis by simp
  qed
qed simp

lemma run_removes_agent:
  assumes "careful_host run p" "run_commands run root u k pre cs m = (Inr (), m')" "home_there m"
    and "c \<in> set cs" "sc_argv c = [''rm'', ''-f'', p]" "\<not> sc_best_effort c"
  shows "\<not> agent_file m'"
  using assms(2-4)
proof (induction cs arbitrary: m)
  case (Cons d cs)
  obtain ok m1 where step: "run (sc_argv d) (sc_as_operator d \<and> root) m = (ok, m1)" by fastforce
  with Cons.prems(1) have rest: "run_commands run root u k pre cs m1 = (Inr (), m')" "ok \<or> sc_best_effort d"
    by (auto split: if_splits)
  show ?case
  proof (cases "d = c")
    case True
    with rest(2) assms(5,6) Cons.prems(2) have "\<not> agent_file m1"
      using carefulD(4) [OF assms(1) step] by simp
    with run_shrinks [OF assms(1) rest(1)] show ?thesis by auto
  next
    case False
    with Cons.prems rest(1) carefulD(3) [OF assms(1) step] show ?thesis
      by (intro Cons.IH [of m1]) simp_all
  qed
qed simp

subsection \<open>Never two\<close>

text \<open>C19. An install on a Mac does not leave the property lists of both scopes behind where there were
  not both before, wherever it stops: at a guard, before or after its file is in place, at a failed
  flush, or at any command, and whatever commands and looks at files fail. The conditions, stated
  as hypotheses (\<open>unavailable_home_leaves_two\<close> below shows what happens without the home): the commands of the plan create neither of the two files, do not make the home come or go,
  and an \<open>rm -f\<close> of the agent's file that succeeds while the home is there has removed it; the home
  is there; and the removal of the unit file in a rollback works.\<close>

theorem install_never_leaves_two:
  assumes "careful_host run (agent_plist_path home)" "iw_unlinks w" "home_there m"
    and "\<not> (agent_file m \<and> daemon_file m)"
  shows "case run_install run w (plan_install True user home uid pfx higgs_home model_dir extra_env scope) root m of
    (r, m') \<Rightarrow> \<not> (agent_file m' \<and> daemon_file m')"
proof (cases scope)
  case LoginBound
  let ?plan = "plan_launchd_agent home uid pfx higgs_home model_dir extra_env"
  obtain r m' where run: "run_install run w ?plan root m = (r, m')" by fastforce
  have "\<not> (agent_file m' \<and> daemon_file m')"
  proof (cases "install_guards ?plan root m")
    case (Inr x)
    then have "\<not> daemon_file m"
      by (auto simp: install_guards_def plan_launchd_agent_def Let_def refuse_daemon_conflict_def plist_present_def
          daemon_meta_def split: if_splits)
    moreover
    let ?pre = "agent_meta m = Found" and ?d = "set_unit LaunchdAgent True m"
    consider "m' = m" | "m' = rollback_unit True LaunchdAgent ?pre ?d"
      | "run_commands run root True LaunchdAgent ?pre (sp_commands ?plan) ?d = (r, m')"
      using run Inr assms(2)
      by (auto simp: run_install_def Let_def plan_launchd_agent_def split: option.splits if_splits)
    then have "daemon_file m' \<longrightarrow> daemon_file m"
    proof cases
      case 2
      then show ?thesis using rollback_shrinks(2) [of True LaunchdAgent ?pre ?d] by auto
    next
      case 3
      then show ?thesis using run_shrinks [OF assms(1) 3] by simp
    qed simp
    ultimately show ?thesis by blast
  qed (use run assms(4) in \<open>simp add: run_install_def\<close>)
  with run LoginBound show ?thesis by (simp add: plan_install_def)
next
  case SurvivesLogout
  let ?plan = "plan_launchd user home uid pfx higgs_home model_dir extra_env"
  let ?d = "set_unit Launchd True m"
  obtain r m' where run: "run_install run w ?plan root m = (r, m')" by fastforce
  have "\<not> (agent_file m' \<and> daemon_file m')"
  proof (cases "install_guards ?plan root m")
    case (Inr x)
    then have seen: "\<not> meta_fault m"
      by (auto simp: install_guards_def plan_launchd_def Let_def refuse_cross_scope_coexistence_def
          plist_present_def plist_present_under_def daemon_meta_def agent_meta_def split: if_splits)
    let ?pre = "daemon_meta m = Found"
    consider "m' = m" | "m' = rollback_unit True Launchd ?pre ?d"
      | "run_commands run root True Launchd ?pre (sp_commands ?plan) ?d = (r, m')"
      using run Inr assms(2)
      by (auto simp: run_install_def Let_def plan_launchd_def split: option.splits if_splits)
    then show ?thesis
    proof cases
      case 2
      show ?thesis
      proof (cases "daemon_file m")
        case True
        with 2 assms(4) rollback_shrinks(1) [of True Launchd ?pre ?d] show ?thesis by auto
      next
        case False
        with 2 seen assms(3) rollback_leaves_one [of ?d] show ?thesis by (simp add: daemon_meta_def)
      qed
    next
      case 3
      show ?thesis
      proof (cases "daemon_file m")
        case True
        with run_shrinks [OF assms(1) 3] assms(4) show ?thesis by auto
      next
        case False
        with seen have pre: "\<not> ?pre" by (simp add: daemon_meta_def)
        show ?thesis
        proof (cases r)
          case (Inl e)
          with 3 pre have "run_commands run root True Launchd False (sp_commands ?plan) ?d = (Inl e, m')" by simp
          from run_fails_with_one [OF assms(1) this] assms(3) show ?thesis by simp
        next
          case (Inr u)
          with 3 have ran: "run_commands run root True Launchd ?pre (sp_commands ?plan) ?d = (Inr (), m')" by simp
          have "\<not> agent_file m'"
            by (rule run_removes_agent [OF assms(1) ran, where c = "remove_agent_command home"])
               (use assms(3) in
                 \<open>simp_all add: plan_launchd_def remove_agent_command_def required_as_operator_def Let_def\<close>)
          then show ?thesis by simp
        qed
      qed
    qed (use assms(4) in simp)
  qed (use run assms(4) in \<open>simp add: run_install_def\<close>)
  with run SurvivesLogout show ?thesis by (simp add: plan_install_def)
qed

text \<open>A host on which the switch from the agent to the daemon fails at its last command.\<close>

definition demo_host :: "unit host" where
  "demo_host argv op m =
     (if argv = [''rm'', ''-f'', agent_plist_path ''/h''] then (True, m\<lparr>agent_file := False\<rparr>)
      else (take 2 argv \<noteq> [''launchctl'', ''bootstrap''], m))"

definition demo_mac :: Mac where
  "demo_mac = \<lparr>agent_file = True, daemon_file = False, meta_fault = False, home_there = True, daemon_job = False\<rparr>"

definition demo_install :: InstallWorld where
  "demo_install = \<lparr>iw_unprepared = None, iw_renames = True, iw_flush = Flushed, iw_unlinks = True\<rparr>"

lemma demo_hosts: "careful_host demo_host (agent_plist_path ''/h'')" "exact_host demo_host (agent_plist_path ''/h'')"
  by (simp_all add: careful_host_def exact_host_def demo_host_def)

lemma demo_switch:
  "run_install demo_host demo_install (plan_install True ''u'' ''/h'' 501 ''/h/.higgs'' ''/h/.higgs'' None [] SurvivesLogout)
     True demo_mac =
   (Inl (CommandFailed [''launchctl'', ''bootstrap'', ''system'', ''/Library/LaunchDaemons/com.higgs.node.plist'']),
    demo_mac\<lparr>agent_file := False, daemon_file := True\<rparr>)"
  by (simp add: run_install_def plan_install_def plan_launchd_def install_guards_def demo_install_def demo_mac_def
      refuse_cross_scope_coexistence_def plist_present_def plist_present_under_def daemon_meta_def agent_meta_def
      required_command_def best_effort_command_def remove_agent_command_def required_as_operator_def
      assert_agent_gone_def clear_env_command_def demo_host_def rollback_unit_def should_rollback_unit_def
      SERVICE_NAME_def Let_def)

theorem install_never_leaves_two_witness:
  "case run_install demo_host demo_install
       (plan_install True ''u'' ''/h'' 501 ''/h/.higgs'' ''/h/.higgs'' None [] SurvivesLogout) True demo_mac of
     (r, m') \<Rightarrow> \<not> (agent_file m' \<and> daemon_file m')"
  by (rule install_never_leaves_two [OF demo_hosts(1)]) (simp_all add: demo_install_def demo_mac_def)

text \<open>Without the home the required \<open>rm -f\<close> succeeds on a file it cannot see: a switch then ends
  well, and both definitions are there once the home is back.\<close>

theorem unavailable_home_leaves_two:
  "case run_install (\<lambda>argv op m. (True, m)) demo_install
       (plan_install True ''u'' ''/net/u'' 501 ''/opt/higgs'' ''/opt/state'' None [] SurvivesLogout) True
       (demo_mac\<lparr>home_there := False\<rparr>) of
     (r, m') \<Rightarrow> r = Inr () \<and> agent_file m' \<and> daemon_file m'"
  by (simp add: run_install_def plan_install_def plan_launchd_def install_guards_def demo_install_def demo_mac_def
      refuse_cross_scope_coexistence_def plist_present_def plist_present_under_def daemon_meta_def agent_meta_def
      Let_def)

subsection \<open>Never none\<close>

lemma run_keeps_daemon:
  assumes "exact_host run p" "run_commands run root u Launchd pre cs m = (r, m')"
    and "daemon_file m" "home_there m" "\<not> meta_fault m"
  shows "agent_file m' \<or> daemon_file m'"
  using assms(2-5)
proof (induction cs arbitrary: m)
  case (Cons c cs)
  obtain ok m1 where step: "run (sc_argv c) (sc_as_operator c \<and> root) m = (ok, m1)" by fastforce
  with Cons.prems have m1: "daemon_file m1" "home_there m1" "\<not> meta_fault m1"
    using exactD [OF assms(1) step] by simp_all
  show ?case
  proof (cases "ok \<or> sc_best_effort c")
    case True
    with Cons.prems step m1 show ?thesis by (intro Cons.IH [of m1]) simp_all
  next
    case False
    with Cons.prems step have "m' = rollback_unit u Launchd pre m1" by simp
    with m1 show ?thesis
      by (auto simp: rollback_unit_def rollback_unit_file_def should_rollback_unit_def agent_meta_def
          plist_present_under_def split: if_splits)
  qed
qed simp

lemma run_keeps_agent:
  assumes "exact_host run p" "run_commands run root u LaunchdAgent True cs m = (r, m')" "agent_file m"
    and "list_all (\<lambda>c. sc_argv c \<noteq> [''rm'', ''-f'', p]) cs"
  shows "agent_file m'"
  using assms(2-4)
proof (induction cs arbitrary: m)
  case (Cons c cs)
  obtain ok m1 where step: "run (sc_argv c) (sc_as_operator c \<and> root) m = (ok, m1)" by fastforce
  with Cons.prems have m1: "agent_file m1" using exactD(5) [OF assms(1) step] by simp
  show ?case
  proof (cases "ok \<or> sc_best_effort c")
    case True
    with Cons.prems step m1 show ?thesis by (intro Cons.IH [of m1]) simp_all
  next
    case False
    with Cons.prems step m1 show ?thesis by (auto simp: rollback_unit_def should_rollback_unit_def)
  qed
qed simp

text \<open>C38. Where the node was defined it stays defined: if one of the two property lists is there before
  an install on a Mac, one is there afterwards, whatever fails: a switch that fails before the
  agent's file is gone keeps the agent, one that fails later keeps the daemon's new file, and a
  reinstall keeps its own. The conditions: the home is there and stays, files can be looked at, and
  no command of the plan creates or removes one of the two files but the \<open>rm -f\<close> of the agent's.\<close>

theorem install_keeps_a_definition:
  assumes "exact_host run (agent_plist_path home)" "home_there m" "\<not> meta_fault m" "agent_file m \<or> daemon_file m"
  shows "case run_install run w (plan_install True user home uid pfx higgs_home model_dir extra_env scope) root m of
    (r, m') \<Rightarrow> agent_file m' \<or> daemon_file m'"
proof (cases scope)
  case LoginBound
  let ?plan = "plan_launchd_agent home uid pfx higgs_home model_dir extra_env"
  let ?d = "set_unit LaunchdAgent True m"
  obtain r m' where run: "run_install run w ?plan root m = (r, m')" by fastforce
  have "agent_file m' \<or> daemon_file m'"
  proof (cases "install_guards ?plan root m")
    case (Inr x)
    then have "\<not> daemon_file m"
      by (auto simp: install_guards_def plan_launchd_agent_def Let_def refuse_daemon_conflict_def plist_present_def
          daemon_meta_def split: if_splits)
    with assms have pre: "agent_meta m = Found" by (simp add: agent_meta_def)
    consider "m' = m" | "m' = rollback_unit (iw_unlinks w) LaunchdAgent True ?d"
      | "run_commands run root (iw_unlinks w) LaunchdAgent True (sp_commands ?plan) ?d = (r, m')"
      using run Inr pre
      by (auto simp: run_install_def Let_def plan_launchd_agent_def split: option.splits if_splits)
    then show ?thesis
    proof cases
      case 3
      then have "agent_file m'"
        by (rule run_keeps_agent [OF assms(1)])
           (simp_all add: plan_launchd_agent_def required_command_def best_effort_command_def clear_env_command_def Let_def)
      then show ?thesis ..
    qed (use assms(4) in \<open>simp_all add: rollback_unit_def should_rollback_unit_def\<close>)
  qed (use run assms(4) in \<open>simp add: run_install_def\<close>)
  with run LoginBound show ?thesis by (simp add: plan_install_def)
next
  case SurvivesLogout
  let ?plan = "plan_launchd user home uid pfx higgs_home model_dir extra_env"
  let ?d = "set_unit Launchd True m"
  obtain r m' where run: "run_install run w ?plan root m = (r, m')" by fastforce
  have "agent_file m' \<or> daemon_file m'"
  proof (cases "install_guards ?plan root m")
    case (Inr x)
    let ?pre = "daemon_meta m = Found"
    consider "m' = m" | "m' = rollback_unit (iw_unlinks w) Launchd ?pre ?d"
      | "run_commands run root (iw_unlinks w) Launchd ?pre (sp_commands ?plan) ?d = (r, m')"
      using run Inr
      by (auto simp: run_install_def Let_def plan_launchd_def split: option.splits if_splits)
    then show ?thesis
    proof cases
      case 2
      with assms show ?thesis
        by (auto simp: rollback_unit_def rollback_unit_file_def should_rollback_unit_def agent_meta_def
            plist_present_under_def)
    next
      case 3
      with assms show ?thesis by (intro run_keeps_daemon [OF assms(1) 3]) simp_all
    qed (use assms(4) in simp)
  qed (use run assms(4) in \<open>simp add: run_install_def\<close>)
  with run SurvivesLogout show ?thesis by (simp add: plan_install_def)
qed

theorem install_keeps_a_definition_witness:
  "case run_install demo_host demo_install
       (plan_install True ''u'' ''/h'' 501 ''/h/.higgs'' ''/h/.higgs'' None [] SurvivesLogout) True demo_mac of
     (r, m') \<Rightarrow> agent_file m' \<or> daemon_file m'"
  by (rule install_keeps_a_definition [OF demo_hosts(2)]) (simp_all add: demo_mac_def)

subsection \<open>The pinned environment\<close>

text \<open>What is pinned beside the paths are the preserved variables and no others, each once, the
  flag before the environment of the install, and never empty from there.\<close>

theorem preserved_env_exact:
  "map fst (preserved_env env fl) =
     filter (\<lambda>k. list_ex (\<lambda>(ek, _). ek = k) fl \<or> opt_filter (\<lambda>v. v \<noteq> []) (env k) \<noteq> None) PRESERVED_ENV"
proof -
  have "map fst (List.map_filter (\<lambda>k. case find (\<lambda>(ek, _). ek = k) fl of
         Some (_, v) \<Rightarrow> Some (k, v)
       | None \<Rightarrow> map_option (\<lambda>v. (k, v)) (opt_filter (\<lambda>v. v \<noteq> []) (env k))) ks) =
      filter (\<lambda>k. list_ex (\<lambda>(ek, _). ek = k) fl \<or> opt_filter (\<lambda>v. v \<noteq> []) (env k) \<noteq> None) ks" for ks
  proof (induction ks)
    case (Cons k ks)
    have "list_ex (\<lambda>(ek, _). ek = k) fl \<longleftrightarrow> find (\<lambda>(ek, _). ek = k) fl \<noteq> None"
      by (auto simp: find_None_iff list_ex_iff)
    with Cons show ?case
      by (cases "find (\<lambda>(ek, _). ek = k) fl") (auto simp: List.map_filter_simps opt_filter_def split: option.splits if_splits)
  qed (simp add: List.map_filter_simps)
  then show ?thesis by (simp add: preserved_env_def)
qed

text \<open>A line break in the value of a preserved variable passes the flags and the escape, and
  what follows it is a line of the unit on its own.\<close>

definition broken_value :: string where
  "broken_value = ''HIGGS_ENGINE=x'' @ [LF] @ ''Environment=LD_PRELOAD=/tmp/e.so'' @ [LF] @ ''#''"

theorem line_break_adds_a_directive:
  "case parse_flags Some [''--env'', broken_value] no_flags of
     Inl _ \<Rightarrow> False
   | Inr f \<Rightarrow>
       ''Environment=LD_PRELOAD=/tmp/e.so'' \<in> set (split_on LF
         (systemd_unit ''/h'' ''/h/.higgs'' ''/h/.higgs'' None (preserved_env (\<lambda>_. None) (if_env f))))"
  by code_simp

end
