(* ===== verification/Supervisor_Props.thy ===== *)
theory Supervisor_Props
  imports Supervisor "HOL-Library.Multiset"
begin

text \<open>
  The properties of the supervisor machine: the demux invariants carried through every
  schedule, replies that match their requests, the accounting of child processes, and, within
  one worker lifetime, no hanging caller after a death, no worker after a stop, and progress of
  \<open>stop\<close>. At the end, the two schedules in which the code does not do what its comments say.
\<close>

lemmas sup_defs =
  register_call_def open_call_def request_def chat_def finish_call_def send_call_def
  receive_call_def timeout_call_def alloc_request_id_def do_spawn_def close_tx_def
  fail_pending_def drop_sinks_def announce_death_def goto_def lock_and_take_def reap_def
  install_begin_def install_end_def next_transport_def spawn_replacement_def stop_step_def
  record_last_load_def bump_epoch_def replay_step_def reader_step_def

lemmas sup_splits = option.splits if_splits prod.splits oneshot.splits stop_pc.splits
  replay_pc.splits reader_pc.splits sum.splits

subsection \<open>Facts about the demux along every schedule\<close>

text \<open>A property of the demux that every operation on it keeps.\<close>

definition demux_closed :: "(Demux \<Rightarrow> bool) \<Rightarrow> bool" where
  "demux_closed P \<longleftrightarrow>
     (\<forall>d. P d \<longrightarrow>
        (\<forall>i. P (snd (register_pending i d)) \<and> P (remove_pending i d) \<and>
             P (snd (register_sink i d)) \<and> P (remove_sink i d)) \<and>
        (\<forall>r. P (correlate r d)) \<and> (\<forall>i c. P (route_chunk i c d)) \<and>
        P (fail_all_pending d) \<and> P (clear_sinks d))"

lemma demux_closedD:
  assumes "demux_closed P" "P d"
  shows "P (snd (register_pending i d))" "P (remove_pending i d)" "P (snd (register_sink i d))"
    "P (remove_sink i d)" "P (correlate r d)" "P (route_chunk i c d)" "P (fail_all_pending d)"
    "P (clear_sinks d)"
  using assms unfolding demux_closed_def by blast+

lemma demux_finish_call:
  "demux (finish_call k r s) =
     (if call_kind (callers s ! k) = ChatRpc then remove_sink (call_id (callers s ! k)) (demux s)
      else demux s)"
  by (simp add: finish_call_def Let_def)

lemma demux_simps [simp]:
  "demux (goto i pc s) = demux s"
  "demux (reap c s) = demux s"
  "demux (lock_and_take s) = demux s"
  "demux (next_transport i ch s) = demux s"
  "demux (announce_death d s) = demux s"
  "demux (close_tx s) = demux s"
  "demux (drop_sinks s) = clear_sinks (demux s)"
  "demux (fail_pending s) = fail_all_pending (demux s)"
  "demux (spawn_replacement i f s) = demux s"
  "demux (record_last_load p s) = demux s"
  "demux (bump_epoch s) = demux s"
  "demux (open_call ck m pf s) = demux s"
  "demux (register_call k s) = snd (register_pending (call_id (callers s ! k)) (demux s))"
  "demux (snd (do_spawn f s)) = demux s"
  "demux (install_end i ch old s) = demux s"
  by (simp_all add: sup_defs Let_def split: prod.split option.split)

lemma callers_simps [simp]:
  "callers (goto i pc s) = callers s"
  "callers (reap c s) = callers s"
  "callers (lock_and_take s) = callers s"
  "callers (next_transport i ch s) = callers s"
  "callers (announce_death d s) = callers s"
  "callers (close_tx s) = callers s"
  "callers (drop_sinks s) = callers s"
  "callers (fail_pending s) = callers s"
  "callers (spawn_replacement i f s) = callers s"
  "callers (record_last_load p s) = callers s"
  "callers (bump_epoch s) = callers s"
  "callers (snd (do_spawn f s)) = callers s"
  "callers (install_end i ch old s) = callers s"
  by (simp_all add: sup_defs Let_def split: prod.split option.split)

lemma dispatch_frame_closed: "demux_closed P \<Longrightarrow> P d \<Longrightarrow> P (dispatch_frame f d)"
  by (auto simp: dispatch_frame_def route_notification_def demux_closedD
      split: sum.split RpcFrame.split option.split)

lemma reader_step_demux:
  "reader_step i s = Some t \<Longrightarrow>
     callers t = callers s \<and>
     (demux t = demux s \<or> demux t = fail_all_pending (demux s) \<or> demux t = clear_sinks (demux s))"
  by (auto simp: reader_step_def install_begin_def Let_def split: reader_pc.splits if_splits option.splits)

lemma stop_step_demux: "stop_step s = Some t \<Longrightarrow> callers t = callers s \<and> demux t = demux s"
  by (auto simp: stop_step_def split: stop_pc.splits if_splits)

text \<open>What a step does to the demux and the callers: nothing to both, an operation of the
  demux, or one of the caller steps.\<close>

lemma sup_step_demux:
  assumes c: "demux_closed P" and p: "P (demux s)" and st: "sup_step l s = Some t"
  shows "P (demux t)"
proof (cases l)
  case (LReader i)
  with st have "reader_step i s = Some t" by (auto split: if_splits)
  from reader_step_demux [OF this] c p show ?thesis by (auto simp: demux_closedD)
next
  case LStop
  with st stop_step_demux [of s t] p show ?thesis by simp
next
  case (LReplay k)
  with st c p show ?thesis
    by (auto simp: replay_step_def request_def demux_closedD Let_def split: if_splits replay_pc.splits)
qed (use st c p in \<open>auto simp: request_def chat_def send_call_def receive_call_def timeout_call_def
      demux_finish_call dispatch_frame_closed demux_closedD Let_def
      split: if_splits option.splits oneshot.splits\<close>)

lemma reachable_demux:
  assumes "demux_closed P" "P demux_new"
  shows "reachable s \<Longrightarrow> P (demux s)"
proof (induction rule: reachable.induct)
  case reachable_new
  with assms(2) show ?case by (simp add: sup_new_def)
next
  case (reachable_step s l t)
  then show ?case using sup_step_demux [OF assms(1)] by blast
qed

lemma closed_demux_inv: "demux_closed (\<lambda>d. demux_inv d \<and> no_stranded d)"
  by (simp add: demux_closed_def inv_intros no_stranded_register_pending
      no_stranded_remove_pending no_stranded_correlate no_stranded_fail_all_pending)

lemma reachable_demux_inv:
  assumes "reachable s"
  shows "demux_inv (demux s)" "no_stranded (demux s)"
  using reachable_demux [OF closed_demux_inv _ assms] demux_inv_new no_stranded_new by simp_all

subsection \<open>Replies match their requests\<close>

text \<open>A caller that has registered holds an address of the store that is registered under its
  own id only, and an answer found there carries that id.\<close>

definition active_pc :: "call_pc \<Rightarrow> bool" where
  "active_pc pc \<longleftrightarrow> pc = Registered \<or> pc = Waiting"

definition call_ok :: "Demux \<Rightarrow> caller \<Rightarrow> bool" where
  "call_ok d c \<longleftrightarrow>
     (active_pc (call_pc c) \<longrightarrow>
        call_addr c < length (oneshots d) \<and>
        (\<forall>j. map_of (pending d) j = Some (call_addr c) \<longrightarrow> j = call_id c) \<and>
        (\<forall>r. oneshots d ! call_addr c = Sent r \<longrightarrow> resp_id r = call_id c))"

lemma call_ok_inactive [simp]: "\<not> active_pc (call_pc c) \<Longrightarrow> call_ok d c"
  by (simp add: call_ok_def)

lemma active_pc_simps [simp]:
  "active_pc Registered" "active_pc Waiting" "\<not> active_pc SinkOnly" "\<not> active_pc (Done r)"
  by (simp_all add: active_pc_def)

lemma call_ok_register_pending:
  "call_ok d c \<Longrightarrow> call_ok (snd (register_pending i d)) c"
  by (auto simp: call_ok_def register_pending_def Let_def update_conv' nth_append nth_drop_oneshot
      split: option.splits if_splits)

lemma call_ok_remove_pending: "call_ok d c \<Longrightarrow> call_ok (remove_pending i d) c"
  by (auto simp: call_ok_def remove_pending_def delete_conv' nth_drop_oneshot
      split: option.splits if_splits)

lemma call_ok_correlate: "call_ok d c \<Longrightarrow> call_ok (correlate r d) c"
  by (auto simp: call_ok_def correlate_def delete_conv' nth_list_update_if
      split: option.splits if_splits) metis

lemma call_ok_fail_all_pending: "call_ok d c \<Longrightarrow> call_ok (fail_all_pending d) c"
  by (auto simp: call_ok_def fail_all_pending_def nth_fold_drop_oneshot split: if_splits)

lemma call_ok_sinks [simp]:
  "call_ok (snd (register_sink i d)) c = call_ok d c"
  "call_ok (remove_sink i d) c = call_ok d c"
  "call_ok (route_chunk i x d) c = call_ok d c"
  "call_ok (clear_sinks d) c = call_ok d c"
  by (simp_all add: call_ok_def register_sink_def remove_sink_def route_chunk_def
      clear_sinks_def Let_def split: option.split)

lemma closed_call_ok: "demux_closed (\<lambda>d. call_ok d c)"
  by (simp add: demux_closed_def call_ok_register_pending call_ok_remove_pending
      call_ok_correlate call_ok_fail_all_pending)

lemma closed_all: "(\<And>c. demux_closed (\<lambda>d. P d c)) \<Longrightarrow> demux_closed (\<lambda>d. \<forall>c \<in> set cs. P d c)"
  unfolding demux_closed_def by blast

text \<open>The callers change only at their own steps; elsewhere the list stays.\<close>

text \<open>The new caller's address is fresh.\<close>

lemma call_ok_new:
  assumes "demux_inv d" "call_addr c = length (oneshots d)" "call_id c = i"
  shows "call_ok (snd (register_pending i d)) c"
proof -
  have t: "table_inv (pending d) (oneshots d) (\<lambda>c. c = Pending)"
    using assms(1) by (simp add: demux_inv_def)
  show ?thesis
    using assms(2,3) table_invD(3) [OF t]
    by (auto simp: call_ok_def register_pending_def Let_def update_conv' nth_append
        split: option.splits if_splits)
qed

lemma fst_register_pending [simp]: "fst (register_pending i d) = length (oneshots d)"
  by (simp add: register_pending_def Let_def)

lemma callers_register_call:
  "callers (register_call k s) =
     (callers s)[k := (callers s ! k)\<lparr>call_addr := length (oneshots (demux s)), call_pc := Registered\<rparr>]"
  by (simp add: register_call_def Let_def register_pending_def)

lemma callers_open_call:
  "callers (open_call ck m pf s) =
     callers s @ [\<lparr>call_kind = ck, call_id = next_id s, call_addr = 0, call_method = m,
       call_params = pf (next_id s), call_pc = SinkOnly\<rparr>]"
  by (simp add: open_call_def alloc_request_id_def)

lemma callers_finish_call:
  "callers (finish_call k r s) = (callers s)[k := (callers s ! k)\<lparr>call_pc := Done r\<rparr>]"
  by (simp add: finish_call_def Let_def)

lemma ball_update: "(\<forall>x \<in> set xs. P x) \<Longrightarrow> P y \<Longrightarrow> \<forall>x \<in> set (xs[i := y]). P x"
  using set_update_subset_insert [of xs i y] by blast

definition calls_ok :: "Sup \<Rightarrow> bool" where
  "calls_ok s \<longleftrightarrow> (\<forall>c \<in> set (callers s). call_ok (demux s) c)"

lemma calls_ok_register_call:
  assumes "demux_inv (demux s)" "calls_ok s"
  shows "calls_ok (register_call k s)"
proof -
  have "\<forall>c \<in> set (callers s). call_ok (demux (register_call k s)) c"
    using assms(2) by (auto simp: calls_ok_def intro: call_ok_register_pending)
  then show ?thesis
    unfolding calls_ok_def callers_register_call
    by (rule ball_update) (simp add: assms(1) call_ok_new)
qed

lemma calls_ok_open_call: "calls_ok s \<Longrightarrow> calls_ok (open_call ck m pf s)"
  by (simp add: calls_ok_def callers_open_call)

lemma calls_ok_request: "demux_inv (demux s) \<Longrightarrow> calls_ok s \<Longrightarrow> calls_ok (request ck m p s)"
  by (simp add: request_def calls_ok_register_call calls_ok_open_call)

lemma calls_ok_finish_call: "calls_ok s \<Longrightarrow> calls_ok (finish_call k r s)"
  unfolding calls_ok_def callers_finish_call demux_finish_call
  by (rule ball_update) simp_all

lemma calls_ok_demux_op:
  assumes "calls_ok s" "callers t = callers s"
    and "\<And>P. demux_closed P \<Longrightarrow> P (demux s) \<Longrightarrow> P (demux t)"
  shows "calls_ok t"
  using assms(3) [OF closed_all, of call_ok "callers s"] assms(1,2)
  by (auto simp: calls_ok_def closed_call_ok)

lemma calls_ok_remove_pending:
  "calls_ok s \<Longrightarrow> calls_ok (s\<lparr>demux := remove_pending i (demux s)\<rparr>)"
  by (rule calls_ok_demux_op) (auto intro: demux_closedD(2))

lemma calls_ok_step:
  assumes d: "demux_inv (demux s)" and c: "calls_ok s" and st: "sup_step l s = Some t"
  shows "calls_ok t"
proof (cases "callers t = callers s")
  case True
  with c show ?thesis by (rule calls_ok_demux_op) (rule sup_step_demux [OF _ _ st])
next
  case False
  show ?thesis
  proof (cases l)
    case (LRequest m p)
    with st d c show ?thesis by (auto simp: calls_ok_request)
  next
    case (LChat body)
    with st calls_ok_open_call [OF c] show ?thesis
      by (auto simp: chat_def Let_def calls_ok_def)
  next
    case (LPoll k)
    with st d c show ?thesis by (auto simp: calls_ok_register_call)
  next
    case (LSend k)
    with st have k: "k < length (callers s)" and t: "t = send_call k s" "call_pc (callers s ! k) = Registered"
      by (auto simp: at_caller_def)
    show ?thesis
    proof (cases "opt_filter (\<lambda>w. w \<notin> set (dead_writers s)) (write_tx s)")
      case None
      with t c show ?thesis by (simp add: send_call_def Let_def calls_ok_finish_call calls_ok_remove_pending)
    next
      case (Some w)
      have "call_ok (demux s) (callers s ! k)" using c k by (simp add: calls_ok_def)
      then have "call_ok (demux s) ((callers s ! k)\<lparr>call_pc := Waiting\<rparr>)"
        using t(2) by (simp add: call_ok_def)
      with Some t(1) c show ?thesis
        by (auto simp: send_call_def Let_def calls_ok_def intro: ball_update [THEN bspec])
    qed
  next
    case (LReceive k)
    with st c show ?thesis
      by (auto simp: receive_call_def Let_def calls_ok_finish_call split: if_splits oneshot.splits)
  next
    case (LTimeout k)
    with st c show ?thesis
      by (auto simp: timeout_call_def Let_def calls_ok_finish_call calls_ok_remove_pending
          split: if_splits)
  next
    case (LReplay k)
    have "calls_ok (s\<lparr>replays := rs\<rparr>)" for rs using c by (simp add: calls_ok_def)
    moreover have "calls_ok (u\<lparr>replays := rs\<rparr>)" if "calls_ok u" for u rs
      using that by (simp add: calls_ok_def)
    ultimately show ?thesis using LReplay st c d
      by (auto simp: replay_step_def Let_def calls_ok_request split: if_splits replay_pc.splits)
  next
    case (LReader i)
    with st reader_step_demux [of i s t] False show ?thesis by (auto split: if_splits)
  next
    case LStop
    with st stop_step_demux [of s t] False show ?thesis by simp
  qed (use st False in auto)
qed

lemma reachable_calls_ok: "reachable s \<Longrightarrow> calls_ok s"
proof (induction rule: reachable.induct)
  case reachable_new
  then show ?case by (simp add: calls_ok_def sup_new_def)
next
  case (reachable_step s l t)
  then show ?case using calls_ok_step reachable_demux_inv(1) by blast
qed

subsection \<open>Where the children are\<close>

text \<open>The child handles a reader task holds, and the lock on \<open>proc\<close>.\<close>

fun pc_children :: "reader_pc \<Rightarrow> nat list" where
  "pc_children (RReapOld old) = opt_list old"
| "pc_children (RHave c) = [c]"
| "pc_children (RInstall c) = [c]"
| "pc_children (RWait c old) = c # opt_list old"
| "pc_children _ = []"

fun pc_locks :: "reader_pc \<Rightarrow> nat" where
  "pc_locks (RReapOld old) = 1"
| "pc_locks (RWait c old) = 1"
| "pc_locks _ = 0"

fun stop_children :: "stop_pc \<Rightarrow> nat list" where
  "stop_children (SReap c) = opt_list c"
| "stop_children _ = []"

fun stop_locks :: "stop_pc \<Rightarrow> nat" where
  "stop_locks (SReap c) = 1"
| "stop_locks _ = 0"

definition reader_children :: "reader list \<Rightarrow> nat multiset" where
  "reader_children rs = sum_list (map (\<lambda>r. mset (pc_children (rd_pc r))) rs)"

definition reader_locks :: "reader list \<Rightarrow> nat" where
  "reader_locks rs = sum_list (map (\<lambda>r. pc_locks (rd_pc r)) rs)"

text \<open>The handles somebody can still reap: in \<open>proc\<close>, in a reader task, in \<open>stop\<close>.\<close>

definition child_handles :: "Sup \<Rightarrow> nat multiset" where
  "child_handles s =
     mset (opt_list (proc s)) + reader_children (readers s) + mset (stop_children (stopper s))"

definition spawned :: "nat \<Rightarrow> nat multiset" where
  "spawned n = mset [0 ..< n]"

lemma spawned_simps [simp]: "spawned 0 = {#}" "spawned (Suc n) = add_mset n (spawned n)"
  by (simp_all add: spawned_def del: mset_upt)

definition accounts :: "Sup \<Rightarrow> bool" where
  "accounts s \<longleftrightarrow>
     child_handles s + mset (reaped s) + mset (leaked s) = spawned (next_child s) \<and>
     reader_locks (readers s) + stop_locks (stopper s) = of_bool (proc_locked s) \<and>
     (proc_locked s \<longrightarrow> proc s = None)"

lemma sum_list_update_add:
  fixes f :: "'a \<Rightarrow> 'b::comm_monoid_add"
  shows "i < length xs \<Longrightarrow> \<exists>z. sum_list (map f xs) = f (xs ! i) + z \<and>
     sum_list (map f (xs[i := y])) = f y + z"
proof (induction xs arbitrary: i)
  case (Cons x xs)
  show ?case
  proof (cases i)
    case (Suc j)
    with Cons obtain z where "sum_list (map f xs) = f (xs ! j) + z"
      "sum_list (map f (xs[j := y])) = f y + z" by auto
    with Suc show ?thesis by (intro exI [of _ "f x + z"]) (simp add: add.left_commute)
  qed auto
qed simp

lemma reader_sums_update:
  assumes "i < length rs"
  obtains zc zl where
    "reader_children rs = mset (pc_children (rd_pc (rs ! i))) + zc"
    "\<And>y. reader_children (rs[i := y]) = mset (pc_children (rd_pc y)) + zc"
    "reader_locks rs = pc_locks (rd_pc (rs ! i)) + zl"
    "\<And>y. reader_locks (rs[i := y]) = pc_locks (rd_pc y) + zl"
proof -
  have c: "reader_children (rs[i := y]) =
      mset (pc_children (rd_pc y)) + (reader_children rs - mset (pc_children (rd_pc (rs ! i))))"
    "reader_children rs = mset (pc_children (rd_pc (rs ! i))) +
       (reader_children rs - mset (pc_children (rd_pc (rs ! i))))" for y
    using sum_list_update_add [OF assms, of "\<lambda>r. mset (pc_children (rd_pc r))" y]
    by (auto simp: reader_children_def)
  have l: "reader_locks (rs[i := y]) =
      pc_locks (rd_pc y) + (reader_locks rs - pc_locks (rd_pc (rs ! i)))"
    "reader_locks rs = pc_locks (rd_pc (rs ! i)) + (reader_locks rs - pc_locks (rd_pc (rs ! i)))" for y
    using sum_list_update_add [OF assms, of "\<lambda>r. pc_locks (rd_pc r)" y]
    by (auto simp: reader_locks_def)
  from that [OF c(2,1) l(2,1)] show thesis by blast
qed

lemma accounts_do_spawn: "accounts s \<Longrightarrow> accounts (snd (do_spawn f s))"
  by (auto simp: accounts_def child_handles_def do_spawn_def reader_children_def
      reader_locks_def Let_def ac_simps split: option.splits)

lemma accounts_reader_step:
  assumes i: "i < length (readers s)" and a: "accounts s" and st: "reader_step i s = Some t"
  shows "accounts t"
proof -
  from reader_sums_update [OF i] obtain zc zl where z:
    "reader_children (readers s) = mset (pc_children (rd_pc (readers s ! i))) + zc"
    "\<And>y. reader_children ((readers s)[i := y]) = mset (pc_children (rd_pc y)) + zc"
    "reader_locks (readers s) = pc_locks (rd_pc (readers s ! i)) + zl"
    "\<And>y. reader_locks ((readers s)[i := y]) = pc_locks (rd_pc y) + zl" by metis
  have "accounts t" if "rd_pc (readers s ! i) = RWait c old" for c old
  proof -
    have "proc s = None" "proc_locked s" "zl = 0" "stop_locks (stopper s) = 0"
      using a z(3) that by (auto simp: accounts_def of_bool_def split: if_splits)
    moreover have t: "t = install_end i c old s"
      using st that by (simp add: reader_step_def)
    ultimately show ?thesis using that a z
      by (simp add: t install_end_def reap_def goto_def accounts_def child_handles_def ac_simps)
  qed
  moreover have "accounts t" if "rd_pc (readers s ! i) = RReapOld old" for old
  proof -
    have "proc s = None" "proc_locked s" "zl = 0" "stop_locks (stopper s) = 0"
      using a z(3) that by (auto simp: accounts_def of_bool_def split: if_splits)
    moreover have t: "t = goto i RExit (reap old s\<lparr>proc_locked := False, events := events s @ [WorkerDied]\<rparr>)"
      using st that by (simp add: reader_step_def)
    ultimately show ?thesis using that a z
      by (simp add: t reap_def goto_def accounts_def child_handles_def ac_simps)
  qed
  ultimately show ?thesis
    using a st z
    by (cases "rd_pc (readers s ! i)")
      (auto simp: reader_step_def Let_def install_begin_def reap_def goto_def accounts_def
        lock_and_take_def next_transport_def announce_death_def close_tx_def fail_pending_def
        drop_sinks_def child_handles_def ac_simps split: if_splits option.splits)
qed

lemma accounts_stop_step: "accounts s \<Longrightarrow> stop_step s = Some t \<Longrightarrow> accounts t"
  by (auto simp: stop_step_def accounts_def child_handles_def lock_and_take_def reap_def
      close_tx_def ac_simps of_bool_def split: stop_pc.splits if_splits)

lemma accounts_spawn_replacement:
  assumes "at_reader i RSpawn s" "accounts s"
  shows "accounts (spawn_replacement i f s)"
proof -
  have i: "i < length (readers s)" using assms(1) by (simp add: at_reader_def)
  from reader_sums_update [OF i] obtain zc zl where z:
    "reader_children (readers s) = mset (pc_children (rd_pc (readers s ! i))) + zc"
    "\<And>y. reader_children ((readers s)[i := y]) = mset (pc_children (rd_pc y)) + zc"
    "reader_locks (readers s) = pc_locks (rd_pc (readers s ! i)) + zl"
    "\<And>y. reader_locks ((readers s)[i := y]) = pc_locks (rd_pc y) + zl" by metis
  with assms show ?thesis
    by (auto simp: spawn_replacement_def goto_def accounts_def child_handles_def at_reader_def
        split: option.split)
qed

lemma accounts_goto_idle:
  assumes "at_reader i RLoop s" "accounts s" "pc_children pc = []" "pc_locks pc = 0"
  shows "accounts (goto i pc s)"
proof -
  have i: "i < length (readers s)" using assms(1) by (simp add: at_reader_def)
  from reader_sums_update [OF i] obtain zc zl where z:
    "reader_children (readers s) = mset (pc_children (rd_pc (readers s ! i))) + zc"
    "\<And>y. reader_children ((readers s)[i := y]) = mset (pc_children (rd_pc y)) + zc"
    "reader_locks (readers s) = pc_locks (rd_pc (readers s ! i)) + zl"
    "\<And>y. reader_locks ((readers s)[i := y]) = pc_locks (rd_pc y) + zl" by metis
  with assms show ?thesis
    by (simp add: goto_def accounts_def child_handles_def at_reader_def)
qed

text \<open>The steps of callers, replays and the recorder touch none of the fields above.\<close>

definition same_process :: "Sup \<Rightarrow> Sup \<Rightarrow> bool" where
  "same_process s t \<longleftrightarrow>
     proc t = proc s \<and> readers t = readers s \<and> stopper t = stopper s \<and> reaped t = reaped s \<and>
     leaked t = leaked s \<and> next_child t = next_child s \<and> proc_locked t = proc_locked s \<and>
     stopped t = stopped s \<and> running t = running s \<and> write_tx t = write_tx s \<and>
     generation t = generation s"

lemma same_process_refl [simp]: "same_process s s"
  by (simp add: same_process_def)

lemma same_process_calls [simp]:
  "same_process s (register_call k s)"
  "same_process s (open_call ck m pf s)"
  "same_process s (finish_call k r s)"
  "same_process s (send_call k s)"
  "same_process s (chat body s)"
  "same_process s (request ck m p s)"
  by (simp_all add: same_process_def sup_defs Let_def split: prod.split option.split sum.split)

lemma same_process_receive: "receive_call k s = Some t \<Longrightarrow> same_process s t"
  by (auto simp: receive_call_def Let_def split: oneshot.splits)

lemma same_process_timeout: "timeout_call k s = Some t \<Longrightarrow> same_process s t"
  by (auto simp: timeout_call_def Let_def finish_call_def same_process_def split: if_splits)

lemma same_process_replay: "replay_step k s = Some t \<Longrightarrow> same_process s t"
  using same_process_calls(6) [of s]
  by (auto simp: replay_step_def Let_def same_process_def split: replay_pc.splits)

definition process_label :: "label \<Rightarrow> bool" where
  "process_label l \<longleftrightarrow>
     (case l of LStart _ \<Rightarrow> True | LEof _ \<Rightarrow> True | LReader _ \<Rightarrow> True | LRespawn _ _ \<Rightarrow> True
      | LStopBegin \<Rightarrow> True | LStop \<Rightarrow> True | _ \<Rightarrow> False)"

lemma same_process_step:
  assumes "sup_step l s = Some t" "\<not> process_label l"
  shows "same_process s t"
proof (cases l)
  case (LReceive k)
  with assms(1) show ?thesis by (auto dest: same_process_receive split: if_splits)
next
  case (LTimeout k)
  with assms(1) show ?thesis by (auto dest: same_process_timeout split: if_splits)
next
  case (LReplay k)
  with assms(1) show ?thesis by (auto dest: same_process_replay split: if_splits)
next
  case (LWriterDies c)
  with assms(1) show ?thesis by (auto simp: same_process_def)
next
  case (LLine i f)
  with assms(1) show ?thesis by (auto simp: same_process_def)
next
  case (LRecord p)
  with assms(1) show ?thesis by (auto simp: same_process_def record_last_load_def)
next
  case LBump
  with assms(1) show ?thesis by (auto simp: same_process_def bump_epoch_def)
qed (use assms in \<open>auto simp: process_label_def\<close>)

lemma accounts_same_process: "same_process s t \<Longrightarrow> accounts s \<Longrightarrow> accounts t"
  by (simp add: same_process_def accounts_def child_handles_def)

lemma accounts_step:
  assumes a: "accounts s" and st: "sup_step l s = Some t"
  shows "accounts t"
proof (cases "process_label l")
  case False
  with a same_process_step [OF st] show ?thesis by (blast intro: accounts_same_process)
next
  case True
  show ?thesis
  proof (cases l)
    case (LStart f)
    with st a show ?thesis by (auto intro: accounts_do_spawn)
  next
    case (LEof i)
    with st a show ?thesis by (auto intro: accounts_goto_idle)
  next
    case (LReader i)
    with st a show ?thesis by (auto intro: accounts_reader_step split: if_splits)
  next
    case (LRespawn i f)
    with st a show ?thesis by (auto intro: accounts_spawn_replacement)
  next
    case LStopBegin
    with st a show ?thesis by (auto simp: accounts_def child_handles_def)
  next
    case LStop
    with st a show ?thesis by (auto intro: accounts_stop_step)
  qed (use True in \<open>simp_all add: process_label_def\<close>)
qed

lemma reachable_accounts: "reachable s \<Longrightarrow> accounts s"
proof (induction rule: reachable.induct)
  case reachable_new
  then show ?case
    by (simp add: accounts_def child_handles_def sup_new_def reader_children_def reader_locks_def)
next
  case (reachable_step s l t)
  then show ?case using accounts_step by blast
qed

subsection \<open>One lifetime\<close>

text \<open>A waiting caller whose channel is settled can go on.\<close>

definition settled_call :: "Demux \<Rightarrow> caller \<Rightarrow> bool" where
  "settled_call d c \<longleftrightarrow>
     (call_pc c = Waiting \<longrightarrow>
        call_addr c < length (oneshots d) \<and> oneshots d ! call_addr c \<noteq> Pending)"

definition settled :: "Sup \<Rightarrow> bool" where
  "settled s \<longleftrightarrow> (\<forall>c \<in> set (callers s). settled_call (demux s) c)"

lemma closed_settled_call: "demux_closed (\<lambda>d. settled_call d c)"
  unfolding demux_closed_def
  by (intro allI impI conjI)
    (auto simp: settled_call_def register_pending_def remove_pending_def correlate_def
      fail_all_pending_def register_sink_def remove_sink_def route_chunk_def clear_sinks_def
      Let_def nth_append nth_drop_oneshot nth_list_update_if nth_fold_drop_oneshot
      split: option.splits if_splits)

lemma settled_not_waiting [simp]: "call_pc c \<noteq> Waiting \<Longrightarrow> settled_call d c"
  by (simp add: settled_call_def)

lemma settled_demux_op:
  assumes "settled s" "callers t = callers s"
    and "\<And>P. demux_closed P \<Longrightarrow> P (demux s) \<Longrightarrow> P (demux t)"
  shows "settled t"
  using assms(3) [OF closed_all, of settled_call "callers s"] assms(1,2)
  by (auto simp: settled_def closed_settled_call)

lemma settled_register_call: "settled s \<Longrightarrow> settled (register_call k s)"
  unfolding settled_def callers_register_call
  by (rule ball_update) (auto intro: demux_closedD(1) [OF closed_settled_call])

lemma settled_open_call: "settled s \<Longrightarrow> settled (open_call ck m pf s)"
  by (simp add: settled_def callers_open_call)

lemma settled_finish_call: "settled s \<Longrightarrow> settled (finish_call k r s)"
  unfolding settled_def callers_finish_call demux_finish_call
  by (rule ball_update) (auto intro: demux_closedD(4) [OF closed_settled_call])

lemma settled_remove_pending:
  "settled s \<Longrightarrow> settled (s\<lparr>demux := remove_pending i (demux s)\<rparr>)"
  by (rule settled_demux_op) (auto intro: demux_closedD(2))

lemma settled_request: "settled s \<Longrightarrow> settled (request ck m p s)"
  by (simp add: request_def settled_register_call settled_open_call)

lemma settled_replays [simp]: "settled (s\<lparr>replays := rs\<rparr>) = settled s"
  by (simp add: settled_def)

text \<open>While there is no channel to the worker no caller starts to wait.\<close>

lemma settled_step:
  assumes c: "settled s" and tx: "write_tx s = None" and st: "sup_step l s = Some t"
  shows "settled t"
proof (cases "callers t = callers s")
  case True
  with c show ?thesis by (rule settled_demux_op) (rule sup_step_demux [OF _ _ st])
next
  case False
  show ?thesis
  proof (cases l)
    case (LRequest m p)
    with st c show ?thesis by (auto simp: settled_request)
  next
    case (LChat body)
    have "settled (open_call ChatRpc M_CHAT pf s)" for pf using c by (rule settled_open_call)
    then have "\<forall>c \<in> set (callers (open_call ChatRpc M_CHAT pf s)).
        settled_call (snd (register_sink i (demux s))) c" for pf i
      by (auto simp: settled_def intro: demux_closedD(3) [OF closed_settled_call])
    with LChat st show ?thesis by (auto simp: chat_def Let_def settled_def)
  next
    case (LPoll k)
    with st c show ?thesis by (auto simp: settled_register_call)
  next
    case (LSend k)
    with st c tx show ?thesis
      by (auto simp: send_call_def Let_def settled_finish_call settled_remove_pending)
  next
    case (LReceive k)
    with st c show ?thesis
      by (auto simp: receive_call_def Let_def settled_finish_call split: if_splits oneshot.splits)
  next
    case (LTimeout k)
    with st c show ?thesis
      by (auto simp: timeout_call_def Let_def settled_finish_call settled_remove_pending
          split: if_splits)
  next
    case (LReplay k)
    with st c show ?thesis
      by (auto simp: replay_step_def Let_def settled_request split: if_splits replay_pc.splits)
  next
    case (LReader i)
    with st reader_step_demux [of i s t] False show ?thesis by (auto split: if_splits)
  next
    case LStop
    with st stop_step_demux [of s t] False show ?thesis by simp
  qed (use st False in auto)
qed

lemma settled_fail_pending:
  assumes "demux_inv (demux s)" "no_stranded (demux s)" "calls_ok s"
  shows "settled (fail_pending s)"
  unfolding settled_def
proof
  fix c
  assume "c \<in> set (callers (fail_pending s))"
  then have "call_ok (demux s) c" using assms(3) by (simp add: calls_ok_def)
  then have "call_ok (fail_all_pending (demux s)) c" by (rule call_ok_fail_all_pending)
  then show "settled_call (demux (fail_pending s)) c"
    using no_stranded_fail_all_pending(2) [OF assms(1,2)]
    by (auto simp: settled_call_def call_ok_def in_set_conv_nth)
qed

text \<open>The program points at which the reader's lifetime has no channel, and those at which its
  callers have been told.\<close>

fun tx_closed_pc :: "reader_pc \<Rightarrow> bool" where
  "tx_closed_pc RLoop = False"
| "tx_closed_pc RCheck = False"
| "tx_closed_pc (RClearTx d) = False"
| "tx_closed_pc (RAnnounce c) = False"
| "tx_closed_pc (RReplay c) = False"
| "tx_closed_pc (RCapture c p) = False"
| "tx_closed_pc _ = True"

fun told_pc :: "reader_pc \<Rightarrow> bool" where
  "told_pc (RFail d) = False"
| "told_pc pc = tx_closed_pc pc"

definition reader_inv :: "reader \<Rightarrow> Sup \<Rightarrow> bool" where
  "reader_inv r s \<longleftrightarrow>
     rd_gen r = generation s \<and>
     (tx_closed_pc (rd_pc r) \<longrightarrow> write_tx s = None) \<and>
     (told_pc (rd_pc r) \<longrightarrow> settled s) \<and>
     (rd_pc r = RGone \<longrightarrow> \<not> running s) \<and>
     (stopped s \<longrightarrow> stopper s = SIdle \<longrightarrow> proc s = None \<and> (\<forall>c old. rd_pc r \<noteq> RWait c old))"

definition life_inv :: "Sup \<Rightarrow> bool" where
  "life_inv s \<longleftrightarrow>
     leaked s = [] \<and>
     (readers s = [] \<longrightarrow> next_child s = 0 \<and> write_tx s = None \<and> \<not> running s) \<and>
     (readers s \<noteq> [] \<longrightarrow> (\<exists>r. readers s = [r] \<and> reader_inv r s))"

lemma told_tx_closed: "told_pc pc \<Longrightarrow> tx_closed_pc pc"
  by (cases pc) simp_all

lemma life_inv_cases:
  assumes "life_inv s"
  obtains "readers s = []" "leaked s = []" "next_child s = 0" "write_tx s = None" "\<not> running s"
  | r where "readers s = [r]" "leaked s = []" "reader_inv r s"
  using assms unfolding life_inv_def by (cases "readers s = []") auto

lemma life_inv_one: "leaked s = [] \<Longrightarrow> readers s = [r] \<Longrightarrow> reader_inv r s \<Longrightarrow> life_inv s"
  by (simp add: life_inv_def)

lemma life_inv_same_process:
  assumes i: "life_inv s" and same: "same_process s t" and st: "sup_step l s = Some t"
  shows "life_inv t"
  using i
proof (cases rule: life_inv_cases)
  case 1
  with same show ?thesis by (simp add: life_inv_def same_process_def)
next
  case (2 r)
  have "settled t" if "told_pc (rd_pc r)"
    using 2(3) that st told_tx_closed [OF that] by (blast intro: settled_step dest: reader_inv_def [THEN iffD1])
  with 2 same show ?thesis by (simp add: life_inv_def same_process_def reader_inv_def)
qed

lemma no_children:
  assumes "accounts s" "next_child s = 0" "stopper s = SIdle" "readers s = []"
  shows "proc s = None" "\<not> proc_locked s"
  using assms by (auto simp: accounts_def child_handles_def reader_locks_def opt_list_def
      split: option.splits)

lemma life_inv_do_spawn:
  assumes i: "life_inv s" and a: "accounts s" and idle: "stopper s = SIdle"
    and same: "readers s = [] \<or> running s"
  shows "life_inv (snd (do_spawn f s))"
  using i
proof (cases rule: life_inv_cases)
  case 1
  note no_children [OF a 1(3) idle 1(1)]
  with 1 show ?thesis
    by (auto simp: life_inv_def reader_inv_def do_spawn_def Let_def split: option.split)
next
  case (2 r)
  with same have "running s" by simp
  with i show ?thesis by (simp add: do_spawn_def)
qed

text \<open>The lock has at most one holder.\<close>

lemma one_lock:
  assumes "accounts s" "readers s = [r]"
  shows "rd_pc r = RWait c old \<Longrightarrow> stop_locks (stopper s) = 0 \<and> proc_locked s \<and> proc s = None"
    "rd_pc r = RReapOld old \<Longrightarrow> stop_locks (stopper s) = 0 \<and> proc_locked s \<and> proc s = None"
    "stopper s = SReap ch \<Longrightarrow> pc_locks (rd_pc r) = 0 \<and> proc_locked s \<and> proc s = None"
  using assms by (auto simp: accounts_def reader_locks_def of_bool_def split: if_splits)

lemma settled_cong: "callers t = callers s \<Longrightarrow> demux t = demux s \<Longrightarrow> settled t = settled s"
  by (simp add: settled_def)

lemma life_inv_reader_step:
  assumes i: "life_inv s" and d: "demux_inv (demux s)" "no_stranded (demux s)"
    and c: "calls_ok s" and a: "accounts s" and b: "j < length (readers s)"
    and st: "reader_step j s = Some t"
  shows "life_inv t"
  using i
proof (cases rule: life_inv_cases)
  case 1
  with b show ?thesis by simp
next
  case (2 r)
  have j: "j = 0" using b 2(1) by simp
  have set: "settled t" if "settled s"
    using that reader_step_demux [OF st] closed_settled_call
    by (elim settled_demux_op) (auto dest: demux_closedD)
  have fp: "settled (fail_pending s)" using d c by (rule settled_fail_pending)
  show ?thesis
  proof (cases "rd_pc r")
    case (RFail x)
    with 2 j st fp show ?thesis
      by (auto simp: reader_step_def goto_def life_inv_def reader_inv_def fail_pending_def
          settled_def)
  next
    case (RWait ch old)
    with 2 have "\<not> (stopped s \<and> stopper s = SIdle)" by (auto simp: reader_inv_def)
    with RWait 2 j st set show ?thesis
      by (auto simp: reader_step_def install_end_def goto_def reap_def life_inv_def reader_inv_def
          settled_def)
  qed (use 2 j st set one_lock [OF a 2(1)] in
      \<open>auto simp: reader_step_def goto_def reap_def life_inv_def reader_inv_def close_tx_def
         install_begin_def lock_and_take_def next_transport_def drop_sinks_def announce_death_def
         split: if_splits option.splits\<close>)
qed

lemma life_inv_stop_step:
  assumes i: "life_inv s" and a: "accounts s" and st: "stop_step s = Some t"
  shows "life_inv t"
  using i
proof (cases rule: life_inv_cases)
  case 1
  with st show ?thesis
    by (auto simp: stop_step_def life_inv_def close_tx_def lock_and_take_def reap_def
        split: stop_pc.splits if_splits)
next
  case (2 r)
  have "settled t = settled s" using stop_step_demux [OF st] by (simp add: settled_def)
  with 2 st one_lock(3) [OF a 2(1)] show ?thesis
    by (cases "stopper s")
      (auto simp: stop_step_def life_inv_def reader_inv_def close_tx_def lock_and_take_def
        reap_def split: if_splits)
qed

lemma life_inv_step:
  assumes l: "lifetime s" and i: "life_inv s" and same: "same_lifetime l s"
    and st: "sup_step l s = Some t"
  shows "life_inv t"
proof (cases "process_label l")
  case False
  then show ?thesis using i st same_process_step by (blast intro: life_inv_same_process)
next
  case True
  have r: "reachable s" using l by (rule lifetime_reachable)
  note facts = reachable_demux_inv [OF r] reachable_calls_ok [OF r] reachable_accounts [OF r]
  have sw: "settled t" if "settled s" "callers t = callers s" "demux t = demux s"
    using that by (simp add: settled_def)
  show ?thesis
  proof (cases l)
    case (LStart f)
    with st same i facts(4) show ?thesis
      by (auto simp: same_lifetime_def intro: life_inv_do_spawn)
  next
    case (LEof j)
    with st i sw show ?thesis
      by (cases rule: life_inv_cases [OF i])
        (auto simp: at_reader_def goto_def life_inv_def reader_inv_def)
  next
    case (LReader j)
    with st i facts show ?thesis by (auto intro: life_inv_reader_step split: if_splits)
  next
    case (LRespawn j f)
    with st i sw show ?thesis
      by (cases rule: life_inv_cases [OF i])
        (auto simp: at_reader_def spawn_replacement_def goto_def life_inv_def reader_inv_def
          split: option.splits)
  next
    case LStopBegin
    with st i sw show ?thesis
      by (cases rule: life_inv_cases [OF i])
        (auto simp: life_inv_def reader_inv_def)
  next
    case LStop
    with st i facts(4) show ?thesis by (auto intro: life_inv_stop_step)
  qed (use True in \<open>simp_all add: process_label_def\<close>)
qed

lemma lifetime_life_inv: "lifetime s \<Longrightarrow> life_inv s"
proof (induction rule: lifetime.induct)
  case lifetime_new
  then show ?case by (simp add: life_inv_def sup_new_def)
next
  case (lifetime_step s l t)
  then show ?case using life_inv_step by blast
qed

subsection \<open>Properties of the supervisor\<close>

text \<open>The four reader steps of a death are \<open>on_worker_death\<close>.\<close>

lemma death_steps:
  assumes "readers s = [r]" "rd_pc r = RClearTx d"
  shows "sup_run (replicate 4 (LReader 0)) s =
    Some (goto 0 (if d then RExit else RBackoff) (on_worker_death d s))"
  using assms
  by (simp add: numeral_eq_Suc reader_step_def goto_def on_worker_death_def close_tx_def
      fail_pending_def drop_sinks_def announce_death_def)

text \<open>A run of the machine within one lifetime.\<close>

fun life_run :: "label list \<Rightarrow> Sup \<Rightarrow> Sup option" where
  "life_run [] s = Some s"
| "life_run (l # ls) s =
     (if same_lifetime l s then
        (case sup_step l s of None \<Rightarrow> None | Some s' \<Rightarrow> life_run ls s')
      else None)"

lemma life_run_lifetime: "lifetime s \<Longrightarrow> life_run ls s = Some t \<Longrightarrow> lifetime t"
  by (induction ls arbitrary: s) (auto split: option.splits if_splits intro: lifetime_step)

lemmas run_simps = sup_new_def same_lifetime_def sup_defs Let_def guarded_def at_reader_def at_caller_def
  register_pending_def demux_new_def remove_pending_def fail_all_pending_def clear_sinks_def
  drop_oneshot_def announce_death_def

definition death_schedule :: "label list" where
  "death_schedule = [LStart None, LRequest ''m'' JNull, LSend 0, LEof 0, LReader 0, LReader 0,
     LReader 0]"

definition stop_schedule :: "label list" where
  "stop_schedule = [LStart None, LEof 0, LReader 0, LReader 0, LReader 0, LReader 0, LReader 0,
     LReader 0, LReader 0, LRespawn 0 None, LStopBegin, LStop, LStop, LStop, LReader 0, LReader 0]"

text \<open>C1. When a worker dies, no caller is left hanging: from the moment the reader has failed
  the pending requests until a new channel is installed, every caller that waits for an answer
  can go on at once, and one that is about to send fails at once, whatever the interleaving
  of sends with the death handling.\<close>

theorem death_wakes_all_callers:
  assumes "lifetime s" "at_reader 0 pc s" "told_pc pc"
  shows "(at_caller k Waiting s \<longrightarrow> receive_call k s \<noteq> None) \<and>
    (at_caller k Registered s \<longrightarrow>
       call_pc (callers (send_call k s) ! k) =
         Done (Inl (no_worker (call_kind (callers s ! k)) (call_method (callers s ! k)))))"
proof -
  have i: "life_inv s" using assms(1) by (rule lifetime_life_inv)
  from i assms(2) obtain r where r: "readers s = [r]" "reader_inv r s" "rd_pc r = pc"
    by (cases rule: life_inv_cases) (auto simp: at_reader_def)
  with assms(3) have "settled s" "write_tx s = None"
    by (auto simp: reader_inv_def told_tx_closed)
  then show ?thesis
    by (auto simp: at_caller_def settled_def settled_call_def receive_call_def send_call_def
        callers_finish_call Let_def split: oneshot.split)
qed

theorem death_wakes_all_callers_witness:
  "receive_call 0 (the (life_run death_schedule sup_new)) \<noteq> None"
proof -
  have ex: "life_run death_schedule sup_new = Some (the (life_run death_schedule sup_new))"
    "at_reader 0 (RSinks False) (the (life_run death_schedule sup_new))"
    "at_caller 0 Waiting (the (life_run death_schedule sup_new))"
    by (simp_all add: death_schedule_def run_simps)
  show ?thesis
    using death_wakes_all_callers [of "the (life_run death_schedule sup_new)" "RSinks False" 0]
      life_run_lifetime [OF lifetime_new ex(1)] ex(2,3) by simp
qed

text \<open>C2. Within one lifetime no worker survives or comes back after a stop: once \<open>stop\<close> has
  returned, no child is installed, and when the reader has ended too, every child that was
  ever spawned has been reaped exactly once, the channel is closed, the lifetime flag is
  released, and every waiting caller can go on.\<close>

theorem no_worker_after_stop:
  assumes "lifetime s" "stopped s" "stopper s = SIdle" "readers s = [r]"
  shows "proc s = None \<and>
    (rd_pc r = RGone \<longrightarrow>
       mset (reaped s) = mset [0 ..< next_child s] \<and> write_tx s = None \<and> \<not> running s \<and>
       (at_caller k Waiting s \<longrightarrow> receive_call k s \<noteq> None))"
proof -
  have i: "life_inv s" using assms(1) by (rule lifetime_life_inv)
  have a: "accounts s" using assms(1) by (intro reachable_accounts lifetime_reachable)
  from i assms(4) have r: "reader_inv r s" "leaked s = []"
    by (cases rule: life_inv_cases; simp)+
  with assms have p: "proc s = None" by (simp add: reader_inv_def)
  moreover have "mset (reaped s) = mset [0 ..< next_child s]" if "rd_pc r = RGone"
    using a p that assms(3,4) r(2)
    by (simp add: accounts_def child_handles_def reader_children_def spawned_def)
  moreover have "write_tx s = None" "\<not> running s" "settled s" if "rd_pc r = RGone"
    using r(1) that by (auto simp: reader_inv_def)
  ultimately show ?thesis
    by (auto simp: at_caller_def settled_def settled_call_def receive_call_def Let_def
        split: oneshot.split)
qed

theorem no_worker_after_stop_witness:
  "mset (reaped (the (life_run stop_schedule sup_new))) = mset [0, 1]"
proof -
  let ?s = "the (life_run stop_schedule sup_new)"
  have ex: "life_run stop_schedule sup_new = Some ?s" "stopped ?s" "stopper ?s = SIdle"
    "readers ?s = [\<lparr>rd_gen = 1, rd_child = 0, rd_pc = RGone\<rparr>]" "next_child ?s = 2"
    by (simp_all add: stop_schedule_def run_simps)
  show ?thesis
    using no_worker_after_stop [of ?s "\<lparr>rd_gen = 1, rd_child = 0, rd_pc = RGone\<rparr>" 0]
      life_run_lifetime [OF lifetime_new ex(1)] ex(2-) by (simp add: numeral_2_eq_2)
qed

text \<open>C6. A caller never gets somebody else's answer: in every schedule, over any number of
  lifetimes and whatever the worker sends, an answer that a waiting caller finds carries the id
  of the caller's own request.\<close>

theorem reply_matches_request:
  assumes "reachable s" "at_caller k Waiting s"
    "oneshots (demux s) ! call_addr (callers s ! k) = Sent resp"
  shows "resp_id resp = call_id (callers s ! k)"
  using reachable_calls_ok [OF assms(1)] assms(2,3)
  by (auto simp: calls_ok_def call_ok_def at_caller_def)

definition reply_schedule :: "label list" where
  "reply_schedule = [LStart None, LRequest ''a'' JNull, LRequest ''b'' JNull, LSend 1, LSend 0,
     LLine 0 (Inr (Response (demo_response 2)))]"

theorem reply_matches_request_witness:
  "resp_id (demo_response 2) = call_id (callers (the (sup_run reply_schedule sup_new)) ! 1)"
proof -
  let ?s = "the (sup_run reply_schedule sup_new)"
  have ex: "sup_run reply_schedule sup_new = Some ?s" "at_caller 1 Waiting ?s"
    "oneshots (demux ?s) ! call_addr (callers ?s ! 1) = Sent (demo_response 2)"
    by (simp_all add: reply_schedule_def run_simps dispatch_frame_def correlate_def
        demo_response_def)
  show ?thesis
    using reply_matches_request [OF reachable_run [OF reachable_new ex(1)] ex(2,3)] .
qed

text \<open>C12. No process is lost within one lifetime: every child the factory produced is either
  reaped or in exactly one place from which the code still reaps it (the \<open>proc\<close> slot, the
  reader's hands, the hands of \<open>stop\<close>), and over several lifetimes the only other fate is a
  handle that was dropped.\<close>

theorem children_accounted:
  assumes "reachable s"
  shows "child_handles s + mset (reaped s) + mset (leaked s) = mset [0 ..< next_child s] \<and>
    (lifetime s \<longrightarrow> leaked s = [])"
  using reachable_accounts [OF assms] lifetime_life_inv [of s]
  by (auto simp: accounts_def spawned_def life_inv_def)

theorem children_accounted_witness:
  "child_handles (the (sup_run [LStart None] sup_new)) = {#0#}"
proof -
  let ?s = "the (sup_run [LStart None] sup_new)"
  have ex: "sup_run [LStart None] sup_new = Some ?s" "reaped ?s = []" "leaked ?s = []" "next_child ?s = 1"
    by (simp_all add: run_simps)
  show ?thesis
    using children_accounted [OF reachable_run [OF reachable_new ex(1)]] ex(2-) by simp
qed

text \<open>C37. A \<open>stop\<close> that has begun can always go on: its own next step is enabled, or the
  reader holds the lock around a bounded reap and its next step releases it and enables the
  step of \<open>stop\<close>. With three steps of its own, \<open>stop\<close> ends.\<close>

theorem stop_makes_progress:
  assumes "lifetime s" "stopper s \<noteq> SIdle"
  shows "stop_step s \<noteq> None \<or>
    (\<exists>t. reader_step 0 s = Some t \<and> \<not> proc_locked t \<and> stopper t = stopper s \<and> stop_step t \<noteq> None)"
proof (cases "stop_step s")
  case None
  with assms(2) have sc: "stopper s = SClosed" "proc_locked s"
    by (auto simp: stop_step_def split: stop_pc.splits if_splits)
  have a: "accounts s" using assms(1) by (intro reachable_accounts lifetime_reachable)
  have i: "life_inv s" using assms(1) by (rule lifetime_life_inv)
  from i show ?thesis
  proof (cases rule: life_inv_cases)
    case 1
    with a sc show ?thesis by (simp add: accounts_def reader_locks_def)
  next
    case (2 r)
    with a sc have "pc_locks (rd_pc r) = 1" by (simp add: accounts_def reader_locks_def)
    then obtain c old where "rd_pc r = RReapOld old \<or> rd_pc r = RWait c old"
      by (cases "rd_pc r") auto
    with 2(1) sc show ?thesis
      by (elim disjE; intro disjI2 exI [of _ "the (reader_step 0 s)"])
        (simp_all add: reader_step_def goto_def reap_def install_end_def stop_step_def)
  qed
qed simp

theorem stop_makes_progress_witness:
  "stop_step (the (life_run [LStart None, LStopBegin] sup_new)) \<noteq> None"
proof -
  let ?s = "the (life_run [LStart None, LStopBegin] sup_new)"
  have ex: "life_run [LStart None, LStopBegin] sup_new = Some ?s" "stopper ?s = SAsked"
    "reader_step 0 ?s = None"
    by (simp_all add: run_simps)
  show ?thesis
    using stop_makes_progress [OF life_run_lifetime [OF lifetime_new ex(1)]] ex(2,3) by simp
qed

subsection \<open>Two schedules against the comments\<close>

definition clobber_schedule :: "label list" where
  "clobber_schedule =
     [LStart None, LEof 0] @ replicate 7 (LReader 0) @ [LRespawn 0 None] @
     [LStopBegin, LStop, LStop, LStop, LStart None, LReader 0, LReader 0, LReader 0, LReader 0]"

text \<open>Across lifetimes the generation tag does not protect a new worker: if a stop and a
  new start run while the old reader's restart waits for the factory, the old reader still
  installs its own replacement. It takes the live child of the new lifetime out of its slot and
  reaps it, and it replaces the channel, although its generation is stale.\<close>

theorem stale_reader_replaces_new_worker:
  "\<exists>s. sup_run clobber_schedule sup_new = Some s \<and> generation s = 2 \<and>
     rd_gen (readers s ! 0) = 1 \<and> rd_child (readers s ! 1) = 2 \<and> reaped s = [0, 2] \<and>
     proc s = Some 1 \<and> write_tx s = Some 1 \<and> \<not> stopped s"
  by (simp add: clobber_schedule_def numeral_eq_Suc run_simps)

definition replay_schedule :: "json \<Rightarrow> json \<Rightarrow> label list" where
  "replay_schedule old new =
     [LStart None, LRecord (Some old), LBump, LEof 0] @ replicate 7 (LReader 0) @
     [LRespawn 0 None] @ replicate 6 (LReader 0) @
     [LRecord (Some new), LBump, LReader 0, LReplay 0, LReplay 0, LReplay 0]"

text \<open>A replay can resurrect a superseded load: the parameters are captured before the
  epoch, so when a newer load is recorded between the two reads the replay holds the old
  parameters with the new epoch, passes both checks and requests the old load.\<close>

theorem replay_captures_stale_load:
  "\<exists>s c. sup_run (replay_schedule old new) sup_new = Some s \<and> last_load s = Some new \<and>
     callers s = [c] \<and> call_method c = M_LOAD \<and> call_params c = old \<and> call_pc c = Registered"
  by (simp add: replay_schedule_def numeral_eq_Suc run_simps)

end
