(* ===== verification/Update_Trust.thy ===== *)
theory Update_Trust
  imports Json Text Diagnostics
begin

text \<open>
  \<open>src/update.rs\<close> and the fetch and verify half of \<open>src/node/self_update.rs\<close>: which bytes a
  node may install. The signature scheme (the \<open>minisign_verify\<close> crate), the JSON parser, SHA-256
  and the version order of the \<open>semver\<close> crate are parameters. The prose of an error's detail is
  shortened; the code of an error is what its constructor says.
\<close>

subsection \<open>The signed manifest\<close>

record UpdateManifest =
  um_schema :: u32
  um_version :: string
  um_commit :: string
  um_file :: string
  um_target :: string
  um_variant :: string
  um_sha256 :: string

definition UPDATE_MANIFEST_SCHEMA :: u32 where "UPDATE_MANIFEST_SCHEMA = 1"

definition get_u32 :: "string \<Rightarrow> json \<Rightarrow> u32 option" where
  "get_u32 k v = Option.bind (get_u64 k v) (\<lambda>n. if n < 2 ^ 32 then Some (word_of_int n) else None)"

text \<open>The derived deserialiser: every field is required, unknown ones are ignored.\<close>

definition manifest_from_json :: "json \<Rightarrow> UpdateManifest option" where
  "manifest_from_json v =
     Option.bind (get_u32 ''schema'' v) (\<lambda>schema.
     Option.bind (get_str ''version'' v) (\<lambda>version.
     Option.bind (get_str ''commit'' v) (\<lambda>commit.
     Option.bind (get_str ''file'' v) (\<lambda>file.
     Option.bind (get_str ''target'' v) (\<lambda>target.
     Option.bind (get_str ''variant'' v) (\<lambda>variant.
     Option.bind (get_str ''sha256'' v) (\<lambda>sha256.
       Some \<lparr>um_schema = schema, um_version = version, um_commit = commit, um_file = file,
             um_target = target, um_variant = variant, um_sha256 = sha256\<rparr>)))))))"

text \<open>What the crates provide.\<close>

record ('k, 'g) Crypto =
  key_from_base64 :: "string \<Rightarrow> 'k option"
  sig_decode :: "string \<Rightarrow> 'g option"
  sig_verify :: "'k \<Rightarrow> string \<Rightarrow> 'g \<Rightarrow> bool"
  parse_json :: "string \<Rightarrow> json option"
  sha256_hex :: "string \<Rightarrow> string"

definition parse_verified_manifest :: "('k, 'g) Crypto \<Rightarrow> string \<Rightarrow> HiggsError + UpdateManifest" where
  "parse_verified_manifest lib manifest_bytes =
     (case Option.bind (parse_json lib manifest_bytes) manifest_from_json of
        None \<Rightarrow> Inl (UpdateManifestInvalid ''manifest is not valid JSON'')
      | Some m \<Rightarrow>
          if um_schema m \<noteq> UPDATE_MANIFEST_SCHEMA then Inl (UpdateManifestInvalid ''unsupported manifest schema'')
          else Inr m)"

definition verify_with_key ::
  "('k, 'g) Crypto \<Rightarrow> string \<Rightarrow> string \<Rightarrow> string \<Rightarrow> HiggsError + UpdateManifest" where
  "verify_with_key lib manifest_bytes signature_text pk_b64 =
     (case key_from_base64 lib pk_b64 of
        None \<Rightarrow> Inl (UpdateSignatureInvalid ''pinned public key is malformed'')
      | Some pk \<Rightarrow>
      (case sig_decode lib signature_text of
        None \<Rightarrow> Inl (UpdateSignatureInvalid ''signature is malformed'')
      | Some sg \<Rightarrow>
          if sig_verify lib pk manifest_bytes sg then parse_verified_manifest lib manifest_bytes
          else Inl (UpdateSignatureInvalid ''signature does not verify under key'')))"

definition verify_manifest_with ::
  "('k, 'g) Crypto \<Rightarrow> string \<Rightarrow> string \<Rightarrow> string \<Rightarrow> (string \<times> string) list \<Rightarrow> HiggsError + UpdateManifest" where
  "verify_manifest_with lib manifest_bytes signature_text pinned_key_id pubkeys =
     (case List.find (\<lambda>(key_id, pk). key_id = pinned_key_id) pubkeys of
        None \<Rightarrow> Inl (UpdateKeyUnknown pinned_key_id)
      | Some (_, pk) \<Rightarrow> verify_with_key lib manifest_bytes signature_text pk)"

fun try_keys ::
  "('k, 'g) Crypto \<Rightarrow> string \<Rightarrow> string \<Rightarrow> (string \<times> string) list \<Rightarrow> HiggsError + (string \<times> UpdateManifest)" where
  "try_keys lib manifest_bytes signature_text [] =
     Inl (UpdateSignatureInvalid ''signature does not verify under any of the pinned release keys'')"
| "try_keys lib manifest_bytes signature_text ((key_id, pk) # ks) =
     (case verify_with_key lib manifest_bytes signature_text pk of
        Inr m \<Rightarrow> Inr (key_id, m)
      | Inl (UpdateManifestInvalid d) \<Rightarrow> Inl (UpdateManifestInvalid d)
      | Inl _ \<Rightarrow> try_keys lib manifest_bytes signature_text ks)"

definition verify_manifest_any_with ::
  "('k, 'g) Crypto \<Rightarrow> string \<Rightarrow> string \<Rightarrow> (string \<times> string) list \<Rightarrow> HiggsError + (string \<times> UpdateManifest)" where
  "verify_manifest_any_with lib manifest_bytes signature_text pubkeys =
     (if pubkeys = [] then Inl (UpdateKeyUnknown ''<none pinned>'')
      else try_keys lib manifest_bytes signature_text pubkeys)"

definition verify_artifact_sha256_hex :: "UpdateManifest \<Rightarrow> string \<Rightarrow> HiggsError + unit" where
  "verify_artifact_sha256_hex m got =
     (if eq_ignore_ascii_case got (um_sha256 m) then Inr ()
      else Inl (UpdateArtifactMismatch (um_file m) (um_sha256 m) got))"

subsection \<open>The pinned keys\<close>

text \<open>\<open>str::split_whitespace\<close>: the words between runs of white space; the pinned file is ASCII.\<close>

definition is_space :: "char \<Rightarrow> bool" where
  "is_space c \<longleftrightarrow> of_char c \<in> {9, 10, 11, 12, 13, 32 :: nat}"

fun split_words :: "string \<Rightarrow> string \<Rightarrow> string list" where
  "split_words w [] = (if w = [] then [] else [w])"
| "split_words w (c # s) =
     (if is_space c then (if w = [] then split_words [] s else w # split_words [] s)
      else split_words (w @ [c]) s)"

definition split_whitespace :: "string \<Rightarrow> string list" where
  "split_whitespace s = split_words [] s"

definition pubkey_line :: "string \<Rightarrow> (string \<times> string) option" where
  "pubkey_line l = (case split_whitespace l of [key_id, pk] \<Rightarrow> Some (key_id, pk) | _ \<Rightarrow> None)"

definition parse_pubkeys_file :: "string \<Rightarrow> (string \<times> string) list" where
  "parse_pubkeys_file content =
     List.map_filter pubkey_line
       (filter (\<lambda>l. l \<noteq> [] \<and> \<not> prefix ''#'' l) (map trim (split_on (CHR 10) content)))"

subsection \<open>Eligibility\<close>

datatype Ordering = Less | Equal | Greater

record Semver =
  sv_parses :: "string \<Rightarrow> bool"
  cmp_precedence :: "string \<Rightarrow> string \<Rightarrow> Ordering"

record BuildIdentity =
  bi_version :: string
  bi_target :: string
  bi_variant :: string

definition evaluate_eligibility ::
  "Semver \<Rightarrow> BuildIdentity \<Rightarrow> UpdateManifest \<Rightarrow> bool \<Rightarrow> HiggsError + unit" where
  "evaluate_eligibility sv running m allow_downgrade =
     (if um_target m \<noteq> bi_target running
      then Inl (UpdateTargetMismatch ''target'' (um_target m) (bi_target running))
      else if um_variant m \<noteq> bi_variant running
      then Inl (UpdateTargetMismatch ''variant'' (um_variant m) (bi_variant running))
      else if um_version m \<noteq> bi_version running \<and> eq_ignore_ascii_case (um_version m) (bi_version running)
      then Inl (UpdateNotNewer (bi_version running) (um_version m))
      else if \<not> sv_parses sv (um_version m)
      then Inl (UpdateManifestInvalid ''manifest version is not valid semver'')
      else if \<not> sv_parses sv (bi_version running)
      then Inl (UpdateApplyFailed ''running version is not valid semver'')
      else
        let refuse = (case cmp_precedence sv (um_version m) (bi_version running) of
                        Greater \<Rightarrow> False | Equal \<Rightarrow> True | Less \<Rightarrow> \<not> allow_downgrade)
        in if refuse then Inl (UpdateNotNewer (bi_version running) (um_version m)) else Inr ())"

subsection \<open>The artifact on disk\<close>

text \<open>\<open>sp_hashed\<close> is what the running hash has consumed.\<close>

record ArtifactSpool =
  sp_content :: string
  sp_hashed :: string
  sp_written :: u64
  sp_cap :: u64

definition MAX_MANIFEST_BYTES :: u64 where "MAX_MANIFEST_BYTES = 64 * 1024"
definition MAX_SIG_BYTES :: u64 where "MAX_SIG_BYTES = 4 * 1024"
definition MAX_ARTIFACT_BYTES :: u64 where "MAX_ARTIFACT_BYTES = 4 * 1024 * 1024 * 1024"

definition fetch_err :: "string \<Rightarrow> HiggsError" where
  "fetch_err detail = UpdateFetchFailed detail"

definition spool_create :: "u64 \<Rightarrow> ArtifactSpool" where
  "spool_create cap = \<lparr>sp_content = [], sp_hashed = [], sp_written = 0, sp_cap = cap\<rparr>"

text \<open>A failing \<open>write_all\<close> may leave a part of the chunk in the file.\<close>

datatype write_result = Wrote | WroteOnly nat

definition write_chunk ::
  "write_result \<Rightarrow> string \<Rightarrow> ArtifactSpool \<Rightarrow> (HiggsError + unit) \<times> ArtifactSpool" where
  "write_chunk w chunk sp =
     (if sp_written sp + of_nat (length chunk) > sp_cap sp
      then (Inl (fetch_err ''artifact exceeds the cap''), sp)
      else case w of
        WroteOnly n \<Rightarrow>
          (Inl (UpdateApplyFailed ''writing artifact spool''), sp\<lparr>sp_content := sp_content sp @ take n chunk\<rparr>)
      | Wrote \<Rightarrow>
          (Inr (), sp\<lparr>sp_content := sp_content sp @ chunk, sp_hashed := sp_hashed sp @ chunk,
                      sp_written := sp_written sp + of_nat (length chunk)\<rparr>))"

definition spool_finish :: "('k, 'g) Crypto \<Rightarrow> bool \<Rightarrow> ArtifactSpool \<Rightarrow> HiggsError + string" where
  "spool_finish lib synced sp =
     (if synced then Inr (sha256_hex lib (sp_hashed sp)) else Inl (UpdateApplyFailed ''flushing artifact spool''))"

text \<open>
  One turn of a read loop: the instant its time check sees (nanoseconds), what the body read
  yields, and how the write of the chunk goes. A body is a list of turns; at its end it yields
  end of file. A chunk has at most 64 KiB.
\<close>

datatype body_read = Bytes string | Eof | ReadFailed

record fetch_turn =
  at_ns :: nat
  got :: body_read
  stored :: write_result

definition ARTIFACT_PROGRESS_WINDOW :: nat where "ARTIFACT_PROGRESS_WINDOW = 60 * 1000000000"
definition ARTIFACT_MIN_WINDOW_BYTES :: u64 where "ARTIFACT_MIN_WINDOW_BYTES = 64 * 1024"
definition ARTIFACT_MAX_DURATION :: nat where "ARTIFACT_MAX_DURATION = 6 * 60 * 60 * 1000000000"
definition HTTP_FETCH_DEADLINE :: nat where "HTTP_FETCH_DEADLINE = 600 * 1000000000"

definition artifact_window_stalled :: "nat \<Rightarrow> u64 \<Rightarrow> bool" where
  "artifact_window_stalled window_elapsed window_bytes \<longleftrightarrow>
     window_elapsed \<ge> ARTIFACT_PROGRESS_WINDOW \<and> window_bytes < ARTIFACT_MIN_WINDOW_BYTES"

fun fetch_loop_to ::
  "nat \<Rightarrow> nat \<Rightarrow> u64 \<Rightarrow> fetch_turn list \<Rightarrow> ArtifactSpool \<Rightarrow> (HiggsError + unit) \<times> ArtifactSpool" where
  "fetch_loop_to start window_start window_bytes [] sp = (Inr (), sp)"
| "fetch_loop_to start window_start window_bytes (t # ts) sp =
     (if at_ns t - start \<ge> ARTIFACT_MAX_DURATION
      then (Inl (fetch_err ''exceeded the absolute fetch ceiling''), sp)
      else if artifact_window_stalled (at_ns t - window_start) window_bytes
      then (Inl (fetch_err ''stalled''), sp)
      else
        let (window_start, window_bytes) =
              (if at_ns t - window_start \<ge> ARTIFACT_PROGRESS_WINDOW then (at_ns t, 0)
               else (window_start, window_bytes))
        in case got t of
             ReadFailed \<Rightarrow> (Inl (fetch_err ''reading''), sp)
           | Eof \<Rightarrow> (Inr (), sp)
           | Bytes chunk \<Rightarrow>
               if chunk = [] then (Inr (), sp)
               else
                 (case write_chunk (stored t) chunk sp of
                    (Inl e, sp) \<Rightarrow> (Inl e, sp)
                  | (Inr _, sp) \<Rightarrow>
                      fetch_loop_to start window_start (window_bytes + of_nat (length chunk)) ts sp))"

text \<open>The answer to a request: the status, the announced length, the body.\<close>

record http_answer =
  ha_status :: nat
  ha_length :: "u64 option"
  ha_start :: nat
  ha_body :: "fetch_turn list"

definition bad_status :: "http_answer \<Rightarrow> HiggsError option" where
  "bad_status r =
     (if 200 \<le> ha_status r \<and> ha_status r < 300 then None
      else if 300 \<le> ha_status r \<and> ha_status r < 400 then Some (fetch_err ''redirected; redirects are not followed'')
      else Some (fetch_err ''HTTP status''))"

definition fetch_bounded_to ::
  "http_answer option \<Rightarrow> ArtifactSpool \<Rightarrow> (HiggsError + unit) \<times> ArtifactSpool" where
  "fetch_bounded_to answer sp =
     (case answer of
        None \<Rightarrow> (Inl (fetch_err ''GET failed''), sp)
      | Some r \<Rightarrow>
      (case bad_status r of
        Some e \<Rightarrow> (Inl e, sp)
      | None \<Rightarrow>
          if (case ha_length r of None \<Rightarrow> False | Some len \<Rightarrow> len > MAX_ARTIFACT_BYTES)
          then (Inl (fetch_err ''exceeds the cap''), sp)
          else fetch_loop_to (ha_start r) (ha_start r) 0 (ha_body r) sp))"

fun fetch_loop :: "nat \<Rightarrow> u64 \<Rightarrow> fetch_turn list \<Rightarrow> string \<Rightarrow> HiggsError + string" where
  "fetch_loop deadline cap [] buf = Inr buf"
| "fetch_loop deadline cap (t # ts) buf =
     (if at_ns t \<ge> deadline then Inl (fetch_err ''exceeded the fetch deadline'')
      else case got t of
        ReadFailed \<Rightarrow> Inl (fetch_err ''reading'')
      | Eof \<Rightarrow> Inr buf
      | Bytes chunk \<Rightarrow>
          if chunk = [] then Inr buf
          else if of_nat (length buf) + of_nat (length chunk) > cap then Inl (fetch_err ''exceeded the cap'')
          else fetch_loop deadline cap ts (buf @ chunk))"

definition fetch_bounded :: "http_answer option \<Rightarrow> u64 \<Rightarrow> HiggsError + string" where
  "fetch_bounded answer cap =
     (case answer of
        None \<Rightarrow> Inl (fetch_err ''GET failed'')
      | Some r \<Rightarrow>
      (case bad_status r of
        Some e \<Rightarrow> Inl e
      | None \<Rightarrow>
          if (case ha_length r of None \<Rightarrow> False | Some len \<Rightarrow> len > cap) then Inl (fetch_err ''exceeds the cap'')
          else fetch_loop (ha_start r + HTTP_FETCH_DEADLINE) cap (ha_body r) []))"

definition check_pushed_sizes :: "string \<Rightarrow> string \<Rightarrow> HiggsError + unit" where
  "check_pushed_sizes manifest manifest_sig =
     (if of_nat (length manifest) > MAX_MANIFEST_BYTES then Inl (fetch_err ''pushed manifest over the cap'')
      else if of_nat (length manifest_sig) > MAX_SIG_BYTES then Inl (fetch_err ''pushed signature over the cap'')
      else Inr ())"

text \<open>\<open>copy_into_spool\<close>: the read loop of a local tarball.\<close>

fun copy_into_spool :: "fetch_turn list \<Rightarrow> ArtifactSpool \<Rightarrow> (HiggsError + unit) \<times> ArtifactSpool" where
  "copy_into_spool [] sp = (Inr (), sp)"
| "copy_into_spool (t # ts) sp =
     (case got t of
        ReadFailed \<Rightarrow> (Inl (UpdateApplyFailed ''reading tarball''), sp)
      | Eof \<Rightarrow> (Inr (), sp)
      | Bytes chunk \<Rightarrow>
          if chunk = [] then (Inr (), sp)
          else (case write_chunk (stored t) chunk sp of
                  (Inl e, sp) \<Rightarrow> (Inl e, sp)
                | (Inr _, sp) \<Rightarrow> copy_into_spool ts sp))"

subsection \<open>The verify pipeline\<close>

text \<open>
  A source hands out the manifest with its signature and streams the artifact of a file name
  into the spool. The outcome of a verification carries the authenticated version, once there
  is one, and the artifact that was asked for, if any was.
\<close>

record UpdateSource =
  src_manifest :: "HiggsError + string \<times> string"
  artifact_to :: "string \<Rightarrow> ArtifactSpool \<Rightarrow> (HiggsError + unit) \<times> ArtifactSpool"

record VerifiedUpdate =
  vu_key_id :: string
  vu_manifest :: UpdateManifest
  vu_artifact :: ArtifactSpool

record Verification =
  vf_authenticated :: "string option"
  vf_asked :: "string option"
  vf_result :: "HiggsError + VerifiedUpdate"

definition verification :: "string option \<Rightarrow> string option \<Rightarrow> HiggsError + VerifiedUpdate \<Rightarrow> Verification" where
  "verification a q r = \<lparr>vf_authenticated = a, vf_asked = q, vf_result = r\<rparr>"

definition verify_and_check_with ::
  "('k, 'g) Crypto \<Rightarrow> Semver \<Rightarrow> UpdateSource \<Rightarrow> BuildIdentity \<Rightarrow> bool \<Rightarrow> bool \<Rightarrow> bool \<Rightarrow> string option \<Rightarrow>
   (string \<times> string) list \<Rightarrow> Verification" where
  "verify_and_check_with lib sv src running created synced allow_downgrade expected pubkeys =
     (case src_manifest src of
        Inl e \<Rightarrow> verification None None (Inl e)
      | Inr (manifest_bytes, sig_text) \<Rightarrow>
      (case verify_manifest_any_with lib manifest_bytes sig_text pubkeys of
        Inl e \<Rightarrow> verification None None (Inl e)
      | Inr (key_id, m) \<Rightarrow>
          let auth = Some (um_version m) in
          if (case expected of None \<Rightarrow> False | Some v \<Rightarrow> um_version m \<noteq> v)
          then verification auth None (Inl (UpdateManifestInvalid ''version does not match the requested release''))
          else
          (case evaluate_eligibility sv running m allow_downgrade of
             Inl e \<Rightarrow> verification auth None (Inl e)
           | Inr _ \<Rightarrow>
               if \<not> created then verification auth None (Inl (UpdateApplyFailed ''cannot create artifact spool''))
               else
               (case artifact_to src (um_file m) (spool_create MAX_ARTIFACT_BYTES) of
                  (Inl e, sp) \<Rightarrow> verification auth (Some (um_file m)) (Inl e)
                | (Inr _, sp) \<Rightarrow>
                (case spool_finish lib synced sp of
                   Inl e \<Rightarrow> verification auth (Some (um_file m)) (Inl e)
                 | Inr digest \<Rightarrow>
                 (case verify_artifact_sha256_hex m digest of
                    Inl e \<Rightarrow> verification auth (Some (um_file m)) (Inl e)
                  | Inr _ \<Rightarrow>
                      verification auth (Some (um_file m))
                        (Inr \<lparr>vu_key_id = key_id, vu_manifest = m, vu_artifact = sp\<rparr>)))))))"

end
