(* ===== verification/Update_Verify.thy ===== *)
theory Update_Verify
  imports Update_Trust
begin

text \<open>
  What the fetch and verify pipeline guarantees: whose manifest is accepted, what is asked of the
  network before it is, and that the bytes that are hashed are the bytes on disk, bounded in
  number and in time.
\<close>

subsection \<open>Whose manifest is accepted\<close>

definition accepts :: "('k, 'g) Crypto \<Rightarrow> string \<Rightarrow> string \<Rightarrow> string \<Rightarrow> bool" where
  "accepts lib manifest_bytes sig_text pk_b64 \<longleftrightarrow>
     (\<exists>pk sg. key_from_base64 lib pk_b64 = Some pk \<and> sig_decode lib sig_text = Some sg \<and>
        sig_verify lib pk manifest_bytes sg)"

lemma verify_with_key_accepts:
  "verify_with_key lib bytes sig pk =
     (if accepts lib bytes sig pk then parse_verified_manifest lib bytes
      else verify_with_key lib bytes sig pk)"
  by (auto simp: verify_with_key_def accepts_def)

lemma verify_with_key_refuses:
  "\<not> accepts lib bytes sig pk \<Longrightarrow> \<exists>d. verify_with_key lib bytes sig pk = Inl (UpdateSignatureInvalid d)"
  by (auto simp: verify_with_key_def accepts_def split: option.split)

lemma parse_error: "parse_verified_manifest lib bytes = Inl e \<Longrightarrow> \<exists>d. e = UpdateManifestInvalid d"
  by (auto simp: parse_verified_manifest_def split: option.splits if_splits)

lemma try_keys_first:
  "try_keys lib bytes sig ks =
     (case filter (\<lambda>(key_id, pk). accepts lib bytes sig pk) ks of
        [] \<Rightarrow> Inl (UpdateSignatureInvalid ''signature does not verify under any of the pinned release keys'')
      | (key_id, pk) # _ \<Rightarrow>
          (case parse_verified_manifest lib bytes of Inl e \<Rightarrow> Inl e | Inr m \<Rightarrow> Inr (key_id, m)))"
proof (induction ks)
  case (Cons k ks)
  obtain key_id pk where k: "k = (key_id, pk)" by fastforce
  show ?case
  proof (cases "accepts lib bytes sig pk")
    case True
    then have v: "verify_with_key lib bytes sig pk = parse_verified_manifest lib bytes"
      by (subst verify_with_key_accepts) simp
    with True k show ?thesis
      by (cases "parse_verified_manifest lib bytes") (auto dest: parse_error)
  next
    case False
    with verify_with_key_refuses [OF False] Cons k show ?thesis by auto
  qed
qed simp

text \<open>Whose manifest counts: with no pinned key every update is refused [HG081]; otherwise the
  manifest is read exactly if a pinned key verifies its bytes, under the name of the first such
  key, and then its own defects [HG083] are what is reported; if none does, it is refused [HG082]
  unread.\<close>

theorem manifest_verdict:
  "verify_manifest_any_with lib bytes sig pubkeys =
     (if pubkeys = [] then Inl (UpdateKeyUnknown ''<none pinned>'')
      else case filter (\<lambda>(key_id, pk). accepts lib bytes sig pk) pubkeys of
        [] \<Rightarrow> Inl (UpdateSignatureInvalid ''signature does not verify under any of the pinned release keys'')
      | (key_id, pk) # _ \<Rightarrow>
          (case parse_verified_manifest lib bytes of Inl e \<Rightarrow> Inl e | Inr m \<Rightarrow> Inr (key_id, m)))"
  by (simp add: verify_manifest_any_with_def try_keys_first)

subsection \<open>The bytes of a fetch\<close>

fun chunk_of :: "fetch_turn \<Rightarrow> string" where
  "chunk_of t = (case got t of Bytes c \<Rightarrow> c | _ \<Rightarrow> [])"

text \<open>A read fills at most the loop's 64 KiB buffer.\<close>

definition buffered :: "fetch_turn list \<Rightarrow> bool" where
  "buffered ts \<longleftrightarrow> list_all (\<lambda>t. length (chunk_of t) \<le> 65536) ts"

text \<open>The body up to its end: the chunks before the first turn that yields none.\<close>

definition body_bytes :: "fetch_turn list \<Rightarrow> string" where
  "body_bytes ts = concat (map chunk_of (takeWhile (\<lambda>t. chunk_of t \<noteq> []) ts))"

lemma body_bytes_simps [simp]:
  "body_bytes [] = []"
  "body_bytes (t # ts) = (if chunk_of t = [] then [] else chunk_of t @ body_bytes ts)"
  by (simp_all add: body_bytes_def del: chunk_of.simps)

definition spool_ok :: "ArtifactSpool \<Rightarrow> bool" where
  "spool_ok sp \<longleftrightarrow> sp_content sp = sp_hashed sp \<and> unat (sp_written sp) = length (sp_content sp) \<and>
     unat (sp_written sp) \<le> unat (sp_cap sp) \<and> unat (sp_cap sp) < 2 ^ 63"

lemma spool_okD:
  assumes "spool_ok sp"
  shows "sp_content sp = sp_hashed sp" "unat (sp_written sp) = length (sp_hashed sp)"
    "length (sp_hashed sp) \<le> unat (sp_cap sp)" "unat (sp_cap sp) < 2 ^ 63"
  using assms by (auto simp: spool_ok_def)

lemma write_chunk_cases:
  assumes "spool_ok sp" "length chunk \<le> 65536"
  obtains sp' where "write_chunk w chunk sp = (Inr (), sp')" "spool_ok sp'" "sp_cap sp' = sp_cap sp"
      "sp_content sp' = sp_content sp @ chunk" "sp_written sp' = sp_written sp + of_nat (length chunk)"
    | e sp' where "write_chunk w chunk sp = (Inl e, sp')" "sp_hashed sp' = sp_hashed sp"
      "length (sp_content sp') \<le> unat (sp_cap sp)"
proof -
  have small: "unat (of_nat (length chunk) :: u64) = length chunk"
    using assms(2) by (simp add: unat_of_nat take_bit_eq_mod)
  moreover have "unat (sp_written sp) + length chunk < 2 ^ 64"
    using spool_okD [OF assms(1)] assms(2) by simp
  ultimately have sum: "unat (sp_written sp + of_nat (length chunk)) = unat (sp_written sp) + length chunk"
    by (simp add: unat_word_ariths)
  show thesis
  proof (cases "sp_written sp + of_nat (length chunk) > sp_cap sp")
    case True
    then show thesis using that(2) spool_okD [OF assms(1)] by (simp add: write_chunk_def)
  next
    case False
    then have le: "unat (sp_written sp) + length chunk \<le> unat (sp_cap sp)"
      using sum by (simp add: word_less_nat_alt not_less)
    show thesis
    proof (cases w)
      case Wrote
      then show thesis
        by (intro that(1) [of "sp\<lparr>sp_content := sp_content sp @ chunk, sp_hashed := sp_hashed sp @ chunk,
              sp_written := sp_written sp + of_nat (length chunk)\<rparr>"])
           (use False spool_okD [OF assms(1)] sum le in \<open>simp_all add: write_chunk_def spool_ok_def\<close>)
    next
      case (WroteOnly n)
      then show thesis
        using that(2) False spool_okD [OF assms(1)] le by (simp add: write_chunk_def)
    qed
  qed
qed

lemma fetch_loop_to_bytes:
  assumes "spool_ok sp" "buffered ts" "fetch_loop_to start ws wb ts sp = (r, sp')"
  shows "length (sp_content sp') \<le> unat (sp_cap sp) \<and>
    (r = Inr () \<longrightarrow> spool_ok sp' \<and> sp_content sp' = sp_content sp @ body_bytes ts)"
  using assms
proof (induction ts arbitrary: ws wb sp)
  case (Cons t ts)
  show ?case
  proof (cases "at_ns t - start \<ge> ARTIFACT_MAX_DURATION \<or> artifact_window_stalled (at_ns t - ws) wb \<or> chunk_of t = []")
    case True
    with Cons.prems show ?thesis
      by (auto simp: spool_ok_def Let_def split: if_splits body_read.splits)
  next
    case False
    then obtain chunk where c: "got t = Bytes chunk" "chunk \<noteq> []" "chunk_of t = chunk"
      by (cases "got t") auto
    with Cons.prems(2) have small: "length chunk \<le> 65536" and rest: "buffered ts"
      by (simp_all add: buffered_def)
    show ?thesis
    proof (cases rule: write_chunk_cases [OF Cons.prems(1) small, of "stored t"])
      case (1 sp1)
      with False Cons.prems(3) c obtain ws' wb' where
        "fetch_loop_to start ws' wb' ts sp1 = (r, sp')" by (auto simp: Let_def split: if_splits)
      from Cons.IH [OF 1(2) rest this] 1 c show ?thesis by auto
    next
      case (2 e sp1)
      with False Cons.prems(3) c show ?thesis by (auto simp: Let_def split: if_splits)
    qed
  qed
qed (auto simp: spool_ok_def)

lemma copy_into_spool_bytes:
  assumes "spool_ok sp" "buffered ts" "copy_into_spool ts sp = (r, sp')"
  shows "length (sp_content sp') \<le> unat (sp_cap sp) \<and>
    (r = Inr () \<longrightarrow> spool_ok sp' \<and> sp_content sp' = sp_content sp @ body_bytes ts)"
  using assms
proof (induction ts arbitrary: sp)
  case (Cons t ts)
  show ?case
  proof (cases "chunk_of t = []")
    case True
    with Cons.prems show ?thesis by (auto simp: spool_ok_def split: if_splits body_read.splits)
  next
    case False
    then obtain chunk where c: "got t = Bytes chunk" "chunk \<noteq> []" "chunk_of t = chunk"
      by (cases "got t") auto
    with Cons.prems(2) have small: "length chunk \<le> 65536" and rest: "buffered ts"
      by (simp_all add: buffered_def)
    show ?thesis
    proof (cases rule: write_chunk_cases [OF Cons.prems(1) small, of "stored t"])
      case (1 sp1)
      with Cons.prems(3) c have "copy_into_spool ts sp1 = (r, sp')" by simp
      from Cons.IH [OF 1(2) rest this] 1 c show ?thesis by auto
    next
      case (2 e sp1)
      with Cons.prems(3) c show ?thesis by auto
    qed
  qed
qed (auto simp: spool_ok_def)

text \<open>What is hashed is what is on disk: a streamed artifact never takes more than the cap, and
  when the stream ends well, the file and the running hash both hold the body, whole and in
  order, whatever a server sends and however it splits it; a local tarball likewise.\<close>

theorem spool_holds_the_body:
  assumes "buffered ts"
  shows "(case fetch_loop_to start start 0 ts (spool_create MAX_ARTIFACT_BYTES) of
            (Inr _, sp) \<Rightarrow> sp_content sp = body_bytes ts \<and> sp_hashed sp = body_bytes ts \<and>
              length (body_bytes ts) \<le> 4 * 1024 ^ 3
          | (Inl _, sp) \<Rightarrow> length (sp_content sp) \<le> 4 * 1024 ^ 3) \<and>
         (case copy_into_spool ts (spool_create MAX_ARTIFACT_BYTES) of
            (Inr _, sp) \<Rightarrow> sp_content sp = body_bytes ts \<and> sp_hashed sp = body_bytes ts \<and>
              length (body_bytes ts) \<le> 4 * 1024 ^ 3
          | (Inl _, sp) \<Rightarrow> length (sp_content sp) \<le> 4 * 1024 ^ 3)"
proof -
  have ok: "spool_ok (spool_create MAX_ARTIFACT_BYTES)" "sp_content (spool_create MAX_ARTIFACT_BYTES) = []"
    "unat (sp_cap (spool_create MAX_ARTIFACT_BYTES)) = 4 * 1024 ^ 3"
    by (simp_all add: spool_ok_def spool_create_def MAX_ARTIFACT_BYTES_def)
  have sound: "case res of
      (Inr _, sp) \<Rightarrow> sp_content sp = body_bytes ts \<and> sp_hashed sp = body_bytes ts \<and> length (body_bytes ts) \<le> 4 * 1024 ^ 3
    | (Inl _, sp) \<Rightarrow> length (sp_content sp) \<le> 4 * 1024 ^ 3"
    if "length (sp_content (snd res)) \<le> unat (sp_cap (spool_create MAX_ARTIFACT_BYTES))"
      "fst res = Inr () \<longrightarrow> spool_ok (snd res) \<and>
         sp_content (snd res) = sp_content (spool_create MAX_ARTIFACT_BYTES) @ body_bytes ts"
    for res :: "(HiggsError + unit) \<times> ArtifactSpool"
    using that ok(2,3) by (cases res; cases "fst res") (auto simp: spool_ok_def)
  show ?thesis
    by (intro conjI sound)
       (use fetch_loop_to_bytes [OF ok(1) assms prod.collapse [symmetric]]
          copy_into_spool_bytes [OF ok(1) assms prod.collapse [symmetric]] in blast)+
qed

theorem spool_holds_the_body_witness:
  "(case fetch_loop_to 0 0 0 [\<lparr>at_ns = 1, got = Bytes ''ab'', stored = Wrote\<rparr>, \<lparr>at_ns = 2, got = Eof, stored = Wrote\<rparr>]
      (spool_create MAX_ARTIFACT_BYTES) of (Inr _, sp) \<Rightarrow> sp_content sp = ''ab'' | _ \<Rightarrow> True)"
  using spool_holds_the_body [of "[\<lparr>at_ns = 1, got = Bytes ''ab'', stored = Wrote\<rparr>, \<lparr>at_ns = 2, got = Eof, stored = Wrote\<rparr>]" 0]
  by (simp add: buffered_def split: prod.splits sum.splits)

subsection \<open>The slow-drip guard\<close>

fun spaced :: "nat \<Rightarrow> nat \<Rightarrow> fetch_turn list \<Rightarrow> bool" where
  "spaced gap before [] = True"
| "spaced gap before (t # ts) = (before \<le> at_ns t \<and> at_ns t \<le> before + gap \<and> spaced gap (at_ns t) ts)"

lemma drip_bound:
  assumes "fetch_loop_to start ws wb ts sp = (Inr (), sp')" "ts = body @ [t]"
    "list_all (\<lambda>t. chunk_of t \<noteq> []) body" "buffered ts" "spool_ok sp"
    "spaced gap before ts" "ws \<le> before" "before < ws + ARTIFACT_PROGRESS_WINDOW"
    "unat wb \<le> unat (sp_written sp)"
  shows "at_ns t \<le> ws + ((unat wb + length (concat (map chunk_of body))) div 65536 + 1) *
    (ARTIFACT_PROGRESS_WINDOW + gap)"
  using assms
proof (induction body arbitrary: ts ws wb sp before)
  case Nil
  then have "at_ns t \<le> ws + (ARTIFACT_PROGRESS_WINDOW + gap)" by auto
  also have "\<dots> \<le> ws + ((unat wb + length (concat (map chunk_of []))) div 65536 + 1) * (ARTIFACT_PROGRESS_WINDOW + gap)"
    by (intro add_left_mono) (simp add: algebra_simps)
  finally show ?case .
next
  case (Cons u body)
  let ?W = "ARTIFACT_PROGRESS_WINDOW + gap"
  from Cons.prems(2,3) obtain chunk where c: "got u = Bytes chunk" "chunk \<noteq> []" "chunk_of u = chunk"
    by (cases "got u") auto
  have small: "length chunk \<le> 65536" and rest: "buffered (body @ [t])"
    using Cons.prems(2,4) c by (simp_all add: buffered_def)
  have ran: "\<not> artifact_window_stalled (at_ns u - ws) wb" "\<not> at_ns u - start \<ge> ARTIFACT_MAX_DURATION"
    using Cons.prems(1,2) by (auto simp del: fetch_loop_to.simps simp: fetch_loop_to.simps(2) [of start ws wb u] split: if_splits)
  have times: "before \<le> at_ns u" "at_ns u \<le> before + gap" "spaced gap (at_ns u) (body @ [t])"
    using Cons.prems(2,6) by auto
  have run0: "fetch_loop_to start ws wb (u # (body @ [t])) sp = (Inr (), sp')"
    using Cons.prems(1,2) by (simp del: fetch_loop_to.simps)
  define ws' where "ws' = (if at_ns u - ws \<ge> ARTIFACT_PROGRESS_WINDOW then at_ns u else ws)"
  define wb' where "wb' = (if at_ns u - ws \<ge> ARTIFACT_PROGRESS_WINDOW then 0 else wb) + of_nat (length chunk)"
  obtain w sp1 where res: "write_chunk (stored u) chunk sp = (w, sp1)" by fastforce
  have "\<exists>sp1. write_chunk (stored u) chunk sp = (Inr (), sp1) \<and>
      fetch_loop_to start ws' wb' (body @ [t]) sp1 = (Inr (), sp')"
    using run0 ran c res by (cases w; cases "at_ns u - ws \<ge> ARTIFACT_PROGRESS_WINDOW")
      (simp_all add: ws'_def wb'_def del: fetch_loop_to.simps add: fetch_loop_to.simps(2) [of start ws wb u])
  then obtain sp1 where run: "fetch_loop_to start ws' wb' (body @ [t]) sp1 = (Inr (), sp')"
    and sp1: "write_chunk (stored u) chunk sp = (Inr (), sp1)" by blast
  have next_window: "if at_ns u - ws \<ge> ARTIFACT_PROGRESS_WINDOW then ws' = at_ns u \<and> wb' = 0 + of_nat (length chunk)
      else ws' = ws \<and> wb' = wb + of_nat (length chunk)"
    by (simp add: ws'_def wb'_def)
  from write_chunk_cases [OF Cons.prems(5) small, of "stored u"] sp1
  have ok: "spool_ok sp1" "sp_written sp1 = sp_written sp + of_nat (length chunk)" by auto
  have len: "unat (of_nat (length chunk) :: u64) = length chunk"
    using small by (simp add: unat_of_nat take_bit_eq_mod)
  have room: "unat (sp_written sp) + length chunk < 2 ^ 64"
    using spool_okD [OF Cons.prems(5)] small by simp
  then have written: "unat (sp_written sp1) = unat (sp_written sp) + length chunk"
    using len ok(2) by (simp add: unat_word_ariths)
  have body: "list_all (\<lambda>t. chunk_of t \<noteq> []) body" using Cons.prems(3) by simp
  have total: "length (concat (map chunk_of (u # body))) = length chunk + length (concat (map chunk_of body))"
    using c by simp
  show ?case
  proof (cases "at_ns u - ws \<ge> ARTIFACT_PROGRESS_WINDOW")
    case True
    with next_window len have w: "ws' = at_ns u" "unat wb' = length chunk" by simp_all
    have "\<not> wb < ARTIFACT_MIN_WINDOW_BYTES" using ran(1) True by (simp add: artifact_window_stalled_def)
    then have full: "65536 \<le> unat wb" by (simp add: word_less_nat_alt ARTIFACT_MIN_WINDOW_BYTES_def)
    have "at_ns t \<le> at_ns u + ((unat wb' + length (concat (map chunk_of body))) div 65536 + 1) * ?W"
      by (rule Cons.IH [OF run [unfolded w(1)] refl body rest ok(1) times(3)])
         (use w written in \<open>simp_all add: ARTIFACT_PROGRESS_WINDOW_def\<close>)
    also have "\<dots> \<le> (ws + ?W) + ((length chunk + length (concat (map chunk_of body))) div 65536 + 1) * ?W"
      using times(2) Cons.prems(8) w by simp
    also have "\<dots> \<le> ws + ((unat wb + (length chunk + length (concat (map chunk_of body)))) div 65536 + 1) * ?W"
    proof -
      let ?n = "length chunk + length (concat (map chunk_of body))"
      have "?n div 65536 + 1 = (65536 + ?n) div 65536" by simp
      also have "\<dots> \<le> (unat wb + ?n) div 65536" using full by (intro div_le_mono) simp
      finally have "(?n div 65536 + 1) * ?W \<le> ((unat wb + ?n) div 65536) * ?W" by (rule mult_le_mono1)
      then show ?thesis by (simp add: algebra_simps)
    qed
    finally show ?thesis unfolding total .
  next
    case False
    have sum: "unat (wb + of_nat (length chunk)) = unat wb + length chunk"
      using len room Cons.prems(9) by (simp add: unat_word_ariths)
    with next_window False have w: "ws' = ws" "unat wb' = unat wb + length chunk" by simp_all
    have "at_ns t \<le> ws + ((unat wb' + length (concat (map chunk_of body))) div 65536 + 1) * ?W"
      by (rule Cons.IH [OF run [unfolded w(1)] refl body rest ok(1) times(3)])
         (use w written False Cons.prems(7,9) times(1) in auto)
    then show ?thesis unfolding total w(2) by (simp only: add.assoc)
  qed
qed

text \<open>A slow drip is cut off: if a fetch succeeds over a connection whose reads return within
  \<open>gap\<close>, it took at most one window of a minute (plus the gap) more than one for each 64 KiB it
  delivered, so a server that sends a few bytes at a time cannot hold the updater; and no read of
  it began six hours or more after the start.\<close>

theorem drip_is_cut_off:
  assumes "fetch_loop_to start start 0 (body @ [t]) (spool_create MAX_ARTIFACT_BYTES) = (Inr (), sp)"
    "list_all (\<lambda>t. chunk_of t \<noteq> []) body" "buffered (body @ [t])" "spaced gap start (body @ [t])"
  shows "at_ns t - start \<le> (length (concat (map chunk_of body)) div 65536 + 1) * (60 * 1000000000 + gap) \<and>
    at_ns t - start < 6 * 60 * 60 * 1000000000"
proof -
  have ok: "spool_ok (spool_create MAX_ARTIFACT_BYTES)"
    by (simp add: spool_ok_def spool_create_def MAX_ARTIFACT_BYTES_def)
  have "fetch_loop_to start ws wb (body @ [t]) sp0 = (Inr (), sp) \<Longrightarrow> at_ns t - start < ARTIFACT_MAX_DURATION"
    if "list_all (\<lambda>t. chunk_of t \<noteq> []) body" for ws wb sp0
    using that
  proof (induction body arbitrary: ws wb sp0)
    case (Cons u body)
    then obtain chunk where "got u = Bytes chunk" "chunk \<noteq> []" by (cases "got u") auto
    with Cons show ?case by (auto simp: Let_def split: if_splits prod.splits sum.splits)
  qed (auto split: if_splits)
  from this [OF assms(2,1)] drip_bound [OF assms(1) refl assms(2,3) ok assms(4)]
  show ?thesis by (simp add: ARTIFACT_PROGRESS_WINDOW_def ARTIFACT_MAX_DURATION_def)
qed

theorem drip_is_cut_off_witness:
  "(5::nat) - 0 \<le> (2 div 65536 + 1) * (60 * 1000000000 + 5) \<and>
   fetch_loop_to 0 0 0 ([\<lparr>at_ns = 1, got = Bytes ''ab'', stored = Wrote\<rparr>] @ [\<lparr>at_ns = 5, got = Eof, stored = Wrote\<rparr>])
     (spool_create MAX_ARTIFACT_BYTES) =
     (Inr (), \<lparr>sp_content = ''ab'', sp_hashed = ''ab'', sp_written = 2, sp_cap = MAX_ARTIFACT_BYTES\<rparr>)"
proof -
  let ?b = "[\<lparr>at_ns = 1, got = Bytes ''ab'', stored = Wrote\<rparr>]" and ?t = "\<lparr>at_ns = 5, got = Eof, stored = Wrote\<rparr>"
  have run: "fetch_loop_to 0 0 0 (?b @ [?t]) (spool_create MAX_ARTIFACT_BYTES) =
     (Inr (), \<lparr>sp_content = ''ab'', sp_hashed = ''ab'', sp_written = 2, sp_cap = MAX_ARTIFACT_BYTES\<rparr>)"
    by (simp add: ARTIFACT_MAX_DURATION_def artifact_window_stalled_def ARTIFACT_PROGRESS_WINDOW_def write_chunk_def
        spool_create_def MAX_ARTIFACT_BYTES_def)
  with drip_is_cut_off [OF run, of 5] show ?thesis by (simp add: buffered_def)
qed

end
