(* ===== verification/Update_Fetch.thy ===== *)
theory Update_Fetch
  imports Update_Verify
begin

text \<open>
  Where an update may be fetched from (\<open>src/node/self_update.rs\<close>, the URL rules it shares with
  \<open>src/node/release_courier.rs\<close>) and the four sources of an update. The URL parser of the \<open>url\<close>
  crate, name resolution, the HTTP exchange and the UTF-8 check are parameters. An IPv4 address is its four octets,
  an IPv6 address its eight segments.
\<close>

unbundle bit_operations_syntax

subsection \<open>Addresses\<close>

type_synonym u8 = "8 word"
type_synonym u16 = "16 word"

datatype Ipv4Addr = Octets u8 u8 u8 u8

datatype Ipv6Addr = Segments u16 u16 u16 u16 u16 u16 u16 u16

datatype IpAddr = V4 Ipv4Addr | V6 Ipv6Addr

text \<open>The predicates of \<open>std::net::Ipv4Addr\<close>.\<close>

fun v4_loopback :: "Ipv4Addr \<Rightarrow> bool" where
  "v4_loopback (Octets a b c d) \<longleftrightarrow> a = 127"

fun v4_private :: "Ipv4Addr \<Rightarrow> bool" where
  "v4_private (Octets a b c d) \<longleftrightarrow> a = 10 \<or> a = 172 \<and> 16 \<le> b \<and> b \<le> 31 \<or> a = 192 \<and> b = 168"

fun v4_link_local :: "Ipv4Addr \<Rightarrow> bool" where
  "v4_link_local (Octets a b c d) \<longleftrightarrow> a = 169 \<and> b = 254"

fun v4_broadcast :: "Ipv4Addr \<Rightarrow> bool" where
  "v4_broadcast (Octets a b c d) \<longleftrightarrow> a = 255 \<and> b = 255 \<and> c = 255 \<and> d = 255"

fun v4_unspecified :: "Ipv4Addr \<Rightarrow> bool" where
  "v4_unspecified (Octets a b c d) \<longleftrightarrow> a = 0 \<and> b = 0 \<and> c = 0 \<and> d = 0"

fun v4_documentation :: "Ipv4Addr \<Rightarrow> bool" where
  "v4_documentation (Octets a b c d) \<longleftrightarrow>
     a = 192 \<and> b = 0 \<and> c = 2 \<or> a = 198 \<and> b = 51 \<and> c = 100 \<or> a = 203 \<and> b = 0 \<and> c = 113"

fun v4_multicast :: "Ipv4Addr \<Rightarrow> bool" where
  "v4_multicast (Octets a b c d) \<longleftrightarrow> 224 \<le> a \<and> a \<le> 239"

fun is_ssrf_prone_v4 :: "Ipv4Addr \<Rightarrow> bool" where
  "is_ssrf_prone_v4 (Octets a b c d) \<longleftrightarrow>
     v4_loopback (Octets a b c d) \<or> v4_private (Octets a b c d) \<or> v4_link_local (Octets a b c d) \<or>
     v4_broadcast (Octets a b c d) \<or> v4_unspecified (Octets a b c d) \<or>
     v4_documentation (Octets a b c d) \<or> v4_multicast (Octets a b c d) \<or>
     a = 0 \<or> a = 100 \<and> b AND 0xC0 = 64 \<or> a = 192 \<and> b = 0 \<and> c = 0 \<or> a = 192 \<and> b = 88 \<and> c = 99 \<or>
     a = 198 \<and> b AND 0xFE = 18 \<or> a \<ge> 240"

definition high_octet :: "u16 \<Rightarrow> u8" where
  "high_octet s = ucast (drop_bit 8 s)"

fun to_ipv4_mapped :: "Ipv6Addr \<Rightarrow> Ipv4Addr option" where
  "to_ipv4_mapped (Segments s0 s1 s2 s3 s4 s5 s6 s7) =
     (if s0 = 0 \<and> s1 = 0 \<and> s2 = 0 \<and> s3 = 0 \<and> s4 = 0 \<and> s5 = 0xFFFF
      then Some (Octets (high_octet s6) (ucast s6) (high_octet s7) (ucast s7)) else None)"

fun nat64 :: "Ipv6Addr \<Rightarrow> Ipv4Addr option" where
  "nat64 (Segments s0 s1 s2 s3 s4 s5 s6 s7) =
     (if s0 = 0x64 \<and> s1 = 0xFF9B \<and> s2 = 0 \<and> s3 = 0 \<and> s4 = 0 \<and> s5 = 0
      then Some (Octets (high_octet s6) (ucast s6) (high_octet s7) (ucast s7)) else None)"

fun v6_reserved :: "Ipv6Addr \<Rightarrow> bool" where
  "v6_reserved (Segments s0 s1 s2 s3 s4 s5 s6 s7) \<longleftrightarrow>
     s0 AND 0xE000 \<noteq> 0x2000 \<or> s0 = 0x2001 \<and> s1 < 0x0200 \<or> s0 = 0x2001 \<and> s1 = 0x0DB8 \<or>
     s0 = 0x2002 \<or> s0 = 0x3FFF \<and> s1 \<le> 0x0FFF"

fun is_ssrf_prone_ip :: "IpAddr \<Rightarrow> bool" where
  "is_ssrf_prone_ip (V4 v4) = is_ssrf_prone_v4 v4"
| "is_ssrf_prone_ip (V6 v6) =
     (case to_ipv4_mapped v6 of
        Some mapped \<Rightarrow> is_ssrf_prone_v4 mapped
      | None \<Rightarrow> (case nat64 v6 of Some v4 \<Rightarrow> is_ssrf_prone_v4 v4 | None \<Rightarrow> v6_reserved v6))"

fun ip_loopback :: "IpAddr \<Rightarrow> bool" where
  "ip_loopback (V4 v4) = v4_loopback v4"
| "ip_loopback (V6 v6) = (v6 = Segments 0 0 0 0 0 0 0 1)"

subsection \<open>The classifier is a list of address blocks\<close>

text \<open>An address or block as a number; \<open>in_block n (p, l)\<close>: \<open>n\<close> has the first \<open>l\<close> bits of \<open>p\<close>.\<close>

fun v4_number :: "Ipv4Addr \<Rightarrow> nat" where
  "v4_number (Octets a b c d) = ((unat a * 256 + unat b) * 256 + unat c) * 256 + unat d"

definition in_block :: "nat \<Rightarrow> nat \<times> nat \<Rightarrow> bool" where
  "in_block n pl \<longleftrightarrow> n div 2 ^ (32 - snd pl) = fst pl div 2 ^ (32 - snd pl)"

definition net4 :: "nat \<Rightarrow> nat \<Rightarrow> nat \<Rightarrow> nat" where
  "net4 a b c = ((a * 256 + b) * 256 + c) * 256"

definition non_global_v4 :: "(nat \<times> nat) list" where
  "non_global_v4 =
     [(net4 0 0 0, 8), (net4 10 0 0, 8), (net4 100 64 0, 10), (net4 127 0 0, 8), (net4 169 254 0, 16),
      (net4 172 16 0, 12), (net4 192 0 0, 24), (net4 192 0 2, 24), (net4 192 88 99, 24), (net4 192 168 0, 16),
      (net4 198 18 0, 15), (net4 198 51 100, 24), (net4 203 0 113, 24), (net4 224 0 0, 4), (net4 240 0 0, 4)]"

definition net6 :: "nat \<Rightarrow> nat \<Rightarrow> nat" where
  "net6 s0 s1 = s0 * 65536 + s1"

text \<open>All IPv6 blocks at stake have at most 32 bits.\<close>

fun v6_top :: "Ipv6Addr \<Rightarrow> nat" where
  "v6_top (Segments s0 s1 s2 s3 s4 s5 s6 s7) = net6 (unat s0) (unat s1)"

definition reserved_v6 :: "(nat \<times> nat) list" where
  "reserved_v6 = [(net6 0x2001 0, 23), (net6 0x2001 0x0DB8, 32), (net6 0x2002 0, 16), (net6 0x3FFF 0, 20)]"

definition public_v4 :: "Ipv4Addr \<Rightarrow> bool" where
  "public_v4 a \<longleftrightarrow> (\<forall>pl \<in> set non_global_v4. \<not> in_block (v4_number a) pl)"

definition public_ip :: "IpAddr \<Rightarrow> bool" where
  "public_ip ip =
     (case ip of
        V4 a \<Rightarrow> public_v4 a
      | V6 a \<Rightarrow>
          (case (to_ipv4_mapped a, nat64 a) of
             (Some m, _) \<Rightarrow> public_v4 m
           | (None, Some m) \<Rightarrow> public_v4 m
           | (None, None) \<Rightarrow>
               in_block (v6_top a) (net6 0x2000 0, 3) \<and> (\<forall>pl \<in> set reserved_v6. \<not> in_block (v6_top a) pl)))"

lemma word_bits: "(a :: 'a :: len word) = b \<longleftrightarrow> (\<forall>n < LENGTH('a). bit a n = bit b n)"
  by (auto intro: bit_word_eqI)

lemma no_high_bit:
  "\<not> bit (b :: 8 word) (Suc (Suc (Suc (Suc (Suc (Suc (Suc (Suc k))))))))"
  "\<not> bit (s :: 16 word) (Suc (Suc (Suc (Suc (Suc (Suc (Suc (Suc (Suc (Suc (Suc (Suc (Suc (Suc (Suc (Suc k))))))))))))))))"
  by (auto dest: bit_imp_le_length)

lemmas bit_blast = numeral_eq_Suc All_less_Suc no_high_bit

lemma octet_mask1: "(b :: 8 word) AND 0xC0 = 64 \<longleftrightarrow> drop_bit 6 b = 1"
  unfolding word_bits by (simp add: bit_simps) (simp add: bit_blast)
lemma octet_mask2: "(b :: 8 word) AND 0xFE = 18 \<longleftrightarrow> drop_bit 1 b = 9"
  unfolding word_bits by (simp add: bit_simps) (simp add: bit_blast)

lemma seg_mask: "(s :: 16 word) AND 0xE000 = 0x2000 \<longleftrightarrow> drop_bit 13 s = 1"
  unfolding word_bits by (simp add: bit_simps) (simp add: bit_blast)
lemma unat_drop: "drop_bit n (w :: 'a :: len word) = v \<longleftrightarrow> unat w div 2 ^ n = unat v"
  by (metis drop_bit_eq_div unat_drop_bit_eq word_unat_eq_iff)

lemma octet_blocks:
  fixes a b c d :: nat
  assumes "a < 256" "b < 256" "c < 256" "d < 256"
  defines "n \<equiv> ((a * 256 + b) * 256 + c) * 256 + d"
  shows "n div 2 ^ 24 = a" "n div 2 ^ 16 = a * 256 + b" "n div 2 ^ 8 = (a * 256 + b) * 256 + c"
    "n div 2 ^ 22 = a * 4 + b div 64" "n div 2 ^ 20 = a * 16 + b div 16" "n div 2 ^ 17 = a * 128 + b div 2"
    "n div 2 ^ 28 = a div 16"
proof -
  show c: "n div 2 ^ 8 = (a * 256 + b) * 256 + c"
    using assms(1-4) by (simp add: n_def)
  have step: "n div 2 ^ (k + m) = n div 2 ^ k div 2 ^ m" for k m
    by (simp add: power_add div_mult2_eq)
  show b: "n div 2 ^ 16 = a * 256 + b"
    using step [of 8 8] c assms(1-4) by simp
  show a: "n div 2 ^ 24 = a"
    using step [of 16 8] b assms(1-4) by simp
  show "n div 2 ^ 22 = a * 4 + b div 64"
    using step [of 16 6] b by simp
  show "n div 2 ^ 20 = a * 16 + b div 16"
    using step [of 16 4] b by simp
  show "n div 2 ^ 17 = a * 128 + b div 2"
    using step [of 16 1] b by simp
  show "n div 2 ^ 28 = a div 16"
    using step [of 24 4] a by simp
qed

lemma octet_lt: "unat (x :: u8) < 256"
  using unsigned_less [of x, where ?'a = nat] by simp

lemma word_le_unat: "(x :: 'a :: len word) \<le> y \<longleftrightarrow> unat x \<le> unat y" "x = y \<longleftrightarrow> unat x = unat y" "x < y \<longleftrightarrow> unat x < unat y"
  by (simp_all add: word_le_nat_alt word_unat_eq_iff word_less_nat_alt)


lemma two_digits: "y < k \<Longrightarrow> b < k \<Longrightarrow> a * k + b = x * k + y \<longleftrightarrow> a = x \<and> b = (y :: nat)"
proof
  assume "y < k" "b < k" and e: "a * k + b = x * k + y"
  then have "k \<noteq> 0" by simp
  then show "a = x \<and> b = y"
    using \<open>y < k\<close> \<open>b < k\<close> arg_cong [OF e, of "\<lambda>n. n div k"] arg_cong [OF e, of "\<lambda>n. n mod k"] by simp
qed simp

text \<open>What membership in a block says of the octets.\<close>

lemma in_block_octets:
  fixes a b c d x y z :: nat
  assumes "a < 256" "b < 256" "c < 256" "d < 256" "x < 256" "y < 256" "z < 256"
  defines "n \<equiv> ((a * 256 + b) * 256 + c) * 256 + d"
  shows "in_block n (net4 x y z, 8) \<longleftrightarrow> a = x" "in_block n (net4 x y z, 16) \<longleftrightarrow> a = x \<and> b = y"
    "in_block n (net4 x y z, 24) \<longleftrightarrow> a = x \<and> b = y \<and> c = z"
    "in_block n (net4 x y z, 10) \<longleftrightarrow> a = x \<and> b div 64 = y div 64"
    "in_block n (net4 x y z, 12) \<longleftrightarrow> a = x \<and> b div 16 = y div 16"
    "in_block n (net4 x y z, 15) \<longleftrightarrow> a = x \<and> b div 2 = y div 2"
    "in_block n (net4 x y z, 4) \<longleftrightarrow> a div 16 = x div 16"
proof -
  note l = octet_blocks [OF assms(1-4), folded n_def]
  have "net4 x y z = ((x * 256 + y) * 256 + z) * 256 + 0" by (simp add: net4_def)
  note r = octet_blocks [OF assms(5-7), of 0, folded this, simplified]
  have lt: "b div 64 < 4" "b div 16 < 16" "b div 2 < 128" "y div 64 < 4" "y div 16 < 16" "y div 2 < 128"
    using assms(1-7) by simp_all
  show "in_block n (net4 x y z, 8) \<longleftrightarrow> a = x" "in_block n (net4 x y z, 4) \<longleftrightarrow> a div 16 = x div 16"
    using l r by (simp_all add: in_block_def)
  show "in_block n (net4 x y z, 16) \<longleftrightarrow> a = x \<and> b = y"
    using l(2) r(2) two_digits [OF assms(6,2)] by (simp add: in_block_def)
  show "in_block n (net4 x y z, 24) \<longleftrightarrow> a = x \<and> b = y \<and> c = z"
    using two_digits [OF assms(6,2), of a x] two_digits [OF assms(7,3), of "a * 256 + b" "x * 256 + y"] l(3) r(3)
    by (simp add: in_block_def)
  show "in_block n (net4 x y z, 10) \<longleftrightarrow> a = x \<and> b div 64 = y div 64"
    using l(4) r(4) two_digits [OF lt(4,1)] by (simp add: in_block_def)
  show "in_block n (net4 x y z, 12) \<longleftrightarrow> a = x \<and> b div 16 = y div 16"
    using l(5) r(5) two_digits [OF lt(5,2)] by (simp add: in_block_def)
  show "in_block n (net4 x y z, 15) \<longleftrightarrow> a = x \<and> b div 2 = y div 2"
    using l(6) r(6) two_digits [OF lt(6,3)] by (simp add: in_block_def)
qed

lemma ssrf_prone_v4_blocks: "is_ssrf_prone_v4 v4 \<longleftrightarrow> \<not> public_v4 v4"
proof (cases v4)
  case (Octets a b c d)
  note octet_lt [of a] octet_lt [of b] octet_lt [of c] octet_lt [of d]
  note inb = in_block_octets [OF this, folded v4_number.simps]
  have range: "16 \<le> y \<and> y \<le> 31 \<longleftrightarrow> y div 16 = 1" "224 \<le> y \<and> y \<le> 239 \<longleftrightarrow> y div 16 = 14"
    "y < 256 \<Longrightarrow> 240 \<le> y \<longleftrightarrow> y div 16 = 15" for y :: nat
    by auto
  have "is_ssrf_prone_v4 v4 \<longleftrightarrow> (\<exists>pl \<in> set non_global_v4. in_block (v4_number v4) pl)"
    unfolding Octets non_global_v4_def is_ssrf_prone_v4.simps octet_mask1 octet_mask2 unat_drop
    by (simp add: inb word_le_unat range octet_lt del: v4_number.simps)
      (rule iffI; elim disjE conjE; simp)
  then show ?thesis by (simp add: public_v4_def)
qed

lemma seg_lt: "unat (x :: u16) < 65536"
  using unsigned_less [of x, where ?'a = nat] by simp

lemma segment_blocks:
  fixes a b :: nat
  assumes "a < 65536" "b < 65536"
  shows "(a * 65536 + b) div 2 ^ 16 = a" "(a * 65536 + b) div 2 ^ 29 = a div 8192"
    "(a * 65536 + b) div 2 ^ 9 = a * 128 + b div 512" "(a * 65536 + b) div 2 ^ 12 = a * 16 + b div 4096"
proof -
  have step: "n div 2 ^ (k + m) = n div 2 ^ k div 2 ^ m" for n k m :: nat
    by (simp add: power_add div_mult2_eq)
  show s: "(a * 65536 + b) div 2 ^ 16 = a"
    using assms by simp
  show "(a * 65536 + b) div 2 ^ 29 = a div 8192"
    using step [of "a * 65536 + b" 16 13] s by simp
  have "a * 65536 + b = (a * 128) * 512 + b" "a * 65536 + b = (a * 16) * 4096 + b" by simp_all
  then show "(a * 65536 + b) div 2 ^ 9 = a * 128 + b div 512" "(a * 65536 + b) div 2 ^ 12 = a * 16 + b div 4096"
    by (simp_all only: div_mult_self3 [of "512 :: nat"] div_mult_self3 [of "4096 :: nat"]) simp_all
qed

lemma in_block_segments:
  fixes a b x y :: nat
  assumes "a < 65536" "b < 65536" "x < 65536" "y < 65536"
  shows "in_block (net6 a b) (net6 x y, 16) \<longleftrightarrow> a = x" "in_block (net6 a b) (net6 x y, 32) \<longleftrightarrow> a = x \<and> b = y"
    "in_block (net6 a b) (net6 x y, 3) \<longleftrightarrow> a div 8192 = x div 8192"
    "in_block (net6 a b) (net6 x y, 23) \<longleftrightarrow> a = x \<and> b div 512 = y div 512"
    "in_block (net6 a b) (net6 x y, 20) \<longleftrightarrow> a = x \<and> b div 4096 = y div 4096"
proof -
  note l = segment_blocks [OF assms(1,2)] and r = segment_blocks [OF assms(3,4)]
  show "in_block (net6 a b) (net6 x y, 16) \<longleftrightarrow> a = x" "in_block (net6 a b) (net6 x y, 3) \<longleftrightarrow> a div 8192 = x div 8192"
    using l r by (simp_all add: in_block_def net6_def)
  show "in_block (net6 a b) (net6 x y, 32) \<longleftrightarrow> a = x \<and> b = y"
    using two_digits [OF assms(4,2)] by (simp add: in_block_def net6_def)
  have "b div 512 < 128" "y div 512 < 128" "b div 4096 < 16" "y div 4096 < 16" using assms by simp_all
  note d = two_digits [OF this(2,1)] two_digits [OF this(4,3)]
  show "in_block (net6 a b) (net6 x y, 23) \<longleftrightarrow> a = x \<and> b div 512 = y div 512"
    "in_block (net6 a b) (net6 x y, 20) \<longleftrightarrow> a = x \<and> b div 4096 = y div 4096"
    using l(3,4) r(3,4) d by (simp_all add: in_block_def net6_def)
qed

lemma v6_reserved_blocks:
  "v6_reserved a \<longleftrightarrow> \<not> in_block (v6_top a) (net6 0x2000 0, 3) \<or> (\<exists>pl \<in> set reserved_v6. in_block (v6_top a) pl)"
proof (cases a)
  case (Segments s0 s1 s2 s3 s4 s5 s6 s7)
  note inb = in_block_segments [OF seg_lt [of s0] seg_lt [of s1]]
  have range: "y < 512 \<longleftrightarrow> y div 512 = 0" "y \<le> 4095 \<longleftrightarrow> y div 4096 = 0" for y :: nat
    by auto
  show ?thesis
    unfolding Segments reserved_v6_def v6_reserved.simps seg_mask unat_drop
    by (simp add: inb word_le_unat range)
qed

lemma ssrf_guard: "is_ssrf_prone_ip ip \<longleftrightarrow> \<not> public_ip ip"
proof (cases ip)
  case (V4 a)
  then show ?thesis by (simp add: public_ip_def ssrf_prone_v4_blocks)
next
  case (V6 a)
  then show ?thesis
    by (cases "to_ipv4_mapped a"; cases "nat64 a")
      (simp_all add: public_ip_def ssrf_prone_v4_blocks v6_reserved_blocks)
qed

text \<open>C13. The address guard is exactly the published list of blocks: an address passes
  \<open>is_ssrf_prone_ip\<close> if and only if it lies in none of the 15 special-purpose IPv4 blocks (this
  network, the private, shared, loopback, link-local, protocol, documentation, 6to4-relay,
  benchmarking, multicast and reserved ones), or it is an IPv6 address inside \<open>2000::/3\<close> and outside
  the four reserved blocks in there; an IPv4-mapped or NAT64 address is judged by the IPv4 address
  it carries. The bit masks and octet comparisons of the code leave no gap between the blocks.
\<close>

theorem ssrf_guard_is_the_block_list: "is_ssrf_prone_ip ip \<longleftrightarrow> \<not> public_ip ip"
  by (rule ssrf_guard)

end
