(* ===== verification/Update_Sources.thy ===== *)
theory Update_Sources
  imports Update_Fetch
begin

text \<open>
  The URL rules of an update and its four sources (\<open>src/node/self_update.rs\<close>; the rules for a
  release URL are \<open>src/node/release_courier.rs\<close>). The \<open>url\<close> crate (a parsed URL is the record of
  its accessors, its operations are the fields of \<open>UrlLib\<close>), name resolution, the HTTP exchange
  and the UTF-8 check are parameters, as is the address parser of the standard library.
\<close>

subsection \<open>URLs\<close>

datatype Host = Domain string | Ipv4 Ipv4Addr | Ipv6 Ipv6Addr

text \<open>\<open>u_segments\<close> is None for a URL that cannot be a base; \<open>u_port\<close> is the port or the scheme's default.\<close>

record Url =
  u_scheme :: string
  u_username :: string
  u_password :: "string option"
  u_host :: "Host option"
  u_host_str :: "string option"
  u_port :: "u16 option"
  u_path :: string
  u_segments :: "string list option"
  u_query :: "string option"
  u_fragment :: "string option"

record UrlLib =
  url_parse :: "string \<Rightarrow> Url option"
  url_join :: "Url \<Rightarrow> string \<Rightarrow> Url option"
  url_set_path :: "Url \<Rightarrow> string \<Rightarrow> Url"
  parse_ip :: "string \<Rightarrow> IpAddr option"

definition trim_brackets :: "string \<Rightarrow> string" where
  "trim_brackets h = rev (dropWhile (\<lambda>c. c = CHR '']'') (rev (dropWhile (\<lambda>c. c = CHR ''['') h)))"

definition is_loopback_host :: "UrlLib \<Rightarrow> Url \<Rightarrow> bool" where
  "is_loopback_host lib u =
     (case u_host_str u of
        None \<Rightarrow> False
      | Some h \<Rightarrow>
          eq_ignore_ascii_case (trim_brackets h) ''localhost'' \<or>
          (case parse_ip lib (trim_brackets h) of None \<Rightarrow> False | Some ip \<Rightarrow> ip_loopback ip))"

definition is_allowed_fetch_url :: "UrlLib \<Rightarrow> Url \<Rightarrow> bool" where
  "is_allowed_fetch_url lib u =
     (if u_scheme u = ''https'' then True else if u_scheme u = ''http'' then is_loopback_host lib u else False)"

definition parse_fetch_url :: "UrlLib \<Rightarrow> string \<Rightarrow> HiggsError + Url" where
  "parse_fetch_url lib raw =
     (case url_parse lib raw of
        None \<Rightarrow> Inl (fetch_err ''invalid update URL'')
      | Some u \<Rightarrow>
          if u_username u \<noteq> [] \<or> u_password u \<noteq> None
          then Inl (fetch_err ''update URL must not embed credentials'')
          else if u_query u \<noteq> None \<or> u_fragment u \<noteq> None
          then Inl (fetch_err ''update URL must not have a query or fragment'')
          else if is_allowed_fetch_url lib u then Inr u
          else if u_scheme u = ''http''
          then Inl (fetch_err ''refusing a plaintext http:// update URL to a non-loopback host'')
          else Inl (fetch_err ''unsupported scheme''))"

definition bare_sibling :: "string \<Rightarrow> bool" where
  "bare_sibling name \<longleftrightarrow>
     \<not> (name = [] \<or> CHR ''/'' \<in> set name \<or> char_of (92 :: nat) \<in> set name \<or>
        str_contains ''..'' name \<or> prefix ''.'' name)"

definition artifact_url_from :: "UrlLib \<Rightarrow> Url \<Rightarrow> string \<Rightarrow> HiggsError + Url" where
  "artifact_url_from lib manifest_url name =
     (if \<not> bare_sibling name then Inl (fetch_err ''not a bare sibling filename'')
      else case url_join lib manifest_url name of
        None \<Rightarrow> Inl (fetch_err ''cannot derive artifact URL'')
      | Some u \<Rightarrow> Inr u)"

subsection \<open>The rules for a pushed URL\<close>

text \<open>\<open>resolved\<close>: what the resolver says of a name and a port.\<close>

type_synonym SocketAddr = "IpAddr \<times> u16"
type_synonym resolver = "string \<Rightarrow> u16 \<Rightarrow> SocketAddr list option"

definition vet_and_resolve_pushed_url :: "resolver \<Rightarrow> Url \<Rightarrow> HiggsError + SocketAddr list" where
  "vet_and_resolve_pushed_url resolved u =
     (if u_scheme u \<noteq> ''https'' then Inl (fetch_err ''a hub-pushed artifact URL must be https'')
      else
        let port = unwrap_or 443 (u_port u);
            addrs = (case u_host u of
                       Some (Ipv4 ip) \<Rightarrow> Inr [(V4 ip, port)]
                     | Some (Ipv6 ip) \<Rightarrow> Inr [(V6 ip, port)]
                     | Some (Domain d) \<Rightarrow>
                         (case resolved d port of
                            None \<Rightarrow> Inl (fetch_err ''cannot resolve the pushed update host'')
                          | Some l \<Rightarrow> Inr l)
                     | None \<Rightarrow> Inl (fetch_err ''a hub-pushed artifact URL has no host''))
        in case addrs of
             Inl e \<Rightarrow> Inl e
           | Inr addrs \<Rightarrow>
               if addrs = [] then Inl (fetch_err ''the pushed update host did not resolve to any address'')
               else if list_ex (\<lambda>a. is_ssrf_prone_ip (fst a)) addrs
               then Inl (fetch_err ''resolves to a private/loopback/link-local address'')
               else Inr addrs)"

subsection \<open>The rules for a release URL\<close>

definition is_literal_loopback_url :: "Url \<Rightarrow> bool" where
  "is_literal_loopback_url u =
     (case u_host u of
        Some (Ipv4 ip) \<Rightarrow> ip_loopback (V4 ip)
      | Some (Ipv6 ip) \<Rightarrow> ip_loopback (V6 ip)
      | _ \<Rightarrow> False)"

definition parse_courier_url :: "UrlLib \<Rightarrow> string \<Rightarrow> HiggsError + Url" where
  "parse_courier_url lib raw =
     (case url_parse lib raw of
        None \<Rightarrow> Inl (fetch_err ''invalid release URL'')
      | Some u \<Rightarrow>
          if u_username u \<noteq> [] \<or> u_password u \<noteq> None
          then Inl (fetch_err ''the release URL must not embed credentials'')
          else if u_query u \<noteq> None \<or> u_fragment u \<noteq> None
          then Inl (fetch_err ''the release URL must not have a query or fragment'')
          else if u_scheme u = ''https'' then Inr u
          else if u_scheme u = ''http'' \<and> is_literal_loopback_url u then Inr u
          else if u_scheme u = ''http''
          then Inl (fetch_err ''refusing a plaintext http:// release URL to a non-loopback-IP host'')
          else Inl (fetch_err ''the release URL has an unsupported scheme''))"

definition asset_suffix :: "string \<Rightarrow> string \<Rightarrow> string" where
  "asset_suffix target variant =
     (if variant = ''metal'' \<or> variant = ''cpu'' then target else target @ ''-'' @ variant)"

text \<open>\<open>trim_end_matches('/')\<close>.\<close>

definition trim_slashes :: "string \<Rightarrow> string" where
  "trim_slashes p = rev (dropWhile (\<lambda>c. c = CHR ''/'') (rev p))"

definition release_asset_urls ::
  "UrlLib \<Rightarrow> Semver \<Rightarrow> BuildIdentity \<Rightarrow> string \<Rightarrow> string \<Rightarrow> HiggsError + (Url \<times> Url \<times> Url)" where
  "release_asset_urls lib sv ident base version =
     (if \<not> sv_parses sv version
      then Inl (UpdateFetchFailed ''the requested update version is not a plain semver string'')
      else case parse_courier_url lib base of
        Inl e \<Rightarrow> Inl e
      | Inr base_url \<Rightarrow>
          let name = ''higgs-v'' @ version @ ''-'' @ asset_suffix (bi_target ident) (bi_variant ident);
              dir = url_set_path lib base_url (trim_slashes (u_path base_url) @ ''/download/v'' @ version @ ''/'');
              child = (\<lambda>leaf. case url_join lib dir leaf of
                                None \<Rightarrow> Inl (UpdateFetchFailed ''cannot derive a release asset URL'')
                              | Some u \<Rightarrow> Inr u)
          in case child (name @ ''.manifest'') of
               Inl e \<Rightarrow> Inl e
             | Inr m \<Rightarrow>
             (case child (name @ ''.manifest.minisig'') of
               Inl e \<Rightarrow> Inl e
             | Inr s \<Rightarrow>
             (case child (name @ ''.tar.gz'') of Inl e \<Rightarrow> Inl e | Inr a \<Rightarrow> Inr (m, s, a))))"

definition release_redirect_ok :: "Url \<Rightarrow> bool" where
  "release_redirect_ok u \<longleftrightarrow> u_scheme u = ''https'' \<and> u_username u = [] \<and> u_password u = None"

definition RELEASE_REDIRECT_HOPS :: nat where "RELEASE_REDIRECT_HOPS = 4"

text \<open>The custom redirect policy: \<open>previous\<close> are the URLs requested so far, the first included.\<close>

definition follow_redirect :: "Url list \<Rightarrow> Url \<Rightarrow> bool" where
  "follow_redirect previous u \<longleftrightarrow> length previous \<le> RELEASE_REDIRECT_HOPS \<and> release_redirect_ok u"

text \<open>
  A chain of answers under the policy: \<open>hops\<close> are the redirect targets the servers name, in
  order. The URLs that are requested, and whether the last of them is the final one.
\<close>

fun follow_chain :: "Url list \<Rightarrow> Url list \<Rightarrow> Url list \<times> bool" where
  "follow_chain previous [] = (previous, True)"
| "follow_chain previous (u # hops) =
     (if follow_redirect previous u then follow_chain (previous @ [u]) hops else (previous, False))"

subsection \<open>The sources\<close>

text \<open>
  \<open>net\<close> answers a request for a URL; a pushed fetch says which addresses it may connect to.
  \<open>utf8\<close> is the check of \<open>String::from_utf8\<close>.
\<close>

record Net =
  net_get :: "Url \<Rightarrow> http_answer option"
  net_get_pinned :: "Url \<Rightarrow> SocketAddr list \<Rightarrow> http_answer option"
  net_utf8 :: "string \<Rightarrow> bool"

definition local_source ::
  "string option \<Rightarrow> string option \<Rightarrow> fetch_turn list option \<Rightarrow> UpdateSource" where
  "local_source manifest sig tarball =
     \<lparr>src_manifest =
        (case manifest of
           None \<Rightarrow> Inl (UpdateApplyFailed ''cannot read manifest'')
         | Some m \<Rightarrow>
         (case sig of
            None \<Rightarrow> Inl (UpdateApplyFailed ''cannot read manifest signature'')
          | Some s \<Rightarrow> Inr (m, s))),
      artifact_to = (\<lambda>_ sp.
        case tarball of
          None \<Rightarrow> (Inl (UpdateApplyFailed ''cannot read tarball''), sp)
        | Some ts \<Rightarrow> copy_into_spool ts sp)\<rparr>"

definition fetch_sig :: "Net \<Rightarrow> Url \<Rightarrow> HiggsError \<Rightarrow> HiggsError + string" where
  "fetch_sig net u bad =
     rbind (fetch_bounded (net_get net u) MAX_SIG_BYTES) (\<lambda>s. if net_utf8 net s then Inr s else Inl bad)"

definition http_source :: "UrlLib \<Rightarrow> Net \<Rightarrow> string \<Rightarrow> HiggsError + UpdateSource" where
  "http_source lib net raw =
     rbind (parse_fetch_url lib raw) (\<lambda>manifest_url. Inr
       \<lparr>src_manifest =
          rbind (fetch_bounded (net_get net manifest_url) MAX_MANIFEST_BYTES) (\<lambda>m.
          rbind (fetch_sig net (url_set_path lib manifest_url (u_path manifest_url @ ''.minisig''))
                  (fetch_err ''signature is not UTF-8'')) (\<lambda>s.
            Inr (m, s))),
        artifact_to = (\<lambda>name sp.
          case artifact_url_from lib manifest_url name of
            Inl e \<Rightarrow> (Inl e, sp)
          | Inr u \<Rightarrow> fetch_bounded_to (net_get net u) sp)\<rparr>)"

definition last_segment :: "Url \<Rightarrow> string" where
  "last_segment u =
     unwrap_or [] (Option.bind (u_segments u) (\<lambda>segs. if segs = [] then None else Some (last segs)))"

definition push_source ::
  "UrlLib \<Rightarrow> Net \<Rightarrow> resolver \<Rightarrow> string \<Rightarrow> string \<Rightarrow> string \<Rightarrow> HiggsError + UpdateSource" where
  "push_source lib net resolved manifest sig artifact_url =
     rbind (check_pushed_sizes manifest sig) (\<lambda>_.
     rbind (parse_fetch_url lib artifact_url) (\<lambda>u.
     rbind (vet_and_resolve_pushed_url resolved u) (\<lambda>addrs. Inr
       \<lparr>src_manifest = Inr (manifest, sig),
        artifact_to = (\<lambda>name sp.
          if last_segment u \<noteq> name then (Inl (fetch_err ''does not name the manifest's file''), sp)
          else fetch_bounded_to (net_get_pinned net u addrs) sp)\<rparr>)))"

definition version_source ::
  "UrlLib \<Rightarrow> Semver \<Rightarrow> Net \<Rightarrow> BuildIdentity \<Rightarrow> string \<Rightarrow> string \<Rightarrow> HiggsError + UpdateSource" where
  "version_source lib sv net ident release_base version =
     rbind (release_asset_urls lib sv ident release_base version) (\<lambda>(manifest_url, sig_url, artifact_url). Inr
       \<lparr>src_manifest =
          rbind (fetch_bounded (net_get net manifest_url) MAX_MANIFEST_BYTES) (\<lambda>m.
          rbind (fetch_sig net sig_url (UpdateManifestInvalid ''the fetched signature is not UTF-8'')) (\<lambda>s.
            Inr (m, s))),
        artifact_to = (\<lambda>_ sp. fetch_bounded_to (net_get net artifact_url) sp)\<rparr>)"

end
