(* ===== verification/Update_Sources_Props.thy ===== *)
theory Update_Sources_Props
  imports Update_Sources
begin

text \<open>
  What a source of updates may do and what a verified update is. Every source writes the artifact
  it streams faithfully into the spool; that contract is the locale \<open>update_source\<close>, of which the
  four sources of the code are the interpretation.
\<close>

subsection \<open>The contract of a source\<close>

locale update_source =
  fixes opened :: "UpdateSource \<Rightarrow> bool"
  assumes faithful:
    "opened src \<Longrightarrow> artifact_to src name (spool_create MAX_ARTIFACT_BYTES) = (Inr (), sp) \<Longrightarrow>
       sp_hashed sp = sp_content sp \<and> length (sp_content sp) \<le> 4 * 1024 ^ 3"

lemma verification_sel [simp]:
  "vf_authenticated (verification a q r) = a" "vf_asked (verification a q r) = q"
  "vf_result (verification a q r) = r"
  by (simp_all add: verification_def)

text \<open>What has to hold of a manifest before its artifact is asked for.\<close>

definition vetted ::
  "('k, 'g) Crypto \<Rightarrow> Semver \<Rightarrow> UpdateSource \<Rightarrow> BuildIdentity \<Rightarrow> bool \<Rightarrow> string option \<Rightarrow>
   (string \<times> string) list \<Rightarrow> string \<Rightarrow> UpdateManifest \<Rightarrow> bool" where
  "vetted lib sv src running allow expected pubkeys key_id m \<longleftrightarrow>
     (\<exists>bytes sig pk.
        src_manifest src = Inr (bytes, sig) \<and> (key_id, pk) \<in> set pubkeys \<and> accepts lib bytes sig pk \<and>
        parse_verified_manifest lib bytes = Inr m) \<and>
     (expected = None \<or> expected = Some (um_version m)) \<and>
     evaluate_eligibility sv running m allow = Inr ()"

lemma verified_manifest:
  assumes "verify_manifest_any_with lib bytes sig pubkeys = Inr (key_id, m)"
  shows "\<exists>pk. (key_id, pk) \<in> set pubkeys \<and> accepts lib bytes sig pk \<and> parse_verified_manifest lib bytes = Inr m"
proof -
  let ?good = "filter (\<lambda>(key_id, pk). accepts lib bytes sig pk) pubkeys"
  from assms obtain k pk rest where f: "?good = (k, pk) # rest"
    and p: "parse_verified_manifest lib bytes = Inr m" "k = key_id"
    by (auto simp: verify_manifest_any_with_def try_keys_first split: if_splits list.splits sum.splits)
  have "(k, pk) \<in> set ?good" by (simp add: f)
  with p show ?thesis by auto
qed

text \<open>The two ways in which the pipeline gets as far as the artifact, or does not.\<close>

lemma verify_and_check_cases:
  fixes lib :: "('k, 'g) Crypto" and sv src running created synced allow expected pubkeys
  defines "V \<equiv> verify_and_check_with lib sv src running created synced allow expected pubkeys"
  obtains "vf_asked V = None" "\<exists>e. vf_result V = Inl e"
  | key_id m r sp where "vetted lib sv src running allow expected pubkeys key_id m"
      "vf_asked V = Some (um_file m)"
      "artifact_to src (um_file m) (spool_create MAX_ARTIFACT_BYTES) = (r, sp)"
      "\<And>u. vf_result V = Inr u \<Longrightarrow>
         r = Inr () \<and> u = \<lparr>vu_key_id = key_id, vu_manifest = m, vu_artifact = sp\<rparr> \<and>
         eq_ignore_ascii_case (sha256_hex lib (sp_hashed sp)) (um_sha256 m)"
proof (cases "src_manifest src")
  case (Inl e)
  with that(1) show thesis by (simp add: V_def verify_and_check_with_def)
next
  case (Inr b)
  then obtain bytes sig where src: "src_manifest src = Inr (bytes, sig)" by (cases b) simp
  show thesis
  proof (cases "verify_manifest_any_with lib bytes sig pubkeys")
    case (Inl e)
    with src that(1) show thesis by (simp add: V_def verify_and_check_with_def)
  next
    case (Inr km)
    then obtain key_id m where km: "verify_manifest_any_with lib bytes sig pubkeys = Inr (key_id, m)"
      by (cases km) simp
    let ?bad = "case expected of None \<Rightarrow> False | Some v \<Rightarrow> um_version m \<noteq> v"
    show thesis
    proof (cases "\<not> ?bad \<and> evaluate_eligibility sv running m allow = Inr () \<and> created")
      case False
      then show thesis
        by (intro that(1); cases "evaluate_eligibility sv running m allow")
          (auto simp: V_def verify_and_check_with_def src km Let_def)
    next
      case True
      then have vet: "vetted lib sv src running allow expected pubkeys key_id m"
        using src verified_manifest [OF km] by (auto simp: vetted_def split: option.splits)
      obtain r sp where a: "artifact_to src (um_file m) (spool_create MAX_ARTIFACT_BYTES) = (r, sp)"
        by fastforce
      have V: "V = (case (r, sp) of
          (Inl e, sp) \<Rightarrow> verification (Some (um_version m)) (Some (um_file m)) (Inl e)
        | (Inr _, sp) \<Rightarrow>
          (case spool_finish lib synced sp of
             Inl e \<Rightarrow> verification (Some (um_version m)) (Some (um_file m)) (Inl e)
           | Inr digest \<Rightarrow>
             (case verify_artifact_sha256_hex m digest of
                Inl e \<Rightarrow> verification (Some (um_version m)) (Some (um_file m)) (Inl e)
              | Inr _ \<Rightarrow> verification (Some (um_version m)) (Some (um_file m))
                  (Inr \<lparr>vu_key_id = key_id, vu_manifest = m, vu_artifact = sp\<rparr>))))"
        using True by (simp add: V_def verify_and_check_with_def src km Let_def a)
      show thesis
        by (rule that(2) [OF vet _ a])
          (auto simp: V spool_finish_def verify_artifact_sha256_hex_def split: sum.splits if_splits)
    qed
  qed
qed

context update_source
begin

lemma genuine:
  assumes "opened src"
    "vf_result (verify_and_check_with lib sv src running created synced allow expected pubkeys) = Inr u"
  shows "vetted lib sv src running allow expected pubkeys (vu_key_id u) (vu_manifest u) \<and>
     eq_ignore_ascii_case (sha256_hex lib (sp_content (vu_artifact u))) (um_sha256 (vu_manifest u)) \<and>
     length (sp_content (vu_artifact u)) \<le> 4 * 1024 ^ 3"
proof (cases rule: verify_and_check_cases
    [of lib sv src running created synced allow expected pubkeys, case_names refused asked])
  case refused
  with assms(2) show ?thesis by simp
next
  case (asked key_id m r sp)
  note u = asked(4) [OF assms(2)]
  then have "sp_hashed sp = sp_content sp" "length (sp_content sp) \<le> 4 * 1024 ^ 3"
    using faithful [OF assms(1), of "um_file m" sp] asked(3) by simp_all
  with u asked(1) show ?thesis by simp
qed

end

subsection \<open>The four sources\<close>

text \<open>Every body the network or the disk hands over comes in chunks of at most 64 KiB.\<close>

definition buffered_net :: "Net \<Rightarrow> bool" where
  "buffered_net net \<longleftrightarrow>
     (\<forall>u r. net_get net u = Some r \<longrightarrow> buffered (ha_body r)) \<and>
     (\<forall>u addrs r. net_get_pinned net u addrs = Some r \<longrightarrow> buffered (ha_body r))"

definition source_of :: "UrlLib \<Rightarrow> Semver \<Rightarrow> Net \<Rightarrow> resolver \<Rightarrow> BuildIdentity \<Rightarrow> UpdateSource \<Rightarrow> bool" where
  "source_of lib sv net resolved ident src \<longleftrightarrow> buffered_net net \<and>
     ((\<exists>m s ts. src = local_source m s ts \<and> (\<forall>b. ts = Some b \<longrightarrow> buffered b)) \<or>
      (\<exists>raw. http_source lib net raw = Inr src) \<or>
      (\<exists>m s raw. push_source lib net resolved m s raw = Inr src) \<or>
      (\<exists>base v. version_source lib sv net ident base v = Inr src))"

lemma fresh_spool: "spool_ok (spool_create MAX_ARTIFACT_BYTES)" "unat MAX_ARTIFACT_BYTES = 4 * 1024 ^ 3"
  by (simp_all add: spool_ok_def spool_create_def MAX_ARTIFACT_BYTES_def)

lemma cap_kept: "sp_cap (spool_create c) = c"
  by (simp add: spool_create_def)

lemma bounded_faithful:
  assumes "length (sp_content sp) \<le> unat (sp_cap (spool_create MAX_ARTIFACT_BYTES)) \<and>
     (Inr () = Inr () \<longrightarrow> spool_ok sp \<and> rest)"
  shows "sp_hashed sp = sp_content sp \<and> length (sp_content sp) \<le> 4 * 1024 ^ 3"
proof
  show "sp_hashed sp = sp_content sp" using assms spool_okD(1) [of sp] by simp
  show "length (sp_content sp) \<le> 4 * 1024 ^ 3" using assms by (simp add: cap_kept fresh_spool(2))
qed

lemma streamed_faithful:
  assumes "\<And>r. answer = Some r \<Longrightarrow> buffered (ha_body r)"
    "fetch_bounded_to answer (spool_create MAX_ARTIFACT_BYTES) = (Inr (), sp)"
  shows "sp_hashed sp = sp_content sp \<and> length (sp_content sp) \<le> 4 * 1024 ^ 3"
proof -
  from assms(2) obtain r where r: "answer = Some r"
    and f: "fetch_loop_to (ha_start r) (ha_start r) 0 (ha_body r) (spool_create MAX_ARTIFACT_BYTES) = (Inr (), sp)"
    by (auto simp: fetch_bounded_to_def split: option.splits if_splits)
  show ?thesis
    by (rule bounded_faithful [OF fetch_loop_to_bytes [OF fresh_spool(1) assms(1) [OF r] f]])
qed

lemma copied_faithful:
  assumes "buffered ts" "copy_into_spool ts (spool_create MAX_ARTIFACT_BYTES) = (Inr (), sp)"
  shows "sp_hashed sp = sp_content sp \<and> length (sp_content sp) \<le> 4 * 1024 ^ 3"
  by (rule bounded_faithful [OF copy_into_spool_bytes [OF fresh_spool(1) assms]])

lemma artifact_of_source:
  "artifact_to (local_source mf sg ts) name sp =
     (case ts of None \<Rightarrow> (Inl (UpdateApplyFailed ''cannot read tarball''), sp) | Some ts \<Rightarrow> copy_into_spool ts sp)"
  "http_source lib net raw = Inr src \<Longrightarrow> artifact_to src name sp = (r, sp') \<Longrightarrow>
     (\<exists>e. r = Inl e) \<or> (\<exists>u. fetch_bounded_to (net_get net u) sp = (r, sp'))"
  "push_source lib net resolved m s raw = Inr src \<Longrightarrow> artifact_to src name sp = (r, sp') \<Longrightarrow>
     (\<exists>e. r = Inl e) \<or> (\<exists>u addrs. fetch_bounded_to (net_get_pinned net u addrs) sp = (r, sp'))"
  "version_source lib sv net ident base v = Inr src \<Longrightarrow> artifact_to src name sp = (r, sp') \<Longrightarrow>
     \<exists>u. fetch_bounded_to (net_get net u) sp = (r, sp')"
  by (auto simp: local_source_def http_source_def push_source_def version_source_def
      split: sum.splits if_splits prod.splits)

interpretation sources: update_source "source_of lib sv net resolved ident"
proof
  fix src name sp
  assume "source_of lib sv net resolved ident src"
    and a: "artifact_to src name (spool_create MAX_ARTIFACT_BYTES) = (Inr (), sp)"
  then consider "buffered_net net" "\<exists>m s ts. src = local_source m s ts \<and> (\<forall>b. ts = Some b \<longrightarrow> buffered b)"
    | "buffered_net net" "\<exists>raw. http_source lib net raw = Inr src"
    | "buffered_net net" "\<exists>m s raw. push_source lib net resolved m s raw = Inr src"
    | "buffered_net net" "\<exists>base v. version_source lib sv net ident base v = Inr src"
    unfolding source_of_def by blast
  then show "sp_hashed sp = sp_content sp \<and> length (sp_content sp) \<le> 4 * 1024 ^ 3"
  proof cases
    case 1
    with a obtain ts where "buffered ts" "copy_into_spool ts (spool_create MAX_ARTIFACT_BYTES) = (Inr (), sp)"
      by (auto simp: artifact_of_source(1) split: option.splits)
    then show ?thesis by (rule copied_faithful)
  next
    case 2
    with a artifact_of_source(2) show ?thesis
      unfolding buffered_net_def by (metis Inl_Inr_False streamed_faithful)
  next
    case 3
    with a artifact_of_source(3) show ?thesis
      unfolding buffered_net_def by (metis Inl_Inr_False streamed_faithful)
  next
    case 4
    with a artifact_of_source(4) show ?thesis
      unfolding buffered_net_def by (metis streamed_faithful)
  qed
qed

text \<open>A verified update is genuine: whichever of the four sources it comes from (local files, a
  manifest URL, a hub's push, a named release), when the pipeline hands out an update then a pinned
  key signed the very manifest bytes it was read from, the manifest is of the requested version if one was
  requested and is eligible for the installed build, and the bytes in the spool, at most 4 GiB of
  them, have the manifest's SHA-256.
\<close>

theorem verified_update_is_genuine:
  assumes "source_of lib sv net resolved ident src"
    "vf_result (verify_and_check_with c sv src running created synced allow expected pubkeys) = Inr u"
  shows "vetted c sv src running allow expected pubkeys (vu_key_id u) (vu_manifest u) \<and>
     eq_ignore_ascii_case (sha256_hex c (sp_content (vu_artifact u))) (um_sha256 (vu_manifest u)) \<and>
     length (sp_content (vu_artifact u)) \<le> 4 * 1024 ^ 3"
  using assms by (rule sources.genuine)

text \<open>A witness: a key that verifies every signature and a hash that is the identity.\<close>

definition toy_crypto :: "(unit, unit) Crypto" where
  "toy_crypto =
     \<lparr>key_from_base64 = \<lambda>_. Some (), sig_decode = \<lambda>_. Some (), sig_verify = \<lambda>_ _ _. True,
      parse_json = \<lambda>_. Some (JObj
        [(''schema'', JInt 1), (''version'', JStr ''2''), (''commit'', JStr ''c''), (''file'', JStr ''f''),
         (''target'', JStr ''t''), (''variant'', JStr ''cpu''), (''sha256'', JStr ''ab'')]),
      sha256_hex = \<lambda>s. s\<rparr>"

definition toy_semver :: Semver where
  "toy_semver = \<lparr>sv_parses = \<lambda>_. True, cmp_precedence = \<lambda>_ _. Greater\<rparr>"

definition toy_source :: UpdateSource where
  "toy_source = local_source (Some ''m'') (Some ''s'') (Some [\<lparr>at_ns = 1, got = Bytes ''ab'', stored = Wrote\<rparr>])"

theorem verified_update_is_genuine_witness:
  "length (sp_content (case vf_result (verify_and_check_with toy_crypto toy_semver toy_source
       \<lparr>bi_version = ''1'', bi_target = ''t'', bi_variant = ''cpu''\<rparr> True True False (Some ''2'') [(''k'', ''p'')]) of
     Inr u \<Rightarrow> vu_artifact u)) \<le> 4 * 1024 ^ 3"
proof -
  let ?v = "verify_and_check_with toy_crypto toy_semver toy_source
       \<lparr>bi_version = ''1'', bi_target = ''t'', bi_variant = ''cpu''\<rparr> True True False (Some ''2'') [(''k'', ''p'')]"
  let ?net = "\<lparr>net_get = \<lambda>_. None, net_get_pinned = \<lambda>_ _. None, net_utf8 = \<lambda>_. True\<rparr>"
  have src: "source_of lib toy_semver ?net resolved ident toy_source" for lib resolved ident
    unfolding source_of_def toy_source_def
    by (intro conjI disjI1 exI [of _ "Some ''m''"] exI [of _ "Some ''s''"]
        exI [of _ "Some [\<lparr>at_ns = 1, got = Bytes ''ab'', stored = Wrote\<rparr>]"])
      (simp_all add: buffered_net_def buffered_def)
  have "\<exists>u. vf_result ?v = Inr u"
    by (simp add: verify_and_check_with_def toy_source_def local_source_def verify_manifest_any_with_def
        verify_with_key_def toy_crypto_def parse_verified_manifest_def manifest_from_json_def get_u32_def
        u64_max_def UPDATE_MANIFEST_SCHEMA_def evaluate_eligibility_def
        toy_semver_def spool_create_def MAX_ARTIFACT_BYTES_def write_chunk_def spool_finish_def
        verify_artifact_sha256_hex_def eq_ignore_ascii_case_def to_ascii_lowercase_def ascii_lower_char_def)
  then obtain u where u: "vf_result ?v = Inr u" ..
  from verified_update_is_genuine [OF src u] show ?thesis by (simp add: u)
qed

text \<open>Nothing is downloaded on trust: the pipeline asks a source for an artifact only if a pinned
  key signed the manifest, the manifest is of the requested version and eligible, and then only
  for the file that manifest names; a build without pinned keys never asks.
\<close>

theorem artifact_asked_only_when_vetted:
  "case vf_asked (verify_and_check_with c sv src running created synced allow expected pubkeys) of
     None \<Rightarrow> True
   | Some name \<Rightarrow> pubkeys \<noteq> [] \<and>
       (\<exists>key_id m. um_file m = name \<and> vetted c sv src running allow expected pubkeys key_id m)"
proof (cases rule: verify_and_check_cases
    [of c sv src running created synced allow expected pubkeys, case_names refused asked])
  case (asked key_id m r sp)
  then have "pubkeys \<noteq> []" by (auto simp: vetted_def)
  with asked(1,2) show ?thesis by auto
qed simp

subsection \<open>Where a pushed update is fetched from\<close>

text \<open>C17. A hub cannot aim a node's download at the node or its network: a pushed source exists only
  for an \<open>https\<close> URL without credentials, query or fragment, its artifact request is pinned to
  addresses that all are public ones, taken from the literal host or from the one resolution of
  its name, and the request is only sent for the file name the URL ends in; any other name is
  refused without a request.
\<close>

theorem pushed_fetch_is_public:
  "case push_source lib net resolved m s raw of
     Inl _ \<Rightarrow> True
   | Inr src \<Rightarrow> src_manifest src = Inr (m, s) \<and>
       (\<exists>u addrs. url_parse lib raw = Some u \<and> u_scheme u = ''https'' \<and> u_username u = [] \<and>
          u_password u = None \<and> u_query u = None \<and> u_fragment u = None \<and>
          addrs \<noteq> [] \<and> list_all (\<lambda>(ip, port). public_ip ip) addrs \<and>
          (case u_host u of
             None \<Rightarrow> False
           | Some (Domain d) \<Rightarrow> resolved d (unwrap_or 443 (u_port u)) = Some addrs
           | Some (Ipv4 ip) \<Rightarrow> addrs = [(V4 ip, unwrap_or 443 (u_port u))]
           | Some (Ipv6 ip) \<Rightarrow> addrs = [(V6 ip, unwrap_or 443 (u_port u))]) \<and>
          (\<forall>name sp. artifact_to src name sp =
             (if last_segment u = name then fetch_bounded_to (net_get_pinned net u addrs) sp
              else (Inl (fetch_err ''does not name the manifest's file''), sp))))"
proof (cases "push_source lib net resolved m s raw")
  case (Inr src)
  then obtain u addrs where u: "parse_fetch_url lib raw = Inr u"
    and v: "vet_and_resolve_pushed_url resolved u = Inr addrs"
    and src: "src = \<lparr>src_manifest = Inr (m, s), artifact_to = (\<lambda>name sp.
       if last_segment u \<noteq> name then (Inl (fetch_err ''does not name the manifest's file''), sp)
       else fetch_bounded_to (net_get_pinned net u addrs) sp)\<rparr>"
    by (auto simp: push_source_def)
  from u have parsed: "url_parse lib raw = Some u" "u_username u = []" "u_password u = None"
      "u_query u = None" "u_fragment u = None"
    by (auto simp: parse_fetch_url_def split: option.splits if_splits)
  from v have "u_scheme u = ''https''" "addrs \<noteq> []" and prone: "\<not> list_ex (\<lambda>a. is_ssrf_prone_ip (fst a)) addrs"
    and host: "case u_host u of
             None \<Rightarrow> False
           | Some (Domain d) \<Rightarrow> resolved d (unwrap_or 443 (u_port u)) = Some addrs
           | Some (Ipv4 ip) \<Rightarrow> addrs = [(V4 ip, unwrap_or 443 (u_port u))]
           | Some (Ipv6 ip) \<Rightarrow> addrs = [(V6 ip, unwrap_or 443 (u_port u))]"
    by (auto simp: vet_and_resolve_pushed_url_def Let_def split: if_splits sum.splits option.splits Host.splits)
  moreover from prone have "list_all (\<lambda>(ip, port). public_ip ip) addrs"
    by (auto simp: list_ex_iff list_all_iff ssrf_guard)
  ultimately show ?thesis
    using parsed by (simp add: Inr src) blast
qed simp

text \<open>A release fetch cannot be led away: of a chain of redirects the node follows exactly the
  leading ones that are \<open>https\<close> without credentials and of these at most four, so it requests at
  most five URLs, and it arrives only if the whole chain passes.
\<close>

theorem redirects_bounded:
  "follow_chain [first] hops =
     (first # take 4 (takeWhile release_redirect_ok hops), length hops \<le> 4 \<and> list_all release_redirect_ok hops)"
proof -
  have "follow_chain previous hops =
      (previous @ take (5 - length previous) (takeWhile release_redirect_ok hops),
       length previous + length hops \<le> 5 \<and> list_all release_redirect_ok hops)"
    if "previous \<noteq> []" "length previous \<le> 5" for previous
    using that
  proof (induction hops arbitrary: previous)
    case (Cons u hops)
    show ?case
    proof (cases "follow_redirect previous u")
      case True
      then have "length previous \<le> 4" "release_redirect_ok u"
        by (simp_all add: follow_redirect_def RELEASE_REDIRECT_HOPS_def)
      moreover then have "5 - length previous = Suc (4 - length previous)" by simp
      ultimately show ?thesis using Cons.IH [of "previous @ [u]"] True by simp
    next
      case False
      then show ?thesis using Cons.prems
        by (auto simp: follow_redirect_def RELEASE_REDIRECT_HOPS_def)
    qed
  qed simp
  from this [of "[first]"] show ?thesis by auto
qed

end
