(* ===== verification/Update_Install.thy ===== *)
theory Update_Install
  imports Update_Trust Handshake "HOL-Library.List_Lexorder"
begin

text \<open>
  The install half of \<open>src/node/self_update.rs\<close>: the versions on disk, the \<open>current\<close> link, the
  trial of a new version with its boot counter, the rollback, the poison list and the failure
  report. The state is what the directory \<open>bin\<close> holds; every system call that changes it or may
  fail is a step that takes the next entry of a schedule of faults: it succeeds, it fails, or the
  process dies there. Temporary files are not part of the state. The archive reader, the smoke
  run, the ownership walk of \<open>bin\<close> and the text of an error are fields of \<open>Surroundings\<close>.
\<close>

subsection \<open>The state of an install\<close>

datatype Staged = Regular string bool  \<comment> \<open>a file: its content and whether this user may execute it\<close>
  | Folder | Symlink

type_synonym files = "(string \<times> Staged) list"

datatype BinEntry = Directory files
  | LinkEntry "files option"  \<comment> \<open>a link, with the files of the directory it leads to\<close>
  | FileEntry

definition entry_files :: "BinEntry \<Rightarrow> files option" where
  "entry_files e = (case e of Directory fs \<Rightarrow> Some fs | LinkEntry t \<Rightarrow> t | FileEntry \<Rightarrow> None)"

text \<open>What a path of one node holds: \<open>Garbled\<close> is a file that cannot be read or parsed.\<close>

datatype 'a Slot = Absent | Holds 'a | Garbled | Blocked  \<comment> \<open>a directory\<close>

text \<open>The target of \<open>current\<close> by its file name.\<close>

datatype Link = NoLink | LinkTo string | PlainFile | PlainFolder

record TrialMarker =
  tm_to :: string
  tm_prev :: "string option"

datatype fault = Fine | Fail string | Crash

record Install =
  entries :: "(string \<times> BinEntry) list"
  current :: Link
  trial :: "TrialMarker Slot"
  bootfails :: "u32 Slot"
  poisoned :: "string list Slot"
  lastfail :: "UpdateFailed Slot"
  faults :: "fault list"

record Surroundings =
  env_semver :: Semver
  env_ident :: BuildIdentity
  env_tree_safe :: bool
  env_acl_safe :: bool
  env_unpack :: "string \<Rightarrow> files option"
  env_smoke :: "Staged \<Rightarrow> HiggsError + string"
  env_describe :: "HiggsError \<Rightarrow> nat list"

subsection \<open>Steps that may fail\<close>

datatype 'a outcome = Done 'a | Failed HiggsError | Crashed

type_synonym 'a fs = "Install \<Rightarrow> 'a outcome \<times> Install"

definition ret :: "'a \<Rightarrow> 'a fs" where
  "ret x s = (Done x, s)"

definition fail :: "HiggsError \<Rightarrow> 'a fs" where
  "fail e s = (Failed e, s)"

definition andThen :: "'a fs \<Rightarrow> ('a \<Rightarrow> 'b fs) \<Rightarrow> 'b fs" where
  "andThen m f s = (case m s of (Done x, s) \<Rightarrow> f x s | (Failed e, s) \<Rightarrow> (Failed e, s) | (Crashed, s) \<Rightarrow> (Crashed, s))"

text \<open>\<open>let _ = ...\<close>: a failure is ignored.\<close>

definition best_effort :: "'a fs \<Rightarrow> unit fs" where
  "best_effort m s = (case m s of (Crashed, s) \<Rightarrow> (Crashed, s) | (_, s) \<Rightarrow> (Done (), s))"

definition look :: "(Install \<Rightarrow> 'a) \<Rightarrow> 'a fs" where
  "look f s = (Done (f s), s)"

definition lift_result :: "HiggsError + 'a \<Rightarrow> 'a fs" where
  "lift_result r = (case r of Inl e \<Rightarrow> fail e | Inr x \<Rightarrow> ret x)"

definition require :: "bool \<Rightarrow> HiggsError \<Rightarrow> unit fs" where
  "require b e = (if b then ret () else fail e)"

definition step :: "(Install \<Rightarrow> Install) \<Rightarrow> unit fs" where
  "step eff s =
     (case faults s of
        [] \<Rightarrow> (Done (), eff s)
      | Fine # fs \<Rightarrow> (Done (), eff (s\<lparr>faults := fs\<rparr>))
      | Fail d # fs \<Rightarrow> (Failed (UpdateApplyFailed d), s\<lparr>faults := fs\<rparr>)
      | Crash # fs \<Rightarrow> (Crashed, s\<lparr>faults := fs\<rparr>))"

definition fsync_path :: "unit fs" where
  "fsync_path = step id"

text \<open>A slot with its update; the temporary file, then the rename, then the flush of the directory.\<close>

type_synonym 'a slot = "(Install \<Rightarrow> 'a Slot) \<times> (('a Slot \<Rightarrow> 'a Slot) \<Rightarrow> Install \<Rightarrow> Install)"

abbreviation "trial_slot \<equiv> (trial, trial_update)"
abbreviation "bootfails_slot \<equiv> (bootfails, bootfails_update)"
abbreviation "poisoned_slot \<equiv> (poisoned, poisoned_update)"
abbreviation "lastfail_slot \<equiv> (lastfail, lastfail_update)"

definition write_atomic :: "'a slot \<Rightarrow> 'a \<Rightarrow> unit fs" where
  "write_atomic l x =
     andThen (step id) (\<lambda>_.
     andThen (look (fst l)) (\<lambda>v.
     andThen (require (v \<noteq> Blocked) (UpdateApplyFailed ''renaming into a directory'')) (\<lambda>_.
     andThen (step (snd l (\<lambda>_. Holds x))) (\<lambda>_.
       fsync_path))))"

definition remove_if_present :: "'a slot \<Rightarrow> unit fs" where
  "remove_if_present l =
     andThen (look (fst l)) (\<lambda>v.
     andThen (require (v \<noteq> Blocked) (UpdateApplyFailed ''cannot remove'')) (\<lambda>_.
       step (snd l (\<lambda>_. Absent))))"

text \<open>The removal of a node that is not a regular file, before a best-effort write.\<close>

definition clear_blocked :: "'a slot \<Rightarrow> unit fs" where
  "clear_blocked l =
     andThen (look (fst l)) (\<lambda>v.
       if v = Blocked
       then andThen (best_effort (step id)) (\<lambda>_. best_effort (step (snd l (\<lambda>_. Absent))))
       else ret ())"

definition slot_value :: "'a Slot \<Rightarrow> 'a option" where
  "slot_value v = (case v of Holds x \<Rightarrow> Some x | _ \<Rightarrow> None)"

subsection \<open>Names and reads\<close>

definition version_name :: "string \<Rightarrow> string" where
  "version_name ver = CHR ''v'' # ver"

definition strip_v :: "string \<Rightarrow> string" where
  "strip_v name = (case name of c # v \<Rightarrow> (if c = CHR ''v'' then v else name) | [] \<Rightarrow> name)"

definition is_version_dir_name :: "Semver \<Rightarrow> string \<Rightarrow> bool" where
  "is_version_dir_name sv name = (case name of c # v \<Rightarrow> c = CHR ''v'' \<and> sv_parses sv v | [] \<Rightarrow> False)"

definition is_managed_install :: "Install \<Rightarrow> bool" where
  "is_managed_install s = (case current s of LinkTo _ \<Rightarrow> True | _ \<Rightarrow> False)"

definition current_target :: "Install \<Rightarrow> string option" where
  "current_target s = (case current s of LinkTo n \<Rightarrow> (if prefix ''v'' n then Some n else None) | _ \<Rightarrow> None)"

definition read_trial :: "Install \<Rightarrow> TrialMarker option" where
  "read_trial s = slot_value (trial s)"

definition read_boot_fails :: "Install \<Rightarrow> u32" where
  "read_boot_fails s = unwrap_or 0 (slot_value (bootfails s))"

definition read_failed_targets :: "Install \<Rightarrow> string list" where
  "read_failed_targets s = unwrap_or [] (slot_value (poisoned s))"

definition is_failed_target :: "string \<Rightarrow> Install \<Rightarrow> bool" where
  "is_failed_target vname s \<longleftrightarrow> vname \<in> set (read_failed_targets s)"

definition require_regular_exec :: "files \<Rightarrow> bool" where
  "require_regular_exec fs = (case map_of fs ''higgs'' of Some (Regular _ ex) \<Rightarrow> ex | _ \<Rightarrow> False)"

definition is_installed_version :: "Semver \<Rightarrow> string \<Rightarrow> Install \<Rightarrow> bool" where
  "is_installed_version sv vname s \<longleftrightarrow>
     is_version_dir_name sv vname \<and>
     (case map_of (entries s) vname of Some (Directory fs) \<Rightarrow> require_regular_exec fs | _ \<Rightarrow> False)"

definition installed_identity :: "Surroundings \<Rightarrow> Install \<Rightarrow> BuildIdentity" where
  "installed_identity env s =
     (let ver = Option.bind (current_target s) (\<lambda>v. if prefix ''v'' v then Some (tl v) else None)
      in \<lparr>bi_version = unwrap_or (bi_version (env_ident env)) ver,
          bi_target = bi_target (env_ident env),
          bi_variant =
            unwrap_or (bi_variant (env_ident env))
              (opt_filter (\<lambda>t. t \<noteq> [])
                (map_option trim
                  (Option.bind ver (\<lambda>v.
                    case Option.bind (map_of (entries s) (version_name v)) entry_files of
                      Some fs \<Rightarrow> (case map_of fs ''.variant'' of Some (Regular text _) \<Rightarrow> Some text | _ \<Rightarrow> None)
                    | None \<Rightarrow> None))))\<rparr>)"

definition BOOT_FAIL_BUDGET :: u32 where "BOOT_FAIL_BUDGET = 3"

definition decide_rollback :: "TrialMarker option \<Rightarrow> u32 \<Rightarrow> u32 \<Rightarrow> string option" where
  "decide_rollback t fails budget = (case t of Some t \<Rightarrow> (if fails \<ge> budget then tm_prev t else None) | None \<Rightarrow> None)"

definition trial_is_for :: "TrialMarker \<Rightarrow> string \<Rightarrow> bool" where
  "trial_is_for t running_version \<longleftrightarrow> tm_to t = version_name running_version"

definition is_trial_pending_for :: "string \<Rightarrow> Install \<Rightarrow> bool" where
  "is_trial_pending_for running_version s =
     (case read_trial s of Some t \<Rightarrow> trial_is_for t running_version | None \<Rightarrow> False)"

text \<open>The trial is about the version \<open>current\<close> names.\<close>

definition trial_live :: "TrialMarker \<Rightarrow> Install \<Rightarrow> bool" where
  "trial_live t s \<longleftrightarrow> Some (tm_to t) = current_target s"

subsection \<open>The poison list and the failure report\<close>

definition record_failed_target :: "string \<Rightarrow> unit fs" where
  "record_failed_target vname =
     andThen (clear_blocked poisoned_slot) (\<lambda>_.
     andThen (look read_failed_targets) (\<lambda>names.
       if vname \<in> set names then ret ()
       else best_effort (andThen (write_atomic poisoned_slot (names @ [vname])) (\<lambda>_. best_effort fsync_path))))"

definition record_update_failure :: "string \<Rightarrow> string \<Rightarrow> nat list \<Rightarrow> unit fs" where
  "record_update_failure from target reason =
     andThen (clear_blocked lastfail_slot) (\<lambda>_.
       best_effort
         (andThen (write_atomic lastfail_slot
             \<lparr>uf_from = sanitize_version from, uf_to = sanitize_version target, uf_reason = sanitize_display reason\<rparr>)
           (\<lambda>_. best_effort fsync_path)))"

definition clear_update_failure :: "unit fs" where
  "clear_update_failure = andThen (best_effort (remove_if_present lastfail_slot)) (\<lambda>_. best_effort fsync_path)"

definition reportable_update_failure_for :: "string \<Rightarrow> Install \<Rightarrow> UpdateFailed option \<times> bool" where
  "reportable_update_failure_for running_version s =
     (case lastfail s of
        Absent \<Rightarrow> (None, True)
      | Holds f \<Rightarrow> (if uf_from f = sanitize_version running_version then (Some f, True) else (None, True))
      | Garbled \<Rightarrow> (None, False)
      | Blocked \<Rightarrow> (None, False))"

subsection \<open>The lock\<close>

datatype mkdir_result = Made | Exists | MkdirFailed
datatype flock_result = Locked | WouldBlock | FlockFailed

text \<open>What the system calls of \<open>try_acquire\<close> report, in their order.\<close>

record LockCalls =
  lc_mkdir :: mkdir_result
  lc_stat :: bool
  lc_is_dir :: bool
  lc_chmod :: bool
  lc_strip_acl :: bool
  lc_open :: bool
  lc_metadata :: bool
  lc_is_file :: bool
  lc_flock :: flock_result

datatype LockAttempt = Held | Contended | LockFailed HiggsError

definition open_private_lock_dir :: "LockCalls \<Rightarrow> HiggsError + unit" where
  "open_private_lock_dir c =
     (if lc_mkdir c = MkdirFailed then Inl (UpdateApplyFailed ''cannot create lock dir'')
      else if \<not> lc_stat c then Inl (UpdateApplyFailed ''cannot stat lock dir'')
      else if \<not> lc_is_dir c then Inl (UpdateApplyFailed ''lock dir is not a directory'')
      else if \<not> lc_chmod c then Inl (UpdateApplyFailed ''cannot set mode'')
      else if \<not> lc_strip_acl c then Inl (UpdateApplyFailed ''cannot strip ACLs'')
      else Inr ())"

definition try_acquire :: "LockCalls \<Rightarrow> LockAttempt" where
  "try_acquire c =
     (case open_private_lock_dir c of
        Inl e \<Rightarrow> LockFailed e
      | Inr _ \<Rightarrow>
          if \<not> lc_open c then LockFailed (UpdateApplyFailed ''cannot open update lock'')
          else if \<not> lc_metadata c then LockFailed (UpdateApplyFailed ''cannot stat update lock'')
          else if \<not> lc_is_file c then LockFailed (UpdateApplyFailed ''update lock is not a regular file'')
          else case lc_flock c of
                 Locked \<Rightarrow> Held
               | WouldBlock \<Rightarrow> Contended
               | FlockFailed \<Rightarrow> LockFailed (UpdateApplyFailed ''flock failed''))"

definition busy :: HiggsError where
  "busy = UpdateApplyFailed ''another self-update is already running''"

definition acquire_update_lock :: "LockCalls \<Rightarrow> HiggsError + unit" where
  "acquire_update_lock c = (case try_acquire c of Held \<Rightarrow> Inr () | Contended \<Rightarrow> Inl busy | LockFailed e \<Rightarrow> Inl e)"

definition with_boot_lock :: "LockCalls \<Rightarrow> 'a \<Rightarrow> (bool \<Rightarrow> 'a fs) \<Rightarrow> 'a fs" where
  "with_boot_lock c skip body =
     (case try_acquire c of Held \<Rightarrow> body True | Contended \<Rightarrow> ret skip | LockFailed _ \<Rightarrow> body False)"

subsection \<open>The flip and the rollbacks\<close>

definition flip_current_to :: "string \<Rightarrow> unit fs" where
  "flip_current_to vname =
     andThen (best_effort (step id)) (\<lambda>_.
     andThen (step id) (\<lambda>_.
     andThen (step id) (\<lambda>_.
     andThen (look current) (\<lambda>l.
     andThen (require (l \<noteq> PlainFolder) (UpdateApplyFailed ''atomic flip failed'')) (\<lambda>_.
     andThen (step (current_update (\<lambda>_. LinkTo vname))) (\<lambda>_.
       best_effort fsync_path))))))"

text \<open>The reasons, as code points: each has an em dash.\<close>

definition crash_loop_reason :: "nat list" where
  "crash_loop_reason = map of_char ''crash-looped on boot '' @ 0x2014 # map of_char '' rolled back''"

definition untracked_reason :: "nat list" where
  "untracked_reason =
     map of_char ''could not track the update's boot health (disk full?) '' @ 0x2014 # map of_char '' rolled back untested''"

definition perform_trial_rollback :: "Surroundings \<Rightarrow> string \<Rightarrow> string option \<Rightarrow> nat list \<Rightarrow> bool fs" where
  "perform_trial_rollback env prev failed_to reason =
     andThen (look (is_installed_version (env_semver env) prev)) (\<lambda>there.
       if \<not> there then ret False
       else
         andThen (remove_if_present bootfails_slot) (\<lambda>_.
         andThen (flip_current_to prev) (\<lambda>_.
         andThen (case failed_to of
             None \<Rightarrow> ret ()
           | Some failed \<Rightarrow>
               andThen (record_failed_target failed) (\<lambda>_.
                 record_update_failure (strip_v prev) (strip_v failed) reason)) (\<lambda>_.
         andThen (remove_if_present trial_slot) (\<lambda>_.
         andThen (best_effort fsync_path) (\<lambda>_.
           ret True))))))"

definition boot_rollback_body :: "Surroundings \<Rightarrow> bool \<Rightarrow> string option fs" where
  "boot_rollback_body env locked =
     andThen (look (\<lambda>s. (read_trial s, current_target s, read_boot_fails s))) (\<lambda>(t, cur, fails).
       if (case t of Some t \<Rightarrow> Some (tm_to t) \<noteq> cur | None \<Rightarrow> False)
       then
         (if locked
          then andThen (remove_if_present trial_slot) (\<lambda>_.
               andThen (remove_if_present bootfails_slot) (\<lambda>_.
               andThen (best_effort fsync_path) (\<lambda>_.
                 ret None)))
          else ret None)
       else case decide_rollback t fails BOOT_FAIL_BUDGET of
              Some prev \<Rightarrow>
                andThen (perform_trial_rollback env prev (map_option tm_to t) crash_loop_reason)
                  (\<lambda>rolled. ret (if rolled then Some prev else None))
            | None \<Rightarrow> ret None)"

definition boot_rollback_if_spent :: "Surroundings \<Rightarrow> LockCalls \<Rightarrow> string option fs" where
  "boot_rollback_if_spent env c = with_boot_lock c None (boot_rollback_body env)"

definition force_rollback_trial_body :: "Surroundings \<Rightarrow> string \<Rightarrow> string option fs" where
  "force_rollback_trial_body env running_version =
     andThen (look (\<lambda>s. (read_trial s, current_target s))) (\<lambda>(t, cur).
       case t of
         None \<Rightarrow> ret None
       | Some t \<Rightarrow>
           if \<not> trial_is_for t running_version \<or> Some (tm_to t) \<noteq> cur then ret None
           else case tm_prev t of
             None \<Rightarrow> ret None
           | Some prev \<Rightarrow>
               andThen (perform_trial_rollback env prev (Some (tm_to t))
                   untracked_reason)
                 (\<lambda>rolled. ret (if rolled then Some prev else None)))"

definition force_rollback_trial :: "Surroundings \<Rightarrow> LockCalls \<Rightarrow> string \<Rightarrow> string option fs" where
  "force_rollback_trial env c running_version =
     with_boot_lock c None (\<lambda>_. force_rollback_trial_body env running_version)"

definition record_boot_attempt :: "LockCalls \<Rightarrow> string \<Rightarrow> unit fs" where
  "record_boot_attempt c running_version =
     with_boot_lock c () (\<lambda>_.
       andThen (look (\<lambda>s. (read_trial s, read_boot_fails s))) (\<lambda>(t, fails).
         case t of
           Some t \<Rightarrow> (if trial_is_for t running_version then write_atomic bootfails_slot (sat_add fails 1) else ret ())
         | None \<Rightarrow> remove_if_present bootfails_slot))"

definition confirm_alive :: "LockCalls \<Rightarrow> string \<Rightarrow> unit fs" where
  "confirm_alive c running_version =
     with_boot_lock c () (\<lambda>_.
       andThen (look read_trial) (\<lambda>t.
         case t of
           Some t \<Rightarrow>
             (if trial_is_for t running_version
              then andThen (remove_if_present trial_slot) (\<lambda>_.
                   andThen (remove_if_present bootfails_slot) (\<lambda>_.
                     best_effort fsync_path))
              else ret ())
         | None \<Rightarrow> ret ()))"

text \<open>
  The start of a node, before it serves (\<open>node_boot_preflight\<close> and the head of
  \<open>run_node_daemon_body\<close> in \<open>src/node/cli.rs\<close>); True: the process exits and is started again.
\<close>

definition attempt :: "'a fs \<Rightarrow> (HiggsError + 'a) fs" where
  "attempt m s = (case m s of (Done x, s) \<Rightarrow> (Done (Inr x), s) | (Failed e, s) \<Rightarrow> (Done (Inl e), s) | (Crashed, s) \<Rightarrow> (Crashed, s))"

definition rolled_back :: "HiggsError + string option \<Rightarrow> bool" where
  "rolled_back r = (case r of Inr (Some _) \<Rightarrow> True | _ \<Rightarrow> False)"

definition node_boot_preflight :: "Surroundings \<Rightarrow> LockCalls \<Rightarrow> bool fs" where
  "node_boot_preflight env c = andThen (attempt (boot_rollback_if_spent env c)) (\<lambda>r. ret (rolled_back r))"

definition record_this_boot :: "Surroundings \<Rightarrow> LockCalls \<Rightarrow> LockCalls \<Rightarrow> string \<Rightarrow> bool fs" where
  "record_this_boot env c c' running_version =
     andThen (attempt (record_boot_attempt c running_version)) (\<lambda>r.
       case r of
         Inr _ \<Rightarrow> ret False
       | Inl _ \<Rightarrow> andThen (attempt (force_rollback_trial env c' running_version)) (\<lambda>r. ret (rolled_back r)))"

definition node_boot :: "Surroundings \<Rightarrow> LockCalls \<Rightarrow> LockCalls \<Rightarrow> LockCalls \<Rightarrow> string \<Rightarrow> bool fs" where
  "node_boot env c1 c2 c3 running_version =
     andThen (node_boot_preflight env c1) (\<lambda>exits.
       if exits then ret True else record_this_boot env c2 c3 running_version)"

subsection \<open>Stage and flip\<close>

definition put_file :: "string \<Rightarrow> string \<Rightarrow> Staged \<Rightarrow> Install \<Rightarrow> Install" where
  "put_file vname name nd s =
     (case map_of (entries s) vname of
        Some (Directory fs) \<Rightarrow> s\<lparr>entries := AList.update vname (Directory (AList.update name nd fs)) (entries s)\<rparr>
      | _ \<Rightarrow> s)"

definition node_at :: "string \<Rightarrow> string \<Rightarrow> Install \<Rightarrow> Staged option" where
  "node_at vname name s =
     (case map_of (entries s) vname of Some (Directory fs) \<Rightarrow> map_of fs name | _ \<Rightarrow> None)"

text \<open>A rename over a file or a link replaces it; over a directory it fails.\<close>

definition rename_into :: "string \<Rightarrow> string \<Rightarrow> Staged \<Rightarrow> unit fs" where
  "rename_into vname name nd =
     andThen (look (node_at vname name)) (\<lambda>old.
     andThen (require (old \<noteq> Some Folder) (UpdateApplyFailed ''publishing failed'')) (\<lambda>_.
       step (put_file vname name nd)))"

fun publish_files :: "string \<Rightarrow> files \<Rightarrow> unit fs" where
  "publish_files vname [] = ret ()"
| "publish_files vname ((name, nd) # fs) =
     andThen fsync_path (\<lambda>_.
     andThen (rename_into vname name nd) (\<lambda>_.
       publish_files vname fs))"

definition create_version_dir :: "string \<Rightarrow> unit fs" where
  "create_version_dir vname =
     andThen (look (\<lambda>s. map_of (entries s) vname)) (\<lambda>e.
       case e of
         Some (LinkEntry _) \<Rightarrow> fail (UpdateApplyFailed ''is a symlink, refusing to publish through it'')
       | Some FileEntry \<Rightarrow> fail (UpdateApplyFailed ''cannot create version dir'')
       | Some (Directory _) \<Rightarrow> step id
       | None \<Rightarrow> step (\<lambda>s. s\<lparr>entries := (vname, Directory []) # entries s\<rparr>))"

text \<open>The archive has to be flat; \<open>higgs\<close> becomes 0755, every other file 0644.\<close>

fun is_regular :: "Staged \<Rightarrow> bool" where
  "is_regular (Regular _ _) = True"
| "is_regular _ = False"

fun normal_mode :: "string \<times> Staged \<Rightarrow> string \<times> Staged" where
  "normal_mode (name, Regular text _) = (name, Regular text (name = ''higgs''))"
| "normal_mode (name, nd) = (name, nd)"

definition normalize_published_modes :: "files \<Rightarrow> HiggsError + files" where
  "normalize_published_modes fs =
     (if list_all (\<lambda>(name, nd). is_regular nd) fs then Inr (map normal_mode fs)
      else Inl (UpdateApplyFailed ''unexpected update archive layout''))"

definition smoke_ok :: "Surroundings \<Rightarrow> string \<Rightarrow> files \<Rightarrow> HiggsError + unit" where
  "smoke_ok env ver fs =
     (case map_of fs ''higgs'' of
        None \<Rightarrow> Inl (UpdateApplyFailed ''cannot run staged binary'')
      | Some nd \<Rightarrow>
      (case env_smoke env nd of
         Inl e \<Rightarrow> Inl e
       | Inr said \<Rightarrow>
           if ver \<in> set (split_whitespace said) then Inr ()
           else Inl (UpdateApplyFailed ''staged binary reported another version, refusing to publish'')))"

text \<open>Steps (1) of \<open>stage_and_flip\<close>: the refusals before anything is written.\<close>

definition stage_guards :: "Surroundings \<Rightarrow> UpdateManifest \<Rightarrow> bool \<Rightarrow> unit fs" where
  "stage_guards env m allow_downgrade =
     andThen (require (env_tree_safe env) (UpdateApplyFailed ''unsafe install directory'')) (\<lambda>_.
     andThen (look (\<lambda>s. (read_trial s, current_target s))) (\<lambda>(t, cur).
     andThen (case t of
         None \<Rightarrow> ret ()
       | Some t \<Rightarrow>
           if Some (tm_to t) = cur
           then fail (UpdateApplyFailed ''a previous self-update is still on trial'')
           else andThen (remove_if_present trial_slot) (\<lambda>_. remove_if_present bootfails_slot)) (\<lambda>_.
     andThen (look (installed_identity env)) (\<lambda>ident.
     andThen (lift_result (evaluate_eligibility (env_semver env) ident m allow_downgrade)) (\<lambda>_.
     andThen (look (is_failed_target (version_name (um_version m)))) (\<lambda>bad.
       require (\<not> bad) (UpdateApplyFailed ''previously failed its boot trial'')))))))"

text \<open>Steps (2) to (4): unpack, check, smoke; the state is left alone.\<close>

definition stage_files :: "Surroundings \<Rightarrow> UpdateManifest \<Rightarrow> string \<Rightarrow> files fs" where
  "stage_files env m artifact =
     andThen (step id) (\<lambda>_.
     andThen (lift_result (case env_unpack env artifact of
         None \<Rightarrow> Inl (UpdateApplyFailed ''unpacking update tarball failed'') | Some fs \<Rightarrow> Inr fs)) (\<lambda>fs.
     andThen (step id) (\<lambda>_.
     andThen (require (require_regular_exec fs) (UpdateApplyFailed ''no regular executable higgs'')) (\<lambda>_.
     andThen (lift_result (normalize_published_modes fs)) (\<lambda>fs.
     andThen (step id) (\<lambda>_.
     andThen (lift_result (smoke_ok env (um_version m) fs)) (\<lambda>_.
       ret fs)))))))"

text \<open>Step (5) and (6): the version directory.\<close>

definition publish_version :: "Surroundings \<Rightarrow> UpdateManifest \<Rightarrow> files \<Rightarrow> unit fs" where
  "publish_version env m fs =
     (let vname = version_name (um_version m) in
      andThen (create_version_dir vname) (\<lambda>_.
      andThen (step id) (\<lambda>_.
      andThen (require (env_acl_safe env) (UpdateApplyFailed ''unsafe version dir'')) (\<lambda>_.
      andThen (publish_files vname fs) (\<lambda>_.
      andThen (step id) (\<lambda>_.
      andThen (rename_into vname ''.variant'' (Regular (um_variant m) False)) (\<lambda>_.
      andThen fsync_path (\<lambda>_.
        fsync_path))))))))"

text \<open>Step (7): the trial marker, then the flip.\<close>

definition flip_to_trial :: "Surroundings \<Rightarrow> UpdateManifest \<Rightarrow> bool \<Rightarrow> unit fs" where
  "flip_to_trial env m allow_downgrade =
     (let vname = version_name (um_version m) in
      andThen (look (installed_identity env)) (\<lambda>ident.
      andThen (lift_result (evaluate_eligibility (env_semver env) ident m allow_downgrade)) (\<lambda>_.
      andThen (look current_target) (\<lambda>prev.
      andThen (write_atomic trial_slot \<lparr>tm_to = vname, tm_prev = prev\<rparr>) (\<lambda>_.
      andThen (remove_if_present bootfails_slot) (\<lambda>_.
      andThen (flip_current_to vname) (\<lambda>_.
        clear_update_failure)))))))"

definition stage_and_flip :: "Surroundings \<Rightarrow> UpdateManifest \<Rightarrow> string \<Rightarrow> bool \<Rightarrow> unit fs" where
  "stage_and_flip env m artifact allow_downgrade =
     andThen (stage_guards env m allow_downgrade) (\<lambda>_.
     andThen (stage_files env m artifact) (\<lambda>fs.
     andThen (publish_version env m fs) (\<lambda>_.
       flip_to_trial env m allow_downgrade)))"

subsection \<open>Maintenance\<close>

definition rollback_target :: "Surroundings \<Rightarrow> Install \<Rightarrow> HiggsError + string" where
  "rollback_target env s =
     (if \<not> is_managed_install s then Inl (UpdateApplyFailed ''not a higgs install'')
      else case read_trial s of
        None \<Rightarrow> Inl (UpdateApplyFailed ''no update is on trial'')
      | Some t \<Rightarrow>
          if Some (tm_to t) \<noteq> current_target s then Inl (UpdateApplyFailed ''the recorded trial is stale'')
          else case tm_prev t of
            None \<Rightarrow> Inl (UpdateApplyFailed ''no previous version recorded'')
          | Some prev \<Rightarrow>
              if is_installed_version (env_semver env) prev s then Inr prev
              else Inl (UpdateApplyFailed ''rollback target is not installed''))"

definition rollback :: "Surroundings \<Rightarrow> string fs" where
  "rollback env =
     andThen (look (\<lambda>s. map_option tm_to (read_trial s))) (\<lambda>failed_to.
     andThen (look (rollback_target env)) (\<lambda>target.
     andThen (lift_result target) (\<lambda>prev.
     andThen (flip_current_to prev) (\<lambda>_.
     andThen (remove_if_present trial_slot) (\<lambda>_.
     andThen (remove_if_present bootfails_slot) (\<lambda>_.
     andThen (case failed_to of None \<Rightarrow> ret () | Some failed \<Rightarrow> record_failed_target failed) (\<lambda>_.
       ret prev)))))))"

definition keep_set :: "Install \<Rightarrow> string list" where
  "keep_set s =
     map to_ascii_lowercase
       ((case current_target s of Some c \<Rightarrow> [c] | None \<Rightarrow> []) @
        (case Option.bind (read_trial s) tm_prev of Some p \<Rightarrow> [p] | None \<Rightarrow> []))"

definition prune_plan :: "Surroundings \<Rightarrow> Install \<Rightarrow> HiggsError + string list" where
  "prune_plan env s =
     (if \<not> is_managed_install s then Inl (UpdateApplyFailed ''not a higgs install, refusing to prune_versions'')
      else Inr (sort (map fst (filter (\<lambda>(name, e).
        is_version_dir_name (env_semver env) name \<and> to_ascii_lowercase name \<notin> set (keep_set s) \<and>
        (case e of Directory _ \<Rightarrow> True | _ \<Rightarrow> False)) (entries s)))))"

text \<open>\<open>remove_dir_all\<close> first empties the directory, so it may leave an empty one behind.\<close>

fun remove_dirs :: "string list \<Rightarrow> unit fs" where
  "remove_dirs [] = ret ()"
| "remove_dirs (name # names) =
     andThen (step (\<lambda>s. s\<lparr>entries := AList.update name (Directory []) (entries s)\<rparr>)) (\<lambda>_.
     andThen (step (\<lambda>s. s\<lparr>entries := AList.delete name (entries s)\<rparr>)) (\<lambda>_.
       remove_dirs names))"

definition prune_versions :: "Surroundings \<Rightarrow> string list fs" where
  "prune_versions env =
     andThen (look (prune_plan env)) (\<lambda>plan.
     andThen (lift_result plan) (\<lambda>names.
     andThen (remove_dirs names) (\<lambda>_.
       ret names)))"

end
