(* ===== verification/Update_Install_Props.thy ===== *)
theory Update_Install_Props
  imports Update_Install
begin

text \<open>
  What the install promises under every schedule of faults and crashes. A triple speaks of the
  state after a step in each of its outcomes: \<open>Q\<close> when it is done, \<open>E\<close> when it failed or died.
\<close>

subsection \<open>Triples\<close>

fun post :: "('a \<Rightarrow> Install \<Rightarrow> bool) \<Rightarrow> (Install \<Rightarrow> bool) \<Rightarrow> 'a outcome \<times> Install \<Rightarrow> bool" where
  "post Q E (Done x, s) = Q x s"
| "post Q E (Failed e, s) = E s"
| "post Q E (Crashed, s) = E s"

definition triple :: "(Install \<Rightarrow> bool) \<Rightarrow> 'a fs \<Rightarrow> ('a \<Rightarrow> Install \<Rightarrow> bool) \<Rightarrow> (Install \<Rightarrow> bool) \<Rightarrow> bool" where
  "triple P m Q E \<longleftrightarrow> (\<forall>s. P s \<longrightarrow> post Q E (m s))"

lemma post_weaken: "post Q E r \<Longrightarrow> (\<And>x s. Q x s \<Longrightarrow> Q' x s) \<Longrightarrow> (\<And>s. E s \<Longrightarrow> E' s) \<Longrightarrow> post Q' E' r"
  by (cases r; cases "fst r") auto

lemma tripleD: "triple P m Q E \<Longrightarrow> P s \<Longrightarrow> post Q E (m s)"
  by (simp add: triple_def)

text \<open>The three outcomes of a step.\<close>

lemma result_cases:
  obtains (done_with) x s' where "r = (Done x, s')" | (failed_with) e s' where "r = (Failed e, s')"
  | (died) s' where "r = (Crashed, s')"
  by (cases r; cases "fst r") auto

text \<open>A predicate that does not look at the schedule of faults.\<close>

definition calm :: "(Install \<Rightarrow> bool) \<Rightarrow> bool" where
  "calm P \<longleftrightarrow> (\<forall>s fs. P s \<longrightarrow> P (s\<lparr>faults := fs\<rparr>))"

lemma triple_ret: "(\<And>s. P s \<Longrightarrow> Q x s) \<Longrightarrow> triple P (ret x) Q E"
  by (simp add: triple_def ret_def)

lemma triple_fail: "(\<And>s. P s \<Longrightarrow> E s) \<Longrightarrow> triple P (fail e) Q E"
  by (simp add: triple_def fail_def)

lemma triple_look: "(\<And>s. P s \<Longrightarrow> Q (f s) s) \<Longrightarrow> triple P (look f) Q E"
  by (simp add: triple_def look_def)

lemma triple_require:
  "(\<And>s. P s \<Longrightarrow> b \<Longrightarrow> Q () s) \<Longrightarrow> (\<And>s. P s \<Longrightarrow> E s) \<Longrightarrow> triple P (require b e) Q E"
  by (simp add: require_def triple_ret triple_fail)

lemma triple_lift_result:
  "(\<And>s x. P s \<Longrightarrow> r = Inr x \<Longrightarrow> Q x s) \<Longrightarrow> (\<And>s. P s \<Longrightarrow> E s) \<Longrightarrow> triple P (lift_result r) Q E"
  by (simp add: lift_result_def triple_ret triple_fail split: sum.split)

lemma triple_step:
  assumes "calm P" "\<And>s. P s \<Longrightarrow> Q () (eff s)" "\<And>s. P s \<Longrightarrow> E s"
  shows "triple P (step eff) Q E"
  unfolding triple_def
proof (intro allI impI)
  fix s assume P: "P s"
  with assms(1) have "P (s\<lparr>faults := fs\<rparr>)" for fs by (simp add: calm_def)
  with P assms(2,3) show "post Q E (step eff s)"
    by (simp add: step_def split: list.split fault.split)
qed

lemma triple_andThen:
  assumes "triple P m R E" "\<And>x. triple (R x) (f x) Q E"
  shows "triple P (andThen m f) Q E"
  unfolding triple_def
proof (intro allI impI)
  fix s assume "P s"
  from tripleD [OF assms(1) this] show "post Q E (andThen m f s)"
    by (cases rule: result_cases [of "m s"]) (simp_all add: andThen_def tripleD [OF assms(2)])
qed

lemma triple_best_effort:
  assumes "triple P m (\<lambda>_. I) I" "\<And>s. I s \<Longrightarrow> Q () s" "\<And>s. I s \<Longrightarrow> E s"
  shows "triple P (best_effort m) Q E"
  unfolding triple_def
proof (intro allI impI)
  fix s assume "P s"
  from tripleD [OF assms(1) this] show "post Q E (best_effort m s)"
    by (cases rule: result_cases [of "m s"]) (simp_all add: best_effort_def assms(2,3))
qed

lemma triple_attempt:
  assumes "triple P m (\<lambda>x. Q (Inr x)) E" "\<And>s e. E s \<Longrightarrow> Q (Inl e) s"
  shows "triple P (attempt m) Q E"
  unfolding triple_def
proof (intro allI impI)
  fix s assume "P s"
  from tripleD [OF assms(1) this] show "post Q E (attempt m s)"
    by (cases rule: result_cases [of "m s"]) (simp_all add: attempt_def assms(2))
qed

lemma triple_weaken:
  assumes "triple P m Q E" "\<And>s. P' s \<Longrightarrow> P s" "\<And>x s. Q x s \<Longrightarrow> Q' x s" "\<And>s. E s \<Longrightarrow> E' s"
  shows "triple P' m Q' E'"
  unfolding triple_def
proof (intro allI impI)
  fix s assume "P' s"
  then have "post Q E (m s)" by (rule tripleD [OF assms(1) assms(2)])
  then show "post Q' E' (m s)" by (rule post_weaken) (use assms(3,4) in simp_all)
qed

lemma triple_cases: "(\<And>s0. P s0 \<Longrightarrow> triple (\<lambda>s. s = s0) m Q E) \<Longrightarrow> triple P m Q E"
  by (simp add: triple_def)

text \<open>\<open>keeps\<close>: whatever happens.\<close>

definition keeps :: "(Install \<Rightarrow> bool) \<Rightarrow> 'a fs \<Rightarrow> bool" where
  "keeps P m \<longleftrightarrow> triple P m (\<lambda>_. P) P"

lemma keepsD: "keeps P m \<Longrightarrow> P s \<Longrightarrow> P (snd (m s))"
  by (cases rule: result_cases [of "m s"]) (auto simp: keeps_def dest: tripleD)

lemma keeps_simple:
  "keeps P (ret x)" "keeps P (fail e)" "keeps P (look f)" "keeps P (require b e)" "keeps P (lift_result r)"
  by (simp_all add: keeps_def triple_ret triple_fail triple_look triple_require triple_lift_result)

lemma keeps_step: "calm P \<Longrightarrow> (\<And>s. P s \<Longrightarrow> P (eff s)) \<Longrightarrow> keeps P (step eff)"
  by (simp add: keeps_def triple_step)

lemma keeps_andThen: "keeps P m \<Longrightarrow> (\<And>x. keeps P (f x)) \<Longrightarrow> keeps P (andThen m f)"
  unfolding keeps_def by (rule triple_andThen)

lemma keeps_best_effort: "keeps P m \<Longrightarrow> keeps P (best_effort m)"
  unfolding keeps_def by (rule triple_best_effort)

lemma keeps_attempt: "keeps P m \<Longrightarrow> keeps P (attempt m)"
  unfolding keeps_def by (rule triple_attempt)

lemmas keeps_rules = keeps_simple keeps_andThen keeps_best_effort keeps_attempt

lemma keeps_fsync: "calm P \<Longrightarrow> keeps P fsync_path"
  unfolding fsync_path_def by (rule keeps_step) simp_all

lemma keeps_write_atomic:
  "calm P \<Longrightarrow> (\<And>s. P s \<Longrightarrow> P (snd l (\<lambda>_. Holds x) s)) \<Longrightarrow> keeps P (write_atomic l x)"
  unfolding write_atomic_def by (intro keeps_rules keeps_fsync keeps_step) simp_all

lemma keeps_remove:
  "calm P \<Longrightarrow> (\<And>s. P s \<Longrightarrow> P (snd l (\<lambda>_. Absent) s)) \<Longrightarrow> keeps P (remove_if_present l)"
  unfolding remove_if_present_def by (intro keeps_rules keeps_step) simp_all

lemma keeps_clear_blocked:
  "calm P \<Longrightarrow> (\<And>s. P s \<Longrightarrow> P (snd l (\<lambda>_. Absent) s)) \<Longrightarrow> keeps P (clear_blocked l)"
  unfolding clear_blocked_def
  by (rule keeps_andThen [OF keeps_simple(3)]) (simp add: keeps_rules keeps_step)

text \<open>What the poison list, the failure report and the boot counter do not touch.\<close>

lemma keeps_records:
  assumes "calm P" "\<And>s v. P s \<Longrightarrow> P (s\<lparr>poisoned := v\<rparr>)" "\<And>s v. P s \<Longrightarrow> P (s\<lparr>lastfail := v\<rparr>)"
  shows "keeps P (record_failed_target v)" "keeps P (record_update_failure a b r)" "keeps P clear_update_failure"
proof -
  note k = keeps_clear_blocked [OF assms(1)] keeps_write_atomic [OF assms(1)] keeps_remove [OF assms(1)]
    keeps_fsync [OF assms(1)]
  show "keeps P (record_update_failure a b r)" "keeps P clear_update_failure"
    unfolding record_update_failure_def clear_update_failure_def
    by (intro keeps_rules k; simp add: assms(2,3))+
  show "keeps P (record_failed_target v)"
    unfolding record_failed_target_def
  proof (intro keeps_andThen k keeps_simple)
    show "P (snd poisoned_slot (\<lambda>_. Absent) s)" if "P s" for s using that assms(2) by simp
    show "keeps P (if v \<in> set names then ret ()
        else best_effort (andThen (write_atomic poisoned_slot (names @ [v])) (\<lambda>_. best_effort fsync_path)))" for names
      using assms(2) by (cases "v \<in> set names") (simp_all add: keeps_rules k)
  qed
qed

lemma keeps_with_boot_lock: "(\<And>b. keeps P (body b)) \<Longrightarrow> keeps P (with_boot_lock c skip body)"
  by (simp add: with_boot_lock_def keeps_rules split: LockAttempt.split)

lemma keeps_confirm_alive:
  assumes "calm P" "\<And>s. P s \<Longrightarrow> P (s\<lparr>trial := Absent\<rparr>)" "\<And>s v. P s \<Longrightarrow> P (s\<lparr>bootfails := v\<rparr>)"
  shows "keeps P (confirm_alive c v)"
  unfolding confirm_alive_def
proof (intro keeps_with_boot_lock keeps_andThen keeps_simple)
  fix t :: "TrialMarker option"
  have "keeps P (remove_if_present trial_slot)" "keeps P (remove_if_present bootfails_slot)" "keeps P fsync_path"
    using assms by (simp_all add: keeps_remove keeps_fsync)
  then show "keeps P (case t of None \<Rightarrow> ret ()
      | Some t \<Rightarrow> if trial_is_for t v
          then andThen (remove_if_present trial_slot) (\<lambda>_. andThen (remove_if_present bootfails_slot) (\<lambda>_. best_effort fsync_path))
          else ret ())"
    by (auto split: option.split intro!: keeps_rules)
qed

lemma keeps_record_boot_attempt:
  assumes "calm P" "\<And>s v. P s \<Longrightarrow> P (s\<lparr>bootfails := v\<rparr>)"
  shows "keeps P (record_boot_attempt c v)"
  unfolding record_boot_attempt_def
proof (intro keeps_with_boot_lock keeps_andThen keeps_simple)
  fix tf :: "TrialMarker option \<times> u32"
  have "keeps P (remove_if_present bootfails_slot)" "keeps P (write_atomic bootfails_slot n)" for n
    using assms by (simp_all add: keeps_remove keeps_write_atomic)
  then show "keeps P (case tf of (t, n) \<Rightarrow> (case t of
        Some t \<Rightarrow> (if trial_is_for t v then write_atomic bootfails_slot (sat_add n 1) else ret ())
      | None \<Rightarrow> remove_if_present bootfails_slot))"
    by (auto split: option.split prod.split intro!: keeps_simple)
qed

subsection \<open>What an update of one field leaves alone\<close>

lemma installed_views [simp]:
  "is_installed_version sv v (s\<lparr>faults := fs\<rparr>) = is_installed_version sv v s"
  "is_installed_version sv v (s\<lparr>trial := tm\<rparr>) = is_installed_version sv v s"
  "is_installed_version sv v (s\<lparr>bootfails := bf\<rparr>) = is_installed_version sv v s"
  "is_installed_version sv v (s\<lparr>poisoned := po\<rparr>) = is_installed_version sv v s"
  "is_installed_version sv v (s\<lparr>lastfail := lf\<rparr>) = is_installed_version sv v s"
  "is_installed_version sv v (s\<lparr>current := cu\<rparr>) = is_installed_version sv v s"
  by (simp_all add: is_installed_version_def)

lemma target_views [simp]:
  "current_target (s\<lparr>faults := fs\<rparr>) = current_target s"
  "current_target (s\<lparr>trial := tm\<rparr>) = current_target s"
  "current_target (s\<lparr>bootfails := bf\<rparr>) = current_target s"
  "current_target (s\<lparr>poisoned := po\<rparr>) = current_target s"
  "current_target (s\<lparr>lastfail := lf\<rparr>) = current_target s"
  "current_target (s\<lparr>entries := en\<rparr>) = current_target s"
  by (simp_all add: current_target_def)

lemma trial_views [simp]:
  "read_trial (s\<lparr>faults := fs\<rparr>) = read_trial s"
  "read_trial (s\<lparr>trial := tm\<rparr>) = slot_value tm"
  "read_trial (s\<lparr>bootfails := bf\<rparr>) = read_trial s"
  "read_trial (s\<lparr>poisoned := po\<rparr>) = read_trial s"
  "read_trial (s\<lparr>lastfail := lf\<rparr>) = read_trial s"
  "read_trial (s\<lparr>entries := en\<rparr>) = read_trial s"
  "read_trial (s\<lparr>current := cu\<rparr>) = read_trial s"
  by (simp_all add: read_trial_def)

lemma identity_views [simp]:
  "installed_identity env (s\<lparr>faults := fs\<rparr>) = installed_identity env s"
  "installed_identity env (s\<lparr>trial := tm\<rparr>) = installed_identity env s"
  "installed_identity env (s\<lparr>bootfails := bf\<rparr>) = installed_identity env s"
  "installed_identity env (s\<lparr>poisoned := po\<rparr>) = installed_identity env s"
  "installed_identity env (s\<lparr>lastfail := lf\<rparr>) = installed_identity env s"
  by (simp_all add: installed_identity_def)

lemma slot_value_simps [simp]:
  "slot_value Absent = None" "slot_value (Holds x) = Some x" "slot_value Garbled = None" "slot_value Blocked = None"
  by (simp_all add: slot_value_def)

lemma version_name_target: "is_version_dir_name sv n \<Longrightarrow> prefix ''v'' n"
  by (auto simp: is_version_dir_name_def split: list.splits)

lemma installed_name: "is_installed_version sv v s \<Longrightarrow> is_version_dir_name sv v"
  by (simp add: is_installed_version_def)

lemma target_of_link [simp]:
  "current_target (s\<lparr>current := LinkTo n\<rparr>) = (if prefix ''v'' n then Some n else None)"
  by (simp add: current_target_def)

subsection \<open>The installed version is always runnable\<close>

text \<open>\<open>current\<close> names an installed version, and so does the way back a trial records.\<close>

definition install_ok :: "Semver \<Rightarrow> Install \<Rightarrow> bool" where
  "install_ok sv s \<longleftrightarrow>
     (case current_target s of Some v \<Rightarrow> is_installed_version sv v s | None \<Rightarrow> False) \<and>
     (case Option.bind (read_trial s) tm_prev of Some p \<Rightarrow> is_installed_version sv p s | None \<Rightarrow> True)"

lemma calm_install_ok: "calm (install_ok sv)"
  by (simp add: calm_def install_ok_def split: option.split)

lemma install_ok_markers:
  assumes "install_ok sv s"
  shows "install_ok sv (s\<lparr>trial := Absent\<rparr>)" "install_ok sv (s\<lparr>bootfails := bf\<rparr>)"
    "install_ok sv (s\<lparr>poisoned := po\<rparr>)" "install_ok sv (s\<lparr>lastfail := lf\<rparr>)"
  using assms by (auto simp: install_ok_def split: option.splits)

lemma install_ok_flip:
  assumes "install_ok sv s" "is_installed_version sv v s"
  shows "install_ok sv (s\<lparr>current := LinkTo v\<rparr>)"
  using assms version_name_target [OF installed_name [OF assms(2)]]
  by (auto simp: install_ok_def split: option.splits)

lemma calm_conj: "calm P \<Longrightarrow> calm R \<Longrightarrow> calm (\<lambda>s. P s \<and> R s)"
  by (simp add: calm_def)

lemma calm_installed: "calm (is_installed_version sv v)"
  by (simp add: calm_def)

text \<open>The flip: until its rename nothing has changed.\<close>

lemma triple_flip:
  assumes "calm P" "calm I" "\<And>s. P s \<Longrightarrow> I (s\<lparr>current := LinkTo v\<rparr>)" "\<And>s. P s \<Longrightarrow> E s" "\<And>s. I s \<Longrightarrow> E s"
  shows "triple P (flip_current_to v) (\<lambda>_. I) E"
  unfolding flip_current_to_def
proof (intro triple_andThen)
  show "triple P (best_effort (step id)) (\<lambda>_. P) E"
    by (rule triple_best_effort [where I = P, OF triple_step]) (simp_all add: assms(1,4))
  show "triple P (step id) (\<lambda>_. P) E" "triple P (step id) (\<lambda>_. P) E"
    by (simp_all add: triple_step assms(1,4))
  show "triple P (look current) (\<lambda>_. P) E" by (simp add: triple_look)
  show "triple P (require (l \<noteq> PlainFolder) e) (\<lambda>_. P) E" for l e by (simp add: triple_require assms(4))
  show "triple P (step (current_update (\<lambda>_. LinkTo v))) (\<lambda>_. I) E"
    by (rule triple_step) (simp_all add: assms(1,3,4))
  show "triple I (best_effort fsync_path) (\<lambda>_. I) E"
    unfolding fsync_path_def by (rule triple_best_effort [where I = I, OF triple_step]) (simp_all add: assms(2,5))
qed

lemma keeps_perform_rollback:
  "keeps (install_ok (env_semver env)) (perform_trial_rollback env prev failed_to reason)"
proof -
  let ?P = "install_ok (env_semver env)" and ?R = "\<lambda>s. install_ok (env_semver env) s \<and> is_installed_version (env_semver env) prev s"
  note calm_install_ok [simp]
  have calmR: "calm ?R" by (intro calm_conj calm_install_ok calm_installed)
  have r: "keeps ?P (remove_if_present trial_slot)" "keeps ?R (remove_if_present bootfails_slot)"
    by (rule keeps_remove; simp add: calmR install_ok_markers)+
  have flip: "triple ?R (flip_current_to prev) (\<lambda>_. ?P) ?P"
    by (rule triple_flip) (simp_all add: calmR install_ok_flip)
  have marks: "keeps ?P (case failed_to of None \<Rightarrow> ret ()
      | Some failed \<Rightarrow> andThen (record_failed_target failed) (\<lambda>_.
          record_update_failure (strip_v prev) (strip_v failed) reason))"
    by (auto split: option.split intro!: keeps_simple keeps_andThen keeps_records install_ok_markers)
  have rest: "keeps ?P (andThen (remove_if_present trial_slot) (\<lambda>_. andThen (best_effort fsync_path) (\<lambda>_. ret True)))"
    by (intro keeps_andThen r keeps_best_effort keeps_fsync keeps_simple) simp_all
  show ?thesis
    unfolding keeps_def perform_trial_rollback_def
  proof (rule triple_andThen [where R = "\<lambda>b s. ?P s \<and> (b \<longrightarrow> is_installed_version (env_semver env) prev s)"])
    show "triple ?P (look (is_installed_version (env_semver env) prev))
       (\<lambda>b s. ?P s \<and> (b \<longrightarrow> is_installed_version (env_semver env) prev s)) ?P"
      by (simp add: triple_look)
    fix b
    show "triple (\<lambda>s. ?P s \<and> (b \<longrightarrow> is_installed_version (env_semver env) prev s))
        (if \<not> b then ret False else andThen (remove_if_present bootfails_slot) (\<lambda>_.
          andThen (flip_current_to prev) (\<lambda>_. andThen (case failed_to of None \<Rightarrow> ret ()
            | Some failed \<Rightarrow> andThen (record_failed_target failed) (\<lambda>_.
                record_update_failure (strip_v prev) (strip_v failed) reason)) (\<lambda>_.
          andThen (remove_if_present trial_slot) (\<lambda>_. andThen (best_effort fsync_path) (\<lambda>_. ret True)))))) (\<lambda>_. ?P) ?P"
    proof (cases b)
      case True
      have "triple ?R (remove_if_present bootfails_slot) (\<lambda>_. ?R) ?P"
        using r(2) unfolding keeps_def by (rule triple_weaken) simp_all
      moreover have "triple ?P (andThen (case failed_to of None \<Rightarrow> ret ()
            | Some failed \<Rightarrow> andThen (record_failed_target failed) (\<lambda>_.
                record_update_failure (strip_v prev) (strip_v failed) reason)) (\<lambda>_.
          andThen (remove_if_present trial_slot) (\<lambda>_. andThen (best_effort fsync_path) (\<lambda>_. ret True)))) (\<lambda>_. ?P) ?P"
        using keeps_andThen [OF marks rest] unfolding keeps_def .
      ultimately show ?thesis
        using True flip by (simp add: triple_andThen)
    qed (simp add: triple_ret)
  qed
qed

lemma keeps_boot_rollback: "keeps (install_ok (env_semver env)) (boot_rollback_if_spent env c)"
proof -
  let ?P = "install_ok (env_semver env)"
  have r: "keeps ?P (remove_if_present trial_slot)" "keeps ?P (remove_if_present bootfails_slot)"
    by (rule keeps_remove; simp add: calm_install_ok install_ok_markers)+
  have clear: "keeps ?P (andThen (remove_if_present trial_slot) (\<lambda>_.
       andThen (remove_if_present bootfails_slot) (\<lambda>_. andThen (best_effort fsync_path) (\<lambda>_. ret None))))"
    by (intro keeps_andThen r keeps_best_effort keeps_fsync keeps_simple calm_install_ok)
  have roll: "keeps ?P (andThen (perform_trial_rollback env prev f reason) (\<lambda>rolled. ret (if rolled then Some prev else None)))"
    for prev f reason
    by (intro keeps_andThen keeps_perform_rollback keeps_simple)
  show ?thesis
    unfolding boot_rollback_if_spent_def boot_rollback_body_def
    by (intro keeps_with_boot_lock keeps_andThen keeps_simple)
      (auto split: prod.split option.split intro!: keeps_simple clear roll)
qed

lemma keeps_force_rollback: "keeps (install_ok (env_semver env)) (force_rollback_trial env c v)"
proof -
  have roll: "keeps (install_ok (env_semver env))
      (andThen (perform_trial_rollback env prev f reason) (\<lambda>rolled. ret (if rolled then Some prev else None)))"
    for prev f reason
    by (intro keeps_andThen keeps_perform_rollback keeps_simple)
  show ?thesis
    unfolding force_rollback_trial_def force_rollback_trial_body_def
    by (intro keeps_with_boot_lock keeps_andThen keeps_simple)
      (auto split: prod.split option.split intro!: keeps_simple roll)
qed

lemma rollback_target_installed:
  "rollback_target env s = Inr prev \<Longrightarrow> is_installed_version (env_semver env) prev s"
  by (auto simp: rollback_target_def split: if_splits option.splits)

lemma keeps_rollback: "keeps (install_ok (env_semver env)) (rollback env)"
proof -
  let ?P = "install_ok (env_semver env)" and ?I = "is_installed_version (env_semver env)"
  have r: "keeps ?P (remove_if_present trial_slot)" "keeps ?P (remove_if_present bootfails_slot)"
    by (rule keeps_remove; simp add: calm_install_ok install_ok_markers)+
  have marks: "keeps ?P (record_failed_target f)" for f
    by (rule keeps_records) (simp_all add: calm_install_ok install_ok_markers)
  have tail: "keeps ?P (andThen (remove_if_present trial_slot) (\<lambda>_. andThen (remove_if_present bootfails_slot) (\<lambda>_.
      andThen (case failed_to of None \<Rightarrow> ret () | Some f \<Rightarrow> record_failed_target f) (\<lambda>_. ret prev))))" for failed_to and prev :: string
    by (intro keeps_andThen r keeps_simple) (auto split: option.split intro: keeps_simple marks)
  have flip: "triple (\<lambda>s. ?P s \<and> ?I prev s) (flip_current_to prev) (\<lambda>_. ?P) ?P" for prev
    by (rule triple_flip) (simp_all add: calm_conj calm_installed calm_install_ok install_ok_flip)
  show ?thesis
    unfolding keeps_def rollback_def
  proof (intro triple_andThen)
    show "triple ?P (look (\<lambda>s. map_option tm_to (read_trial s))) (\<lambda>_. ?P) ?P" by (simp add: triple_look)
    show "triple ?P (look (rollback_target env)) (\<lambda>r s. ?P s \<and> (\<forall>prev. r = Inr prev \<longrightarrow> ?I prev s)) ?P"
      by (simp add: triple_look rollback_target_installed)
    show "triple (\<lambda>s. ?P s \<and> (\<forall>prev. r = Inr prev \<longrightarrow> ?I prev s)) (lift_result r) (\<lambda>prev s. ?P s \<and> ?I prev s) ?P" for r
      by (rule triple_lift_result) simp_all
    show "triple (\<lambda>s. ?P s \<and> ?I prev s) (flip_current_to prev) (\<lambda>_. ?P) ?P" for prev by (rule flip)
    show "triple ?P (remove_if_present trial_slot) (\<lambda>_. ?P) ?P" "triple ?P (remove_if_present bootfails_slot) (\<lambda>_. ?P) ?P"
      using r by (simp_all add: keeps_def)
    show "triple ?P (case failed_to of None \<Rightarrow> ret () | Some f \<Rightarrow> record_failed_target f) (\<lambda>_. ?P) ?P" for failed_to
      using marks by (simp add: keeps_def triple_ret split: option.split)
    show "triple ?P (ret prev) (\<lambda>_. ?P) ?P" for prev :: string by (simp add: triple_ret)
  qed
qed

subsection \<open>Pruning\<close>

lemma keep_set_views [simp]:
  "keep_set (s\<lparr>faults := fs\<rparr>) = keep_set s" "keep_set (s\<lparr>entries := en\<rparr>) = keep_set s"
  by (simp_all add: keep_set_def)

text \<open>Only versions outside the keep set are touched, and the set holds \<open>current\<close> and the way back.\<close>

definition spared :: "Install \<Rightarrow> string list \<Rightarrow> bool" where
  "spared s names \<longleftrightarrow> (\<forall>n \<in> set names. to_ascii_lowercase n \<notin> set (keep_set s))"

lemma prune_plan_spares: "prune_plan env s = Inr names \<Longrightarrow> spared s names"
  by (auto simp: prune_plan_def spared_def split: if_splits)

lemma kept_names:
  "current_target s = Some v \<Longrightarrow> to_ascii_lowercase v \<in> set (keep_set s)"
  "Option.bind (read_trial s) tm_prev = Some p \<Longrightarrow> to_ascii_lowercase p \<in> set (keep_set s)"
  by (simp_all add: keep_set_def)

lemma installed_other_entry:
  "v \<noteq> n \<Longrightarrow> is_installed_version sv v (s\<lparr>entries := AList.update n e (entries s)\<rparr>) = is_installed_version sv v s"
  "v \<noteq> n \<Longrightarrow> is_installed_version sv v (s\<lparr>entries := AList.delete n (entries s)\<rparr>) = is_installed_version sv v s"
  by (simp_all add: is_installed_version_def update_conv delete_conv)

lemma install_ok_spared:
  assumes "install_ok sv s" "to_ascii_lowercase n \<notin> set (keep_set s)"
  shows "install_ok sv (s\<lparr>entries := AList.update n e (entries s)\<rparr>)"
    "install_ok sv (s\<lparr>entries := AList.delete n (entries s)\<rparr>)"
proof -
  have "v \<noteq> n" if "current_target s = Some v \<or> Option.bind (read_trial s) tm_prev = Some v" for v
    using that kept_names [of s v] assms(2) by auto
  then show "install_ok sv (s\<lparr>entries := AList.update n e (entries s)\<rparr>)"
    "install_ok sv (s\<lparr>entries := AList.delete n (entries s)\<rparr>)"
    using assms(1) by (auto simp: install_ok_def installed_other_entry split: option.splits)
qed

lemma keeps_remove_dirs:
  assumes "\<And>n. n \<in> set names \<Longrightarrow> to_ascii_lowercase n \<notin> set K"
  shows "keeps (\<lambda>s. install_ok sv s \<and> keep_set s = K) (remove_dirs names)"
  using assms
proof (induction names)
  case (Cons n names)
  let ?P = "\<lambda>s. install_ok sv s \<and> keep_set s = K"
  have "calm ?P" using calm_install_ok [of sv] by (simp add: calm_def)
  note st = keeps_step [OF this]
  show ?case
    unfolding remove_dirs.simps
  proof (intro keeps_andThen)
    show "keeps ?P (step (\<lambda>s. s\<lparr>entries := AList.update n (Directory []) (entries s)\<rparr>))"
      "keeps ?P (step (\<lambda>s. s\<lparr>entries := AList.delete n (entries s)\<rparr>))"
      using Cons.prems by (auto intro!: st install_ok_spared)
    show "keeps ?P (remove_dirs names)" using Cons by simp
  qed
qed (simp add: keeps_simple)

lemma keeps_prune: "keeps (install_ok (env_semver env)) (prune_versions env)"
proof -
  let ?P = "install_ok (env_semver env)"
  have remove: "triple (\<lambda>s. ?P s \<and> spared s names) (remove_dirs names) (\<lambda>_. ?P) ?P" for names
  proof (rule triple_cases)
    fix s0 assume s0: "?P s0 \<and> spared s0 names"
    then have "triple (\<lambda>s. ?P s \<and> keep_set s = keep_set s0) (remove_dirs names)
        (\<lambda>_ s. ?P s \<and> keep_set s = keep_set s0) (\<lambda>s. ?P s \<and> keep_set s = keep_set s0)"
      using keeps_remove_dirs [of names "keep_set s0"] by (simp add: keeps_def spared_def)
    then show "triple (\<lambda>s. s = s0) (remove_dirs names) (\<lambda>_. ?P) ?P"
      by (rule triple_weaken) (use s0 in simp_all)
  qed
  show ?thesis
    unfolding keeps_def prune_versions_def
  proof (intro triple_andThen)
    show "triple ?P (look (prune_plan env)) (\<lambda>r s. ?P s \<and> (\<forall>names. r = Inr names \<longrightarrow> spared s names)) ?P"
      by (rule triple_look) (simp add: prune_plan_spares)
    show "triple (\<lambda>s. ?P s \<and> (\<forall>names. r = Inr names \<longrightarrow> spared s names)) (lift_result r) (\<lambda>names s. ?P s \<and> spared s names) ?P" for r
      by (rule triple_lift_result) simp_all
    show "triple (\<lambda>s. ?P s \<and> spared s names) (remove_dirs names) (\<lambda>_. ?P) ?P" for names by (rule remove)
    show "triple ?P (ret names) (\<lambda>_. ?P) ?P" for names :: "string list" by (simp add: triple_ret)
  qed
qed

subsection \<open>Stage and flip\<close>

lemma eligible_is_other:
  assumes "\<And>v. cmp_precedence (env_semver env) v v = Equal"
    "evaluate_eligibility (env_semver env) (installed_identity env s) m allow = Inr ()"
  shows "current_target s \<noteq> Some (version_name (um_version m))" "is_version_dir_name (env_semver env) (version_name (um_version m))"
proof -
  have "um_version m \<noteq> bi_version (installed_identity env s)"
    using assms by (auto simp: evaluate_eligibility_def Let_def split: if_splits)
  then show "current_target s \<noteq> Some (version_name (um_version m))"
    by (auto simp: installed_identity_def version_name_def Let_def)
  show "is_version_dir_name (env_semver env) (version_name (um_version m))"
    using assms(2) by (auto simp: evaluate_eligibility_def is_version_dir_name_def version_name_def Let_def split: if_splits)
qed

lemma put_file_fields [simp]:
  "current_target (put_file v n nd s) = current_target s" "read_trial (put_file v n nd s) = read_trial s"
  "faults (put_file v n nd s) = faults s" "current (put_file v n nd s) = current s"
  by (simp_all add: put_file_def split: option.split BinEntry.split)

lemma put_file_faults: "put_file v n nd (s\<lparr>faults := fs\<rparr>) = (put_file v n nd s)\<lparr>faults := fs\<rparr>"
  by (simp add: put_file_def split: option.split BinEntry.split)

lemma put_file_other:
  "w \<noteq> v \<Longrightarrow> is_installed_version sv w (put_file v n nd s) = is_installed_version sv w s"
  by (simp add: put_file_def installed_other_entry split: option.split BinEntry.split)

text \<open>While a version is published: nobody runs it and no trial is under way.\<close>

definition publishing :: "Semver \<Rightarrow> string \<Rightarrow> Install \<Rightarrow> bool" where
  "publishing sv v s \<longleftrightarrow> install_ok sv s \<and> read_trial s = None \<and> current_target s \<noteq> Some v"

definition dir_of :: "string \<Rightarrow> Install \<Rightarrow> files option" where
  "dir_of v s = (case map_of (entries s) v of Some (Directory fs) \<Rightarrow> Some fs | _ \<Rightarrow> None)"

definition runnable :: "string \<Rightarrow> Install \<Rightarrow> bool" where
  "runnable v s = (case dir_of v s of Some fs \<Rightarrow> require_regular_exec fs | None \<Rightarrow> False)"

lemma installed_runnable: "is_installed_version sv v s \<longleftrightarrow> is_version_dir_name sv v \<and> runnable v s"
  by (simp add: is_installed_version_def runnable_def dir_of_def split: option.split BinEntry.split)

lemma dir_of_views [simp]:
  "dir_of v (s\<lparr>faults := fs\<rparr>) = dir_of v s" "runnable v (s\<lparr>faults := fs\<rparr>) = runnable v s"
  by (simp_all add: dir_of_def runnable_def)

lemma dir_of_put: "dir_of v (put_file v n nd s) = map_option (AList.update n nd) (dir_of v s)"
  by (simp add: dir_of_def put_file_def update_conv split: option.split BinEntry.split)

lemma publishing_put:
  assumes "publishing sv v s"
  shows "publishing sv v (put_file v n nd s)"
  using assms by (auto simp: publishing_def install_ok_def put_file_other split: option.splits)

lemma publishing_calm: "calm (publishing sv v)"
  using calm_install_ok [of sv] by (simp add: calm_def publishing_def)

lemma publishing_ok: "publishing sv v s \<Longrightarrow> install_ok sv s"
  by (simp add: publishing_def)

lemma publishing_new_dir:
  assumes "publishing sv v s"
  shows "publishing sv v (s\<lparr>entries := (v, Directory []) # entries s\<rparr>)"
proof -
  have "is_installed_version sv w (s\<lparr>entries := (v, Directory []) # entries s\<rparr>) = is_installed_version sv w s" if "w \<noteq> v" for w
    using that by (simp add: is_installed_version_def)
  then show ?thesis using assms by (auto simp: publishing_def install_ok_def split: option.splits)
qed

definition staged :: "Semver \<Rightarrow> string \<Rightarrow> bool \<Rightarrow> Install \<Rightarrow> bool" where
  "staged sv v b s \<longleftrightarrow> publishing sv v s \<and> dir_of v s \<noteq> None \<and> (b \<longrightarrow> runnable v s)"

lemma staged_calm: "calm (staged sv v b)"
  using publishing_calm [of sv v] by (simp add: calm_def staged_def)

lemma staged_ok: "staged sv v b s \<Longrightarrow> install_ok sv s"
  by (auto simp: staged_def publishing_def)

lemma staged_put:
  assumes "staged sv v b s" "n = ''higgs'' \<Longrightarrow> \<exists>t. nd = Regular t True"
  shows "staged sv v (b \<or> n = ''higgs'') (put_file v n nd s)"
proof -
  obtain fs where "dir_of v s = Some fs" using assms(1) by (auto simp: staged_def)
  then show ?thesis
    using assms publishing_put [of sv v s n nd]
    by (auto simp: staged_def dir_of_put runnable_def require_regular_exec_def update_conv)
qed

lemma staged_rename:
  assumes "n = ''higgs'' \<Longrightarrow> \<exists>t. nd = Regular t True"
  shows "triple (staged sv v b) (rename_into v n nd) (\<lambda>_. staged sv v (b \<or> n = ''higgs'')) (install_ok sv)"
  unfolding rename_into_def
proof (intro triple_andThen)
  show "triple (staged sv v b) (look (node_at v n)) (\<lambda>_. staged sv v b) (install_ok sv)" by (simp add: triple_look)
  show "triple (staged sv v b) (require (old \<noteq> Some Folder) e) (\<lambda>_. staged sv v b) (install_ok sv)" for old e
    by (rule triple_require) (simp_all add: staged_ok)
  show "triple (staged sv v b) (step (put_file v n nd)) (\<lambda>_. staged sv v (b \<or> n = ''higgs'')) (install_ok sv)"
    by (rule triple_step) (simp_all add: staged_calm staged_put assms staged_ok)
qed

lemma staged_idle: "triple (staged sv v b) (step id) (\<lambda>_. staged sv v b) (install_ok sv)"
  by (rule triple_step) (simp_all add: staged_calm staged_ok)

lemma staged_publish:
  assumes "\<And>n nd. (n, nd) \<in> set fs \<Longrightarrow> n = ''higgs'' \<Longrightarrow> \<exists>t. nd = Regular t True"
  shows "triple (staged sv v b) (publish_files v fs) (\<lambda>_. staged sv v (b \<or> ''higgs'' \<in> fst ` set fs)) (install_ok sv)"
  using assms
proof (induction fs arbitrary: b)
  case (Cons f fs)
  obtain n nd where f: "f = (n, nd)" by fastforce
  have higgs: "n = ''higgs'' \<Longrightarrow> \<exists>t. nd = Regular t True" using Cons.prems [of n nd] by (simp add: f)
  show ?case
    unfolding f publish_files.simps
  proof (intro triple_andThen)
    show "triple (staged sv v b) fsync_path (\<lambda>_. staged sv v b) (install_ok sv)"
      unfolding fsync_path_def by (rule staged_idle)
    show "triple (staged sv v b) (rename_into v n nd) (\<lambda>_. staged sv v (b \<or> n = ''higgs'')) (install_ok sv)"
      by (rule staged_rename [OF higgs])
    have "triple (staged sv v (b \<or> n = ''higgs'')) (publish_files v fs)
        (\<lambda>_. staged sv v ((b \<or> n = ''higgs'') \<or> ''higgs'' \<in> fst ` set fs)) (install_ok sv)"
      using Cons.prems by (intro Cons.IH) auto
    then show "triple (staged sv v (b \<or> n = ''higgs'')) (publish_files v fs)
        (\<lambda>_. staged sv v (b \<or> ''higgs'' \<in> fst ` set ((n, nd) # fs))) (install_ok sv)"
      by (rule triple_weaken) (auto simp: staged_def)
  qed
qed (simp add: triple_ret)

text \<open>What a staged archive is, once it passed the checks.\<close>

definition good_files :: "files \<Rightarrow> bool" where
  "good_files fs \<longleftrightarrow> ''higgs'' \<in> fst ` set fs \<and> (\<forall>n nd. (n, nd) \<in> set fs \<longrightarrow> n = ''higgs'' \<longrightarrow> (\<exists>t. nd = Regular t True))"

lemma normalized_good:
  assumes "require_regular_exec fs" "normalize_published_modes fs = Inr fs'"
  shows "good_files fs'"
proof -
  have fs': "fs' = map normal_mode fs" and reg: "list_all (\<lambda>(n, nd). is_regular nd) fs"
    using assms(2) by (auto simp: normalize_published_modes_def split: if_splits)
  have name: "fst (normal_mode f) = fst f" for f by (cases f; cases "snd f") auto
  have "''higgs'' \<in> fst ` set fs"
    using assms(1) by (force simp: require_regular_exec_def split: option.splits dest: map_of_SomeD)
  moreover have "fst ` set fs' = fst ` set fs" by (simp add: fs' image_image name)
  moreover have "\<exists>t. nd = Regular t True" if f: "(n, nd) \<in> set fs'" "n = ''higgs''" for n nd
  proof -
    from f(1) obtain n0 nd0 where o: "(n0, nd0) \<in> set fs" "normal_mode (n0, nd0) = (n, nd)"
      by (auto simp: fs')
    with reg have "is_regular nd0" by (auto simp: list_all_iff)
    with o(2) f(2) show ?thesis by (cases nd0) auto
  qed
  ultimately show ?thesis by (simp add: good_files_def)
qed

lemma stage_guards_triple:
  assumes "\<And>v. cmp_precedence (env_semver env) v v = Equal"
  shows "triple (install_ok (env_semver env)) (stage_guards env m allow)
    (\<lambda>_ s. publishing (env_semver env) (version_name (um_version m)) s \<and>
       is_version_dir_name (env_semver env) (version_name (um_version m))) (install_ok (env_semver env))"
proof -
  let ?v = "version_name (um_version m)"
  let ?P = "install_ok (env_semver env)" and ?R = "\<lambda>s. install_ok (env_semver env) s \<and> read_trial s = None"
  have calmR: "calm ?R" using calm_install_ok [of "env_semver env"] by (simp add: calm_def)
  have r1: "triple ?P (remove_if_present trial_slot) (\<lambda>_. ?R) ?P"
    unfolding remove_if_present_def
    by (rule triple_andThen [where R = "\<lambda>_. ?P"], simp add: triple_look, rule triple_andThen [where R = "\<lambda>_. ?P"],
        simp add: triple_require, rule triple_step) (simp_all add: calm_install_ok install_ok_markers)
  have r2: "triple ?R (remove_if_present bootfails_slot) (\<lambda>_. ?R) ?P"
    using keeps_remove [OF calmR, of bootfails_slot] unfolding keeps_def
    by (rule triple_weaken) (simp_all add: install_ok_markers)
  have clear: "triple (\<lambda>s. ?P s \<and> read_trial s = t) (case t of None \<Rightarrow> ret ()
      | Some t \<Rightarrow> if Some (tm_to t) = cur then fail e
          else andThen (remove_if_present trial_slot) (\<lambda>_. remove_if_present bootfails_slot)) (\<lambda>_. ?R) ?P" for t cur e
  proof (cases t)
    case (Some tm)
    have "triple ?P (andThen (remove_if_present trial_slot) (\<lambda>_. remove_if_present bootfails_slot)) (\<lambda>_. ?R) ?P"
      by (rule triple_andThen [OF r1 r2])
    then have "triple (\<lambda>s. ?P s \<and> read_trial s = t)
        (andThen (remove_if_present trial_slot) (\<lambda>_. remove_if_present bootfails_slot)) (\<lambda>_. ?R) ?P"
      by (rule triple_weaken) simp_all
    then show ?thesis unfolding Some option.case by (cases "Some (tm_to tm) = cur") (auto intro: triple_fail)
  qed (simp add: triple_ret)
  let ?ident = "\<lambda>i s. ?R s \<and> i = installed_identity env s"
  let ?other = "\<lambda>_ s. publishing (env_semver env) ?v s \<and> is_version_dir_name (env_semver env) ?v"
  show ?thesis
    unfolding stage_guards_def
  proof (intro triple_andThen)
    show "triple ?P (require (env_tree_safe env) e) (\<lambda>_. ?P) ?P" for e by (simp add: triple_require)
    show "triple ?P (look (\<lambda>s. (read_trial s, current_target s))) (\<lambda>tc s. ?P s \<and> read_trial s = fst tc) ?P"
      by (simp add: triple_look)
    fix tc :: "TrialMarker option \<times> string option"
    show "triple (\<lambda>s. ?P s \<and> read_trial s = fst tc) (case tc of (t, cur) \<Rightarrow>
       andThen (case t of None \<Rightarrow> ret ()
         | Some t \<Rightarrow> if Some (tm_to t) = cur then fail (UpdateApplyFailed ''a previous self-update is still on trial'')
           else andThen (remove_if_present trial_slot) (\<lambda>_. remove_if_present bootfails_slot)) (\<lambda>_.
       andThen (look (installed_identity env)) (\<lambda>ident.
       andThen (lift_result (evaluate_eligibility (env_semver env) ident m allow)) (\<lambda>_.
       andThen (look (is_failed_target (version_name (um_version m)))) (\<lambda>bad.
         require (\<not> bad) (UpdateApplyFailed ''previously failed its boot trial'')))))) ?other ?P"
    proof (cases tc)
      case (Pair t cur)
      have a: "triple ?R (look (installed_identity env)) ?ident ?P" by (simp add: triple_look)
      have b: "triple (?ident i) (lift_result (evaluate_eligibility (env_semver env) i m allow)) ?other ?P" for i
        by (rule triple_lift_result) (use eligible_is_other [OF assms(1)] in \<open>auto simp: publishing_def\<close>)
      have c: "triple (?other ()) (look (is_failed_target (version_name (um_version m)))) ?other ?P"
        by (simp add: triple_look)
      have d: "triple (?other ()) (require (\<not> bad) e) ?other ?P" for bad e
        by (rule triple_require) (auto dest: publishing_ok)
      show ?thesis
        unfolding Pair prod.case fst_conv
        by (intro triple_andThen [OF clear] triple_andThen [OF a] triple_andThen [OF b] triple_andThen [OF c] d)
    qed
  qed
qed

lemma stage_files_triple:
  assumes "calm P" "\<And>s. P s \<Longrightarrow> E s"
  shows "triple P (stage_files env m artifact) (\<lambda>fs s. P s \<and> good_files fs) E"
  unfolding stage_files_def
proof (intro triple_andThen)
  show "triple P (step id) (\<lambda>_. P) E" by (rule triple_step) (simp_all add: assms)
  show "triple P (lift_result r) (\<lambda>_. P) E" for r :: "HiggsError + files"
    by (rule triple_lift_result) (simp_all add: assms(2))
  show "triple P (step id) (\<lambda>_. P) E" by (rule triple_step) (simp_all add: assms)
  show "triple P (require (require_regular_exec fs) e) (\<lambda>_ s. P s \<and> require_regular_exec fs) E" for fs e
    by (rule triple_require) (simp_all add: assms(2))
  show "triple (\<lambda>s. P s \<and> require_regular_exec fs) (lift_result (normalize_published_modes fs)) (\<lambda>fs s. P s \<and> good_files fs) E" for fs
    by (rule triple_lift_result) (auto simp: assms(2) intro: normalized_good)
  show "triple (\<lambda>s. P s \<and> good_files fs) (step id) (\<lambda>_ s. P s \<and> good_files fs) E" for fs
    by (rule triple_step) (use assms in \<open>auto simp: calm_def\<close>)
  show "triple (\<lambda>s. P s \<and> good_files fs) (lift_result (smoke_ok env (um_version m) fs)) (\<lambda>_ s. P s \<and> good_files fs) E" for fs
    by (rule triple_lift_result) (simp_all add: assms(2))
  show "triple (\<lambda>s. P s \<and> good_files fs) (ret fs) (\<lambda>fs s. P s \<and> good_files fs) E" for fs
    by (simp add: triple_ret)
qed

lemma create_dir_triple: "triple (publishing sv v) (create_version_dir v) (\<lambda>_. staged sv v False) (install_ok sv)"
  unfolding create_version_dir_def
proof (rule triple_andThen)
  let ?R = "\<lambda>e s. publishing sv v s \<and> map_of (entries s) v = e"
  show "triple (publishing sv v) (look (\<lambda>s. map_of (entries s) v)) ?R (install_ok sv)" by (simp add: triple_look)
  have calmR: "calm (?R e)" for e using publishing_calm [of sv v] by (simp add: calm_def)
  have new: "triple (?R None) (step (\<lambda>s. s\<lparr>entries := (v, Directory []) # entries s\<rparr>)) (\<lambda>_. staged sv v False) (install_ok sv)"
    by (rule triple_step [OF calmR]) (auto simp: staged_def publishing_new_dir dir_of_def dest: publishing_ok)
  have old: "triple (?R (Some (Directory fs))) (step id) (\<lambda>_. staged sv v False) (install_ok sv)" for fs
    by (rule triple_step [OF calmR]) (auto simp: staged_def dir_of_def dest: publishing_ok)
  have no: "triple (?R e) (fail x) (\<lambda>_. staged sv v False) (install_ok sv)" for e x
    by (rule triple_fail) (auto dest: publishing_ok)
  show "triple (?R e) (case e of
         Some (LinkEntry _) \<Rightarrow> fail (UpdateApplyFailed ''is a symlink, refusing to publish through it'')
       | Some FileEntry \<Rightarrow> fail (UpdateApplyFailed ''cannot create version dir'')
       | Some (Directory _) \<Rightarrow> step id
       | None \<Rightarrow> step (\<lambda>s. s\<lparr>entries := (v, Directory []) # entries s\<rparr>)) (\<lambda>_. staged sv v False) (install_ok sv)" for e
  proof (cases e)
    case (Some d)
    show ?thesis
      unfolding Some option.case using no [of "Some d"] old by (cases d) simp_all
  qed (simp add: new)
qed

lemma publish_version_triple:
  assumes "good_files fs"
  shows "triple (publishing sv (version_name (um_version m))) (publish_version env m fs)
    (\<lambda>_. staged sv (version_name (um_version m)) True) (install_ok sv)"
proof -
  let ?v = "version_name (um_version m)"
  have files: "triple (staged sv ?v False) (publish_files ?v fs) (\<lambda>_. staged sv ?v True) (install_ok sv)"
    using staged_publish [of fs sv ?v False] assms by (simp add: good_files_def)
  have marker: "triple (staged sv ?v True) (rename_into ?v ''.variant'' nd) (\<lambda>_. staged sv ?v True) (install_ok sv)" for nd
    using staged_rename [of "''.variant''" nd sv ?v True] by simp
  show ?thesis
    unfolding publish_version_def Let_def
  proof (intro triple_andThen)
    show "triple (publishing sv ?v) (create_version_dir ?v) (\<lambda>_. staged sv ?v False) (install_ok sv)"
      by (rule create_dir_triple)
    show "triple (staged sv ?v False) (step id) (\<lambda>_. staged sv ?v False) (install_ok sv)" by (rule staged_idle)
    show "triple (staged sv ?v False) (require (env_acl_safe env) e) (\<lambda>_. staged sv ?v False) (install_ok sv)" for e
      by (rule triple_require) (auto dest: staged_ok)
    show "triple (staged sv ?v True) (step id) (\<lambda>_. staged sv ?v True) (install_ok sv)" by (rule staged_idle)
    show "triple (staged sv ?v True) fsync_path (\<lambda>_. staged sv ?v True) (install_ok sv)"
      "triple (staged sv ?v True) fsync_path (\<lambda>_. staged sv ?v True) (install_ok sv)"
      unfolding fsync_path_def by (rule staged_idle)+
  qed (rule files marker)+
qed

text \<open>From here on the new version counts as installed, and the marker keeps the way back.\<close>

lemma flip_to_trial_triple:
  defines "good \<equiv> \<lambda>env m s. install_ok (env_semver env) s \<and> is_installed_version (env_semver env) (version_name (um_version m)) s"
  shows "triple (good env m) (flip_to_trial env m allow) (\<lambda>_. install_ok (env_semver env)) (install_ok (env_semver env))"
proof -
  let ?P = "install_ok (env_semver env)" and ?v = "version_name (um_version m)"
  have calmG: "calm (good env m)" unfolding good_def by (intro calm_conj calm_install_ok calm_installed)
  have imp: "good env m s \<Longrightarrow> ?P s" for s by (simp add: good_def)
  let ?G = "\<lambda>prev s. good env m s \<and> prev = current_target s"
  have calmC: "calm (?G prev)" for prev using calmG by (simp add: calm_def)
  have mark: "?G prev s \<Longrightarrow> good env m (s\<lparr>trial := Holds \<lparr>tm_to = ?v, tm_prev = prev\<rparr>\<rparr>)" for prev s
    by (auto simp: good_def install_ok_def split: option.splits)
  have "triple (?G prev) (write_atomic trial_slot \<lparr>tm_to = ?v, tm_prev = prev\<rparr>) (\<lambda>_. good env m) ?P" for prev
    unfolding write_atomic_def fst_conv snd_conv
  proof (intro triple_andThen)
    show "triple (?G prev) (step id) (\<lambda>_. ?G prev) ?P" by (rule triple_step [OF calmC]) (auto dest: imp)
    show "triple (?G prev) (look trial) (\<lambda>_. ?G prev) ?P" by (simp add: triple_look)
    show "triple (?G prev) (require (old \<noteq> Blocked) e) (\<lambda>_. ?G prev) ?P" for old :: "TrialMarker Slot" and e
      by (rule triple_require) (auto dest: imp)
    show "triple (?G prev) (step (trial_update (\<lambda>_. Holds \<lparr>tm_to = ?v, tm_prev = prev\<rparr>))) (\<lambda>_. good env m) ?P"
      by (rule triple_step [OF calmC]) (auto dest: imp intro: mark)
    show "triple (good env m) fsync_path (\<lambda>_. good env m) ?P"
      unfolding fsync_path_def by (rule triple_step [OF calmG]) (auto dest: imp)
  qed
  moreover have "triple (good env m) (remove_if_present bootfails_slot) (\<lambda>_. good env m) ?P"
    using keeps_remove [OF calmG, of bootfails_slot] unfolding keeps_def
    by (rule triple_weaken) (auto simp: good_def install_ok_markers)
  moreover have "triple (good env m) (flip_current_to ?v) (\<lambda>_. ?P) ?P"
    by (rule triple_flip [OF calmG calm_install_ok]) (simp_all add: good_def install_ok_flip)
  moreover have "triple ?P clear_update_failure (\<lambda>_. ?P) ?P"
    using keeps_records(3) [OF calm_install_ok] unfolding keeps_def by (simp add: install_ok_markers)
  moreover have "triple (good env m) (look (installed_identity env)) (\<lambda>_. good env m) ?P"
    "triple (good env m) (look current_target) ?G ?P" by (simp_all add: triple_look)
  moreover have "triple (good env m) (lift_result r) (\<lambda>_. good env m) ?P" for r :: "HiggsError + unit"
    by (rule triple_lift_result) (auto dest: imp)
  ultimately show ?thesis unfolding flip_to_trial_def Let_def by (intro triple_andThen)
qed

lemma keeps_stage_and_flip:
  assumes "\<And>v. cmp_precedence (env_semver env) v v = Equal"
  shows "keeps (install_ok (env_semver env)) (stage_and_flip env m artifact allow)"
proof -
  let ?sv = "env_semver env" and ?v = "version_name (um_version m)"
  let ?B = "\<lambda>s. publishing ?sv ?v s \<and> is_version_dir_name ?sv ?v"
  have calmB: "calm ?B" using publishing_calm [of ?sv ?v] by (simp add: calm_def)
  have files: "triple ?B (stage_files env m artifact) (\<lambda>fs s. ?B s \<and> good_files fs) (install_ok ?sv)"
    by (rule stage_files_triple [OF calmB]) (auto dest: publishing_ok)
  have publish: "triple (\<lambda>s. ?B s \<and> good_files fs) (publish_version env m fs)
      (\<lambda>_ s. install_ok ?sv s \<and> is_installed_version ?sv ?v s) (install_ok ?sv)" for fs
  proof (cases "good_files fs \<and> is_version_dir_name ?sv ?v")
    case True
    then have "triple (publishing ?sv ?v) (publish_version env m fs) (\<lambda>_. staged ?sv ?v True) (install_ok ?sv)"
      by (intro publish_version_triple) simp
    then show ?thesis
      by (rule triple_weaken) (use True in \<open>auto simp: staged_def installed_runnable publishing_def\<close>)
  qed (auto simp: triple_def)
  show ?thesis
    unfolding keeps_def stage_and_flip_def
    by (intro triple_andThen [OF stage_guards_triple [OF assms]] triple_andThen [OF files] triple_andThen [OF publish]
        flip_to_trial_triple)
qed

end
