(* ===== verification/Update_Recovery.thy ===== *)
theory Update_Recovery
  imports Update_Install_Props
begin

text \<open>
  The promises of an install, over its operations: what they keep, what may move \<open>current\<close>, how a
  crash loop ends and what the maintenance operations do.
\<close>

subsection \<open>The operations\<close>

datatype install_op =
    BootRollback LockCalls
  | RecordBoot LockCalls string
  | ForceRollback LockCalls string
  | ConfirmAlive LockCalls string
  | RollbackOp LockCalls
  | PruneOp LockCalls
  | ApplyOp LockCalls UpdateManifest string bool
  | NoteFailure string string "nat list"

definition discard :: "'a fs \<Rightarrow> unit fs" where
  "discard m = andThen m (\<lambda>_. ret ())"

text \<open>The maintenance operations and an update run under the lock, or not at all.\<close>

fun run_op :: "Surroundings \<Rightarrow> install_op \<Rightarrow> unit fs" where
  "run_op env (BootRollback c) = discard (boot_rollback_if_spent env c)"
| "run_op env (RecordBoot c v) = record_boot_attempt c v"
| "run_op env (ForceRollback c v) = discard (force_rollback_trial env c v)"
| "run_op env (ConfirmAlive c v) = confirm_alive c v"
| "run_op env (RollbackOp c) = andThen (lift_result (acquire_update_lock c)) (\<lambda>_. discard (rollback env))"
| "run_op env (PruneOp c) = andThen (lift_result (acquire_update_lock c)) (\<lambda>_. discard (prune_versions env))"
| "run_op env (ApplyOp c m artifact allow) =
     andThen (lift_result (acquire_update_lock c)) (\<lambda>_. stage_and_flip env m artifact allow)"
| "run_op env (NoteFailure from target reason) = record_update_failure from target reason"

definition run_ops :: "Surroundings \<Rightarrow> install_op list \<Rightarrow> Install \<Rightarrow> Install" where
  "run_ops env ops s = fold (\<lambda>op s. snd (run_op env op s)) ops s"

lemma keeps_discard: "keeps P m \<Longrightarrow> keeps P (discard m)"
  unfolding discard_def by (intro keeps_andThen keeps_simple)

lemma keeps_run_op:
  assumes "\<And>v. cmp_precedence (env_semver env) v v = Equal"
  shows "keeps (install_ok (env_semver env)) (run_op env op)"
proof (cases op)
  case (RecordBoot c v)
  then show ?thesis by (simp add: keeps_record_boot_attempt calm_install_ok install_ok_markers)
next
  case (ConfirmAlive c v)
  then show ?thesis by (simp add: keeps_confirm_alive calm_install_ok install_ok_markers)
next
  case (NoteFailure a b r)
  then show ?thesis by (simp add: keeps_records calm_install_ok install_ok_markers)
qed (auto intro!: keeps_andThen keeps_discard keeps_simple keeps_boot_rollback keeps_force_rollback keeps_rollback
      keeps_prune keeps_stage_and_flip assms)

text \<open>C4. The service can always be started: if \<open>current\<close> names an installed version (a real
  directory of a semver name holding a regular executable \<open>higgs\<close>) and so does the way back of a
  recorded trial, then both still hold after any sequence of boots, confirmations, rollbacks,
  prunes, updates and failure reports, whichever system calls of these fail and wherever the
  process dies in between.
\<close>

theorem current_always_runnable:
  assumes "\<And>v. cmp_precedence (env_semver env) v v = Equal" "install_ok (env_semver env) s"
  shows "install_ok (env_semver env) (run_ops env ops s)"
  using assms(2)
proof (induction ops arbitrary: s)
  case (Cons op ops)
  have "install_ok (env_semver env) (snd (run_op env op s))"
    by (rule keepsD [OF keeps_run_op [OF assms(1)] Cons.prems])
  from Cons.IH [OF this] show ?case by (simp add: run_ops_def)
qed (simp add: run_ops_def)

subsection \<open>What moves \<open>current\<close>\<close>

definition way_back :: "Surroundings \<Rightarrow> Install \<Rightarrow> Link \<Rightarrow> bool" where
  "way_back env s l \<longleftrightarrow>
     (\<exists>t p. read_trial s = Some t \<and> trial_live t s \<and> tm_prev t = Some p \<and>
        is_installed_version (env_semver env) p s \<and> l = LinkTo p)"

text \<open>What an update has to show before it may become \<open>current\<close>.\<close>

definition admitted :: "Surroundings \<Rightarrow> UpdateManifest \<Rightarrow> bool \<Rightarrow> Install \<Rightarrow> bool" where
  "admitted env m allow s \<longleftrightarrow> env_tree_safe env \<and>
     evaluate_eligibility (env_semver env) (installed_identity env s) m allow = Inr () \<and>
     \<not> is_failed_target (version_name (um_version m)) s"

definition sound_archive :: "Surroundings \<Rightarrow> UpdateManifest \<Rightarrow> string \<Rightarrow> bool" where
  "sound_archive env m artifact \<longleftrightarrow>
     (\<exists>fs. env_unpack env artifact = Some fs \<and> require_regular_exec fs \<and>
        smoke_ok env (um_version m) (map normal_mode fs) = Inr ())"

fun justified :: "Surroundings \<Rightarrow> install_op \<Rightarrow> Install \<Rightarrow> Link \<Rightarrow> bool" where
  "justified env (BootRollback c) s l = (way_back env s l \<and> read_boot_fails s \<ge> BOOT_FAIL_BUDGET)"
| "justified env (ForceRollback c v) s l = (way_back env s l \<and> is_trial_pending_for v s)"
| "justified env (RollbackOp c) s l = way_back env s l"
| "justified env (ApplyOp c m artifact allow) s l =
     (l = LinkTo (version_name (um_version m)) \<and> try_acquire c = Held \<and>
      admitted env m allow s \<and> sound_archive env m artifact)"
| "justified env op s l = False"

text \<open>The state up to the markers and the schedule.\<close>

definition same :: "Install \<Rightarrow> Install \<Rightarrow> bool" where
  "same s0 s \<longleftrightarrow> current s = current s0 \<and> entries s = entries s0 \<and> poisoned s = poisoned s0"

lemma same_views:
  assumes "same s0 s"
  shows "current_target s = current_target s0" "is_installed_version sv v s = is_installed_version sv v s0"
    "installed_identity env s = installed_identity env s0" "is_failed_target v s = is_failed_target v s0"
    "current s = current s0"
  using assms
  by (simp_all add: same_def current_target_def is_installed_version_def installed_identity_def is_failed_target_def
      read_failed_targets_def)

lemma same_refl [simp]: "same s s"
  by (simp add: same_def)

lemma calm_same: "calm (same s0)"
  by (simp add: calm_def same_def)

lemma same_markers [simp]:
  "same s0 (s\<lparr>trial := tm\<rparr>) = same s0 s" "same s0 (s\<lparr>bootfails := bf\<rparr>) = same s0 s"
  "same s0 (s\<lparr>faults := fs\<rparr>) = same s0 s" "same s0 (s\<lparr>lastfail := lf\<rparr>) = same s0 s"
  by (simp_all add: same_def)

text \<open>A predicate about \<open>current\<close> alone.\<close>

lemma calm_current: "calm (\<lambda>s. G (current s))"
  by (simp add: calm_def)

lemma keeps_current:
  "keeps (\<lambda>s. G (current s)) (remove_if_present trial_slot)" "keeps (\<lambda>s. G (current s)) (remove_if_present bootfails_slot)"
  "keeps (\<lambda>s. G (current s)) (record_failed_target v)" "keeps (\<lambda>s. G (current s)) (record_update_failure a b r)"
  "keeps (\<lambda>s. G (current s)) clear_update_failure" "keeps (\<lambda>s. G (current s)) (confirm_alive c v)"
  "keeps (\<lambda>s. G (current s)) (record_boot_attempt c v)" "keeps (\<lambda>s. G (current s)) fsync_path"
  "keeps (\<lambda>s. G (current s)) (write_atomic trial_slot t)"
  by (simp_all add: keeps_remove keeps_records keeps_confirm_alive keeps_record_boot_attempt keeps_fsync
      keeps_write_atomic calm_current)

text \<open>A flip to \<open>v\<close> from the state \<open>s0\<close>.\<close>

lemma flip_moves:
  "triple (same s0) (flip_current_to v) (\<lambda>_ s. current s = LinkTo v) (\<lambda>s. current s = current s0 \<or> current s = LinkTo v)"
  by (rule triple_flip) (simp_all add: calm_same calm_current [of "\<lambda>l. l = LinkTo v"] same_views)

lemma perform_moves:
  "triple (\<lambda>s. same s0 s) (perform_trial_rollback env p failed_to reason)
     (\<lambda>_ s. current s = current s0 \<or> current s = LinkTo p \<and> is_installed_version (env_semver env) p s0)
     (\<lambda>s. current s = current s0 \<or> current s = LinkTo p \<and> is_installed_version (env_semver env) p s0)"
proof -
  let ?J = "\<lambda>s. current s = current s0 \<or> current s = LinkTo p \<and> is_installed_version (env_semver env) p s0"
  have k: "keeps ?J (remove_if_present trial_slot)" "keeps ?J (record_failed_target f)"
     "keeps ?J (record_update_failure a b r)" "keeps ?J fsync_path" for f a b r
    by (rule keeps_current)+
  have tail: "keeps ?J (andThen (case failed_to of None \<Rightarrow> ret ()
      | Some failed \<Rightarrow> andThen (record_failed_target failed) (\<lambda>_.
          record_update_failure (strip_v p) (strip_v failed) reason)) (\<lambda>_.
      andThen (remove_if_present trial_slot) (\<lambda>_. andThen (best_effort fsync_path) (\<lambda>_. ret True))))"
    by (auto split: option.split intro!: keeps_andThen keeps_simple keeps_best_effort k)
  have boot: "triple (same s0) (remove_if_present bootfails_slot) (\<lambda>_. same s0) ?J"
    using keeps_remove [OF calm_same [of s0], where l = bootfails_slot] unfolding keeps_def
    by (rule triple_weaken) (simp_all add: same_views)
  show ?thesis
    unfolding perform_trial_rollback_def
  proof (rule triple_andThen [where R = "\<lambda>b s. same s0 s \<and> b = is_installed_version (env_semver env) p s0"])
    show "triple (same s0) (look (is_installed_version (env_semver env) p))
        (\<lambda>b s. same s0 s \<and> b = is_installed_version (env_semver env) p s0) ?J"
      by (rule triple_look) (simp add: same_views)
    fix b
    show "triple (\<lambda>s. same s0 s \<and> b = is_installed_version (env_semver env) p s0)
        (if \<not> b then ret False else andThen (remove_if_present bootfails_slot) (\<lambda>_.
          andThen (flip_current_to p) (\<lambda>_. andThen (case failed_to of None \<Rightarrow> ret ()
            | Some failed \<Rightarrow> andThen (record_failed_target failed) (\<lambda>_.
                record_update_failure (strip_v p) (strip_v failed) reason)) (\<lambda>_.
          andThen (remove_if_present trial_slot) (\<lambda>_. andThen (best_effort fsync_path) (\<lambda>_. ret True)))))) (\<lambda>_. ?J) ?J"
    proof (cases "b \<and> is_installed_version (env_semver env) p s0")
      case True
      have flip: "triple (same s0) (flip_current_to p) (\<lambda>_. ?J) ?J"
        using flip_moves [of s0 p] by (rule triple_weaken) (use True in auto)
      have "triple (same s0) (andThen (remove_if_present bootfails_slot) (\<lambda>_.
          andThen (flip_current_to p) (\<lambda>_. andThen (case failed_to of None \<Rightarrow> ret ()
            | Some failed \<Rightarrow> andThen (record_failed_target failed) (\<lambda>_.
                record_update_failure (strip_v p) (strip_v failed) reason)) (\<lambda>_.
          andThen (remove_if_present trial_slot) (\<lambda>_. andThen (best_effort fsync_path) (\<lambda>_. ret True)))))) (\<lambda>_. ?J) ?J"
        by (rule triple_andThen [OF boot triple_andThen [OF flip tail [unfolded keeps_def]]])
      with True show ?thesis by simp
    next
      case False
      then show ?thesis by (cases b) (auto simp: triple_def ret_def same_views(5))
    qed
  qed
qed

lemma triple_const: "(C \<Longrightarrow> triple P m Q E) \<Longrightarrow> triple (\<lambda>s. P s \<and> C) m Q E"
  by (auto simp: triple_def)

lemma triple_look_from: "(\<And>x. x = f s0 \<Longrightarrow> triple (\<lambda>s. s = s0) (g x) Q E) \<Longrightarrow> triple (\<lambda>s. s = s0) (andThen (look f) g) Q E"
  by (simp add: triple_def andThen_def look_def)

lemma perform_way_back:
  assumes "read_trial s0 = Some t" "trial_live t s0" "tm_prev t = Some p"
  shows "triple (\<lambda>s. s = s0) (perform_trial_rollback env p failed_to reason)
    (\<lambda>_ s. current s = current s0 \<or> way_back env s0 (current s)) (\<lambda>s. current s = current s0 \<or> way_back env s0 (current s))"
  using perform_moves [of s0 env p failed_to reason]
  by (rule triple_weaken) (use assms in \<open>auto simp: way_back_def\<close>)

lemma rolled_way_back:
  assumes "read_trial s0 = Some t" "trial_live t s0" "tm_prev t = Some p"
  shows "triple (\<lambda>s. s = s0) (andThen (perform_trial_rollback env p failed_to reason) (\<lambda>rolled. ret (if rolled then Some p else None)))
    (\<lambda>_ s. current s = current s0 \<or> way_back env s0 (current s)) (\<lambda>s. current s = current s0 \<or> way_back env s0 (current s))"
  by (rule triple_andThen [OF perform_way_back [OF assms]]) (rule triple_ret)

lemma stays:
  assumes "keeps (\<lambda>s. current s = current s0) m"
  shows "triple (\<lambda>s. s = s0) m (\<lambda>_ s. current s = current s0) (\<lambda>s. current s = current s0)"
  using assms unfolding keeps_def by (rule triple_weaken) simp_all

lemma boot_moves:
  "triple (\<lambda>s. s = s0) (boot_rollback_body env locked)
     (\<lambda>_ s. current s = current s0 \<or> way_back env s0 (current s) \<and> read_boot_fails s0 \<ge> BOOT_FAIL_BUDGET)
     (\<lambda>s. current s = current s0 \<or> way_back env s0 (current s) \<and> read_boot_fails s0 \<ge> BOOT_FAIL_BUDGET)"
    (is "triple ?s _ (\<lambda>_. ?J) ?J")
  unfolding boot_rollback_body_def
proof (rule triple_look_from)
  fix x assume x: "x = (read_trial s0, current_target s0, read_boot_fails s0)"
  have quiet: "triple ?s m (\<lambda>_. ?J) ?J" if "keeps (\<lambda>s. current s = current s0) m" for m :: "string option fs"
    using stays [OF that] by (rule triple_weaken) simp_all
  have clear: "keeps (\<lambda>s. current s = current s0) (andThen (remove_if_present trial_slot) (\<lambda>_.
       andThen (remove_if_present bootfails_slot) (\<lambda>_. andThen (best_effort fsync_path) (\<lambda>_. ret (None :: string option)))))"
    by (intro keeps_andThen keeps_simple keeps_best_effort keeps_current)
  have none: "keeps (\<lambda>s. current s = current s0) (ret (None :: string option))" by (rule keeps_simple)
  have roll: "triple ?s (andThen (perform_trial_rollback env p f r) (\<lambda>rolled. ret (if rolled then Some p else None))) (\<lambda>_. ?J) ?J"
    if "read_trial s0 = Some t" "Some (tm_to t) = current_target s0" "decide_rollback (Some t) (read_boot_fails s0) BOOT_FAIL_BUDGET = Some p"
    for t p f r
    using rolled_way_back [of s0 t p env f r] that
    by (intro triple_weaken [OF rolled_way_back [of s0 t p env f r]])
      (auto simp: trial_live_def decide_rollback_def split: if_splits)
  show "triple ?s (case x of (t, cur, fails) \<Rightarrow>
       if (case t of Some t \<Rightarrow> Some (tm_to t) \<noteq> cur | None \<Rightarrow> False)
       then (if locked then andThen (remove_if_present trial_slot) (\<lambda>_.
               andThen (remove_if_present bootfails_slot) (\<lambda>_. andThen (best_effort fsync_path) (\<lambda>_. ret None)))
             else ret None)
       else case decide_rollback t fails BOOT_FAIL_BUDGET of
              Some prev \<Rightarrow> andThen (perform_trial_rollback env prev (map_option tm_to t) crash_loop_reason)
                  (\<lambda>rolled. ret (if rolled then Some prev else None))
            | None \<Rightarrow> ret None) (\<lambda>_. ?J) ?J"
  proof (cases "read_trial s0")
    case None
    then show ?thesis by (simp add: x decide_rollback_def quiet none)
  next
    case (Some t)
    show ?thesis
      unfolding x prod.case Some option.case
      by (auto simp: quiet clear none split: option.split intro!: roll [OF Some])
  qed
qed

lemma force_moves:
  "triple (\<lambda>s. s = s0) (force_rollback_trial_body env v)
     (\<lambda>_ s. current s = current s0 \<or> way_back env s0 (current s) \<and> is_trial_pending_for v s0)
     (\<lambda>s. current s = current s0 \<or> way_back env s0 (current s) \<and> is_trial_pending_for v s0)"
    (is "triple ?s _ (\<lambda>_. ?J) ?J")
  unfolding force_rollback_trial_body_def
proof (rule triple_look_from)
  fix x assume x: "x = (read_trial s0, current_target s0)"
  have none: "triple ?s (ret (None :: string option)) (\<lambda>_. ?J) ?J" by (rule triple_ret) simp
  have roll: "triple ?s (andThen (perform_trial_rollback env p f r) (\<lambda>rolled. ret (if rolled then Some p else None))) (\<lambda>_. ?J) ?J"
    if "read_trial s0 = Some t" "Some (tm_to t) = current_target s0" "trial_is_for t v" "tm_prev t = Some p" for t p f r
    by (rule triple_weaken [OF rolled_way_back [of s0 t p env f r]])
      (use that in \<open>auto simp: trial_live_def is_trial_pending_for_def\<close>)
  show "triple ?s (case x of (t, cur) \<Rightarrow> case t of None \<Rightarrow> ret None
       | Some t \<Rightarrow> if \<not> trial_is_for t v \<or> Some (tm_to t) \<noteq> cur then ret None
           else case tm_prev t of None \<Rightarrow> ret None
           | Some prev \<Rightarrow> andThen (perform_trial_rollback env prev (Some (tm_to t))
                   untracked_reason)
                 (\<lambda>rolled. ret (if rolled then Some prev else None))) (\<lambda>_. ?J) ?J"
    unfolding x prod.case by (auto simp: none split: option.split intro!: roll)
qed

lemma rollback_moves:
  "triple (\<lambda>s. s = s0) (rollback env) (\<lambda>_ s. current s = current s0 \<or> way_back env s0 (current s))
     (\<lambda>s. current s = current s0 \<or> way_back env s0 (current s))"
    (is "triple ?s _ (\<lambda>_. ?J) ?J")
  unfolding rollback_def
proof (rule triple_look_from, rule triple_look_from)
  fix failed_to target assume target: "target = rollback_target env s0"
  have tail: "keeps ?J (andThen (remove_if_present trial_slot) (\<lambda>_. andThen (remove_if_present bootfails_slot) (\<lambda>_.
      andThen (case failed_to of None \<Rightarrow> ret () | Some f \<Rightarrow> record_failed_target f) (\<lambda>_. ret p))))" for p :: string
    using keeps_current [of "\<lambda>l. l = current s0 \<or> way_back env s0 l"]
    by (auto split: option.split intro!: keeps_andThen keeps_simple)
  have way: "way_back env s0 (LinkTo p)" if "target = Inr p" for p
    using that by (auto simp: target rollback_target_def way_back_def trial_live_def split: if_splits option.splits)
  show "triple ?s (andThen (lift_result target) (\<lambda>prev. andThen (flip_current_to prev) (\<lambda>_.
     andThen (remove_if_present trial_slot) (\<lambda>_. andThen (remove_if_present bootfails_slot) (\<lambda>_.
     andThen (case failed_to of None \<Rightarrow> ret () | Some failed \<Rightarrow> record_failed_target failed) (\<lambda>_. ret prev)))))) (\<lambda>_. ?J) ?J"
  proof (rule triple_andThen)
    show "triple ?s (lift_result target) (\<lambda>p s. same s0 s \<and> target = Inr p) ?J"
      by (rule triple_lift_result) simp_all
    show "triple (\<lambda>s. same s0 s \<and> target = Inr p) (andThen (flip_current_to p) (\<lambda>_.
     andThen (remove_if_present trial_slot) (\<lambda>_. andThen (remove_if_present bootfails_slot) (\<lambda>_.
     andThen (case failed_to of None \<Rightarrow> ret () | Some failed \<Rightarrow> record_failed_target failed) (\<lambda>_. ret p))))) (\<lambda>_. ?J) ?J" for p
    proof (rule triple_const)
      assume "target = Inr p"
      then have "triple (same s0) (flip_current_to p) (\<lambda>_. ?J) ?J"
        by (intro triple_weaken [OF flip_moves [of s0 p]]) (auto simp: way)
      from triple_andThen [OF this tail [unfolded keeps_def]]
      show "triple (same s0) (andThen (flip_current_to p) (\<lambda>_.
     andThen (remove_if_present trial_slot) (\<lambda>_. andThen (remove_if_present bootfails_slot) (\<lambda>_.
     andThen (case failed_to of None \<Rightarrow> ret () | Some failed \<Rightarrow> record_failed_target failed) (\<lambda>_. ret p))))) (\<lambda>_. ?J) ?J" .
    qed
  qed
qed

subsubsection \<open>An update\<close>

lemma guards_admit:
  "triple (\<lambda>s. s = s0) (stage_guards env m allow) (\<lambda>_ s. same s0 s \<and> admitted env m allow s0) (same s0)"
proof -
  let ?v = "version_name (um_version m)" and ?T = "env_tree_safe env"
  let ?elig = "evaluate_eligibility (env_semver env) (installed_identity env s0) m allow = Inr ()"
  have k: "keeps (same s0) (remove_if_present trial_slot)" "keeps (same s0) (remove_if_present bootfails_slot)"
    by (rule keeps_remove [OF calm_same]; simp)+
  have clear: "triple (\<lambda>s. same s0 s \<and> ?T) (case t of None \<Rightarrow> ret ()
      | Some t \<Rightarrow> if Some (tm_to t) = cur then fail e
          else andThen (remove_if_present trial_slot) (\<lambda>_. remove_if_present bootfails_slot)) (\<lambda>_ s. same s0 s \<and> ?T) (same s0)" for t cur e
  proof (rule triple_const)
    assume ?T
    have "keeps (same s0) (case t of None \<Rightarrow> ret ()
      | Some t \<Rightarrow> if Some (tm_to t) = cur then fail e
          else andThen (remove_if_present trial_slot) (\<lambda>_. remove_if_present bootfails_slot))"
      by (auto split: option.split intro!: keeps_simple keeps_andThen k)
    then show "triple (same s0) (case t of None \<Rightarrow> ret ()
      | Some t \<Rightarrow> if Some (tm_to t) = cur then fail e
          else andThen (remove_if_present trial_slot) (\<lambda>_. remove_if_present bootfails_slot)) (\<lambda>_ s. same s0 s \<and> ?T) (same s0)"
      unfolding keeps_def by (rule triple_weaken) (use \<open>?T\<close> in simp_all)
  qed
  have ident: "triple (\<lambda>s. same s0 s \<and> ?T) (look (installed_identity env))
      (\<lambda>i s. same s0 s \<and> ?T \<and> i = installed_identity env s0) (same s0)"
    by (rule triple_look) (simp add: same_views)
  have elig: "triple (\<lambda>s. same s0 s \<and> ?T \<and> i = installed_identity env s0)
      (lift_result (evaluate_eligibility (env_semver env) i m allow)) (\<lambda>_ s. same s0 s \<and> ?T \<and> ?elig) (same s0)" for i
    by (rule triple_lift_result) auto
  have failed: "triple (\<lambda>s. same s0 s \<and> ?T \<and> ?elig) (look (is_failed_target ?v))
      (\<lambda>bad s. same s0 s \<and> ?T \<and> ?elig \<and> bad = is_failed_target ?v s0) (same s0)"
    by (rule triple_look) (simp add: same_views)
  have final: "triple (\<lambda>s. same s0 s \<and> ?T \<and> ?elig \<and> bad = is_failed_target ?v s0) (require (\<not> bad) e)
      (\<lambda>_ s. same s0 s \<and> admitted env m allow s0) (same s0)" for bad e
    by (rule triple_require) (simp_all add: admitted_def)
  show ?thesis
    unfolding stage_guards_def
  proof (rule triple_andThen)
    show "triple (\<lambda>s. s = s0) (require ?T e) (\<lambda>_ s. same s0 s \<and> ?T) (same s0)" for e
      by (rule triple_require) simp_all
    show "triple (\<lambda>s. same s0 s \<and> ?T) (andThen (look (\<lambda>s. (read_trial s, current_target s))) (\<lambda>(t, cur).
       andThen (case t of None \<Rightarrow> ret ()
         | Some t \<Rightarrow> if Some (tm_to t) = cur then fail (UpdateApplyFailed ''a previous self-update is still on trial'')
           else andThen (remove_if_present trial_slot) (\<lambda>_. remove_if_present bootfails_slot)) (\<lambda>_.
       andThen (look (installed_identity env)) (\<lambda>ident.
       andThen (lift_result (evaluate_eligibility (env_semver env) ident m allow)) (\<lambda>_.
       andThen (look (is_failed_target ?v)) (\<lambda>bad.
         require (\<not> bad) (UpdateApplyFailed ''previously failed its boot trial''))))))) (\<lambda>_ s. same s0 s \<and> admitted env m allow s0) (same s0)"
      by (rule triple_andThen [where R = "\<lambda>_ s. same s0 s \<and> ?T"], simp add: triple_look, simp split: prod.split)
        (intro allI impI triple_andThen [OF clear] triple_andThen [OF ident] triple_andThen [OF elig]
          triple_andThen [OF failed] final)
  qed
qed

lemma files_sound:
  assumes "calm P"
  shows "triple P (stage_files env m artifact) (\<lambda>_ s. P s \<and> sound_archive env m artifact) P"
  unfolding stage_files_def
proof (intro triple_andThen)
  have idle: "triple (\<lambda>s. P s \<and> C) (step id) (\<lambda>_ s. P s \<and> C) P" for C
    by (rule triple_step) (use assms in \<open>auto simp: calm_def\<close>)
  show "triple P (step id) (\<lambda>_. P) P" by (rule triple_step) (simp_all add: assms)
  let ?r = "case env_unpack env artifact of None \<Rightarrow> Inl (UpdateApplyFailed ''unpacking update tarball failed'') | Some fs \<Rightarrow> Inr fs"
  show "triple P (lift_result ?r) (\<lambda>fs s. P s \<and> env_unpack env artifact = Some fs) P"
    by (rule triple_lift_result) (auto split: option.splits)
  show "triple (\<lambda>s. P s \<and> env_unpack env artifact = Some fs) (step id) (\<lambda>_ s. P s \<and> env_unpack env artifact = Some fs) P" for fs
    by (rule idle)
  show "triple (\<lambda>s. P s \<and> env_unpack env artifact = Some fs) (require (require_regular_exec fs) e)
      (\<lambda>_ s. P s \<and> env_unpack env artifact = Some fs \<and> require_regular_exec fs) P" for fs e
    by (rule triple_require) simp_all
  let ?N = "\<lambda>fs'. \<exists>fs. env_unpack env artifact = Some fs \<and> require_regular_exec fs \<and> fs' = map normal_mode fs"
  show "triple (\<lambda>s. P s \<and> env_unpack env artifact = Some fs \<and> require_regular_exec fs) (lift_result (normalize_published_modes fs))
      (\<lambda>fs' s. P s \<and> ?N fs') P" for fs
    by (rule triple_lift_result) (auto simp: normalize_published_modes_def split: if_splits)
  show "triple (\<lambda>s. P s \<and> ?N fs') (step id) (\<lambda>_ s. P s \<and> ?N fs') P" for fs' by (rule idle)
  show "triple (\<lambda>s. P s \<and> ?N fs') (lift_result (smoke_ok env (um_version m) fs')) (\<lambda>_ s. P s \<and> sound_archive env m artifact) P" for fs'
    by (rule triple_lift_result) (auto simp: sound_archive_def)
  show "triple (\<lambda>s. P s \<and> sound_archive env m artifact) (ret fs') (\<lambda>_ s. P s \<and> sound_archive env m artifact) P" for fs' :: files
    by (rule triple_ret)
qed

lemma publish_keeps_current: "keeps (\<lambda>s. G (current s)) (publish_version env m fs)"
proof -
  let ?P = "\<lambda>s. G (current s)"
  have idle: "keeps ?P (step id)" by (rule keeps_step [OF calm_current]) simp
  have rename: "keeps ?P (rename_into v n nd)" for v n nd
    unfolding rename_into_def by (intro keeps_andThen keeps_simple keeps_step [OF calm_current]) simp
  have files: "keeps ?P (publish_files v fs)" for v
    by (induction fs) (auto intro!: keeps_andThen keeps_simple rename keeps_current)
  have dir: "keeps ?P (create_version_dir v)" for v
    unfolding create_version_dir_def
    by (intro keeps_andThen keeps_simple) (auto split: option.split BinEntry.split intro!: keeps_simple keeps_step [OF calm_current])
  show ?thesis
    unfolding publish_version_def Let_def by (intro keeps_andThen keeps_simple keeps_current idle rename files dir)
qed

lemma flip_to_trial_moves:
  "triple (\<lambda>s. current s = l) (flip_to_trial env m allow)
     (\<lambda>_ s. current s = l \<or> current s = LinkTo (version_name (um_version m)))
     (\<lambda>s. current s = l \<or> current s = LinkTo (version_name (um_version m)))"
proof -
  let ?v = "version_name (um_version m)"
  let ?P = "\<lambda>s. current s = l" and ?J = "\<lambda>s. current s = l \<or> current s = LinkTo (version_name (um_version m))"
  have weak: "triple ?P x (\<lambda>_. ?P) ?J" if "keeps ?P x" for x :: "unit fs"
    using that unfolding keeps_def by (rule triple_weaken) simp_all
  have flip: "triple ?P (flip_current_to ?v) (\<lambda>_. ?J) ?J"
    by (rule triple_flip) (simp_all add: calm_current [of "\<lambda>k. k = l"] calm_current [of "\<lambda>k. k = l \<or> k = LinkTo ?v"])
  show ?thesis
    unfolding flip_to_trial_def Let_def
  proof (intro triple_andThen)
    show "triple ?P (look (installed_identity env)) (\<lambda>_. ?P) ?J" "triple ?P (look current_target) (\<lambda>_. ?P) ?J"
      by (rule triple_look, simp)+
    show "triple ?P (lift_result r) (\<lambda>_. ?P) ?J" for r :: "HiggsError + unit"
      by (rule triple_lift_result) simp_all
    show "triple ?P (write_atomic trial_slot t) (\<lambda>_. ?P) ?J" for t by (rule weak [OF keeps_current(9)])
    show "triple ?P (remove_if_present bootfails_slot) (\<lambda>_. ?P) ?J" by (rule weak [OF keeps_current(2)])
    show "triple ?P (flip_current_to ?v) (\<lambda>_. ?J) ?J" by (rule flip)
    show "triple ?J clear_update_failure (\<lambda>_. ?J) ?J"
      using keeps_current(5) [of "\<lambda>k. k = l \<or> k = LinkTo ?v"] by (simp add: keeps_def)
  qed
qed

lemma stage_moves:
  "triple (\<lambda>s. s = s0) (stage_and_flip env m artifact allow)
     (\<lambda>_ s. current s = current s0 \<or>
        current s = LinkTo (version_name (um_version m)) \<and> admitted env m allow s0 \<and> sound_archive env m artifact)
     (\<lambda>s. current s = current s0 \<or>
        current s = LinkTo (version_name (um_version m)) \<and> admitted env m allow s0 \<and> sound_archive env m artifact)"
    (is "triple ?s _ (\<lambda>_. ?J) ?J")
proof -
  let ?A = "admitted env m allow s0" and ?S = "sound_archive env m artifact"
  have calmA: "calm (\<lambda>s. same s0 s \<and> ?A)" using calm_same [of s0] by (simp add: calm_def)
  have guards: "triple ?s (stage_guards env m allow) (\<lambda>_ s. same s0 s \<and> ?A) ?J"
    by (rule triple_weaken [OF guards_admit]) (auto dest: same_views(5))
  have files: "triple (\<lambda>s. same s0 s \<and> ?A) (stage_files env m artifact) (\<lambda>_ s. (same s0 s \<and> ?A) \<and> ?S) ?J"
    by (rule triple_weaken [OF files_sound [OF calmA]]) (auto dest: same_views(5))
  let ?P = "\<lambda>s. current s = current s0 \<and> ?A \<and> ?S"
  have publish: "triple (\<lambda>s. (same s0 s \<and> ?A) \<and> ?S) (publish_version env m fs) (\<lambda>_. ?P) ?J" for fs
    by (rule triple_weaken [OF publish_keeps_current [of "\<lambda>l. l = current s0 \<and> ?A \<and> ?S", unfolded keeps_def]])
      (auto dest: same_views(5))
  have flip: "triple ?P (flip_to_trial env m allow) (\<lambda>_. ?J) ?J"
  proof (cases "?A \<and> ?S")
    case True
    show ?thesis
      by (rule triple_weaken [OF flip_to_trial_moves [of "current s0" env m allow]]) (use True in auto)
  qed (auto simp: triple_def)
  show ?thesis
    unfolding stage_and_flip_def
    by (intro triple_andThen [OF guards] triple_andThen [OF files] triple_andThen [OF publish] flip)
qed

lemma post_snd: "post (\<lambda>_. Q) Q r \<Longrightarrow> Q (snd r)"
  by (cases rule: result_cases [of r]) simp_all

lemma moves_boot_lock:
  assumes "\<And>b. triple (\<lambda>s. s = s0) (body b) (\<lambda>_. J) J" "J s0"
  shows "triple (\<lambda>s. s = s0) (with_boot_lock c skip body) (\<lambda>_. J) J"
  using assms by (auto simp: with_boot_lock_def split: LockAttempt.split intro: triple_ret)

lemma moves_discard: "triple (\<lambda>s. s = s0) m (\<lambda>_. J) J \<Longrightarrow> triple (\<lambda>s. s = s0) (discard m) (\<lambda>_. J) J"
  unfolding discard_def by (erule triple_andThen) (rule triple_ret)

lemma moves_acquire:
  assumes "try_acquire c = Held \<Longrightarrow> triple (\<lambda>s. s = s0) m (\<lambda>_. J) J" "J s0"
  shows "triple (\<lambda>s. s = s0) (andThen (lift_result (acquire_update_lock c)) (\<lambda>_. m)) (\<lambda>_. J) J"
proof (rule triple_andThen)
  show "triple (\<lambda>s. s = s0) (lift_result (acquire_update_lock c)) (\<lambda>_ s. s = s0 \<and> try_acquire c = Held) J"
    by (rule triple_lift_result) (auto simp: acquire_update_lock_def assms(2) split: LockAttempt.splits)
  show "triple (\<lambda>s. s = s0 \<and> try_acquire c = Held) m (\<lambda>_. J) J"
    by (rule triple_const) (rule assms(1))
qed

text \<open>C7. Nothing moves \<open>current\<close> without cause, whatever fails or dies on the way. After any single
  operation \<open>current\<close> is what it was, or it was moved by: a boot that found the trial of the very
  version \<open>current\<close> names with its budget of failed boots spent, to the installed version that trial
  replaced; a forced or a manual rollback of such a trial, to the same; or an update, run under
  the lock, to the version of a manifest that is eligible for the installed build, never failed a
  trial, and whose archive holds an executable that reported that version.
\<close>

theorem current_moves_justified:
  "current (snd (run_op env op s)) = current s \<or> justified env op s (current (snd (run_op env op s)))"
proof -
  let ?J = "\<lambda>s'. current s' = current s \<or> justified env op s (current s')"
  have quiet: "triple (\<lambda>s'. s' = s) m (\<lambda>_. ?J) ?J" if "keeps (\<lambda>s'. current s' = current s) m" for m :: "unit fs"
    by (rule triple_weaken [OF stays [OF that]]) simp_all
  have "triple (\<lambda>s'. s' = s) (run_op env op) (\<lambda>_. ?J) ?J"
  proof (cases op)
    case (BootRollback c)
    then show ?thesis
      using boot_moves [of s env] by (auto simp: boot_rollback_if_spent_def intro!: moves_discard moves_boot_lock)
  next
    case (ForceRollback c v)
    then show ?thesis
      using force_moves [of s env v] by (auto simp: force_rollback_trial_def intro!: moves_discard moves_boot_lock)
  next
    case (RollbackOp c)
    then show ?thesis
      using rollback_moves [of s env] by (auto intro!: moves_discard moves_acquire)
  next
    case (ApplyOp c m artifact allow)
    show ?thesis
      unfolding ApplyOp run_op.simps
    proof (rule moves_acquire)
      assume "try_acquire c = Held"
      then show "triple (\<lambda>s'. s' = s) (stage_and_flip env m artifact allow)
          (\<lambda>_ s'. current s' = current s \<or> justified env (ApplyOp c m artifact allow) s (current s'))
          (\<lambda>s'. current s' = current s \<or> justified env (ApplyOp c m artifact allow) s (current s'))"
        by (intro triple_weaken [OF stage_moves [of s env m artifact allow]]) auto
    qed simp
  next
    case (PruneOp c)
    have dirs: "keeps (\<lambda>s'. current s' = current s) (remove_dirs names)" for names
      by (induction names) (auto intro!: keeps_andThen keeps_simple keeps_step simp: calm_def)
    have "keeps (\<lambda>s'. current s' = current s) (run_op env op)"
      unfolding PruneOp run_op.simps prune_versions_def by (intro keeps_andThen keeps_discard keeps_simple dirs)
    then show ?thesis by (rule quiet)
  qed (auto intro!: stays keeps_current)
  then have "post (\<lambda>_. ?J) ?J (run_op env op s)" by (rule tripleD) simp
  then show ?thesis by (rule post_snd)
qed

subsection \<open>Without faults\<close>

lemma step_done: "faults s = [] \<Longrightarrow> step eff s = (Done (), eff s)"
  by (simp add: step_def)

lemma look_done: "look f s = (Done (f s), s)"
  by (simp add: look_def)

lemma best_effort_done: "m s = (Done x, s') \<Longrightarrow> best_effort m s = (Done (), s')"
  by (simp add: best_effort_def)

lemma fsync_done: "faults s = [] \<Longrightarrow> fsync_path s = (Done (), s)"
  by (simp add: fsync_path_def step_def)

lemma require_done: "b \<Longrightarrow> require b e s = (Done (), s)"
  by (simp add: require_def ret_def)

lemma write_atomic_done:
  assumes "faults s = []" "fst l s \<noteq> Blocked" "faults (snd l (\<lambda>_. Holds x) s) = []"
  shows "write_atomic l x s = (Done (), snd l (\<lambda>_. Holds x) s)"
  using assms by (simp add: write_atomic_def andThen_def step_def look_def require_def ret_def fsync_path_def)

lemma remove_done:
  assumes "faults s = []" "fst l s \<noteq> Blocked"
  shows "remove_if_present l s = (Done (), snd l (\<lambda>_. Absent) s)"
  using assms by (simp add: remove_if_present_def andThen_def step_def look_def require_def ret_def)

lemma flip_done:
  assumes "faults s = []" "current s \<noteq> PlainFolder"
  shows "flip_current_to v s = (Done (), s\<lparr>current := LinkTo v\<rparr>)"
  using assms
  by (simp add: flip_current_to_def andThen_def best_effort_def step_def look_def require_def ret_def fsync_path_def)

lemma record_failed_done:
  assumes "faults s = []"
  shows "record_failed_target v s =
    (Done (), if v \<in> set (read_failed_targets s) then s else s\<lparr>poisoned := Holds (read_failed_targets s @ [v])\<rparr>)"
proof -
  have clear: "clear_blocked poisoned_slot s = (Done (), if poisoned s = Blocked then s\<lparr>poisoned := Absent\<rparr> else s)"
    using assms by (simp add: clear_blocked_def andThen_def look_def best_effort_def step_def ret_def)
  show ?thesis
    unfolding record_failed_target_def andThen_def [of "clear_blocked _"] clear look_def
    using assms
    by (cases "poisoned s")
      (simp_all add: andThen_def read_failed_targets_def unwrap_or_def ret_def best_effort_def write_atomic_done fsync_done)
qed

definition failure :: "string \<Rightarrow> string \<Rightarrow> nat list \<Rightarrow> UpdateFailed" where
  "failure from target reason =
     \<lparr>uf_from = sanitize_version from, uf_to = sanitize_version target, uf_reason = sanitize_display reason\<rparr>"

lemma record_failure_done:
  assumes "faults s = []"
  shows "record_update_failure from target reason s = (Done (), s\<lparr>lastfail := Holds (failure from target reason)\<rparr>)"
proof -
  have clear: "clear_blocked lastfail_slot s = (Done (), if lastfail s = Blocked then s\<lparr>lastfail := Absent\<rparr> else s)"
    using assms by (simp add: clear_blocked_def andThen_def look_def best_effort_def step_def ret_def)
  show ?thesis
    unfolding record_update_failure_def andThen_def [of "clear_blocked _"] clear
    using assms
    by (cases "lastfail s") (simp_all add: andThen_def best_effort_def write_atomic_done fsync_done failure_def)
qed

subsection \<open>The crash loop\<close>

text \<open>A trial of \<open>v\<close> over the installed \<open>p\<close>, whose boots have failed \<open>n\<close> times.\<close>

definition on_trial :: "Surroundings \<Rightarrow> string \<Rightarrow> string \<Rightarrow> u32 \<Rightarrow> Install \<Rightarrow> bool" where
  "on_trial env v p n s \<longleftrightarrow> faults s = [] \<and> trial s = Holds \<lparr>tm_to = version_name v, tm_prev = Some p\<rparr> \<and>
     current s = LinkTo (version_name v) \<and> is_installed_version (env_semver env) p s \<and>
     bootfails s \<noteq> Blocked \<and> read_boot_fails s = n"

lemma version_name_v [simp]: "prefix ''v'' (version_name v)"
  by (simp add: version_name_def)

lemma on_trial_views:
  assumes "on_trial env v p n s"
  shows "read_trial s = Some \<lparr>tm_to = version_name v, tm_prev = Some p\<rparr>" "current_target s = Some (version_name v)"
    "faults s = []" "read_boot_fails s = n" "current s = LinkTo (version_name v)"
  using assms by (simp_all add: on_trial_def read_trial_def current_target_def)

lemma preflight_waits:
  assumes "on_trial env v p n s" "try_acquire c = Held" "n < BOOT_FAIL_BUDGET"
  shows "node_boot_preflight env c s = (Done False, s)"
proof -
  have "\<not> BOOT_FAIL_BUDGET \<le> n" using assms(3) by simp
  then show ?thesis
    using assms(2) on_trial_views [OF assms(1)]
    by (simp add: node_boot_preflight_def boot_rollback_if_spent_def with_boot_lock_def boot_rollback_body_def
        andThen_def attempt_def look_def decide_rollback_def ret_def rolled_back_def)
qed

lemma boot_counts:
  assumes "on_trial env v p n s" "try_acquire c = Held" "n < BOOT_FAIL_BUDGET"
  shows "fst (node_boot env c c c v s) = Done False" "on_trial env v p (n + 1) (snd (node_boot env c c c v s))"
    "current (snd (node_boot env c c c v s)) = LinkTo (version_name v)"
proof -
  note views = on_trial_views [OF assms(1)]
  have "unat n < 3" using assms(3) by (simp add: BOOT_FAIL_BUDGET_def word_less_nat_alt)
  then have sat: "sat_add n 1 = n + 1" by (simp add: sat_add_def)
  have rec: "record_boot_attempt c v s = (Done (), s\<lparr>bootfails := Holds (n + 1)\<rparr>)"
    using assms(1,2) views
    by (simp add: record_boot_attempt_def with_boot_lock_def andThen_def look_def trial_is_for_def write_atomic_done
        on_trial_def sat)
  have "node_boot env c c c v s = (Done False, s\<lparr>bootfails := Holds (n + 1)\<rparr>)"
    by (simp add: node_boot_def preflight_waits [OF assms] record_this_boot_def andThen_def attempt_def rec ret_def)
  then show "fst (node_boot env c c c v s) = Done False" "on_trial env v p (n + 1) (snd (node_boot env c c c v s))"
    "current (snd (node_boot env c c c v s)) = LinkTo (version_name v)"
    using assms(1) by (simp_all add: on_trial_def read_boot_fails_def unwrap_or_def)
qed

lemma boot_rolls_back:
  assumes "on_trial env v p n s" "try_acquire c = Held" "BOOT_FAIL_BUDGET \<le> n"
  defines "s' \<equiv> snd (node_boot env c c c v s)"
  shows "fst (node_boot env c c c v s) = Done True" "current s' = LinkTo p" "trial s' = Absent" "bootfails s' = Absent"
    "is_failed_target (version_name v) s'"
    "lastfail s' = Holds (failure (strip_v p) v crash_loop_reason)"
    "is_installed_version (env_semver env) p s'" "faults s' = []"
proof -
  let ?why = "crash_loop_reason"
  note views = on_trial_views [OF assms(1)]
  have s: "is_installed_version (env_semver env) p s" "bootfails s \<noteq> Blocked" "trial s \<noteq> Blocked"
    using assms(1) by (simp_all add: on_trial_def)
  have strip: "strip_v (version_name v) = v" by (simp add: strip_v_def version_name_def)
  let ?f = "s\<lparr>bootfails := Absent, current := LinkTo p\<rparr>"
  let ?g = "if version_name v \<in> set (read_failed_targets ?f) then ?f
            else ?f\<lparr>poisoned := Holds (read_failed_targets ?f @ [version_name v])\<rparr>"
  let ?h = "?g\<lparr>lastfail := Holds (failure (strip_v p) v ?why), trial := Absent\<rparr>"
  have g: "faults ?g = []" "trial ?g \<noteq> Blocked" using views s by simp_all
  have roll: "perform_trial_rollback env p (Some (version_name v)) crash_loop_reason s = (Done True, ?h)"
    using views s g
    by (simp add: perform_trial_rollback_def look_def andThen_def remove_done flip_done record_failed_done
        record_failure_done strip best_effort_def fsync_done ret_def del: if_split cong: if_cong)
  have "node_boot env c c c v s = (Done True, ?h)"
    using assms(2,3) views roll
    by (simp add: node_boot_def node_boot_preflight_def boot_rollback_if_spent_def with_boot_lock_def boot_rollback_body_def
        andThen_def attempt_def look_def decide_rollback_def ret_def rolled_back_def)
  then show "fst (node_boot env c c c v s) = Done True" "current s' = LinkTo p" "trial s' = Absent" "bootfails s' = Absent"
    "is_failed_target (version_name v) s'"
    "lastfail s' = Holds (failure (strip_v p) v ?why)" "is_installed_version (env_semver env) p s'" "faults s' = []"
    using s g by (simp_all add: s'_def is_failed_target_def read_failed_targets_def unwrap_or_def)
qed

text \<open>C8. A crash loop ends by itself: a version on trial that dies in each of its boots is started
  exactly \<open>BOOT_FAIL_BUDGET\<close> (three) times; the next start puts \<open>current\<close> back on the version the
  trial replaced and exits, with the trial and its counter gone, the bad version on the poison
  list and a failure report, addressed to the restored version, waiting for its HELLO.
\<close>

theorem crash_loop_is_cut:
  assumes "try_acquire c = Held" "on_trial env v p 0 s"
  defines "boot \<equiv> \<lambda>s. snd (node_boot env c c c v s)"
  shows "map (\<lambda>k. fst (node_boot env c c c v ((boot ^^ k) s))) [0..<4] = [Done False, Done False, Done False, Done True] \<and>
    map (\<lambda>k. current ((boot ^^ k) s)) [0..<4] = replicate 4 (LinkTo (version_name v)) \<and>
    current ((boot ^^ 4) s) = LinkTo p \<and> read_trial ((boot ^^ 4) s) = None \<and>
    is_failed_target (version_name v) ((boot ^^ 4) s) \<and>
    reportable_update_failure_for (strip_v p) ((boot ^^ 4) s) =
      (Some (failure (strip_v p) v crash_loop_reason), True)"
proof -
  have budget: "(0 :: u32) < BOOT_FAIL_BUDGET" "(1 :: u32) < BOOT_FAIL_BUDGET" "(2 :: u32) < BOOT_FAIL_BUDGET"
      "BOOT_FAIL_BUDGET \<le> (3 :: u32)"
    by (simp_all add: BOOT_FAIL_BUDGET_def)
  note b0 = boot_counts [OF assms(2,1) budget(1), simplified]
  note b1 = boot_counts [OF b0(2) assms(1) budget(2), simplified]
  note b2 = boot_counts [OF b1(2) assms(1) budget(3), simplified]
  note b3 = boot_rolls_back [OF b2(2) assms(1) budget(4)]
  have n: "[0..<4] = [0, 1, 2, 3 :: nat]" by (simp add: upt_rec)
  have four: "boot ^^ 4 = (\<lambda>s. boot (boot (boot (boot s))))" "boot ^^ 3 = (\<lambda>s. boot (boot (boot s)))"
      "boot ^^ 2 = (\<lambda>s. boot (boot s))"
    by (simp_all add: fun_eq_iff eval_nat_numeral)
  have report: "reportable_update_failure_for (strip_v p) (boot (boot (boot (boot s)))) =
      (Some (failure (strip_v p) v crash_loop_reason), True)"
    using b3(6) by (simp add: boot_def reportable_update_failure_for_def failure_def)
  show ?thesis
    unfolding n four
    using assms(2) b0 b1 b2 b3(1,2,3,5) report by (simp add: boot_def on_trial_def read_trial_def eval_nat_numeral)
qed

text \<open>A small install: version 2 on trial over version 1.\<close>

definition toy_env :: Surroundings where
  "toy_env =
     \<lparr>env_semver = \<lparr>sv_parses = \<lambda>v. v \<in> {''1'', ''2'', ''3''},
        cmp_precedence = \<lambda>a b. if a = b then Equal else if a = ''1'' \<or> b = ''3'' then Less else Greater\<rparr>,
      env_ident = \<lparr>bi_version = ''2'', bi_target = ''t'', bi_variant = ''cpu''\<rparr>,
      env_tree_safe = True, env_acl_safe = True,
      env_unpack = \<lambda>a. Some [(''higgs'', Regular a True)],
      env_smoke = \<lambda>_. Inr ''higgs 3'', env_describe = \<lambda>_. []\<rparr>"

definition toy_install :: Install where
  "toy_install =
     \<lparr>entries = [(''v1'', Directory [(''higgs'', Regular ''one'' True)]), (''v2'', Directory [(''higgs'', Regular ''two'' True)])],
      current = LinkTo ''v2'', trial = Holds \<lparr>tm_to = ''v2'', tm_prev = Some ''v1''\<rparr>, bootfails = Absent,
      poisoned = Absent, lastfail = Absent, faults = []\<rparr>"

definition free_lock :: LockCalls where
  "free_lock =
     \<lparr>lc_mkdir = Exists, lc_stat = True, lc_is_dir = True, lc_chmod = True, lc_strip_acl = True, lc_open = True,
      lc_metadata = True, lc_is_file = True, lc_flock = Locked\<rparr>"

lemma free_lock_held: "try_acquire free_lock = Held"
  by (simp add: try_acquire_def open_private_lock_dir_def free_lock_def)

lemma toy_on_trial: "on_trial toy_env ''2'' ''v1'' 0 toy_install"
  by (simp add: on_trial_def toy_install_def toy_env_def version_name_def is_installed_version_def
      is_version_dir_name_def require_regular_exec_def read_boot_fails_def unwrap_or_def)

theorem crash_loop_is_cut_witness:
  "current (((\<lambda>s. snd (node_boot toy_env free_lock free_lock free_lock ''2'' s)) ^^ 4) toy_install) = LinkTo ''v1''"
  using crash_loop_is_cut [OF free_lock_held toy_on_trial] by simp

theorem current_always_runnable_witness:
  "install_ok (env_semver toy_env)
     (run_ops toy_env [RecordBoot free_lock ''2'', RollbackOp free_lock, PruneOp free_lock]
        (toy_install\<lparr>faults := [Fine, Fine, Fine, Fine, Fine, Fine, Crash, Fail ''EIO'', Fine]\<rparr>))"
proof (rule current_always_runnable)
  show "cmp_precedence (env_semver toy_env) v v = Equal" for v by (simp add: toy_env_def)
  show "install_ok (env_semver toy_env) (toy_install\<lparr>faults := [Fine, Fine, Fine, Fine, Fine, Fine, Crash, Fail ''EIO'', Fine]\<rparr>)"
    by (simp add: install_ok_def toy_install_def toy_env_def is_installed_version_def is_version_dir_name_def
        require_regular_exec_def current_target_def read_trial_def)
qed

subsection \<open>A healthy version stays\<close>

fun boot_op :: "install_op \<Rightarrow> bool" where
  "boot_op (BootRollback c) = True"
| "boot_op (RecordBoot c v) = True"
| "boot_op (ForceRollback c v) = True"
| "boot_op (ConfirmAlive c v) = True"
| "boot_op op = False"

lemma no_trial_op:
  assumes "read_trial s = None" "boot_op op"
  shows "read_trial (snd (run_op env op s)) = None \<and> current (snd (run_op env op s)) = current s"
proof (cases op)
  case (RecordBoot c v)
  have "keeps (\<lambda>s'. read_trial s' = None \<and> current s' = current s) (remove_if_present bootfails_slot)"
    by (rule keeps_remove) (simp_all add: calm_def)
  from keepsD [OF this, of s] show ?thesis
    using assms(1)
    by (simp add: RecordBoot record_boot_attempt_def with_boot_lock_def andThen_def look_def ret_def split: LockAttempt.split)
qed (use assms in \<open>simp_all add: discard_def boot_rollback_if_spent_def boot_rollback_body_def force_rollback_trial_def
      force_rollback_trial_body_def confirm_alive_def with_boot_lock_def andThen_def look_def decide_rollback_def ret_def
      split: LockAttempt.split\<close>)

lemma no_trial_ops:
  "read_trial s = None \<Longrightarrow> list_all boot_op ops \<Longrightarrow> current (run_ops env ops s) = current s"
  by (induction ops arbitrary: s) (simp_all add: run_ops_def no_trial_op)

text \<open>A healthy update is final: when the version on trial has proved itself (it was admitted by
  the hub or stayed up) and nothing fails or holds the lock meanwhile, its trial and its counter
  are gone and \<open>current\<close> is untouched; from then on no sequence of boots, whichever version
  runs, however they fail or die and whatever counts they find, moves \<open>current\<close> again.
\<close>

theorem healthy_update_is_final:
  assumes "try_acquire c \<noteq> Contended" "faults s = []" "is_trial_pending_for v s" "bootfails s \<noteq> Blocked"
    "list_all boot_op ops"
  shows "confirm_alive c v s = (Done (), s\<lparr>trial := Absent, bootfails := Absent\<rparr>) \<and>
    current (run_ops env ops (snd (confirm_alive c v s))) = current s"
proof -
  obtain t where t: "trial s = Holds t" "trial_is_for t v"
    using assms(3) by (auto simp: is_trial_pending_for_def read_trial_def slot_value_def split: Slot.splits)
  have "confirm_alive c v s = (Done (), s\<lparr>trial := Absent, bootfails := Absent\<rparr>)"
    using assms(1,2,4) t
    by (auto simp: confirm_alive_def with_boot_lock_def andThen_def look_def read_trial_def remove_done best_effort_def
        fsync_done split: LockAttempt.split)
  then show ?thesis using no_trial_ops [OF _ assms(5)] by simp
qed

theorem healthy_update_is_final_witness:
  "current (run_ops toy_env [RecordBoot free_lock ''2'', BootRollback free_lock]
     (snd (confirm_alive free_lock ''2'' toy_install))) = LinkTo ''v2''"
proof -
  have "try_acquire free_lock \<noteq> Contended" "faults toy_install = []" "is_trial_pending_for ''2'' toy_install"
    "bootfails toy_install \<noteq> Blocked" "list_all boot_op [RecordBoot free_lock ''2'', BootRollback free_lock]"
    by (simp_all add: free_lock_held toy_install_def is_trial_pending_for_def read_trial_def trial_is_for_def version_name_def)
  from healthy_update_is_final [OF this, THEN conjunct2] show ?thesis by (simp only:) (simp add: toy_install_def)
qed

subsection \<open>A poisoned version stays out\<close>

text \<open>A version that failed its trial is not tried again: while it is on the poison list, an
  update to it is refused, whatever fails or dies, with \<open>current\<close>, every installed version and the
  poison list as they were.
\<close>

theorem poisoned_is_refused:
  assumes "is_failed_target (version_name (um_version m)) s"
  shows "(case stage_and_flip env m artifact allow s of (Done _, s') \<Rightarrow> False | (_, s') \<Rightarrow> same s s')"
proof -
  have "triple (\<lambda>s'. s' = s) (stage_guards env m allow) (\<lambda>_ _. False) (same s)"
    by (rule triple_weaken [OF guards_admit [of s env m allow]]) (use assms in \<open>auto simp: admitted_def\<close>)
  then have "post (\<lambda>_ _. False) (same s) (stage_guards env m allow s)" by (rule tripleD) simp
  then show ?thesis
    by (cases rule: result_cases [of "stage_guards env m allow s"]) (simp_all add: stage_and_flip_def andThen_def)
qed

definition toy_manifest :: UpdateManifest where
  "toy_manifest = \<lparr>um_schema = 1, um_version = ''3'', um_commit = ''c'', um_file = ''f'', um_target = ''t'',
     um_variant = ''cpu'', um_sha256 = ''ab''\<rparr>"

theorem poisoned_is_refused_witness:
  "current (snd (stage_and_flip toy_env toy_manifest ''a'' False (toy_install\<lparr>poisoned := Holds [''v3'']\<rparr>))) = LinkTo ''v2''"
proof -
  have "is_failed_target (version_name (um_version toy_manifest)) (toy_install\<lparr>poisoned := Holds [''v3'']\<rparr>)"
    by (simp add: is_failed_target_def read_failed_targets_def toy_manifest_def version_name_def unwrap_or_def)
  from poisoned_is_refused [OF this, of toy_env "''a''" False] show ?thesis
    by (cases rule: result_cases [of "stage_and_flip toy_env toy_manifest ''a'' False (toy_install\<lparr>poisoned := Holds [''v3'']\<rparr>)"])
      (simp_all add: same_def toy_install_def)
qed

subsection \<open>Pruning\<close>

lemma delete_update: "filter (\<lambda>x. fst x \<noteq> n \<and> Q x) (AList.update n e al) = filter (\<lambda>x. fst x \<noteq> n \<and> Q x) al"
  by (induction al) auto

lemma is_directory: "(case e of Directory _ \<Rightarrow> True | _ \<Rightarrow> False) \<longleftrightarrow> (\<exists>fs. e = Directory fs)"
  by (cases e) auto

lemma remove_dirs_done:
  "faults s = [] \<Longrightarrow> remove_dirs names s = (Done (), s\<lparr>entries := filter (\<lambda>(n, e). n \<notin> set names) (entries s)\<rparr>)"
proof (induction names arbitrary: s)
  case (Cons n names)
  have del: "AList.delete n al = filter (\<lambda>(k, e). k \<noteq> n) al" for al :: "(string \<times> BinEntry) list"
    by (induction al) auto
  show ?case
    using Cons by (simp add: andThen_def step_done delete_update del conj_commute case_prod_unfold)
qed (simp add: ret_def)

text \<open>Pruning removes exactly the superseded versions: in a managed install it takes away every
  real directory with a semver name except \<open>current\<close> and the way back of the trial, also where these are
  spelled in another case, reports the names in order, and leaves everything else as it was.
\<close>

theorem prune_exact:
  assumes "faults s = []" "current s = LinkTo l"
  shows "\<exists>names. prune_versions env s = (Done names, s\<lparr>entries := filter (\<lambda>(n, e). n \<notin> set names) (entries s)\<rparr>) \<and> sorted names \<and>
    set names = {n. \<exists>fs. (n, Directory fs) \<in> set (entries s) \<and> is_version_dir_name (env_semver env) n \<and>
      \<not> (case current_target s of Some c \<Rightarrow> eq_ignore_ascii_case n c | None \<Rightarrow> False) \<and>
      \<not> (case Option.bind (read_trial s) tm_prev of Some p \<Rightarrow> eq_ignore_ascii_case n p | None \<Rightarrow> False)}"
proof -
  have "\<exists>names. prune_plan env s = Inr names" using assms(2) by (simp add: prune_plan_def is_managed_install_def)
  then obtain names where plan: "prune_plan env s = Inr names" ..
  then have names: "names = sort (map fst (filter (\<lambda>(n, e). is_version_dir_name (env_semver env) n \<and>
      to_ascii_lowercase n \<notin> set (keep_set s) \<and> (case e of Directory _ \<Rightarrow> True | _ \<Rightarrow> False)) (entries s)))"
    using assms(2) by (simp add: prune_plan_def is_managed_install_def)
  have keep: "to_ascii_lowercase n \<in> set (keep_set s) \<longleftrightarrow>
      (case current_target s of Some c \<Rightarrow> eq_ignore_ascii_case n c | None \<Rightarrow> False) \<or>
      (case Option.bind (read_trial s) tm_prev of Some p \<Rightarrow> eq_ignore_ascii_case n p | None \<Rightarrow> False)" for n
    by (auto simp: keep_set_def eq_ignore_ascii_case_def split: option.splits)
  have "prune_versions env s = (Done names, s\<lparr>entries := filter (\<lambda>(n, e). n \<notin> set names) (entries s)\<rparr>)"
    by (simp add: prune_versions_def andThen_def look_def plan lift_result_def ret_def remove_dirs_done assms(1))
  moreover have "sorted names" by (simp add: names)
  moreover have "set names = {n. \<exists>fs. (n, Directory fs) \<in> set (entries s) \<and> is_version_dir_name (env_semver env) n \<and>
      to_ascii_lowercase n \<notin> set (keep_set s)}"
    by (simp add: names is_directory set_eq_iff image_iff case_prod_unfold) blast
  ultimately show ?thesis by (intro exI [of _ names] conjI) (simp_all only: keep de_Morgan_disj)
qed

theorem prune_exact_witness:
  "\<exists>names. prune_versions toy_env (toy_install\<lparr>trial := Absent\<rparr>) =
     (Done names, toy_install\<lparr>trial := Absent, entries := filter (\<lambda>(n, e). n \<notin> set names) (entries toy_install)\<rparr>)"
proof -
  have "faults (toy_install\<lparr>trial := Absent\<rparr>) = []" "current (toy_install\<lparr>trial := Absent\<rparr>) = LinkTo ''v2''"
    by (simp_all add: toy_install_def)
  from prune_exact [OF this, of toy_env] obtain names where
    "prune_versions toy_env (toy_install\<lparr>trial := Absent\<rparr>) = (Done names, toy_install\<lparr>trial := Absent,
       entries := filter (\<lambda>(n, e). n \<notin> set names) (entries (toy_install\<lparr>trial := Absent\<rparr>))\<rparr>)" by blast
  then show ?thesis by (intro exI [of _ names]) simp
qed

end
