(* ===== verification/Update_Apply.thy ===== *)
theory Update_Apply
  imports Update_Sources_Props Update_Recovery
begin

text \<open>
  An update from end to end (\<open>apply_pushed_update\<close>, \<open>apply_version_update\<close> in
  \<open>src/node/self_update.rs\<close>): source, verification, lock, stage and flip, and the report of a
  failure; and the configured release source (\<open>src/config.rs\<close>).
\<close>

subsection \<open>The two entry points\<close>

text \<open>The surroundings of one run: is it root, does the spool open and flush.\<close>

record Run =
  run_root :: bool
  run_spool :: bool
  run_synced :: bool
  run_lock :: LockCalls

text \<open>
  The body both share: from the source to the flip. \<open>Inl\<close> carries the version to report with
  the error.
\<close>

definition staged_update ::
  "('k, 'g) Crypto \<Rightarrow> Surroundings \<Rightarrow> Run \<Rightarrow> (string \<times> string) list \<Rightarrow> HiggsError + UpdateSource \<Rightarrow> bool \<Rightarrow> string option \<Rightarrow>
   string \<Rightarrow> ((string \<times> HiggsError) + (string \<times> string)) fs" where
  "staged_update lib env run keys opened allow expected hint =
     (case opened of
        Inl e \<Rightarrow> ret (Inl (hint, e))
      | Inr src \<Rightarrow>
          andThen (look (installed_identity env)) (\<lambda>ident.
            let v = verify_and_check_with lib (env_semver env) src ident (run_spool run) (run_synced run) allow expected keys;
                target = unwrap_or hint (vf_authenticated v)
            in case vf_result v of
                 Inl e \<Rightarrow> ret (Inl (target, e))
               | Inr u \<Rightarrow>
                   andThen (attempt (andThen (step id) (\<lambda>_.
                       stage_and_flip env (vu_manifest u) (sp_content (vu_artifact u)) allow))) (\<lambda>r.
                     ret (case r of
                            Inl e \<Rightarrow> Inl (target, e)
                          | Inr _ \<Rightarrow> Inr (bi_version ident, um_version (vu_manifest u))))))"

definition apply_update ::
  "('k, 'g) Crypto \<Rightarrow> Surroundings \<Rightarrow> Run \<Rightarrow> (string \<times> string) list \<Rightarrow> HiggsError + UpdateSource \<Rightarrow> bool \<Rightarrow> string option \<Rightarrow>
   string \<Rightarrow> (string \<times> string) fs" where
  "apply_update lib env run keys opened allow expected hint =
     (let running = bi_version (env_ident env) in
      if run_root run then fail (UpdateApplyFailed ''refusing to apply a pushed update as root'')
      else case try_acquire (run_lock run) of
        Contended \<Rightarrow> fail busy
      | LockFailed e \<Rightarrow> andThen (record_update_failure running hint (env_describe env e)) (\<lambda>_. fail e)
      | Held \<Rightarrow>
          andThen (staged_update lib env run keys opened allow expected hint) (\<lambda>r.
            case r of
              Inr pair \<Rightarrow> ret pair
            | Inl (target, e) \<Rightarrow> andThen (record_update_failure running target (env_describe env e)) (\<lambda>_. fail e)))"

definition apply_pushed_update ::
  "('k, 'g) Crypto \<Rightarrow> Surroundings \<Rightarrow> Run \<Rightarrow> (string \<times> string) list \<Rightarrow> UrlLib \<Rightarrow> Net \<Rightarrow> resolver \<Rightarrow>
   string \<Rightarrow> string \<Rightarrow> string \<Rightarrow> bool \<Rightarrow> string \<Rightarrow> (string \<times> string) fs" where
  "apply_pushed_update lib env run keys urls net resolved manifest manifest_sig artifact_url allow target_hint =
     apply_update lib env run keys (push_source urls net resolved manifest manifest_sig artifact_url) allow None target_hint"

definition DEFAULT_RELEASE_URL :: string where
  "DEFAULT_RELEASE_URL = ''https://github.com/AI-Experiri/higgs/releases''"

definition release_url :: "string option \<Rightarrow> string" where
  "release_url configured =
     (case map_option trim configured of
        Some u \<Rightarrow> (if u \<noteq> [] then trim_slashes u else DEFAULT_RELEASE_URL)
      | None \<Rightarrow> DEFAULT_RELEASE_URL)"

text \<open>\<open>config\<close>: the \<open>release_url\<close> field of the node's configuration, if that loads.\<close>

definition apply_version_update ::
  "('k, 'g) Crypto \<Rightarrow> Surroundings \<Rightarrow> Run \<Rightarrow> (string \<times> string) list \<Rightarrow> UrlLib \<Rightarrow> Net \<Rightarrow> string option option \<Rightarrow> string \<Rightarrow>
   (string \<times> string) fs" where
  "apply_version_update lib env run keys urls net config version =
     (let release_base = (case config of Some c \<Rightarrow> release_url c | None \<Rightarrow> DEFAULT_RELEASE_URL)
      in apply_update lib env run keys (version_source urls (env_semver env) net (env_ident env) release_base version)
           False (Some version) version)"

subsection \<open>What an update that took effect was\<close>

definition genuine_update ::
  "('k, 'g) Crypto \<Rightarrow> Surroundings \<Rightarrow> (string \<times> string) list \<Rightarrow> UpdateSource \<Rightarrow> bool \<Rightarrow> string option \<Rightarrow> Install \<Rightarrow> Link \<Rightarrow> bool" where
  "genuine_update lib env keys src allow expected s l \<longleftrightarrow>
     (\<exists>key_id m artifact.
        vetted lib (env_semver env) src (installed_identity env s) allow expected keys key_id m \<and>
        eq_ignore_ascii_case (sha256_hex lib artifact) (um_sha256 m) \<and> length artifact \<le> 4 * 1024 ^ 3 \<and>
        admitted env m allow s \<and> sound_archive env m artifact \<and> l = LinkTo (version_name (um_version m)))"

lemma record_failure_stays: "keeps (\<lambda>s. G (current s)) (andThen (record_update_failure a b r) (\<lambda>_. fail e))"
  by (intro keeps_andThen keeps_current keeps_simple)

lemma admitted_same: "same s0 s \<Longrightarrow> admitted env m allow s = admitted env m allow s0"
  by (simp add: admitted_def same_views)

lemma stage_moves_same:
  "triple (same s0) (stage_and_flip env m artifact allow)
     (\<lambda>_ s. current s = current s0 \<or>
        current s = LinkTo (version_name (um_version m)) \<and> admitted env m allow s0 \<and> sound_archive env m artifact)
     (\<lambda>s. current s = current s0 \<or>
        current s = LinkTo (version_name (um_version m)) \<and> admitted env m allow s0 \<and> sound_archive env m artifact)"
proof (rule triple_cases)
  fix s1 assume s1: "same s0 s1"
  show "triple (\<lambda>s. s = s1) (stage_and_flip env m artifact allow)
     (\<lambda>_ s. current s = current s0 \<or>
        current s = LinkTo (version_name (um_version m)) \<and> admitted env m allow s0 \<and> sound_archive env m artifact)
     (\<lambda>s. current s = current s0 \<or>
        current s = LinkTo (version_name (um_version m)) \<and> admitted env m allow s0 \<and> sound_archive env m artifact)"
    by (rule triple_weaken [OF stage_moves [of s1 env m artifact allow]])
      (use admitted_same [OF s1] same_views(5) [OF s1] in auto)
qed

lemma staged_moves:
  assumes "source_of urls sv net resolved ident src"
  shows "triple (\<lambda>s. s = s0) (staged_update lib env run keys (Inr src) allow expected hint)
    (\<lambda>_ s. current s = current s0 \<or> genuine_update lib env keys src allow expected s0 (current s))
    (\<lambda>s. current s = current s0 \<or> genuine_update lib env keys src allow expected s0 (current s))"
    (is "triple ?s _ (\<lambda>_. ?J) ?J")
  unfolding staged_update_def sum.case
proof (rule triple_look_from)
  let ?ident = "installed_identity env s0"
  let ?v = "verify_and_check_with lib (env_semver env) src ?ident (run_spool run) (run_synced run) allow expected keys"
  fix x assume x: "x = ?ident"
  let ?target = "unwrap_or hint (vf_authenticated ?v)"
  have "triple ?s (case vf_result ?v of Inl e \<Rightarrow> ret (Inl (?target, e))
         | Inr u \<Rightarrow> andThen (attempt (andThen (step id) (\<lambda>_. stage_and_flip env (vu_manifest u) (sp_content (vu_artifact u)) allow)))
             (\<lambda>r. ret (case r of Inl e \<Rightarrow> Inl (?target, e) | Inr _ \<Rightarrow> Inr (bi_version x, um_version (vu_manifest u)))))
      (\<lambda>_. ?J) ?J"
  proof (cases "vf_result ?v")
    case (Inl e)
    then show ?thesis by (auto intro!: triple_ret)
  next
    case u: (Inr u)
    note g = sources.genuine [OF assms u]
    have "triple (same s0) (stage_and_flip env (vu_manifest u) (sp_content (vu_artifact u)) allow) (\<lambda>_. ?J) ?J"
      by (rule triple_weaken [OF stage_moves_same]) (use g in \<open>auto simp: genuine_update_def\<close>)
    moreover have "triple ?s (step id) (\<lambda>_. same s0) ?J"
      unfolding triple_def by (auto simp: step_def split: list.split fault.split)
    ultimately have "triple ?s (andThen (step id) (\<lambda>_. stage_and_flip env (vu_manifest u) (sp_content (vu_artifact u)) allow))
        (\<lambda>_. ?J) ?J"
      by (rule triple_andThen [rotated])
    then have "triple ?s (attempt (andThen (step id) (\<lambda>_. stage_and_flip env (vu_manifest u) (sp_content (vu_artifact u)) allow)))
        (\<lambda>_. ?J) ?J"
      by (rule triple_attempt)
    then have "triple ?s (andThen (attempt (andThen (step id) (\<lambda>_. stage_and_flip env (vu_manifest u) (sp_content (vu_artifact u)) allow)))
             (\<lambda>r. ret (case r of Inl e \<Rightarrow> Inl (?target, e) | Inr _ \<Rightarrow> Inr (bi_version x, um_version (vu_manifest u)))))
        (\<lambda>_. ?J) ?J"
      by (rule triple_andThen) (rule triple_ret)
    with u show ?thesis by simp
  qed
  then show "triple ?s (let v = verify_and_check_with lib (env_semver env) src x (run_spool run) (run_synced run) allow expected keys;
        target = unwrap_or hint (vf_authenticated v)
      in case vf_result v of Inl e \<Rightarrow> ret (Inl (target, e))
         | Inr u \<Rightarrow> andThen (attempt (andThen (step id) (\<lambda>_. stage_and_flip env (vu_manifest u) (sp_content (vu_artifact u)) allow)))
             (\<lambda>r. ret (case r of Inl e \<Rightarrow> Inl (target, e) | Inr _ \<Rightarrow> Inr (bi_version x, um_version (vu_manifest u)))))
      (\<lambda>_. ?J) ?J"
    by (simp add: x Let_def)
qed

lemma apply_moves:
  assumes "\<And>src. opened = Inr src \<Longrightarrow> source_of urls sv net resolved ident src"
  shows "current (snd (apply_update lib env run keys opened allow expected hint s)) = current s \<or>
    (\<exists>src. opened = Inr src \<and>
       genuine_update lib env keys src allow expected s (current (snd (apply_update lib env run keys opened allow expected hint s))))"
proof -
  let ?J = "\<lambda>s'. current s' = current s \<or> (\<exists>src. opened = Inr src \<and> genuine_update lib env keys src allow expected s (current s'))"
  let ?s = "\<lambda>s'. s' = s"
  have report: "keeps ?J (andThen (record_update_failure a b r) (\<lambda>_. fail e))" for a b r and e
    using record_failure_stays [of "\<lambda>l. l = current s \<or> (\<exists>src. opened = Inr src \<and> genuine_update lib env keys src allow expected s l)"] .
  have staged: "triple ?s (staged_update lib env run keys opened allow expected hint) (\<lambda>_. ?J) ?J"
  proof (cases opened)
    case (Inr src)
    show ?thesis
      unfolding Inr by (rule triple_weaken [OF staged_moves [OF assms [OF Inr]]]) auto
  qed (auto simp: staged_update_def intro!: triple_ret)
  have finish: "triple ?J (case r of Inr pair \<Rightarrow> ret pair
      | Inl (target, e) \<Rightarrow> andThen (record_update_failure a target (d e)) (\<lambda>_. fail e)) (\<lambda>_. ?J) ?J"
    for r :: "(string \<times> HiggsError) + (string \<times> string)" and a d
    using report by (auto simp: keeps_def triple_ret split: sum.split)
  have "triple ?s (apply_update lib env run keys opened allow expected hint) (\<lambda>_. ?J) ?J"
  proof (cases "run_root run")
    case True
    then show ?thesis by (auto simp: apply_update_def Let_def intro!: triple_fail)
  next
    case False
    show ?thesis
    proof (cases "try_acquire (run_lock run)")
      case Held
      then show ?thesis using False triple_andThen [OF staged finish] by (simp add: apply_update_def Let_def)
    next
      case Contended
      then show ?thesis using False by (auto simp: apply_update_def Let_def intro!: triple_fail)
    next
      case (LockFailed e)
      have "triple ?s (andThen (record_update_failure (bi_version (env_ident env)) hint (env_describe env e)) (\<lambda>_. fail e)) (\<lambda>_. ?J) ?J"
        using report unfolding keeps_def by (rule triple_weaken) simp_all
      with LockFailed False show ?thesis by (simp add: apply_update_def Let_def)
    qed
  qed
  then have "post (\<lambda>_. ?J) ?J (apply_update lib env run keys opened allow expected hint s)" by (rule tripleD) simp
  then show ?thesis by (rule post_snd)
qed

text \<open>C5. Whatever a hub sends, only a release can take over a node: after a pushed update, in whatever
  way it fails or dies, \<open>current\<close> is what it was, or names the version of a manifest that a pinned
  key signed, that is eligible for the installed build and not poisoned, with an archive of that
  manifest's SHA-256 whose executable reported that version. After a version-triggered update the
  same holds, and the version is the one that was asked for.
\<close>

theorem applied_update_is_genuine:
  assumes "buffered_net net"
  shows "(let l = current (snd (apply_pushed_update lib env run keys urls net resolved manifest sig url allow hint s))
      in l = current s \<or> (\<exists>src. push_source urls net resolved manifest sig url = Inr src \<and>
           genuine_update lib env keys src allow None s l)) \<and>
    (let l = current (snd (apply_version_update lib env run keys urls net config version s))
      in l = current s \<or> l = LinkTo (version_name version) \<and>
           (\<exists>src. genuine_update lib env keys src False (Some version) s l))"
proof -
  have push: "source_of urls (env_semver env) net resolved (env_ident env) src"
    if "push_source urls net resolved manifest sig url = Inr src" for src
    using that assms by (auto simp: source_of_def)
  let ?base = "case config of Some c \<Rightarrow> release_url c | None \<Rightarrow> DEFAULT_RELEASE_URL"
  have ver: "source_of urls (env_semver env) net resolved (env_ident env) src"
    if "version_source urls (env_semver env) net (env_ident env) ?base version = Inr src" for src
    using that assms by (auto simp: source_of_def)
  have asked: "l = LinkTo (version_name version)" if "genuine_update lib env keys src False (Some version) s l" for src l
    using that by (auto simp: genuine_update_def vetted_def)
  have "let l = current (snd (apply_version_update lib env run keys urls net config version s))
      in l = current s \<or> (\<exists>src. genuine_update lib env keys src False (Some version) s l)"
    using apply_moves [where opened = "version_source urls (env_semver env) net (env_ident env) ?base version"
        and allow = False and expected = "Some version" and hint = version and s = s and lib = lib and run = run
        and keys = keys and env = env, OF ver]
    unfolding apply_version_update_def Let_def by blast
  then show ?thesis
    using apply_moves [where opened = "push_source urls net resolved manifest sig url"
        and allow = allow and expected = None and hint = hint and s = s and lib = lib and run = run
        and keys = keys and env = env, OF push] asked
    unfolding apply_pushed_update_def Let_def by blast
qed

text \<open>A release of version 3 over an install of version 2, pushed by a hub or asked for.\<close>

definition settled_install :: Install where
  "settled_install = toy_install\<lparr>trial := Absent\<rparr>"

text \<open>The toy scheme: one key, one signature, of one manifest; the hash is the identity.\<close>

definition release_crypto :: "(unit, string) Crypto" where
  "release_crypto =
     \<lparr>key_from_base64 = \<lambda>pk. if pk = ''p'' then Some () else None, sig_decode = Some,
      sig_verify = \<lambda>_ m s. m = ''m3'' \<and> s = ''s3'',
      parse_json = \<lambda>m. if m = ''m3'' then Some (JObj
        [(''schema'', JInt 1), (''version'', JStr ''3''), (''commit'', JStr ''c''), (''file'', JStr ''f''),
         (''target'', JStr ''t''), (''variant'', JStr ''cpu''), (''sha256'', JStr ''ab'')]) else None,
      sha256_hex = \<lambda>s. s\<rparr>"

definition release_url_of :: "string \<Rightarrow> Url" where
  "release_url_of path =
     \<lparr>u_scheme = ''https'', u_username = [], u_password = None, u_host = Some (Ipv4 (Octets 140 82 121 3)),
      u_host_str = Some ''140.82.121.3'', u_port = Some 443, u_path = path, u_segments = Some [path],
      u_query = None, u_fragment = None\<rparr>"

definition release_urls :: UrlLib where
  "release_urls =
     \<lparr>url_parse = \<lambda>s. Some (release_url_of (if s = ''u'' then ''f'' else '''')),
      url_join = \<lambda>_ leaf. Some (release_url_of leaf),
      url_set_path = \<lambda>u p. u\<lparr>u_path := p\<rparr>, parse_ip = \<lambda>_. None\<rparr>"

definition answer_with :: "string \<Rightarrow> http_answer" where
  "answer_with body =
     \<lparr>ha_status = 200, ha_length = None, ha_start = 0,
      ha_body = [\<lparr>at_ns = 1, got = Bytes body, stored = Wrote\<rparr>, \<lparr>at_ns = 2, got = Eof, stored = Wrote\<rparr>]\<rparr>"

definition release_net :: Net where
  "release_net =
     \<lparr>net_get = \<lambda>u. map_option answer_with (map_of
        [(''higgs-v3-t.manifest'', ''m3''), (''higgs-v3-t.manifest.minisig'', ''s3''), (''higgs-v3-t.tar.gz'', ''ab'')]
        (u_path u)),
      net_get_pinned = \<lambda>u addrs. if u_path u = ''f'' \<and> addrs = [(V4 (Octets 140 82 121 3), 443)] then Some (answer_with ''ab'') else None,
      net_utf8 = \<lambda>_. True\<rparr>"

definition release_run :: Run where
  "release_run = \<lparr>run_root = False, run_spool = True, run_synced = True, run_lock = free_lock\<rparr>"


definition release_manifest :: UpdateManifest where
  "release_manifest =
     \<lparr>um_schema = 1, um_version = ''3'', um_commit = ''c'', um_file = ''f'', um_target = ''t'', um_variant = ''cpu'',
      um_sha256 = ''ab''\<rparr>"

definition release_spool :: ArtifactSpool where
  "release_spool = \<lparr>sp_content = ''ab'', sp_hashed = ''ab'', sp_written = 2, sp_cap = MAX_ARTIFACT_BYTES\<rparr>"

lemma release_eligible:
  "evaluate_eligibility (env_semver toy_env) (installed_identity toy_env settled_install) release_manifest False = Inr ()"
  by (simp add: evaluate_eligibility_def installed_identity_def current_target_def settled_install_def toy_install_def
      toy_env_def release_manifest_def opt_filter_def unwrap_or_def eq_ignore_ascii_case_def to_ascii_lowercase_def
      ascii_lower_char_def version_name_def entry_files_def)

lemma release_signed:
  "verify_manifest_any_with release_crypto ''m3'' ''s3'' [(''k'', ''p'')] = Inr (''k'', release_manifest)"
  by (simp add: verify_manifest_any_with_def verify_with_key_def release_crypto_def parse_verified_manifest_def
      manifest_from_json_def get_u32_def u64_max_def UPDATE_MANIFEST_SCHEMA_def release_manifest_def)

lemma release_body:
  "fetch_bounded_to (Some (answer_with ''ab'')) (spool_create MAX_ARTIFACT_BYTES) = (Inr (), release_spool)"
  by (simp add: fetch_bounded_to_def answer_with_def bad_status_def ARTIFACT_MAX_DURATION_def artifact_window_stalled_def
      ARTIFACT_PROGRESS_WINDOW_def write_chunk_def spool_create_def MAX_ARTIFACT_BYTES_def release_spool_def)

lemma release_verified:
  assumes "src_manifest src = Inr (''m3'', ''s3'')"
    "artifact_to src ''f'' (spool_create MAX_ARTIFACT_BYTES) = (Inr (), release_spool)"
    "expected = None \<or> expected = Some ''3''"
  shows "verify_and_check_with release_crypto (env_semver toy_env) src (installed_identity toy_env settled_install) True True
      False expected [(''k'', ''p'')] =
    verification (Some ''3'') (Some ''f'')
      (Inr \<lparr>vu_key_id = ''k'', vu_manifest = release_manifest, vu_artifact = release_spool\<rparr>)"
proof -
  have "um_version release_manifest = ''3''" "um_file release_manifest = ''f''"
    "verify_artifact_sha256_hex release_manifest ''ab'' = Inr ()"
    by (simp_all add: release_manifest_def verify_artifact_sha256_hex_def eq_ignore_ascii_case_def
        to_ascii_lowercase_def ascii_lower_char_def)
  moreover have "spool_finish release_crypto True release_spool = Inr ''ab''"
    by (simp add: spool_finish_def release_crypto_def release_spool_def)
  ultimately show ?thesis
    using assms(3) by (auto simp: verify_and_check_with_def assms(1,2) release_signed release_eligible)
qed


lemmas fs_defs = andThen_def ret_def require_def look_def step_def lift_result_def fsync_path_def best_effort_def

definition release_files :: files where
  "release_files = [(''higgs'', Regular ''ab'' True)]"

lemma release_guards: "stage_guards toy_env release_manifest False settled_install = (Done (), settled_install)"
proof -
  have "env_tree_safe toy_env" "read_trial settled_install = None"
      "\<not> is_failed_target (version_name (um_version release_manifest)) settled_install"
    by (simp_all add: toy_env_def settled_install_def toy_install_def read_trial_def slot_value_def is_failed_target_def
        read_failed_targets_def unwrap_or_def)
  then show ?thesis by (simp add: stage_guards_def fs_defs release_eligible)
qed

lemma release_files_checked: "stage_files toy_env release_manifest ''ab'' settled_install = (Done release_files, settled_install)"
proof -
  have "env_unpack toy_env ''ab'' = Some release_files" "faults settled_install = []"
    by (simp_all add: toy_env_def release_files_def settled_install_def toy_install_def)
  moreover have "require_regular_exec release_files" "normalize_published_modes release_files = Inr release_files"
    by (simp_all add: require_regular_exec_def release_files_def normalize_published_modes_def)
  moreover have "smoke_ok toy_env (um_version release_manifest) release_files = Inr ()"
    by (simp add: smoke_ok_def release_files_def toy_env_def release_manifest_def split_whitespace_def is_space_def)
  ultimately show ?thesis by (simp add: stage_files_def fs_defs)
qed

definition published_install :: Install where
  "published_install = settled_install
     \<lparr>entries := (''v3'', Directory [(''higgs'', Regular ''ab'' True), (''.variant'', Regular ''cpu'' False)]) # entries settled_install\<rparr>"

lemma release_published: "publish_version toy_env release_manifest release_files settled_install = (Done (), published_install)"
  by (simp add: publish_version_def fs_defs create_version_dir_def settled_install_def toy_install_def release_manifest_def
      version_name_def toy_env_def release_files_def rename_into_def node_at_def put_file_def published_install_def Let_def)

lemma release_flipped:
  "fst (flip_to_trial toy_env release_manifest False published_install) = Done () \<and>
   current (snd (flip_to_trial toy_env release_manifest False published_install)) = LinkTo ''v3''"
proof -
  have "installed_identity toy_env published_install = installed_identity toy_env settled_install"
    by (simp add: installed_identity_def current_target_def published_install_def settled_install_def toy_install_def
        toy_env_def version_name_def)
  then have "evaluate_eligibility (env_semver toy_env) (installed_identity toy_env published_install) release_manifest False = Inr ()"
    by (simp add: release_eligible)
  then show ?thesis
    by (simp add: flip_to_trial_def andThen_def look_def lift_result_def ret_def)
       (simp add: flip_current_to_def write_atomic_def remove_if_present_def clear_update_failure_def fs_defs
        published_install_def settled_install_def toy_install_def release_manifest_def version_name_def Let_def)
qed

lemma release_staged:
  "fst (stage_and_flip toy_env release_manifest ''ab'' False settled_install) = Done () \<and>
   current (snd (stage_and_flip toy_env release_manifest ''ab'' False settled_install)) = LinkTo ''v3''"
  using release_flipped
  by (simp add: stage_and_flip_def andThen_def release_guards release_files_checked release_published)


lemma release_pushed:
  "\<exists>src. push_source release_urls release_net (\<lambda>_ _. None) ''m3'' ''s3'' ''u'' = Inr src \<and>
    src_manifest src = Inr (''m3'', ''s3'') \<and>
    artifact_to src ''f'' (spool_create MAX_ARTIFACT_BYTES) = (Inr (), release_spool)"
proof -
  let ?u = "release_url_of ''f''"
  let ?a = "[(V4 (Octets 140 82 121 3), 443)]"
  have "check_pushed_sizes ''m3'' ''s3'' = Inr ()"
    by (simp add: check_pushed_sizes_def MAX_MANIFEST_BYTES_def MAX_SIG_BYTES_def)
  moreover have "parse_fetch_url release_urls ''u'' = Inr ?u"
    by (simp add: parse_fetch_url_def release_urls_def release_url_of_def is_allowed_fetch_url_def)
  moreover have "vet_and_resolve_pushed_url (\<lambda>_ _. None) ?u = Inr ?a"
    by (simp add: vet_and_resolve_pushed_url_def release_url_of_def unwrap_or_def Let_def)
  moreover have "net_get_pinned release_net ?u ?a = Some (answer_with ''ab'')" "last_segment ?u = ''f''"
    by (simp_all add: release_net_def release_url_of_def last_segment_def unwrap_or_def)
  ultimately show ?thesis by (simp add: push_source_def rbind_def release_body)
qed

lemma release_asked:
  "\<exists>src. version_source release_urls (env_semver toy_env) release_net (env_ident toy_env) DEFAULT_RELEASE_URL ''3'' = Inr src \<and>
    src_manifest src = Inr (''m3'', ''s3'') \<and>
    artifact_to src ''f'' (spool_create MAX_ARTIFACT_BYTES) = (Inr (), release_spool)"
proof -
  have "release_asset_urls release_urls (env_semver toy_env) (env_ident toy_env) DEFAULT_RELEASE_URL ''3'' =
      Inr (release_url_of ''higgs-v3-t.manifest'', release_url_of ''higgs-v3-t.manifest.minisig'',
        release_url_of ''higgs-v3-t.tar.gz'')"
    by (simp add: release_asset_urls_def toy_env_def parse_courier_url_def release_urls_def release_url_of_def
        asset_suffix_def Let_def)
  moreover have "net_get release_net (release_url_of ''higgs-v3-t.manifest'') = Some (answer_with ''m3'')"
      "net_get release_net (release_url_of ''higgs-v3-t.manifest.minisig'') = Some (answer_with ''s3'')"
      "net_get release_net (release_url_of ''higgs-v3-t.tar.gz'') = Some (answer_with ''ab'')"
      "net_utf8 release_net s" for s
    by (simp_all add: release_net_def release_url_of_def)
  moreover have "fetch_bounded (Some (answer_with ''m3'')) MAX_MANIFEST_BYTES = Inr ''m3''"
      "fetch_bounded (Some (answer_with ''s3'')) MAX_SIG_BYTES = Inr ''s3''"
    by (simp_all add: fetch_bounded_def answer_with_def bad_status_def HTTP_FETCH_DEADLINE_def MAX_MANIFEST_BYTES_def MAX_SIG_BYTES_def)
  ultimately show ?thesis by (simp add: version_source_def rbind_def fetch_sig_def release_body)
qed

lemma release_applied:
  assumes "src_manifest src = Inr (''m3'', ''s3'')"
    "artifact_to src ''f'' (spool_create MAX_ARTIFACT_BYTES) = (Inr (), release_spool)"
    "expected = None \<or> expected = Some ''3''"
  shows "current (snd (apply_update release_crypto toy_env release_run [(''k'', ''p'')] (Inr src) False expected ''3'' settled_install)) =
    LinkTo ''v3''"
proof -
  have "faults settled_install = []" by (simp add: settled_install_def toy_install_def)
  moreover have "sp_content release_spool = ''ab''" by (simp add: release_spool_def)
  moreover obtain s where "stage_and_flip toy_env release_manifest ''ab'' False settled_install = (Done (), s)"
      "current s = LinkTo ''v3''"
    using release_staged by (cases "stage_and_flip toy_env release_manifest ''ab'' False settled_install") auto
  moreover note release_verified [OF assms]
  ultimately show ?thesis
    by (simp add: apply_update_def release_run_def free_lock_held staged_update_def andThen_def look_def step_def
        attempt_def ret_def verification_def Let_def)
qed

theorem applied_update_is_genuine_witness:
  "let pushed = snd (apply_pushed_update release_crypto toy_env release_run [(''k'', ''p'')] release_urls release_net
         (\<lambda>_ _. None) ''m3'' ''s3'' ''u'' False ''3'' settled_install);
       asked = snd (apply_version_update release_crypto toy_env release_run [(''k'', ''p'')] release_urls release_net
         None ''3'' settled_install)
   in current pushed = LinkTo ''v3'' \<and> current asked = LinkTo ''v3'' \<and>
      (\<exists>src. push_source release_urls release_net (\<lambda>_ _. None) ''m3'' ''s3'' ''u'' = Inr src \<and>
         genuine_update release_crypto toy_env [(''k'', ''p'')] src False None settled_install (LinkTo ''v3'')) \<and>
      (\<exists>src. genuine_update release_crypto toy_env [(''k'', ''p'')] src False (Some ''3'') settled_install (LinkTo ''v3''))"
proof -
  have pushed: "current (snd (apply_pushed_update release_crypto toy_env release_run [(''k'', ''p'')] release_urls release_net
         (\<lambda>_ _. None) ''m3'' ''s3'' ''u'' False ''3'' settled_install)) = LinkTo ''v3''"
    using release_pushed release_applied [of _ None] by (auto simp: apply_pushed_update_def)
  have asked: "current (snd (apply_version_update release_crypto toy_env release_run [(''k'', ''p'')] release_urls release_net
         None ''3'' settled_install)) = LinkTo ''v3''"
    using release_asked release_applied [of _ "Some ''3''"] by (auto simp: apply_version_update_def Let_def)
  have was: "current settled_install = LinkTo ''v2''" by (simp add: settled_install_def toy_install_def)
  have "buffered_net release_net"
    by (auto simp: buffered_net_def release_net_def buffered_def answer_with_def split: if_splits)
  from applied_update_is_genuine [OF this, of release_crypto toy_env release_run "[(''k'', ''p'')]" release_urls
      "\<lambda>_ _. None" "''m3''" "''s3''" "''u''" False "''3''" settled_install None "''3''"]
  show ?thesis unfolding Let_def pushed asked was by auto
qed

subsection \<open>What the hub hears of it\<close>

text \<open>Without faults: a step neither dies nor leaves a fault behind, and keeps \<open>P\<close>.\<close>

definition quiet :: "(Install \<Rightarrow> bool) \<Rightarrow> 'a fs \<Rightarrow> bool" where
  "quiet P m \<longleftrightarrow> (\<forall>s. faults s = [] \<and> P s \<longrightarrow>
     fst (m s) \<noteq> Crashed \<and> faults (snd (m s)) = [] \<and> P (snd (m s)))"

lemma quiet_lastfailD:
  assumes "quiet P m" "faults s = []" "P s"
  obtains (finished) x s' where "m s = (Done x, s')" "faults s' = []" "P s'"
  | (refused) e s' where "m s = (Failed e, s')" "faults s' = []" "P s'"
proof -
  have q: "fst (m s) \<noteq> Crashed" "faults (snd (m s)) = []" "P (snd (m s))"
    using assms unfolding quiet_def by blast+
  show thesis
    by (cases rule: result_cases [of "m s"]) (use q that in auto)
qed

lemma quiet_simple:
  "quiet P (ret x)" "quiet P (fail e)" "quiet P (look f)" "quiet P (require b e)" "quiet P (lift_result r)"
  by (simp_all add: quiet_def ret_def fail_def look_def require_def lift_result_def split: sum.split)

lemma quiet_step: "(\<And>s. P s \<Longrightarrow> P (eff s)) \<Longrightarrow> (\<And>s. faults (eff s) = faults s) \<Longrightarrow> quiet P (step eff)"
  by (simp add: quiet_def step_def)

lemma quiet_andThen:
  assumes "quiet P m" "\<And>x. quiet P (f x)"
  shows "quiet P (andThen m f)"
  unfolding quiet_def
proof (intro allI impI)
  fix s assume s: "faults s = [] \<and> P s"
  then show "fst (andThen m f s) \<noteq> Crashed \<and> faults (snd (andThen m f s)) = [] \<and> P (snd (andThen m f s))"
  proof (cases rule: quiet_lastfailD [OF assms(1) conjunct1 [OF s] conjunct2 [OF s], case_names finished refused])
    case (finished x s')
    then show ?thesis using assms(2) [of x] by (simp add: andThen_def quiet_def)
  qed (simp add: andThen_def)
qed

lemma quiet_best_effort:
  assumes "quiet P m"
  shows "quiet P (best_effort m)"
  unfolding quiet_def
proof (intro allI impI)
  fix s assume s: "faults s = [] \<and> P s"
  show "fst (best_effort m s) \<noteq> Crashed \<and> faults (snd (best_effort m s)) = [] \<and> P (snd (best_effort m s))"
    by (cases rule: quiet_lastfailD [OF assms conjunct1 [OF s] conjunct2 [OF s]]) (simp_all add: best_effort_def)
qed

lemma quiet_attempt:
  assumes "quiet P m"
  shows "quiet P (attempt m)"
  unfolding quiet_def
proof (intro allI impI)
  fix s assume s: "faults s = [] \<and> P s"
  show "fst (attempt m s) \<noteq> Crashed \<and> faults (snd (attempt m s)) = [] \<and> P (snd (attempt m s))"
    by (cases rule: quiet_lastfailD [OF assms conjunct1 [OF s] conjunct2 [OF s]]) (simp_all add: attempt_def)
qed

lemma andThen_cases:
  assumes "andThen m f s = (Done y, s'')"
  obtains x s' where "m s = (Done x, s')" "f x s' = (Done y, s'')"
  using assms by (cases rule: result_cases [of "m s"]) (auto simp: andThen_def)

text \<open>A report can be written as long as nothing fails; a link in its place is as good as none.\<close>

abbreviation "reportable s \<equiv> lastfail s \<noteq> Blocked"

lemma quiet_markers:
  "quiet reportable (remove_if_present trial_slot)" "quiet reportable (remove_if_present bootfails_slot)"
  "quiet reportable (remove_if_present lastfail_slot)" "quiet reportable (write_atomic trial_slot t)"
  "quiet reportable fsync_path" "quiet reportable (step id)"
  unfolding remove_if_present_def write_atomic_def fsync_path_def
  by (intro quiet_andThen quiet_simple quiet_step; simp)+

lemma quiet_flip: "quiet reportable (flip_current_to v)"
  unfolding flip_current_to_def
  by (intro quiet_andThen quiet_simple quiet_best_effort quiet_markers quiet_step) simp_all

lemma put_file_report [simp]: "lastfail (put_file v n nd s) = lastfail s"
  by (simp add: put_file_def split: option.split BinEntry.split)

lemma quiet_publish: "quiet reportable (publish_version env m fs)"
proof -
  have rename: "quiet reportable (rename_into v n nd)" for v n nd
    unfolding rename_into_def by (intro quiet_andThen quiet_simple quiet_step) simp_all
  have files: "quiet reportable (publish_files v fs)" for v
    by (induction fs) (auto intro!: quiet_andThen quiet_simple rename quiet_markers)
  have dir: "quiet reportable (create_version_dir v)" for v
    unfolding create_version_dir_def
    by (intro quiet_andThen quiet_simple) (auto split: option.split BinEntry.split intro!: quiet_simple quiet_step)
  show ?thesis
    unfolding publish_version_def Let_def by (intro quiet_andThen quiet_simple quiet_markers rename files dir)
qed

lemma quiet_guards: "quiet reportable (stage_guards env m allow)"
  unfolding stage_guards_def
  by (intro quiet_andThen quiet_simple) (auto split: prod.split option.split intro!: quiet_andThen quiet_simple quiet_markers)

lemma quiet_files: "quiet reportable (stage_files env m artifact)"
  unfolding stage_files_def by (intro quiet_andThen quiet_simple quiet_markers)

lemma quiet_clear: "quiet reportable clear_update_failure"
  unfolding clear_update_failure_def by (intro quiet_andThen quiet_best_effort quiet_markers)

lemma quiet_flip_to_trial: "quiet reportable (flip_to_trial env m allow)"
  unfolding flip_to_trial_def Let_def by (intro quiet_andThen quiet_simple quiet_markers quiet_flip quiet_clear)

lemma quiet_stage: "quiet reportable (stage_and_flip env m artifact allow)"
  unfolding stage_and_flip_def
  by (intro quiet_andThen quiet_guards quiet_files quiet_publish quiet_flip_to_trial)

lemma clear_done:
  assumes "faults s = []" "reportable s"
  shows "clear_update_failure s = (Done (), s\<lparr>lastfail := Absent\<rparr>)"
  using assms by (simp add: clear_update_failure_def andThen_def best_effort_def remove_done fsync_done)

text \<open>An update that went through has cleared the report.\<close>

definition clears :: "'a fs \<Rightarrow> bool" where
  "clears m \<longleftrightarrow> (\<forall>s x s'. faults s = [] \<longrightarrow> reportable s \<longrightarrow> m s = (Done x, s') \<longrightarrow> lastfail s' = Absent)"

lemma clears_andThen:
  assumes "quiet reportable m" "\<And>x. clears (f x)"
  shows "clears (andThen m f)"
  unfolding clears_def
proof (intro allI impI)
  fix s y s'' assume s: "faults s = []" "reportable s" and run: "andThen m f s = (Done y, s'')"
  from run obtain x s' where x: "m s = (Done x, s')" and f: "f x s' = (Done y, s'')" by (rule andThen_cases)
  from assms(1) s x have "faults s' = []" "reportable s'" by (force simp: quiet_def)+
  with assms(2) [of x, unfolded clears_def] f show "lastfail s'' = Absent" by blast
qed

lemma clears_stage: "clears (stage_and_flip env m artifact allow)"
proof -
  have last_step: "clears clear_update_failure" by (simp add: clears_def clear_done)
  show ?thesis
    unfolding stage_and_flip_def flip_to_trial_def Let_def
    by (intro clears_andThen quiet_guards quiet_files quiet_publish quiet_simple quiet_markers quiet_flip last_step)
qed

lemma look_then: "andThen (look f) g s = g (f s) s"
  by (simp add: andThen_def look_def)

lemma attempt_ret:
  "andThen (attempt m) (\<lambda>r. ret (g r)) s =
     (case m s of (Done x, s') \<Rightarrow> (Done (g (Inr x)), s') | (Failed e, s') \<Rightarrow> (Done (g (Inl e)), s') | (Crashed, s') \<Rightarrow> (Crashed, s'))"
  by (cases rule: result_cases [of "m s"]) (simp_all add: andThen_def attempt_def ret_def)

lemma staged_outcome:
  assumes "faults s = []" "reportable s"
  shows "\<exists>r s'. staged_update lib env run keys opened allow expected hint s = (Done r, s') \<and> faults s' = [] \<and>
    (case r of Inr _ \<Rightarrow> lastfail s' = Absent | Inl _ \<Rightarrow> True)"
proof (cases opened)
  case (Inl e)
  then show ?thesis using assms by (simp add: staged_update_def ret_def)
next
  case (Inr src)
  let ?v = "verify_and_check_with lib (env_semver env) src (installed_identity env s) (run_spool run) (run_synced run) allow expected keys"
  show ?thesis
  proof (cases "vf_result ?v")
    case (Inl e)
    then show ?thesis using assms Inr by (simp add: staged_update_def andThen_def look_def Let_def ret_def)
  next
    case u: (Inr u)
    let ?m = "andThen (step id) (\<lambda>_. stage_and_flip env (vu_manifest u) (sp_content (vu_artifact u)) allow)"
    have q: "quiet reportable ?m" by (intro quiet_andThen quiet_markers quiet_stage)
    have c: "clears ?m" by (intro clears_andThen quiet_markers clears_stage)
    show ?thesis
    proof (cases rule: quiet_lastfailD [OF q assms, case_names finished refused])
      case (finished x s')
      then have "lastfail s' = Absent" using c [unfolded clears_def] assms by blast
      with finished Inr u show ?thesis
        by (simp add: staged_update_def look_then Let_def attempt_ret)
    next
      case (refused e s')
      with Inr u show ?thesis
        by (simp add: staged_update_def look_then Let_def attempt_ret)
    qed
  qed
qed

text \<open>The hub hears the truth about an update: where nothing fails underneath, a refused or failed
  update leaves a report for the running version, with the cause, which the next HELLO carries; an
  update that took effect leaves nothing to report. Only a refusal for being root, or for
  another update being under way, is not recorded.
\<close>

theorem outcome_is_reported:
  assumes "faults s = []" "lastfail s \<noteq> Blocked" "\<not> run_root run" "try_acquire (run_lock run) \<noteq> Contended"
  shows "case apply_update lib env run keys opened allow expected hint s of
      (Done _, s') \<Rightarrow> reportable_update_failure_for (bi_version (env_ident env)) s' = (None, True)
    | (Failed e, s') \<Rightarrow> \<exists>target. reportable_update_failure_for (bi_version (env_ident env)) s' =
        (Some (failure (bi_version (env_ident env)) target (env_describe env e)), True)
    | (Crashed, s') \<Rightarrow> False"
proof -
  have told: "reportable_update_failure_for v (s'\<lparr>lastfail := Holds (failure v target why)\<rparr>) = (Some (failure v target why), True)"
    for v target why s'
    by (simp add: reportable_update_failure_for_def failure_def)
  show ?thesis
  proof (cases "try_acquire (run_lock run)")
    case (LockFailed e)
    have "apply_update lib env run keys opened allow expected hint s =
       (Failed e, s\<lparr>lastfail := Holds (failure (bi_version (env_ident env)) hint (env_describe env e))\<rparr>)"
      using assms LockFailed
      by (simp add: apply_update_def Let_def andThen_def record_failure_done fail_def)
    then show ?thesis by (simp only: prod.case outcome.case) (rule exI, rule told)
  next
    case Held
    obtain r s' where r: "staged_update lib env run keys opened allow expected hint s = (Done r, s')" "faults s' = []"
        "case r of Inr _ \<Rightarrow> lastfail s' = Absent | Inl _ \<Rightarrow> True"
      using staged_outcome [OF assms(1,2)] by blast
    show ?thesis
    proof (cases r)
      case (Inl te)
      obtain target e where te: "te = (target, e)" by fastforce
      have "apply_update lib env run keys opened allow expected hint s =
         (Failed e, s'\<lparr>lastfail := Holds (failure (bi_version (env_ident env)) target (env_describe env e))\<rparr>)"
        using assms(3) Held r(1,2) Inl te
        by (simp add: apply_update_def Let_def andThen_def record_failure_done fail_def)
      then show ?thesis by (simp only: prod.case outcome.case) (rule exI, rule told)
    next
      case (Inr pair)
      have "apply_update lib env run keys opened allow expected hint s = (Done pair, s')"
        using assms(3) Held r(1) Inr by (simp add: apply_update_def Let_def andThen_def ret_def)
      with r(3) Inr show ?thesis by (simp add: reportable_update_failure_for_def)
    qed
  qed (use assms(4) in simp)
qed

theorem outcome_is_reported_witness:
  "(case apply_update toy_crypto toy_env \<lparr>run_root = False, run_spool = True, run_synced = True, run_lock = free_lock\<rparr>
       [] (Inl (fetch_err ''refused'')) False None ''3'' toy_install of
      (Failed e, s') \<Rightarrow> snd (reportable_update_failure_for ''2'' s') | _ \<Rightarrow> False)"
proof -
  let ?run = "\<lparr>run_root = False, run_spool = True, run_synced = True, run_lock = free_lock\<rparr>"
  have "apply_update toy_crypto toy_env ?run [] (Inl (fetch_err ''refused'')) False None ''3'' toy_install =
    (Failed (fetch_err ''refused''),
     snd (apply_update toy_crypto toy_env ?run [] (Inl (fetch_err ''refused'')) False None ''3'' toy_install))"
    by (simp add: apply_update_def Let_def free_lock_held staged_update_def andThen_def ret_def record_failure_done
        fail_def toy_install_def)
  moreover have "faults toy_install = []" "lastfail toy_install \<noteq> Blocked" "\<not> run_root ?run"
      "try_acquire (run_lock ?run) \<noteq> Contended"
    by (simp_all add: toy_install_def free_lock_held)
  note outcome_is_reported [OF this, of toy_env toy_crypto "[]" "Inl (fetch_err ''refused'')" False None "''3''"]
  ultimately show ?thesis by (auto simp: toy_env_def split: prod.splits outcome.splits)
qed

end
