(* ===== verification/Update_Restart.thy ===== *)
theory Update_Restart
  imports Update_Recovery
begin

text \<open>
  The restart that activates a staged update (\<open>await_node_shutdown\<close>,
  \<open>drain_with_operator_override\<close>, \<open>operator_stop_pending\<close> in
  \<open>src/node/self_update.rs\<close>, \<open>drain_until_idle\<close> in \<open>src/node/runtime.rs\<close>, the end of
  \<open>run_node_daemon_body\<close> in \<open>src/node/cli.rs\<close>). Times are milliseconds; a signal is the time at
  which it is first there, \<open>None\<close> if it never comes.
\<close>

subsection \<open>Waiting for a signal\<close>

datatype ShutdownCause = Operator | Update

record Signals =
  operator_at :: "nat option"
  restart_at :: "nat option"
  takeover_at :: "nat option"  \<comment> \<open>the connection was superseded by the installed service\<close>
  takeover_first :: bool  \<comment> \<open>which branch an unbiased \<open>select!\<close> takes when both are ready\<close>

text \<open>The time at which a task that polls from \<open>t\<close> on sees the signal.\<close>

definition seen_from :: "nat \<Rightarrow> nat option \<Rightarrow> nat option" where
  "seen_from t signal = map_option (max t) signal"

definition await_node_shutdown :: "nat option \<Rightarrow> nat option \<Rightarrow> nat \<Rightarrow> (ShutdownCause \<times> nat) option" where
  "await_node_shutdown operator restart t =
     (case (seen_from t operator, seen_from t restart) of
        (None, None) \<Rightarrow> None
      | (Some a, None) \<Rightarrow> Some (Operator, a)
      | (None, Some b) \<Rightarrow> Some (Update, b)
      | (Some a, Some b) \<Rightarrow> if a \<le> b then Some (Operator, a) else Some (Update, b))"

definition leave_serve_loop :: "Signals \<Rightarrow> nat \<Rightarrow> (ShutdownCause \<times> nat) option" where
  "leave_serve_loop sig t =
     (let cause = await_node_shutdown (operator_at sig) (restart_at sig) t in
      case (seen_from t (takeover_at sig), cause) of
        (None, c) \<Rightarrow> c
      | (Some k, None) \<Rightarrow> Some (Operator, k)
      | (Some k, Some (c, x)) \<Rightarrow>
          if k < x \<or> k = x \<and> takeover_first sig then Some (Operator, k) else Some (c, x))"

definition drain_with_operator_override :: "nat option \<Rightarrow> (bool \<times> nat) option \<Rightarrow> nat \<Rightarrow> (bool option \<times> nat) option" where
  "drain_with_operator_override operator finished t =
     (case (seen_from t operator, finished) of
        (None, None) \<Rightarrow> None
      | (Some a, None) \<Rightarrow> Some (None, a)
      | (None, Some (drained, b)) \<Rightarrow> Some (Some drained, b)
      | (Some a, Some (drained, b)) \<Rightarrow> if a \<le> b then Some (None, a) else Some (Some drained, b))"

definition operator_stop_pending :: "nat option \<Rightarrow> nat \<Rightarrow> bool" where
  "operator_stop_pending operator t = (case operator of Some a \<Rightarrow> a \<le> t | None \<Rightarrow> False)"

subsection \<open>The drain\<close>

text \<open>What a poll at a given time answers: generations, live streams, and how long it took.\<close>

type_synonym polls = "nat \<Rightarrow> nat \<times> nat \<times> nat"

partial_function (option) drain_loop :: "polls \<Rightarrow> nat \<Rightarrow> nat \<Rightarrow> nat \<Rightarrow> nat \<Rightarrow> (bool \<times> nat) option" where
  "drain_loop polled poll_every deadline started t =
     (case polled t of (in_flight, streams, took) \<Rightarrow>
        if in_flight = 0 \<and> streams = 0 then Some (True, t + took)
        else if t + took - started \<ge> deadline then Some (False, t + took)
        else drain_loop polled poll_every deadline started (t + took + poll_every))"

definition drain_until_idle :: "polls \<Rightarrow> nat \<Rightarrow> nat \<Rightarrow> nat \<Rightarrow> nat \<Rightarrow> (bool \<times> nat) option" where
  "drain_until_idle polled quiesced poll_every deadline t =
     drain_loop polled poll_every deadline (t + quiesced) (t + quiesced)"

definition UPDATE_DRAIN_DEADLINE :: nat where "UPDATE_DRAIN_DEADLINE = 60000"

definition DRAIN_POLL :: nat where "DRAIN_POLL = 500"

subsection \<open>The end of the node\<close>

text \<open>How long the parts of the teardown take.\<close>

record Teardown =
  quiesce_takes :: nat
  drain_polls :: polls
  confirm_takes :: nat
  shutdown_takes :: nat

definition drained_until :: "Signals \<Rightarrow> Teardown \<Rightarrow> ShutdownCause \<Rightarrow> nat \<Rightarrow> (bool \<times> nat) option" where
  "drained_until sig w cause t =
     (if cause = Update
      then map_option (\<lambda>(r, e). (r \<noteq> None, e))
             (drain_with_operator_override (operator_at sig)
               (drain_until_idle (drain_polls w) (quiesce_takes w) DRAIN_POLL UPDATE_DRAIN_DEADLINE t) t)
      else Some (False, t))"

text \<open>From the serve loop to the last gate; whether the node re-executes, and when that is decided.\<close>

definition node_teardown :: "Signals \<Rightarrow> Teardown \<Rightarrow> nat \<Rightarrow> (bool \<times> nat) option" where
  "node_teardown sig w t =
     Option.bind (leave_serve_loop sig t) (\<lambda>(cause, left).
     Option.bind (drained_until sig w cause (left + confirm_takes w)) (\<lambda>(update_restart, e).
       let ended = e + shutdown_takes w in
       Some (update_restart \<and> \<not> operator_stop_pending (operator_at sig) ended, ended)))"

text \<open>The trial of the running version is confirmed on the way out; \<open>None\<close>: not a managed install.\<close>

definition confirm_on_exit :: "LockCalls option \<Rightarrow> string \<Rightarrow> unit fs" where
  "confirm_on_exit confirm running_version =
     (case confirm of Some c \<Rightarrow> best_effort (confirm_alive c running_version) | None \<Rightarrow> ret ())"

text \<open>The process image after the node: the argument vector it is replaced with, if it is.\<close>

definition reexec :: "bool \<Rightarrow> string option \<Rightarrow> bool \<Rightarrow> string list \<Rightarrow> (string \<times> string list) option" where
  "reexec update_restart bin exec_works args =
     (case bin of
        Some dir \<Rightarrow> (if update_restart \<and> exec_works then Some (dir @ ''/current/higgs'', ''--node'' # args) else None)
      | None \<Rightarrow> None)"

subsection \<open>Properties\<close>

lemma drain_loop_ends:
  assumes "\<And>x. snd (snd (polled x)) \<le> cost" "0 < poll_every" "started \<le> t" "t \<le> started + deadline + poll_every"
  shows "\<exists>drained e. drain_loop polled poll_every deadline started t = Some (drained, e) \<and> t \<le> e \<and>
           e \<le> started + deadline + poll_every + cost"
  using assms(3,4)
proof (induction "started + deadline + poll_every - t" arbitrary: t rule: less_induct)
  case less
  obtain gens streams took where p: "polled t = (gens, streams, took)" by (cases "polled t")
  have took: "took \<le> cost" using assms(1)[of t] by (simp add: p)
  show ?case
  proof (cases "(gens = 0 \<and> streams = 0) \<or> deadline \<le> t + took - started")
    case True
    then show ?thesis using took less.prems by (subst drain_loop.simps) (auto simp: p)
  next
    case False
    let ?u = "t + took + poll_every"
    have "started + deadline + poll_every - ?u < started + deadline + poll_every - t" "started \<le> ?u"
      "?u \<le> started + deadline + poll_every"
      using False less.prems assms(2) by auto
    from less.hyps[OF this] obtain drained e where
      e: "drain_loop polled poll_every deadline started ?u = Some (drained, e)" "?u \<le> e"
      "e \<le> started + deadline + poll_every + cost" by blast
    have "drain_loop polled poll_every deadline started t = Some (drained, e)"
      using False by (subst drain_loop.simps) (auto simp: p e(1))
    then show ?thesis using e by auto
  qed
qed

lemma drain_ends:
  assumes "\<And>x. snd (snd (polled x)) \<le> cost" "0 < poll_every"
  shows "\<exists>drained e. drain_until_idle polled quiesced poll_every deadline t = Some (drained, e) \<and> t \<le> e \<and>
           e \<le> t + quiesced + deadline + poll_every + cost"
  using drain_loop_ends[of polled cost poll_every "t + quiesced" "t + quiesced" deadline] assms
  by (fastforce simp: drain_until_idle_def)

lemma drain_loop_after:
  assumes "drain_loop polled p d started t = Some y"
  shows "t \<le> snd y"
  by (rule drain_loop.raw_induct [where P = "\<lambda>_ _ _ _ t y. t \<le> snd y", OF _ assms])
    (fastforce split: prod.splits if_splits)

lemma drain_after: "drain_until_idle polled q p d t = Some (drained, e) \<Longrightarrow> t \<le> e"
  using drain_loop_after[of polled p d "t + q" "t + q" "(drained, e)"] by (simp add: drain_until_idle_def)

lemma drained_until_cases:
  assumes "drained_until sig w cause t = Some (go, e)"
  shows "t \<le> e" "go \<longrightarrow> cause = Update \<and> \<not> operator_stop_pending (operator_at sig) t"
    "\<not> go \<and> cause = Update \<longrightarrow> (\<exists>a. operator_at sig = Some a \<and> e = max t a)" "cause = Operator \<longrightarrow> \<not> go \<and> e = t"
    "operator_at sig = Some a \<Longrightarrow> e \<le> max t a"
  using assms drain_after[of "drain_polls w" "quiesce_takes w" DRAIN_POLL UPDATE_DRAIN_DEADLINE t]
  by (auto simp: drained_until_def drain_with_operator_override_def seen_from_def operator_stop_pending_def
      split: if_splits option.splits prod.splits)

lemma leave_cases:
  assumes "leave_serve_loop sig t = Some (cause, left)"
  shows "t \<le> left"
    "cause = Update \<longrightarrow> (\<exists>r. restart_at sig = Some r \<and> left = max t r) \<and> \<not> operator_stop_pending (operator_at sig) left"
    "cause = Operator \<longrightarrow> operator_stop_pending (operator_at sig) left \<or> takeover_at sig \<noteq> None"
    "operator_at sig = Some a \<Longrightarrow> left \<le> max t a"
  using assms
  by (auto simp: leave_serve_loop_def await_node_shutdown_def seen_from_def operator_stop_pending_def Let_def
      split: if_splits option.splits prod.splits)

text \<open>An operator's stop wins over a restart for an update. The node re-executes only if an update
  asked for it and no stop signal was there when the last gate was passed, also one that came
  during the drain or the teardown of the workers; without a takeover by the installed service, it
  then does. And no stop waits for the drain: once it has come, only the confirmation of the trial
  and the teardown of the workers still take their time.
\<close>

theorem operator_stop_wins:
  assumes ended: "node_teardown sig w t = Some (restarts, ended)"
  shows "(restarts \<longrightarrow> restart_at sig \<noteq> None \<and> \<not> operator_stop_pending (operator_at sig) ended) \<and>
         (takeover_at sig = None \<longrightarrow> (restarts \<longleftrightarrow> \<not> operator_stop_pending (operator_at sig) ended)) \<and>
         (case operator_at sig of
            Some a \<Rightarrow> ended \<le> max t a + confirm_takes w + shutdown_takes w
          | None \<Rightarrow> True)"
proof -
  from ended obtain cause left go e where
    l: "leave_serve_loop sig t = Some (cause, left)" and
    d: "drained_until sig w cause (left + confirm_takes w) = Some (go, e)" and
    r: "ended = e + shutdown_takes w" "restarts = (go \<and> \<not> operator_stop_pending (operator_at sig) ended)"
    by (auto simp: node_teardown_def Let_def bind_eq_Some_conv)
  note dc = drained_until_cases[OF d]
  have "takeover_at sig = None \<longrightarrow> (restarts \<longleftrightarrow> \<not> operator_stop_pending (operator_at sig) ended)"
    using r dc leave_cases(1-3)[OF l] by (cases cause) (auto simp: operator_stop_pending_def split: option.splits)
  moreover have "case operator_at sig of Some a \<Rightarrow> ended \<le> max t a + confirm_takes w + shutdown_takes w | None \<Rightarrow> True"
    using r dc(5) leave_cases(4)[OF l] by (fastforce simp: max_def split: if_splits option.splits)
  ultimately show ?thesis using r dc leave_cases(2)[OF l] by auto
qed

text \<open>Leaving confirms the trial of the version that ran, never that of the version just staged.\<close>

lemma staged_trial_survives_exit:
  assumes "read_trial s = Some tr" "\<not> trial_is_for tr running_version"
  shows "snd (confirm_on_exit confirm running_version s) = s"
  using assms
  by (auto simp: confirm_on_exit_def confirm_alive_def with_boot_lock_def best_effort_def andThen_def look_def ret_def
      split: option.splits LockAttempt.splits)

definition toy_signals :: Signals where
  "toy_signals = \<lparr>operator_at = Some 61000, restart_at = Some 1000, takeover_at = None, takeover_first = False\<rparr>"

definition toy_teardown :: Teardown where
  "toy_teardown = \<lparr>quiesce_takes = 0, drain_polls = (\<lambda>x. (if x < 1500 then 1 else 0, 0, 0)), confirm_takes = 0, shutdown_takes = 2000\<rparr>"

lemma toy_drain:
  "drain_until_idle (drain_polls toy_teardown) (quiesce_takes toy_teardown) DRAIN_POLL UPDATE_DRAIN_DEADLINE 1000 = Some (True, 1500)"
  by (simp add: drain_until_idle_def toy_teardown_def drain_loop.simps DRAIN_POLL_def UPDATE_DRAIN_DEADLINE_def)

lemma toy_leave: "leave_serve_loop toy_signals 0 = Some (Update, 1000)"
  by (simp add: leave_serve_loop_def await_node_shutdown_def seen_from_def toy_signals_def)

lemma toy_drained: "drained_until toy_signals toy_teardown Update 1000 = Some (True, 1500)"
  by (auto simp: drained_until_def toy_drain drain_with_operator_override_def seen_from_def toy_signals_def)

lemma toy_teardown_ends: "node_teardown toy_signals toy_teardown 0 = Some (True, 3500)"
proof -
  have "confirm_takes toy_teardown = 0" "shutdown_takes toy_teardown = 2000" "operator_at toy_signals = Some 61000"
    by (simp_all add: toy_teardown_def toy_signals_def)
  then show ?thesis by (simp add: node_teardown_def toy_leave toy_drained operator_stop_pending_def)
qed

theorem operator_stop_wins_witness:
  "restart_at toy_signals \<noteq> None \<and> \<not> operator_stop_pending (operator_at toy_signals) 3500 \<and> (3500::nat) \<le> 61000 + 2000"
  using operator_stop_wins[OF toy_teardown_ends] by (simp add: toy_signals_def toy_teardown_def)

lemma leaves_by:
  assumes "restart_at sig = Some r"
  shows "\<exists>cause left. leave_serve_loop sig t = Some (cause, left) \<and> left \<le> max t r"
proof -
  obtain c x where c: "await_node_shutdown (operator_at sig) (restart_at sig) t = Some (c, x)" "x \<le> max t r"
    by (cases "operator_at sig"; cases "case operator_at sig of Some a \<Rightarrow> max t a \<le> max t r | None \<Rightarrow> False")
      (auto simp: assms await_node_shutdown_def seen_from_def)
  then show ?thesis by (cases "takeover_at sig") (auto simp: leave_serve_loop_def seen_from_def)
qed

text \<open>A node that is asked to restart for an update or to stop does end: the drain of the running
  generations is over, whatever they do, one deadline, one interval and one poll after it began.
\<close>

theorem restart_is_bounded:
  assumes asked: "restart_at sig = Some r" and polls: "\<forall>x. snd (snd (drain_polls w x)) \<le> cost"
  shows "\<exists>restarts ended. node_teardown sig w t = Some (restarts, ended) \<and>
           ended \<le> max t r + confirm_takes w + quiesce_takes w + 60500 + cost + shutdown_takes w"
proof -
  obtain cause left where l: "leave_serve_loop sig t = Some (cause, left)" "left \<le> max t r"
    using leaves_by[OF asked] by blast
  let ?t = "left + confirm_takes w"
  from drain_ends[of "drain_polls w" cost DRAIN_POLL "quiesce_takes w" UPDATE_DRAIN_DEADLINE ?t] polls
  obtain drained e where
    e: "drain_until_idle (drain_polls w) (quiesce_takes w) DRAIN_POLL UPDATE_DRAIN_DEADLINE ?t = Some (drained, e)"
      "?t \<le> e" "e \<le> ?t + quiesce_takes w + 60500 + cost"
    by (auto simp: DRAIN_POLL_def UPDATE_DRAIN_DEADLINE_def)
  have "\<exists>go e'. drained_until sig w cause ?t = Some (go, e') \<and> e' \<le> ?t + quiesce_takes w + 60500 + cost"
    using e by (cases cause; cases "operator_at sig")
      (auto simp: drained_until_def drain_with_operator_override_def seen_from_def)
  with l show ?thesis by (fastforce simp: node_teardown_def Let_def)
qed

theorem restart_is_bounded_witness:
  "\<exists>restarts ended. node_teardown toy_signals toy_teardown 0 = Some (restarts, ended) \<and> ended \<le> 1000 + 60500 + 2000"
  using restart_is_bounded[of toy_signals 1000 toy_teardown 0 0] by (simp add: toy_signals_def toy_teardown_def)

end
