(* ===== verification/V1_Props.thy ===== *)
theory V1_Props
  imports Chat_Stream
begin

text \<open>
  What the public chat surface guarantees: nothing that looks like a path or an address
  crosses it in an error, an overflow carries its client code wherever it was found, only
  validated requests are dispatched, the prompt estimate is that of the flattened messages,
  and the outcome of the worker arrives as it left.
\<close>

subsection \<open>Redaction\<close>

























text \<open>A path behind a line break is not a token of its own and stays.\<close>

theorem path_after_newline_is_shown:
  "redact_paths (''cannot open:'' @ NL @ ''/home/u/m.gguf'') = ''cannot open:'' @ NL @ ''/home/u/m.gguf''"
  by (simp add: redact_paths_def NL_def is_sensitive_def trim_matches_def trim_char_def rsplit_colon_def Let_def
      ascii_alphabetic_def byte_in_def is_digit_def)

subsection \<open>Error codes\<close>

text \<open>A context overflow has one face: whether the gate estimated it or the worker's tokenizer
  found it, the client gets status 400 with the code \<open>context_length_exceeded\<close>, in a response
  and in a stream; a model that is not prepared or stale gets 400 with its own code, and a
  model that is not there 404.\<close>

theorem client_codes:
  "v1_error display (ContextOverflow a b c) =
     (400, \<lparr>ae_message = redact_paths (display (ContextOverflow a b c)), ae_type = ''invalid_request_error'',
            ae_code = Some ''context_length_exceeded''\<rparr>) \<and>
   v1_error display (WorkerRpc m msg (Some (error_code (ContextOverflow a b c)))) =
     (400, \<lparr>ae_message = redact_paths (display (WorkerRpc m msg (Some (error_code (ContextOverflow a b c))))),
            ae_type = ''invalid_request_error'', ae_code = Some ''context_length_exceeded''\<rparr>) \<and>
   map (\<lambda>e. (fst (v1_error display e), ae_code (snd (v1_error display e))))
     [NotPrepared i, ProfileStale i, ModelNotFound i, ModelNotLoaded i, WorkerRpc m msg (Some ''HG003'')] =
     [(400, Some ''model_not_prepared''), (400, Some ''model_not_prepared''), (404, Some ''model_not_found''),
      (404, Some ''model_not_found''), (404, Some ''model_not_found'')]"
  by (simp add: v1_error_def v1_envelope_for_def v1_envelope_def http_status_def v1_error_code_def
      worker_code_status_def Let_def)

subsection \<open>What is dispatched\<close>

lemma sign_or_magnitude: "bit (t :: f32) 31 \<or> t = take_bit 31 t"
proof (rule disjCI)
  assume no: "t \<noteq> take_bit 31 t"
  show "bit t 31"
  proof (rule ccontr)
    assume sign: "\<not> bit t 31"
    have "t = take_bit 31 t"
    proof (rule bit_word_eqI)
      fix n assume "n < LENGTH(32)"
      then have "n < 31 \<or> n = 31" by auto
      then show "bit t n = bit (take_bit 31 t) n" using sign by (auto simp: bit_take_bit_iff)
    qed
    with no show False by simp
  qed
qed

text \<open>C24. Only a validated request is dispatched: serving is on, the gate has named the model and the
  budget, the temperature is a finite number that is not negative and so selects greedy
  sampling only when it is zero, no unsupported sampler is asked for, every message is text,
  and the budget is between one and 32768 tokens.\<close>

theorem dispatch_is_validated:
  assumes "v1_chat_completions w raw = Inr (r, d)"
  shows "vw_serving w \<and> validate_sampling r = Inr () \<and> (\<exists>pairs. messages_to_pairs (cr_messages r) = Inr pairs) \<and>
    1 \<le> cd_max_tokens d \<and> cd_max_tokens d \<le> 32768 \<and>
    (\<exists>l. go_result (resolve_loaded (vw_gate w) (cr_model r)) = Inr l \<and> cd_model d = li_id l) \<and>
    unsupported_sampler (cd_sampling d) = None \<and>
    (case temperature (cd_sampling d) of
       None \<Rightarrow> True
     | Some t \<Rightarrow> f32_finite t \<and> (f32_nonpos t \<longleftrightarrow> take_bit 31 t = 0))"
proof -
  obtain n where
    r: "vw_serving w" "gate_and_validate w r (raw_messages_json (vw_print w) raw) = Inr (cd_model d, n)"
    "cd_max_tokens d = n" "cd_sampling d = build_sampling r"
    using assms by (auto simp: v1_chat_completions_def Let_def split: sum.splits if_splits)
  have "\<exists>p pairs. fst (prepare_chat (vw_gate w) (vw_parse w) (cr_model r) (requested_max_tokens r)
          (raw_messages_json (vw_print w) raw)) = Inr p \<and> cd_model d = pc_resolved_model p \<and> n = pc_max_gen p \<and>
      validate_sampling r = Inr () \<and> messages_to_pairs (cr_messages r) = Inr pairs"
    using r(2) by (auto simp: gate_and_validate_def split: sum.splits)
  then obtain p pairs where
    p: "fst (prepare_chat (vw_gate w) (vw_parse w) (cr_model r) (requested_max_tokens r) (raw_messages_json (vw_print w) raw)) = Inr p"
    "cd_model d = pc_resolved_model p" "n = pc_max_gen p"
    and v: "validate_sampling r = Inr ()" "messages_to_pairs (cr_messages r) = Inr pairs"
    by blast
  obtain l b where l: "go_result (resolve_loaded (vw_gate w) (cr_model r)) = Inr l" "li_id l = pc_resolved_model p"
    and fit: "fit_generation_budget (requested_max_tokens r) (li_ctx_len l) b = Inr n"
    using p by (auto simp: prepare_chat_def Let_def)
  have req: "requested_max_tokens r \<noteq> Some 0"
  proof
    assume "requested_max_tokens r = Some 0"
    then have "effective_max_tokens r = 0"
      by (auto simp: requested_max_tokens_def effective_max_tokens_def unat_eq_zero)
    with v(1) show False by (simp add: validate_sampling_def split: if_splits)
  qed
  then have n: "1 \<le> n \<and> n \<le> 32768"
    using fit by (cases "requested_max_tokens r")
      (auto simp: fit_generation_budget_def Let_def MAX_OUTPUT_TOKENS_def min_def max_def
        split: option.splits CtxLen.splits if_splits)
  have "f32_finite t \<and> (f32_nonpos t \<longleftrightarrow> take_bit 31 t = 0)" if t: "cr_temperature r = Some t" for t
  proof -
    from v(1) t have f: "f32_finite t" "\<not> f32_negative t"
      by (auto simp: validate_sampling_def given_and_def split: if_splits)
    have "bit t 31 \<or> t = take_bit 31 t" by (rule sign_or_magnitude)
    with f show ?thesis by (auto simp: f32_nonpos_def f32_finite_def f32_negative_def)
  qed
  moreover have "unsupported_sampler (build_sampling r) = None"
    by (simp add: unsupported_sampler_def build_sampling_def sampling_default_def is_some_def)
  ultimately show ?thesis
    using r v p l n by (auto simp: build_sampling_def sampling_default_def split: option.split)
qed

definition demo_request :: ChatRequest where
  "demo_request =
     \<lparr>cr_model = ''m'', cr_messages = [User (UContent ''hi'')], cr_stream = None, cr_include_usage = None,
      cr_max_completion_tokens = None, cr_max_tokens = Some 64, cr_temperature = Some 0x3F333333, cr_top_p = None,
      cr_n = None, cr_presence_penalty = None, cr_frequency_penalty = None, cr_tools = None\<rparr>"

definition demo_v1 :: V1World where
  "demo_v1 =
     \<lparr>vw_typed = (\<lambda>_. Inr demo_request), vw_print = (\<lambda>_. []), vw_parse = (\<lambda>_. None), vw_display = error_code,
      vw_serving = True,
      vw_gate =
        \<lparr>gw_domain = Some Llm, gw_first_scan = Inr [], gw_local = Some (remote_placeholder ''m''\<lparr>li_ctx_len := Some (Fixed 48)\<rparr>),
         gw_benching = False, gw_fleet = None, gw_benching_later = False, gw_jit = False, gw_scan = Inr [],
         gw_profile = Inr Missing, gw_load = (\<lambda>_. None), gw_after = None\<rparr>\<rparr>"

theorem dispatch_is_validated_witness:
  "case v1_chat_completions demo_v1 (JObj []) of
     Inl _ \<Rightarrow> False
   | Inr (r, d) \<Rightarrow> r = demo_request \<and> cd_max_tokens d = 48 \<and> validate_sampling r = Inr () \<and> cd_model d = ''m''"
proof -
  let ?d = "\<lparr>cd_model = ''m'', cd_messages_json = [], cd_max_tokens = 48, cd_sampling = build_sampling demo_request,
    cd_tools_json = None, cd_template_kwargs = None\<rparr>"
  have run: "v1_chat_completions demo_v1 (JObj []) = Inr (demo_request, ?d)"
    by (simp add: v1_chat_completions_def demo_v1_def gate_and_validate_def prepare_chat_def resolve_loaded_def
        opt_filter_def served_by_def fit_generation_budget_def estimate_prompt_bytes_def raw_messages_json_def
        validate_sampling_def given_and_def f32_finite_def f32_negative_def effective_max_tokens_def
        requested_max_tokens_def messages_to_pairs_def serialize_tools_def template_kwargs_def remote_placeholder_def
        MAX_OUTPUT_TOKENS_def Let_def) (simp_all add: demo_request_def given_and_def f32_finite_def f32_negative_def
        effective_max_tokens_def take_bit_eq_mod)
  from dispatch_is_validated [OF run] run show ?thesis by simp
qed

subsection \<open>The size of a prompt\<close>

text \<open>The raw message behind a typed one, as far as its content goes.\<close>

definition text_part :: "string \<Rightarrow> json \<Rightarrow> bool" where
  "text_part t p \<longleftrightarrow> get_str ''type'' p = Some ''text'' \<and> get_str ''text'' p = Some t"

definition other_part :: "json \<Rightarrow> bool" where
  "other_part p \<longleftrightarrow> get_str ''type'' p \<noteq> Some ''text''"

fun user_part_of :: "UserPart \<Rightarrow> json \<Rightarrow> bool" where
  "user_part_of (UText t) p = text_part t p"
| "user_part_of _ p = other_part p"

fun assistant_part_of :: "AssistantPart \<Rightarrow> json \<Rightarrow> bool" where
  "assistant_part_of (AText t) p = text_part t p"
| "assistant_part_of (ARefusal _) p = other_part p"

fun text_content_of :: "TextContent \<Rightarrow> json option \<Rightarrow> bool" where
  "text_content_of (TText s) c \<longleftrightarrow> c = Some (JStr s)"
| "text_content_of (TArray ts) c \<longleftrightarrow> (\<exists>ps. c = Some (JArr ps) \<and> list_all2 text_part ts ps)"

fun content_of_message :: "Message \<Rightarrow> json option \<Rightarrow> bool" where
  "content_of_message (Developer t) c = text_content_of t c"
| "content_of_message (System t) c = text_content_of t c"
| "content_of_message (User (UContent s)) c \<longleftrightarrow> c = Some (JStr s)"
| "content_of_message (User (UArray us)) c \<longleftrightarrow> (\<exists>ps. c = Some (JArr ps) \<and> list_all2 user_part_of us ps)"
| "content_of_message (Assistant None) c \<longleftrightarrow> c = None \<or> c = Some JNull"
| "content_of_message (Assistant (Some (AContent s))) c \<longleftrightarrow> c = Some (JStr s)"
| "content_of_message (Assistant (Some (AArray us))) c \<longleftrightarrow>
     (\<exists>ps. c = Some (JArr ps) \<and> list_all2 assistant_part_of us ps)"
| "content_of_message (ToolMsg t) c = text_content_of t c"
| "content_of_message (FunctionMsg None) c \<longleftrightarrow> c = None \<or> c = Some JNull"
| "content_of_message (FunctionMsg (Some s)) c \<longleftrightarrow> c = Some (JStr s)"

definition parts_len :: "json list \<Rightarrow> nat option" where
  "parts_len ps =
     (let lens = map part_len ps
      in if None \<in> set lens then None else Some (sum_list (map the lens) + (length lens - 1)))"

lemma text_parts_len: "list_all2 text_part ts ps \<Longrightarrow> parts_len ps = Some (length (join_with NL ts))"
proof -
  assume p: "list_all2 text_part ts ps"
  then have "map part_len ps = map (\<lambda>t. Some (length t)) ts"
    by (induction) (auto simp: part_len_def text_part_def)
  then have "parts_len ps = Some (sum_list (map length ts) + (length ts - 1))"
    by (auto simp: parts_len_def Let_def o_def)
  then show ?thesis by (simp add: NL_def length_join)
qed

lemma try_parts_len:
  assumes "list_all2 R us ps" "\<And>u p. R u p \<Longrightarrow> part_len p = (case f u of Inl (_::string) \<Rightarrow> None | Inr t \<Rightarrow> Some (length t))"
  shows "parts_len ps = (case try_map f us of Inl _ \<Rightarrow> None | Inr ts \<Rightarrow> Some (length (join_with NL ts)))"
proof -
  have "map part_len ps = map (\<lambda>u. case f u of Inl _ \<Rightarrow> None | Inr t \<Rightarrow> Some (length t)) us"
    using assms(1) by (induction) (simp_all add: assms(2))
  moreover have "case try_map f us of
      Inl _ \<Rightarrow> None \<in> set (map (\<lambda>u. case f u of Inl _ \<Rightarrow> None | Inr t \<Rightarrow> Some (length t)) us)
    | Inr ts \<Rightarrow> map (\<lambda>u. case f u of Inl _ \<Rightarrow> None | Inr t \<Rightarrow> Some (length t)) us = map (\<lambda>t. Some (length t)) ts"
  proof (induction us)
    case (Cons u us)
    then show ?case by (cases "f u"; cases "try_map f us") simp_all
  qed simp
  ultimately show ?thesis
    by (cases "try_map f us") (auto simp: parts_len_def Let_def NL_def length_join o_def)
qed

lemma text_content_len:
  "text_content_of t (json_get ''content'' v) \<Longrightarrow> message_text_len v = Some (length (text_content t))"
  by (cases t) (auto simp: message_text_len_def parts_len_def [symmetric] text_parts_len)

lemma message_len:
  assumes "content_of_message m (json_get ''content'' v)"
  shows "message_text_len v = (case message_pair m of Inl _ \<Rightarrow> None | Inr (_, t) \<Rightarrow> Some (length t))"
proof -
  have user: "user_part_of u p \<Longrightarrow> part_len p = (case user_part u of Inl _ \<Rightarrow> None | Inr t \<Rightarrow> Some (length t))" for u p
    by (cases u) (auto simp: part_len_def text_part_def other_part_def)
  have asst: "assistant_part_of u p \<Longrightarrow> part_len p = (case assistant_part u of Inl _ \<Rightarrow> None | Inr t \<Rightarrow> Some (length t))" for u p
    by (cases u) (auto simp: part_len_def text_part_def other_part_def)
  have arr: "json_get ''content'' v = Some (JArr ps) \<Longrightarrow> message_text_len v = parts_len ps" for ps
    by (simp add: message_text_len_def parts_len_def)
  have flat: "json_get ''content'' v = Some (JStr s) \<Longrightarrow> message_text_len v = Some (length s)"
    "json_get ''content'' v = None \<or> json_get ''content'' v = Some JNull \<Longrightarrow> message_text_len v = Some 0" for s
    by (auto simp: message_text_len_def)
  show ?thesis
    using assms
    by (cases "(m, json_get ''content'' v)" rule: content_of_message.cases)
       (auto simp: text_content_len flat arr rbind_def
         try_parts_len [OF _ user] try_parts_len [OF _ asst] split: sum.split)
qed

text \<open>The gate's estimate of a prompt, read off the raw body, is the size of the flattened
  messages that the validation looks at, and 0 when the validation refuses them.\<close>

theorem estimate_is_flattened_size:
  assumes "parse messages_json = Some (JArr raws)"
    and "list_all2 (\<lambda>m v. content_of_message m (json_get ''content'' v)) ms raws"
  shows "estimate_prompt_bytes parse messages_json =
    (case messages_to_pairs ms of Inl _ \<Rightarrow> 0 | Inr pairs \<Rightarrow> sum_list (map (length \<circ> snd) pairs))"
proof -
  have "total_len (map message_text_len raws) acc =
      (case try_map message_pair ms of Inl _ \<Rightarrow> 0 | Inr pairs \<Rightarrow> acc + sum_list (map (length \<circ> snd) pairs))" for acc
    using assms(2)
  proof (induction arbitrary: acc)
    case (Cons m ms v raws)
    then show ?case
      by (cases "message_pair m"; cases "try_map message_pair ms") (auto simp: message_len split: prod.split)
  qed simp
  with assms(1) show ?thesis
    by (simp add: estimate_prompt_bytes_def messages_to_pairs_def split: sum.split)
qed

theorem estimate_is_flattened_size_witness:
  "estimate_prompt_bytes (\<lambda>s. Some (JArr [JObj [(''content'', JStr ''hello'')]])) [] = 5"
  using estimate_is_flattened_size [of "\<lambda>s. Some (JArr [JObj [(''content'', JStr ''hello'')]])" "[]"
      "[JObj [(''content'', JStr ''hello'')]]" "[User (UContent ''hello'')]"]
  by (simp add: messages_to_pairs_def)

subsection \<open>The outcome\<close>

text \<open>The outcome of a generation arrives as the engine reported it: what the worker writes as its
  result is read back field by field, up to an empty reasoning text and a null list of tool
  calls, which mean none.\<close>

theorem chat_result_roundtrip:
  "chat_outcome_from_value (chat_result_json r) =
     \<lparr>co_content = res_content r, co_finish_reason = finish_reason r,
      co_tool_calls = opt_filter (\<lambda>v. \<not> is_null v) (res_tool_calls r),
      co_reasoning_content = opt_filter (\<lambda>s. s \<noteq> []) (reasoning_content r),
      co_prompt_tokens = prompt_tokens r, co_completion_tokens = completion_tokens r\<rparr>"
  by (cases "res_tool_calls r"; cases "reasoning_content r")
     (simp_all add: chat_outcome_from_value_def chat_result_json_def opt_filter_def)

end
