(* ===== verification/Worker_Props.thy ===== *)
theory Worker_Props
  imports Worker Llama_Props Runtime_Load
begin

text \<open>
  What the worker promises its supervisor: a conversation of well-formed blocks, a status that
  tells what the engine holds, errors that keep their code, and the window the node has recorded.
\<close>

subsection \<open>The engine behind the worker\<close>

text \<open>What the worker relies on: \<open>holds\<close> is the parameters of the resident model.\<close>

locale engine_contract =
  fixes eng :: "'e HiggsEngine"
    and holds :: "'e \<Rightarrow> LlamaCppParams option"
  assumes load_ok: "eng_load eng path p e = (None, e') \<Longrightarrow> holds e' = Some p"
    and load_err: "eng_load eng path p e = (Some x, e') \<Longrightarrow> holds e' = None"
    and unload: "holds (eng_unload eng e) = None"
    and chat_keeps: "eng_chat eng m g e = (r, ds, e') \<Longrightarrow> holds e' = holds e"
    and is_loaded: "eng_is_loaded eng e \<longleftrightarrow> holds e \<noteq> None"
begin

definition truthful :: "'e WorkerState \<Rightarrow> bool" where
  "truthful st \<longleftrightarrow> map_option snd (wk_loaded st) = holds (wk_engine st)"

lemma truthful_load: "truthful st \<Longrightarrow> handle_load wr eng params st = (r, st') \<Longrightarrow> truthful st'"
  by (auto simp: truthful_def handle_load_def Let_def load_ok load_err split: option.splits prod.splits)

lemma truthful_chat: "truthful st \<Longrightarrow> handle_chat wr eng params st = (r, ns, st') \<Longrightarrow> truthful st'"
  by (auto simp: truthful_def handle_chat_def chat_keeps split: option.splits prod.splits)

lemma truthful_dispatch: "truthful st \<Longrightarrow> worker_dispatch wr eng req st = (r, ns, st') \<Longrightarrow> truthful st'"
  by (auto simp: worker_dispatch_def intro: truthful_load truthful_chat split: if_splits prod.splits)
     (auto simp: truthful_def unload)

lemma truthful_line: "truthful st \<Longrightarrow> serve_line wr eng line st = (fs, go, st') \<Longrightarrow> truthful st'"
  by (auto simp: serve_line_def intro: truthful_dispatch split: if_splits sum.splits RpcFrame.splits prod.splits)

lemma truthful_serve: "truthful st \<Longrightarrow> truthful (snd (serve_state wr eng ls st))"
proof (induction ls arbitrary: st)
  case (Cons l ls)
  show ?case
  proof (cases l)
    case (Some line)
    obtain fs go st1 where line: "serve_line wr eng line st = (fs, go, st1)" by (rule prod_cases3)
    then have "truthful st1" by (rule truthful_line [OF Cons.prems])
    from Cons.IH [OF this] \<open>truthful st1\<close> show ?thesis
      by (cases go) (auto simp: Some line split: prod.split)
  qed (use Cons in simp)
qed simp

end

definition llama_holds :: "('m, 'w) LlamaCppEngine \<Rightarrow> LlamaCppParams option" where
  "llama_holds s = map_option snd (resident_model s)"

lemma llama_chat_resident:
  "llama_chat ll messages gen s = (r, ds, s') \<Longrightarrow> resident_model s' = resident_model s"
  by (auto simp: llama_chat_def Let_def split: option.splits sum.splits prod.splits if_splits)

interpretation llama: engine_contract "llama_engine ll" llama_holds
proof
  show "llama_holds e' = Some p" if "eng_load (llama_engine ll) path p e = (None, e')" for path p e e'
    using that by (auto simp: llama_engine_def llama_holds_def llama_load_def load_failure_def Let_def
        split: option.splits prod.splits sum.splits)
  show "llama_holds e' = None" if "eng_load (llama_engine ll) path p e = (Some x, e')" for path p e x e'
    using that by (auto simp: llama_engine_def llama_holds_def llama_load_def load_failure_def Let_def
        split: option.splits prod.splits sum.splits)
  show "llama_holds e' = llama_holds e" if "eng_chat (llama_engine ll) m g e = (r, ds, e')" for m g e r ds e'
    using that llama_chat_resident [of ll m g e r ds e'] by (simp add: llama_engine_def llama_holds_def)
qed (simp_all add: llama_engine_def llama_holds_def llama_unload_def llama_is_loaded_def)

text \<open>
  The last load of a conversation that reached the engine, with the request loaded before it as the
  default: a load without a path is refused before the engine is touched, and nothing counts after
  a shutdown or a read error.
\<close>

fun latest_load :: "worker_wire \<Rightarrow> RpcRequest option \<Rightarrow> string option list \<Rightarrow> RpcRequest option" where
  "latest_load wr l [] = l"
| "latest_load wr l (None # ls) = l"
| "latest_load wr l (Some line # ls) =
     (if trim line = [] then latest_load wr l ls
      else case decode (w_parse wr) (w_why wr) line of
        Inr (Request req) \<Rightarrow>
          if req_method req = M_SHUTDOWN then l
          else latest_load wr (if req_method req = M_LOAD \<and> get_str ''path'' (req_params req) \<noteq> None
                             then Some req else l) ls
      | _ \<Rightarrow> latest_load wr l ls)"

definition loaded_by :: "worker_wire \<Rightarrow> RpcRequest option \<Rightarrow> 'e WorkerState \<Rightarrow> bool" where
  "loaded_by wr l st \<longleftrightarrow>
     (case wk_loaded st of
        None \<Rightarrow> True
      | Some (i, p) \<Rightarrow>
          \<exists>req. l = Some req \<and> i = unwrap_or [] (get_str ''id'' (req_params req)) \<and>
            p = worker_opts wr (req_params req))"

lemma handle_chat_loaded: "handle_chat wr eng params st = (r, ns, st') \<Longrightarrow> wk_loaded st' = wk_loaded st"
  by (auto simp: handle_chat_def split: option.splits prod.splits)

lemma loaded_by_dispatch:
  "loaded_by wr l st \<Longrightarrow> worker_dispatch wr eng req st = (r, ns, st') \<Longrightarrow>
     loaded_by wr (if req_method req = M_LOAD \<and> get_str ''path'' (req_params req) \<noteq> None
                   then Some req else l) st'"
  by (auto simp: worker_dispatch_def loaded_by_def handle_load_def Let_def method_names
      dest!: handle_chat_loaded split: if_splits prod.splits option.splits)

lemma loaded_by_serve:
  "loaded_by wr l st \<Longrightarrow> loaded_by wr (latest_load wr l ls) (snd (serve_state wr eng ls st))"
proof (induction ls arbitrary: l st)
  case (Cons x ls)
  show ?case
  proof (cases x)
    case (Some line)
    show ?thesis
    proof (cases "\<exists>req. trim line \<noteq> [] \<and> decode (w_parse wr) (w_why wr) line = Inr (Request req) \<and>
        req_method req \<noteq> M_SHUTDOWN")
      case True
      then obtain req where req: "trim line \<noteq> []" "decode (w_parse wr) (w_why wr) line = Inr (Request req)"
        "req_method req \<noteq> M_SHUTDOWN" by blast
      obtain r ns st1 where d: "worker_dispatch wr eng req st = (r, ns, st1)" by (rule prod_cases3)
      obtain fs st2 where rest: "serve_state wr eng ls st1 = (fs, st2)" by (cases "serve_state wr eng ls st1")
      from Cons.IH [OF loaded_by_dispatch [OF Cons.prems d]] req d Some rest show ?thesis
        by (simp add: serve_line_def split: if_splits)
    next
      case False
      obtain fs st2 where rest: "serve_state wr eng ls st = (fs, st2)" by (cases "serve_state wr eng ls st")
      then have "loaded_by wr (latest_load wr l ls) st2" using Cons.IH [OF Cons.prems] by simp
      with False Cons.prems Some rest show ?thesis
        by (auto simp: serve_line_def split: sum.splits RpcFrame.splits)
    qed
  qed (use Cons in simp)
qed simp

text \<open>What a status answer says, read by its fields.\<close>

definition status_says :: "json \<Rightarrow> string \<Rightarrow> LlamaCppParams \<Rightarrow> bool" where
  "status_says answer i p \<longleftrightarrow>
     (case json_get ''loaded'' answer of
        None \<Rightarrow> False
      | Some shown \<Rightarrow>
          get_str ''id'' shown = Some i \<and>
          Option.bind (json_get ''ctx_len'' shown) ctx_len_from_json = Some (ctx_len p) \<and>
          Option.bind (json_get ''gpu_layers'' shown) gpu_layers_from_json = Some (gpu_layers p) \<and>
          get_u64 ''threads'' shown = Some (uint (threads p)))"

lemma handle_status_says:
  assumes "wk_loaded st = Some (i, p)" "ctx_len p = ctx_fixed n"
  shows "status_says (handle_status st) i p"
  using assms
  by (cases "gpu_layers p")
    (auto simp: status_says_def handle_status_def ctx_len_from_json_def ctx_len_to_json_def ctx_fixed_def
      gpu_layers_from_json_def gpu_layers_to_json_def get_str_def get_u64_def)

text \<open>C23. The status a worker reports is true at all times. After any conversation a status request is
  answered at once and changes nothing. If the engine holds no model, the answer says that none is
  loaded. If it holds one, the answer shows the id of the last load request that reached the engine
  (the one that succeeded, the model having stayed since), and the context length, the GPU layers
  and the thread count that the engine runs with, each field read back by the decoder of its type;
  and what the engine runs with is what that request asked for.\<close>

theorem worker_status_is_true:
  "let eng = llama_engine ll;
       st = snd (serve_state wr eng ls (worker_new \<lparr>resident_model = None, diagnostics = d, native = w\<rparr> v));
       (answer, notes, st') = worker_dispatch wr eng (req\<lparr>req_method := M_STATUS\<rparr>) st
   in notes = [] \<and> st' = st \<and>
      (case (answer, resident_model (wk_engine st)) of
         (Inl _, _) \<Rightarrow> False
       | (Inr status, None) \<Rightarrow> json_get ''loaded'' status = Some JNull
       | (Inr status, Some (m, p)) \<Rightarrow>
           \<exists>load. latest_load wr None ls = Some load \<and>
             status_says status (unwrap_or [] (get_str ''id'' (req_params load))) p \<and>
             p = worker_opts wr (req_params load))"
proof -
  define st where "st = snd (serve_state wr (llama_engine ll) ls
      (worker_new \<lparr>resident_model = None, diagnostics = d, native = w\<rparr> v))"
  have "llama.truthful st" unfolding st_def
    by (rule llama.truthful_serve) (simp add: llama.truthful_def worker_new_def llama_holds_def)
  then have t: "map_option snd (wk_loaded st) = map_option snd (resident_model (wk_engine st))"
    by (simp add: llama.truthful_def llama_holds_def)
  have l: "loaded_by wr (latest_load wr None ls) st" unfolding st_def
    by (rule loaded_by_serve) (simp add: loaded_by_def worker_new_def)
  have ask: "worker_dispatch wr (llama_engine ll) (req\<lparr>req_method := M_STATUS\<rparr>) st =
      (Inr (handle_status st), [], st)"
    by (simp add: worker_dispatch_def)
  show ?thesis
  proof (cases "wk_loaded st")
    case None
    with t have "resident_model (wk_engine st) = None" by simp
    with None ask show ?thesis unfolding Let_def st_def [symmetric] by (simp add: handle_status_def)
  next
    case (Some ip)
    then obtain i p m where ip: "wk_loaded st = Some (i, p)" and m: "resident_model (wk_engine st) = Some (m, p)"
      using t by (cases ip; cases "resident_model (wk_engine st)") auto
    from l ip obtain load where load: "latest_load wr None ls = Some load"
      "i = unwrap_or [] (get_str ''id'' (req_params load))" "p = worker_opts wr (req_params load)"
      by (auto simp: loaded_by_def)
    have "ctx_len p = ctx_fixed (worker_ctx (req_params load))" by (simp add: load(3) worker_opts_def)
    from handle_status_says [OF ip this] load m ask show ?thesis
      unfolding Let_def st_def [symmetric] by simp
  qed
qed

subsection \<open>The conversation\<close>

fun is_note :: "RpcFrame \<Rightarrow> bool" where
  "is_note (Notification _) = True"
| "is_note _ = False"

text \<open>A chunk that belongs to a request: only a chat has any, and each carries its \<open>request_id\<close>.\<close>

definition chunk_of :: "RpcRequest \<Rightarrow> RpcFrame \<Rightarrow> bool" where
  "chunk_of req f =
     (case f of
        Notification n \<Rightarrow>
          req_method req = M_CHAT \<and> notif_method n = N_CHAT_CHUNK \<and>
          json_get ''request_id'' (notif_params n) =
            Some (unwrap_or JNull (json_get ''request_id'' (req_params req)))
      | _ \<Rightarrow> False)"

text \<open>One of result and error.\<close>

definition answers :: "u64 \<Rightarrow> RpcFrame \<Rightarrow> bool" where
  "answers i f =
     (case f of
        Response r \<Rightarrow> resp_id r = i \<and> (resp_result r = None) \<noteq> (resp_error r = None)
      | _ \<Rightarrow> False)"

text \<open>The grammar of the output for an input: per request its chunks and then its response; a line
  that is not a frame is answered under id 0, anything else is passed over, and nothing follows
  the answer to a shutdown or a read error.\<close>

fun conversation :: "worker_wire \<Rightarrow> string option list \<Rightarrow> RpcFrame list \<Rightarrow> bool" where
  "conversation wr [] fs \<longleftrightarrow> fs = []"
| "conversation wr (None # ls) fs \<longleftrightarrow> fs = []"
| "conversation wr (Some line # ls) fs \<longleftrightarrow>
     (if trim line = [] then conversation wr ls fs
      else case decode (w_parse wr) (w_why wr) line of
        Inr (Request req) \<Rightarrow>
          (let rest = dropWhile is_note fs in
             list_all (chunk_of req) (takeWhile is_note fs) \<and> rest \<noteq> [] \<and>
             answers (req_id req) (hd rest) \<and>
             (if req_method req = M_SHUTDOWN then tl rest = [] else conversation wr ls (tl rest)))
      | Inr _ \<Rightarrow> conversation wr ls fs
      | Inl e \<Rightarrow> fs \<noteq> [] \<and> answers 0 (hd fs) \<and> conversation wr ls (tl fs))"

lemma answers_respond [simp]: "answers i (respond i out)" "\<not> is_note (respond i out)"
  by (cases out; simp add: answers_def respond_def)+

lemma chat_chunks:
  "worker_dispatch wr eng req st = (out, ns, st') \<Longrightarrow> list_all (chunk_of req) ns \<and> list_all is_note ns"
proof -
  assume d: "worker_dispatch wr eng req st = (out, ns, st')"
  have "ns = [] \<or> req_method req = M_CHAT \<and>
      (\<exists>ds. ns = map (chat_note (unwrap_or JNull (json_get ''request_id'' (req_params req)))) ds)"
    using d by (auto simp: worker_dispatch_def handle_chat_def split: if_splits prod.splits option.splits)
  moreover have "json_get ''request_id'' (encode_chunk_params i k t) = Some i" for i k t
    by (cases k) simp_all
  ultimately show ?thesis
    by (auto simp: list_all_iff chunk_of_def chat_note_def)
qed

lemma takeWhile_notes [simp]:
  "list_all is_note ns \<Longrightarrow> takeWhile is_note (ns @ respond i out # fs) = ns"
  "list_all is_note ns \<Longrightarrow> dropWhile is_note (ns @ respond i out # fs) = respond i out # fs"
  subgoal by (induction ns) auto
  subgoal by (induction ns) auto
  done

text \<open>C22. A worker answers every request exactly once, under its id and in order, over any input:
  the chunks of a chat come before its response and carry its \<open>request_id\<close>, no other request
  has chunks, an undecodable line is answered under id 0, frames that are not requests are not
  answered, and after a shutdown nothing is.\<close>

theorem worker_conversation:
  "conversation wr ls (fst (serve_state wr eng ls st))"
proof (induction wr eng ls st rule: serve_state.induct)
  case (3 wr eng line ls st)
  obtain fs go st1 where line: "serve_line wr eng line st = (fs, go, st1)" by (rule prod_cases3)
  obtain rest st2 where rest: "serve_state wr eng ls st1 = (rest, st2)" by fastforce
  have IH: "go \<Longrightarrow> conversation wr ls rest" using 3 [of fs "(go, st1)" go st1] line rest by auto
  have run: "fst (serve_state wr eng (Some line # ls) st) = (if go then fs @ rest else fs)"
    by (cases go) (simp_all add: line rest)
  show ?case
  proof (cases "trim line = []")
    case True
    with line have "fs = []" go by (simp_all add: serve_line_def)
    with run IH True show ?thesis by simp
  next
    case False
    show ?thesis
    proof (cases "decode (w_parse wr) (w_why wr) line")
      case (Inl e)
      with line False have "fs = [respond 0 (Inl (parse_error wr e))]" go by (simp_all add: serve_line_def)
      with run IH False Inl show ?thesis by simp
    next
      case (Inr f)
      show ?thesis
      proof (cases f)
        case (Request req)
        obtain out ns st3 where d: "worker_dispatch wr eng req st = (out, ns, st3)" by (rule prod_cases3)
        show ?thesis
        proof (cases "req_method req = M_SHUTDOWN")
          case True
          with line False Inr Request have "fs = [respond (req_id req) (Inr (JObj []))]" "\<not> go"
            by (simp_all add: serve_line_def)
          with run False Inr Request True show ?thesis by simp
        next
          case no: False
          with line False Inr Request d have fs: "fs = ns @ [respond (req_id req) out]" and go
            by (simp_all add: serve_line_def)
          with run IH False Inr Request no chat_chunks [OF d] show ?thesis by simp
        qed
      qed (use line False Inr run IH in \<open>simp_all add: serve_line_def\<close>)
    qed
  qed
qed simp_all

subsection \<open>Errors\<close>

definition demo_wire :: worker_wire where
  "demo_wire =
     \<lparr>w_parse = (\<lambda>s. Inl ''bad''), w_why = (\<lambda>j. []), w_display = error_code,
      w_load_opts = (\<lambda>j. None), w_sampling = (\<lambda>j. None), w_f32 = (\<lambda>j. None)\<rparr>"

text \<open>An error of the worker keeps its diagnostic code on the way to the node: whatever the engine
  or the loop refuses, the frame the worker writes is decoded by the supervisor as the answer
  to that request, and its caller gets the error under the origin code, from which the HTTP
  status is taken. This needs only that the JSON library parses what it printed.\<close>

theorem worker_error_keeps_its_code:
  assumes "parse (print (frame_to_json (respond i (Inl (to_rpc_error wr e))))) =
    Inr (frame_to_json (respond i (Inl (to_rpc_error wr e))))"
  shows "case decode parse why (encode print (respond i (Inl (to_rpc_error wr e)))) of
      Inr (Response r) \<Rightarrow>
        resp_id r = i \<and> response_result method r = Inl (WorkerRpc method (w_display wr e) (Some (error_code e)))
    | _ \<Rightarrow> False"
proof -
  have "codes_in_range (respond i (Inl (to_rpc_error wr e)))"
    by (simp add: codes_in_range_def respond_def to_rpc_error_def as_i64_def)
  then have "decode parse why (encode print (respond i (Inl (to_rpc_error wr e)))) =
      Inr (wire_frame (respond i (Inl (to_rpc_error wr e))))"
    using assms by (simp add: decode_def encode_def decode_frame_to_json)
  then show ?thesis
    by (simp add: respond_def to_rpc_error_def wire_error_def response_result_def)
qed

definition demo_failure :: RpcFrame where
  "demo_failure = respond 3 (Inl (to_rpc_error demo_wire (ModelNotLoaded ''unloaded'')))"

theorem worker_error_keeps_its_code_witness:
  "case decode (\<lambda>s. Inr (frame_to_json demo_failure)) (\<lambda>j. []) (encode (\<lambda>j. ''x'') demo_failure) of
      Inr (Response r) \<Rightarrow> response_result M_CHAT r = Inl (WorkerRpc M_CHAT ''HG003'' (Some ''HG003''))
    | _ \<Rightarrow> False"
  using worker_error_keeps_its_code [of "\<lambda>s. Inr (frame_to_json demo_failure)" "\<lambda>j. ''x''" 3 demo_wire
      "ModelNotLoaded ''unloaded''" M_CHAT "\<lambda>j. []", folded demo_failure_def]
  by (auto simp: demo_wire_def split: sum.splits RpcFrame.splits)

subsection \<open>The window\<close>

text \<open>C28. The window a node records for a loaded model is the window its worker runs with: the load
  the node sends, with its resolution of request and trained context, makes the worker load the
  resolved file with exactly the recorded window, the requested offload (every layer if
  none was asked for) and threads, and the engine then generates in that window, whatever the
  overrides contain.\<close>

theorem recorded_window_is_the_engines:
  assumes "effective_ctx requested ctx_train = (ctx, allocated)"
    and "distinct (map fst (unwrap_or [] extra))" "''id'' \<notin> fst ` set (unwrap_or [] extra)"
      "''path'' \<notin> fst ` set (unwrap_or [] extra)"
  shows "let params = worker_load_params i path ctx gpu thr extra; opts = worker_opts wr params in
    get_str ''path'' params = Some path \<and> get_str ''id'' params = Some i \<and>
    ctx_len opts = Fixed allocated \<and> effective_n_ctx ll opts m = allocated \<and>
    gpu_layers opts = unwrap_or All gpu \<and>
    threads opts = unwrap_or 4 (opt_filter (\<lambda>t. t > 0) thr)"
proof -
  let ?p = "worker_load_params i path ctx gpu thr extra"
  note wire = load_wire_contract [OF assms(2-4)]
  have "ctx \<noteq> Some 0" "allocated = unwrap_or DEFAULT_WORKER_CTX ctx"
    using assms(1) by (auto simp: effective_ctx_def Let_def opt_or_def opt_filter_def min_def DEFAULT_CTX_CAP_def
        split: option.splits if_splits)
  then have "worker_ctx ?p = allocated" "allocated \<noteq> 0"
    by (cases ctx; auto simp: worker_ctx_def u32_param_def get_u64_def wire DEFAULT_WORKER_CTX_def Let_def)+
  moreover have "Option.bind (json_get ''gpu_layers'' ?p) gpu_layers_from_json = gpu"
    by (cases gpu) (auto simp: wire gpu_layers_from_json_def gpu_layers_to_json_def split: GpuLayers.split)
  moreover have "u32_param ?p ''threads'' 4 = unwrap_or 4 (opt_filter (\<lambda>t. t > 0) thr)"
    by (cases thr) (auto simp: u32_param_def get_u64_def wire opt_filter_def word_gt_0)
  moreover have "get_str ''path'' ?p = Some path" "get_str ''id'' ?p = Some i"
    by (simp_all add: get_str_def wire)
  ultimately show ?thesis
    by (simp add: Let_def worker_opts_def ctx_fixed_def effective_n_ctx_def)
qed

theorem recorded_window_is_the_engines_witness:
  "effective_n_ctx demo_llama (worker_opts demo_wire (worker_load_params ''m'' ''/m.gguf'' None None None
     (Some [(''ctx_len'', JInt 7)]))) () = 4096"
  using recorded_window_is_the_engines [of None None None 4096 "Some [(''ctx_len'', JInt 7)]" "''m''" "''/m.gguf''"
      None None demo_wire demo_llama "()"]
  by (simp add: effective_ctx_def DEFAULT_WORKER_CTX_def opt_filter_def Let_def)

end
