(* ===== verification/Spec2Isabelle.thy ===== *)
theory Spec2Isabelle
  imports
    Prelude Json Engine_Params Diagnostics Text Tuning
    Load_Robustness Inventory Served Runtime Facade Chat_Gate
    Interfaces Delta_Queue Llama_Engine Reply_Demux Rpc Supervisor
    Worker V1_Chat Chat_Stream Ledger Download_Lock Download
    Runtime_Props Runtime_Load Facade_Node Facade_Moves Facade_Props Facade_Loads
    Handshake Pairing Fleet Fleet_Props Fleet_Ops Fleet_View
    Keystore Key_Facade Llama_Props Pull_Cancel Runtime_Chats Service_Unit
    Service_Install Service_Props Supervisor_Props Update_Trust Update_Verify Update_Fetch
    Update_Sources Update_Sources_Props Update_Install Update_Install_Props Update_Recovery Update_Apply
    Update_Restart V1_Props Worker_Props
begin

text \<open>
  A verification development of \<open>higgs\<close>, a local LLM runtime: a host process serves a chat API and
  owns worker processes that hold the models; remote nodes, each with workers of its own, are
  joined to a hub over authenticated QUIC connections and keep themselves up to date.

  \<^bold>\<open>The program and its parts.\<close> A request for a chat enters the HTTP surface (\<open>src/serve\<close>), is
  authorised against the key store (\<open>src/keys.rs\<close>, \<open>src/api/embed.rs\<close>) and routed by the facade
  (\<open>src/api.rs\<close>) to the local runtime or, through the fleet (\<open>src/node/fleet.rs\<close>), to a node. A
  runtime (\<open>src/node/runtime.rs\<close>) is one actor per host that owns its workers; each worker is a
  child process behind a supervisor (\<open>src/supervisor.rs\<close>), spoken to in JSON-RPC lines
  (\<open>src/rpc.rs\<close>) whose replies a correlation table (\<open>src/actor.rs\<close>) returns to the callers, and
  whose chat deltas pass through a bounded queue (\<open>src/delta_queue.rs\<close>). The fleet actor holds the
  hub's view of its nodes: who is admitted (\<open>src/auth.rs\<close>, \<open>src/node/mod.rs\<close>), what each node
  runs, which name routes where. Models arrive by downloads (\<open>src/download.rs\<close>,
  \<open>src/catalog\<close>), recorded in a ledger that several processes share. A node updates itself from
  signed releases (\<open>src/update.rs\<close>, \<open>src/node/self_update.rs\<close>, \<open>src/node/release_courier.rs\<close>) and
  restarts (\<open>src/node/cli.rs\<close>); it is installed as a service of the host
  (\<open>src/node/service.rs\<close>).

  \<^bold>\<open>Conventions.\<close> Structs are records, enums are datatypes, \<open>u32\<close> and \<open>u64\<close> are words (wrapping,
  saturating and checked operations written as the code has them), errors are values of
  \<open>HiggsError\<close> (theory Diagnostics) in a sum, and every early return is a branch. Actors are
  functions from a message and a state to a state in which the replies, events and started tasks
  are recorded; concurrent code is a step function or relation over the points at which tasks can
  interleave, and properties quantify over every schedule. Clocks, process identifiers, the network
  and the answers of libraries enter as arguments. Definitions compute, so that every hypothesis of
  a property is shown to hold at a concrete input by evaluation.

  \<^bold>\<open>Theories.\<close>

  \<^item> Prelude, Text, Json: machine integers, association lists, the string functions and the JSON
    values the code uses. Interfaces: the contracts between components as locales, each interpreted
    in the theory of its provider. Diagnostics: error values, codes, HTTP status
    (\<open>src/diagnostic.rs\<close>).

  \<^item> Rpc: bounded line reader and frames (\<open>src/rpc.rs\<close>). The reader refines a specification on
    whole lines whatever the chunks; frames decode to what was encoded.

  \<^item> Delta_Queue (\<open>src/delta_queue.rs\<close>): the merging queue is lossless and ordered, and bounded.
    Reply_Demux (\<open>src/actor.rs\<close>): each response reaches the caller of its identifier, once.

  \<^item> Supervisor, Supervisor_Props (\<open>src/supervisor.rs\<close>): callers, reader task, restart, start and
    stop as a step machine. A death wakes every caller, a stopped supervisor has no worker, each
    spawned child is owned or reaped, \<open>stop\<close> makes progress; two schedules in which the code
    departs from its comments are given as theorems.

  \<^item> Engine_Params (\<open>src/worker/engine\<close>), Load_Robustness (\<open>src/load_robustness.rs\<close>,
    \<open>src/serve/readiness.rs\<close>): parameters with their sentinels; the ladder of retries after a lack
    of memory ends and only ever lowers the demand.

  \<^item> Keystore, Key_Facade (\<open>src/keys.rs\<close>, \<open>src/api/embed.rs\<close>, \<open>src/api.rs\<close>, \<open>src/serve\<close>): keys,
    scopes, listeners. A listener beyond loopback never answers an unauthorised request.

  \<^item> Tuning (\<open>src/tune/store.rs\<close>, \<open>src/tune/bench.rs\<close>): saved profiles with their anchors and the
    benchmark search. What is stored is what was measured, the winner is the fastest candidate.

  \<^item> Facade, Facade_Node, Facade_Moves, Facade_Props, Facade_Loads (\<open>src/api.rs\<close>,
    \<open>src/api/guards.rs\<close>): the requests of the facade as tasks over the node's actor: loads with their
    retries, unloads, benchmarks, chats, shutdown, each of which may be dropped at any await.
    Facade_Node and Facade_Moves hold what a step leaves alone; then: no model has two workers in
    the registry (workers still loading or stopping are not in it), lock and flags are held exactly
    by their tasks, every progress bar is closed once, the permits of both gates are never lost.

  \<^item> Llama_Engine, Llama_Props (\<open>src/worker/engine/llamacpp\<close>): loading, the fit check, the decode
    loop and the parsing of its output, over the calls into the C library as parameters. Prompt and
    completion stay inside the window. Worker, Worker_Props (\<open>src/worker/mod.rs\<close>,
    \<open>src/worker/engine/mod.rs\<close>): the loop over requests; its status shows the last load that reached the engine and the
    parameters that engine runs with, each request is answered once, in order, and an error keeps
    its code up to the caller of the supervisor.

  \<^item> Chat_Gate (\<open>src/api/embed.rs\<close>, \<open>src/api.rs\<close>), V1_Chat (\<open>src/serve/v1.rs\<close>), Chat_Stream
    (\<open>src/serve/stream.rs\<close>), V1_Props: one chat of the public surface, from the request body through
    the gate and the validation to the response or the event stream. Only validated requests are
    dispatched, a stream follows the protocol, an error message shows none of its words that is an
    absolute path or an address; words end at spaces only, which is a recorded finding.

  \<^item> Download, Download_Lock, Ledger, Pull_Cancel (\<open>src/download.rs\<close>,
    \<open>src/catalog/download_lock.rs\<close>, \<open>src/catalog/ledger.rs\<close>, \<open>src/catalog/cancel.rs\<close>): a file appears
    complete or not at all and inside the models directory, whatever fails; a temporary stays only
    where its guard could not remove it; one holder per download; a terminal state whose write
    failed reaches the ledger with the next pass that succeeds, except for two ends in one
    millisecond (a theorem of its own); a cancelled pull says so.

  \<^item> Handshake, Pairing (\<open>src/remote.rs\<close>, \<open>src/node/mod.rs\<close>, \<open>src/auth.rs\<close>): admission and one-time
    tokens. Served, Inventory (\<open>src/node/served.rs\<close>, \<open>src/node/node_id.rs\<close>,
    \<open>src/node/worker_id.rs\<close>, \<open>src/remote.rs\<close>): names and identifiers.

  \<^item> Fleet, Fleet_Props, Fleet_Ops, Fleet_View (\<open>src/node/fleet.rs\<close>): the actor, its invariants over
    every mailbox, the operations that talk to a node while other messages arrive, and the view. A
    retired node leaves no trace and cannot come back through a stale admission; stale pulls and
    older snapshots never commit; every advertised model resolves.

  \<^item> Runtime, Runtime_Props, Runtime_Load, Runtime_Chats (\<open>src/node/runtime.rs\<close>): the actor of a
    node. After a shutdown nothing runs; every caller is answered once; a generating worker is not
    reaped; no worker a load brought up is lost; snapshots are numbered and truthful.

  \<^item> Update_Trust, Update_Verify, Update_Fetch, Update_Sources, Update_Sources_Props
    (\<open>src/update.rs\<close>, \<open>src/node/self_update.rs\<close>, \<open>src/node/release_courier.rs\<close>): which bytes are
    trusted, from where they may be fetched. The SSRF guard is membership in the reserved blocks;
    what verification returns is signed and has the signed hash.

  \<^item> Update_Install, Update_Install_Props, Update_Recovery (\<open>src/node/self_update.rs\<close>): the install
    directory as a state, its operations as programs whose every step may fail or be the last one
    before a crash. A small Hoare logic for such programs (\<open>triple\<close>, \<open>keeps\<close>) carries the proofs:
    \<open>current\<close> always names a complete version, moves only for a reason, and comes back after a
    crash loop. Update_Apply composes fetching, verification and install; Update_Restart is the
    restart afterwards (\<open>src/node/cli.rs\<close>), where a stop by the operator always wins.

  \<^item> Service_Unit, Service_Install, Service_Props (\<open>src/node/service.rs\<close>, the install part of
    \<open>src/node/cli.rs\<close>): the texts of the systemd unit and the launchd property list, the plans of
    commands and their run with its rollback. The commands are a parameter; under stated conditions
    on them an install leaves neither two definitions of the node nor none.

  \<^bold>\<open>Bounds and fuel.\<close> The loop of fallback pulls takes a script of answers and ends within
  6 steps and 5 more per push. Worker identifiers are fresh for the first \<open>2^32 - 2\<close> loads,
  snapshot numbers and load generations for \<open>2^64\<close> messages; the properties that need it say so.
  The spool is capped at 4 GiB, far below \<open>2^63\<close>, so its counter does not wrap. The boot budget
  is 3. The drain before an update restart is a \<open>partial_function\<close>, and is shown to return. The
  decode loop of the engine recurses on the budget the fit check allows, which is the bound the
  code's loop has; the load ladder of the facade on its list of rungs.

  \<^bold>\<open>Not modelled.\<close> The C library behind the engine, its log filter and the probes of the hardware
  (\<open>src/system.rs\<close>); process spawning and pipes below the steps of the supervisor; QUIC, TLS and
  the HTTP clients and servers; the JSON text, URL, archive, version and signature libraries and the
  OpenAI deserialiser, which are parameters; how systemd, launchd and a shell read the texts
  and commands an installation gives them; the other command lines (most of
  \<open>src/node/cli.rs\<close>), which drive the operating system; the
  estimators and the suggester of \<open>src/tune\<close>, which calculate with floating-point numbers; the
  catalog front end, the scan of the disk and the log bus. In the install model, a completed step is
  durable: the loss of writes that were not flushed before a power failure is not modelled.
  PROJECT.json lists each component with what is left out of it.
\<close>

end
